(* ===== verification/Prelude.thy ===== *)
theory Prelude
  imports Complex_Main "HOL-Library.AList" "HOL-Library.Sublist"
begin

text \<open>
  What every component shares: Go-style programs that return an error or a value and
  leave a state behind whichever of the two they return, the environment they run in
  (wall clock, random source, identifiers, and the outcome of each call to the
  database), the DynamoDB tables, and the rules by which invariants and step relations
  are carried through a program.

  A Go function \<open>func f(...) (T, error)\<close> that reads and writes tables is a value of
  type \<open>('s, 'e, 'a) prog\<close>: it maps the state to an error or a result and the state
  it leaves. \<open>bindE\<close> is the sequence \<open>x, err := f(); if err != nil { return err }\<close>,
  \<open>tryE\<close> is a call whose error the code looks at, \<open>forE\<close> is a \<open>for range\<close>
  loop with an early return.
\<close>

section \<open>Programs\<close>

type_synonym ('s, 'e, 'a) prog = "'s \<Rightarrow> ('e + 'a) \<times> 's"

named_theorems prog_simps \<open>one-step evaluation of the program combinators\<close>
named_theorems wp \<open>triples of the program combinators and of the operations\<close>
named_theorems tracks \<open>step relations of the program combinators and of the operations\<close>

definition ret :: "'a \<Rightarrow> ('s, 'e, 'a) prog" where
  "ret x = (\<lambda>s. (Inr x, s))"

definition throw :: "'e \<Rightarrow> ('s, 'e, 'a) prog" where
  "throw e = (\<lambda>s. (Inl e, s))"

definition bindE :: "('s, 'e, 'a) prog \<Rightarrow> ('a \<Rightarrow> ('s, 'e, 'b) prog) \<Rightarrow> ('s, 'e, 'b) prog" where
  "bindE f g = (\<lambda>s. case f s of (Inl e, t) \<Rightarrow> (Inl e, t) | (Inr x, t) \<Rightarrow> g x t)"

definition tryE :: "('s, 'e, 'a) prog \<Rightarrow> ('s, 'f, 'e + 'a) prog" where
  "tryE f = (\<lambda>s. case f s of (r, t) \<Rightarrow> (Inr r, t))"

definition mapErr :: "('e \<Rightarrow> 'f) \<Rightarrow> ('s, 'e, 'a) prog \<Rightarrow> ('s, 'f, 'a) prog" where
  "mapErr h f = (\<lambda>s. case f s of (Inl e, t) \<Rightarrow> (Inl (h e), t) | (Inr x, t) \<Rightarrow> (Inr x, t))"

definition gets :: "('s \<Rightarrow> 'a) \<Rightarrow> ('s, 'e, 'a) prog" where
  "gets f = (\<lambda>s. (Inr (f s), s))"

definition modify :: "('s \<Rightarrow> 's) \<Rightarrow> ('s, 'e, unit) prog" where
  "modify f = (\<lambda>s. (Inr (), f s))"

fun forE :: "'a list \<Rightarrow> ('a \<Rightarrow> ('s, 'e, unit) prog) \<Rightarrow> ('s, 'e, unit) prog" where
  "forE [] f = ret ()"
| "forE (x # xs) f = bindE (f x) (\<lambda>_. forE xs f)"

text \<open>A call whose error is only logged.\<close>

definition logE :: "('s, 'e, unit) prog \<Rightarrow> ('s, 'f, unit) prog" where
  "logE f = bindE (tryE f) (\<lambda>_. ret ())"

text \<open>The right-hand sides keep an \<open>id\<close>, so that the rules only apply to a program that is
  run on a state and never to the program itself.\<close>

lemma ret_run [simp, prog_simps]: "ret x s = (Inr x, id s)"
  by (simp add: ret_def)

lemma throw_run [simp, prog_simps]: "throw e s = (Inl e, id s)"
  by (simp add: throw_def)

lemma bindE_run [prog_simps]:
  "bindE f g s = (case f s of (Inl e, t) \<Rightarrow> (Inl e, t) | (Inr x, t) \<Rightarrow> g x t)"
  by (simp add: bindE_def)

lemma bindE_Inl [simp]: "f s = (Inl e, t) \<Longrightarrow> bindE f g s = (Inl e, t)"
  by (simp add: bindE_def)

lemma bindE_Inr [simp]: "f s = (Inr x, t) \<Longrightarrow> bindE f g s = g x t"
  by (simp add: bindE_def)

lemma tryE_run [simp, prog_simps]: "tryE f s = (Inr (fst (f s)), snd (f s))"
  by (simp add: tryE_def split: prod.split)

lemma mapErr_run [prog_simps]:
  "mapErr h f s = (case f s of (Inl e, t) \<Rightarrow> (Inl (h e), t) | (Inr x, t) \<Rightarrow> (Inr x, t))"
  by (simp add: mapErr_def)

lemma gets_run [simp, prog_simps]: "gets f s = (Inr (f s), s)"
  by (simp add: gets_def)

lemma modify_run [simp, prog_simps]: "modify f s = (Inr (), f s)"
  by (simp add: modify_def)

lemma logE_run [simp, prog_simps]: "logE f s = (Inr (), snd (f s))"
  by (simp add: logE_def bindE_def)

lemma bindE_InrE:
  assumes "bindE f g s = (Inr y, u)"
  obtains x t where "f s = (Inr x, t)" and "g x t = (Inr y, u)"
  using assms by (auto simp: bindE_def split: prod.splits sum.splits)

lemma bindE_ret [simp]: "bindE (ret x) g = g x"
  by (simp add: bindE_def ret_def)

lemma forE_append: "forE (xs @ ys) f = bindE (forE xs f) (\<lambda>_. forE ys f)"
  by (induction xs) (auto simp: bindE_def ret_def fun_eq_iff split: prod.splits sum.splits)

section \<open>Triples\<close>

text \<open>
  \<open>triple P f Q E\<close>: from a state in \<open>P\<close>, \<open>f\<close> ends in \<open>Q x\<close> when it returns
  \<open>x\<close> and in \<open>E e\<close> when it returns the error \<open>e\<close>. Both are needed, because an
  error return of the code leaves its writes behind.
\<close>

definition triple ::
  "('s \<Rightarrow> bool) \<Rightarrow> ('s, 'e, 'a) prog \<Rightarrow> ('a \<Rightarrow> 's \<Rightarrow> bool) \<Rightarrow> ('e \<Rightarrow> 's \<Rightarrow> bool) \<Rightarrow> bool" where
  "triple P f Q E \<longleftrightarrow>
     (\<forall>s. P s \<longrightarrow> (case f s of (Inl e, t) \<Rightarrow> E e t | (Inr x, t) \<Rightarrow> Q x t))"

definition preserves :: "('s \<Rightarrow> bool) \<Rightarrow> ('s, 'e, 'a) prog \<Rightarrow> bool" where
  "preserves I f \<longleftrightarrow> (\<forall>s. I s \<longrightarrow> I (snd (f s)))"

lemma preservesD: "preserves I f \<Longrightarrow> I s \<Longrightarrow> I (snd (f s))"
  by (simp add: preserves_def)

lemma triple_Inr: "triple P f Q E \<Longrightarrow> P s \<Longrightarrow> f s = (Inr x, t) \<Longrightarrow> Q x t"
  by (auto simp: triple_def)

lemma triple_Inl: "triple P f Q E \<Longrightarrow> P s \<Longrightarrow> f s = (Inl e, t) \<Longrightarrow> E e t"
  by (auto simp: triple_def)

lemma triple_bindE [wp]:
  "triple P f R E \<Longrightarrow> (\<And>x. triple (R x) (g x) Q E) \<Longrightarrow> triple P (bindE f g) Q E"
  unfolding triple_def bindE_def by (fastforce split: prod.splits sum.splits)

lemma triple_weaken:
  "triple P f Q E \<Longrightarrow> (\<And>s. P' s \<Longrightarrow> P s) \<Longrightarrow> (\<And>x s. Q x s \<Longrightarrow> Q' x s) \<Longrightarrow>
   (\<And>e s. E e s \<Longrightarrow> E' e s) \<Longrightarrow> triple P' f Q' E'"
  unfolding triple_def by (fastforce split: prod.splits sum.splits)

lemma preserves_ret [wp]: "preserves I (ret x)"
  by (simp add: preserves_def)

lemma preserves_throw [wp]: "preserves I (throw e)"
  by (simp add: preserves_def)

lemma preserves_gets [wp]: "preserves I (gets f)"
  by (simp add: preserves_def)

lemma preserves_bindE [wp]:
  "preserves I f \<Longrightarrow> (\<And>x. preserves I (g x)) \<Longrightarrow> preserves I (bindE f g)"
  by (fastforce simp: preserves_def bindE_def split: prod.splits sum.splits)

lemma preserves_tryE [wp]: "preserves I f \<Longrightarrow> preserves I (tryE f)"
  by (simp add: preserves_def)

lemma preserves_mapErr [wp]: "preserves I f \<Longrightarrow> preserves I (mapErr h f)"
  by (fastforce simp: preserves_def mapErr_def split: prod.splits sum.splits)

lemma preserves_logE [wp]: "preserves I f \<Longrightarrow> preserves I (logE f)"
  by (simp add: preserves_def)

lemma preserves_forE [wp]: "(\<And>x. x \<in> set xs \<Longrightarrow> preserves I (f x)) \<Longrightarrow> preserves I (forE xs f)"
  by (induction xs) (auto intro: preserves_ret preserves_bindE)

lemma preserves_if [wp]:
  "(b \<Longrightarrow> preserves I f) \<Longrightarrow> (\<not> b \<Longrightarrow> preserves I g) \<Longrightarrow> preserves I (if b then f else g)"
  by simp

text \<open>\<open>yields I f V\<close>: a value that \<open>f\<close> returns from a state in \<open>I\<close> satisfies \<open>V\<close>.\<close>

definition yields :: "('s \<Rightarrow> bool) \<Rightarrow> ('s, 'e, 'a) prog \<Rightarrow> ('a \<Rightarrow> bool) \<Rightarrow> bool" where
  "yields I f V \<longleftrightarrow> (\<forall>s x t. I s \<longrightarrow> f s = (Inr x, t) \<longrightarrow> V x)"

lemma yieldsD: "yields I f V \<Longrightarrow> I s \<Longrightarrow> f s = (Inr x, t) \<Longrightarrow> V x"
  by (auto simp: yields_def)

lemma preserves_bindE_val:
  assumes "preserves I f" and "yields I f V" and "\<And>x. V x \<Longrightarrow> preserves I (g x)"
  shows "preserves I (bindE f g)"
  unfolding preserves_def
proof (intro allI impI)
  fix s assume I: "I s"
  show "I (snd (bindE f g s))"
  proof (cases "f s")
    case (Pair r t)
    from preservesD [OF assms(1) I] Pair have t: "I t" by simp
    show ?thesis
    proof (cases r)
      case (Inl e)
      with Pair t show ?thesis by simp
    next
      case (Inr x)
      with Pair have "f s = (Inr x, t)" by simp
      with assms(2) I have "V x" by (rule yieldsD)
      with assms(3) t Pair Inr show ?thesis by (simp add: preservesD)
    qed
  qed
qed

lemma yields_bindE:
  assumes "preserves I f" and "yields I f V" and "\<And>x. V x \<Longrightarrow> yields I (g x) W"
  shows "yields I (bindE f g) W"
  unfolding yields_def
proof (intro allI impI)
  fix s y u assume I: "I s" and run: "bindE f g s = (Inr y, u)"
  from run obtain x t where fx: "f s = (Inr x, t)" and gx: "g x t = (Inr y, u)"
    by (rule bindE_InrE)
  from assms(1) I fx have "I t" by (auto dest: preservesD)
  with assms fx gx I show "W y" by (auto dest: yieldsD)
qed

lemma yields_tryE: "yields I f V \<Longrightarrow> yields I (tryE f) (\<lambda>r. \<forall>x. r = Inr x \<longrightarrow> V x)"
  unfolding yields_def by (auto simp: tryE_def split: prod.splits)

lemma yields_weaken: "yields I f V \<Longrightarrow> (\<And>x. V x \<Longrightarrow> W x) \<Longrightarrow> yields I f W"
  by (auto simp: yields_def)

lemma yields_ret: "V x \<Longrightarrow> yields I (ret x) V"
  by (simp add: yields_def)

lemma yields_throw: "yields I (throw e) V"
  by (simp add: yields_def)

lemma yields_True: "yields I f (\<lambda>_. True)"
  by (simp add: yields_def)

section \<open>Step relations\<close>

text \<open>
  \<open>tracks R f\<close>: whatever \<open>f\<close> returns, the state it leaves is related to the state it
  started in. For a reflexive and transitive \<open>R\<close> (a frame: these fields are not
  touched; a life cycle: requests only move along the edges of their state machine)
  the relation composes along the program, errors included.
\<close>

definition tracks :: "('s \<Rightarrow> 's \<Rightarrow> bool) \<Rightarrow> ('s, 'e, 'a) prog \<Rightarrow> bool" where
  "tracks R f \<longleftrightarrow> (\<forall>s. R s (snd (f s)))"

lemma tracksD: "tracks R f \<Longrightarrow> R s (snd (f s))"
  by (simp add: tracks_def)

lemma tracksD': "tracks R f \<Longrightarrow> f s = (r, t) \<Longrightarrow> R s t"
  by (drule tracksD [of R f s]) simp

locale step_order =
  fixes R :: "'s \<Rightarrow> 's \<Rightarrow> bool"
  assumes refl: "R s s"
    and trans: "R s t \<Longrightarrow> R t u \<Longrightarrow> R s u"
begin

lemma tracks_ret: "tracks R (ret x)"
  by (simp add: tracks_def refl)

lemma tracks_throw: "tracks R (throw e)"
  by (simp add: tracks_def refl)

lemma tracks_gets: "tracks R (gets f)"
  by (simp add: tracks_def refl)

lemma tracks_bindE: "tracks R f \<Longrightarrow> (\<And>x. tracks R (g x)) \<Longrightarrow> tracks R (bindE f g)"
  unfolding tracks_def bindE_def
  by (smt (verit) prod.collapse prod.simps(2) snd_conv sum.case_eq_if trans)

lemma tracks_bindE_val:
  "tracks R f \<Longrightarrow> (\<And>s x t. f s = (Inr x, t) \<Longrightarrow> R t (snd (g x t))) \<Longrightarrow> tracks R (bindE f g)"
  unfolding tracks_def bindE_def
  by (smt (verit) prod.collapse prod.simps(2) snd_conv sum.case_eq_if sum.collapse(2) trans)

lemma tracks_tryE: "tracks R f \<Longrightarrow> tracks R (tryE f)"
  by (simp add: tracks_def)

lemma tracks_mapErr: "tracks R f \<Longrightarrow> tracks R (mapErr h f)"
  unfolding tracks_def mapErr_def
  by (smt (verit) prod.collapse prod.simps(2) snd_conv sum.case_eq_if)

lemma tracks_logE: "tracks R f \<Longrightarrow> tracks R (logE f)"
  by (simp add: tracks_def)

lemma tracks_forE: "(\<And>x. x \<in> set xs \<Longrightarrow> tracks R (f x)) \<Longrightarrow> tracks R (forE xs f)"
  by (induction xs) (auto intro: tracks_ret tracks_bindE)

lemma tracks_if: "(b \<Longrightarrow> tracks R f) \<Longrightarrow> (\<not> b \<Longrightarrow> tracks R g) \<Longrightarrow> tracks R (if b then f else g)"
  by simp

lemmas tracks_intros = tracks_ret tracks_throw tracks_gets tracks_bindE tracks_tryE
  tracks_mapErr tracks_logE tracks_forE tracks_if

end

section \<open>The environment\<close>

text \<open>
  The wall clock is in nanoseconds since the Unix epoch, as Go's \<open>time.Time\<close>; one
  operation reads one instant. Timestamps are stored as RFC 3339 strings with a
  resolution of one second: a stored timestamp is \<open>Some\<close> of its Unix seconds and the
  empty string is \<open>None\<close>, which \<open>time.Parse\<close> turns into the zero time of Go
  (1 January of the year 1).

  \<open>faults\<close> is the list of the outcomes of the next calls to the database: a call may
  be served, be refused (an error, nothing written) or be applied with the answer
  lost (an error, although the write happened). The empty list means that every
  further call is served. \<open>rng\<close> and \<open>uuids\<close> are the random source and the
  identifier generator; a \<open>None\<close> of the random source is its error return.
\<close>

type_synonym time = int

datatype outcome = Served | Refused | Unacknowledged

record env =
  clock :: time
  faults :: "outcome list"
  rng :: "nat \<Rightarrow> nat option"
  rng_ix :: nat
  uuids :: "nat \<Rightarrow> string"
  uuid_ix :: nat

definition second :: time where "second = 1000000000"
definition minute :: time where "minute = 60 * second"
definition hour :: time where "hour = 3600 * second"
definition day :: time where "day = 86400 * second"

type_synonym stamp = "int option"

definition unix :: "time \<Rightarrow> int" where
  "unix t = t div 1000000000"

definition ts :: "time \<Rightarrow> stamp" where
  "ts t = Some (unix t)"

definition zero_time :: time where
  "zero_time = -62135596800 * 1000000000"

definition parse_time :: "stamp \<Rightarrow> time" where
  "parse_time s = (case s of None \<Rightarrow> zero_time | Some n \<Rightarrow> n * 1000000000)"

lemma parse_time_ts: "parse_time (ts t) \<le> t" "t < parse_time (ts t) + second"
  by (simp_all add: parse_time_def ts_def unix_def second_def)

lemma parse_time_ts_le: "t \<le> u \<Longrightarrow> parse_time (ts t) \<le> u"
  using parse_time_ts(1) [of t] by simp

lemma parse_time_mono: "t \<le> u \<Longrightarrow> parse_time (ts t) \<le> parse_time (ts u)"
  by (simp add: parse_time_def ts_def unix_def zdiv_mono1)

lemma unix_mono: "t \<le> u \<Longrightarrow> unix t \<le> unix u"
  by (simp add: unix_def zdiv_mono1)

definition now :: "('x env_scheme, 'e, time) prog" where
  "now = gets clock"

definition new_uuid :: "('x env_scheme, 'e, string) prog" where
  "new_uuid = (\<lambda>s. (Inr (uuids s (uuid_ix s)), s\<lparr>uuid_ix := Suc (uuid_ix s)\<rparr>))"

lemma now_run [simp, prog_simps]: "now s = (Inr (clock s), s)"
  by (simp add: now_def)

lemma new_uuid_run [simp, prog_simps]:
  "new_uuid s = (Inr (uuids s (uuid_ix s)), s\<lparr>uuid_ix := Suc (uuid_ix s)\<rparr>)"
  by (simp add: new_uuid_def)

section \<open>Calls to the database\<close>

text \<open>
  Every call takes the next outcome. A conditional write (a \<open>ConditionExpression\<close>, or
  a transaction of them) is checked and applied atomically, as DynamoDB documents;
  when the condition does not hold it fails with the given error and writes nothing.
\<close>

definition db_read :: "'e \<Rightarrow> ('x env_scheme \<Rightarrow> 'a) \<Rightarrow> ('x env_scheme, 'e, 'a) prog" where
  "db_read infra f = (\<lambda>s. case faults s of
       [] \<Rightarrow> (Inr (f s), s)
     | Served # os \<Rightarrow> (Inr (f s), s\<lparr>faults := os\<rparr>)
     | _ # os \<Rightarrow> (Inl infra, s\<lparr>faults := os\<rparr>))"

definition db_cond ::
  "'e \<Rightarrow> 'e \<Rightarrow> ('x env_scheme \<Rightarrow> bool) \<Rightarrow> ('x env_scheme \<Rightarrow> 'x env_scheme) \<Rightarrow>
   ('x env_scheme, 'e, unit) prog" where
  "db_cond infra failed c u = (\<lambda>s. case faults s of
       [] \<Rightarrow> if c s then (Inr (), u s) else (Inl failed, s)
     | Served # os \<Rightarrow>
         if c s then (Inr (), u (s\<lparr>faults := os\<rparr>)) else (Inl failed, s\<lparr>faults := os\<rparr>)
     | Refused # os \<Rightarrow> (Inl infra, s\<lparr>faults := os\<rparr>)
     | Unacknowledged # os \<Rightarrow>
         (Inl infra, if c s then u (s\<lparr>faults := os\<rparr>) else s\<lparr>faults := os\<rparr>))"

definition db_write ::
  "'e \<Rightarrow> ('x env_scheme \<Rightarrow> 'x env_scheme) \<Rightarrow> ('x env_scheme, 'e, unit) prog" where
  "db_write infra u = db_cond infra infra (\<lambda>_. True) u"

lemma db_read_calm [simp, prog_simps]: "faults s = [] \<Longrightarrow> db_read e f s = (Inr (f s), s)"
  by (simp add: db_read_def)

lemma db_cond_calm [simp, prog_simps]:
  "faults s = [] \<Longrightarrow> db_cond e d c u s = (if c s then (Inr (), u s) else (Inl d, s))"
  by (simp add: db_cond_def)

lemma db_write_calm [simp, prog_simps]: "faults s = [] \<Longrightarrow> db_write e u s = (Inr (), u s)"
  by (simp add: db_write_def)

text \<open>
  A property that does not look at the list of outcomes holds after a read if it held
  before, and after a write if the update keeps it where its condition holds.
\<close>

definition blind :: "('x env_scheme \<Rightarrow> 'a) \<Rightarrow> bool" where
  "blind P \<longleftrightarrow> (\<forall>s os. P (s\<lparr>faults := os\<rparr>) = P s)"

lemma blindD: "blind P \<Longrightarrow> P (s\<lparr>faults := os\<rparr>) = P s"
  by (simp add: blind_def)

lemma db_read_cases:
  "\<exists>os. snd (db_read e f s) = s\<lparr>faults := os\<rparr> \<and>
        (fst (db_read e f s) = Inr (f s) \<or> fst (db_read e f s) = Inl e)"
proof (cases "faults s")
  case Nil
  have "s = s\<lparr>faults := faults s\<rparr>" by simp
  with Nil show ?thesis by (metis db_read_calm fst_conv snd_conv)
next
  case (Cons a list)
  then show ?thesis by (cases a) (auto simp: db_read_def)
qed

text \<open>The state a conditional write leaves: the old one, or the updated one where its
  condition holds; an answer without an error means that it was updated.\<close>

lemma db_cond_cases:
  "\<exists>os. snd (db_cond e d c u s) = s\<lparr>faults := os\<rparr> \<and>
          (fst (db_cond e d c u s) = Inl e \<or> fst (db_cond e d c u s) = Inl d \<and> \<not> c s) \<or>
        snd (db_cond e d c u s) = u (s\<lparr>faults := os\<rparr>) \<and> c s \<and>
          (fst (db_cond e d c u s) = Inl e \<or> fst (db_cond e d c u s) = Inr ())"
proof (cases "faults s")
  case Nil
  have "s\<lparr>faults := faults s\<rparr> = s" by simp
  with Nil show ?thesis
    by (cases "c s") (metis db_cond_calm fst_conv snd_conv)+
next
  case (Cons a list)
  then show ?thesis by (cases a; cases "c s") (auto simp: db_cond_def)
qed

text \<open>Without lost answers, an error means that nothing was written.\<close>

definition honest :: "'x env_scheme \<Rightarrow> bool" where
  "honest s \<longleftrightarrow> Unacknowledged \<notin> set (faults s)"

lemma honest_calm [simp]: "faults s = [] \<Longrightarrow> honest s"
  by (simp add: honest_def)

lemma db_cond_honest:
  assumes "honest s"
  obtains (written) os where "db_cond e d c u s = (Inr (), u (s\<lparr>faults := os\<rparr>))" "c s" "set os \<subseteq> set (faults s)"
  | (refused) os where "db_cond e d c u s = (Inl e, s\<lparr>faults := os\<rparr>)" "set os \<subseteq> set (faults s)"
  | (failed) os where "db_cond e d c u s = (Inl d, s\<lparr>faults := os\<rparr>)" "\<not> c s" "set os \<subseteq> set (faults s)"
proof (cases "faults s")
  case Nil
  then have "s = s\<lparr>faults := []\<rparr>" by simp
  with Nil show ?thesis
    by (cases "c s") (metis db_cond_calm order_refl written, metis db_cond_calm order_refl failed)
next
  case (Cons a list)
  with assms have "a \<noteq> Unacknowledged" by (auto simp: honest_def)
  then show ?thesis
    using Cons written [of list] refused [of list] failed [of list]
    by (cases a; cases "c s") (auto simp: db_cond_def)
qed

lemma preserves_db_read [wp]:
  assumes "blind I" shows "preserves I (db_read e f)"
  unfolding preserves_def
proof (intro allI impI)
  fix s assume "I s"
  obtain os where "snd (db_read e f s) = s\<lparr>faults := os\<rparr>"
    using db_read_cases [of e f s] by blast
  with \<open>I s\<close> assms show "I (snd (db_read e f s))" by (simp add: blindD)
qed

lemma yields_db_read:
  assumes "\<And>s. I s \<Longrightarrow> V (f s)"
  shows "yields I (db_read e f) V"
  unfolding yields_def
proof (intro allI impI)
  fix s x t assume "I s" and "db_read e f s = (Inr x, t)"
  with db_read_cases [of e f s] assms [of s] show "V x" by auto
qed

lemma preserves_now [wp]: "preserves I now"
  by (simp add: preserves_def)

lemma preserves_db_cond:
  assumes "blind I" and "blind c" and step: "\<And>s. I s \<Longrightarrow> c s \<Longrightarrow> I (u s)"
  shows "preserves I (db_cond e d c u)"
  unfolding preserves_def
proof (intro allI impI)
  fix s assume I: "I s"
  obtain os where "snd (db_cond e d c u s) = s\<lparr>faults := os\<rparr> \<or>
      snd (db_cond e d c u s) = u (s\<lparr>faults := os\<rparr>) \<and> c s"
    using db_cond_cases [of e d c u s] by blast
  then show "I (snd (db_cond e d c u s))"
  proof
    assume "snd (db_cond e d c u s) = s\<lparr>faults := os\<rparr>"
    with I assms(1) show ?thesis by (simp add: blindD)
  next
    assume "snd (db_cond e d c u s) = u (s\<lparr>faults := os\<rparr>) \<and> c s"
    with I assms step [of "s\<lparr>faults := os\<rparr>"] show ?thesis by (simp add: blindD)
  qed
qed

lemma preserves_db_write:
  "blind I \<Longrightarrow> (\<And>s. I s \<Longrightarrow> I (u s)) \<Longrightarrow> preserves I (db_write e u)"
  unfolding db_write_def by (rule preserves_db_cond) (simp_all add: blind_def)

lemma tracks_db_read:
  assumes "\<And>s os. R s (s\<lparr>faults := os\<rparr>)"
  shows "tracks R (db_read e f)"
  unfolding tracks_def using assms db_read_cases by metis

lemma tracks_db_cond:
  assumes "\<And>s os. R s (s\<lparr>faults := os\<rparr>)"
    and "\<And>s os. c s \<Longrightarrow> R s (u (s\<lparr>faults := os\<rparr>))"
  shows "tracks R (db_cond e d c u)"
  unfolding tracks_def
proof
  fix s
  obtain os where "snd (db_cond e d c u s) = s\<lparr>faults := os\<rparr> \<or>
      snd (db_cond e d c u s) = u (s\<lparr>faults := os\<rparr>) \<and> c s"
    using db_cond_cases [of e d c u s] by blast
  with assms show "R s (snd (db_cond e d c u s))" by auto
qed

lemma tracks_db_write:
  "(\<And>s os. R s (s\<lparr>faults := os\<rparr>)) \<Longrightarrow>
   (\<And>s os. R s (u (s\<lparr>faults := os\<rparr>))) \<Longrightarrow> tracks R (db_write e u)"
  unfolding db_write_def by (rule tracks_db_cond) auto

section \<open>Tables\<close>

text \<open>
  A table is an association list from keys to items with distinct keys. A query reads
  the items whose key satisfies a condition, in table order (DynamoDB orders by sort
  key; no modelled code depends on the order).
\<close>

type_synonym ('k, 'v) table = "('k \<times> 'v) list"

definition tget :: "('k, 'v) table \<Rightarrow> 'k \<Rightarrow> 'v option" where
  "tget t k = map_of t k"

definition tput :: "'k \<Rightarrow> 'v \<Rightarrow> ('k, 'v) table \<Rightarrow> ('k, 'v) table" where
  "tput k v t = AList.update k v t"

definition tdel :: "'k \<Rightarrow> ('k, 'v) table \<Rightarrow> ('k, 'v) table" where
  "tdel k t = filter (\<lambda>p. fst p \<noteq> k) t"

definition tquery :: "('k \<Rightarrow> bool) \<Rightarrow> ('k, 'v) table \<Rightarrow> 'v list" where
  "tquery p t = map snd (filter (\<lambda>q. p (fst q)) t)"

definition tkeys :: "('k, 'v) table \<Rightarrow> bool" where
  "tkeys t \<longleftrightarrow> distinct (map fst t)"

text \<open>
  The contract of a keyed store, stated once for every table of the program: what a
  lookup returns after a write and after a deletion.
\<close>

locale keyed_store =
  fixes get :: "'t \<Rightarrow> 'k \<Rightarrow> 'v option"
    and put :: "'k \<Rightarrow> 'v \<Rightarrow> 't \<Rightarrow> 't"
    and del :: "'k \<Rightarrow> 't \<Rightarrow> 't"
  assumes get_put: "get (put k v t) = (get t)(k \<mapsto> v)"
    and get_del: "get (del k t) = (get t)(k := None)"
begin

lemma get_put_same: "get (put k v t) k = Some v"
  by (simp add: get_put)

lemma get_put_other: "j \<noteq> k \<Longrightarrow> get (put k v t) j = get t j"
  by (simp add: get_put)

lemma get_del_same: "get (del k t) k = None"
  by (simp add: get_del)

lemma get_del_other: "j \<noteq> k \<Longrightarrow> get (del k t) j = get t j"
  by (simp add: get_del)

lemma put_twice: "get (put k v (put k w t)) = get (put k v t)"
  by (simp add: get_put)

lemma del_put: "get (del k (put k v t)) = get (del k t)"
  by (simp add: get_put get_del)

lemma get_del_SomeD: "get (del k t) j = Some v \<Longrightarrow> j \<noteq> k \<and> get t j = Some v"
  by (auto simp: get_del split: if_splits)

end

lemma map_of_filter_key: "map_of (filter (\<lambda>p. fst p \<noteq> k) t) = (map_of t)(k := None)"
  by (induction t) (auto simp: fun_eq_iff)

interpretation tbl: keyed_store tget tput tdel
  by unfold_locales (auto simp: tget_def tput_def tdel_def update_conv map_of_filter_key fun_eq_iff)

declare tbl.get_put [simp] tbl.get_del [simp]

lemma tget_Nil [simp]: "tget [] k = None"
  by (simp add: tget_def)

lemma tget_Cons [simp]: "tget ((j, v) # t) k = (if k = j then Some v else tget t k)"
  by (simp add: tget_def)

lemma tkeys_Nil [simp]: "tkeys []"
  by (simp add: tkeys_def)

lemma tkeys_tput [simp]: "tkeys t \<Longrightarrow> tkeys (tput k v t)"
  by (simp add: tkeys_def tput_def distinct_update)

lemma tkeys_tdel [simp]: "tkeys t \<Longrightarrow> tkeys (tdel k t)"
  by (simp add: tkeys_def tdel_def distinct_map_filter)

lemma tmem: "tkeys t \<Longrightarrow> (k, v) \<in> set t \<longleftrightarrow> tget t k = Some v"
  by (simp add: tkeys_def tget_def)

lemma tquery_iff: "tkeys t \<Longrightarrow> v \<in> set (tquery p t) \<longleftrightarrow> (\<exists>k. p k \<and> tget t k = Some v)"
  by (force simp: tquery_def tget_def tkeys_def)

lemma tqueryD: "tkeys t \<Longrightarrow> v \<in> set (tquery p t) \<Longrightarrow> \<exists>k. p k \<and> tget t k = Some v"
  by (simp add: tquery_iff)

lemma tdel_tget_None: "tget t k = None \<Longrightarrow> tdel k t = t"
  by (auto simp: tget_def tdel_def map_of_eq_None_iff intro!: filter_True)

lemma find_SomeD: "List.find P xs = Some x \<Longrightarrow> x \<in> set xs \<and> P x"
  by (auto simp: find_Some_iff)

section \<open>Strings\<close>

definition has_prefix :: "string \<Rightarrow> string \<Rightarrow> bool" where
  "has_prefix s p \<longleftrightarrow> take (length p) s = p"

definition trim_prefix :: "string \<Rightarrow> string \<Rightarrow> string" where
  "trim_prefix s p = (if has_prefix s p then drop (length p) s else s)"

lemma has_prefix_append [simp]: "has_prefix (p @ s) p"
  by (simp add: has_prefix_def)

lemma trim_prefix_append [simp]: "trim_prefix (p @ s) p = s"
  by (simp add: trim_prefix_def)

lemma has_prefix_iff: "has_prefix s p \<longleftrightarrow> (\<exists>r. s = p @ r)"
  by (metis append_eq_conv_conj append_take_drop_id has_prefix_def)

lemma has_prefix_same [simp]: "has_prefix (p @ s) (p @ q) \<longleftrightarrow> has_prefix s q"
  by (auto simp: has_prefix_def)

section \<open>The first of a sorted batch\<close>

lemma length_filter_imp: "(\<And>x. x \<in> set xs \<Longrightarrow> P x \<Longrightarrow> Q x) \<Longrightarrow> length (filter P xs) \<le> length (filter Q xs)"
  by (induction xs) (simp_all add: le_SucI)

text \<open>An element is among the first \<open>k\<close> of a sorted list when fewer than \<open>k\<close> others are no larger.\<close>

lemma early_in_take:
  fixes f :: "'a \<Rightarrow> 'b::linorder"
  assumes "x \<in> set xs" and "length (filter (\<lambda>y. y \<noteq> x \<and> f y \<le> f x) xs) < k"
  shows "x \<in> set (take k (sort_key f xs))"
proof -
  have "x \<in> set (sort_key f xs)" using assms(1) by simp
  then obtain us vs where ys: "sort_key f xs = us @ x # vs" "x \<notin> set us" using split_list_first by fast
  have "sorted (map f (us @ x # vs))" using sorted_sort_key [of f xs] unfolding ys(1) .
  then have "\<forall>u \<in> set us. u \<noteq> x \<and> f u \<le> f x" using ys(2) by (auto simp: sorted_append)
  then have "length us \<le> length (filter (\<lambda>y. y \<noteq> x \<and> f y \<le> f x) (us @ x # vs))" by simp
  also have "\<dots> = length (filter (\<lambda>y. y \<noteq> x \<and> f y \<le> f x) xs)"
    unfolding ys(1) [symmetric] filter_sort by simp
  finally have "length us < k" using assms(2) by simp
  then show ?thesis unfolding ys(1) by (cases "k - length us") simp_all
qed

end
