(* ===== verification/Crypto.thy ===== *)
theory Crypto
  imports Prelude "HOL-Library.Word"
begin

text \<open>
  The opaque tokens of \<open>api/internal/crypto/token.go\<close>: random bytes, their base-62 and
  hexadecimal text, and the hash under which a token is stored. SHA-256 itself is a
  parameter (\<open>sha\<close>, from text to bytes); the hex encoding around it is modelled, so a
  theorem that needs two tokens to be told apart asks for two different digests.
\<close>

section \<open>Bytes and big integers\<close>

type_synonym byte = "8 word"

lemma unat_byte_less: "unat (x :: byte) < 256"
  using unsigned_less [of x, where ?'a = nat] by simp

text \<open>\<open>k\<close> bytes of a random number, most significant first.\<close>

fun bytes_be :: "nat \<Rightarrow> nat \<Rightarrow> byte list" where
  "bytes_be 0 n = []"
| "bytes_be (Suc k) n = bytes_be k (n div 256) @ [of_nat (n mod 256)]"

text \<open>\<open>big.Int.SetBytes\<close>: the bytes as a big-endian unsigned integer.\<close>

definition set_bytes :: "byte list \<Rightarrow> nat" where
  "set_bytes b = foldl (\<lambda>a x. a * 256 + unat x) 0 b"

definition generate_random :: "'e \<Rightarrow> nat \<Rightarrow> ('x env_scheme, 'e, byte list) prog" where
  "generate_random e bits = (\<lambda>s.
     let t = s\<lparr>rng_ix := Suc (rng_ix s)\<rparr>
     in case rng s (rng_ix s) of
          None \<Rightarrow> (Inl e, t)
        | Some n \<Rightarrow> (Inr (bytes_be (bits div 8) n), t))"

lemma length_bytes_be [simp]: "length (bytes_be k n) = k"
  by (induction k n rule: bytes_be.induct) auto

lemma set_bytes_snoc [simp]: "set_bytes (b @ [x]) = set_bytes b * 256 + unat x"
  by (simp add: set_bytes_def)

lemma set_bytes_Nil [simp]: "set_bytes [] = 0"
  by (simp add: set_bytes_def)

lemma set_bytes_be: "set_bytes (bytes_be k n) = n mod 256 ^ k"
proof (induction k n rule: bytes_be.induct)
  case (1 n)
  then show ?case by simp
next
  case (2 k n)
  have "unat (of_nat (n mod 256) :: byte) = n mod 256"
    by (simp add: unat_of_nat)
  with 2 show ?case by (simp add: mod_mult2_eq)
qed

lemma set_bytes_inject:
  "length a = length b \<Longrightarrow> set_bytes a = set_bytes b \<Longrightarrow> a = b"
proof (induction a arbitrary: b rule: rev_induct)
  case Nil
  then show ?case by simp
next
  case (snoc x a)
  from snoc.prems(1) obtain c y where b: "b = c @ [y]"
    by (metis Zero_not_Suc length_0_conv length_append_singleton rev_exhaust)
  have lt: "unat x < 256" "unat y < 256"
    by (simp_all add: unat_byte_less)
  have eq: "set_bytes a * 256 + unat x = set_bytes c * 256 + unat y"
    using snoc.prems(2) b by simp
  from arg_cong [OF eq, of "\<lambda>n. n div 256"] lt have "set_bytes a = set_bytes c" by simp
  moreover from this eq have "unat x = unat y" by simp
  ultimately
  show ?case using snoc.IH [of c] snoc.prems(1) b by (simp add: word_unat_eq_iff)
qed

lemma generate_random_Inr:
  "generate_random e bits s = (Inr b, t) \<Longrightarrow> t = s\<lparr>rng_ix := Suc (rng_ix s)\<rparr> \<and> length b = bits div 8"
  by (auto simp: generate_random_def Let_def split: option.splits)

section \<open>Base 62\<close>

definition base62_chars :: string where
  "base62_chars = ''0123456789ABCDEFGHIJKLMNOPQRSTUVWXYZabcdefghijklmnopqrstuvwxyz''"

text \<open>The loop of \<open>toBase62\<close> writes the digits least significant first; they are
  reversed at the end. Zero has no digits.\<close>

fun base62_loop :: "nat \<Rightarrow> string" where
  "base62_loop n = (if 0 < n then base62_chars ! (n mod 62) # base62_loop (n div 62) else [])"

declare base62_loop.simps [simp del]

definition to_base62 :: "byte list \<Rightarrow> string" where
  "to_base62 b = rev (base62_loop (set_bytes b))"

text \<open>The value a base-62 text denotes, as the specification of the loop.\<close>

definition digit62 :: "char \<Rightarrow> nat" where
  "digit62 c = length (takeWhile (\<lambda>x. x \<noteq> c) base62_chars)"

definition of_base62 :: "string \<Rightarrow> nat" where
  "of_base62 s = foldl (\<lambda>a c. a * 62 + digit62 c) 0 s"

lemma length_base62_chars: "length base62_chars = 62"
  by (simp add: base62_chars_def)

lemma distinct_base62_chars: "distinct base62_chars"
  by (simp add: base62_chars_def)

lemma takeWhile_distinct_nth:
  "distinct xs \<Longrightarrow> i < length xs \<Longrightarrow> length (takeWhile (\<lambda>x. x \<noteq> xs ! i) xs) = i"
proof (induction xs arbitrary: i)
  case Nil
  then show ?case by simp
next
  case (Cons a xs)
  then show ?case by (cases i) auto
qed

lemma digit62_nth: "i < 62 \<Longrightarrow> digit62 (base62_chars ! i) = i"
  unfolding digit62_def
  by (rule takeWhile_distinct_nth) (simp_all add: distinct_base62_chars length_base62_chars)

lemma of_base62_loop: "of_base62 (rev (base62_loop n)) = n"
proof (induction n rule: base62_loop.induct)
  case (1 n)
  show ?case
  proof (cases "0 < n")
    case True
    with 1 have "of_base62 (rev (base62_loop (n div 62))) = n div 62" by simp
    then have "foldl (\<lambda>a c. a * 62 + digit62 c) 0 (rev (base62_loop (n div 62))) = n div 62"
      by (simp add: of_base62_def)
    with True show ?thesis
      by (subst base62_loop.simps) (simp add: of_base62_def digit62_nth)
  next
    case False
    then show ?thesis by (subst base62_loop.simps) (simp add: of_base62_def)
  qed
qed

lemma of_base62_to_base62: "of_base62 (to_base62 b) = set_bytes b"
  by (simp add: to_base62_def of_base62_loop)

lemma base62_loop_chars: "set (base62_loop n) \<subseteq> set base62_chars"
proof (induction n rule: base62_loop.induct)
  case (1 n)
  have "base62_chars ! (n mod 62) \<in> set base62_chars"
    by (rule nth_mem) (simp add: length_base62_chars)
  with 1 show ?case by (subst base62_loop.simps) auto
qed

lemma base62_loop_length: "n < 62 ^ k \<Longrightarrow> length (base62_loop n) \<le> k"
proof (induction k arbitrary: n)
  case 0
  then show ?case by (subst base62_loop.simps) simp
next
  case (Suc k)
  then have "n div 62 < 62 ^ k" by (simp add: less_mult_imp_div_less mult.commute)
  with Suc.IH show ?case by (subst base62_loop.simps) auto
qed

section \<open>Hexadecimal text and hashes\<close>

definition hex_chars :: string where
  "hex_chars = ''0123456789abcdef''"

definition hex_byte :: "byte \<Rightarrow> string" where
  "hex_byte x = [hex_chars ! (unat x div 16), hex_chars ! (unat x mod 16)]"

definition hex_encode :: "byte list \<Rightarrow> string" where
  "hex_encode b = concat (map hex_byte b)"

definition hash_bytes :: "(string \<Rightarrow> byte list) \<Rightarrow> string \<Rightarrow> string" where
  "hash_bytes sha b = hex_encode (sha b)"

definition hash_token :: "(string \<Rightarrow> byte list) \<Rightarrow> string \<Rightarrow> string" where
  "hash_token sha tok = hash_bytes sha tok"

lemma hex_byte_inject: "hex_byte x = hex_byte y \<Longrightarrow> x = y"
proof -
  assume eq: "hex_byte x = hex_byte y"
  have d: "distinct hex_chars" and l: "length hex_chars = 16"
    by (simp_all add: hex_chars_def)
  have "unat x < 256" "unat y < 256"
    by (simp_all add: unat_byte_less)
  then have "unat x div 16 < 16" "unat y div 16 < 16" by simp_all
  with eq d l have "unat x div 16 = unat y div 16" "unat x mod 16 = unat y mod 16"
    by (simp_all add: hex_byte_def nth_eq_iff_index_eq)
  then have "unat x = unat y" by (metis div_mult_mod_eq)
  then show "x = y" by (simp add: word_unat_eq_iff)
qed

lemma hex_encode_Cons [simp]: "hex_encode (x # b) = hex_byte x @ hex_encode b"
  by (simp add: hex_encode_def)

lemma hex_encode_Nil [simp]: "hex_encode [] = []"
  by (simp add: hex_encode_def)

lemma length_hex_byte [simp]: "length (hex_byte x) = 2"
  by (simp add: hex_byte_def)

lemma length_hex_encode: "length (hex_encode b) = 2 * length b"
  by (induction b) auto

lemma hex_encode_inject: "hex_encode a = hex_encode b \<Longrightarrow> a = b"
proof (induction a arbitrary: b)
  case Nil
  then show ?case by (metis length_hex_encode list.size(3) length_0_conv mult_eq_0_iff zero_neq_numeral)
next
  case (Cons x a)
  from Cons.prems obtain y c where b: "b = y # c"
    by (cases b) (auto simp: hex_byte_def)
  with Cons.prems have "hex_byte x = hex_byte y" "hex_encode a = hex_encode c"
    by (simp_all add: append_eq_append_conv)
  with Cons.IH b show ?case by (auto dest: hex_byte_inject)
qed

lemma hash_token_eq_iff [simp]: "hash_token sha a = hash_token sha b \<longleftrightarrow> sha a = sha b"
  by (auto simp: hash_token_def hash_bytes_def dest: hex_encode_inject)

section \<open>Tokens\<close>

definition generate_opaque_token ::
  "(string \<Rightarrow> byte list) \<Rightarrow> 'e \<Rightarrow> ('x env_scheme, 'e, string \<times> string) prog" where
  "generate_opaque_token sha e =
     bindE (generate_random e 256) (\<lambda>b.
       let raw = ''ak_'' @ to_base62 b in ret (raw, hash_bytes sha raw))"

definition generate_refresh_token ::
  "(string \<Rightarrow> byte list) \<Rightarrow> 'e \<Rightarrow> ('x env_scheme, 'e, string \<times> string) prog" where
  "generate_refresh_token sha e =
     bindE (generate_random e 256) (\<lambda>b.
       let raw = ''rt_'' @ to_base62 b in ret (raw, hash_bytes sha raw))"

definition generate_code ::
  "(string \<Rightarrow> byte list) \<Rightarrow> 'e \<Rightarrow> ('x env_scheme, 'e, string \<times> string) prog" where
  "generate_code sha e =
     bindE (generate_random e 128) (\<lambda>b.
       let raw = to_base62 b in ret (raw, hash_bytes sha raw))"

definition generate_mfa_token ::
  "(string \<Rightarrow> byte list) \<Rightarrow> 'e \<Rightarrow> ('x env_scheme, 'e, string \<times> string) prog" where
  "generate_mfa_token sha e =
     bindE (generate_random e 128) (\<lambda>b.
       let raw = ''mfa_'' @ hex_encode b in ret (raw, hash_bytes sha raw))"

lemmas token_defs = generate_opaque_token_def generate_refresh_token_def generate_code_def
  generate_mfa_token_def

lemma generate_refresh_token_run:
  "generate_refresh_token sha e s =
     (case rng s (rng_ix s) of
        None \<Rightarrow> (Inl e, s\<lparr>rng_ix := Suc (rng_ix s)\<rparr>)
      | Some n \<Rightarrow>
          (let raw = ''rt_'' @ to_base62 (bytes_be 32 n)
           in (Inr (raw, hash_token sha raw), s\<lparr>rng_ix := Suc (rng_ix s)\<rparr>)))"
  by (auto simp: generate_refresh_token_def generate_random_def bindE_run Let_def hash_token_def
      split: option.splits)

lemma generate_opaque_token_run:
  "generate_opaque_token sha e s =
     (case rng s (rng_ix s) of
        None \<Rightarrow> (Inl e, s\<lparr>rng_ix := Suc (rng_ix s)\<rparr>)
      | Some n \<Rightarrow>
          (let raw = ''ak_'' @ to_base62 (bytes_be 32 n)
           in (Inr (raw, hash_token sha raw), s\<lparr>rng_ix := Suc (rng_ix s)\<rparr>)))"
  by (auto simp: generate_opaque_token_def generate_random_def bindE_run Let_def hash_token_def
      split: option.splits)

lemma generate_mfa_token_run:
  "generate_mfa_token sha e s =
     (case rng s (rng_ix s) of
        None \<Rightarrow> (Inl e, s\<lparr>rng_ix := Suc (rng_ix s)\<rparr>)
      | Some n \<Rightarrow>
          (let raw = ''mfa_'' @ hex_encode (bytes_be 16 n)
           in (Inr (raw, hash_token sha raw), s\<lparr>rng_ix := Suc (rng_ix s)\<rparr>)))"
  by (auto simp: generate_mfa_token_def generate_random_def bindE_run Let_def hash_token_def
      split: option.splits)

text \<open>Base-62 tokens lose nothing: the text of \<open>toBase62\<close> denotes exactly the
  integer the random bytes spell, uses only the 62 letters and digits of the alphabet, is
  at most 43 characters long for the 32 bytes of a refresh token, and two byte strings of
  the same length with the same text are equal.\<close>

theorem to_base62_faithful:
  "of_base62 (to_base62 b) = set_bytes b \<and>
   set (to_base62 b) \<subseteq> set base62_chars \<and>
   length (to_base62 (bytes_be 32 n)) \<le> 43 \<and>
   (to_base62 (bytes_be 32 n) = to_base62 (bytes_be 32 m)
      \<longrightarrow> bytes_be 32 n = bytes_be 32 m)"
proof -
  have "n mod 256 ^ 32 < 256 ^ 32" by simp
  also have "(256 :: nat) ^ 32 < 62 ^ 43" by simp
  finally have len: "length (to_base62 (bytes_be 32 n)) \<le> 43"
    by (simp add: to_base62_def set_bytes_be base62_loop_length)
  have inj: "to_base62 (bytes_be 32 n) = to_base62 (bytes_be 32 m) \<Longrightarrow> bytes_be 32 n = bytes_be 32 m"
    by (metis length_bytes_be of_base62_to_base62 set_bytes_inject)
  have "set (to_base62 b) \<subseteq> set base62_chars"
    by (simp add: to_base62_def base62_loop_chars)
  with len inj show ?thesis by (simp add: of_base62_to_base62)
qed

theorem to_base62_faithful_witness:
  "to_base62 (bytes_be 32 1) = ''1'' \<and> to_base62 (bytes_be 32 62) = ''10'' \<and>
   of_base62 (to_base62 [0, 1]) = set_bytes [0, 1]"
proof -
  have "of_base62 (to_base62 [0, 1]) = set_bytes [0, 1]"
    using to_base62_faithful [of "[0, 1]" 1 1] by blast
  moreover have "to_base62 (bytes_be 32 1) = ''1''" "to_base62 (bytes_be 32 62) = ''10''"
    by (simp_all add: to_base62_def set_bytes_be base62_loop.simps base62_chars_def)
  ultimately show ?thesis by blast
qed

end
