(* ===== verification/Scopes.thy ===== *)
theory Scopes
  imports Prelude
begin

text \<open>
  The scope grammar of \<open>api/internal/scopes/scopes.go\<close>. The two regular expressions of
  the source are kept as regular expressions, matched by derivatives; the matcher is
  shown to decide the language of the expression, and the languages are characterised
  by the colon-separated segments the package comment speaks of.
\<close>

section \<open>Regular expressions\<close>

datatype rexp = Eps | Cls "char list" | Alt rexp rexp | Seq rexp rexp | Star rexp | Nope

fun nullable :: "rexp \<Rightarrow> bool" where
  "nullable Eps = True"
| "nullable (Cls cs) = False"
| "nullable (Alt r q) = (nullable r \<or> nullable q)"
| "nullable (Seq r q) = (nullable r \<and> nullable q)"
| "nullable (Star r) = True"
| "nullable Nope = False"

fun deriv :: "char \<Rightarrow> rexp \<Rightarrow> rexp" where
  "deriv c Eps = Nope"
| "deriv c (Cls cs) = (if c \<in> set cs then Eps else Nope)"
| "deriv c (Alt r q) = Alt (deriv c r) (deriv c q)"
| "deriv c (Seq r q) =
     (if nullable r then Alt (Seq (deriv c r) q) (deriv c q) else Seq (deriv c r) q)"
| "deriv c (Star r) = Seq (deriv c r) (Star r)"
| "deriv c Nope = Nope"

fun match :: "rexp \<Rightarrow> string \<Rightarrow> bool" where
  "match r [] = nullable r"
| "match r (c # s) = match (deriv c r) s"

text \<open>The words an expression denotes.\<close>

inductive lang :: "rexp \<Rightarrow> string \<Rightarrow> bool" where
  eps: "lang Eps []"
| cls: "c \<in> set cs \<Longrightarrow> lang (Cls cs) [c]"
| altl: "lang r s \<Longrightarrow> lang (Alt r q) s"
| altr: "lang q s \<Longrightarrow> lang (Alt r q) s"
| seq: "lang r s \<Longrightarrow> lang q t \<Longrightarrow> lang (Seq r q) (s @ t)"
| star0: "lang (Star r) []"
| star1: "lang r s \<Longrightarrow> lang (Star r) t \<Longrightarrow> lang (Star r) (s @ t)"

inductive_cases lang_epsE [elim!]: "lang Eps s"
inductive_cases lang_clsE [elim!]: "lang (Cls cs) s"
inductive_cases lang_altE [elim!]: "lang (Alt r q) s"
inductive_cases lang_seqE [elim!]: "lang (Seq r q) s"
inductive_cases lang_nopeE [elim!]: "lang Nope s"
inductive_simps lang_eps [simp]: "lang Eps s"
inductive_simps lang_cls: "lang (Cls cs) s"
inductive_simps lang_alt [simp]: "lang (Alt r q) s"
inductive_simps lang_seq: "lang (Seq r q) s"

lemma nullable_lang: "nullable r \<longleftrightarrow> lang r []"
  by (induction r) (auto intro: lang.intros simp: lang_seq lang_cls)

lemma star_Cons:
  "lang q w \<Longrightarrow> q = Star r \<Longrightarrow> w = c # s \<Longrightarrow>
   \<exists>a b. s = a @ b \<and> lang r (c # a) \<and> lang (Star r) b"
proof (induction arbitrary: s rule: lang.induct)
  case (star1 r' u t)
  then show ?case by (cases u) auto
qed auto

lemma lang_star_Cons:
  "lang (Star r) (c # s) \<longleftrightarrow> (\<exists>a b. s = a @ b \<and> lang r (c # a) \<and> lang (Star r) b)"
  using star_Cons lang.star1 [of r "c # _"] by fastforce

lemma lang_seq_Cons:
  "lang (Seq r q) (c # s) \<longleftrightarrow>
     (\<exists>a b. s = a @ b \<and> lang r (c # a) \<and> lang q b) \<or> lang r [] \<and> lang q (c # s)"
  by (auto simp: lang_seq Cons_eq_append_conv intro: lang.intros)

lemma deriv_lang: "lang (deriv c r) s \<longleftrightarrow> lang r (c # s)"
proof (induction r arbitrary: s)
  case (Seq r q)
  then show ?case
    by (auto simp: lang_seq_Cons nullable_lang lang_seq [of "deriv c r"])
next
  case (Star r)
  then show ?case by (auto simp: lang_star_Cons lang_seq)
qed (auto simp: lang_cls intro: lang.intros)

lemma match_lang: "match r s \<longleftrightarrow> lang r s"
  by (induction s arbitrary: r) (simp_all add: nullable_lang deriv_lang)

section \<open>The scope grammar\<close>

definition seg_start :: "char list" where
  "seg_start = ''abcdefghijklmnopqrstuvwxyz0123456789''"

definition seg_char :: "char list" where
  "seg_char = ''abcdefghijklmnopqrstuvwxyz0123456789_-''"

definition r_seg :: rexp where
  "r_seg = Seq (Cls seg_start) (Star (Cls seg_char))"

definition r_colon :: rexp where
  "r_colon = Cls '':''"

definition r_star_or_seg :: rexp where
  "r_star_or_seg = Alt (Cls ''*'') r_seg"

fun r_lit :: "string \<Rightarrow> rexp" where
  "r_lit [] = Eps"
| "r_lit (c # s) = Seq (Cls [c]) (r_lit s)"

definition servicePattern :: rexp where
  "servicePattern =
     Seq r_seg (Seq r_colon (Seq r_star_or_seg (Alt Eps (Seq r_colon r_star_or_seg))))"

definition internalServicePattern :: rexp where
  "internalServicePattern =
     Seq (r_lit ''internal:'') (Seq r_seg (Seq r_colon (Seq r_seg (Alt Eps (Seq r_colon r_seg)))))"

definition oidcScopes :: "string list" where
  "oidcScopes = [''openid'', ''profile'', ''email'', ''kyc'']"

definition is_oidc :: "string \<Rightarrow> bool" where
  "is_oidc s \<longleftrightarrow> s \<in> set oidcScopes"

definition is_valid_scope :: "string \<Rightarrow> bool" where
  "is_valid_scope s \<longleftrightarrow>
     is_oidc s \<or> match servicePattern s \<or> match internalServicePattern s"

text \<open>\<open>Validate\<close>: the first malformed scope, or the empty string.\<close>

fun validate_scopes :: "string list \<Rightarrow> string" where
  "validate_scopes [] = ''''"
| "validate_scopes (s # ss) = (if \<not> is_valid_scope s then s else validate_scopes ss)"

definition belongs_to_service :: "string \<Rightarrow> string \<Rightarrow> bool" where
  "belongs_to_service scope service \<longleftrightarrow>
     service \<noteq> '''' \<and>
     (has_prefix scope (service @ '':'') \<or> has_prefix scope (''internal:'' @ service @ '':''))"

section \<open>Segments\<close>

definition segment :: "string \<Rightarrow> bool" where
  "segment w \<longleftrightarrow> w \<noteq> [] \<and> hd w \<in> set seg_start \<and> set w \<subseteq> set seg_char"

lemma seg_start_sub: "set seg_start \<subseteq> set seg_char"
  by (simp add: seg_start_def seg_char_def)

lemma lang_star_cls: "lang (Star (Cls cs)) w \<longleftrightarrow> set w \<subseteq> set cs"
  by (induction w) (auto simp: lang_star_Cons lang_cls intro: lang.star0)

lemma lang_r_seg [simp]: "lang r_seg w \<longleftrightarrow> segment w"
  using seg_start_sub
  by (cases w) (auto simp: r_seg_def lang_seq [of _ _ "[]"] lang_seq_Cons lang_cls lang_star_cls segment_def)

lemma lang_r_lit [simp]: "lang (r_lit p) w \<longleftrightarrow> w = p"
  by (induction p arbitrary: w) (auto simp: lang_seq lang_cls)

lemma lang_r_colon [simp]: "lang r_colon w \<longleftrightarrow> w = '':''"
  by (auto simp: r_colon_def lang_cls)

lemma lang_r_star_or_seg [simp]: "lang r_star_or_seg w \<longleftrightarrow> w = ''*'' \<or> segment w"
  by (auto simp: r_star_or_seg_def lang_cls)

text \<open>A sequence that starts with a fixed part, and the optional last segment.\<close>

lemma lang_seq_lit: "lang (Seq (r_lit p) q) s \<longleftrightarrow> (\<exists>t. s = p @ t \<and> lang q t)"
  by (simp add: lang_seq)

lemma lang_seq_colon: "lang (Seq r_colon q) s \<longleftrightarrow> (\<exists>t. s = '':'' @ t \<and> lang q t)"
  by (simp add: lang_seq)

lemma lang_seq_seg: "lang (Seq r_seg q) s \<longleftrightarrow> (\<exists>a t. segment a \<and> s = a @ t \<and> lang q t)"
  by (auto simp: lang_seq)

lemma lang_seq_star_seg:
  "lang (Seq r_star_or_seg q) s \<longleftrightarrow> (\<exists>a t. (a = ''*'' \<or> segment a) \<and> s = a @ t \<and> lang q t)"
  by (auto simp: lang_seq)

lemma lang_opt: "lang (Alt Eps q) s \<longleftrightarrow> s = [] \<or> lang q s"
  by simp

lemmas lang_seqs = lang_seq_lit lang_seq_colon lang_seq_seg lang_seq_star_seg lang_opt
  lang_r_seg lang_r_star_or_seg append_Nil2

text \<open>Claim C24. The scope grammar accepts exactly the four identity scopes, the
  \<open>service:resource\<close> and \<open>service:resource:action\<close> scopes whose segments start with a
  lowercase letter or a digit and go on with these, hyphens and underscores (resource and action may
  each be a lone star), and the \<open>internal:service:action\<close> and \<open>internal:service:resource:action\<close> scopes
  without stars. The comment of the source allows hyphens and underscores only inside a segment; the
  patterns, and so this grammar, also accept them at its end.\<close>

theorem is_valid_scope_iff:
  "is_valid_scope s \<longleftrightarrow>
     s \<in> {''openid'', ''profile'', ''email'', ''kyc''} \<or>
     (\<exists>a b. segment a \<and> (b = ''*'' \<or> segment b) \<and>
        (s = a @ '':'' @ b \<or> (\<exists>c. (c = ''*'' \<or> segment c) \<and> s = a @ '':'' @ b @ '':'' @ c))) \<or>
     (\<exists>a b. segment a \<and> segment b \<and>
        (s = ''internal:'' @ a @ '':'' @ b \<or>
         (\<exists>c. segment c \<and> s = ''internal:'' @ a @ '':'' @ b @ '':'' @ c)))"
proof -
  have service: "match servicePattern s \<longleftrightarrow>
      (\<exists>a b. segment a \<and> (b = ''*'' \<or> segment b) \<and>
         (s = a @ '':'' @ b \<or> (\<exists>c. (c = ''*'' \<or> segment c) \<and> s = a @ '':'' @ b @ '':'' @ c)))"
    by (simp only: match_lang servicePattern_def lang_seqs) blast
  have internal: "match internalServicePattern s \<longleftrightarrow>
      (\<exists>a b. segment a \<and> segment b \<and>
         (s = ''internal:'' @ a @ '':'' @ b \<or>
          (\<exists>c. segment c \<and> s = ''internal:'' @ a @ '':'' @ b @ '':'' @ c)))"
    by (simp only: match_lang internalServicePattern_def lang_seqs) blast
  show ?thesis
    unfolding is_valid_scope_def service internal
    by (simp only: is_oidc_def oidcScopes_def list.set)
qed

section \<open>Scopes of a product\<close>

text \<open>A product id without a colon, as the registry requires (\<open>validResourceID\<close>).\<close>

lemma append_colon_inject:
  "CHR '':'' \<notin> set a \<Longrightarrow> CHR '':'' \<notin> set b \<Longrightarrow> a @ '':'' @ x = b @ '':'' @ y \<Longrightarrow> a = b \<and> x = y"
proof (induction a arbitrary: b)
  case Nil
  then show ?case by (cases b) auto
next
  case (Cons c a)
  then show ?case by (cases b) auto
qed

text \<open>The scopes of two products never overlap, as long as neither id contains a colon or is the
  reserved word \<open>internal\<close>.\<close>

lemma belongs_to_service_unique:
  assumes "belongs_to_service sc p" and "belongs_to_service sc q"
    and "CHR '':'' \<notin> set p" and "CHR '':'' \<notin> set q"
    and "p \<noteq> ''internal''" and "q \<noteq> ''internal''"
  shows "p = q"
proof -
  have colon: "CHR '':'' \<notin> set ''internal''" by simp
  obtain x where x: "sc = p @ '':'' @ x \<or> sc = ''internal'' @ '':'' @ p @ '':'' @ x"
    using assms(1) by (auto simp: belongs_to_service_def has_prefix_iff)
  obtain y where y: "sc = q @ '':'' @ y \<or> sc = ''internal'' @ '':'' @ q @ '':'' @ y"
    using assms(2) by (auto simp: belongs_to_service_def has_prefix_iff)
  from x y show ?thesis
    using assms(3-6) colon append_colon_inject by metis
qed

end
