(* ===== verification/Sessions.thy ===== *)
theory Sessions
  imports Prelude Crypto Scopes
begin

text \<open>
  SSO sessions and the per-client refresh tokens issued under them
  (\<open>api/internal/domain/session\<close>): the items of the \<open>account_sessions\<close> table, the
  repository operations on it, and the service that creates sessions, rotates refresh
  tokens, detects their reuse and revokes grants. The table is one association list
  keyed by \<open>(pk, sk)\<close>, with the key strings the code builds.
\<close>

section \<open>Items\<close>

record geo_data =
  gd_city :: string
  gd_region :: string
  gd_country :: string
  gd_latitude :: real
  gd_longitude :: real

record session =
  se_pk :: string
  se_sk :: string
  se_hash :: string
  se_device_name :: string
  se_ip_address :: string
  se_user_agent :: string
  se_created_at :: stamp
  se_last_used_at :: stamp
  se_expires_at :: int
  se_geo :: geo_data
  se_auth_time :: int
  se_amr :: "string list"
  se_last_mfa_at :: int

record refresh_token =
  rt_pk :: string
  rt_sk :: string
  rt_hash :: string
  rt_session_id :: string
  rt_client_id :: string
  rt_scopes :: "string list"
  rt_created_at :: stamp
  rt_last_used_at :: stamp
  rt_expires_at :: int

datatype lookup_state = LookupActive | LookupConsumed

record token_lookup =
  tl_pk :: string
  tl_sk :: string
  tl_state :: lookup_state
  tl_user_id :: string
  tl_session_id :: string
  tl_client_id :: string
  tl_expires_at :: int

record consumed_token =
  ct_pk :: string
  ct_sk :: string
  ct_hash :: string
  ct_user_id :: string
  ct_session_id :: string
  ct_client_id :: string
  ct_expires_at :: int

datatype sess_item =
    SessionI session
  | RefreshI refresh_token
  | LookupI token_lookup
  | ConsumedI consumed_token

type_synonym key = "string \<times> string"

record sess_db = env +
  sess_tbl :: "(key, sess_item) table"

datatype sess_err =
    SInfra | SUnmarshal | SRandom
  | ErrNotFound | ErrRefreshTokenNotFound
  | ErrTokenReuse | ErrSessionExpired | ErrClientMismatch
  | ErrUnknownSession \<comment> \<open>the unexported error of \<open>ValidateToken\<close>\<close>

type_synonym ('x, 'a) sess_prog = "('x sess_db_scheme, sess_err, 'a) prog"

definition AMRTOTP :: string where "AMRTOTP = ''otp''"
definition AMRWebAuthn :: string where "AMRWebAuthn = ''webauthn''"

definition is_mfa_method :: "string \<Rightarrow> bool" where
  "is_mfa_method m \<longleftrightarrow> m = AMRTOTP \<or> m = AMRWebAuthn"

definition SessionTTL :: time where
  "SessionTTL = 90 * 24 * hour"

definition build_pk :: "string \<Rightarrow> string" where
  "build_pk user_id = ''USER_'' @ user_id"

definition build_sk :: "string \<Rightarrow> string" where
  "build_sk session_id = ''SESSION_'' @ session_id"

definition session_id :: "session \<Rightarrow> string" where
  "session_id s = trim_prefix (se_sk s) ''SESSION_''"

definition session_user_id :: "session \<Rightarrow> string" where
  "session_user_id s = trim_prefix (se_pk s) ''USER_''"

definition session_is_expired :: "time \<Rightarrow> session \<Rightarrow> bool" where
  "session_is_expired n s \<longleftrightarrow> unix n > se_expires_at s"

definition token_lookup_pk :: "string \<Rightarrow> string" where
  "token_lookup_pk h = ''TOKEN#'' @ h"

definition token_lookup_sk :: string where
  "token_lookup_sk = ''META''"

definition build_refresh_sk :: "string \<Rightarrow> string \<Rightarrow> string" where
  "build_refresh_sk sid cid = ''REFRESH_'' @ sid @ ''#'' @ cid"

definition refresh_user_id :: "refresh_token \<Rightarrow> string" where
  "refresh_user_id t = trim_prefix (rt_pk t) ''USER_''"

definition refresh_is_expired :: "time \<Rightarrow> refresh_token \<Rightarrow> bool" where
  "refresh_is_expired n t \<longleftrightarrow> unix n > rt_expires_at t"

section \<open>Repository\<close>

definition get_item :: "key \<Rightarrow> ('x, sess_item option) sess_prog" where
  "get_item k = db_read SInfra (\<lambda>s. tget (sess_tbl s) k)"

definition put_item :: "key \<Rightarrow> sess_item \<Rightarrow> ('x, unit) sess_prog" where
  "put_item k i = db_write SInfra (sess_tbl_update (tput k i))"

definition delete_item :: "key \<Rightarrow> ('x, unit) sess_prog" where
  "delete_item k = db_write SInfra (sess_tbl_update (tdel k))"

definition query_items :: "string \<Rightarrow> string \<Rightarrow> ('x, sess_item list) sess_prog" where
  "query_items pk p = db_read SInfra (\<lambda>s. tquery (\<lambda>k. fst k = pk \<and> has_prefix (snd k) p) (sess_tbl s))"

fun as_session :: "sess_item \<Rightarrow> session option" where
  "as_session (SessionI s) = Some s"
| "as_session _ = None"

fun as_refresh :: "sess_item \<Rightarrow> refresh_token option" where
  "as_refresh (RefreshI t) = Some t"
| "as_refresh _ = None"

fun as_lookup :: "sess_item \<Rightarrow> token_lookup option" where
  "as_lookup (LookupI l) = Some l"
| "as_lookup _ = None"

fun as_consumed :: "sess_item \<Rightarrow> consumed_token option" where
  "as_consumed (ConsumedI c) = Some c"
| "as_consumed _ = None"

definition unmarshal :: "(sess_item \<Rightarrow> 'a option) \<Rightarrow> sess_item \<Rightarrow> ('x, 'a) sess_prog" where
  "unmarshal f i = (case f i of None \<Rightarrow> throw SUnmarshal | Some x \<Rightarrow> ret x)"

fun unmarshal_all :: "(sess_item \<Rightarrow> 'a option) \<Rightarrow> sess_item list \<Rightarrow> ('x, 'a list) sess_prog" where
  "unmarshal_all f [] = ret []"
| "unmarshal_all f (i # is) =
     bindE (unmarshal f i) (\<lambda>x. bindE (unmarshal_all f is) (\<lambda>xs. ret (x # xs)))"

definition repo_create :: "session \<Rightarrow> ('x, unit) sess_prog" where
  "repo_create s = put_item (se_pk s, se_sk s) (SessionI s)"

definition repo_get_by_id :: "string \<Rightarrow> string \<Rightarrow> ('x, session) sess_prog" where
  "repo_get_by_id uid sid =
     bindE (get_item (build_pk uid, build_sk sid)) (\<lambda>i. case i of
       None \<Rightarrow> throw ErrNotFound
     | Some i \<Rightarrow> unmarshal as_session i)"

text \<open>The items the index on \<open>refresh_token_hash\<close> shows: lookups do not carry it.\<close>

fun item_hash :: "sess_item \<Rightarrow> string option" where
  "item_hash (SessionI s) = Some (se_hash s)"
| "item_hash (RefreshI t) = Some (rt_hash t)"
| "item_hash (LookupI l) = None"
| "item_hash (ConsumedI c) = Some (ct_hash c)"

definition query_by_token_hash :: "string \<Rightarrow> string \<Rightarrow> ('x, (key \<times> sess_item) option) sess_prog" where
  "query_by_token_hash h p =
     bindE (db_read SInfra (\<lambda>s. take 2 (filter (\<lambda>(k, i). item_hash i = Some h) (sess_tbl s))))
       (\<lambda>items. ret (List.find (\<lambda>(k, i). has_prefix (snd k) p) items))"

definition repo_get_by_token_hash :: "string \<Rightarrow> ('x, session) sess_prog" where
  "repo_get_by_token_hash h =
     bindE (query_by_token_hash h ''SESSION_'') (\<lambda>i. case i of
       None \<Rightarrow> throw ErrNotFound
     | Some (k, i) \<Rightarrow> if \<not> has_prefix (snd k) ''SESSION_'' then throw ErrNotFound else unmarshal as_session i)"

definition lookup_of :: "lookup_state \<Rightarrow> string \<Rightarrow> refresh_token \<Rightarrow> int \<Rightarrow> token_lookup" where
  "lookup_of st h t expires = \<lparr>tl_pk = token_lookup_pk h, tl_sk = token_lookup_sk, tl_state = st,
     tl_user_id = refresh_user_id t, tl_session_id = rt_session_id t, tl_client_id = rt_client_id t,
     tl_expires_at = expires\<rparr>"

definition lookup_key :: "string \<Rightarrow> key" where
  "lookup_key h = (token_lookup_pk h, token_lookup_sk)"

text \<open>\<open>PutRefreshToken\<close> is one transaction: the token item is put unconditionally, its
  lookup only if there is none yet.\<close>

definition repo_put_refresh_token :: "refresh_token \<Rightarrow> ('x, unit) sess_prog" where
  "repo_put_refresh_token t =
     db_cond SInfra ErrTokenReuse
       (\<lambda>s. tget (sess_tbl s) (lookup_key (rt_hash t)) = None)
       (sess_tbl_update (\<lambda>tb. tput (lookup_key (rt_hash t))
            (LookupI (lookup_of LookupActive (rt_hash t) t (rt_expires_at t)))
          (tput (rt_pk t, rt_sk t) (RefreshI t) tb)))"

definition get_token_lookup :: "string \<Rightarrow> ('x, token_lookup option) sess_prog" where
  "get_token_lookup h =
     bindE (get_item (lookup_key h)) (\<lambda>i. case i of
       None \<Rightarrow> ret None
     | Some i \<Rightarrow> bindE (unmarshal as_lookup i) (\<lambda>l. ret (Some l)))"

definition repo_get_refresh_token_by_hash :: "string \<Rightarrow> ('x, refresh_token) sess_prog" where
  "repo_get_refresh_token_by_hash h =
     bindE (get_token_lookup h) (\<lambda>lk. case lk of
       Some l \<Rightarrow>
         if tl_state l \<noteq> LookupActive then throw ErrRefreshTokenNotFound
         else bindE (get_item (build_pk (tl_user_id l), build_refresh_sk (tl_session_id l) (tl_client_id l)))
           (\<lambda>i. case i of
              None \<Rightarrow> throw ErrRefreshTokenNotFound
            | Some i \<Rightarrow> bindE (unmarshal as_refresh i) (\<lambda>t.
                if rt_hash t \<noteq> h then throw ErrRefreshTokenNotFound else ret t))
     | None \<Rightarrow>
         bindE (query_by_token_hash h ''REFRESH_'') (\<lambda>i. case i of
           None \<Rightarrow> throw ErrRefreshTokenNotFound
         | Some (k, i) \<Rightarrow>
             if \<not> has_prefix (snd k) ''REFRESH_'' then throw ErrRefreshTokenNotFound
             else unmarshal as_refresh i))"

text \<open>
  \<open>RotateRefreshToken\<close> is one transaction of three writes: the token item takes the new
  hash if it still has the old one, the lookup of the old hash becomes consumed unless
  it is consumed already, and the lookup of the new hash is created if there is none.
  A transaction that names one item twice (both hashes the same) is refused as invalid.
\<close>

definition rotate_cond :: "refresh_token \<Rightarrow> refresh_token \<Rightarrow> (key, sess_item) table \<Rightarrow> bool" where
  "rotate_cond old nxt tb \<longleftrightarrow>
     (case tget tb (rt_pk old, rt_sk old) of Some (RefreshI t) \<Rightarrow> rt_hash t = rt_hash old | _ \<Rightarrow> False) \<and>
     (case tget tb (lookup_key (rt_hash old)) of
        None \<Rightarrow> True | Some (LookupI l) \<Rightarrow> tl_state l = LookupActive | Some _ \<Rightarrow> False) \<and>
     tget tb (lookup_key (rt_hash nxt)) = None"

fun rotate_item :: "refresh_token \<Rightarrow> sess_item \<Rightarrow> sess_item" where
  "rotate_item nxt (RefreshI t) = RefreshI (t\<lparr>rt_hash := rt_hash nxt, rt_created_at := rt_created_at nxt,
     rt_last_used_at := rt_last_used_at nxt, rt_expires_at := rt_expires_at nxt\<rparr>)"
| "rotate_item nxt i = i"

definition rotate_tbl ::
  "refresh_token \<Rightarrow> refresh_token \<Rightarrow> int \<Rightarrow> (key, sess_item) table \<Rightarrow> (key, sess_item) table" where
  "rotate_tbl old nxt consumed_until tb =
     tput (lookup_key (rt_hash nxt)) (LookupI (lookup_of LookupActive (rt_hash nxt) nxt (rt_expires_at nxt)))
       (tput (lookup_key (rt_hash old)) (LookupI (lookup_of LookupConsumed (rt_hash old) old consumed_until))
         (case tget tb (rt_pk old, rt_sk old) of
            None \<Rightarrow> tb
          | Some i \<Rightarrow> tput (rt_pk old, rt_sk old) (rotate_item nxt i) tb))"

definition repo_rotate_refresh_token ::
  "refresh_token \<Rightarrow> refresh_token \<Rightarrow> int \<Rightarrow> ('x, unit) sess_prog" where
  "repo_rotate_refresh_token old nxt consumed_until =
     (if rt_hash old = rt_hash nxt then throw SInfra
      else db_cond SInfra ErrTokenReuse (\<lambda>s. rotate_cond old nxt (sess_tbl s))
             (sess_tbl_update (rotate_tbl old nxt consumed_until)))"

definition repo_get_consumed_by_hash :: "string \<Rightarrow> ('x, consumed_token) sess_prog" where
  "repo_get_consumed_by_hash h =
     bindE (get_token_lookup h) (\<lambda>lk. case lk of
       Some l \<Rightarrow>
         if tl_state l \<noteq> LookupConsumed then throw ErrRefreshTokenNotFound
         else ret \<lparr>ct_pk = build_pk (tl_user_id l), ct_sk = ''CONSUMED_'' @ h, ct_hash = h,
                    ct_user_id = tl_user_id l, ct_session_id = tl_session_id l,
                    ct_client_id = tl_client_id l, ct_expires_at = tl_expires_at l\<rparr>
     | None \<Rightarrow>
         bindE (query_by_token_hash h ''CONSUMED_'') (\<lambda>i. case i of
           None \<Rightarrow> throw ErrRefreshTokenNotFound
         | Some (k, i) \<Rightarrow>
             if \<not> has_prefix (snd k) ''CONSUMED_'' then throw ErrRefreshTokenNotFound
             else unmarshal as_consumed i))"

text \<open>DynamoDB's \<open>UpdateItem\<close> on a missing key creates an item with the given attributes
  only; the other attributes then read as Go zero values.\<close>

definition blank_session :: "key \<Rightarrow> session" where
  "blank_session k = \<lparr>se_pk = fst k, se_sk = snd k, se_hash = '''', se_device_name = '''',
     se_ip_address = '''', se_user_agent = '''', se_created_at = None, se_last_used_at = None,
     se_expires_at = 0,
     se_geo = \<lparr>gd_city = '''', gd_region = '''', gd_country = '''', gd_latitude = 0, gd_longitude = 0\<rparr>,
     se_auth_time = 0, se_amr = [], se_last_mfa_at = 0\<rparr>"

definition set_mfa :: "key \<Rightarrow> string list \<Rightarrow> int \<Rightarrow> (key, sess_item) table \<Rightarrow> (key, sess_item) table" where
  "set_mfa k amr since tb = (case tget tb k of
       Some (SessionI s) \<Rightarrow> tput k (SessionI (s\<lparr>se_amr := amr, se_last_mfa_at := since\<rparr>)) tb
     | Some i \<Rightarrow> tb
     | None \<Rightarrow> tput k (SessionI ((blank_session k)\<lparr>se_amr := amr, se_last_mfa_at := since\<rparr>)) tb)"

definition repo_update_mfa :: "string \<Rightarrow> string \<Rightarrow> string list \<Rightarrow> int \<Rightarrow> ('x, unit) sess_prog" where
  "repo_update_mfa uid sid amr since =
     db_write SInfra (sess_tbl_update (set_mfa (build_pk uid, build_sk sid) amr since))"

definition repo_list_refresh_tokens_by_session ::
  "string \<Rightarrow> string \<Rightarrow> ('x, refresh_token list) sess_prog" where
  "repo_list_refresh_tokens_by_session uid sid =
     bindE (query_items (build_pk uid) (''REFRESH_'' @ sid @ ''#'')) (unmarshal_all as_refresh)"

definition repo_delete_refresh_token :: "string \<Rightarrow> string \<Rightarrow> string \<Rightarrow> ('x, unit) sess_prog" where
  "repo_delete_refresh_token uid sid cid = delete_item (build_pk uid, build_refresh_sk sid cid)"

definition repo_list_by_user_id :: "string \<Rightarrow> ('x, session list) sess_prog" where
  "repo_list_by_user_id uid =
     bindE (query_items (build_pk uid) ''SESSION_'') (\<lambda>is.
     bindE (unmarshal_all as_session is) (\<lambda>ss.
     bindE now (\<lambda>n. ret (filter (\<lambda>s. \<not> session_is_expired n s) ss))))"

definition repo_delete :: "string \<Rightarrow> string \<Rightarrow> ('x, unit) sess_prog" where
  "repo_delete uid sid = delete_item (build_pk uid, build_sk sid)"

end
