(* ===== verification/SessionService.thy ===== *)
theory SessionService
  imports Sessions
begin

text \<open>
  The session service (\<open>api/internal/domain/session/service.go\<close>) on the repository of
  \<open>Sessions\<close>, and what it guarantees: the shape of the table is kept under any failing
  database call, a rotated refresh token works exactly once, its replay revokes the whole
  session, a rotation never widens the granted scopes, and the two revocations remove
  exactly what they name.
\<close>

section \<open>Operations\<close>

definition create_session ::
  "(string \<Rightarrow> byte list) \<Rightarrow> string \<Rightarrow> string \<Rightarrow> string \<Rightarrow> string \<Rightarrow> string list \<Rightarrow> geo_data \<Rightarrow>
   ('x, session \<times> string) sess_prog" where
  "create_session sha uid device ip agent amr geo =
     bindE (generate_refresh_token sha SRandom) (\<lambda>(raw, h).
     bindE new_uuid (\<lambda>sid.
     bindE now (\<lambda>n.
     let sess = \<lparr>se_pk = build_pk uid, se_sk = build_sk sid, se_hash = h, se_device_name = device,
           se_ip_address = ip, se_user_agent = agent, se_created_at = ts n, se_last_used_at = ts n,
           se_expires_at = unix (n + SessionTTL), se_geo = geo, se_auth_time = unix n, se_amr = amr,
           se_last_mfa_at = (if list_ex is_mfa_method amr then unix n else 0)\<rparr>
     in bindE (repo_create sess) (\<lambda>_. ret (sess, raw)))))"

definition get_session :: "string \<Rightarrow> string \<Rightarrow> ('x, session) sess_prog" where
  "get_session uid sid = repo_get_by_id uid sid"

definition record_mfa :: "string \<Rightarrow> string \<Rightarrow> string \<Rightarrow> ('x, unit) sess_prog" where
  "record_mfa uid sid m =
     bindE (repo_get_by_id uid sid) (\<lambda>s.
     let amr = (if m \<in> set (se_amr s) then se_amr s else se_amr s @ [m])
     in bindE now (\<lambda>n. repo_update_mfa uid sid amr (unix n)))"

definition new_client_token ::
  "string \<Rightarrow> string \<Rightarrow> string \<Rightarrow> string \<Rightarrow> string list \<Rightarrow> time \<Rightarrow> int \<Rightarrow> refresh_token" where
  "new_client_token uid sid cid h scs n expires = \<lparr>rt_pk = build_pk uid, rt_sk = build_refresh_sk sid cid,
     rt_hash = h, rt_session_id = sid, rt_client_id = cid, rt_scopes = scs, rt_created_at = ts n,
     rt_last_used_at = ts n, rt_expires_at = expires\<rparr>"

definition issue_client_token ::
  "(string \<Rightarrow> byte list) \<Rightarrow> string \<Rightarrow> string \<Rightarrow> string \<Rightarrow> string list \<Rightarrow> ('x, string) sess_prog" where
  "issue_client_token sha uid sid cid scs =
     bindE (repo_get_by_id uid sid) (\<lambda>sess.
     bindE now (\<lambda>n.
     if session_is_expired n sess then
       bindE (logE (repo_delete uid sid)) (\<lambda>_. throw ErrSessionExpired)
     else
       bindE (generate_refresh_token sha SRandom) (\<lambda>(raw, h).
       bindE (repo_put_refresh_token (new_client_token uid sid cid h scs n (se_expires_at sess)))
         (\<lambda>_. ret raw))))"

definition revoke :: "string \<Rightarrow> string \<Rightarrow> ('x, unit) sess_prog" where
  "revoke uid sid =
     bindE (repo_list_refresh_tokens_by_session uid sid) (\<lambda>tokens.
     bindE (forE tokens (\<lambda>t. repo_delete_refresh_token uid (rt_session_id t) (rt_client_id t)))
       (\<lambda>_. repo_delete uid sid))"

text \<open>What \<open>RotateClientToken\<close> does with a hash that is not a current one: a consumed
  marker names the session of the replayed token, which is revoked. Failures of the
  lookup and of the revocation are logged; the answer is a reuse error either way.\<close>

definition on_stale_hash :: "string \<Rightarrow> ('x, session \<times> string \<times> string list) sess_prog" where
  "on_stale_hash h =
     bindE (tryE (repo_get_consumed_by_hash h)) (\<lambda>r. case r of
       Inr c \<Rightarrow> bindE (logE (revoke (ct_user_id c) (ct_session_id c))) (\<lambda>_. throw ErrTokenReuse)
     | Inl e \<Rightarrow> throw ErrTokenReuse)"

text \<open>The second half of \<open>RotateClientToken\<close>, after its reads: a new token is generated
  and written in place of \<open>t\<close>. Two concurrent requests can both reach it with the same
  \<open>t\<close>.\<close>

definition finish_rotation ::
  "(string \<Rightarrow> byte list) \<Rightarrow> refresh_token \<Rightarrow> session \<Rightarrow> time \<Rightarrow>
   ('x, session \<times> string \<times> string list) sess_prog" where
  "finish_rotation sha t sess n =
     bindE (generate_refresh_token sha SRandom) (\<lambda>(new_raw, new_h).
     let nxt = new_client_token (refresh_user_id t) (rt_session_id t) (rt_client_id t) new_h
           (rt_scopes t) n (unix (n + SessionTTL))
     in bindE (tryE (repo_rotate_refresh_token t nxt (se_expires_at sess))) (\<lambda>w. case w of
          Inl e \<Rightarrow>
            if e = ErrTokenReuse then
              bindE (logE (revoke (refresh_user_id t) (rt_session_id t))) (\<lambda>_. throw ErrTokenReuse)
            else throw e
        | Inr _ \<Rightarrow> ret (sess, new_raw, rt_scopes t)))"

definition rotate_client_token ::
  "(string \<Rightarrow> byte list) \<Rightarrow> string \<Rightarrow> string \<Rightarrow> ('x, session \<times> string \<times> string list) sess_prog" where
  "rotate_client_token sha raw cid =
     bindE (tryE (repo_get_refresh_token_by_hash (hash_token sha raw))) (\<lambda>r. case r of
       Inl e \<Rightarrow> if e = ErrRefreshTokenNotFound then on_stale_hash (hash_token sha raw) else throw e
     | Inr t \<Rightarrow>
       if rt_client_id t \<noteq> cid then throw ErrClientMismatch
       else bindE now (\<lambda>n.
       if refresh_is_expired n t then
         bindE (logE (repo_delete_refresh_token (refresh_user_id t) (rt_session_id t) (rt_client_id t)))
           (\<lambda>_. throw ErrSessionExpired)
       else
       bindE (tryE (repo_get_by_id (refresh_user_id t) (rt_session_id t))) (\<lambda>q. case q of
         Inl e \<Rightarrow>
           if e = ErrNotFound then
             bindE (logE (repo_delete_refresh_token (refresh_user_id t) (rt_session_id t) (rt_client_id t)))
               (\<lambda>_. throw ErrSessionExpired)
           else throw e
       | Inr sess \<Rightarrow>
         if session_is_expired n sess then
           bindE (logE (repo_delete (session_user_id sess) (session_id sess))) (\<lambda>_. throw ErrSessionExpired)
         else
         finish_rotation sha t sess n)))"

definition revoke_client_token :: "(string \<Rightarrow> byte list) \<Rightarrow> string \<Rightarrow> ('x, unit) sess_prog" where
  "revoke_client_token sha raw =
     bindE (repo_get_refresh_token_by_hash (hash_token sha raw)) (\<lambda>t.
       repo_delete_refresh_token (refresh_user_id t) (rt_session_id t) (rt_client_id t))"

definition validate_token :: "(string \<Rightarrow> byte list) \<Rightarrow> string \<Rightarrow> ('x, session) sess_prog" where
  "validate_token sha raw =
     bindE (tryE (repo_get_by_token_hash (hash_token sha raw))) (\<lambda>r. case r of
       Inl e \<Rightarrow> throw (if e = ErrNotFound then ErrUnknownSession else e)
     | Inr sess \<Rightarrow>
       bindE now (\<lambda>n.
       if session_is_expired n sess then
         bindE (logE (repo_delete (session_user_id sess) (session_id sess))) (\<lambda>_. throw ErrSessionExpired)
       else ret sess))"

definition list_sessions :: "string \<Rightarrow> ('x, session list) sess_prog" where
  "list_sessions uid = repo_list_by_user_id uid"

definition has_seen_device :: "string \<Rightarrow> string \<Rightarrow> string \<Rightarrow> ('x, bool) sess_prog" where
  "has_seen_device uid device country =
     bindE (repo_list_by_user_id uid) (\<lambda>ss.
       ret (list_ex (\<lambda>s. se_device_name s = device \<and> gd_country (se_geo s) = country) ss))"

definition revoke_all :: "string \<Rightarrow> string \<Rightarrow> ('x, unit) sess_prog" where
  "revoke_all uid except =
     bindE (repo_list_by_user_id uid) (\<lambda>ss.
       forE ss (\<lambda>s. if session_id s = except then ret () else revoke uid (session_id s)))"

definition gives_access :: "string list \<Rightarrow> string \<Rightarrow> refresh_token \<Rightarrow> bool" where
  "gives_access cids svc t \<longleftrightarrow>
     rt_client_id t \<in> set cids \<or> list_ex (\<lambda>sc. belongs_to_service sc svc) (rt_scopes t)"

definition revoke_clients :: "string \<Rightarrow> string list \<Rightarrow> string \<Rightarrow> ('x, unit) sess_prog" where
  "revoke_clients uid cids svc =
     (if cids = [] \<and> svc = '''' then ret ()
      else bindE (repo_list_by_user_id uid) (\<lambda>ss.
        forE ss (\<lambda>sess.
          bindE (repo_list_refresh_tokens_by_session uid (session_id sess)) (\<lambda>tokens.
            forE tokens (\<lambda>t.
              if \<not> gives_access cids svc t then ret ()
              else repo_delete_refresh_token uid (rt_session_id t) (rt_client_id t))))))"

section \<open>The shape of the table\<close>

text \<open>
  Every item stands under the key its own fields name. Session ids contain no \<open>#\<close>, the
  separator of the refresh-token sort key, so a query for one session's tokens cannot
  match another session's (the code relies on it, \<open>model.go\<close> lines 129 to 131).
\<close>

definition plain_id :: "string \<Rightarrow> bool" where
  "plain_id w \<longleftrightarrow> CHR ''#'' \<notin> set w"

fun item_ok :: "key \<Rightarrow> sess_item \<Rightarrow> bool" where
  "item_ok k (SessionI s) \<longleftrightarrow>
     k = (se_pk s, se_sk s) \<and> se_pk s = build_pk (session_user_id s) \<and>
     se_sk s = build_sk (session_id s) \<and> plain_id (session_id s)"
| "item_ok k (RefreshI t) \<longleftrightarrow>
     k = (rt_pk t, rt_sk t) \<and> rt_pk t = build_pk (refresh_user_id t) \<and>
     rt_sk t = build_refresh_sk (rt_session_id t) (rt_client_id t) \<and> plain_id (rt_session_id t)"
| "item_ok k (LookupI l) \<longleftrightarrow>
     k = (tl_pk l, tl_sk l) \<and> (\<exists>h. k = lookup_key h) \<and> plain_id (tl_session_id l)"
| "item_ok k (ConsumedI c) \<longleftrightarrow>
     k = (ct_pk c, ct_sk c) \<and> ct_pk c = build_pk (ct_user_id c) \<and>
     ct_sk c = ''CONSUMED_'' @ ct_hash c \<and> plain_id (ct_session_id c)"

definition tbl_wf :: "(key, sess_item) table \<Rightarrow> bool" where
  "tbl_wf tb \<longleftrightarrow> tkeys tb \<and> (\<forall>k i. tget tb k = Some i \<longrightarrow> item_ok k i)"

definition sess_wf :: "'x sess_db_scheme \<Rightarrow> bool" where
  "sess_wf s \<longleftrightarrow> tbl_wf (sess_tbl s) \<and> (\<forall>n. plain_id (uuids s n))"

lemma build_pk_inject [simp]: "build_pk a = build_pk b \<longleftrightarrow> a = b"
  by (simp add: build_pk_def)

lemma build_sk_inject [simp]: "build_sk a = build_sk b \<longleftrightarrow> a = b"
  by (simp add: build_sk_def)

lemma trim_build_pk [simp]: "trim_prefix (build_pk u) ''USER_'' = u"
  unfolding build_pk_def by (rule trim_prefix_append)

lemma trim_build_sk [simp]: "trim_prefix (build_sk u) ''SESSION_'' = u"
  unfolding build_sk_def by (rule trim_prefix_append)

lemma hash_split: "plain_id a \<Longrightarrow> plain_id b \<Longrightarrow> a @ ''#'' @ x = b @ ''#'' @ y \<longleftrightarrow> a = b \<and> x = y"
proof (induction a arbitrary: b)
  case Nil
  then show ?case by (cases b) (auto simp: plain_id_def)
next
  case (Cons c a)
  then show ?case by (cases b) (auto simp: plain_id_def)
qed

lemma build_refresh_sk_inject:
  "plain_id a \<Longrightarrow> plain_id b \<Longrightarrow> build_refresh_sk a c = build_refresh_sk b d \<longleftrightarrow> a = b \<and> c = d"
  using hash_split [of a b c d] by (simp add: build_refresh_sk_def)

lemma key_kinds [simp]:
  "build_sk a \<noteq> build_refresh_sk b c" "build_refresh_sk b c \<noteq> build_sk a"
  "(build_pk u, v) \<noteq> lookup_key h" "lookup_key h \<noteq> (build_pk u, v)"
  by (simp_all add: build_sk_def build_refresh_sk_def build_pk_def lookup_key_def token_lookup_pk_def)

lemma lookup_key_inject [simp]: "lookup_key a = lookup_key b \<longleftrightarrow> a = b"
  by (simp add: lookup_key_def token_lookup_pk_def)

lemma tbl_wf_item: "tbl_wf tb \<Longrightarrow> tget tb k = Some i \<Longrightarrow> item_ok k i"
  unfolding tbl_wf_def by blast

lemma tbl_wf_tkeys: "tbl_wf tb \<Longrightarrow> tkeys tb"
  by (simp add: tbl_wf_def)

lemma tbl_wf_tput: "tbl_wf tb \<Longrightarrow> item_ok k i \<Longrightarrow> tbl_wf (tput k i tb)"
  by (auto simp: tbl_wf_def)

lemma tbl_wf_tdel: "tbl_wf tb \<Longrightarrow> tbl_wf (tdel k tb)"
  by (auto simp: tbl_wf_def split: if_splits)

lemma blind_sess_wf [simp, intro]: "blind sess_wf"
  by (simp add: blind_def sess_wf_def)

lemma blind_sess_tbl: "blind (\<lambda>s. P (sess_tbl s))"
  by (simp add: blind_def)

lemma tget_wfD:
  "sess_wf s \<Longrightarrow> tget (sess_tbl s) k = Some i \<Longrightarrow> item_ok k i"
  unfolding sess_wf_def by (blast intro: tbl_wf_item)

lemma sess_wf_upd:
  "sess_wf s \<Longrightarrow> tbl_wf (f (sess_tbl s)) \<Longrightarrow> sess_wf (sess_tbl_update f s)"
  by (simp add: sess_wf_def)

section \<open>Every operation keeps the shape\<close>

abbreviation refresh_ok :: "refresh_token \<Rightarrow> bool" where
  "refresh_ok t \<equiv> item_ok (rt_pk t, rt_sk t) (RefreshI t)"

abbreviation session_ok :: "session \<Rightarrow> bool" where
  "session_ok s \<equiv> item_ok (se_pk s, se_sk s) (SessionI s)"

lemma preserves_get_item [wp]: "preserves sess_wf (get_item k)"
  unfolding get_item_def by (rule preserves_db_read) simp

lemma preserves_query_items [wp]: "preserves sess_wf (query_items pk p)"
  unfolding query_items_def by (rule preserves_db_read) simp

lemma preserves_put_item: "item_ok k i \<Longrightarrow> preserves sess_wf (put_item k i)"
  unfolding put_item_def
  by (rule preserves_db_write) (auto intro!: sess_wf_upd tbl_wf_tput simp: sess_wf_def)

lemma preserves_delete_item [wp]: "preserves sess_wf (delete_item k)"
  unfolding delete_item_def
  by (rule preserves_db_write) (auto intro!: sess_wf_upd tbl_wf_tdel simp: sess_wf_def)

lemma yields_get_item: "yields sess_wf (get_item k) (\<lambda>r. \<forall>i. r = Some i \<longrightarrow> item_ok k i)"
  unfolding get_item_def by (rule yields_db_read) (auto dest: tget_wfD)

lemma preserves_unmarshal [wp]: "preserves I (unmarshal f i)"
  by (auto simp: unmarshal_def split: option.split intro: wp)

lemma preserves_unmarshal_all [wp]: "preserves I (unmarshal_all f is)"
  by (induction f "is" rule: unmarshal_all.induct) (auto intro!: wp simp del: ret_run)

lemma yields_unmarshal: "yields I (unmarshal f i) (\<lambda>x. f i = Some x)"
  by (auto simp: unmarshal_def yields_def split: option.split)

lemma preserves_query_by_token_hash [wp]: "preserves sess_wf (query_by_token_hash h p)"
  unfolding query_by_token_hash_def by (intro wp) simp

lemma preserves_get_by_id [wp]: "preserves sess_wf (repo_get_by_id uid sid)"
  unfolding repo_get_by_id_def by (intro wp) (auto split: option.split intro!: wp)

lemma preserves_get_token_lookup [wp]: "preserves sess_wf (get_token_lookup h)"
  unfolding get_token_lookup_def by (intro wp) (auto split: option.split intro!: wp)

lemma preserves_get_refresh [wp]: "preserves sess_wf (repo_get_refresh_token_by_hash h)"
  unfolding repo_get_refresh_token_by_hash_def
  by (intro wp) (auto split: option.split prod.split intro!: wp)

lemma preserves_get_consumed [wp]: "preserves sess_wf (repo_get_consumed_by_hash h)"
  unfolding repo_get_consumed_by_hash_def
  by (intro wp) (auto split: option.split prod.split intro!: wp)

lemma preserves_get_by_token_hash [wp]: "preserves sess_wf (repo_get_by_token_hash h)"
  unfolding repo_get_by_token_hash_def
  by (intro wp) (auto split: option.split prod.split intro!: wp)

lemma preserves_list_refresh [wp]: "preserves sess_wf (repo_list_refresh_tokens_by_session u s)"
  unfolding repo_list_refresh_tokens_by_session_def by (intro wp)

lemma preserves_list_by_user [wp]: "preserves sess_wf (repo_list_by_user_id u)"
  unfolding repo_list_by_user_id_def by (intro wp)

lemma preserves_delete_refresh [wp]: "preserves sess_wf (repo_delete_refresh_token u s c)"
  unfolding repo_delete_refresh_token_def by (intro wp)

lemma preserves_delete [wp]: "preserves sess_wf (repo_delete u s)"
  unfolding repo_delete_def by (intro wp)

lemma preserves_generate [wp]: "preserves sess_wf (generate_refresh_token sha e)"
  by (auto simp: preserves_def generate_refresh_token_run Let_def sess_wf_def split: option.split)

lemma preserves_new_uuid [wp]: "preserves sess_wf new_uuid"
  by (simp add: preserves_def sess_wf_def)

lemma yields_new_uuid: "yields sess_wf new_uuid plain_id"
  by (auto simp: yields_def sess_wf_def)

lemma yields_get_by_id:
  "yields sess_wf (repo_get_by_id uid sid) (\<lambda>s. item_ok (build_pk uid, build_sk sid) (SessionI s))"
  unfolding repo_get_by_id_def
  by (rule yields_bindE [OF preserves_get_item yields_get_item])
    (auto simp: yields_def unmarshal_def split: option.splits elim!: as_session.elims)

lemma get_by_id_plain:
  "item_ok (build_pk uid, build_sk sid) (SessionI s) \<Longrightarrow> plain_id sid \<and> session_id s = sid"
  by (metis item_ok.simps(1) prod.inject build_sk_inject)

lemma get_by_id_user:
  "item_ok (build_pk uid, build_sk sid) (SessionI s) \<Longrightarrow> session_user_id s = uid"
  by (metis item_ok.simps(1) prod.inject build_pk_inject)

lemma yields_get_refresh_by_hash:
  "yields sess_wf (repo_get_refresh_token_by_hash h) refresh_ok"
proof -
  have q: "yields sess_wf (query_by_token_hash h p) (\<lambda>r. \<forall>k i. r = Some (k, i) \<longrightarrow> item_ok k i)" for p
    unfolding query_by_token_hash_def
  proof (rule yields_bindE [where V = "list_all (\<lambda>(k, i). item_ok k i)"], rule wp, simp)
    show "yields sess_wf
        (db_read SInfra (\<lambda>s. take 2 (filter (\<lambda>(k, i). item_hash i = Some h) (sess_tbl s))))
        (list_all (\<lambda>(k, i). item_ok k i))"
      by (rule yields_db_read)
        (auto simp: list_all_iff sess_wf_def tbl_wf_def tkeys_def tget_def dest!: in_set_takeD)
  qed (fastforce intro!: yields_ret simp: list_all_iff dest: find_SomeD)
  have g: "yields sess_wf (case i of None \<Rightarrow> throw ErrRefreshTokenNotFound
            | Some i \<Rightarrow> bindE (unmarshal as_refresh i)
                (\<lambda>t. if rt_hash t \<noteq> h then throw ErrRefreshTokenNotFound else ret t)) refresh_ok"
    if "\<forall>j. i = Some j \<longrightarrow> item_ok k j" for i and k :: key
    using that by (cases i) (auto simp: yields_def unmarshal_def bindE_run
        split: option.splits if_splits elim!: as_refresh.elims)
  have l: "yields sess_wf (case i of None \<Rightarrow> throw ErrRefreshTokenNotFound
            | Some (k, i) \<Rightarrow> if \<not> has_prefix (snd k) ''REFRESH_'' then throw ErrRefreshTokenNotFound
                else unmarshal as_refresh i) refresh_ok"
    if "\<forall>k j. i = Some (k, j) \<longrightarrow> item_ok k j" for i
    using that by (cases i) (auto simp: yields_def unmarshal_def
        split: option.splits if_splits elim!: as_refresh.elims)
  show ?thesis
    unfolding repo_get_refresh_token_by_hash_def
    by (rule yields_bindE [OF preserves_get_token_lookup yields_True])
      (auto split: option.split intro!: yields_throw yields_bindE [OF preserves_get_item yields_get_item]
        yields_bindE [OF preserves_query_by_token_hash q] dest: g l)
qed

lemma refresh_okD:
  "refresh_ok t \<Longrightarrow> rt_pk t = build_pk (refresh_user_id t) \<and>
     rt_sk t = build_refresh_sk (rt_session_id t) (rt_client_id t) \<and> plain_id (rt_session_id t)"
  by simp

lemma lookup_of_ok:
  "plain_id (rt_session_id t) \<Longrightarrow> item_ok (lookup_key h) (LookupI (lookup_of st h t n))"
  by (auto simp: lookup_of_def lookup_key_def)

lemma new_client_token_ok: "plain_id sid \<Longrightarrow> refresh_ok (new_client_token uid sid cid h scs n e)"
  by (simp add: new_client_token_def refresh_user_id_def)

lemma preserves_put_refresh:
  assumes "refresh_ok t"
  shows "preserves sess_wf (repo_put_refresh_token t)"
  unfolding repo_put_refresh_token_def
proof (rule preserves_db_cond)
  fix s :: "'a sess_db_scheme" assume "sess_wf s"
  with assms show "sess_wf (sess_tbl_update (\<lambda>tb. tput (lookup_key (rt_hash t))
      (LookupI (lookup_of LookupActive (rt_hash t) t (rt_expires_at t)))
      (tput (rt_pk t, rt_sk t) (RefreshI t) tb)) s)"
    by (intro sess_wf_upd tbl_wf_tput lookup_of_ok) (auto simp: sess_wf_def)
qed (rule blind_sess_wf blind_sess_tbl)+

lemma rotate_item_ok: "item_ok k i \<Longrightarrow> item_ok k (rotate_item nxt i)"
  by (cases i) (auto simp: refresh_user_id_def)

lemma rotate_tbl_wf:
  assumes "tbl_wf tb" and "refresh_ok old" and "refresh_ok nxt"
  shows "tbl_wf (rotate_tbl old nxt n tb)"
proof -
  have "tbl_wf (case tget tb (rt_pk old, rt_sk old) of None \<Rightarrow> tb
      | Some i \<Rightarrow> tput (rt_pk old, rt_sk old) (rotate_item nxt i) tb)"
    using assms(1) by (auto split: option.split intro!: tbl_wf_tput rotate_item_ok tbl_wf_item)
  with assms(2,3) show ?thesis
    unfolding rotate_tbl_def by (intro tbl_wf_tput lookup_of_ok) (auto dest: refresh_okD)
qed

lemma preserves_rotate_refresh:
  "refresh_ok old \<Longrightarrow> refresh_ok nxt \<Longrightarrow> preserves sess_wf (repo_rotate_refresh_token old nxt n)"
  unfolding repo_rotate_refresh_token_def
  by (intro preserves_if preserves_throw preserves_db_cond blind_sess_wf blind_sess_tbl sess_wf_upd
      rotate_tbl_wf) (auto simp only: sess_wf_def)

lemma preserves_update_mfa:
  assumes "plain_id sid"
  shows "preserves sess_wf (repo_update_mfa uid sid amr since)"
  unfolding repo_update_mfa_def
proof (rule preserves_db_write)
  fix s :: "'a sess_db_scheme" assume wf: "sess_wf s"
  let ?k = "(build_pk uid, build_sk sid)"
  have "tbl_wf (set_mfa ?k amr since (sess_tbl s))"
  proof (cases "tget (sess_tbl s) ?k")
    case None
    with wf assms show ?thesis
      by (auto simp: set_mfa_def sess_wf_def blank_session_def session_id_def session_user_id_def
          intro!: tbl_wf_tput)
  next
    case (Some i)
    with wf have "item_ok ?k i" by (rule tget_wfD)
    with Some wf show ?thesis
      by (cases i) (auto simp: set_mfa_def sess_wf_def session_id_def session_user_id_def intro!: tbl_wf_tput)
  qed
  with wf show "sess_wf (sess_tbl_update (set_mfa ?k amr since) s)" by (rule sess_wf_upd)
qed simp

lemma preserves_create [wp]: "preserves sess_wf (create_session sha uid device ip agent amr geo)"
  unfolding create_session_def Let_def case_prod_beta
  by (rule preserves_bindE [OF preserves_generate],
      rule preserves_bindE_val [OF preserves_new_uuid yields_new_uuid],
      unfold repo_create_def, intro wp preserves_put_item)
    (simp add: session_id_def session_user_id_def)

lemma preserves_revoke [wp]: "preserves sess_wf (revoke u sid)"
  unfolding revoke_def by (intro wp)

lemma preserves_issue [wp]: "preserves sess_wf (issue_client_token sha uid sid cid scs)"
  unfolding issue_client_token_def
  by (rule preserves_bindE_val [OF preserves_get_by_id yields_get_by_id])
    (auto dest!: get_by_id_plain split: prod.split
      intro!: wp preserves_put_refresh new_client_token_ok simp del: item_ok.simps)

lemma preserves_record_mfa [wp]: "preserves sess_wf (record_mfa uid sid m)"
  unfolding record_mfa_def
  by (rule preserves_bindE_val [OF preserves_get_by_id yields_get_by_id])
    (auto dest!: get_by_id_plain intro!: wp preserves_update_mfa)

lemma preserves_on_stale_hash [wp]: "preserves sess_wf (on_stale_hash h)"
  unfolding on_stale_hash_def by (auto split: sum.split intro!: wp)

lemma preserves_rotate [wp]: "preserves sess_wf (rotate_client_token sha raw cid)"
  unfolding rotate_client_token_def finish_rotation_def
  by (rule preserves_bindE_val [OF preserves_tryE [OF preserves_get_refresh]
        yields_tryE [OF yields_get_refresh_by_hash]])
    (auto split: sum.split prod.split dest!: refresh_okD
      intro!: wp preserves_rotate_refresh new_client_token_ok)

lemma preserves_revoke_client_token [wp]: "preserves sess_wf (revoke_client_token sha raw)"
  unfolding revoke_client_token_def by (intro wp)

lemma preserves_validate [wp]: "preserves sess_wf (validate_token sha raw)"
  unfolding validate_token_def by (auto split: sum.split intro!: wp)

lemma preserves_list [wp]: "preserves sess_wf (list_sessions u)"
  unfolding list_sessions_def by (intro wp)

lemma preserves_has_seen_device [wp]: "preserves sess_wf (has_seen_device u d c)"
  unfolding has_seen_device_def by (intro wp)

lemma preserves_revoke_all [wp]: "preserves sess_wf (revoke_all u e)"
  unfolding revoke_all_def by (intro wp)

lemma preserves_revoke_clients [wp]: "preserves sess_wf (revoke_clients u cids svc)"
  unfolding revoke_clients_def by (intro wp)

section \<open>Runs\<close>

text \<open>A run is any sequence of service calls, with the clock moving and database calls
  failing between and during them.\<close>

datatype sess_call =
    CallCreate string string string string "string list" geo_data
  | CallRecordMFA string string string
  | CallIssue string string string "string list"
  | CallRotate string string
  | CallRevokeToken string
  | CallValidate string
  | CallRevoke string string
  | CallRevokeAll string string
  | CallRevokeClients string "string list" string
  | CallEnv time "outcome list"
  | CallPrune "key list"

text \<open>Between the calls the clock and the faults to come may change, and DynamoDB may prune any of the
  items whose \<open>expires_at\<close> has passed.\<close>

fun item_ttl :: "sess_item \<Rightarrow> int" where
  "item_ttl (SessionI i) = se_expires_at i"
| "item_ttl (RefreshI t) = rt_expires_at t"
| "item_ttl (LookupI l) = tl_expires_at l"
| "item_ttl (ConsumedI c) = ct_expires_at c"

definition pruned :: "key list \<Rightarrow> time \<Rightarrow> (key, sess_item) table \<Rightarrow> (key, sess_item) table" where
  "pruned ks n = filter (\<lambda>(k, i). \<not> (k \<in> set ks \<and> item_ttl i < unix n))"

fun sess_step :: "(string \<Rightarrow> byte list) \<Rightarrow> sess_call \<Rightarrow> 'x sess_db_scheme \<Rightarrow> 'x sess_db_scheme" where
  "sess_step sha (CallCreate u d i a amr g) s = snd (create_session sha u d i a amr g s)"
| "sess_step sha (CallRecordMFA u i m) s = snd (record_mfa u i m s)"
| "sess_step sha (CallIssue u i c scs) s = snd (issue_client_token sha u i c scs s)"
| "sess_step sha (CallRotate r c) s = snd (rotate_client_token sha r c s)"
| "sess_step sha (CallRevokeToken r) s = snd (revoke_client_token sha r s)"
| "sess_step sha (CallValidate r) s = snd (validate_token sha r s)"
| "sess_step sha (CallRevoke u i) s = snd (revoke u i s)"
| "sess_step sha (CallRevokeAll u e) s = snd (revoke_all u e s)"
| "sess_step sha (CallRevokeClients u cs v) s = snd (revoke_clients u cs v s)"
| "sess_step sha (CallEnv n os) s = s\<lparr>clock := n, faults := os\<rparr>"
| "sess_step sha (CallPrune ks) s = sess_tbl_update (pruned ks (clock s)) s"

lemma tget_filter_keep: "tget tb k = Some i \<Longrightarrow> P (k, i) \<Longrightarrow> tget (filter P tb) k = Some i"
  by (induction tb) (auto simp: tget_def split: if_splits)

lemma tkeys_filter: "tkeys tb \<Longrightarrow> tkeys (filter P tb)"
  by (simp add: tkeys_def distinct_map_filter)

lemma tget_filter_left: "tkeys tb \<Longrightarrow> tget (filter P tb) k = Some i \<Longrightarrow> tget tb k = Some i"
  by (auto simp: tget_def tkeys_def dest!: map_of_SomeD)

lemma pruned_wf: "tbl_wf tb \<Longrightarrow> tbl_wf (pruned ks n tb)"
  by (auto simp: tbl_wf_def pruned_def tkeys_filter dest: tget_filter_left)

lemma sess_step_wf: "sess_wf s \<Longrightarrow> sess_wf (sess_step sha c s)"
  by (cases c) (auto intro: preservesD wp, simp_all add: sess_wf_def pruned_wf)

lemma sessions_run_wf: "sess_wf s \<Longrightarrow> sess_wf (fold (sess_step sha) calls s)"
  by (induction calls arbitrary: s) (simp_all add: sess_step_wf)

text \<open>Claim C20. Whatever calls are made and whichever database calls fail or lose their
  answer, every item of the session table stays under the key its own fields spell, keys
  stay unique and session ids stay free of the separator, so that the sort-key prefix query
  of one session never reaches another session's tokens.\<close>

theorem sessions_keep_shape:
  assumes "sess_wf s"
  shows "sess_wf (fold (sess_step sha) calls s)"
  using assms by (rule sessions_run_wf)

section \<open>Calls that are served\<close>

text \<open>The operations on a state whose database calls are all served.\<close>

definition calm :: "'x env_scheme \<Rightarrow> bool" where
  "calm s \<longleftrightarrow> faults s = []"

lemma forE_delete:
  "faults s = [] \<Longrightarrow>
   forE ks delete_item s = (Inr (), sess_tbl_update (fold tdel ks) s)"
proof (induction ks arbitrary: s)
  case Nil
  then show ?case by simp
next
  case (Cons k ks)
  then have "delete_item k s = (Inr (), sess_tbl_update (tdel k) s)"
    by (simp add: delete_item_def)
  with Cons show ?case by (simp add: comp_def)
qed

lemma tget_fold_tdel: "tget (fold tdel ks tb) k = (if k \<in> set ks then None else tget tb k)"
  by (induction ks arbitrary: tb) auto

lemma forE_map: "forE (map h xs) f = forE xs (\<lambda>x. f (h x))"
  by (induction xs) auto

lemma unmarshal_all_run:
  "list_all (\<lambda>i. f i \<noteq> None) is \<Longrightarrow> unmarshal_all f is s = (Inr (map (\<lambda>i. the (f i)) is), s)"
  by (induction "is") (auto simp: unmarshal_def bindE_run)

lemma item_at_refresh_key:
  "item_ok k i \<Longrightarrow> fst k = build_pk uid \<Longrightarrow> has_prefix (snd k) (''REFRESH_'' @ p) \<Longrightarrow>
   \<exists>t. i = RefreshI t \<and> k = (build_pk uid, build_refresh_sk (rt_session_id t) (rt_client_id t))"
  by (cases i) (auto simp: build_sk_def build_pk_def lookup_key_def token_lookup_pk_def
      build_refresh_sk_def has_prefix_def)

definition refresh_keys :: "string \<Rightarrow> string \<Rightarrow> (key, sess_item) table \<Rightarrow> key list" where
  "refresh_keys uid sid tb =
     map fst (filter (\<lambda>q. fst (fst q) = build_pk uid \<and> has_prefix (snd (fst q)) (''REFRESH_'' @ sid @ ''#'')) tb)"

lemma refresh_keys_iff:
  "k \<in> set (refresh_keys uid sid tb) \<longleftrightarrow>
     fst k = build_pk uid \<and> has_prefix (snd k) (''REFRESH_'' @ sid @ ''#'') \<and> tget tb k \<noteq> None"
  unfolding refresh_keys_def tget_def map_of_eq_None_iff by auto

lemma tbl_wf_pairs: "tbl_wf tb \<Longrightarrow> (k, i) \<in> set tb \<Longrightarrow> item_ok k i"
  by (rule tbl_wf_item) (auto simp: tbl_wf_def tkeys_def tget_def)

lemma list_refresh_run:
  assumes "faults s = []" and "sess_wf s"
  obtains ts where "repo_list_refresh_tokens_by_session uid sid s = (Inr ts, s)"
    and "map (\<lambda>t. (build_pk uid, build_refresh_sk (rt_session_id t) (rt_client_id t))) ts =
         refresh_keys uid sid (sess_tbl s)"
    and "set ts = {t. \<exists>k. tget (sess_tbl s) k = Some (RefreshI t) \<and> fst k = build_pk uid \<and>
                         has_prefix (snd k) (''REFRESH_'' @ sid @ ''#'')}"
proof -
  let ?P = "\<lambda>k. fst k = build_pk uid \<and> has_prefix (snd k) (''REFRESH_'' @ sid @ ''#'')"
  let ?qs = "filter (\<lambda>q. ?P (fst q)) (sess_tbl s)"
  let ?is = "map snd ?qs"
  let ?ts = "map (\<lambda>i. the (as_refresh i)) ?is"
  have ok: "\<exists>t. i = RefreshI t \<and> k = (build_pk uid, build_refresh_sk (rt_session_id t) (rt_client_id t))"
    if "(k, i) \<in> set ?qs" for k i
    using that assms(2) by (auto simp: sess_wf_def intro: item_at_refresh_key dest: tbl_wf_pairs)
  have some: "list_all (\<lambda>i. as_refresh i \<noteq> None) ?is"
    unfolding list_all_iff
  proof
    fix i assume "i \<in> set ?is"
    then obtain k where "(k, i) \<in> set ?qs" by auto
    from ok [OF this] show "as_refresh i \<noteq> None" by auto
  qed
  have run: "repo_list_refresh_tokens_by_session uid sid s = (Inr ?ts, s)"
    using assms(1) unmarshal_all_run [OF some, of s]
    by (simp add: repo_list_refresh_tokens_by_session_def query_items_def tquery_def)
  have keys: "map (\<lambda>t. (build_pk uid, build_refresh_sk (rt_session_id t) (rt_client_id t))) ?ts =
      refresh_keys uid sid (sess_tbl s)"
    unfolding refresh_keys_def map_map
    by (rule map_cong [OF refl]) (use ok in fastforce)
  have "tkeys (sess_tbl s)" using assms(2) by (simp add: sess_wf_def tbl_wf_def)
  then have mem: "(k, i) \<in> set (sess_tbl s) \<longleftrightarrow> tget (sess_tbl s) k = Some i" for k i
    by (simp add: tkeys_def tget_def)
  have "set ?ts = {t. \<exists>k. tget (sess_tbl s) k = Some (RefreshI t) \<and> ?P k}"
  proof (intro set_eqI iffI)
    fix t assume "t \<in> set ?ts"
    then obtain k i where q: "(k, i) \<in> set ?qs" and t: "t = the (as_refresh i)" by auto
    from ok [OF q] t q mem show "t \<in> {t. \<exists>k. tget (sess_tbl s) k = Some (RefreshI t) \<and> ?P k}" by auto
  next
    fix t assume "t \<in> {t. \<exists>k. tget (sess_tbl s) k = Some (RefreshI t) \<and> ?P k}"
    then obtain k where "(k, RefreshI t) \<in> set ?qs" by (auto simp: mem)
    then show "t \<in> set ?ts" by force
  qed
  with run keys show ?thesis by (rule that)
qed

text \<open>The keys a revocation of one session covers.\<close>

definition revoked_key :: "string \<Rightarrow> string \<Rightarrow> key \<Rightarrow> bool" where
  "revoked_key uid sid k \<longleftrightarrow> fst k = build_pk uid \<and>
     (snd k = build_sk sid \<or> has_prefix (snd k) (''REFRESH_'' @ sid @ ''#''))"

lemma revoke_run:
  assumes "faults s = []" and "sess_wf s"
  obtains tb where "revoke uid sid s = (Inr (), s\<lparr>sess_tbl := tb\<rparr>)" and "tbl_wf tb"
    and "\<And>k. tget tb k = (if revoked_key uid sid k then None else tget (sess_tbl s) k)"
proof -
  obtain ts where run: "repo_list_refresh_tokens_by_session uid sid s = (Inr ts, s)"
    and keys: "map (\<lambda>t. (build_pk uid, build_refresh_sk (rt_session_id t) (rt_client_id t))) ts =
         refresh_keys uid sid (sess_tbl s)"
    using assms by (rule list_refresh_run)
  let ?ks = "refresh_keys uid sid (sess_tbl s)"
  let ?tb = "tdel (build_pk uid, build_sk sid) (fold tdel ?ks (sess_tbl s))"
  have "forE ts (\<lambda>t. repo_delete_refresh_token uid (rt_session_id t) (rt_client_id t)) s =
      (Inr (), sess_tbl_update (fold tdel ?ks) s)"
    unfolding repo_delete_refresh_token_def keys [symmetric]
    using forE_delete [OF assms(1), of "map (\<lambda>t. (build_pk uid, build_refresh_sk (rt_session_id t) (rt_client_id t))) ts"]
    by (simp add: forE_map)
  with run assms(1) have rev: "revoke uid sid s = (Inr (), s\<lparr>sess_tbl := ?tb\<rparr>)"
    by (simp add: revoke_def repo_delete_def delete_item_def)
  have wf: "tbl_wf (fold tdel ks tb)" if "tbl_wf tb" for ks :: "key list" and tb :: "(key, sess_item) table"
    using that by (induction ks arbitrary: tb) (auto intro: tbl_wf_tdel)
  have "tget ?tb k = (if revoked_key uid sid k then None else tget (sess_tbl s) k)" for k
    by (cases k) (auto simp: tget_fold_tdel revoked_key_def refresh_keys_iff)
  with rev assms(2) wf show ?thesis
    by (intro that [of ?tb]) (auto simp: sess_wf_def intro: tbl_wf_tdel)
qed

section \<open>Rotation and reuse\<close>

lemma get_refresh_run:
  assumes "faults s = []"
    and "tget (sess_tbl s) (lookup_key h) = Some (LookupI l)" and "tl_state l = LookupConsumed"
  shows "repo_get_refresh_token_by_hash h s = (Inl ErrRefreshTokenNotFound, s)"
    and "repo_get_consumed_by_hash h s =
      (Inr \<lparr>ct_pk = build_pk (tl_user_id l), ct_sk = ''CONSUMED_'' @ h, ct_hash = h,
            ct_user_id = tl_user_id l, ct_session_id = tl_session_id l,
            ct_client_id = tl_client_id l, ct_expires_at = tl_expires_at l\<rparr>, s)"
  using assms
  by (simp_all add: repo_get_refresh_token_by_hash_def repo_get_consumed_by_hash_def
      get_token_lookup_def get_item_def unmarshal_def)

lemma find_hash:
  "List.find P (take 2 (filter (\<lambda>(k, i). item_hash i = Some h) tb)) = Some (k, i) \<Longrightarrow>
   item_hash i = Some h"
  by (auto dest!: find_SomeD in_set_takeD)

lemma get_refresh_hash:
  assumes "repo_get_refresh_token_by_hash h s = (Inr t, u)" and "faults s = []"
  shows "rt_hash t = h"
  using assms
  by (auto simp: repo_get_refresh_token_by_hash_def get_token_lookup_def get_item_def bindE_run
      query_by_token_hash_def unmarshal_def split: option.splits if_splits
      elim!: as_refresh.elims dest!: find_hash)

text \<open>The writes of a rotation that succeeds.\<close>

lemma rotate_success:
  assumes "rotate_client_token sha raw cid s = (Inr (sess, new_raw, scs), u)"
    and "faults s = []" and "sess_wf s"
  obtains t s1 n nxt where
    "repo_get_refresh_token_by_hash (hash_token sha raw) s = (Inr t, s)"
    "refresh_ok t" "rt_client_id t = cid" "scs = rt_scopes t" "n = clock s"
    "nxt = new_client_token (refresh_user_id t) (rt_session_id t) (rt_client_id t)
             (hash_token sha new_raw) (rt_scopes t) n (unix (n + SessionTTL))"
    "rt_hash t \<noteq> rt_hash nxt" "rotate_cond t nxt (sess_tbl s)"
    "u = s\<lparr>rng_ix := Suc (rng_ix s), sess_tbl := rotate_tbl t nxt (se_expires_at sess) (sess_tbl s)\<rparr>"
    "tget (sess_tbl s) (build_pk (refresh_user_id t), build_sk (rt_session_id t)) = Some (SessionI sess)"
    "\<not> session_is_expired n sess"
proof -
  have pure: "\<exists>r. repo_get_refresh_token_by_hash h s = (r, s)" for h
    using assms(2)
    by (auto simp: repo_get_refresh_token_by_hash_def get_token_lookup_def get_item_def bindE_run
        query_by_token_hash_def unmarshal_def split: option.splits)
  then obtain r where r: "repo_get_refresh_token_by_hash (hash_token sha raw) s = (r, s)" by blast
  show ?thesis
  proof (cases r)
    case (Inl e)
    have "on_stale_hash h s \<noteq> (Inr x, v)" for h x v
      by (auto simp: on_stale_hash_def bindE_run split: sum.splits prod.splits)
    with Inl r assms(1) show ?thesis
      by (auto simp: rotate_client_token_def bindE_run split: if_splits prod.splits)
  next
    case (Inr t)
    have ok: "refresh_ok t"
      using yields_get_refresh_by_hash assms(3) r Inr by (blast dest: yieldsD)
    show ?thesis
      using assms(1,2) r Inr ok
      by (auto simp: rotate_client_token_def finish_rotation_def bindE_run repo_get_by_id_def get_item_def unmarshal_def
          generate_refresh_token_run Let_def repo_rotate_refresh_token_def db_cond_calm
          split: if_splits prod.splits sum.splits option.splits sess_item.splits
          elim!: as_session.elims intro!: that)
  qed
qed

text \<open>A consumed marker stays: no call of the service rewrites or deletes it, and it is not pruned before
  the session it stands for expires.\<close>

definition consumed_in :: "(key, sess_item) table \<Rightarrow> (key, sess_item) table \<Rightarrow> bool" where
  "consumed_in tb tb' \<longleftrightarrow> (\<forall>h l. tget tb (lookup_key h) = Some (LookupI l) \<longrightarrow>
     tl_state l = LookupConsumed \<longrightarrow> tget tb' (lookup_key h) = Some (LookupI l))"

definition consumed_kept :: "'x sess_db_scheme \<Rightarrow> 'x sess_db_scheme \<Rightarrow> bool" where
  "consumed_kept s t \<longleftrightarrow> clock t = clock s \<and> consumed_in (sess_tbl s) (sess_tbl t)"

interpretation consumed: step_order consumed_kept
  by unfold_locales (auto simp: consumed_kept_def consumed_in_def)

lemma consumed_cond:
  assumes "\<And>tb. c tb \<Longrightarrow> consumed_in tb (f tb)"
  shows "tracks consumed_kept (db_cond e d (\<lambda>s. c (sess_tbl s)) (sess_tbl_update f))"
  by (rule tracks_db_cond) (simp_all add: consumed_kept_def assms, simp add: consumed_in_def)

lemma consumed_write:
  "(\<And>tb. consumed_in tb (f tb)) \<Longrightarrow> tracks consumed_kept (db_write e (sess_tbl_update f))"
  unfolding db_write_def by (rule consumed_cond [where c = "\<lambda>_. True"]) simp

lemma consumed_read: "tracks consumed_kept (db_read e f)"
  by (rule tracks_db_read) (simp add: consumed_kept_def consumed_in_def)

lemma consumed_delete: "tracks consumed_kept (delete_item (build_pk u, v))"
  unfolding delete_item_def by (rule consumed_write) (simp add: consumed_in_def)

lemma consumed_put_item: "tracks consumed_kept (put_item (build_pk u, v) i)"
  unfolding put_item_def by (rule consumed_write) (simp add: consumed_in_def)

lemma consumed_put_refresh:
  "tracks consumed_kept (repo_put_refresh_token (new_client_token uid sid cid h scs n e))"
  unfolding repo_put_refresh_token_def
  by (rule consumed_cond) (auto simp: consumed_in_def new_client_token_def)

lemma consumed_rotate_refresh: "tracks consumed_kept (repo_rotate_refresh_token old nxt n)"
  unfolding repo_rotate_refresh_token_def
proof (intro consumed.tracks_if consumed.tracks_throw consumed_cond)
  fix tb assume c: "rotate_cond old nxt tb"
  show "consumed_in tb (rotate_tbl old nxt n tb)"
    unfolding consumed_in_def
  proof (intro allI impI)
    fix h l assume l: "tget tb (lookup_key h) = Some (LookupI l)" "tl_state l = LookupConsumed"
    with c have "h \<noteq> rt_hash old" "h \<noteq> rt_hash nxt" "lookup_key h \<noteq> (rt_pk old, rt_sk old)"
      by (auto simp: rotate_cond_def split: sess_item.splits)
    with l show "tget (rotate_tbl old nxt n tb) (lookup_key h) = Some (LookupI l)"
      by (simp add: rotate_tbl_def split: option.split)
  qed
qed

lemma consumed_update_mfa: "tracks consumed_kept (repo_update_mfa uid sid amr since)"
  unfolding repo_update_mfa_def
  by (rule consumed_write) (auto simp: consumed_in_def set_mfa_def split: option.split sess_item.split)

lemma consumed_generate: "tracks consumed_kept (generate_refresh_token sha e)"
  by (auto simp: tracks_def consumed_kept_def consumed_in_def generate_refresh_token_run Let_def
      split: option.split)

lemma consumed_new_uuid: "tracks consumed_kept new_uuid"
  by (simp add: tracks_def consumed_kept_def consumed_in_def)

lemma consumed_now: "tracks consumed_kept now"
  unfolding now_def by (rule consumed.tracks_gets)

lemma consumed_unmarshal: "tracks consumed_kept (unmarshal f i)"
  by (auto simp: unmarshal_def split: option.split intro: consumed.tracks_intros)

lemma consumed_unmarshal_all: "tracks consumed_kept (unmarshal_all f is)"
  by (induction f "is" rule: unmarshal_all.induct)
    (auto intro!: consumed.tracks_intros consumed_unmarshal simp del: ret_run)

lemmas consumed_basic = consumed.tracks_intros consumed_read consumed_delete consumed_put_item
  consumed_put_refresh consumed_rotate_refresh consumed_update_mfa consumed_generate consumed_new_uuid
  consumed_now consumed_unmarshal consumed_unmarshal_all

lemmas repo_defs = repo_get_by_id_def get_item_def query_by_token_hash_def repo_get_by_token_hash_def
  get_token_lookup_def repo_get_refresh_token_by_hash_def repo_get_consumed_by_hash_def
  query_items_def repo_list_refresh_tokens_by_session_def repo_delete_refresh_token_def
  repo_list_by_user_id_def repo_delete_def repo_create_def

lemma consumed_revoke: "tracks consumed_kept (revoke u i)"
  unfolding revoke_def repo_defs by (intro consumed_basic)

lemma consumed_create: "tracks consumed_kept (create_session sha u d i a amr g)"
  unfolding create_session_def Let_def case_prod_beta repo_defs by (simp, intro consumed_basic)

lemma consumed_record_mfa: "tracks consumed_kept (record_mfa u i m)"
  unfolding record_mfa_def repo_defs by (auto simp: Let_def split: option.split intro!: consumed_basic)

lemma consumed_issue: "tracks consumed_kept (issue_client_token sha u i k scs)"
  unfolding issue_client_token_def repo_defs by (auto split: option.split prod.split intro!: consumed_basic)

lemma consumed_rotate: "tracks consumed_kept (rotate_client_token sha r k)"
  unfolding rotate_client_token_def finish_rotation_def on_stale_hash_def repo_defs
  by (auto simp: Let_def split: option.split prod.split sum.split intro!: consumed_basic consumed_revoke)

lemma consumed_revoke_token: "tracks consumed_kept (revoke_client_token sha r)"
  unfolding revoke_client_token_def repo_defs
  by (auto split: option.split prod.split intro!: consumed_basic)

lemma consumed_validate: "tracks consumed_kept (validate_token sha r)"
  unfolding validate_token_def repo_defs
  by (auto split: option.split prod.split sum.split intro!: consumed_basic)

lemma consumed_revoke_all: "tracks consumed_kept (revoke_all u e)"
  unfolding revoke_all_def repo_defs by (intro consumed_basic consumed_revoke)

lemma consumed_revoke_clients: "tracks consumed_kept (revoke_clients u cs v)"
  unfolding revoke_clients_def repo_defs by (intro consumed_basic)

lemma call_consumed:
  assumes "\<And>n os. c \<noteq> CallEnv n os" and "\<And>ks. c \<noteq> CallPrune ks"
  shows "consumed_kept s (sess_step sha c s)"
  using assms by (cases c)
    (simp_all add: tracksD consumed_create consumed_record_mfa consumed_issue consumed_rotate
      consumed_revoke_token consumed_validate consumed_revoke consumed_revoke_all consumed_revoke_clients, blast+)

definition marker_at :: "int \<Rightarrow> string \<Rightarrow> token_lookup \<Rightarrow> 'x sess_db_scheme \<Rightarrow> bool" where
  "marker_at e h l s \<longleftrightarrow> unix (clock s) \<le> e \<and> tget (sess_tbl s) (lookup_key h) = Some (LookupI l)"

lemma sess_step_marker:
  assumes "marker_at e h l s" and "tl_state l = LookupConsumed" and "e \<le> tl_expires_at l"
    and "\<And>n os. c = CallEnv n os \<Longrightarrow> unix n \<le> e"
  shows "marker_at e h l (sess_step sha c s)"
proof -
  consider (env) n os where "c = CallEnv n os" | (prune) ks where "c = CallPrune ks"
    | (call) "\<And>n os. c \<noteq> CallEnv n os" "\<And>ks. c \<noteq> CallPrune ks" by blast
  then show ?thesis
  proof cases
    case env
    with assms(1,4) show ?thesis by (simp add: marker_at_def)
  next
    case prune
    with assms(1,3) show ?thesis by (auto simp: marker_at_def pruned_def intro: tget_filter_keep)
  next
    case call
    from call_consumed [OF call, of s sha] assms(1,2) show ?thesis
      by (simp add: marker_at_def consumed_kept_def consumed_in_def)
  qed
qed

lemma run_marker:
  assumes "marker_at e h l s" and "tl_state l = LookupConsumed" and "e \<le> tl_expires_at l"
    and "\<And>n os. CallEnv n os \<in> set calls \<Longrightarrow> unix n \<le> e"
  shows "marker_at e h l (fold (sess_step sha) calls s)"
  using assms(1,4)
proof (induction calls arbitrary: s)
  case (Cons c calls)
  have "marker_at e h l (sess_step sha c s)"
  proof (rule sess_step_marker [OF Cons.prems(1) assms(2,3)])
    show "unix n \<le> e" if "c = CallEnv n os" for n os using that Cons.prems(2) [of n os] by simp
  qed
  from Cons.IH [OF this] have "marker_at e h l (fold (sess_step sha) calls (sess_step sha c s))"
    using Cons.prems(2) by (meson list.set_intros(2))
  then show ?case by simp
qed simp

text \<open>Presenting a hash whose lookup is consumed.\<close>

lemma replay_consumed:
  assumes "faults s = []" and "sess_wf s"
    and "tget (sess_tbl s) (lookup_key (hash_token sha raw)) = Some (LookupI l)"
    and "tl_state l = LookupConsumed"
  obtains tb where "rotate_client_token sha raw cid s = (Inl ErrTokenReuse, s\<lparr>sess_tbl := tb\<rparr>)"
    and "\<And>k. tget tb k =
      (if revoked_key (tl_user_id l) (tl_session_id l) k then None else tget (sess_tbl s) k)"
proof -
  obtain tb where "revoke (tl_user_id l) (tl_session_id l) s = (Inr (), s\<lparr>sess_tbl := tb\<rparr>)"
    and tb: "\<And>k. tget tb k =
      (if revoked_key (tl_user_id l) (tl_session_id l) k then None else tget (sess_tbl s) k)"
    using assms(1,2) by (rule revoke_run) blast
  with get_refresh_run [OF assms(1,3,4)]
  have "rotate_client_token sha raw cid s = (Inl ErrTokenReuse, s\<lparr>sess_tbl := tb\<rparr>)"
    by (simp add: rotate_client_token_def on_stale_hash_def)
  with tb show ?thesis by (rule that [rotated])
qed

lemma replay_refused:
  assumes "tget (sess_tbl s) (lookup_key (hash_token sha raw)) = Some (LookupI l)" and "tl_state l = LookupConsumed"
  shows "isl (fst (rotate_client_token sha raw cid s))"
proof -
  let ?h = "hash_token sha raw"
  obtain r t where r: "repo_get_refresh_token_by_hash ?h s = (r, t)" by (cases "repo_get_refresh_token_by_hash ?h s")
  have "isl r"
  proof (cases "db_read SInfra (\<lambda>s. tget (sess_tbl s) (lookup_key ?h)) s")
    case (Pair q u)
    then have "q = Inl SInfra \<or> q = Inr (Some (LookupI l))"
      using db_read_cases [of SInfra "\<lambda>s. tget (sess_tbl s) (lookup_key ?h)" s] assms(1) by auto
    with r Pair assms(2) show ?thesis
      by (auto simp: repo_get_refresh_token_by_hash_def get_token_lookup_def get_item_def bindE_run unmarshal_def)
  qed
  moreover have "isl (fst (on_stale_hash ?h t))"
    by (auto simp: on_stale_hash_def bindE_run split: sum.split prod.split)
  ultimately show ?thesis using r by (auto simp: rotate_client_token_def bindE_run elim!: isl_def [THEN iffD1, THEN exE])
qed

text \<open>Claim C19. A refresh token works once, and its replay costs the whole grant. After a rotation with no
  failing call, until the session expires and whatever calls follow, whichever of their database calls
  fail and whatever expired items are pruned, presenting the old token again (by any client) never yields
  a token, not even when its own calls fail; when they are answered it gets \<open>ErrTokenReuse\<close> and leaves
  neither the session nor any refresh token issued under it, while every item of every other session is
  untouched.\<close>

theorem reused_token_revokes_session:
  assumes "faults s = []" and "sess_wf s"
    and "rotate_client_token sha raw cid s = (Inr (sess, new_raw, scs), u)"
    and "\<And>n os. CallEnv n os \<in> set calls \<Longrightarrow> unix n \<le> se_expires_at sess"
    and "w = fold (sess_step sha) calls u"
  shows "isl (fst (rotate_client_token sha raw cid' w)) \<and>
    (faults w = [] \<longrightarrow> fst (rotate_client_token sha raw cid' w) = Inl ErrTokenReuse \<and>
      (\<forall>k. tget (sess_tbl (snd (rotate_client_token sha raw cid' w))) k =
         (if revoked_key (session_user_id sess) (session_id sess) k then None else tget (sess_tbl w) k)))"
proof -
  obtain t n nxt where t: "refresh_ok t" "rt_hash t \<noteq> rt_hash nxt"
    "repo_get_refresh_token_by_hash (hash_token sha raw) s = (Inr t, s)"
    "u = s\<lparr>rng_ix := Suc (rng_ix s), sess_tbl := rotate_tbl t nxt (se_expires_at sess) (sess_tbl s)\<rparr>"
    "tget (sess_tbl s) (build_pk (refresh_user_id t), build_sk (rt_session_id t)) = Some (SessionI sess)"
    "\<not> session_is_expired (clock s) sess"
    using rotate_success [OF assms(3,1,2)] by metis
  have h: "rt_hash t = hash_token sha raw"
    using t(3) assms(1) by (rule get_refresh_hash)
  have ids: "session_user_id sess = refresh_user_id t" "session_id sess = rt_session_id t"
    using tget_wfD [OF assms(2) t(5)] get_by_id_plain get_by_id_user by blast+
  let ?l = "lookup_of LookupConsumed (rt_hash t) t (se_expires_at sess)"
  have st: "tl_state ?l = LookupConsumed" "se_expires_at sess \<le> tl_expires_at ?l" by (simp_all add: lookup_of_def)
  have "marker_at (se_expires_at sess) (hash_token sha raw) ?l u"
    using t(2,6) h by (simp add: marker_at_def t(4) rotate_tbl_def session_is_expired_def)
  then have "marker_at (se_expires_at sess) (hash_token sha raw) ?l w"
    unfolding assms(5) by (rule run_marker [OF _ st assms(4)])
  then have l: "tget (sess_tbl w) (lookup_key (hash_token sha raw)) = Some (LookupI ?l)" by (simp add: marker_at_def)
  have "sess_wf u"
    using preservesD [OF preserves_rotate assms(2), of sha raw cid] assms(3) by simp
  then have wf: "sess_wf w" using assms(5) by (simp add: sessions_run_wf)
  have "fst (rotate_client_token sha raw cid' w) = Inl ErrTokenReuse \<and>
      (\<forall>k. tget (sess_tbl (snd (rotate_client_token sha raw cid' w))) k =
         (if revoked_key (session_user_id sess) (session_id sess) k then None else tget (sess_tbl w) k))" if calm: "faults w = []"
  proof -
    obtain tb where
      "rotate_client_token sha raw cid' w = (Inl ErrTokenReuse, w\<lparr>sess_tbl := tb\<rparr>)"
      "\<And>k. tget tb k =
        (if revoked_key (tl_user_id ?l) (tl_session_id ?l) k then None else tget (sess_tbl w) k)"
      using calm wf l st(1) by (rule replay_consumed) blast
    with ids show ?thesis by (simp add: lookup_of_def)
  qed
  with replay_refused [OF l st(1)] show ?thesis by blast
qed

section \<open>What a rotation leaves\<close>

lemma get_refresh_stored:
  assumes "repo_get_refresh_token_by_hash h s = (Inr t, u)" and "faults s = []" and "sess_wf s"
  shows "tget (sess_tbl s) (rt_pk t, rt_sk t) = Some (RefreshI t)"
proof -
  have gsi: "tget (sess_tbl s) (rt_pk t, rt_sk t) = Some (RefreshI t)"
    if "List.find P (take 2 (filter (\<lambda>(k, i). item_hash i = Some h) (sess_tbl s))) = Some (k, RefreshI t)" for P k
  proof -
    from that have mem: "(k, RefreshI t) \<in> set (sess_tbl s)"
      by (auto dest!: find_SomeD in_set_takeD)
    moreover from mem assms(3) have "k = (rt_pk t, rt_sk t)"
      by (auto simp: sess_wf_def dest!: tbl_wf_pairs)
    ultimately show ?thesis using assms(3) by (simp add: sess_wf_def tbl_wf_def tkeys_def tget_def)
  qed
  have direct: "tget (sess_tbl s) (rt_pk t, rt_sk t) = Some (RefreshI t)"
    if "tget (sess_tbl s) k = Some (RefreshI t)" for k
    using that tget_wfD [OF assms(3) that] by auto
  have "u = s"
    using assms(1,2)
    by (auto simp: repo_get_refresh_token_by_hash_def get_token_lookup_def get_item_def bindE_run
        query_by_token_hash_def unmarshal_def split: option.splits if_splits)
  with assms(1) have "repo_get_refresh_token_by_hash h s = (Inr t, s)" by simp
  then show ?thesis
    using assms(2)
    by (auto simp: repo_get_refresh_token_by_hash_def get_token_lookup_def get_item_def bindE_run
        query_by_token_hash_def unmarshal_def split: option.splits if_splits
        elim!: as_refresh.elims intro: gsi direct)
qed

text \<open>A successful rotation replaces the presented token and nothing else: the new
  token is live, belongs to the same client and session, carries exactly the scopes granted
  at the authorization (never wider) and runs for the session TTL from now; the old token is
  no longer a current one; every item that is neither this token nor one of the two lookups
  is unchanged, the SSO session included.\<close>

theorem rotation_replaces_token:
  assumes "faults s = []" and "sess_wf s"
    and "rotate_client_token sha raw cid s = (Inr (sess, new_raw, scs), u)"
  shows "\<exists>t. repo_get_refresh_token_by_hash (hash_token sha raw) s = (Inr t, s) \<and>
     rt_client_id t = cid \<and> rt_scopes t = scs \<and>
     repo_get_refresh_token_by_hash (hash_token sha new_raw) u =
       (Inr (t\<lparr>rt_hash := hash_token sha new_raw, rt_created_at := ts (clock s),
               rt_last_used_at := ts (clock s), rt_expires_at := unix (clock s + SessionTTL)\<rparr>), u) \<and>
     repo_get_refresh_token_by_hash (hash_token sha raw) u = (Inl ErrRefreshTokenNotFound, u) \<and>
     (\<forall>k. k \<notin> {(rt_pk t, rt_sk t), lookup_key (hash_token sha raw), lookup_key (hash_token sha new_raw)}
        \<longrightarrow> tget (sess_tbl u) k = tget (sess_tbl s) k)"
proof -
  obtain t n nxt where read: "repo_get_refresh_token_by_hash (hash_token sha raw) s = (Inr t, s)"
    and ok: "refresh_ok t" and cid: "rt_client_id t = cid" "scs = rt_scopes t" and n: "n = clock s"
    and nxt: "nxt = new_client_token (refresh_user_id t) (rt_session_id t) (rt_client_id t)
             (hash_token sha new_raw) (rt_scopes t) n (unix (n + SessionTTL))"
    and ne: "rt_hash t \<noteq> rt_hash nxt"
    and u: "u = s\<lparr>rng_ix := Suc (rng_ix s), sess_tbl := rotate_tbl t nxt (se_expires_at sess) (sess_tbl s)\<rparr>"
    using rotate_success [OF assms(3,1,2)] by metis
  have h: "rt_hash t = hash_token sha raw" using read assms(1) by (rule get_refresh_hash)
  have stored: "tget (sess_tbl s) (rt_pk t, rt_sk t) = Some (RefreshI t)"
    using read assms(1,2) by (rule get_refresh_stored)
  have key: "(rt_pk t, rt_sk t) = (build_pk (refresh_user_id t), build_refresh_sk (rt_session_id t) (rt_client_id t))"
    using refresh_okD [OF ok] by simp
  have calm: "faults u = []" using assms(1) u by simp
  have old: "repo_get_refresh_token_by_hash (hash_token sha raw) u = (Inl ErrRefreshTokenNotFound, u)"
    using ne h
    by (intro get_refresh_run(1) [OF calm, where l = "lookup_of LookupConsumed (rt_hash t) t (se_expires_at sess)"])
      (simp_all add: u rotate_tbl_def lookup_of_def)
  have "tget (sess_tbl u) (rt_pk t, rt_sk t) = Some (rotate_item nxt (RefreshI t))"
    using stored key by (simp add: u rotate_tbl_def)
  moreover have "tget (sess_tbl u) (lookup_key (hash_token sha new_raw)) =
      Some (LookupI (lookup_of LookupActive (hash_token sha new_raw) nxt (rt_expires_at nxt)))"
    using ne h by (simp add: u rotate_tbl_def nxt new_client_token_def)
  ultimately have new: "repo_get_refresh_token_by_hash (hash_token sha new_raw) u =
       (Inr (t\<lparr>rt_hash := hash_token sha new_raw, rt_created_at := ts (clock s),
               rt_last_used_at := ts (clock s), rt_expires_at := unix (clock s + SessionTTL)\<rparr>), u)"
    using calm key n
    by (simp add: repo_get_refresh_token_by_hash_def get_token_lookup_def get_item_def unmarshal_def
        lookup_of_def nxt new_client_token_def refresh_user_id_def)
  have "tget (sess_tbl u) k = tget (sess_tbl s) k"
    if "k \<notin> {(rt_pk t, rt_sk t), lookup_key (hash_token sha raw), lookup_key (hash_token sha new_raw)}" for k
    using that h by (simp add: u rotate_tbl_def nxt new_client_token_def split: option.split)
  with read cid new old show ?thesis by blast
qed

section \<open>Concurrent rotations\<close>

text \<open>Two requests that present the same refresh token and both read it before
  either writes cannot both win: after the first has rotated it, the second answers
  \<open>ErrTokenReuse\<close> and the session with all its refresh tokens is revoked. (The digest of the
  token the second one draws is assumed to differ from the old token's.)\<close>

theorem concurrent_rotation_single_winner:
  assumes "faults s = []" and "sess_wf s" and "refresh_ok t"
    and "finish_rotation sha t sess n s = (Inr r, u)"
    and "rng u (rng_ix u) = Some x"
    and "hash_token sha (''rt_'' @ to_base62 (bytes_be 32 x)) \<noteq> rt_hash t"
  shows "fst (finish_rotation sha t sess' m u) = Inl ErrTokenReuse \<and>
    (\<forall>k. tget (sess_tbl (snd (finish_rotation sha t sess' m u))) k =
       (if revoked_key (refresh_user_id t) (rt_session_id t) k then None else tget (sess_tbl u) k))"
proof -
  obtain h where u: "u = sess_tbl_update (rotate_tbl t
      (new_client_token (refresh_user_id t) (rt_session_id t) (rt_client_id t) h (rt_scopes t) n
        (unix (n + SessionTTL))) (se_expires_at sess)) (s\<lparr>rng_ix := Suc (rng_ix s)\<rparr>)" and ne: "rt_hash t \<noteq> h"
    using assms(1,4)
    by (auto simp: finish_rotation_def bindE_run generate_refresh_token_run Let_def
        repo_rotate_refresh_token_def new_client_token_def split: option.splits if_splits)
  have wf: "sess_wf u"
  proof -
    have "tbl_wf (sess_tbl u)"
      using assms(2) rotate_tbl_wf [OF _ assms(3) new_client_token_ok] refresh_okD [OF assms(3)]
      by (simp add: u sess_wf_def del: item_ok.simps)
    with assms(2) u show ?thesis by (simp add: sess_wf_def)
  qed
  let ?u' = "u\<lparr>rng_ix := Suc (rng_ix u)\<rparr>"
  let ?h' = "hash_token sha (''rt_'' @ to_base62 (bytes_be 32 x))"
  let ?nxt = "new_client_token (refresh_user_id t) (rt_session_id t) (rt_client_id t) ?h' (rt_scopes t) m
        (unix (m + SessionTTL))"
  have calm: "faults ?u' = []" using assms(1) u by simp
  have wf': "sess_wf ?u'" using wf by (simp add: sess_wf_def)
  have "tget (sess_tbl u) (lookup_key (rt_hash t)) =
      Some (LookupI (lookup_of LookupConsumed (rt_hash t) t (se_expires_at sess)))"
    using ne by (simp add: u rotate_tbl_def new_client_token_def)
  then have "\<not> rotate_cond t ?nxt (sess_tbl ?u')"
    by (simp add: rotate_cond_def lookup_of_def)
  then have lose: "repo_rotate_refresh_token t ?nxt (se_expires_at sess') ?u' = (Inl ErrTokenReuse, ?u')"
    using calm assms(6) by (simp add: repo_rotate_refresh_token_def new_client_token_def)
  obtain tb where rev: "revoke (refresh_user_id t) (rt_session_id t) ?u' = (Inr (), ?u'\<lparr>sess_tbl := tb\<rparr>)"
    and tb: "\<And>k. tget tb k = (if revoked_key (refresh_user_id t) (rt_session_id t) k then None
                 else tget (sess_tbl ?u') k)"
    using calm wf' by (rule revoke_run) blast
  have "finish_rotation sha t sess' m u = (Inl ErrTokenReuse, ?u'\<lparr>sess_tbl := tb\<rparr>)"
    using lose rev assms(5)
    by (simp add: finish_rotation_def generate_refresh_token_run Let_def bindE_run)
  with tb show ?thesis by simp
qed

section \<open>Revoking many\<close>

text \<open>The items of a table that a condition leaves.\<close>

definition without :: "(key \<Rightarrow> sess_item \<Rightarrow> bool) \<Rightarrow> (key, sess_item) table \<Rightarrow> key \<Rightarrow> sess_item option" where
  "without D tb k = (case tget tb k of None \<Rightarrow> None | Some i \<Rightarrow> if D k i then None else Some i)"

definition removes :: "(key \<Rightarrow> sess_item \<Rightarrow> bool) \<Rightarrow> ('x, unit) sess_prog \<Rightarrow> 'x sess_db_scheme \<Rightarrow> bool" where
  "removes D f s \<longleftrightarrow>
     (\<exists>tb. f s = (Inr (), s\<lparr>sess_tbl := tb\<rparr>) \<and> tbl_wf tb \<and> tget tb = without D (sess_tbl s))"

lemma removesE:
  assumes "removes D f s"
  obtains tb where "f s = (Inr (), s\<lparr>sess_tbl := tb\<rparr>)" and "tbl_wf tb" and "tget tb = without D (sess_tbl s)"
  using assms by (auto simp: removes_def)

lemma removes_nothing: "sess_wf s \<Longrightarrow> removes (\<lambda>_ _. False) (ret ()) s"
  unfolding removes_def
  by (rule exI [of _ "sess_tbl s"]) (auto simp: sess_wf_def without_def fun_eq_iff split: option.split)

lemma removes_weaken:
  assumes "removes D f s" and "\<And>k i. tget (sess_tbl s) k = Some i \<Longrightarrow> D k i = D' k i"
  shows "removes D' f s"
proof -
  have "without D (sess_tbl s) = without D' (sess_tbl s)"
    using assms(2) by (force simp: without_def fun_eq_iff split: option.split)
  with assms(1) show ?thesis by (simp add: removes_def)
qed

lemma removes_forE:
  assumes "\<And>x s. x \<in> set xs \<Longrightarrow> faults s = [] \<Longrightarrow> sess_wf s \<Longrightarrow> removes (D x) (f x) s"
    and "faults s = []" and "sess_wf s"
  shows "removes (\<lambda>k i. \<exists>x \<in> set xs. D x k i) (forE xs f) s"
  using assms
proof (induction xs arbitrary: s)
  case Nil
  from Nil.prems(3) have "removes (\<lambda>_ _. False) (ret ()) s" by (rule removes_nothing)
  then show ?case by (simp only: forE.simps list.set bex_empty)
next
  case (Cons x xs)
  have "removes (D x) (f x) s" using Cons.prems by simp
  then obtain tb where f: "f x s = (Inr (), s\<lparr>sess_tbl := tb\<rparr>)" and wf: "tbl_wf tb"
    and tb: "tget tb = without (D x) (sess_tbl s)" by (rule removesE)
  let ?t = "s\<lparr>sess_tbl := tb\<rparr>"
  have "removes (\<lambda>k i. \<exists>x \<in> set xs. D x k i) (forE xs f) ?t"
    using Cons.prems wf by (intro Cons.IH) (auto simp: sess_wf_def)
  then obtain tb' where run: "forE xs f ?t = (Inr (), ?t\<lparr>sess_tbl := tb'\<rparr>)" and wf': "tbl_wf tb'"
    and tb': "tget tb' = without (\<lambda>k i. \<exists>x \<in> set xs. D x k i) tb" by (rule removesE) simp
  have "tget tb' = without (\<lambda>k i. \<exists>y \<in> set (x # xs). D y k i) (sess_tbl s)"
    unfolding tb' by (force simp: without_def tb fun_eq_iff split: option.split)
  with f run wf' show ?case unfolding removes_def by (intro exI [of _ tb']) simp
qed

lemma removes_delete:
  "faults s = [] \<Longrightarrow> sess_wf s \<Longrightarrow> removes (\<lambda>k i. k = j) (delete_item j) s"
  unfolding removes_def
  by (rule exI [of _ "tdel j (sess_tbl s)"])
    (auto simp: delete_item_def sess_wf_def without_def fun_eq_iff tbl_wf_tdel split: option.split)

lemma removes_revoke:
  assumes "faults s = []" and "sess_wf s"
  shows "removes (\<lambda>k i. revoked_key uid sid k) (revoke uid sid) s"
proof -
  obtain tb where "revoke uid sid s = (Inr (), s\<lparr>sess_tbl := tb\<rparr>)" and "tbl_wf tb"
    and "\<And>k. tget tb k = (if revoked_key uid sid k then None else tget (sess_tbl s) k)"
    using assms by (rule revoke_run) blast
  then show ?thesis
    unfolding removes_def by (intro exI [of _ tb]) (auto simp: without_def fun_eq_iff split: option.split)
qed

text \<open>The sessions \<open>ListByUserID\<close> returns: those of the user that have not expired.\<close>

definition live_session :: "time \<Rightarrow> (key, sess_item) table \<Rightarrow> string \<Rightarrow> string \<Rightarrow> bool" where
  "live_session n tb uid sid \<longleftrightarrow>
     (case tget tb (build_pk uid, build_sk sid) of
        Some (SessionI x) \<Rightarrow> \<not> session_is_expired n x
      | _ \<Rightarrow> False)"

lemma live_session_iff:
  "live_session n tb uid sid \<longleftrightarrow>
     (\<exists>x. tget tb (build_pk uid, build_sk sid) = Some (SessionI x) \<and> \<not> session_is_expired n x)"
  by (auto simp: live_session_def split: option.split sess_item.split)

lemma item_at_session_key:
  "item_ok k i \<Longrightarrow> fst k = build_pk uid \<Longrightarrow> has_prefix (snd k) ''SESSION_'' \<Longrightarrow>
   \<exists>x. i = SessionI x \<and> k = (build_pk uid, build_sk (session_id x))"
  by (cases i) (auto simp: build_sk_def build_pk_def lookup_key_def token_lookup_pk_def
      build_refresh_sk_def has_prefix_def)

lemma list_sessions_run:
  assumes "faults s = []" and "sess_wf s"
  obtains ss where "repo_list_by_user_id uid s = (Inr ss, s)"
    and "\<And>sid. sid \<in> session_id ` set ss \<longleftrightarrow> live_session (clock s) (sess_tbl s) uid sid"
proof -
  let ?P = "\<lambda>k. fst k = build_pk uid \<and> has_prefix (snd k) ''SESSION_''"
  let ?is = "tquery ?P (sess_tbl s)"
  let ?ss = "filter (\<lambda>x. \<not> session_is_expired (clock s) x) (map (\<lambda>i. the (as_session i)) ?is)"
  have keys: "tkeys (sess_tbl s)" using assms(2) by (simp add: sess_wf_def tbl_wf_def)
  have ok: "\<exists>x. i = SessionI x \<and> tget (sess_tbl s) (build_pk uid, build_sk (session_id x)) = Some i"
    if mem: "i \<in> set ?is" for i
  proof -
    obtain k where k: "?P k" "tget (sess_tbl s) k = Some i" using tqueryD [OF keys mem] by blast
    then obtain x where "i = SessionI x" "k = (build_pk uid, build_sk (session_id x))"
      using item_at_session_key tget_wfD [OF assms(2) k(2)] by blast
    with k(2) show ?thesis by auto
  qed
  have "list_all (\<lambda>i. as_session i \<noteq> None) ?is"
    unfolding list_all_iff using ok by fastforce
  from unmarshal_all_run [OF this, of s] assms(1)
  have run: "repo_list_by_user_id uid s = (Inr ?ss, s)"
    by (simp add: repo_list_by_user_id_def query_items_def)
  have "sid \<in> session_id ` set ?ss \<longleftrightarrow> live_session (clock s) (sess_tbl s) uid sid" for sid
  proof
    assume "sid \<in> session_id ` set ?ss"
    then obtain i where "i \<in> set ?is" "sid = session_id (the (as_session i))"
      "\<not> session_is_expired (clock s) (the (as_session i))" by auto
    with ok [of i] show "live_session (clock s) (sess_tbl s) uid sid" by (auto simp: live_session_iff)
  next
    assume "live_session (clock s) (sess_tbl s) uid sid"
    then obtain x where x: "tget (sess_tbl s) (build_pk uid, build_sk sid) = Some (SessionI x)"
      "\<not> session_is_expired (clock s) x" by (auto simp: live_session_iff)
    have "SessionI x \<in> set ?is"
      unfolding tquery_iff [OF keys] using x(1)
      by (intro exI [of _ "(build_pk uid, build_sk sid)"]) (simp add: build_sk_def has_prefix_def)
    moreover have "session_id x = sid" using get_by_id_plain tget_wfD [OF assms(2) x(1)] by blast
    ultimately show "sid \<in> session_id ` set ?ss" using x(2) by force
  qed
  with run show ?thesis by (rule that)
qed

lemma removes_revoke_all:
  assumes "faults s = []" and "sess_wf s"
  shows "removes (\<lambda>k i. \<exists>sid. live_session (clock s) (sess_tbl s) uid sid \<and> sid \<noteq> keep \<and>
      revoked_key uid sid k) (revoke_all uid keep) s"
proof -
  obtain ss where run: "repo_list_by_user_id uid s = (Inr ss, s)"
    and ss: "\<And>sid. sid \<in> session_id ` set ss \<longleftrightarrow> live_session (clock s) (sess_tbl s) uid sid"
    using assms by (rule list_sessions_run) blast
  have "removes (\<lambda>k i. \<exists>x \<in> set ss. session_id x \<noteq> keep \<and> revoked_key uid (session_id x) k)
      (forE ss (\<lambda>x. if session_id x = keep then ret () else revoke uid (session_id x))) s"
    by (rule removes_forE) (auto simp: assms removes_nothing removes_revoke)
  moreover have "revoke_all uid keep s =
      forE ss (\<lambda>x. if session_id x = keep then ret () else revoke uid (session_id x)) s"
    using run by (simp add: revoke_all_def)
  ultimately have "removes (\<lambda>k i. \<exists>x \<in> set ss. session_id x \<noteq> keep \<and> revoked_key uid (session_id x) k)
      (revoke_all uid keep) s" by (simp add: removes_def)
  then show ?thesis by (rule removes_weaken) (simp add: ss [symmetric])
qed

text \<open>\<open>RevokeAll\<close> removes every session of the user that has not expired, except
  the one to keep, together with all the refresh tokens issued under it, and touches no other
  item; every other user's sessions survive.\<close>

theorem revoke_all_exact:
  assumes "faults s = []" and "sess_wf s"
  shows "removes (\<lambda>k i. \<exists>sid. live_session (clock s) (sess_tbl s) uid sid \<and> sid \<noteq> keep \<and>
      revoked_key uid sid k) (revoke_all uid keep) s"
  using assms by (rule removes_revoke_all)

text \<open>The token a product's unlink removes from one session.\<close>

definition unlinked_key :: "string \<Rightarrow> string list \<Rightarrow> string \<Rightarrow> string \<Rightarrow> key \<Rightarrow> sess_item \<Rightarrow> bool" where
  "unlinked_key uid cids svc sid k i \<longleftrightarrow> fst k = build_pk uid \<and>
     has_prefix (snd k) (''REFRESH_'' @ sid @ ''#'') \<and>
     (case i of RefreshI t \<Rightarrow> gives_access cids svc t | _ \<Rightarrow> False)"

lemma removes_session_tokens:
  fixes s :: "'x sess_db_scheme"
  assumes "faults s = []" and wf: "sess_wf s"
  shows "removes (unlinked_key uid cids svc sid)
    (bindE (repo_list_refresh_tokens_by_session uid sid) (\<lambda>tokens. forE tokens (\<lambda>t.
       if \<not> gives_access cids svc t then ret ()
       else repo_delete_refresh_token uid (rt_session_id t) (rt_client_id t)))) s"
proof -
  let ?del = "\<lambda>t. if \<not> gives_access cids svc t then ret ()
      else repo_delete_refresh_token uid (rt_session_id t) (rt_client_id t)"
  let ?key = "\<lambda>t. (build_pk uid, build_refresh_sk (rt_session_id t) (rt_client_id t))"
  obtain ts where l: "repo_list_refresh_tokens_by_session uid sid s = (Inr ts, s)"
    and mem: "set ts = {t. \<exists>k. tget (sess_tbl s) k = Some (RefreshI t) \<and> fst k = build_pk uid \<and>
                       has_prefix (snd k) (''REFRESH_'' @ sid @ ''#'')}"
    using assms by (rule list_refresh_run) blast
  have one: "removes (\<lambda>k i. gives_access cids svc t \<and> k = ?key t) (?del t) u"
    if "faults u = []" "sess_wf u" for t and u :: "'x sess_db_scheme"
    using removes_nothing [OF that(2)] removes_delete [OF that, of "?key t"]
    by (cases "gives_access cids svc t") (simp_all add: repo_delete_refresh_token_def)
  have "removes (\<lambda>k i. \<exists>t \<in> set ts. gives_access cids svc t \<and> k = ?key t) (forE ts ?del) s"
    by (rule removes_forE) (rule one, simp_all add: assms)
  then have run: "removes (\<lambda>k i. \<exists>t \<in> set ts. gives_access cids svc t \<and> k = ?key t)
      (bindE (repo_list_refresh_tokens_by_session uid sid) (\<lambda>tokens. forE tokens ?del)) s"
    using l by (simp add: removes_def)
  have own: "k = ?key t" if "tget (sess_tbl s) k = Some (RefreshI t)" "fst k = build_pk uid" for k t
    using tget_wfD [OF wf that(1)] that(2) by auto
  have "(\<exists>t \<in> set ts. gives_access cids svc t \<and> k = ?key t) = unlinked_key uid cids svc sid k i"
    if k: "tget (sess_tbl s) k = Some i" for k i
  proof
    assume "\<exists>t \<in> set ts. gives_access cids svc t \<and> k = ?key t"
    then obtain t k' where t: "gives_access cids svc t" "k = ?key t"
      "tget (sess_tbl s) k' = Some (RefreshI t)" "fst k' = build_pk uid"
      "has_prefix (snd k') (''REFRESH_'' @ sid @ ''#'')" by (auto simp: mem)
    from own [OF t(3,4)] t(2) have "k' = k" by simp
    with t k show "unlinked_key uid cids svc sid k i" by (auto simp: unlinked_key_def)
  next
    assume u: "unlinked_key uid cids svc sid k i"
    then obtain t where i: "i = RefreshI t" and g: "gives_access cids svc t"
      by (auto simp: unlinked_key_def split: sess_item.splits)
    moreover have "t \<in> set ts"
      unfolding mem using u i k by (intro CollectI exI [of _ k]) (simp add: unlinked_key_def)
    moreover have "k = ?key t" using own k i u by (auto simp: unlinked_key_def)
    ultimately show "\<exists>t \<in> set ts. gives_access cids svc t \<and> k = ?key t" by blast
  qed
  with run show ?thesis by (rule removes_weaken)
qed

text \<open>\<open>RevokeClients\<close> (leaving one product) removes, in every live session of the
  user, exactly the refresh tokens of the product's login clients and those that hold one of
  the product's scopes. No session is removed and no other token is.\<close>

theorem revoke_clients_exact:
  assumes "faults s = []" and "sess_wf s" and "cids \<noteq> [] \<or> svc \<noteq> []"
  shows "removes (\<lambda>k i. \<exists>sid. live_session (clock s) (sess_tbl s) uid sid \<and>
      unlinked_key uid cids svc sid k i) (revoke_clients uid cids svc) s"
proof -
  obtain ss where run: "repo_list_by_user_id uid s = (Inr ss, s)"
    and ss: "\<And>sid. sid \<in> session_id ` set ss \<longleftrightarrow> live_session (clock s) (sess_tbl s) uid sid"
    using assms(1,2) by (rule list_sessions_run) blast
  let ?f = "\<lambda>x. bindE (repo_list_refresh_tokens_by_session uid (session_id x)) (\<lambda>tokens. forE tokens (\<lambda>t.
       if \<not> gives_access cids svc t then ret ()
       else repo_delete_refresh_token uid (rt_session_id t) (rt_client_id t)))"
  have "removes (\<lambda>k i. \<exists>x \<in> set ss. unlinked_key uid cids svc (session_id x) k i) (forE ss ?f) s"
    by (rule removes_forE) (auto simp: assms intro: removes_session_tokens)
  moreover have "revoke_clients uid cids svc s = forE ss ?f s"
    using run assms(3) by (auto simp: revoke_clients_def)
  ultimately have "removes (\<lambda>k i. \<exists>x \<in> set ss. unlinked_key uid cids svc (session_id x) k i)
      (revoke_clients uid cids svc) s" by (simp add: removes_def)
  then show ?thesis by (rule removes_weaken) (simp add: ss [symmetric])
qed

section \<open>A concrete table\<close>

text \<open>One user with one session and one refresh token, a digest that keeps the length of the
  text, and a random source that counts: enough to run every operation.\<close>

definition sha_len :: "string \<Rightarrow> byte list" where
  "sha_len w = [of_nat (length w)]"

definition demo_geo :: geo_data where
  "demo_geo = \<lparr>gd_city = [], gd_region = [], gd_country = ''BR'', gd_latitude = 0, gd_longitude = 0\<rparr>"

definition demo_session :: session where
  "demo_session = \<lparr>se_pk = ''USER_u'', se_sk = ''SESSION_s'', se_hash = ''h'', se_device_name = ''pc'',
     se_ip_address = [], se_user_agent = [], se_created_at = Some 0, se_last_used_at = Some 0,
     se_expires_at = 100, se_geo = demo_geo, se_auth_time = 0, se_amr = [''pwd''], se_last_mfa_at = 0\<rparr>"

definition demo_token :: refresh_token where
  "demo_token = \<lparr>rt_pk = ''USER_u'', rt_sk = ''REFRESH_s#app'', rt_hash = ''04'', rt_session_id = ''s'',
     rt_client_id = ''app'', rt_scopes = [''dfe:nfes:read''], rt_created_at = Some 0,
     rt_last_used_at = Some 0, rt_expires_at = 100\<rparr>"

definition demo_db :: sess_db where
  "demo_db = \<lparr>clock = 0, faults = [], rng = (\<lambda>n. Some (62 * n)), rng_ix = 0, uuids = (\<lambda>_. ''u''), uuid_ix = 0,
     sess_tbl = [((''USER_u'', ''SESSION_s''), SessionI demo_session),
       ((''USER_u'', ''REFRESH_s#app''), RefreshI demo_token),
       ((''TOKEN#04'', ''META''), LookupI (lookup_of LookupActive ''04'' demo_token 100))]\<rparr>"

lemma demo_wf: "sess_wf demo_db"
  unfolding sess_wf_def tbl_wf_def
  by (auto simp: demo_db_def demo_session_def demo_token_def tkeys_def tget_def build_pk_def
      build_sk_def build_refresh_sk_def session_id_def session_user_id_def refresh_user_id_def
      trim_prefix_def has_prefix_def plain_id_def lookup_of_def lookup_key_def token_lookup_pk_def
      token_lookup_sk_def split: if_splits)

lemma demo_rotation:
  "rotate_client_token sha_len ''rt_A'' ''app'' demo_db =
     (Inr (demo_session, ''rt_'', [''dfe:nfes:read'']),
      snd (rotate_client_token sha_len ''rt_A'' ''app'' demo_db))"
  by (rule prod_eqI) (code_simp, simp)

lemma demo_calm: "faults demo_db = []" "faults (snd (rotate_client_token sha_len ''rt_A'' ''app'' demo_db)) = []"
  by code_simp+

theorem sessions_keep_shape_witness:
  "sess_wf (fold (sess_step sha_len) [CallRotate ''rt_A'' ''app'', CallEnv 5 [Refused],
     CallRotate ''rt_A'' ''app'', CallRevokeAll ''u'' ''x''] demo_db)"
  by (rule sessions_keep_shape [OF demo_wf])

theorem reused_token_revokes_session_witness:
  "fst (rotate_client_token sha_len ''rt_A'' ''evil''
     (snd (rotate_client_token sha_len ''rt_A'' ''app'' demo_db))) = Inl ErrTokenReuse"
  using reused_token_revokes_session [OF demo_calm(1) demo_wf demo_rotation, of "[]" _ "''evil''"]
    demo_calm(2) by simp

theorem rotation_replaces_token_witness:
  "fst (repo_get_refresh_token_by_hash (hash_token sha_len ''rt_A'')
     (snd (rotate_client_token sha_len ''rt_A'' ''app'' demo_db))) = Inl ErrRefreshTokenNotFound"
  using rotation_replaces_token [OF demo_calm(1) demo_wf demo_rotation] by auto

theorem concurrent_rotation_single_winner_witness:
  "fst (finish_rotation sha_len demo_token demo_session 7
     (snd (finish_rotation sha_len demo_token demo_session 0 demo_db))) = Inl ErrTokenReuse"
proof -
  have ok: "refresh_ok demo_token"
    by (simp add: demo_token_def refresh_user_id_def build_pk_def build_refresh_sk_def plain_id_def
        trim_prefix_def has_prefix_def)
  have first: "finish_rotation sha_len demo_token demo_session 0 demo_db =
      (Inr (demo_session, ''rt_'', [''dfe:nfes:read'']), snd (finish_rotation sha_len demo_token demo_session 0 demo_db))"
    by (rule prod_eqI) (code_simp, simp)
  have rnd: "rng (snd (finish_rotation sha_len demo_token demo_session 0 demo_db))
      (rng_ix (snd (finish_rotation sha_len demo_token demo_session 0 demo_db))) = Some 62"
    by code_simp
  have fresh: "hash_token sha_len (''rt_'' @ to_base62 (bytes_be 32 62)) \<noteq> rt_hash demo_token"
    by code_simp
  show ?thesis
    using concurrent_rotation_single_winner [OF demo_calm(1) demo_wf ok first rnd fresh] by simp
qed

theorem revoke_all_exact_witness:
  "removes (\<lambda>k i. \<exists>sid. live_session (clock demo_db) (sess_tbl demo_db) ''u'' sid \<and> sid \<noteq> [] \<and>
      revoked_key ''u'' sid k) (revoke_all ''u'' []) demo_db \<and>
   live_session (clock demo_db) (sess_tbl demo_db) ''u'' ''s''"
proof -
  have "live_session (clock demo_db) (sess_tbl demo_db) ''u'' ''s''" by code_simp
  then show ?thesis using revoke_all_exact [OF demo_calm(1) demo_wf] by simp
qed

theorem revoke_clients_exact_witness:
  "removes (\<lambda>k i. \<exists>sid. live_session (clock demo_db) (sess_tbl demo_db) ''u'' sid \<and>
      unlinked_key ''u'' [] ''dfe'' sid k i) (revoke_clients ''u'' [] ''dfe'') demo_db \<and>
   unlinked_key ''u'' [] ''dfe'' ''s'' (''USER_u'', ''REFRESH_s#app'') (RefreshI demo_token)"
proof -
  have "unlinked_key ''u'' [] ''dfe'' ''s'' (''USER_u'', ''REFRESH_s#app'') (RefreshI demo_token)"
    by code_simp
  then show ?thesis using revoke_clients_exact [OF demo_calm(1) demo_wf, of "[]" "''dfe''"] by simp
qed

end
