(* ===== verification/APIKeys.thy ===== *)
theory APIKeys
  imports SessionService
begin

text \<open>
  API keys (\<open>api/internal/domain/apikey\<close>): the items of \<open>account_api_keys\<close>, the
  repository, and the service that creates, lists, revokes and authenticates them. The
  state extends that of the sessions by one table. A key whose slice of the raw token would
  be out of range is the error \<open>KPanic\<close>. The asynchronous update of the last use is a
  logged call of its own (\<open>touch_key\<close>), made after the authentication has answered.
\<close>

section \<open>Items\<close>

record api_key =
  ak_pk :: string
  ak_sk :: string
  ak_prefix :: string
  ak_hash :: string
  ak_name :: string
  ak_scopes :: "string list"
  ak_last_used_at :: stamp
  ak_expires_at :: int
  ak_created_at :: stamp

record key_db = sess_db +
  key_tbl :: "(key, api_key) table"

datatype key_err =
    KInfra | KRandom | KPanic | ErrKeyNotFound | ErrForbidden | ErrInvalidKey | ErrKeyExpired

type_synonym ('x, 'a) key_prog = "('x key_db_scheme, key_err, 'a) prog"

definition build_key_sk :: "string \<Rightarrow> string" where
  "build_key_sk kid = ''APIKEY_'' @ kid"

definition key_id :: "api_key \<Rightarrow> string" where
  "key_id k = trim_prefix (ak_sk k) ''APIKEY_''"

definition key_user_id :: "api_key \<Rightarrow> string" where
  "key_user_id k = trim_prefix (ak_pk k) ''USER_''"

definition key_is_expired :: "time \<Rightarrow> api_key \<Rightarrow> bool" where
  "key_is_expired n k \<longleftrightarrow> (if ak_expires_at k = 0 then False else unix n > ak_expires_at k)"

section \<open>Repository\<close>

definition key_create :: "api_key \<Rightarrow> ('x, unit) key_prog" where
  "key_create k = db_write KInfra (key_tbl_update (tput (ak_pk k, ak_sk k) k))"

definition key_get_by_id :: "string \<Rightarrow> string \<Rightarrow> ('x, api_key) key_prog" where
  "key_get_by_id uid kid =
     bindE (db_read KInfra (\<lambda>s. tget (key_tbl s) (build_pk uid, build_key_sk kid))) (\<lambda>i. case i of
       None \<Rightarrow> throw ErrKeyNotFound
     | Some k \<Rightarrow> ret k)"

definition key_get_by_hash :: "string \<Rightarrow> ('x, api_key) key_prog" where
  "key_get_by_hash h =
     bindE (db_read KInfra (\<lambda>s. take 1 (filter (\<lambda>k. ak_hash k = h) (map snd (key_tbl s))))) (\<lambda>ks. case ks of
       [] \<Rightarrow> throw ErrKeyNotFound
     | k # _ \<Rightarrow> ret k)"

definition key_list_by_user :: "string \<Rightarrow> ('x, api_key list) key_prog" where
  "key_list_by_user uid = db_read KInfra (\<lambda>s.
     tquery (\<lambda>k. fst k = build_pk uid \<and> has_prefix (snd k) ''APIKEY_'') (key_tbl s))"

text \<open>\<open>UpdateItem\<close> on a missing key creates an item with the one attribute.\<close>

definition blank_key :: "key \<Rightarrow> api_key" where
  "blank_key k = \<lparr>ak_pk = fst k, ak_sk = snd k, ak_prefix = '''', ak_hash = '''', ak_name = '''',
     ak_scopes = [], ak_last_used_at = None, ak_expires_at = 0, ak_created_at = None\<rparr>"

definition key_update_last_used :: "string \<Rightarrow> string \<Rightarrow> ('x, unit) key_prog" where
  "key_update_last_used uid kid =
     bindE now (\<lambda>n.
     db_write KInfra (key_tbl_update (\<lambda>tb.
       let k = (build_pk uid, build_key_sk kid);
           old = (case tget tb k of None \<Rightarrow> blank_key k | Some i \<Rightarrow> i)
       in tput k (old\<lparr>ak_last_used_at := ts n\<rparr>) tb)))"

definition key_delete :: "string \<Rightarrow> string \<Rightarrow> ('x, unit) key_prog" where
  "key_delete uid kid = db_write KInfra (key_tbl_update (tdel (build_pk uid, build_key_sk kid)))"

section \<open>Service\<close>

definition create_key ::
  "(string \<Rightarrow> byte list) \<Rightarrow> string \<Rightarrow> string \<Rightarrow> string list \<Rightarrow> time \<Rightarrow> ('x, api_key \<times> string) key_prog" where
  "create_key sha uid name scs expires_in =
     bindE (generate_opaque_token sha KRandom) (\<lambda>(raw, h).
     bindE new_uuid (\<lambda>kid.
     bindE now (\<lambda>n.
     let expires = (if 0 < expires_in then unix (n + expires_in) else 0)
     in if length raw < 8 then throw KPanic
        else
          let k = \<lparr>ak_pk = build_pk uid, ak_sk = build_key_sk kid, ak_prefix = take 8 raw, ak_hash = h,
                ak_name = name, ak_scopes = scs, ak_last_used_at = None, ak_expires_at = expires,
                ak_created_at = ts n\<rparr>
          in bindE (key_create k) (\<lambda>_. ret (k, raw)))))"

definition list_keys :: "string \<Rightarrow> ('x, api_key list) key_prog" where
  "list_keys uid =
     bindE (key_list_by_user uid) (\<lambda>ks.
     bindE now (\<lambda>n. ret (filter (\<lambda>k. \<not> key_is_expired n k) ks)))"

definition revoke_key :: "string \<Rightarrow> string \<Rightarrow> ('x, unit) key_prog" where
  "revoke_key uid kid =
     bindE (key_get_by_id uid kid) (\<lambda>k.
       if key_user_id k \<noteq> uid then throw ErrForbidden else key_delete uid kid)"

definition authenticate_key :: "(string \<Rightarrow> byte list) \<Rightarrow> string \<Rightarrow> ('x, api_key) key_prog" where
  "authenticate_key sha raw =
     bindE (tryE (key_get_by_hash (hash_token sha raw))) (\<lambda>r. case r of
       Inl e \<Rightarrow> throw (if e = ErrKeyNotFound then ErrInvalidKey else e)
     | Inr k \<Rightarrow> bindE now (\<lambda>n. if key_is_expired n k then throw ErrKeyExpired else ret k))"

text \<open>The goroutine \<open>Authenticate\<close> starts for the key it returns.\<close>

definition touch_key :: "api_key \<Rightarrow> ('x, unit) key_prog" where
  "touch_key k = logE (key_update_last_used (key_user_id k) (key_id k))"

section \<open>The shape of the key table\<close>

definition key_item_ok :: "key \<Rightarrow> api_key \<Rightarrow> bool" where
  "key_item_ok k i \<longleftrightarrow>
     k = (ak_pk i, ak_sk i) \<and> ak_pk i = build_pk (key_user_id i) \<and> ak_sk i = build_key_sk (key_id i)"

definition key_wf :: "'x key_db_scheme \<Rightarrow> bool" where
  "key_wf s \<longleftrightarrow> tkeys (key_tbl s) \<and> (\<forall>k i. tget (key_tbl s) k = Some i \<longrightarrow> key_item_ok k i)"

lemma build_key_sk_inject [simp]: "build_key_sk a = build_key_sk b \<longleftrightarrow> a = b"
  by (simp add: build_key_sk_def)

lemma trim_build_key_sk [simp]: "trim_prefix (build_key_sk u) ''APIKEY_'' = u"
  unfolding build_key_sk_def by (rule trim_prefix_append)

lemma key_wfD: "key_wf s \<Longrightarrow> tget (key_tbl s) k = Some i \<Longrightarrow> key_item_ok k i"
  unfolding key_wf_def by blast

lemma key_wf_tput: "key_wf s \<Longrightarrow> key_item_ok k i \<Longrightarrow> key_wf (key_tbl_update (tput k i) s)"
  by (simp add: key_wf_def)

lemma key_wf_tdel: "key_wf s \<Longrightarrow> key_wf (key_tbl_update (tdel k) s)"
  by (simp add: key_wf_def)

lemma blind_key_wf [simp, intro]: "blind key_wf"
  by (simp add: blind_def key_wf_def)

lemma preserves_key_create: "key_item_ok (ak_pk k, ak_sk k) k \<Longrightarrow> preserves key_wf (key_create k)"
  unfolding key_create_def by (rule preserves_db_write) (auto intro: key_wf_tput)

lemma preserves_key_get [wp]: "preserves key_wf (key_get_by_id u k)"
  unfolding key_get_by_id_def by (auto split: option.split intro!: wp)

lemma preserves_key_get_by_hash [wp]: "preserves key_wf (key_get_by_hash h)"
  unfolding key_get_by_hash_def by (auto split: list.split intro!: wp)

lemma preserves_key_list [wp]: "preserves key_wf (key_list_by_user u)"
  unfolding key_list_by_user_def by (intro wp) simp

lemma preserves_key_delete [wp]: "preserves key_wf (key_delete u k)"
  unfolding key_delete_def by (rule preserves_db_write) (auto intro: key_wf_tdel)

lemma preserves_key_update_last_used [wp]: "preserves key_wf (key_update_last_used u k)"
  unfolding key_update_last_used_def
proof (intro wp preserves_db_write)
  fix n and s :: "'x key_db_scheme" assume wf: "key_wf s"
  let ?k = "(build_pk u, build_key_sk k)"
  let ?old = "case tget (key_tbl s) ?k of None \<Rightarrow> blank_key ?k | Some i \<Rightarrow> i"
  have "key_item_ok ?k ?old"
    using key_wfD [OF wf, of ?k]
    by (auto simp: key_item_ok_def blank_key_def key_id_def key_user_id_def split: option.split)
  then have "key_item_ok ?k (?old\<lparr>ak_last_used_at := ts n\<rparr>)"
    by (simp add: key_item_ok_def key_id_def key_user_id_def)
  with wf show "key_wf (key_tbl_update (\<lambda>tb. let k = ?k;
      old = case tget tb k of None \<Rightarrow> blank_key k | Some i \<Rightarrow> i
      in tput k (old\<lparr>ak_last_used_at := ts n\<rparr>) tb) s)"
    by (simp add: key_wf_def Let_def)
qed simp

lemma preserves_opaque [wp]: "preserves key_wf (generate_opaque_token sha e)"
  by (auto simp: preserves_def generate_opaque_token_def generate_random_def bindE_run Let_def key_wf_def
      split: option.split)

lemma preserves_uuid [wp]: "preserves key_wf new_uuid"
  by (simp add: preserves_def key_wf_def)

lemma preserves_create_key [wp]: "preserves key_wf (create_key sha u name scs ttl)"
  unfolding create_key_def Let_def
  by (auto split: prod.split intro!: wp preserves_key_create
      simp: key_item_ok_def key_id_def key_user_id_def)

lemma preserves_list_keys [wp]: "preserves key_wf (list_keys u)"
  unfolding list_keys_def by (intro wp)

lemma preserves_revoke_key [wp]: "preserves key_wf (revoke_key u k)"
  unfolding revoke_key_def by (intro wp)

lemma preserves_authenticate_key [wp]: "preserves key_wf (authenticate_key sha raw)"
  unfolding authenticate_key_def by (auto split: sum.split intro!: wp)

lemma preserves_touch_key [wp]: "preserves key_wf (touch_key k)"
  unfolding touch_key_def by (intro wp)

text \<open>What the operations do when their calls are served.\<close>

lemma revoke_key_run:
  assumes "faults s = []" and "key_wf s"
    and "tget (key_tbl s) (build_pk u, build_key_sk k) = Some i"
  shows "revoke_key u k s = (Inr (), key_tbl_update (tdel (build_pk u, build_key_sk k)) s)"
proof -
  have "key_user_id i = u"
    using key_wfD [OF assms(2,3)] by (metis build_pk_inject fst_conv key_item_ok_def)
  with assms(1,3) show ?thesis
    by (simp add: revoke_key_def key_get_by_id_def key_delete_def)
qed

definition live_key :: "time \<Rightarrow> (key, api_key) table \<Rightarrow> string \<Rightarrow> string \<Rightarrow> bool" where
  "live_key n tb u k \<longleftrightarrow>
     (case tget tb (build_pk u, build_key_sk k) of Some i \<Rightarrow> \<not> key_is_expired n i | None \<Rightarrow> False)"

lemma list_keys_run:
  assumes "faults s = []" and "key_wf s"
  obtains ks where "list_keys u s = (Inr ks, s)"
    and "distinct (map key_id ks)"
    and "\<And>i. i \<in> set ks \<longleftrightarrow> tget (key_tbl s) (build_pk u, build_key_sk (key_id i)) = Some i \<and>
           \<not> key_is_expired (clock s) i"
proof -
  let ?P = "\<lambda>q. fst (fst q) = build_pk u \<and> has_prefix (snd (fst q)) ''APIKEY_''"
  let ?E = "\<lambda>i. \<not> key_is_expired (clock s) i"
  let ?ks = "filter ?E (map snd (filter ?P (key_tbl s)))"
  have keys: "distinct (map fst (key_tbl s))" using assms(2) by (simp add: key_wf_def tkeys_def)
  have mem: "(k, i) \<in> set (key_tbl s) \<longleftrightarrow> tget (key_tbl s) k = Some i" for k i
    using keys by (simp add: tget_def)
  have ok: "k = (build_pk u, build_key_sk (key_id i))" if "(k, i) \<in> set (key_tbl s)" "fst k = build_pk u" for k i
    using that key_wfD [OF assms(2), of k i] by (simp add: mem key_item_ok_def prod_eq_iff)
  have "map (build_key_sk \<circ> key_id) (map snd (filter ?P (key_tbl s))) = map (snd \<circ> fst) (filter ?P (key_tbl s))"
    using ok by (auto simp: comp_def)
  moreover have "distinct (map (snd \<circ> fst) (filter ?P (key_tbl s)))"
  proof -
    have "inj_on snd (fst ` set (filter ?P (key_tbl s)))" by (auto simp: inj_on_def)
    moreover have "distinct (map fst (filter ?P (key_tbl s)))" using keys by (simp add: distinct_map_filter)
    ultimately have "distinct (map snd (map fst (filter ?P (key_tbl s))))"
      by (simp only: distinct_map [of snd] set_map simp_thms)
    then show ?thesis by (simp only: map_map)
  qed
  ultimately have "distinct (map (build_key_sk \<circ> key_id) (map snd (filter ?P (key_tbl s))))" by (simp only:)
  then have "distinct (map build_key_sk (map key_id (map snd (filter ?P (key_tbl s)))))"
    by (simp only: map_map comp_assoc)
  then have "distinct (map key_id (map snd (filter ?P (key_tbl s))))"
    by (rule distinct_map [THEN iffD1, THEN conjunct1])
  then have d: "distinct (map key_id ?ks)" by (rule distinct_map_filter)
  have "list_keys u s = (Inr ?ks, s)"
    using assms(1) by (simp add: list_keys_def key_list_by_user_def tquery_def)
  moreover note d
  moreover have "i \<in> set ?ks \<longleftrightarrow> tget (key_tbl s) (build_pk u, build_key_sk (key_id i)) = Some i \<and> ?E i" for i
  proof
    assume "i \<in> set ?ks"
    then obtain k where k: "(k, i) \<in> set (key_tbl s)" "fst k = build_pk u" "?E i" by auto
    from ok [OF k(1,2)] k(1,3) show "tget (key_tbl s) (build_pk u, build_key_sk (key_id i)) = Some i \<and> ?E i"
      by (simp add: mem)
  next
    assume i: "tget (key_tbl s) (build_pk u, build_key_sk (key_id i)) = Some i \<and> ?E i"
    then have "((build_pk u, build_key_sk (key_id i)), i) \<in> set (filter ?P (key_tbl s))"
      by (simp add: mem build_key_sk_def has_prefix_def)
    with i show "i \<in> set ?ks" by (simp only: set_filter set_map) force
  qed
  ultimately show ?thesis by - (rule that)
qed

section \<open>Properties\<close>

lemma create_key_calm:
  assumes "faults s = []"
  shows "create_key sha u name scs ttl s = (case rng s (rng_ix s) of
       None \<Rightarrow> (Inl KRandom, s\<lparr>rng_ix := Suc (rng_ix s)\<rparr>)
     | Some n \<Rightarrow>
        let raw = ''ak_'' @ to_base62 (bytes_be 32 n);
            kid = uuids s (uuid_ix s);
            t = s\<lparr>rng_ix := Suc (rng_ix s), uuid_ix := Suc (uuid_ix s)\<rparr>
        in if length raw < 8 then (Inl KPanic, t)
           else
             let k = \<lparr>ak_pk = build_pk u, ak_sk = build_key_sk kid, ak_prefix = take 8 raw,
                   ak_hash = hash_token sha raw, ak_name = name, ak_scopes = scs, ak_last_used_at = None,
                   ak_expires_at = (if 0 < ttl then unix (clock s + ttl) else 0), ak_created_at = ts (clock s)\<rparr>
             in (Inr (k, raw), key_tbl_update (tput (ak_pk k, ak_sk k) k) t))"
  using assms
  by (simp add: create_key_def generate_opaque_token_run bindE_run key_create_def Let_def split: option.split)

lemma create_key_run:
  assumes "create_key sha u name scs ttl s = (Inr (k, raw), t)" and "faults s = []"
  shows "key_tbl t = tput (ak_pk k, ak_sk k) k (key_tbl s)" and "faults t = []"
    and "ak_pk k = build_pk u" and "key_id k = uuids s (uuid_ix s)" and "ak_sk k = build_key_sk (key_id k)"
    and "ak_hash k = hash_token sha raw" and "ak_scopes k = scs"
    and "ak_expires_at k = (if 0 < ttl then unix (clock s + ttl) else 0)"
proof -
  from assms(1) obtain n where n: "rng s (rng_ix s) = Some n"
    unfolding create_key_calm [OF assms(2)] by (cases "rng s (rng_ix s)") simp_all
  from assms(1) have long: "\<not> length (''ak_'' @ to_base62 (bytes_be 32 n)) < 8"
    unfolding create_key_calm [OF assms(2)] n by (auto simp: Let_def split: if_splits)
  from assms(1) have
    "k = \<lparr>ak_pk = build_pk u, ak_sk = build_key_sk (uuids s (uuid_ix s)), ak_prefix = take 8 raw,
       ak_hash = hash_token sha raw, ak_name = name, ak_scopes = scs, ak_last_used_at = None,
       ak_expires_at = (if 0 < ttl then unix (clock s + ttl) else 0), ak_created_at = ts (clock s)\<rparr>"
    "t = key_tbl_update (tput (ak_pk k, ak_sk k) k) (s\<lparr>rng_ix := Suc (rng_ix s), uuid_ix := Suc (uuid_ix s)\<rparr>)"
    unfolding create_key_calm [OF assms(2)] n by (simp_all only: Let_def option.case if_not_P [OF long] prod.inject sum.inject)
      (elim conjE, hypsubst, rule refl)+
  with assms(2) show "key_tbl t = tput (ak_pk k, ak_sk k) k (key_tbl s)" "faults t = []"
    "ak_pk k = build_pk u" "key_id k = uuids s (uuid_ix s)" "ak_sk k = build_key_sk (key_id k)"
    "ak_hash k = hash_token sha raw" "ak_scopes k = scs"
    "ak_expires_at k = (if 0 < ttl then unix (clock s + ttl) else 0)"
    by (simp_all add: key_id_def)
qed

lemma key_by_hash_mem:
  assumes "key_get_by_hash h s = (Inr k, t)"
  shows "k \<in> snd ` set (key_tbl s) \<and> ak_hash k = h"
proof -
  let ?f = "\<lambda>s. take 1 (filter (\<lambda>k. ak_hash k = h) (map snd (key_tbl s)))"
  have "fst (db_read KInfra ?f s) = Inr (?f s) \<or> fst (db_read KInfra ?f s) = Inl KInfra"
    using db_read_cases [of KInfra ?f s] by blast
  with assms have "k \<in> set (?f s)"
    by (auto simp: key_get_by_hash_def bindE_run split: prod.splits sum.splits list.splits)
  then have "k \<in> set (filter (\<lambda>k. ak_hash k = h) (map snd (key_tbl s)))" by (rule in_set_takeD)
  then show ?thesis by auto
qed

lemma key_by_hash_run:
  assumes "faults s = []" and "tkeys (key_tbl s)" and "tget (key_tbl s) q = Some k"
    and "\<And>p i. tget (key_tbl s) p = Some i \<Longrightarrow> ak_hash i = ak_hash k \<Longrightarrow> p = q"
  shows "key_get_by_hash (ak_hash k) s = (Inr k, s)"
proof -
  let ?ks = "filter (\<lambda>i. ak_hash i = ak_hash k) (map snd (key_tbl s))"
  have mem: "(p, i) \<in> set (key_tbl s) \<longleftrightarrow> tget (key_tbl s) p = Some i" for p i
    using assms(2) by (simp add: tkeys_def tget_def)
  have "set ?ks \<subseteq> {k}" using assms(3,4) by (auto simp: mem)
  moreover have "k \<in> set ?ks" using assms(3) unfolding mem [symmetric] by force
  ultimately have "\<exists>r. ?ks = k # r" by (cases ?ks) auto
  then show ?thesis using assms(1) by (auto simp: key_get_by_hash_def)
qed

text \<open>The life of an API key. A key that was just created authenticates with the
  raw token its owner was shown, as long as no other stored key has the same hash and its
  expiry has not passed, and is refused as expired afterwards; once its owner revokes it the
  token is no longer accepted, whatever other keys exist.\<close>

theorem api_key_life:
  assumes "faults s = []" and "key_wf s"
    and "create_key sha u name scs ttl s = (Inr (k, raw), t)"
    and "\<And>p i. tget (key_tbl s) p = Some i \<Longrightarrow> ak_hash i \<noteq> hash_token sha raw"
    and "0 < clock s" and "second \<le> ttl"
  shows "fst (authenticate_key sha raw (t\<lparr>clock := n\<rparr>)) =
      (if unix n \<le> unix (clock s + ttl) then Inr k else Inl ErrKeyExpired) \<and>
    fst (authenticate_key sha raw (snd (revoke_key u (key_id k) t))) = Inl ErrInvalidKey"
proof
  note r = create_key_run [OF assms(3,1)]
  let ?q = "(build_pk u, build_key_sk (key_id k))"
  have wf: "key_wf t" using preservesD [OF preserves_create_key assms(2)] assms(3) by (metis snd_conv)
  have get: "tget (key_tbl t) ?q = Some k" using r by simp
  have uniq: "p = ?q" if "tget (key_tbl t) p = Some i" "ak_hash i = ak_hash k" for p i
    using that assms(4) r(1,3,5,6) by (auto split: if_splits)
  have exp: "ak_expires_at k = unix (clock s + ttl)" "unix (clock s + ttl) \<noteq> 0"
    using assms(5,6) r(8) by (auto simp: unix_def second_def)
  have "key_get_by_hash (ak_hash k) (t\<lparr>clock := n\<rparr>) = (Inr k, t\<lparr>clock := n\<rparr>)"
    by (rule key_by_hash_run) (use r(2) wf get uniq in \<open>auto simp: key_wf_def\<close>)
  then show "fst (authenticate_key sha raw (t\<lparr>clock := n\<rparr>)) =
      (if unix n \<le> unix (clock s + ttl) then Inr k else Inl ErrKeyExpired)"
    using exp by (auto simp: authenticate_key_def r(6) [symmetric] key_is_expired_def)
  let ?w = "key_tbl_update (tdel ?q) t"
  have rev: "revoke_key u (key_id k) t = (Inr (), ?w)"
    by (rule revoke_key_run [OF r(2) wf get])
  have none: "tget (key_tbl ?w) p = Some i \<Longrightarrow> ak_hash i \<noteq> ak_hash k" for p i
    using uniq [of p i] by (auto split: if_splits)
  have "tkeys (key_tbl ?w)" using wf by (simp add: key_wf_def)
  from tmem [OF this] none have "(p, i) \<in> set (key_tbl ?w) \<Longrightarrow> ak_hash i \<noteq> ak_hash k" for p i
    by blast
  then have "filter (\<lambda>i. ak_hash i = ak_hash k) (map snd (key_tbl ?w)) = []"
    unfolding filter_empty_conv by fastforce
  then have "key_get_by_hash (ak_hash k) ?w = (Inl ErrKeyNotFound, ?w)"
    using r(2) by (simp add: key_get_by_hash_def)
  then show "fst (authenticate_key sha raw (snd (revoke_key u (key_id k) t))) = Inl ErrInvalidKey"
    unfolding rev by (simp add: authenticate_key_def r(6) [symmetric])
qed

definition demo_keys :: key_db where
  "demo_keys = \<lparr>clock = second, faults = [], rng = (\<lambda>_. Some 916132832), rng_ix = 0, uuids = (\<lambda>_. ''k''),
     uuid_ix = 0, sess_tbl = [], key_tbl = []\<rparr>"

theorem api_key_life_witness:
  "\<exists>k raw t. fst (create_key sha_len ''u'' ''ci'' [''dfe:nfes:read''] (60 * second) demo_keys) = Inr (k, raw) \<and>
     snd (create_key sha_len ''u'' ''ci'' [''dfe:nfes:read''] (60 * second) demo_keys) = t \<and>
     fst (authenticate_key sha_len raw (t\<lparr>clock := 61 * second\<rparr>)) = Inr k \<and>
     fst (authenticate_key sha_len raw (t\<lparr>clock := 62 * second\<rparr>)) = Inl ErrKeyExpired \<and>
     fst (authenticate_key sha_len raw (snd (revoke_key ''u'' (key_id k) t))) = Inl ErrInvalidKey"
proof -
  have calm: "faults demo_keys = []" "key_wf demo_keys" "0 < clock demo_keys" "second \<le> 60 * second"
    by (simp_all add: demo_keys_def key_wf_def second_def)
  have digits: "to_base62 (bytes_be 32 916132832) = ''100000''"
    by (simp add: to_base62_def set_bytes_be base62_loop.simps base62_chars_def)
  have "\<exists>k raw t. create_key sha_len ''u'' ''ci'' [''dfe:nfes:read''] (60 * second) demo_keys = (Inr (k, raw), t)"
    unfolding create_key_calm [OF calm(1)] by (simp add: demo_keys_def digits Let_def)
  then obtain k raw t where
    run: "create_key sha_len ''u'' ''ci'' [''dfe:nfes:read''] (60 * second) demo_keys = (Inr (k, raw), t)"
    by blast
  have fresh: "\<And>p i. tget (key_tbl demo_keys) p = Some i \<Longrightarrow> ak_hash i \<noteq> hash_token sha_len raw"
    by (simp add: demo_keys_def)
  have units: "unix (61 * second) \<le> unix (clock demo_keys + 60 * second)"
    "\<not> unix (62 * second) \<le> unix (clock demo_keys + 60 * second)"
    by (simp_all add: demo_keys_def unix_def second_def)
  note life = api_key_life [OF calm(1,2) run _ calm(3,4)]
  show ?thesis
    using life [of "61 * second", OF fresh] life [of "62 * second", OF fresh] unfolding run if_P [OF units(1)] if_not_P [OF units(2)]
    by (intro exI [of _ k] exI [of _ raw] exI [of _ t]) (simp only: fst_conv snd_conv simp_thms)
qed

end
