(* ===== verification/Password.thy ===== *)
theory Password
  imports Crypto
begin

text \<open>
  Password hashes (\<open>api/internal/crypto/password.go\<close>): the encoded text of an Argon2id
  digest, its parser, and the verification. Argon2id itself is a parameter (\<open>argon\<close>: the
  password, the salt, the time, memory and thread parameters and the length of the key);
  the text format around it, unpadded base 64 and the \<open>Sscanf\<close> pattern are modelled.
\<close>

section \<open>Base 64 without padding\<close>

definition base64_chars :: string where
  "base64_chars = ''ABCDEFGHIJKLMNOPQRSTUVWXYZabcdefghijklmnopqrstuvwxyz0123456789+/''"

definition char64 :: "nat \<Rightarrow> char" where
  "char64 d = base64_chars ! d"

fun encode64 :: "byte list \<Rightarrow> string" where
  "encode64 (a # b # c # r) =
     char64 (unat a div 4) # char64 (unat a mod 4 * 16 + unat b div 16) #
     char64 (unat b mod 16 * 4 + unat c div 64) # char64 (unat c mod 64) # encode64 r"
| "encode64 [a, b] =
     [char64 (unat a div 4), char64 (unat a mod 4 * 16 + unat b div 16), char64 (unat b mod 16 * 4)]"
| "encode64 [a] = [char64 (unat a div 4), char64 (unat a mod 4 * 16)]"
| "encode64 [] = []"

definition digit64 :: "char \<Rightarrow> nat option" where
  "digit64 c = (let n = length (takeWhile (\<lambda>x. x \<noteq> c) base64_chars) in if n < 64 then Some n else None)"

fun digits64 :: "string \<Rightarrow> nat list option" where
  "digits64 [] = Some []"
| "digits64 (c # s) = (case digit64 c of None \<Rightarrow> None | Some d \<Rightarrow> map_option ((#) d) (digits64 s))"

fun group64 :: "nat list \<Rightarrow> byte list option" where
  "group64 (w # x # y # z # r) = map_option (\<lambda>t.
     of_nat (w * 4 + x div 16) # of_nat (x mod 16 * 16 + y div 4) # of_nat (y mod 4 * 64 + z) # t) (group64 r)"
| "group64 [w, x, y] = Some [of_nat (w * 4 + x div 16), of_nat (x mod 16 * 16 + y div 4)]"
| "group64 [w, x] = Some [of_nat (w * 4 + x div 16)]"
| "group64 [w] = None"
| "group64 [] = Some []"

text \<open>Go's decoder skips line breaks and, without padding, refuses a lone last character.\<close>

definition decode64 :: "string \<Rightarrow> byte list option" where
  "decode64 s = Option.bind (digits64 (filter (\<lambda>c. c \<noteq> CHR 0x0A \<and> c \<noteq> CHR 0x0D) s)) group64"

lemma length_base64_chars: "length base64_chars = 64"
  by (simp add: base64_chars_def)

lemma distinct_base64_chars: "distinct base64_chars"
  by (simp add: base64_chars_def)

lemma digit64_char64: "d < 64 \<Longrightarrow> digit64 (char64 d) = Some d"
  using takeWhile_distinct_nth [OF distinct_base64_chars, of d]
  by (simp add: digit64_def char64_def length_base64_chars)

lemma char64_mem: "d < 64 \<Longrightarrow> char64 d \<in> set base64_chars"
  unfolding char64_def by (rule nth_mem) (simp add: length_base64_chars)

lemma nat_parts:
  fixes m n :: nat
  assumes "m < 256" and "n < 256"
  shows "m div 4 < 64" "m mod 4 * 16 < 64" "m mod 16 * 4 < 64" "m mod 64 < 64"
    and "m mod 4 * 16 + n div 16 < 64" "m mod 16 * 4 + n div 64 < 64"
proof -
  have "m mod 4 < 4" "m mod 16 < 16" "n div 16 < 16" "n div 64 < 4" using assms by simp_all
  then show "m mod 4 * 16 < 64" "m mod 16 * 4 < 64" "m mod 4 * 16 + n div 16 < 64"
    "m mod 16 * 4 + n div 64 < 64" by linarith+
qed (use assms in simp_all)

lemmas byte_parts = nat_parts [OF unat_byte_less unat_byte_less]

lemma group64_encode: "\<exists>ds. digits64 (encode64 b) = Some ds \<and> group64 ds = Some b"
proof (induction b rule: encode64.induct)
  case (1 a b c r)
  then obtain ds where "digits64 (encode64 r) = Some ds" "group64 ds = Some r" by blast
  moreover have "of_nat (unat a div 4 * 4 + (unat a mod 4 * 16 + unat b div 16) div 16) = a"
    using unat_byte_less [of b] by (simp add: div_mult_mod_eq)
  moreover have "of_nat ((unat a mod 4 * 16 + unat b div 16) mod 16 * 16 + (unat b mod 16 * 4 + unat c div 64) div 4) = b"
  proof -
    have "unat b div 16 < 16" "unat c div 64 < 4"
      using unat_byte_less [of b] unat_byte_less [of c] by simp_all
    then have "(unat a mod 4 * 16 + unat b div 16) mod 16 * 16 + (unat b mod 16 * 4 + unat c div 64) div 4 = unat b"
      by simp
    then show ?thesis by simp
  qed
  moreover have "of_nat ((unat b mod 16 * 4 + unat c div 64) mod 4 * 64 + unat c mod 64) = c"
  proof -
    have "unat c div 64 < 4" using unat_byte_less [of c] by simp
    then have "(unat b mod 16 * 4 + unat c div 64) mod 4 * 64 + unat c mod 64 = unat c" by simp
    then show ?thesis by simp
  qed
  ultimately show ?case by (simp add: digit64_char64 byte_parts)
next
  case (2 a b)
  have "unat b div 16 < 16" using unat_byte_less [of b] by simp
  then have "(unat a mod 4 * 16 + unat b div 16) mod 16 * 16 + unat b mod 16 * 4 div 4 = unat b"
    "unat a div 4 * 4 + (unat a mod 4 * 16 + unat b div 16) div 16 = unat a" by simp_all
  moreover have "digits64 (encode64 [a, b]) =
      Some [unat a div 4, unat a mod 4 * 16 + unat b div 16, unat b mod 16 * 4]"
    by (simp add: digit64_char64 byte_parts)
  ultimately show ?case by (simp add: word_unat_eq_iff unsigned_of_nat)
next
  case (3 a)
  have "unat a div 4 * 4 + unat a mod 4 * 16 div 16 = unat a" by simp
  then show ?case by (simp add: digit64_char64 byte_parts)
next
  case 4
  then show ?case by simp
qed

lemma encode64_chars: "set (encode64 b) \<subseteq> set base64_chars"
  by (induction b rule: encode64.induct) (auto intro!: char64_mem byte_parts)

lemma decode64_encode64: "decode64 (encode64 b) = Some b"
proof -
  have "filter (\<lambda>c. c \<noteq> CHR 0x0A \<and> c \<noteq> CHR 0x0D) (encode64 b) = encode64 b"
    using encode64_chars [of b] by (intro filter_True) (auto simp: base64_chars_def)
  with group64_encode [of b] show ?thesis by (auto simp: decode64_def)
qed

section \<open>The encoded hash\<close>

type_synonym argon2id = "string \<Rightarrow> byte list \<Rightarrow> nat \<Rightarrow> nat \<Rightarrow> nat \<Rightarrow> nat \<Rightarrow> byte list"

datatype pw_err = PwRandom | ErrInvalidHash | PwPanic

definition argonTime :: nat where "argonTime = 1"
definition argonMemory :: nat where "argonMemory = 64 * 1024"
definition argonThreads :: nat where "argonThreads = 4"
definition argonKeyLen :: nat where "argonKeyLen = 32"
definition argonSaltLen :: nat where "argonSaltLen = 16"

fun show_nat :: "nat \<Rightarrow> string" where
  "show_nat n = (if n < 10 then [''0123456789'' ! n] else show_nat (n div 10) @ [''0123456789'' ! (n mod 10)])"

declare show_nat.simps [simp del]

fun split_on :: "char \<Rightarrow> string \<Rightarrow> string list" where
  "split_on c [] = [[]]"
| "split_on c (x # s) = (if x = c then [] # split_on c s
     else (case split_on c s of [] \<Rightarrow> [[x]] | w # ws \<Rightarrow> (x # w) # ws))"

definition encode_hash :: "byte list \<Rightarrow> byte list \<Rightarrow> string" where
  "encode_hash salt h =
     ''$argon2id$v=19$m='' @ show_nat argonMemory @ '',t='' @ show_nat argonTime @ '',p='' @ show_nat argonThreads @
     ''$'' @ encode64 salt @ ''$'' @ encode64 h"

text \<open>\<open>%d\<close> of \<open>Sscanf\<close> into an unsigned variable: blanks are skipped, at least one digit
  is read, and a value above the maximum of the type is an error.\<close>

definition scan_uint :: "nat \<Rightarrow> string \<Rightarrow> (nat \<times> string) option" where
  "scan_uint m s =
     (let t = dropWhile (\<lambda>c. c = CHR '' '') s;
          ds = takeWhile (\<lambda>c. c \<in> set ''0123456789'') t;
          n = foldl (\<lambda>a c. a * 10 + (of_char c - 48)) 0 ds
      in if ds = [] \<or> m < n then None else Some (n, drop (length ds) t))"

definition scan_lit :: "string \<Rightarrow> string \<Rightarrow> string option" where
  "scan_lit p s = (if has_prefix s p then Some (drop (length p) s) else None)"

definition scan_params :: "string \<Rightarrow> (nat \<times> nat \<times> nat) option" where
  "scan_params s =
     Option.bind (scan_lit ''m='' s) (\<lambda>s. Option.bind (scan_uint (2 ^ 32 - 1) s) (\<lambda>(m, s).
     Option.bind (scan_lit '',t='' s) (\<lambda>s. Option.bind (scan_uint (2 ^ 32 - 1) s) (\<lambda>(t, s).
     Option.bind (scan_lit '',p='' s) (\<lambda>s. Option.bind (scan_uint (2 ^ 8 - 1) s) (\<lambda>(p, s).
     Some (m, t, p)))))))"

definition hash_password ::
  "argon2id \<Rightarrow> string \<Rightarrow> ('x env_scheme, pw_err, string) prog" where
  "hash_password argon pw =
     bindE (generate_random PwRandom (8 * argonSaltLen)) (\<lambda>salt.
       ret (encode_hash salt (argon pw salt argonTime argonMemory argonThreads argonKeyLen)))"

text \<open>\<open>argon2.IDKey\<close> panics when the time or the number of threads is zero.\<close>

definition verify_password :: "argon2id \<Rightarrow> string \<Rightarrow> string \<Rightarrow> pw_err + bool" where
  "verify_password argon pw encoded =
     (let parts = split_on (CHR ''$'') encoded
      in if length parts \<noteq> 6 then Inl ErrInvalidHash
         else case scan_params (parts ! 3) of None \<Rightarrow> Inl ErrInvalidHash | Some (memory, time, threads) \<Rightarrow>
           case decode64 (parts ! 4) of None \<Rightarrow> Inl ErrInvalidHash | Some salt \<Rightarrow>
           case decode64 (parts ! 5) of None \<Rightarrow> Inl ErrInvalidHash | Some stored \<Rightarrow>
             if time = 0 \<or> threads = 0 then Inl PwPanic
             else Inr (argon pw salt time memory threads (length stored) = stored))"

text \<open>\<open>VerifyDummyPassword\<close> verifies against the hash of a fixed text computed at start-up
  (\<open>dummy\<close>) and drops the answer.\<close>

definition verify_dummy_password :: "argon2id \<Rightarrow> string \<Rightarrow> string \<Rightarrow> pw_err + unit" where
  "verify_dummy_password argon dummy pw = (case verify_password argon pw dummy of
     Inl e \<Rightarrow> Inl e | Inr _ \<Rightarrow> Inr ())"

lemma split_on_word: "c \<notin> set w \<Longrightarrow> split_on c w = [w]"
  by (induction w) auto

lemma split_on_append: "c \<notin> set w \<Longrightarrow> split_on c (w @ [c] @ s) = w # split_on c s"
  by (induction w) auto

lemma dollar_not_64: "CHR ''$'' \<notin> set (encode64 b)"
  using encode64_chars [of b] by (auto simp: base64_chars_def)

lemma param_text:
  "show_nat argonMemory = ''65536''" "show_nat argonTime = ''1''" "show_nat argonThreads = ''4''"
  by (simp_all add: show_nat.simps argonMemory_def argonTime_def argonThreads_def)

lemma split_encode_hash:
  "split_on (CHR ''$'') (encode_hash salt h) =
     [[], ''argon2id'', ''v=19'', ''m=65536,t=1,p=4'', encode64 salt, encode64 h]"
proof -
  have "encode_hash salt h = [] @ ''$'' @ ''argon2id'' @ ''$'' @ ''v=19'' @ ''$'' @ ''m=65536,t=1,p=4'' @
      ''$'' @ encode64 salt @ ''$'' @ encode64 h"
    by (simp add: encode_hash_def param_text)
  then show ?thesis
    by (simp only: split_on_append split_on_word dollar_not_64 not_False_eq_True list.set insert_iff
        empty_iff char.inject refl simp_thms)
qed

lemma scan_own_params: "scan_params ''m=65536,t=1,p=4'' = Some (65536, 1, 4)"
  by (simp add: scan_params_def scan_lit_def scan_uint_def has_prefix_def)

lemma verify_encode_hash:
  "verify_password argon pw (encode_hash salt h) =
     Inr (argon pw salt argonTime argonMemory argonThreads (length h) = h)"
  by (simp add: verify_password_def split_encode_hash scan_own_params decode64_encode64
      argonTime_def argonMemory_def argonThreads_def)

text \<open>Claim C27. A password hash verifies exactly the passwords with the same digest: what
  \<open>HashPassword\<close> encodes, \<open>VerifyPassword\<close> parses back without an error, with the same
  salt, parameters and digest, so the password itself is accepted and any other one is
  accepted only if Argon2id maps it to the same digest under that salt.\<close>

theorem password_round_trip:
  assumes "hash_password argon pw s = (Inr encoded, t)"
    and "\<And>p salt n m k l. length (argon p salt n m k l) = l"
  shows "verify_password argon pw encoded = Inr True \<and>
    (\<exists>salt. length salt = 16 \<and>
       verify_password argon other encoded =
         Inr (argon other salt 1 65536 4 32 = argon pw salt 1 65536 4 32))"
proof -
  obtain salt where salt: "length salt = 16"
    and e: "encoded = encode_hash salt (argon pw salt argonTime argonMemory argonThreads argonKeyLen)"
    using assms(1)
    by (auto simp: hash_password_def bindE_run argonSaltLen_def split: sum.splits prod.splits
        dest!: generate_random_Inr)
  from salt e assms(2) show ?thesis
    by (auto simp: verify_encode_hash argonTime_def argonMemory_def argonThreads_def argonKeyLen_def)
qed

definition argon_sum :: argon2id where
  "argon_sum p salt n m k l = replicate l (of_nat (length p + n))"

definition demo_env :: env where
  "demo_env = \<lparr>clock = 0, faults = [], rng = (\<lambda>n. Some n), rng_ix = 3, uuids = (\<lambda>_. ''u''), uuid_ix = 0\<rparr>"

theorem password_round_trip_witness:
  "\<exists>encoded. fst (hash_password argon_sum ''secret'' demo_env) = Inr encoded \<and>
     verify_password argon_sum ''secret'' encoded = Inr True \<and>
     verify_password argon_sum ''other'' encoded = Inr False"
proof -
  obtain encoded t where run: "hash_password argon_sum ''secret'' demo_env = (Inr encoded, t)"
    by (auto simp: hash_password_def bindE_run generate_random_def demo_env_def Let_def)
  have len: "\<And>p salt n m k l. length (argon_sum p salt n m k l) = l" by (simp add: argon_sum_def)
  have ne: "(argon_sum ''other'' salt 1 65536 4 32 = argon_sum ''secret'' salt 1 65536 4 32) = False" for salt
    unfolding argon_sum_def by (rule notI [THEN Eq_FalseI [THEN meta_eq_to_obj_eq]]) (drule arg_cong [of _ _ hd], simp)
  from password_round_trip [OF run len, of "''other''"] have
    v: "verify_password argon_sum ''secret'' encoded = Inr True" "verify_password argon_sum ''other'' encoded = Inr False"
    unfolding ne by (blast, blast)
  show ?thesis by (rule exI [of _ encoded]) (simp only: run v fst_conv simp_thms)
qed

end
