(* ===== verification/Users.thy ===== *)
theory Users
  imports APIKeys Password
begin

text \<open>
  Users (\<open>api/internal/domain/user\<close>): the items of \<open>account_users\<close> and the repository.
  The table holds users, the uniqueness locks of e-mail addresses and CPFs, and the KYC
  records kept after an erasure; a tombstone is stored under the user's own key and read
  back as a user whose other attributes are absent. Letter case and blanks are those of
  ASCII.
\<close>

section \<open>Text and dates\<close>

definition lower_char :: "char \<Rightarrow> char" where
  "lower_char c = (let n = of_char c :: nat in if 65 \<le> n \<and> n \<le> 90 then char_of (n + 32) else c)"

definition to_lower :: "string \<Rightarrow> string" where
  "to_lower s = map lower_char s"

definition is_space :: "char \<Rightarrow> bool" where
  "is_space c \<longleftrightarrow> c \<in> {CHR '' '', CHR 0x09, CHR 0x0A, CHR 0x0B, CHR 0x0C, CHR 0x0D}"

definition trim_space :: "string \<Rightarrow> string" where
  "trim_space s = rev (dropWhile is_space (rev (dropWhile is_space s)))"

lemma lower_char_idem [simp]: "lower_char (lower_char c) = lower_char c"
  by (auto simp: lower_char_def Let_def of_char_of)

lemma to_lower_idem [simp]: "to_lower (to_lower s) = to_lower s"
  by (simp add: to_lower_def comp_def)

text \<open>The proleptic Gregorian calendar as day numbers since the epoch, for
  \<open>Time.AddDate(years, 0, 0)\<close>: the same month, day and time of day in a later year, the
  29th of February becoming the 1st of March where there is none.\<close>

definition days_of_civil :: "int \<Rightarrow> int \<Rightarrow> int \<Rightarrow> int" where
  "days_of_civil y m d =
     (let y' = (if m \<le> 2 then y - 1 else y);
          m' = (if m \<le> 2 then m + 9 else m - 3)
      in 365 * y' + y' div 4 - y' div 100 + y' div 400 + (153 * m' + 2) div 5 + d - 1 - 719468)"

definition civil_of_days :: "int \<Rightarrow> int \<times> int \<times> int" where
  "civil_of_days z =
     (let z' = z + 719468;
          era = z' div 146097;
          doe = z' mod 146097;
          yoe = (doe - doe div 1460 + doe div 36524 - doe div 146096) div 365;
          doy = doe - (365 * yoe + yoe div 4 - yoe div 100);
          mp = (5 * doy + 2) div 153;
          d = doy - (153 * mp + 2) div 5 + 1;
          m = (if mp < 10 then mp + 3 else mp - 9);
          y = yoe + era * 400 + (if m \<le> 2 then 1 else 0)
      in (y, m, d))"

definition add_years :: "int \<Rightarrow> time \<Rightarrow> time" where
  "add_years k t =
     (case civil_of_days (t div day) of (y, m, d) \<Rightarrow> days_of_civil (y + k) m d * day + t mod day)"

section \<open>Items\<close>

definition SupportRoleAgent :: string where "SupportRoleAgent = ''agent''"
definition SupportRoleManager :: string where "SupportRoleManager = ''manager''"
definition SupportRoleAdmin :: string where "SupportRoleAdmin = ''admin''"

definition DeletionStatePending :: string where "DeletionStatePending = ''pending''"
definition DeletionStatePurged :: string where "DeletionStatePurged = ''purged''"

record address =
  ad_zip_code :: string
  ad_street :: string
  ad_number :: string
  ad_complement :: string
  ad_district :: string
  ad_city :: string
  ad_state :: string

record kyc_document =
  kd_id :: string
  kd_type :: string
  kd_key :: string
  kd_uploaded_at :: stamp

text \<open>\<open>u_deletion_request_id\<close> is the attribute itself, \<open>None\<close> when it is absent, because
  two conditional writes compare it.\<close>

record user =
  u_pk :: string
  u_email :: string
  u_google_sub :: string
  u_password_hash :: string
  u_first_name :: string
  u_last_name :: string
  u_display_name :: string
  u_avatar_url :: string
  u_email_verified :: bool
  u_is_enabled :: bool
  u_created_at :: stamp
  u_updated_at :: stamp
  u_cpf :: string
  u_birth_date :: string
  u_legal_name :: string
  u_address :: address
  u_kyc_level :: string
  u_kyc_status :: string
  u_kyc_basic_verified_at :: stamp
  u_kyc_verified_at :: stamp
  u_kyc_rejection_code :: string
  u_kyc_rejection_reason :: string
  u_kyc_submitted_at :: stamp
  u_kyc_expires_at :: stamp
  u_kyc_documents :: "kyc_document list"
  u_phone_number :: string
  u_phone_verified_at :: stamp
  u_kyc_risk_score :: int
  u_kyc_risk_signals :: "string list"
  u_kyc_risk_evaluated_at :: stamp
  u_kyc_reviewed_at :: stamp
  u_kyc_reviewed_by :: string
  u_kyc_reviewed_by_name :: string
  u_kyc_review_decision :: string
  u_tos_version :: string
  u_tos_accepted_at :: stamp
  u_privacy_version :: string
  u_privacy_accepted_at :: stamp
  u_support_role :: string
  u_deletion_state :: string
  u_deletion_request_id :: "string option"
  u_unlinked_services :: "string list"
  u_purged_at :: stamp
  u_cpf_hmac :: string

record tombstone =
  tb_pk :: string
  tb_deletion_state :: string
  tb_deletion_request_id :: string
  tb_purged_at :: stamp
  tb_cpf_hmac :: string
  tb_tos_version :: string
  tb_tos_accepted_at :: stamp
  tb_privacy_version :: string
  tb_privacy_accepted_at :: stamp
  tb_created_at :: stamp
  tb_updated_at :: stamp

record kyc_record =
  kr_cpf :: string
  kr_legal_name :: string
  kr_birth_date :: string
  kr_address :: address
  kr_phone_number :: string
  kr_phone_verified_at :: stamp
  kr_kyc_level :: string
  kr_kyc_status :: string
  kr_kyc_basic_verified_at :: stamp
  kr_kyc_verified_at :: stamp
  kr_kyc_reviewed_at :: stamp
  kr_kyc_reviewed_by :: string
  kr_kyc_review_decision :: string
  kr_kyc_risk_score :: int
  kr_kyc_risk_signals :: "string list"
  kr_kyc_documents :: "kyc_document list"

record kyc_retention =
  re_pk :: string
  re_request_id :: string
  re_retain_until :: stamp
  re_expires_at :: int
  re_record :: kyc_record

datatype user_item =
    UserI user
  | LockI stamp \<comment> \<open>the lock of an e-mail address\<close>
  | RetentionI kyc_retention
  | CpfI string stamp \<comment> \<open>the lock of a CPF with its owner\<close>
  | IntentI string string string \<comment> \<open>an announced upload: the user, the type and the content type\<close>

record user_db = key_db +
  user_tbl :: "(string, user_item) table"

datatype user_err =
    UInfra | UUnmarshal | UCondition | URandom | UPassword pw_err
  | ErrUserNotFound | ErrEmailConflict
  | ErrInvalidCredentials | ErrAccountDisabled | ErrPendingDeletion | ErrCurrentPasswordIncorrect
  | ErrEmailNotVerified | ErrPasswordAlreadySet | ErrGoogleEmailConflict | ErrCannotUnlink
  | ErrPurgeConflict

type_synonym ('x, 'a) user_prog = "('x user_db_scheme, user_err, 'a) prog"

definition blank_address :: address where
  "blank_address = \<lparr>ad_zip_code = [], ad_street = [], ad_number = [], ad_complement = [], ad_district = [],
     ad_city = [], ad_state = []\<rparr>"

definition address_is_zero :: "address \<Rightarrow> bool" where
  "address_is_zero a \<longleftrightarrow> a = blank_address"

text \<open>A user of whom only the key is set: every other attribute reads as its zero value.\<close>

definition blank_user :: "string \<Rightarrow> user" where
  "blank_user pk = \<lparr>u_pk = pk, u_email = [], u_google_sub = [], u_password_hash = [], u_first_name = [],
     u_last_name = [], u_display_name = [], u_avatar_url = [], u_email_verified = False, u_is_enabled = False,
     u_created_at = None, u_updated_at = None, u_cpf = [], u_birth_date = [], u_legal_name = [],
     u_address = blank_address, u_kyc_level = [], u_kyc_status = [], u_kyc_basic_verified_at = None,
     u_kyc_verified_at = None, u_kyc_rejection_code = [], u_kyc_rejection_reason = [],
     u_kyc_submitted_at = None, u_kyc_expires_at = None, u_kyc_documents = [], u_phone_number = [],
     u_phone_verified_at = None, u_kyc_risk_score = 0, u_kyc_risk_signals = [],
     u_kyc_risk_evaluated_at = None, u_kyc_reviewed_at = None, u_kyc_reviewed_by = [],
     u_kyc_reviewed_by_name = [], u_kyc_review_decision = [], u_tos_version = [], u_tos_accepted_at = None,
     u_privacy_version = [], u_privacy_accepted_at = None, u_support_role = [], u_deletion_state = [],
     u_deletion_request_id = None, u_unlinked_services = [], u_purged_at = None, u_cpf_hmac = []\<rparr>"

definition user_of_tombstone :: "tombstone \<Rightarrow> user" where
  "user_of_tombstone t = (blank_user (tb_pk t))\<lparr>u_deletion_state := tb_deletion_state t,
     u_deletion_request_id := Some (tb_deletion_request_id t), u_purged_at := tb_purged_at t,
     u_cpf_hmac := tb_cpf_hmac t, u_tos_version := tb_tos_version t, u_tos_accepted_at := tb_tos_accepted_at t,
     u_privacy_version := tb_privacy_version t, u_privacy_accepted_at := tb_privacy_accepted_at t,
     u_created_at := tb_created_at t, u_updated_at := tb_updated_at t\<rparr>"

definition user_id :: "user \<Rightarrow> string" where
  "user_id u = trim_prefix (u_pk u) ''USER_''"

definition full_name :: "user \<Rightarrow> string" where
  "full_name u = trim_space (u_first_name u @ '' '' @ u_last_name u)"

definition display_or_full_name :: "user \<Rightarrow> string" where
  "display_or_full_name u = (if u_display_name u \<noteq> [] then u_display_name u else full_name u)"

definition deletion_request_id :: "user \<Rightarrow> string" where
  "deletion_request_id u = (case u_deletion_request_id u of None \<Rightarrow> [] | Some r \<Rightarrow> r)"

definition email_marker_pk :: "(string \<Rightarrow> byte list) \<Rightarrow> string \<Rightarrow> string" where
  "email_marker_pk sha email = ''EMAIL#'' @ hash_token sha email"

definition cpf_marker_pk :: "string \<Rightarrow> string" where
  "cpf_marker_pk cpf = ''CPF_'' @ cpf"

definition kyc_retention_pk :: "string \<Rightarrow> string" where
  "kyc_retention_pk uid = ''KYCRET#'' @ uid"

definition kyc_retention_doc_key :: "string \<Rightarrow> string \<Rightarrow> string" where
  "kyc_retention_doc_key uid doc = ''retention/'' @ uid @ ''/'' @ doc"

section \<open>Repository\<close>

fun as_user :: "user_item \<Rightarrow> user option" where
  "as_user (UserI u) = Some u"
| "as_user _ = None"

definition user_get_by_id :: "string \<Rightarrow> ('x, user) user_prog" where
  "user_get_by_id uid =
     bindE (db_read UInfra (\<lambda>s. tget (user_tbl s) (build_pk uid))) (\<lambda>i. case i of
       None \<Rightarrow> throw ErrUserNotFound
     | Some i \<Rightarrow> (case as_user i of None \<Rightarrow> throw UUnmarshal | Some u \<Rightarrow> ret u))"

text \<open>The index on \<open>email\<close> shows the items that have the attribute: users with an address.\<close>

definition users_by_email :: "string \<Rightarrow> (string, user_item) table \<Rightarrow> user list" where
  "users_by_email e tb = filter (\<lambda>u. u_email u \<noteq> [] \<and> u_email u = e) (List.map_filter (\<lambda>(k, i). as_user i) tb)"

definition user_get_by_email :: "string \<Rightarrow> ('x, user) user_prog" where
  "user_get_by_email email =
     bindE (db_read UInfra (\<lambda>s. take 1 (users_by_email (to_lower email) (user_tbl s)))) (\<lambda>us. case us of
       [] \<Rightarrow> throw ErrUserNotFound
     | u # _ \<Rightarrow> ret u)"

definition create_user_item :: "user \<Rightarrow> string \<Rightarrow> time \<Rightarrow> user" where
  "create_user_item u pk n =
     u\<lparr>u_pk := pk, u_created_at := ts n, u_updated_at := ts n, u_email := to_lower (u_email u)\<rparr>"

text \<open>\<open>Create\<close>: the lock of the address is taken first (an update conditional on the item
  not existing), then the user is put; a failed put gives the lock back, and a failure to do
  so is logged. The result is the user as the code leaves it.\<close>

definition user_create :: "(string \<Rightarrow> byte list) \<Rightarrow> user \<Rightarrow> ('x, user) user_prog" where
  "user_create sha u =
     bindE (if u_pk u = [] then bindE new_uuid (\<lambda>i. ret (build_pk i)) else ret (u_pk u)) (\<lambda>pk.
     bindE now (\<lambda>n.
     let u' = create_user_item u pk n;
         marker = email_marker_pk sha (u_email u')
     in
     bindE (db_cond UInfra ErrEmailConflict (\<lambda>s. tget (user_tbl s) marker = None)
              (user_tbl_update (tput marker (LockI (ts n))))) (\<lambda>_.
     bindE (tryE (db_write UInfra (user_tbl_update (tput pk (UserI u'))))) (\<lambda>w. case w of
       Inl e \<Rightarrow> bindE (logE (db_write UInfra (user_tbl_update (tdel marker)))) (\<lambda>_. throw e)
     | Inr _ \<Rightarrow> ret u'))))"

text \<open>\<open>UpdateItem\<close> on a missing key creates the item.\<close>

definition upd_user :: "string \<Rightarrow> (user \<Rightarrow> user) \<Rightarrow> (string, user_item) table \<Rightarrow> (string, user_item) table" where
  "upd_user uid f tb = (case tget tb (build_pk uid) of
       None \<Rightarrow> tput (build_pk uid) (UserI (f (blank_user (build_pk uid)))) tb
     | Some (UserI u) \<Rightarrow> tput (build_pk uid) (UserI (f u)) tb
     | Some _ \<Rightarrow> tb)"

definition user_update :: "string \<Rightarrow> (user \<Rightarrow> user) \<Rightarrow> ('x, unit) user_prog" where
  "user_update uid f =
     bindE now (\<lambda>n. db_write UInfra (user_tbl_update (upd_user uid (\<lambda>u. (f u)\<lparr>u_updated_at := ts n\<rparr>))))"

text \<open>A condition that does not hold is not an error here: the write is skipped.\<close>

definition clear_deletion_if_request :: "string \<Rightarrow> string \<Rightarrow> ('x, unit) user_prog" where
  "clear_deletion_if_request uid rid =
     bindE now (\<lambda>n.
     bindE (tryE (db_cond UInfra UCondition
         (\<lambda>s. case tget (user_tbl s) (build_pk uid) of Some (UserI u) \<Rightarrow> u_deletion_request_id u = Some rid | _ \<Rightarrow> False)
         (user_tbl_update (upd_user uid (\<lambda>u. u\<lparr>u_deletion_state := [], u_deletion_request_id := None,
            u_updated_at := ts n\<rparr>))))) (\<lambda>w. case w of
       Inl e \<Rightarrow> if e = UCondition then ret () else throw e
     | Inr _ \<Rightarrow> ret ()))"

definition change_unlinked :: "(string list \<Rightarrow> string list) \<Rightarrow> string \<Rightarrow> ('x, unit) user_prog" where
  "change_unlinked f uid =
     bindE now (\<lambda>n.
     db_cond UInfra UCondition (\<lambda>s. tget (user_tbl s) (build_pk uid) \<noteq> None)
       (user_tbl_update (upd_user uid (\<lambda>u. u\<lparr>u_unlinked_services := f (u_unlinked_services u),
          u_updated_at := ts n\<rparr>))))"

definition add_unlinked_service :: "string \<Rightarrow> string \<Rightarrow> ('x, unit) user_prog" where
  "add_unlinked_service uid svc = change_unlinked (\<lambda>xs. if svc \<in> set xs then xs else xs @ [svc]) uid"

definition remove_unlinked_service :: "string \<Rightarrow> string \<Rightarrow> ('x, unit) user_prog" where
  "remove_unlinked_service uid svc = change_unlinked (filter (\<lambda>x. x \<noteq> svc)) uid"

text \<open>\<open>Purge\<close> is one transaction: the tombstone replaces the user's item if it still
  belongs to the request, the retention item is put, and the locks are deleted.\<close>

definition purge_tbl ::
  "tombstone \<Rightarrow> kyc_retention option \<Rightarrow> string list \<Rightarrow> (string, user_item) table \<Rightarrow> (string, user_item) table" where
  "purge_tbl t kyc markers tb =
     fold tdel markers
       ((case kyc of None \<Rightarrow> id | Some k \<Rightarrow> tput (re_pk k) (RetentionI k))
         (tput (tb_pk t) (UserI (user_of_tombstone t)) tb))"

definition repo_purge :: "tombstone \<Rightarrow> kyc_retention option \<Rightarrow> string list \<Rightarrow> ('x, unit) user_prog" where
  "repo_purge t kyc markers =
     db_cond UInfra ErrPurgeConflict
       (\<lambda>s. case tget (user_tbl s) (tb_pk t) of
          Some (UserI u) \<Rightarrow> u_deletion_request_id u = Some (tb_deletion_request_id t) | _ \<Rightarrow> False)
       (user_tbl_update (purge_tbl t kyc markers))"

end
