(* ===== verification/UserService.thy ===== *)
theory UserService
  imports Users
begin

text \<open>
  The user service (\<open>api/internal/domain/user/service.go\<close>) on the repository of \<open>Users\<close>:
  registration and login, passwords, Google identities, terms, the deletion block and the
  purge. What it guarantees: who may sign in, that an anonymous Google login never takes over
  an account, that one address has one account, and what an erasure leaves behind.
\<close>

section \<open>Terms\<close>

definition CurrentToSVersion :: string where "CurrentToSVersion = ''3.2''"
definition CurrentPrivacyVersion :: string where "CurrentPrivacyVersion = ''3.4''"

record pending_terms =
  pt_tos :: bool
  pt_privacy :: bool

definition pending_any :: "pending_terms \<Rightarrow> bool" where
  "pending_any p \<longleftrightarrow> pt_tos p \<or> pt_privacy p"

definition pending_for :: "string \<Rightarrow> string \<Rightarrow> pending_terms" where
  "pending_for tos privacy =
     \<lparr>pt_tos = tos \<noteq> CurrentToSVersion, pt_privacy = privacy \<noteq> CurrentPrivacyVersion\<rparr>"

section \<open>Operations\<close>

definition lift_pw :: "pw_err + 'a \<Rightarrow> ('x, 'a) user_prog" where
  "lift_pw r = (case r of Inl e \<Rightarrow> throw (UPassword e) | Inr x \<Rightarrow> ret x)"

definition hash_pw :: "argon2id \<Rightarrow> string \<Rightarrow> ('x, string) user_prog" where
  "hash_pw argon pw = mapErr UPassword (hash_password argon pw)"

definition register ::
  "(string \<Rightarrow> byte list) \<Rightarrow> argon2id \<Rightarrow> string \<Rightarrow> string \<Rightarrow> string \<Rightarrow> string \<Rightarrow> ('x, user) user_prog" where
  "register sha argon email0 pw first0 last0 =
     (let email = to_lower (trim_space email0) in
     bindE (hash_pw argon pw) (\<lambda>h.
     bindE (tryE (user_get_by_email email)) (\<lambda>r. case r of
       Inl e \<Rightarrow>
         if e \<noteq> ErrUserNotFound then throw e
         else bindE now (\<lambda>n.
           user_create sha ((blank_user [])\<lparr>u_email := email, u_password_hash := h,
             u_first_name := trim_space first0, u_last_name := trim_space last0, u_is_enabled := True,
             u_tos_version := CurrentToSVersion, u_tos_accepted_at := ts n,
             u_privacy_version := CurrentPrivacyVersion, u_privacy_accepted_at := ts n,
             u_display_name := trim_space first0 @ '' '' @ trim_space last0\<rparr>))
     | Inr existing \<Rightarrow>
         bindE (generate_opaque_token sha URandom) (\<lambda>(dummy, _).
         bindE (hash_pw argon dummy) (\<lambda>_. throw ErrEmailConflict)))))"

definition login ::
  "argon2id \<Rightarrow> string \<Rightarrow> string \<Rightarrow> string \<Rightarrow> ('x, user) user_prog" where
  "login argon dummy email pw =
     bindE (tryE (user_get_by_email (to_lower (trim_space email)))) (\<lambda>r. case r of
       Inl e \<Rightarrow>
         if e = ErrUserNotFound then
           bindE (lift_pw (verify_dummy_password argon dummy pw)) (\<lambda>_. throw ErrInvalidCredentials)
         else throw e
     | Inr u \<Rightarrow>
         if u_password_hash u = [] then
           bindE (lift_pw (verify_dummy_password argon dummy pw)) (\<lambda>_. throw ErrInvalidCredentials)
         else
         bindE (lift_pw (verify_password argon pw (u_password_hash u))) (\<lambda>ok.
         if \<not> ok then throw ErrInvalidCredentials
         else if \<not> u_is_enabled u then throw ErrAccountDisabled
         else if u_deletion_state u \<noteq> [] then throw ErrPendingDeletion
         else if \<not> u_email_verified u then throw ErrEmailNotVerified
         else ret u))"

definition set_initial_password :: "argon2id \<Rightarrow> string \<Rightarrow> string \<Rightarrow> ('x, unit) user_prog" where
  "set_initial_password argon uid pw =
     bindE (user_get_by_id uid) (\<lambda>u.
     if u_password_hash u \<noteq> [] then throw ErrPasswordAlreadySet
     else bindE (hash_pw argon pw) (\<lambda>h. user_update uid (u_password_hash_update (\<lambda>_. h))))"

definition has_password :: "string \<Rightarrow> ('x, bool) user_prog" where
  "has_password uid = bindE (user_get_by_id uid) (\<lambda>u. ret (u_password_hash u \<noteq> []))"

definition is_active :: "string \<Rightarrow> ('x, bool) user_prog" where
  "is_active uid =
     bindE (tryE (user_get_by_id uid)) (\<lambda>r. case r of
       Inl e \<Rightarrow> if e = ErrUserNotFound then ret False else throw e
     | Inr u \<Rightarrow> ret (u_is_enabled u \<and> u_deletion_state u = []))"

definition update_profile :: "string \<Rightarrow> string \<Rightarrow> string \<Rightarrow> string \<Rightarrow> ('x, unit) user_prog" where
  "update_profile uid first0 last0 display =
     user_update uid (\<lambda>u. u\<lparr>u_first_name := trim_space first0, u_last_name := trim_space last0,
       u_display_name := trim_space display\<rparr>)"

definition change_password :: "argon2id \<Rightarrow> string \<Rightarrow> string \<Rightarrow> string \<Rightarrow> ('x, unit) user_prog" where
  "change_password argon uid current new_pw =
     bindE (user_get_by_id uid) (\<lambda>u.
     if u_password_hash u = [] then throw ErrCurrentPasswordIncorrect
     else
     bindE (lift_pw (verify_password argon current (u_password_hash u))) (\<lambda>ok.
     if \<not> ok then throw ErrCurrentPasswordIncorrect
     else bindE (hash_pw argon new_pw) (\<lambda>h. user_update uid (u_password_hash_update (\<lambda>_. h)))))"

definition mark_email_verified :: "string \<Rightarrow> ('x, unit) user_prog" where
  "mark_email_verified uid = user_update uid (u_email_verified_update (\<lambda>_. True))"

definition force_set_password :: "string \<Rightarrow> string \<Rightarrow> ('x, unit) user_prog" where
  "force_set_password uid h = user_update uid (u_password_hash_update (\<lambda>_. h))"

text \<open>The avatar of a Google login: refreshed when it changed, a failure is logged.\<close>

definition refresh_avatar :: "user \<Rightarrow> string \<Rightarrow> ('x, user) user_prog" where
  "refresh_avatar u avatar =
     (if avatar \<noteq> [] \<and> u_avatar_url u \<noteq> avatar then
        bindE (logE (user_update (user_id u) (u_avatar_url_update (\<lambda>_. avatar))))
          (\<lambda>_. ret (u\<lparr>u_avatar_url := avatar\<rparr>))
      else ret u)"

definition find_or_create_by_google ::
  "(string \<Rightarrow> byte list) \<Rightarrow> string \<Rightarrow> string \<Rightarrow> string \<Rightarrow> string \<Rightarrow> string \<Rightarrow> ('x, user \<times> bool) user_prog" where
  "find_or_create_by_google sha sub email0 first0 last0 avatar =
     (let email = to_lower (trim_space email0) in
     bindE (tryE (user_get_by_email email)) (\<lambda>r. case r of
       Inl e \<Rightarrow>
         if e \<noteq> ErrUserNotFound then throw e
         else bindE (user_create sha ((blank_user [])\<lparr>u_email := email, u_google_sub := sub,
             u_first_name := trim_space first0, u_last_name := trim_space last0, u_avatar_url := avatar,
             u_email_verified := True, u_is_enabled := True\<rparr>)) (\<lambda>u. ret (u, True))
     | Inr u \<Rightarrow>
         if u_google_sub u = sub then bindE (refresh_avatar u avatar) (\<lambda>u. ret (u, False))
         else if u_google_sub u \<noteq> [] then throw ErrGoogleEmailConflict
         else if u_password_hash u \<noteq> [] then throw ErrGoogleEmailConflict
         else
         bindE (if u_google_sub u = [] then
                  bindE (user_update (user_id u) (u_google_sub_update (\<lambda>_. sub)))
                    (\<lambda>_. ret (u\<lparr>u_google_sub := sub\<rparr>))
                else ret u) (\<lambda>u.
         bindE (refresh_avatar u avatar) (\<lambda>u. ret (u, False)))))"

definition link_google :: "string \<Rightarrow> string \<Rightarrow> string \<Rightarrow> ('x, unit) user_prog" where
  "link_google uid sub email0 =
     (let email = to_lower (trim_space email0) in
     bindE (user_get_by_id uid) (\<lambda>u.
     if u_email u \<noteq> email then throw ErrGoogleEmailConflict
     else if u_google_sub u = sub then ret ()
     else if u_google_sub u \<noteq> [] then throw ErrGoogleEmailConflict
     else user_update uid (u_google_sub_update (\<lambda>_. sub))))"

definition unlink_google :: "string \<Rightarrow> ('x, unit) user_prog" where
  "unlink_google uid =
     bindE (user_get_by_id uid) (\<lambda>u.
     if u_password_hash u = [] then throw ErrCannotUnlink
     else user_update uid (u_google_sub_update (\<lambda>_. [])))"

definition accept_terms :: "string \<Rightarrow> bool \<Rightarrow> bool \<Rightarrow> ('x, unit) user_prog" where
  "accept_terms uid tos privacy =
     bindE now (\<lambda>n.
     if \<not> tos \<and> \<not> privacy then ret ()
     else user_update uid (\<lambda>u.
       let u1 = (if tos then u\<lparr>u_tos_version := CurrentToSVersion, u_tos_accepted_at := ts n\<rparr> else u)
       in if privacy then u1\<lparr>u_privacy_version := CurrentPrivacyVersion, u_privacy_accepted_at := ts n\<rparr> else u1))"

definition set_support_role :: "string \<Rightarrow> string \<Rightarrow> ('x, unit) user_prog" where
  "set_support_role uid role = user_update uid (u_support_role_update (\<lambda>_. role))"

definition mark_pending_deletion :: "string \<Rightarrow> string \<Rightarrow> ('x, unit) user_prog" where
  "mark_pending_deletion uid rid =
     user_update uid (\<lambda>u. u\<lparr>u_deletion_state := DeletionStatePending, u_deletion_request_id := Some rid\<rparr>)"

definition clear_pending_deletion :: "string \<Rightarrow> string \<Rightarrow> ('x, unit) user_prog" where
  "clear_pending_deletion uid rid = clear_deletion_if_request uid rid"

definition check_password :: "argon2id \<Rightarrow> string \<Rightarrow> string \<Rightarrow> ('x, unit) user_prog" where
  "check_password argon uid pw =
     bindE (user_get_by_id uid) (\<lambda>u.
     if u_password_hash u = [] then throw ErrInvalidCredentials
     else
     bindE (lift_pw (verify_password argon pw (u_password_hash u))) (\<lambda>ok.
     if \<not> ok then throw ErrInvalidCredentials else ret ()))"

text \<open>What \<open>Purge\<close> writes for the user it read.\<close>

definition tombstone_of :: "(string \<Rightarrow> string) \<Rightarrow> user \<Rightarrow> string \<Rightarrow> time \<Rightarrow> tombstone" where
  "tombstone_of cpf_mac u rid t0 = \<lparr>tb_pk = u_pk u, tb_deletion_state = DeletionStatePurged,
     tb_deletion_request_id = rid, tb_purged_at = ts t0,
     tb_cpf_hmac = (if u_cpf u \<noteq> [] then cpf_mac (u_cpf u) else []),
     tb_tos_version = u_tos_version u, tb_tos_accepted_at = u_tos_accepted_at u,
     tb_privacy_version = u_privacy_version u, tb_privacy_accepted_at = u_privacy_accepted_at u,
     tb_created_at = u_created_at u, tb_updated_at = ts t0\<rparr>"

definition retained_docs :: "string \<Rightarrow> user \<Rightarrow> kyc_document list" where
  "retained_docs uid u = map (\<lambda>d. d\<lparr>kd_key := kyc_retention_doc_key uid (kd_id d)\<rparr>) (u_kyc_documents u)"

definition retention_of :: "string \<Rightarrow> user \<Rightarrow> string \<Rightarrow> time \<Rightarrow> kyc_retention option" where
  "retention_of uid u rid t0 =
     (if u_cpf u \<noteq> [] \<or> u_kyc_level u \<noteq> [] then
        let until = add_years 5 t0 in
        Some \<lparr>re_pk = kyc_retention_pk uid, re_request_id = rid, re_retain_until = ts until,
          re_expires_at = unix until,
          re_record = \<lparr>kr_cpf = u_cpf u, kr_legal_name = u_legal_name u, kr_birth_date = u_birth_date u,
            kr_address = u_address u, kr_phone_number = u_phone_number u,
            kr_phone_verified_at = u_phone_verified_at u, kr_kyc_level = u_kyc_level u,
            kr_kyc_status = u_kyc_status u, kr_kyc_basic_verified_at = u_kyc_basic_verified_at u,
            kr_kyc_verified_at = u_kyc_verified_at u, kr_kyc_reviewed_at = u_kyc_reviewed_at u,
            kr_kyc_reviewed_by = u_kyc_reviewed_by u, kr_kyc_review_decision = u_kyc_review_decision u,
            kr_kyc_risk_score = u_kyc_risk_score u, kr_kyc_risk_signals = u_kyc_risk_signals u,
            kr_kyc_documents = retained_docs uid u\<rparr>\<rparr>
      else None)"

definition purge_markers :: "(string \<Rightarrow> byte list) \<Rightarrow> user \<Rightarrow> string list" where
  "purge_markers sha u =
     (if u_email u \<noteq> [] then [email_marker_pk sha (u_email u)] else []) @
     (if u_cpf u \<noteq> [] then [cpf_marker_pk (u_cpf u)] else [])"

definition user_purge ::
  "(string \<Rightarrow> byte list) \<Rightarrow> (string \<Rightarrow> string) \<Rightarrow> string \<Rightarrow> string \<Rightarrow> time \<Rightarrow> ('x, unit) user_prog" where
  "user_purge sha cpf_mac uid rid t0 =
     bindE (user_get_by_id uid) (\<lambda>u.
     if u_deletion_state u = DeletionStatePurged then ret ()
     else if deletion_request_id u \<noteq> rid then throw ErrPurgeConflict
     else repo_purge (tombstone_of cpf_mac u rid t0) (retention_of uid u rid t0) (purge_markers sha u))"

section \<open>The shape of the user table\<close>

definition user_wf :: "'x user_db_scheme \<Rightarrow> bool" where
  "user_wf s \<longleftrightarrow> tkeys (user_tbl s) \<and>
     (\<forall>k u. tget (user_tbl s) k = Some (UserI u) \<longrightarrow> u_pk u = k \<and> k = build_pk (user_id u))"

lemma user_wfD: "user_wf s \<Longrightarrow> tget (user_tbl s) k = Some (UserI u) \<Longrightarrow> u_pk u = k \<and> k = build_pk (user_id u)"
  unfolding user_wf_def by blast

lemma user_wf_id: "user_wf s \<Longrightarrow> tget (user_tbl s) (build_pk uid) = Some (UserI u) \<Longrightarrow> user_id u = uid \<and> u_pk u = build_pk uid"
  using user_wfD by fastforce

lemma get_by_id_run:
  "faults s = [] \<Longrightarrow> tget (user_tbl s) (build_pk uid) = Some (UserI u) \<Longrightarrow> user_get_by_id uid s = (Inr u, s)"
  by (simp add: user_get_by_id_def)

lemma get_by_id_InrD:
  assumes "user_get_by_id uid s = (Inr u, t)"
  shows "tget (user_tbl s) (build_pk uid) = Some (UserI u) \<and> (\<exists>os. t = s\<lparr>faults := os\<rparr>)"
proof -
  let ?f = "\<lambda>s. tget (user_tbl s) (build_pk uid)"
  obtain os where "snd (db_read UInfra ?f s) = s\<lparr>faults := os\<rparr>"
    "fst (db_read UInfra ?f s) = Inr (?f s) \<or> fst (db_read UInfra ?f s) = Inl UInfra"
    using db_read_cases [of UInfra ?f s] by blast
  with assms show ?thesis
    by (auto simp: user_get_by_id_def bindE_run split: prod.splits sum.splits option.splits elim!: as_user.elims)
qed

lemma users_by_email_mem:
  assumes "tkeys tb"
  shows "u \<in> set (users_by_email e tb) \<longleftrightarrow> u_email u \<noteq> [] \<and> u_email u = e \<and> (\<exists>k. tget tb k = Some (UserI u))"
proof -
  have "as_user i = Some u \<longleftrightarrow> i = UserI u" for i by (cases i) auto
  then have "u \<in> set (List.map_filter (\<lambda>(k, i). as_user i) tb) \<longleftrightarrow> (\<exists>k. (k, UserI u) \<in> set tb)"
    unfolding map_filter_def by force
  with assms show ?thesis by (auto simp: users_by_email_def tmem)
qed

lemma get_by_email_InrD:
  assumes "user_get_by_email e s = (Inr u, t)" and "tkeys (user_tbl s)"
  shows "u_email u = to_lower e \<and> u_email u \<noteq> [] \<and> (\<exists>k. tget (user_tbl s) k = Some (UserI u)) \<and>
    (\<exists>os. t = s\<lparr>faults := os\<rparr>)"
proof -
  let ?f = "\<lambda>s. take 1 (users_by_email (to_lower e) (user_tbl s))"
  obtain os where r: "snd (db_read UInfra ?f s) = s\<lparr>faults := os\<rparr>"
    "fst (db_read UInfra ?f s) = Inr (?f s) \<or> fst (db_read UInfra ?f s) = Inl UInfra"
    using db_read_cases [of UInfra ?f s] by blast
  with assms(1) have "u \<in> set (?f s)" and t: "t = s\<lparr>faults := os\<rparr>"
    by (auto simp: user_get_by_email_def bindE_run split: prod.splits sum.splits list.splits)
  then have "u \<in> set (users_by_email (to_lower e) (user_tbl s))" by (blast dest: in_set_takeD)
  with t show ?thesis unfolding users_by_email_mem [OF assms(2)] by auto
qed

section \<open>One account per address\<close>

text \<open>Every user with an address is stored in lower case, holds the lock of the address, and
  no second user has it.\<close>

definition email_inv :: "(string \<Rightarrow> byte list) \<Rightarrow> 'x user_db_scheme \<Rightarrow> bool" where
  "email_inv sha s \<longleftrightarrow> user_wf s \<and>
     (\<forall>k u. tget (user_tbl s) k = Some (UserI u) \<longrightarrow> u_email u \<noteq> [] \<longrightarrow>
        u_email u = to_lower (u_email u) \<and> tget (user_tbl s) (email_marker_pk sha (u_email u)) \<noteq> None) \<and>
     (\<forall>k l u v. tget (user_tbl s) k = Some (UserI u) \<longrightarrow> tget (user_tbl s) l = Some (UserI v) \<longrightarrow>
        u_email u \<noteq> [] \<longrightarrow> u_email u = u_email v \<longrightarrow> k = l)"

lemma email_inv_wf: "email_inv sha s \<Longrightarrow> user_wf s"
  by (simp add: email_inv_def)

lemma marker_not_user [simp]: "email_marker_pk sha e \<noteq> build_pk i" "build_pk i \<noteq> email_marker_pk sha e"
  "cpf_marker_pk c \<noteq> build_pk i" "build_pk i \<noteq> cpf_marker_pk c"
  "kyc_retention_pk j \<noteq> build_pk i" "build_pk i \<noteq> kyc_retention_pk j"
  "cpf_marker_pk c \<noteq> email_marker_pk sha e" "email_marker_pk sha e \<noteq> cpf_marker_pk c"
  "kyc_retention_pk j \<noteq> email_marker_pk sha e" "email_marker_pk sha e \<noteq> kyc_retention_pk j"
  "kyc_retention_pk j \<noteq> cpf_marker_pk c" "cpf_marker_pk c \<noteq> kyc_retention_pk j"
  by (simp_all add: email_marker_pk_def cpf_marker_pk_def kyc_retention_pk_def build_pk_def)

lemma user_id_build [simp]: "u_pk u = build_pk i \<Longrightarrow> user_id u = i"
  by (simp add: user_id_def)

lemma email_inv_frame: "user_tbl t = user_tbl s \<Longrightarrow> email_inv sha s \<Longrightarrow> email_inv sha t"
  unfolding email_inv_def user_wf_def by simp

lemma email_inv_env [simp]:
  "email_inv sha (s\<lparr>faults := os\<rparr>) = email_inv sha s" "email_inv sha (s\<lparr>uuid_ix := n\<rparr>) = email_inv sha s"
  "email_inv sha (s\<lparr>rng_ix := n\<rparr>) = email_inv sha s" "email_inv sha (s\<lparr>clock := c\<rparr>) = email_inv sha s"
  by (auto intro: email_inv_frame [rotated])

text \<open>Taking and giving back a lock, and storing a user under a fresh key.\<close>

lemma email_inv_lock:
  assumes "email_inv sha s"
  shows "email_inv sha (user_tbl_update (tput (email_marker_pk sha e) (LockI n)) s)"
  using assms unfolding email_inv_def user_wf_def by (auto split: if_splits)

lemma email_inv_unlock:
  assumes "email_inv sha s" and "\<And>k u. tget (user_tbl s) k = Some (UserI u) \<Longrightarrow> u_email u \<noteq> [] \<Longrightarrow>
      email_marker_pk sha (u_email u) \<noteq> m"
    and "\<And>k u. tget (user_tbl s) k = Some (UserI u) \<Longrightarrow> k \<noteq> m"
  shows "email_inv sha (user_tbl_update (tdel m) s)"
  using assms unfolding email_inv_def user_wf_def by (auto split: if_splits)

lemma email_inv_store:
  assumes "email_inv sha s" and "tget (user_tbl s) (build_pk i) = None"
    and "u_pk u = build_pk i" and "u_email u = to_lower (u_email u)"
    and "tget (user_tbl s) (email_marker_pk sha (u_email u)) \<noteq> None"
    and "\<And>k v. tget (user_tbl s) k = Some (UserI v) \<Longrightarrow> u_email v \<noteq> [] \<Longrightarrow> u_email v \<noteq> u_email u"
  shows "email_inv sha (user_tbl_update (tput (build_pk i) (UserI u)) s)"
  unfolding email_inv_def
proof (intro conjI allI impI)
  let ?t = "user_tbl_update (tput (build_pk i) (UserI u)) s"
  show "user_wf ?t"
    using assms(1,3) unfolding email_inv_def user_wf_def by (auto split: if_splits)
  fix k v assume v: "tget (user_tbl ?t) k = Some (UserI v)" "u_email v \<noteq> []"
  then show "u_email v = to_lower (u_email v)"
    using assms(1,4) unfolding email_inv_def by (auto split: if_splits)
  show "tget (user_tbl ?t) (email_marker_pk sha (u_email v)) \<noteq> None"
    using v assms(1,5) unfolding email_inv_def by (auto split: if_splits)
  fix l w assume w: "tget (user_tbl ?t) l = Some (UserI w)" "u_email v = u_email w"
  from v w assms(6) show "k = l"
    using assms(1) unfolding email_inv_def by (auto split: if_splits) (metis+)
qed

text \<open>A new user gets its key from the identifier generator.\<close>

definition fresh_user :: "'x user_db_scheme \<Rightarrow> bool" where
  "fresh_user s \<longleftrightarrow> tget (user_tbl s) (build_pk (uuids s (uuid_ix s))) = None"

abbreviation created :: "user \<Rightarrow> 'x user_db_scheme \<Rightarrow> user" where
  "created u s \<equiv> create_user_item u (build_pk (uuids s (uuid_ix s))) (clock s)"

lemma user_create_start:
  assumes "u_pk u = []"
  shows "user_create sha u s =
     (let u' = created u s; m = email_marker_pk sha (u_email u') in
      bindE (db_cond UInfra ErrEmailConflict (\<lambda>s. tget (user_tbl s) m = None)
               (user_tbl_update (tput m (LockI (ts (clock s)))))) (\<lambda>_.
      bindE (tryE (db_write UInfra (user_tbl_update (tput (build_pk (uuids s (uuid_ix s))) (UserI u'))))) (\<lambda>w. case w of
        Inl e \<Rightarrow> bindE (logE (db_write UInfra (user_tbl_update (tdel m)))) (\<lambda>_. throw e)
      | Inr _ \<Rightarrow> ret u')) (s\<lparr>uuid_ix := Suc (uuid_ix s)\<rparr>))"
proof -
  have pk: "bindE (if u_pk u = [] then bindE new_uuid (\<lambda>i. ret (build_pk i)) else ret (u_pk u)) g s =
      g (build_pk (uuids s (uuid_ix s))) (s\<lparr>uuid_ix := Suc (uuid_ix s)\<rparr>)" for g :: "string \<Rightarrow> ('a, 'b) user_prog"
    using assms by (simp add: bindE_run)
  have clk: "bindE now g (s\<lparr>uuid_ix := n\<rparr>) = g (clock s) (s\<lparr>uuid_ix := n\<rparr>)" for g :: "time \<Rightarrow> ('a, 'b) user_prog" and n
    by (simp add: bindE_run)
  show ?thesis unfolding user_create_def pk clk Let_def ..
qed

lemma user_wf_ext: "tkeys (user_tbl t) \<Longrightarrow> tget (user_tbl t) = tget (user_tbl s) \<Longrightarrow> user_wf s \<Longrightarrow> user_wf t"
  unfolding user_wf_def by simp

lemma email_inv_ext:
  "tkeys (user_tbl t) \<Longrightarrow> tget (user_tbl t) = tget (user_tbl s) \<Longrightarrow> email_inv sha s \<Longrightarrow> email_inv sha t"
  unfolding email_inv_def using user_wf_ext [of t s] by simp

text \<open>Storing fails when the address is taken, and otherwise stores the user and its lock; an
  error leaves the table as it was, or with the lock of the address taken.\<close>

lemma user_create_honest:
  fixes s t :: "'x user_db_scheme"
  assumes "honest s" and "email_inv sha s" and "fresh_user s" and "u_pk u = []"
    and "user_create sha u s = (r, t)"
  shows "email_inv sha t"
    and "r = Inr u' \<Longrightarrow> u' = created u s \<and> tget (user_tbl t) (u_pk u') = Some (UserI u') \<and>
      (\<forall>k v. tget (user_tbl s) k = Some (UserI v) \<longrightarrow> u_email v \<noteq> [] \<longrightarrow> u_email v \<noteq> u_email u')"
proof -
  let ?u = "created u s" and ?pk = "build_pk (uuids s (uuid_ix s))"
  let ?m = "email_marker_pk sha (u_email ?u)"
  let ?s = "s\<lparr>uuid_ix := Suc (uuid_ix s)\<rparr>"
  let ?lock = "user_tbl_update (tput ?m (LockI (ts (clock s)))) :: 'x user_db_scheme \<Rightarrow> 'x user_db_scheme"
  let ?put = "user_tbl_update (tput ?pk (UserI ?u)) :: 'x user_db_scheme \<Rightarrow> 'x user_db_scheme"
  have inv: "email_inv sha ?s" using assms(2) by (rule email_inv_frame [rotated]) simp
  have low: "u_email ?u = to_lower (u_email ?u)" "u_pk ?u = ?pk" by (simp_all add: create_user_item_def)
  have free: "tget (user_tbl s) ?pk = None" using assms(3) by (simp add: fresh_user_def)
  have hon: "honest ?s" using assms(1) by (simp add: honest_def)
  have noclash: "u_email v \<noteq> u_email ?u" if "tget (user_tbl s) ?m = None" "tget (user_tbl s) k = Some (UserI v)" "u_email v \<noteq> []" for k v
    using that assms(2) unfolding email_inv_def by metis
  define rest :: "unit \<Rightarrow> ('x, user) user_prog" where "rest = (\<lambda>_. bindE (tryE (db_write UInfra ?put)) (\<lambda>w. case w of
        Inl e \<Rightarrow> bindE (logE (db_write UInfra (user_tbl_update (tdel ?m)))) (\<lambda>_. throw e)
      | Inr _ \<Rightarrow> ret ?u))"
  have run: "(r, t) = bindE (db_cond UInfra ErrEmailConflict (\<lambda>s. tget (user_tbl s) ?m = None) ?lock) rest ?s"
    unfolding rest_def assms(5) [symmetric] user_create_start [OF assms(4)] Let_def ..
  have "email_inv sha t \<and> (r = Inr u' \<longrightarrow> u' = ?u \<and> tget (user_tbl t) (u_pk u') = Some (UserI u') \<and>
      (\<forall>k v. tget (user_tbl s) k = Some (UserI v) \<longrightarrow> u_email v \<noteq> [] \<longrightarrow> u_email v \<noteq> u_email u'))"
    using hon
  proof (cases rule: db_cond_honest [where e = UInfra and d = ErrEmailConflict and u = ?lock and
        c = "\<lambda>s. tget (user_tbl s) ?m = None"])
    case (refused os)
    with run have "r = Inl UInfra" "t = ?s\<lparr>faults := os\<rparr>" by (simp_all)
    with inv show ?thesis by (simp add: email_inv_frame [of t ?s])
  next
    case (failed os)
    with run have "r = Inl ErrEmailConflict" "t = ?s\<lparr>faults := os\<rparr>" by (simp_all)
    with inv show ?thesis by (simp add: email_inv_frame [of t ?s])
  next
    case (written os)
    let ?s1 = "?lock (?s\<lparr>faults := os\<rparr>)"
    have m: "tget (user_tbl s) ?m = None" using written(2) by simp
    have inv1: "email_inv sha ?s1"
      by (rule email_inv_lock, rule email_inv_frame [OF _ inv]) simp
    have hon1: "honest ?s1" using written(3) hon by (auto simp: honest_def)
    from run written(1) have run1: "(r, t) = rest () ?s1" by simp
    show ?thesis
      using hon1
    proof (cases rule: db_cond_honest [where e = UInfra and d = UInfra and u = ?put and c = "\<lambda>_. True"])
      case (written os1)
      have st: "email_inv sha (?put (?s1\<lparr>faults := os1\<rparr>))"
        by (rule email_inv_store, rule email_inv_frame [OF _ inv1])
          (use free low noclash [OF m] in \<open>auto split: if_splits\<close>)
      from run1 written(1) have "r = Inr ?u" "t = ?put (?s1\<lparr>faults := os1\<rparr>)"
        by (simp_all add: rest_def db_write_def bindE_run)
      with st low noclash [OF m] show ?thesis by auto
    next
      case (refused os1)
      let ?s2 = "?s1\<lparr>faults := os1\<rparr>"
      from run1 refused(1) have r: "r = Inl UInfra"
        and t: "t = snd (db_write UInfra (user_tbl_update (tdel ?m)) ?s2)"
        by (simp_all add: rest_def db_write_def bindE_run)
      obtain os2 where "t = ?s2\<lparr>faults := os2\<rparr> \<or> t = user_tbl_update (tdel ?m) (?s2\<lparr>faults := os2\<rparr>)"
        using db_cond_cases [of UInfra UInfra "\<lambda>_. True" "user_tbl_update (tdel ?m)" ?s2]
        unfolding t db_write_def by blast
      then have "email_inv sha t"
      proof
        assume "t = ?s2\<lparr>faults := os2\<rparr>"
        with inv1 show ?thesis by (auto intro: email_inv_frame [rotated])
      next
        assume t2: "t = user_tbl_update (tdel ?m) (?s2\<lparr>faults := os2\<rparr>)"
        with m have "tget (user_tbl t) = tget (user_tbl s)" by (auto simp: fun_eq_iff)
        moreover have "tkeys (user_tbl t)" using t2 assms(2) by (simp add: email_inv_def user_wf_def)
        ultimately show ?thesis using assms(2) by (simp add: email_inv_ext)
      qed
      with r show ?thesis by simp
    next
      case (failed os1)
      then show ?thesis by simp
    qed
  qed
  then show "email_inv sha t" and "r = Inr u' \<Longrightarrow> u' = created u s \<and> tget (user_tbl t) (u_pk u') = Some (UserI u') \<and>
      (\<forall>k v. tget (user_tbl s) k = Some (UserI v) \<longrightarrow> u_email v \<noteq> [] \<longrightarrow> u_email v \<noteq> u_email u')"
    by blast+
qed

lemma user_create_taken:
  assumes "u_pk u = []" and "tget (user_tbl s) (email_marker_pk sha (u_email (created u s))) \<noteq> None"
  shows "isl (fst (user_create sha u s)) \<and> user_tbl (snd (user_create sha u s)) = user_tbl s"
proof -
  let ?m = "email_marker_pk sha (u_email (created u s))" and ?s = "s\<lparr>uuid_ix := Suc (uuid_ix s)\<rparr>"
  let ?lock = "db_cond UInfra ErrEmailConflict (\<lambda>s. tget (user_tbl s) ?m = None) (user_tbl_update (tput ?m (LockI (ts (clock s)))))"
  obtain r t where run: "?lock ?s = (r, t)" by (cases "?lock ?s")
  have "isl r" "user_tbl t = user_tbl s"
    using db_cond_cases [of UInfra ErrEmailConflict "\<lambda>s. tget (user_tbl s) ?m = None" "user_tbl_update (tput ?m (LockI (ts (clock s))))" ?s]
      run assms(2) by auto
  with run show ?thesis unfolding user_create_start [OF assms(1)] Let_def by (cases r) (simp_all add: bindE_run)
qed

text \<open>Claim C26. One account per address. Two requests may both have seen the address free
  before they store their user; as long as no answer of the database is lost, storing keeps
  every stored address unique and locked. A request whose address is taken by then answers an error and
  leaves the table of users as it was, whatever calls fail.\<close>

theorem one_account_per_address:
  assumes "email_inv sha s" and "fresh_user s" and "u_pk u = []"
  shows "(honest s \<longrightarrow> email_inv sha (snd (user_create sha u s))) \<and>
    (tget (user_tbl s) k = Some (UserI v) \<longrightarrow> u_email v \<noteq> [] \<longrightarrow> u_email v = to_lower (u_email u) \<longrightarrow>
       isl (fst (user_create sha u s)) \<and> user_tbl (snd (user_create sha u s)) = user_tbl s)"
proof -
  have "email_inv sha (snd (user_create sha u s))" if "honest s"
    using user_create_honest(1) [OF that assms surjective_pairing] .
  moreover have "isl (fst (user_create sha u s)) \<and> user_tbl (snd (user_create sha u s)) = user_tbl s"
    if v: "tget (user_tbl s) k = Some (UserI v)" "u_email v \<noteq> []" "u_email v = to_lower (u_email u)"
  proof (rule user_create_taken [OF assms(3)])
    have "u_email (created u s) = u_email v" using v(3) by (simp add: create_user_item_def)
    with v(1,2) assms(1) show "tget (user_tbl s) (email_marker_pk sha (u_email (created u s))) \<noteq> None"
      unfolding email_inv_def by metis
  qed
  ultimately show ?thesis by blast
qed

section \<open>Writes to other keys\<close>

definition keeps :: "string set \<Rightarrow> 'x user_db_scheme \<Rightarrow> 'x user_db_scheme \<Rightarrow> bool" where
  "keeps K s t \<longleftrightarrow> (\<forall>k \<in> K. tget (user_tbl t) k = tget (user_tbl s) k)"

interpretation kept: step_order "keeps K" for K
  by unfold_locales (auto simp: keeps_def)

lemma keeps_read: "tracks (keeps K) (db_read e f)"
  by (rule tracks_db_read) (simp add: keeps_def)

lemma keeps_cond: "(\<And>tb k. k \<in> K \<Longrightarrow> tget (f tb) k = tget tb k) \<Longrightarrow>
    tracks (keeps K) (db_cond e d c (user_tbl_update f))"
  by (rule tracks_db_cond) (simp_all add: keeps_def)

lemma keeps_write: "(\<And>tb k. k \<in> K \<Longrightarrow> tget (f tb) k = tget tb k) \<Longrightarrow>
    tracks (keeps K) (db_write e (user_tbl_update f))"
  unfolding db_write_def by (rule keeps_cond)

lemmas keeps_basic = kept.tracks_intros keeps_read keeps_cond keeps_write

lemma keeps_user_create:
  assumes "u_pk u = []"
    and "build_pk (uuids s (uuid_ix s)) \<notin> K" and "email_marker_pk sha (u_email (created u s)) \<notin> K"
  shows "keeps K s (snd (user_create sha u s))"
proof -
  let ?m = "email_marker_pk sha (u_email (created u s))" and ?pk = "build_pk (uuids s (uuid_ix s))"
  have "tracks (keeps K) (bindE (db_cond UInfra ErrEmailConflict (\<lambda>s. tget (user_tbl s) ?m = None)
         (user_tbl_update (tput ?m (LockI (ts (clock s)))))) (\<lambda>_.
      bindE (tryE (db_write UInfra (user_tbl_update (tput ?pk (UserI (created u s)))))) (\<lambda>w. case w of
        Inl e \<Rightarrow> bindE (logE (db_write UInfra (user_tbl_update (tdel ?m)))) (\<lambda>_. throw e)
      | Inr _ \<Rightarrow> ret (created u s))))"
    using assms(2,3) by (intro keeps_basic) (auto split: sum.split intro!: keeps_basic)
  from tracksD [OF this, of "s\<lparr>uuid_ix := Suc (uuid_ix s)\<rparr>"] show ?thesis
    unfolding user_create_start [OF assms(1)] Let_def by (simp add: keeps_def)
qed

lemma user_update_cases:
  "\<exists>os. snd (user_update uid f s) = s\<lparr>faults := os\<rparr> \<or>
     snd (user_update uid f s) =
       user_tbl_update (upd_user uid (\<lambda>u. (f u)\<lparr>u_updated_at := ts (clock s)\<rparr>)) (s\<lparr>faults := os\<rparr>)"
proof -
  let ?u = "user_tbl_update (upd_user uid (\<lambda>u. (f u)\<lparr>u_updated_at := ts (clock s)\<rparr>))"
  have "snd (user_update uid f s) = snd (db_cond UInfra UInfra (\<lambda>_. True) ?u s)"
    by (simp add: user_update_def db_write_def)
  then show ?thesis using db_cond_cases [of UInfra UInfra "\<lambda>_. True" ?u s] by auto
qed

lemma user_update_calm:
  "faults s = [] \<Longrightarrow> user_update uid f s =
     (Inr (), user_tbl_update (upd_user uid (\<lambda>u. (f u)\<lparr>u_updated_at := ts (clock s)\<rparr>)) s)"
  by (simp add: user_update_def)

section \<open>Google identities\<close>

text \<open>Accounts with a password keep it and their Google identity.\<close>

definition google_kept :: "'x user_db_scheme \<Rightarrow> 'x user_db_scheme \<Rightarrow> bool" where
  "google_kept s t \<longleftrightarrow> (\<forall>k v. tget (user_tbl s) k = Some (UserI v) \<longrightarrow> u_password_hash v \<noteq> [] \<longrightarrow>
     (\<exists>w. tget (user_tbl t) k = Some (UserI w) \<and> u_google_sub w = u_google_sub v \<and>
          u_password_hash w = u_password_hash v))"

interpretation google: step_order google_kept
proof
  fix s t u :: "'a user_db_scheme"
  show "google_kept s s" by (simp add: google_kept_def)
  assume "google_kept s t" "google_kept t u"
  then show "google_kept s u" unfolding google_kept_def by metis
qed

lemma google_kept_update:
  assumes "\<And>v. tget (user_tbl s) (build_pk uid) = Some (UserI v) \<Longrightarrow> u_password_hash v \<noteq> [] \<Longrightarrow>
      u_google_sub (f v) = u_google_sub v \<and> u_password_hash (f v) = u_password_hash v"
  shows "google_kept s (snd (user_update uid f s))"
proof -
  obtain os where "snd (user_update uid f s) = s\<lparr>faults := os\<rparr> \<or>
     snd (user_update uid f s) =
       user_tbl_update (upd_user uid (\<lambda>u. (f u)\<lparr>u_updated_at := ts (clock s)\<rparr>)) (s\<lparr>faults := os\<rparr>)"
    using user_update_cases [of uid f s] by blast
  with assms show ?thesis
    by (auto simp: google_kept_def upd_user_def split: option.split user_item.split)
qed

lemma google_kept_avatar: "tracks google_kept (refresh_avatar u avatar)"
proof -
  have "tracks google_kept (user_update (user_id u) (u_avatar_url_update (\<lambda>_. avatar)))"
    unfolding tracks_def by (intro allI google_kept_update) simp
  then show ?thesis unfolding refresh_avatar_def by (intro google.tracks_intros)
qed

lemma google_kept_create:
  assumes "u_pk u = []" and "fresh_user s" and "user_wf s"
  shows "google_kept s (snd (user_create sha u s))"
proof -
  let ?K = "{k. \<exists>v. tget (user_tbl s) k = Some (UserI v)}"
  have "k \<noteq> email_marker_pk sha e" if "k \<in> ?K" for k e
  proof -
    from that obtain v where "tget (user_tbl s) k = Some (UserI v)" by blast
    then have "k = build_pk (user_id v)" by (rule user_wfD [OF assms(3), THEN conjunct2])
    then show ?thesis by simp
  qed
  then have "keeps ?K s (snd (user_create sha u s))"
    using assms(1,2) by (intro keeps_user_create) (auto simp: fresh_user_def)
  then show ?thesis by (auto simp: google_kept_def keeps_def)
qed

lemma google_kept_env [simp]: "google_kept s (t\<lparr>faults := os\<rparr>) = google_kept s t"
  by (simp add: google_kept_def)

text \<open>Claim C25. An anonymous Google login never takes over an account. Whatever database
  calls fail, every account with a password keeps its password and the Google identity bound
  to it; and the login is let into an existing account only if that account carried this
  Google identity already, or had neither an identity nor a password. This needs a subject: the
  service compares an empty one as if it were an identity.\<close>

theorem google_login_no_takeover:
  assumes "user_wf s" and "fresh_user s"
    and "find_or_create_by_google sha sub email name0 name1 avatar s = (r, t)"
  shows "google_kept s t \<and>
    (r = Inr (u, False) \<and> sub \<noteq> [] \<longrightarrow> (\<exists>k v. tget (user_tbl s) k = Some (UserI v) \<and> u_pk u = u_pk v \<and>
       u_email v = to_lower (trim_space email) \<and> u_google_sub u = sub \<and>
       (u_google_sub v = sub \<or> u_google_sub v = [] \<and> u_password_hash v = [])))"
proof -
  let ?e = "to_lower (trim_space email)"
  obtain q s1 where g: "user_get_by_email ?e s = (q, s1)" by (cases "user_get_by_email ?e s")
  have s1: "\<exists>os. s1 = s\<lparr>faults := os\<rparr>"
    using g db_read_cases [of UInfra "\<lambda>s. take 1 (users_by_email (to_lower ?e) (user_tbl s))" s]
    by (auto simp: user_get_by_email_def bindE_run split: prod.splits sum.splits list.splits)
  then have kept1: "google_kept s s1" and wf1: "user_wf s1" and fr1: "fresh_user s1"
    using assms(1,2) by (auto simp: google.refl user_wf_def fresh_user_def)
  show ?thesis
  proof (cases q)
    case (Inl e)
    let ?new = "(blank_user [])\<lparr>u_email := ?e, u_google_sub := sub, u_first_name := trim_space name0,
        u_last_name := trim_space name1, u_avatar_url := avatar, u_email_verified := True, u_is_enabled := True\<rparr>"
    have c: "google_kept s1 (snd (user_create sha ?new s1))"
      by (rule google_kept_create) (simp_all add: blank_user_def fr1 wf1)
    have "t = s1 \<or> t = snd (user_create sha ?new s1)" "r \<noteq> Inr (u, False)"
      using assms(3) g Inl
      by (auto simp: find_or_create_by_google_def Let_def bindE_run split: if_splits prod.splits sum.splits)
    with kept1 c google.trans show ?thesis by blast
  next
    case (Inr v)
    have v: "u_email v = ?e" "\<exists>k. tget (user_tbl s) k = Some (UserI v)"
      using get_by_email_InrD [OF g [unfolded Inr]] assms(1) by (auto simp: user_wf_def)
    then have stored: "tget (user_tbl s1) (build_pk (user_id v)) = Some (UserI v)"
      using user_wfD [OF assms(1)] s1 by auto
    have bind: "google_kept s1 (snd (user_update (user_id v) (u_google_sub_update (\<lambda>_. sub)) s1))"
      if "u_password_hash v = []"
      using that stored by (intro google_kept_update) simp
    have av: "google_kept x y \<and> (\<forall>u'. a = Inr u' \<longrightarrow> u_pk u' = u_pk w \<and> u_google_sub u' = u_google_sub w)"
      if "refresh_avatar w avatar x = (a, y)" for w a and x y :: "'a user_db_scheme"
      using that tracksD [OF google_kept_avatar, of x w avatar]
      by (auto simp: refresh_avatar_def bindE_run split: if_splits)
    have fin: "google_kept x t \<and> (r = Inr (u, False) \<longrightarrow> u_pk u = u_pk w \<and> u_google_sub u = u_google_sub w)"
      if "bindE (refresh_avatar w avatar) (\<lambda>u. ret (u, False)) x = (r, t)" for w and x :: "'a user_db_scheme"
    proof -
      obtain a y where "refresh_avatar w avatar x = (a, y)" by (cases "refresh_avatar w avatar x")
      with av [OF this] that show ?thesis by (cases a) (auto simp: bindE_run)
    qed
    note run = assms(3) [unfolded find_or_create_by_google_def Let_def bindE_run tryE_run g Inr]
    consider (own) "u_google_sub v = sub"
      | (free) "u_google_sub v \<noteq> sub" "u_google_sub v = []" "u_password_hash v = []"
      | (other) "u_google_sub v \<noteq> sub" "u_google_sub v \<noteq> [] \<or> u_password_hash v \<noteq> []" by blast
    then show ?thesis
    proof cases
      case own
      with run have "bindE (refresh_avatar v avatar) (\<lambda>u. ret (u, False)) s1 = (r, t)" by (simp add: bindE_run)
      from fin [OF this] own kept1 google.trans v show ?thesis by metis
    next
      case other
      with run have "t = s1" "r = Inl ErrGoogleEmailConflict" by (auto split: if_splits)
      with kept1 show ?thesis by simp
    next
      case free
      obtain b s2 where up: "user_update (user_id v) (u_google_sub_update (\<lambda>_. sub)) s1 = (b, s2)"
        by (cases "user_update (user_id v) (u_google_sub_update (\<lambda>_. sub)) s1")
      with bind free have kept2: "google_kept s s2" using kept1 google.trans [of s s1 s2] by simp
      show ?thesis
      proof (cases b)
        case (Inl e)
        with run free up kept2 show ?thesis by (auto simp: bindE_run)
      next
        case (Inr x)
        with run free up have "bindE (refresh_avatar (v\<lparr>u_google_sub := sub\<rparr>) avatar) (\<lambda>u. ret (u, False)) s2 = (r, t)"
          by (simp add: bindE_run)
        from fin [OF this] have "google_kept s t" "r = Inr (u, False) \<Longrightarrow> u_pk u = u_pk v \<and> u_google_sub u = sub"
          using google.trans [OF kept2] by auto
        with free v show ?thesis by blast
      qed
    qed
  qed
qed

text \<open>Without a subject the comparison with the bound identity succeeds on every account that has none: the
  login is let into an account with a password, which the service means to refuse.\<close>

theorem empty_subject_enters:
  assumes "faults s = []" and "fst (user_get_by_email (to_lower (trim_space email)) s) = Inr v" and "u_google_sub v = []"
  shows "find_or_create_by_google sha [] email name0 name1 [] s = (Inr (v, False), s)"
proof -
  have "user_get_by_email (to_lower (trim_space email)) s = (Inr v, s)"
    using assms(1,2) by (auto simp: user_get_by_email_def bindE_run split: list.splits)
  with assms(3) show ?thesis by (simp add: find_or_create_by_google_def Let_def bindE_run refresh_avatar_def)
qed

section \<open>Signing in\<close>

text \<open>The gates of \<open>Login\<close> on a user, after the address was found.\<close>

definition may_sign_in :: "argon2id \<Rightarrow> string \<Rightarrow> user \<Rightarrow> bool" where
  "may_sign_in argon pw u \<longleftrightarrow>
     u_password_hash u \<noteq> [] \<and> verify_password argon pw (u_password_hash u) = Inr True \<and>
     u_is_enabled u \<and> u_deletion_state u = [] \<and> u_email_verified u"

lemma users_by_email_unique:
  assumes "email_inv sha s" and "tget (user_tbl s) k = Some (UserI u)" and "u_email u \<noteq> []"
  shows "\<exists>r. users_by_email (u_email u) (user_tbl s) = u # r"
proof -
  have keys: "tkeys (user_tbl s)" using assms(1) by (simp add: email_inv_def user_wf_def)
  have only: "v = u" if "v \<in> set (users_by_email (u_email u) (user_tbl s))" for v
  proof -
    from that obtain l where l: "tget (user_tbl s) l = Some (UserI v)" "u_email u = u_email v"
      unfolding users_by_email_mem [OF keys] by auto
    have "k = l" using assms l unfolding email_inv_def by (elim conjE) blast
    with l(1) assms(2) show ?thesis by simp
  qed
  have "u \<in> set (users_by_email (u_email u) (user_tbl s))"
    using assms(2,3) unfolding users_by_email_mem [OF keys] by blast
  then obtain x r where xr: "users_by_email (u_email u) (user_tbl s) = x # r"
    by (cases "users_by_email (u_email u) (user_tbl s)") simp_all
  then have "x = u" by (intro only) simp
  with xr show ?thesis by blast
qed

lemma login_Inr:
  assumes "login argon dummy email pw s = (Inr u, t)" and "tkeys (user_tbl s)"
  shows "may_sign_in argon pw u \<and> u_email u = to_lower (trim_space email) \<and> u_email u \<noteq> [] \<and>
    (\<exists>k. tget (user_tbl s) k = Some (UserI u)) \<and> user_tbl t = user_tbl s"
proof -
  obtain q s1 where g: "user_get_by_email (to_lower (trim_space email)) s = (q, s1)"
    by (cases "user_get_by_email (to_lower (trim_space email)) s")
  show ?thesis
  proof (cases q)
    case (Inl e)
    with assms(1) g show ?thesis
      by (auto simp: login_def bindE_run lift_pw_def split: if_splits sum.splits)
  next
    case (Inr v)
    with get_by_email_InrD [OF g [unfolded Inr] assms(2)] assms(1) g show ?thesis
      by (auto simp: login_def bindE_run lift_pw_def may_sign_in_def split: if_splits sum.splits)
  qed
qed

text \<open>Who may sign in with a password. With the table's addresses unique, \<open>Login\<close>
  returns a user exactly when that user is stored under the address (after trimming and
  lower-casing), has a password that verifies, is enabled, is not locked by a deletion request
  and has confirmed the address. In particular nobody signs in to an account that is scheduled
  for deletion or purged.\<close>

theorem login_exact:
  assumes "faults s = []" and "email_inv sha s"
  shows "fst (login argon dummy email pw s) = Inr u \<longleftrightarrow>
    (\<exists>k. tget (user_tbl s) k = Some (UserI u)) \<and> u_email u \<noteq> [] \<and>
    u_email u = to_lower (trim_space email) \<and> may_sign_in argon pw u"
proof
  assume "fst (login argon dummy email pw s) = Inr u"
  then have "login argon dummy email pw s = (Inr u, snd (login argon dummy email pw s))"
    by (simp add: prod_eq_iff)
  with assms(2) show "(\<exists>k. tget (user_tbl s) k = Some (UserI u)) \<and> u_email u \<noteq> [] \<and>
    u_email u = to_lower (trim_space email) \<and> may_sign_in argon pw u"
    by (auto simp: email_inv_def user_wf_def dest!: login_Inr)
next
  assume u: "(\<exists>k. tget (user_tbl s) k = Some (UserI u)) \<and> u_email u \<noteq> [] \<and>
    u_email u = to_lower (trim_space email) \<and> may_sign_in argon pw u"
  then obtain k r where "users_by_email (to_lower (trim_space email)) (user_tbl s) = u # r"
    using users_by_email_unique [OF assms(2)] by metis
  then have "user_get_by_email (to_lower (trim_space email)) s = (Inr u, s)"
    using assms(1) by (simp add: user_get_by_email_def)
  with u show "fst (login argon dummy email pw s) = Inr u"
    by (simp add: login_def may_sign_in_def lift_pw_def)
qed

section \<open>Erasure\<close>

lemma purge_tbl_get:
  assumes "k \<noteq> tb_pk t" and "k \<notin> set markers" and "\<And>r. kyc = Some r \<Longrightarrow> k \<noteq> re_pk r"
  shows "tget (purge_tbl t kyc markers tb) k = tget tb k"
  using assms by (auto simp: purge_tbl_def tget_fold_tdel split: option.split)

lemma tkeys_purge_tbl: "tkeys tb \<Longrightarrow> tkeys (purge_tbl t kyc markers tb)"
proof -
  have "tkeys (fold tdel ms tb')" if "tkeys tb'" for ms and tb' :: "(string, user_item) table"
    using that by (induction ms arbitrary: tb') auto
  moreover assume "tkeys tb"
  ultimately show ?thesis unfolding purge_tbl_def by (auto split: option.split)
qed

lemma user_purge_run:
  assumes "faults s = []" and "user_wf s"
    and "tget (user_tbl s) (build_pk uid) = Some (UserI u)" and "u_deletion_state u \<noteq> DeletionStatePurged"
    and "u_deletion_request_id u = Some rid"
  shows "user_purge sha mac uid rid n s = (Inr (), user_tbl_update
    (purge_tbl (tombstone_of mac u rid n) (retention_of uid u rid n) (purge_markers sha u)) s)"
proof -
  have "u_pk u = build_pk uid" using user_wf_id [OF assms(2,3)] by simp
  with assms show ?thesis
    by (simp add: user_purge_def get_by_id_run deletion_request_id_def repo_purge_def tombstone_of_def)
qed

text \<open>What an erasure leaves. Purging an account for the request that locked it
  replaces the user's item by a tombstone with no address, name, password, CPF or Google
  identity, keeps the KYC record in a retention item exactly if the account had one, releases
  the address so that it can be registered again, and touches no other item; running it again
  changes nothing, and running it for any other request is refused.\<close>

theorem purge_leaves_tombstone:
  assumes "faults s = []" and "email_inv sha s"
    and "tget (user_tbl s) (build_pk uid) = Some (UserI u)" and "u_deletion_state u \<noteq> DeletionStatePurged"
    and "u_deletion_request_id u = Some rid" and "t = snd (user_purge sha mac uid rid n s)"
  shows "fst (user_purge sha mac uid rid n s) = Inr () \<and>
    (\<exists>w. tget (user_tbl t) (build_pk uid) = Some (UserI w) \<and> u_deletion_state w = DeletionStatePurged \<and>
       u_email w = [] \<and> u_password_hash w = [] \<and> u_google_sub w = [] \<and> u_first_name w = [] \<and>
       u_last_name w = [] \<and> u_cpf w = [] \<and> u_kyc_documents w = []) \<and>
    (u_cpf u = [] \<and> u_kyc_level u = [] \<or>
       (\<exists>r. tget (user_tbl t) (kyc_retention_pk uid) = Some (RetentionI r) \<and> kr_cpf (re_record r) = u_cpf u)) \<and>
    (u_email u = [] \<or> tget (user_tbl t) (email_marker_pk sha (u_email u)) = None \<and>
       fst (user_get_by_email (u_email u) t) = Inl ErrUserNotFound) \<and>
    (\<forall>k. k \<notin> {build_pk uid, kyc_retention_pk uid, email_marker_pk sha (u_email u), cpf_marker_pk (u_cpf u)} \<longrightarrow>
       tget (user_tbl t) k = tget (user_tbl s) k) \<and>
    user_purge sha mac uid rid n t = (Inr (), t) \<and>
    (rid' = rid \<or> user_purge sha mac uid rid' n s = (Inl ErrPurgeConflict, s))"
proof -
  let ?tomb = "tombstone_of mac u rid n" and ?ms = "purge_markers sha u"
  let ?tb = "purge_tbl ?tomb (retention_of uid u rid n) ?ms (user_tbl s)"
  have wf: "user_wf s" and keys: "tkeys (user_tbl s)" using assms(2) by (simp_all add: email_inv_def user_wf_def)
  have pk: "tb_pk ?tomb = build_pk uid" using user_wf_id [OF wf assms(3)] by (simp add: tombstone_of_def)
  have run: "user_purge sha mac uid rid n s = (Inr (), user_tbl_update
      (purge_tbl ?tomb (retention_of uid u rid n) ?ms) s)"
    by (rule user_purge_run [OF assms(1) wf assms(3-5)])
  then have t: "user_tbl t = ?tb" "faults t = []" using assms(1,6) by simp_all
  have ms: "set ?ms \<subseteq> {email_marker_pk sha (u_email u), cpf_marker_pk (u_cpf u)}"
    by (auto simp: purge_markers_def)
  have tomb: "tget ?tb (build_pk uid) = Some (UserI (user_of_tombstone ?tomb))"
    using ms pk by (auto simp: purge_tbl_def tget_fold_tdel retention_of_def Let_def)
  have gone: "tget ?tb (email_marker_pk sha (u_email u)) = None" if "u_email u \<noteq> []"
    using that by (simp add: purge_tbl_def tget_fold_tdel purge_markers_def)
  have other: "tget ?tb k = tget (user_tbl s) k"
    if "k \<notin> {build_pk uid, kyc_retention_pk uid, email_marker_pk sha (u_email u), cpf_marker_pk (u_cpf u)}" for k
    using that ms pk by (intro purge_tbl_get) (auto simp: retention_of_def Let_def split: if_splits)
  have none: "users_by_email (to_lower (u_email u)) ?tb = []" if e: "u_email u \<noteq> []"
  proof -
    have low: "to_lower (u_email u) = u_email u" using assms(2,3) e unfolding email_inv_def by metis
    have "\<not> (u_email v \<noteq> [] \<and> u_email v = u_email u)" if v: "tget ?tb k = Some (UserI v)" for k v
    proof (cases "k = build_pk uid")
      case True
      with v tomb show ?thesis by (auto simp: user_of_tombstone_def blank_user_def)
    next
      case False
      have "k \<notin> {kyc_retention_pk uid, email_marker_pk sha (u_email u), cpf_marker_pk (u_cpf u)} \<or> tget (user_tbl s) k = Some (UserI v)"
        using v by (auto simp: purge_tbl_def tget_fold_tdel retention_of_def Let_def pk split: if_splits option.splits)
      with other [of k] v False have "tget (user_tbl s) k = Some (UserI v)" by auto
      with assms(2,3) False e show ?thesis unfolding email_inv_def by metis
    qed
    then have "u' \<notin> set (users_by_email (to_lower (u_email u)) ?tb)" for u'
      unfolding users_by_email_mem [OF tkeys_purge_tbl [OF keys]] low by blast
    then show ?thesis by (metis list.set_intros(1) neq_Nil_conv)
  qed
  have again: "user_purge sha mac uid rid n t = (Inr (), t)"
    using tomb t by (simp add: user_purge_def get_by_id_run user_of_tombstone_def tombstone_of_def)
  have wrong: "user_purge sha mac uid rid' n s = (Inl ErrPurgeConflict, s)" if "rid' \<noteq> rid"
    using that assms by (simp add: user_purge_def get_by_id_run deletion_request_id_def)
  have kyc: "\<exists>r. tget ?tb (kyc_retention_pk uid) = Some (RetentionI r) \<and> kr_cpf (re_record r) = u_cpf u"
    if "\<not> (u_cpf u = [] \<and> u_kyc_level u = [])"
    using that ms by (auto simp: purge_tbl_def tget_fold_tdel retention_of_def Let_def)
  have read: "fst (user_get_by_email (u_email u) t) = Inl ErrUserNotFound" if "u_email u \<noteq> []"
    using none [OF that] t by (simp add: user_get_by_email_def)
  have fields: "\<exists>w. tget (user_tbl t) (build_pk uid) = Some (UserI w) \<and> u_deletion_state w = DeletionStatePurged \<and>
       u_email w = [] \<and> u_password_hash w = [] \<and> u_google_sub w = [] \<and> u_first_name w = [] \<and>
       u_last_name w = [] \<and> u_cpf w = [] \<and> u_kyc_documents w = []"
    unfolding t(1) tomb by (simp add: user_of_tombstone_def tombstone_of_def blank_user_def)
  show ?thesis
    using run fields kyc gone read other again wrong unfolding t(1) by (metis fst_conv)
qed

section \<open>A concrete table\<close>

definition demo_user :: user where
  "demo_user = (blank_user ''USER_u'')\<lparr>u_email := ''a@b'', u_password_hash := ''x'', u_first_name := ''Ana'',
     u_is_enabled := True, u_email_verified := True, u_cpf := ''1'', u_kyc_level := ''basic''\<rparr>"

definition demo_users :: "user \<Rightarrow> user_db" where
  "demo_users u = \<lparr>clock = 0, faults = [], rng = (\<lambda>n. Some n), rng_ix = 0, uuids = (\<lambda>_. ''n''), uuid_ix = 0,
     sess_tbl = [], key_tbl = [],
     user_tbl = [(''USER_u'', UserI u), (''EMAIL#03'', LockI (Some 0))]\<rparr>"

definition argon_len :: argon2id where
  "argon_len p salt n m k l = replicate l (of_nat (length p))"

lemma sha_len_at: "email_marker_pk sha_len ''a@b'' = ''EMAIL#03''"
  by code_simp

lemma demo_inv:
  assumes "u_pk u = ''USER_u''" and "u_email u = ''a@b''"
  shows "email_inv sha_len (demo_users u)"
proof -
  have id: "user_id u = ''u''" using assms(1) by (simp add: user_id_def trim_prefix_def has_prefix_def)
  have low: "to_lower ''a@b'' = ''a@b''" by code_simp
  show ?thesis
    unfolding email_inv_def user_wf_def
    using assms id low sha_len_at by (auto simp: demo_users_def tkeys_def build_pk_def split: if_splits)
qed

theorem one_account_per_address_witness:
  "isl (fst (user_create sha_len ((blank_user [])\<lparr>u_email := ''A@B''\<rparr>) (demo_users demo_user)))"
proof -
  have h: "honest (demo_users demo_user)" "fresh_user (demo_users demo_user)"
    by (simp_all add: demo_users_def fresh_user_def build_pk_def)
  have i: "email_inv sha_len (demo_users demo_user)"
    by (rule demo_inv) (simp_all add: demo_user_def blank_user_def)
  have u: "u_pk ((blank_user [])\<lparr>u_email := ''A@B''\<rparr>) = []" by (simp add: blank_user_def)
  have "tget (user_tbl (demo_users demo_user)) ''USER_u'' = Some (UserI demo_user)"
    "u_email demo_user \<noteq> []" by (simp_all add: demo_users_def demo_user_def blank_user_def)
  moreover have "u_email demo_user = to_lower ''A@B''" by code_simp
  ultimately show ?thesis
    using one_account_per_address [OF i h(2) u, of "''USER_u''" demo_user] by simp
qed

theorem google_login_no_takeover_witness:
  "google_kept (demo_users demo_user)
     (snd (find_or_create_by_google sha_len ''g'' ''a@b'' [] [] [] (demo_users demo_user))) \<and>
   fst (find_or_create_by_google sha_len ''g'' ''a@b'' [] [] [] (demo_users demo_user)) = Inl ErrGoogleEmailConflict"
proof -
  have i: "email_inv sha_len (demo_users demo_user)"
    by (rule demo_inv) (simp_all add: demo_user_def blank_user_def)
  have f: "fresh_user (demo_users demo_user)" by (simp add: demo_users_def fresh_user_def build_pk_def)
  have r: "fst (find_or_create_by_google sha_len ''g'' ''a@b'' [] [] [] (demo_users demo_user)) = Inl ErrGoogleEmailConflict"
    by code_simp
  show ?thesis
    using google_login_no_takeover [OF email_inv_wf [OF i] f
        surjective_pairing [of "find_or_create_by_google sha_len ''g'' ''a@b'' [] [] [] (demo_users demo_user)"]] r
    by blast
qed

definition demo_login :: user where
  "demo_login = demo_user\<lparr>u_password_hash := encode_hash [] [3]\<rparr>"

theorem login_exact_witness:
  "fst (login argon_len [] '' A@b'' ''abc'' (demo_users demo_login)) = Inr demo_login \<and>
   fst (login argon_len [] '' A@b'' ''abc'' (demo_users (demo_login\<lparr>u_deletion_state := ''pending''\<rparr>)))
     \<noteq> Inr (demo_login\<lparr>u_deletion_state := ''pending''\<rparr>)"
proof -
  have calm: "faults (demo_users u) = []" for u by (simp add: demo_users_def)
  have i: "email_inv sha_len (demo_users demo_login)"
    "email_inv sha_len (demo_users (demo_login\<lparr>u_deletion_state := ''pending''\<rparr>))"
    by (rule demo_inv; simp add: demo_login_def demo_user_def blank_user_def)+
  have "\<exists>k. tget (user_tbl (demo_users demo_login)) k = Some (UserI demo_login)"
    by (rule exI [of _ "''USER_u''"]) (simp add: demo_users_def)
  moreover have "u_email demo_login = to_lower (trim_space '' A@b'')"
  proof -
    have "to_lower (trim_space '' A@b'') = ''a@b''" by code_simp
    then show ?thesis by (simp add: demo_login_def demo_user_def)
  qed
  moreover have "u_email demo_login \<noteq> []" by (simp add: demo_login_def demo_user_def)
  moreover have "may_sign_in argon_len ''abc'' demo_login"
  proof -
    have "encode_hash [] [3] \<noteq> []" by (simp add: encode_hash_def)
    then show ?thesis
      by (simp add: may_sign_in_def demo_login_def demo_user_def blank_user_def verify_encode_hash argon_len_def)
  qed
  moreover have "\<not> may_sign_in argon_len ''abc'' (demo_login\<lparr>u_deletion_state := ''pending''\<rparr>)"
    by (simp add: may_sign_in_def)
  ultimately show ?thesis
    using login_exact [OF calm i(1), of argon_len "[]" "'' A@b''" "''abc''" demo_login]
      login_exact [OF calm i(2), of argon_len "[]" "'' A@b''" "''abc''" "demo_login\<lparr>u_deletion_state := ''pending''\<rparr>"]
    by blast
qed

definition demo_locked :: user where
  "demo_locked = demo_user\<lparr>u_deletion_state := ''pending'', u_deletion_request_id := Some ''r''\<rparr>"

theorem purge_leaves_tombstone_witness:
  "fst (user_purge sha_len id ''u'' ''r'' 0 (demo_users demo_locked)) = Inr () \<and>
   tget (user_tbl (snd (user_purge sha_len id ''u'' ''r'' 0 (demo_users demo_locked)))) ''EMAIL#03'' = None \<and>
   user_purge sha_len id ''u'' ''other'' 0 (demo_users demo_locked) = (Inl ErrPurgeConflict, demo_users demo_locked)"
proof -
  have calm: "faults (demo_users demo_locked) = []" by (simp add: demo_users_def)
  have i: "email_inv sha_len (demo_users demo_locked)"
    by (rule demo_inv) (simp_all add: demo_locked_def demo_user_def blank_user_def)
  have st: "tget (user_tbl (demo_users demo_locked)) (build_pk ''u'') = Some (UserI demo_locked)"
    by (simp add: demo_users_def build_pk_def)
  have d: "u_deletion_state demo_locked \<noteq> DeletionStatePurged" "u_deletion_request_id demo_locked = Some ''r''"
    by (simp_all add: demo_locked_def DeletionStatePurged_def)
  have e: "u_email demo_locked = ''a@b''" "u_email demo_locked \<noteq> []"
    by (simp_all add: demo_locked_def demo_user_def)
  show ?thesis
    using purge_leaves_tombstone [OF calm i st d refl, of id 0 "''other''"] e sha_len_at by auto
qed

text \<open>A put whose answer is lost was applied all the same: the code takes it for a failure and
  gives the lock back, so the address of a stored user is no longer locked, and a second
  request that had seen it free stores a second user.\<close>

lemma lost_answer_frees_address:
  "\<exists>(s :: user_db) t. faults s = [Served, Unacknowledged] \<and> email_inv sha_len s \<and>
     t = snd (user_create sha_len ((blank_user [])\<lparr>u_email := ''a@b''\<rparr>) s) \<and>
     \<not> email_inv sha_len t \<and> \<not> isl (fst (user_create sha_len ((blank_user [])\<lparr>u_email := ''a@b''\<rparr>) t))"
proof -
  let ?u = "(blank_user [])\<lparr>u_email := ''a@b''\<rparr>"
  let ?s = "(demo_users demo_user)\<lparr>user_tbl := [], faults := [Served, Unacknowledged]\<rparr>"
  let ?t = "snd (user_create sha_len ?u ?s)"
  let ?i = "tget (user_tbl ?t) ''USER_n''"
  have "?i \<noteq> None" and email: "map_option u_email (as_user (the ?i)) = Some ''a@b''" by code_simp+
  then obtain i where i: "?i = Some i" by blast
  with email have "map_option u_email (as_user i) = Some ''a@b''" by (simp only: option.sel)
  with i obtain v where v: "?i = Some (UserI v)" "u_email v = ''a@b''" by (cases i) auto
  have "tget (user_tbl ?t) ''EMAIL#03'' = None" by code_simp
  with v sha_len_at have "\<not> email_inv sha_len ?t" unfolding email_inv_def by (metis list.distinct(1))
  moreover have "\<not> isl (fst (user_create sha_len ?u ?t))" by code_simp
  moreover have "email_inv sha_len ?s" by (simp add: email_inv_def user_wf_def)
  ultimately show ?thesis by (intro exI [of _ ?s] exI [of _ ?t]) simp
qed

end
