(* ===== verification/Deletion.thy ===== *)
theory Deletion
  imports UserService
begin

text \<open>
  Deletion requests (\<open>api/internal/domain/deletion\<close>): the request with its states, the open
  marker of a user, the progress of each participant, and the repository
  (\<open>model.go\<close>, \<open>repository.go\<close>). The three kinds of items of the one table have keys
  with different prefixes (\<open>REQ#\<close>, \<open>SUB#\<close>) and are kept as three association lists,
  keyed by the ids the keys are built from. The e-mails sent, the messages published to the
  participants and the cut-offs of revoked access tokens are logs of the state; \<open>world\<close> is
  whatever the rest of the account service keeps (organizations, companies, consents,
  credentials, stored documents), which the deletion code reaches only through interfaces.
\<close>

section \<open>Requests\<close>

definition GracePeriod :: time where "GracePeriod = 7 * 24 * hour"
definition ConfirmWindow :: time where "ConfirmWindow = 24 * hour"
definition ReminderLead :: time where "ReminderLead = 24 * hour"
definition ConfirmationPhrase :: string where "ConfirmationPhrase = ''EXCLUIR MINHA CONTA''"

datatype scope = ScopeAccount | ScopeService

datatype rstate =
    StateAwaitingConfirmation | StatePending | StateCancelled | StateExpired | StateLocked
  | StatePurging | StateStalled | StateBlocked | StatePurged

definition open_state :: "rstate \<Rightarrow> bool" where
  "open_state st \<longleftrightarrow> st \<noteq> StateCancelled \<and> st \<noteq> StateExpired \<and> st \<noteq> StatePurged"

record workspace =
  ws_id :: string
  ws_kind :: string

record request =
  rq_id :: string
  rq_user :: string
  rq_scope :: scope
  rq_service :: string
  rq_state :: rstate
  rq_confirm_hash :: string
  rq_cancel_hashes :: "string list"
  rq_lock_applied :: bool
  rq_scheduled_sent :: bool
  rq_reminded :: bool
  rq_blocked_notified :: bool
  rq_organizations :: "string list"
  rq_workspaces :: "workspace list"
  rq_blockers :: "string list"
  rq_purged_at :: stamp
  rq_legal_hold :: bool
  rq_legal_hold_by :: string
  rq_requested_at :: stamp
  rq_confirm_by :: stamp
  rq_confirmed_at :: stamp
  rq_grace_until :: stamp
  rq_cancelled_at :: stamp
  rq_locked_at :: stamp
  rq_updated_at :: stamp
  rq_due_state :: "rstate option"
  rq_next_action :: stamp

definition set_due :: "time \<Rightarrow> request \<Rightarrow> request" where
  "set_due t r = r\<lparr>rq_due_state := Some (rq_state r), rq_next_action := ts t\<rparr>"

definition clear_due :: "request \<Rightarrow> request" where
  "clear_due r = r\<lparr>rq_due_state := None, rq_next_action := None\<rparr>"

datatype svc_state = ServiceDispatched | ServiceAcked | ServiceBlocked

record service_status =
  ss_request :: string
  ss_service :: string
  ss_status :: svc_state
  ss_attempts :: nat
  ss_first_dispatch :: stamp
  ss_last_dispatch :: stamp
  ss_acked_at :: stamp
  ss_counts :: "(string \<times> int) list"
  ss_blockers :: "string list"

text \<open>What the shared erasure protocol exchanges: a reason against an erasure, a message to the
  participants, and a participant's answer.\<close>

record blocker =
  bl_code :: string
  bl_detail :: "(string \<times> string) list"

datatype msg_type = TypeLocked | TypeUnlocked | TypeErase | TypeRelinked

record message =
  msg_type :: msg_type
  msg_request :: string
  msg_sub :: string
  msg_scope :: scope
  msg_services :: "string list"
  msg_organizations :: "string list"
  msg_workspaces :: "workspace list"
  msg_attempt :: nat
  msg_issued :: time

datatype ack_result = ResultErased | ResultBlocked

record ack =
  ack_request :: string
  ack_result :: ack_result
  ack_counts :: "(string \<times> int) list"
  ack_blockers :: "blocker list"

datatype mail =
    ConfirmMail string string string string string
  | ScheduledMail string string string string time string
  | ReminderMail string string string string time string
  | CancelledMail string string string
  | BlockedMail string string string string "string list" string
  | UnlinkedMail string string string

section \<open>State\<close>

record 'w del_db = user_db +
  requests :: "(string, request) table"
  markers :: "(string, string) table"
  services :: "(string \<times> string, service_status) table"
  mails :: "mail list"
  published :: "message list"
  cutoffs :: "(string, time) table"
  world :: 'w

datatype del_err =
    DInfra | DMail | DPublish | DRevocation | DRandom | DUnmarshal | DNotConfigured | DWorld string
  | DUser user_err | DSession sess_err | DKey key_err
  | ErrReqNotFound | ErrOpenRequest | ErrUnknownService | ErrEligibilityUnavailable del_err
  | ErrStateChanged | ErrInvalidToken | ErrNotCancellable | ErrHoldNeedsSecondAdmin
  | ErrBlocked "blocker list" | DJoin del_err del_err

type_synonym ('w, 'a) del_prog = "('w del_db, del_err, 'a) prog"

text \<open>A call of an interface whose state is not modelled here acts on \<open>world\<close> only.\<close>

definition in_world :: "('w, del_err, 'a) prog \<Rightarrow> ('w, 'a) del_prog" where
  "in_world f = (\<lambda>s. case f (world s) of (r, w) \<Rightarrow> (r, s\<lparr>world := w\<rparr>))"

definition send_mail :: "mail \<Rightarrow> ('w, unit) del_prog" where
  "send_mail m = db_write DMail (mails_update (\<lambda>l. l @ [m]))"

definition publish_message :: "message \<Rightarrow> ('w, unit) del_prog" where
  "publish_message m = db_write DPublish (published_update (\<lambda>l. l @ [m]))"

section \<open>Repository\<close>

text \<open>\<open>Create\<close> is one transaction of two puts, each on the condition that its item does not
  exist.\<close>

definition del_create :: "request \<Rightarrow> ('w, unit) del_prog" where
  "del_create r =
     db_cond DInfra ErrOpenRequest
       (\<lambda>s. tget (markers s) (rq_user r) = None \<and> tget (requests s) (rq_id r) = None)
       (\<lambda>s. s\<lparr>markers := tput (rq_user r) (rq_id r) (markers s), requests := tput (rq_id r) r (requests s)\<rparr>)"

definition del_get :: "string \<Rightarrow> ('w, request) del_prog" where
  "del_get i =
     bindE (db_read DInfra (\<lambda>s. tget (requests s) i)) (\<lambda>q. case q of
       None \<Rightarrow> throw ErrReqNotFound
     | Some r \<Rightarrow> ret r)"

definition del_get_open :: "string \<Rightarrow> ('w, request) del_prog" where
  "del_get_open uid =
     bindE (db_read DInfra (\<lambda>s. tget (markers s) uid)) (\<lambda>q. case q of
       None \<Rightarrow> throw ErrReqNotFound
     | Some i \<Rightarrow> del_get i)"

text \<open>\<open>Save\<close> is one transaction: the request replaces the stored one if that is still in the
  state it was read in, and when it leaves the open states the user's marker is deleted if it
  still names this request.\<close>

definition releases :: "request \<Rightarrow> rstate \<Rightarrow> bool" where
  "releases r from \<longleftrightarrow> open_state from \<and> \<not> open_state (rq_state r)"

definition del_save :: "request \<Rightarrow> rstate \<Rightarrow> ('w, unit) del_prog" where
  "del_save r from =
     db_cond DInfra ErrStateChanged
       (\<lambda>s. (case tget (requests s) (rq_id r) of None \<Rightarrow> False | Some q \<Rightarrow> rq_state q = from) \<and>
            (releases r from \<longrightarrow> tget (markers s) (rq_user r) = Some (rq_id r)))
       (\<lambda>s. s\<lparr>requests := tput (rq_id r) r (requests s),
              markers := (if releases r from then tdel (rq_user r) (markers s) else markers s)\<rparr>)"

text \<open>The sparse index shows the requests with a due state, the earliest due first; among equal instants
  the order is the index's.\<close>

definition due_key :: "string \<times> request \<Rightarrow> int" where
  "due_key p = (case rq_next_action (snd p) of None \<Rightarrow> 0 | Some t \<Rightarrow> t)"

definition del_list_due :: "rstate \<Rightarrow> time \<Rightarrow> nat \<Rightarrow> ('w, string list) del_prog" where
  "del_list_due st n limit =
     db_read DInfra (\<lambda>s. take limit (map fst (sort_key due_key (filter (\<lambda>(i, r).
       rq_due_state r = Some st \<and> (case rq_next_action r of None \<Rightarrow> False | Some t \<Rightarrow> t \<le> unix n)) (requests s)))))"

definition del_put_services :: "service_status list \<Rightarrow> ('w, unit) del_prog" where
  "del_put_services rows =
     forE rows (\<lambda>st.
       bindE (tryE (db_cond DInfra ErrStateChanged
           (\<lambda>s. tget (services s) (ss_request st, ss_service st) = None)
           (services_update (tput (ss_request st, ss_service st) st)))) (\<lambda>w. case w of
         Inl e \<Rightarrow> if e = ErrStateChanged then ret () else throw e
       | Inr _ \<Rightarrow> ret ()))"

definition del_list_services :: "string \<Rightarrow> ('w, service_status list) del_prog" where
  "del_list_services i = db_read DInfra (\<lambda>s. tquery (\<lambda>k. fst k = i) (services s))"

definition del_save_service :: "service_status \<Rightarrow> svc_state \<Rightarrow> ('w, unit) del_prog" where
  "del_save_service st from =
     db_cond DInfra ErrStateChanged
       (\<lambda>s. case tget (services s) (ss_request st, ss_service st) of None \<Rightarrow> False | Some q \<Rightarrow> ss_status q = from)
       (services_update (tput (ss_request st, ss_service st) st))"

end
