(* ===== verification/DeletionService.thy ===== *)
theory DeletionService
  imports Deletion
begin

text \<open>
  The deletion service (\<open>api/internal/domain/deletion/service.go\<close>): a request is opened,
  confirmed by e-mail, locked for a grace period of seven days in which it can be cancelled,
  then erased with the participants and purged. The interfaces the service calls (the locker,
  the ownership assessment, the eligibility check, the purger and the unlinker) are fields of
  the record \<open>svc\<close>, as they are fields of the Go struct.

  A Go method that changes the request it is given and may also fail is a program that never
  fails itself: it returns the changed request together with the error or success, so that a
  caller that only logs the error goes on with the changed request, as the code does.
\<close>

section \<open>The service and what it calls\<close>

record service_target =
  st_service :: string
  st_login_clients :: "string list"

record 'w svc =
  sv_sha :: "string \<Rightarrow> byte list"
  sv_lock :: "request \<Rightarrow> ('w, unit) del_prog"
  sv_unlock :: "request \<Rightarrow> ('w, unit) del_prog"
  sv_erase :: "request \<Rightarrow> string list \<Rightarrow> ('w, unit) del_prog"
  sv_ownership :: "string \<Rightarrow> ('w, del_err, workspace list \<times> blocker list) prog"
  sv_purger :: "(request \<Rightarrow> ('w, unit) del_prog) option"
  sv_participants :: "string list"
  sv_leavable :: "(string \<Rightarrow> service_target option) option"
  sv_service_elig :: "(string \<Rightarrow> string \<Rightarrow> ('w, del_err, blocker list) prog) option"
  sv_unlinker :: "(request \<Rightarrow> ('w, unit) del_prog) option"
  sv_service_list :: "string list option"

definition del_user :: "string \<Rightarrow> ('w, user) del_prog" where
  "del_user uid = mapErr DUser (user_get_by_id uid)"

definition dueBatch :: nat where "dueBatch = 25"
definition legalHoldRecheck :: time where "legalHoldRecheck = hour"

record service_option =
  so_service :: string
  so_can_leave :: bool

definition list_services :: "'w svc \<Rightarrow> string \<Rightarrow> ('w, service_option list) del_prog" where
  "list_services S uid = (case sv_service_list S of
       None \<Rightarrow> ret []
     | Some names \<Rightarrow>
         bindE (tryE (del_get_open uid)) (\<lambda>r. case r of
           Inl e \<Rightarrow> if e \<noteq> ErrReqNotFound then throw e
             else ret (map (\<lambda>n. \<lparr>so_service = n, so_can_leave = True\<rparr>) names)
         | Inr _ \<Rightarrow> ret (map (\<lambda>n. \<lparr>so_service = n, so_can_leave = False\<rparr>) names)))"

definition upper_char :: "char \<Rightarrow> char" where
  "upper_char c = (let n = of_char c :: nat in if 97 \<le> n \<and> n \<le> 122 then char_of (n - 32) else c)"

definition service_phrase :: "string \<Rightarrow> string" where
  "service_phrase svc = ''SAIR DO '' @ map upper_char svc"

definition participants_for :: "'w svc \<Rightarrow> request \<Rightarrow> string list" where
  "participants_for S r = (if rq_scope r = ScopeService then [rq_service r] else sv_participants S)"

definition assess :: "'w svc \<Rightarrow> request \<Rightarrow> ('w, workspace list \<times> blocker list) del_prog" where
  "assess S r =
     (if rq_scope r = ScopeService then
        (case sv_service_elig S of
           None \<Rightarrow> throw ErrUnknownService
         | Some check \<Rightarrow> bindE (in_world (check (rq_user r) (rq_service r))) (\<lambda>bs. ret ([], bs)))
      else in_world (sv_ownership S (rq_user r)))"

section \<open>Opening a request\<close>

definition expire :: "time \<Rightarrow> request \<Rightarrow> request" where
  "expire n r = clear_due (r\<lparr>rq_state := StateExpired, rq_confirm_hash := [], rq_updated_at := ts n\<rparr>)"

definition expire_unconfirmed :: "string \<Rightarrow> ('w, unit) del_prog" where
  "expire_unconfirmed uid =
     bindE (del_get_open uid) (\<lambda>r.
     if rq_state r \<noteq> StateAwaitingConfirmation then throw ErrOpenRequest
     else bindE now (\<lambda>n. del_save (expire n r) StateAwaitingConfirmation))"

definition new_request :: "string \<Rightarrow> string \<Rightarrow> scope \<Rightarrow> string \<Rightarrow> string \<Rightarrow> time \<Rightarrow> request" where
  "new_request i uid sc svc h n = set_due (n + ConfirmWindow)
     \<lparr>rq_id = i, rq_user = uid, rq_scope = sc, rq_service = svc, rq_state = StateAwaitingConfirmation,
      rq_confirm_hash = h, rq_cancel_hashes = [], rq_lock_applied = False, rq_scheduled_sent = False,
      rq_reminded = False, rq_blocked_notified = False, rq_organizations = [], rq_workspaces = [],
      rq_blockers = [], rq_purged_at = None, rq_legal_hold = False, rq_legal_hold_by = [],
      rq_requested_at = ts n, rq_confirm_by = ts (n + ConfirmWindow), rq_confirmed_at = None,
      rq_grace_until = None, rq_cancelled_at = None, rq_locked_at = None, rq_updated_at = ts n,
      rq_due_state = None, rq_next_action = None\<rparr>"

definition eligibility :: "'w svc \<Rightarrow> string \<Rightarrow> scope \<Rightarrow> string \<Rightarrow> ('w, blocker list) del_prog" where
  "eligibility S uid sc svc =
     (if sc = ScopeService then
        (case (sv_leavable S, sv_service_elig S) of
           (Some leavable, Some check) \<Rightarrow>
             if leavable svc = None then throw ErrUnknownService
             else mapErr ErrEligibilityUnavailable (in_world (check uid svc))
         | _ \<Rightarrow> throw ErrUnknownService)
      else mapErr ErrEligibilityUnavailable
        (bindE (in_world (sv_ownership S uid)) (\<lambda>(_, bs). ret bs)))"

text \<open>Storing a new request: an open request that was never confirmed gives way to it.\<close>

definition store_request :: "request \<Rightarrow> ('w, unit) del_prog" where
  "store_request r =
     bindE (tryE (del_create r)) (\<lambda>w. case w of
       Inr _ \<Rightarrow> ret ()
     | Inl e \<Rightarrow> if e = ErrOpenRequest then bindE (expire_unconfirmed (rq_user r)) (\<lambda>_. del_create r) else throw e)"

text \<open>Without the confirmation e-mail a request can never be confirmed, so it is released.\<close>

definition submit_request :: "user \<Rightarrow> string \<Rightarrow> time \<Rightarrow> request \<Rightarrow> ('w, request) del_prog" where
  "submit_request u raw n r =
     bindE (store_request r) (\<lambda>_.
     bindE (tryE (send_mail (ConfirmMail (u_email u) (u_first_name u) (rq_id r) raw (rq_service r)))) (\<lambda>w. case w of
       Inr _ \<Rightarrow> ret r
     | Inl e \<Rightarrow>
         bindE (tryE (del_save (expire n r) StateAwaitingConfirmation)) (\<lambda>v. case v of
           Inl e' \<Rightarrow> throw (DJoin e e')
         | Inr _ \<Rightarrow> throw e)))"

definition open_request :: "'w svc \<Rightarrow> string \<Rightarrow> scope \<Rightarrow> string \<Rightarrow> ('w, request) del_prog" where
  "open_request S uid sc svc =
     bindE (del_user uid) (\<lambda>u.
     bindE (eligibility S uid sc svc) (\<lambda>blockers.
     if blockers \<noteq> [] then throw (ErrBlocked blockers)
     else
     bindE (generate_mfa_token (sv_sha S) DRandom) (\<lambda>(raw, h).
     bindE now (\<lambda>n.
     bindE new_uuid (\<lambda>i.
     submit_request u raw n (new_request i uid sc svc h n))))))"

definition request_account :: "'w svc \<Rightarrow> string \<Rightarrow> ('w, request) del_prog" where
  "request_account S uid = open_request S uid ScopeAccount []"

definition request_service :: "'w svc \<Rightarrow> string \<Rightarrow> string \<Rightarrow> ('w, request) del_prog" where
  "request_service S uid svc = open_request S uid ScopeService svc"

section \<open>Grace period\<close>

definition token_matches :: "(string \<Rightarrow> byte list) \<Rightarrow> string \<Rightarrow> string \<Rightarrow> bool" where
  "token_matches sha raw h \<longleftrightarrow> h \<noteq> [] \<and> hash_token sha raw = h"

definition any_token_matches :: "(string \<Rightarrow> byte list) \<Rightarrow> string \<Rightarrow> string list \<Rightarrow> bool" where
  "any_token_matches sha raw hs \<longleftrightarrow> list_ex (token_matches sha raw) hs"

definition next_due :: "time \<Rightarrow> request \<Rightarrow> time" where
  "next_due n r =
     (if \<not> rq_lock_applied r \<or> \<not> rq_scheduled_sent r then n
      else if \<not> rq_reminded r then parse_time (rq_grace_until r) - ReminderLead
      else parse_time (rq_grace_until r))"

definition schedule_next :: "time \<Rightarrow> request \<Rightarrow> request" where
  "schedule_next n r =
     (if rq_state r = StateBlocked then (if rq_blocked_notified r then clear_due r else set_due n r)
      else set_due (next_due n r) r)"

datatype link_kind = LinkScheduled | LinkReminder | LinkBlocked

fun link_mail :: "link_kind \<Rightarrow> user \<Rightarrow> request \<Rightarrow> string \<Rightarrow> mail" where
  "link_mail LinkScheduled u r raw =
     ScheduledMail (u_email u) (u_first_name u) (rq_id r) raw (parse_time (rq_grace_until r)) (rq_service r)"
| "link_mail LinkReminder u r raw =
     ReminderMail (u_email u) (u_first_name u) (rq_id r) raw (parse_time (rq_grace_until r)) (rq_service r)"
| "link_mail LinkBlocked u r raw =
     BlockedMail (u_email u) (u_first_name u) (rq_id r) raw (rq_blockers r) (rq_service r)"

fun link_sent :: "link_kind \<Rightarrow> request \<Rightarrow> request" where
  "link_sent LinkScheduled r = r\<lparr>rq_scheduled_sent := True\<rparr>"
| "link_sent LinkReminder r = r\<lparr>rq_reminded := True\<rparr>"
| "link_sent LinkBlocked r = r\<lparr>rq_blocked_notified := True\<rparr>"

type_synonym 'w req_prog = "('w, request \<times> (del_err + unit)) del_prog"

text \<open>The hash of a fresh cancel token is stored before the e-mail is sent, the flag after.\<close>

definition send_cancel_link :: "'w svc \<Rightarrow> request \<Rightarrow> link_kind \<Rightarrow> 'w req_prog" where
  "send_cancel_link S r kind =
     bindE (tryE (del_user (rq_user r))) (\<lambda>q. case q of
       Inl e \<Rightarrow> ret (r, Inl e)
     | Inr u \<Rightarrow>
     bindE (tryE (generate_mfa_token (sv_sha S) DRandom)) (\<lambda>g. case g of
       Inl e \<Rightarrow> ret (r, Inl e)
     | Inr (raw, h) \<Rightarrow>
     bindE now (\<lambda>n.
     let from = rq_state r;
         r1 = r\<lparr>rq_cancel_hashes := rq_cancel_hashes r @ [h], rq_updated_at := ts n\<rparr> in
     bindE (tryE (del_save r1 from)) (\<lambda>w. case w of
       Inl e \<Rightarrow> ret (r1, Inl e)
     | Inr _ \<Rightarrow>
     bindE (tryE (send_mail (link_mail kind u r1 raw))) (\<lambda>m. case m of
       Inl e \<Rightarrow> ret (r1, Inl e)
     | Inr _ \<Rightarrow>
     let r2 = schedule_next n ((link_sent kind r1)\<lparr>rq_updated_at := ts n\<rparr>) in
     bindE (tryE (del_save r2 from)) (\<lambda>v. ret (r2, v)))))))"

text \<open>Locking, with the undo of a lock that lost the race against a cancel.\<close>

definition undo_lock :: "'w svc \<Rightarrow> request \<Rightarrow> ('w, del_err + unit) del_prog" where
  "undo_lock S cur =
     bindE (tryE (sv_unlock S cur)) (\<lambda>u. case u of
       Inr _ \<Rightarrow> ret (Inr ())
     | Inl e \<Rightarrow>
         bindE now (\<lambda>n.
         bindE (tryE (del_save (set_due n (cur\<lparr>rq_updated_at := ts n\<rparr>)) StateCancelled)) (\<lambda>v. case v of
           Inl e' \<Rightarrow> ret (Inl (DJoin e e'))
         | Inr _ \<Rightarrow> ret (Inl e))))"

definition lost_save :: "'w svc \<Rightarrow> request \<Rightarrow> del_err \<Rightarrow> 'w req_prog" where
  "lost_save S r1 e =
     bindE (tryE (del_get (rq_id r1))) (\<lambda>g. case g of
       Inr cur \<Rightarrow>
         if rq_state cur = StateCancelled then bindE (undo_lock S cur) (\<lambda>v. ret (r1, v))
         else ret (r1, Inl e)
     | Inl _ \<Rightarrow> ret (r1, Inl e))"

definition apply_lock :: "'w svc \<Rightarrow> request \<Rightarrow> 'w req_prog" where
  "apply_lock S r =
     bindE (tryE (sv_lock S r)) (\<lambda>l. case l of
       Inl e \<Rightarrow> ret (r, Inl e)
     | Inr _ \<Rightarrow>
     bindE now (\<lambda>n.
     let r1 = schedule_next n (r\<lparr>rq_lock_applied := True, rq_updated_at := ts n\<rparr>) in
     bindE (tryE (del_save r1 StatePending)) (\<lambda>w. case w of
       Inr _ \<Rightarrow> ret (r1, Inr ())
     | Inl e \<Rightarrow>
         if e = ErrStateChanged then lost_save S r1 e else ret (r1, Inl e))))"

definition confirmed :: "time \<Rightarrow> request \<Rightarrow> request" where
  "confirmed n r = set_due n (r\<lparr>rq_state := StatePending, rq_confirm_hash := [], rq_confirmed_at := ts n,
     rq_grace_until := ts (n + GracePeriod), rq_updated_at := ts n\<rparr>)"

definition confirm :: "'w svc \<Rightarrow> string \<Rightarrow> string \<Rightarrow> ('w, request) del_prog" where
  "confirm S i tok =
     bindE (tryE (del_get i)) (\<lambda>g. case g of
       Inl e \<Rightarrow> throw (if e = ErrReqNotFound then ErrInvalidToken else e)
     | Inr r \<Rightarrow>
     bindE now (\<lambda>n.
     if rq_state r \<noteq> StateAwaitingConfirmation \<or> \<not> n < parse_time (rq_confirm_by r) \<or>
        \<not> token_matches (sv_sha S) tok (rq_confirm_hash r) then throw ErrInvalidToken
     else
     let r1 = confirmed n r in
     bindE (tryE (del_save r1 StateAwaitingConfirmation)) (\<lambda>w. case w of
       Inl e \<Rightarrow> throw (if e = ErrStateChanged then ErrInvalidToken else e)
     | Inr _ \<Rightarrow>
     bindE (apply_lock S r1) (\<lambda>(r2, _).
     bindE (send_cancel_link S r2 LinkScheduled) (\<lambda>(r3, _). ret r3)))))"

section \<open>Cancelling\<close>

definition finish_cancel :: "'w svc \<Rightarrow> request \<Rightarrow> 'w req_prog" where
  "finish_cancel S r =
     bindE (tryE (sv_unlock S r)) (\<lambda>u. case u of
       Inl e \<Rightarrow> ret (r, Inl e)
     | Inr _ \<Rightarrow>
     bindE now (\<lambda>n.
     let r1 = clear_due (r\<lparr>rq_updated_at := ts n\<rparr>) in
     bindE (tryE (del_save r1 StateCancelled)) (\<lambda>w. case w of
       Inl e \<Rightarrow> ret (r1, Inl e)
     | Inr _ \<Rightarrow>
     bindE (tryE (del_user (rq_user r1))) (\<lambda>q. case q of
       Inl _ \<Rightarrow> ret (r1, Inr ())
     | Inr u \<Rightarrow>
         bindE (logE (send_mail (CancelledMail (u_email u) (u_first_name u) (rq_service r1))))
           (\<lambda>_. ret (r1, Inr ()))))))"

definition cancelled :: "time \<Rightarrow> request \<Rightarrow> request" where
  "cancelled n r = set_due n (r\<lparr>rq_state := StateCancelled, rq_cancelled_at := ts n, rq_updated_at := ts n\<rparr>)"

definition cancel_request :: "'w svc \<Rightarrow> request \<Rightarrow> ('w, request) del_prog" where
  "cancel_request S r =
     (if rq_state r \<noteq> StatePending \<and> rq_state r \<noteq> StateBlocked then throw ErrNotCancellable
      else
      bindE now (\<lambda>n.
      let r1 = cancelled n r in
      bindE (tryE (del_save r1 (rq_state r))) (\<lambda>w. case w of
        Inl e \<Rightarrow> throw (if e = ErrStateChanged then ErrNotCancellable else e)
      | Inr _ \<Rightarrow> bindE (finish_cancel S r1) (\<lambda>(r2, _). ret r2))))"

definition cancel :: "'w svc \<Rightarrow> string \<Rightarrow> string \<Rightarrow> ('w, request) del_prog" where
  "cancel S i tok =
     bindE (tryE (del_get i)) (\<lambda>g. case g of
       Inl e \<Rightarrow> throw (if e = ErrReqNotFound then ErrInvalidToken else e)
     | Inr r \<Rightarrow>
         if \<not> any_token_matches (sv_sha S) tok (rq_cancel_hashes r) then throw ErrInvalidToken
         else cancel_request S r)"

definition status :: "string \<Rightarrow> ('w, request) del_prog" where
  "status uid = del_get_open uid"

definition support_cancel :: "'w svc \<Rightarrow> string \<Rightarrow> ('w, request) del_prog" where
  "support_cancel S i = bindE (del_get i) (cancel_request S)"

section \<open>The participants\<close>

definition ackBackoff :: "time list" where
  "ackBackoff = [15 * minute, hour, 6 * hour, 24 * hour]"

text \<open>The next time a silent participant is told again; \<open>None\<close> is the zero time of a row that
  was put back by support, which is due at once.\<close>

definition next_dispatch :: "service_status \<Rightarrow> time option" where
  "next_dispatch st =
     (if ss_attempts st = 0 then None
      else Some (parse_time (ss_last_dispatch st) + ackBackoff ! min (ss_attempts st - 1) (length ackBackoff - 1)))"

definition sooner :: "time option \<Rightarrow> time \<Rightarrow> time option" where
  "sooner nxt n = (case nxt of None \<Rightarrow> Some n | Some m \<Rightarrow> if n < m then Some n else Some m)"

text \<open>The first loop of \<open>reconcile\<close>: \<open>None\<close> when a participant reported a blocker, else the
  participants to tell again and the earliest later time of the others.\<close>

fun scan_services ::
  "time \<Rightarrow> service_status list \<Rightarrow> service_status list \<Rightarrow> time option \<Rightarrow>
   (service_status list \<times> time option) option" where
  "scan_services n [] silent nxt = Some (silent, nxt)"
| "scan_services n (st # sts) silent nxt = (case ss_status st of
       ServiceAcked \<Rightarrow> scan_services n sts silent nxt
     | ServiceBlocked \<Rightarrow> None
     | ServiceDispatched \<Rightarrow> (case next_dispatch st of
           None \<Rightarrow> scan_services n sts (silent @ [st]) nxt
         | Some d \<Rightarrow> if \<not> n < d then scan_services n sts (silent @ [st]) nxt
                     else scan_services n sts silent (sooner nxt d)))"

definition redispatched :: "time \<Rightarrow> service_status \<Rightarrow> service_status" where
  "redispatched n st = st\<lparr>ss_attempts := Suc (ss_attempts st), ss_last_dispatch := ts n\<rparr>"

fun redispatch :: "time \<Rightarrow> service_status list \<Rightarrow> time option \<Rightarrow> ('w, time option) del_prog" where
  "redispatch n [] nxt = ret nxt"
| "redispatch n (st # sts) nxt =
     (let st' = redispatched n st in
      bindE (tryE (del_save_service st' ServiceDispatched)) (\<lambda>w. case w of
        Inl e \<Rightarrow> if e \<noteq> ErrStateChanged then throw e
          else redispatch n sts (case next_dispatch st' of None \<Rightarrow> nxt | Some d \<Rightarrow> sooner nxt d)
      | Inr _ \<Rightarrow> redispatch n sts (case next_dispatch st' of None \<Rightarrow> nxt | Some d \<Rightarrow> sooner nxt d)))"

definition reconcile :: "'w svc \<Rightarrow> request \<Rightarrow> time \<Rightarrow> ('w, bool) del_prog" where
  "reconcile S r n =
     bindE (del_list_services (rq_id r)) (\<lambda>sts. case scan_services n sts [] None of
       None \<Rightarrow>
         bindE (del_save (clear_due (r\<lparr>rq_state := StateStalled, rq_updated_at := ts n\<rparr>)) StatePurging)
           (\<lambda>_. ret False)
     | Some (silent, nxt) \<Rightarrow>
         if silent = [] \<and> nxt = None then ret True
         else
         bindE (if silent \<noteq> [] then
                  bindE (sv_erase S r (map ss_service silent)) (\<lambda>_. redispatch n silent nxt)
                else ret nxt) (\<lambda>nxt'.
         bindE (del_save (set_due (case nxt' of None \<Rightarrow> zero_time | Some d \<Rightarrow> d) (r\<lparr>rq_updated_at := ts n\<rparr>)) StatePurging)
           (\<lambda>_. ret False)))"

section \<open>The worker\<close>

definition settle :: "'w req_prog \<Rightarrow> ('w, unit) del_prog" where
  "settle f = bindE f (\<lambda>(_, w). case w of Inl e \<Rightarrow> throw e | Inr _ \<Rightarrow> ret ())"

definition blocked_by :: "time \<Rightarrow> blocker list \<Rightarrow> request \<Rightarrow> request" where
  "blocked_by n bs r = set_due n (r\<lparr>rq_state := StateBlocked, rq_updated_at := ts n, rq_blockers := map bl_code bs\<rparr>)"

definition locked :: "time \<Rightarrow> workspace list \<Rightarrow> request \<Rightarrow> request" where
  "locked n sole r = set_due n (r\<lparr>rq_state := StateLocked, rq_locked_at := ts n, rq_updated_at := ts n,
     rq_workspaces := sole, rq_organizations := map ws_id sole\<rparr>)"

text \<open>The end of the grace period.\<close>

definition end_of_grace :: "'w svc \<Rightarrow> request \<Rightarrow> time \<Rightarrow> ('w, unit) del_prog" where
  "end_of_grace S r n =
     (if rq_legal_hold r then del_save (set_due (n + legalHoldRecheck) r) StatePending
      else
      bindE (assess S r) (\<lambda>(sole, blockers).
      if blockers \<noteq> [] then del_save (blocked_by n blockers r) StatePending
      else del_save (locked n sole r) StatePending))"

definition step_pending :: "'w svc \<Rightarrow> request \<Rightarrow> time \<Rightarrow> ('w, unit) del_prog" where
  "step_pending S r n =
     (if \<not> rq_lock_applied r then settle (apply_lock S r)
      else if \<not> rq_scheduled_sent r then settle (send_cancel_link S r LinkScheduled)
      else if \<not> rq_reminded r \<and> n < parse_time (rq_grace_until r) then settle (send_cancel_link S r LinkReminder)
      else if \<not> n < parse_time (rq_grace_until r) then end_of_grace S r n
      else ret ())"

definition dispatched_row :: "request \<Rightarrow> time \<Rightarrow> string \<Rightarrow> service_status" where
  "dispatched_row r n svc = \<lparr>ss_request = rq_id r, ss_service = svc, ss_status = ServiceDispatched,
     ss_attempts = 1, ss_first_dispatch = ts n, ss_last_dispatch = ts n, ss_acked_at = None,
     ss_counts = [], ss_blockers = []\<rparr>"

definition step_locked :: "'w svc \<Rightarrow> request \<Rightarrow> time \<Rightarrow> ('w, unit) del_prog" where
  "step_locked S r n =
     bindE (sv_lock S r) (\<lambda>_.
     bindE (sv_erase S r []) (\<lambda>_.
     let ps = participants_for S r in
     bindE (if ps \<noteq> [] then del_put_services (map (dispatched_row r n) ps) else ret ()) (\<lambda>_.
     let r1 = r\<lparr>rq_state := StatePurging, rq_updated_at := ts n\<rparr>;
         r2 = (if sv_purger S \<noteq> None \<or> ps \<noteq> [] then set_due n r1 else clear_due r1)
     in del_save r2 StateLocked)))"

definition purged :: "time \<Rightarrow> request \<Rightarrow> request" where
  "purged n r = clear_due (r\<lparr>rq_state := StatePurged, rq_purged_at := ts n, rq_updated_at := ts n\<rparr>)"

text \<open>The last step: the account side of the erasure, then the request is done.\<close>

definition finish_purge :: "'w svc \<Rightarrow> request \<Rightarrow> time \<Rightarrow> ('w, unit) del_prog" where
  "finish_purge S r n =
     (case (if rq_scope r = ScopeService then sv_unlinker S else sv_purger S) of
        None \<Rightarrow> del_save (clear_due r) StatePurging
      | Some f \<Rightarrow> bindE (f r) (\<lambda>_. del_save (purged n r) StatePurging))"

definition step_purging :: "'w svc \<Rightarrow> request \<Rightarrow> time \<Rightarrow> ('w, unit) del_prog" where
  "step_purging S r n =
     (if rq_legal_hold r then del_save (set_due (n + legalHoldRecheck) r) StatePurging
      else
      bindE (if participants_for S r \<noteq> [] then reconcile S r n else ret True) (\<lambda>done.
      if \<not> done then ret () else finish_purge S r n))"

definition step :: "'w svc \<Rightarrow> request \<Rightarrow> time \<Rightarrow> ('w, unit) del_prog" where
  "step S r n = (case rq_state r of
       StateAwaitingConfirmation \<Rightarrow> del_save (expire n r) StateAwaitingConfirmation
     | StateCancelled \<Rightarrow> settle (finish_cancel S r)
     | StatePending \<Rightarrow> step_pending S r n
     | StateBlocked \<Rightarrow> settle (send_cancel_link S r LinkBlocked)
     | StateLocked \<Rightarrow> step_locked S r n
     | StatePurging \<Rightarrow> step_purging S r n
     | _ \<Rightarrow> ret ())"

definition due_states :: "rstate list" where
  "due_states = [StateAwaitingConfirmation, StatePending, StateBlocked, StateCancelled, StateLocked, StatePurging]"

definition process_one :: "'w svc \<Rightarrow> time \<Rightarrow> rstate \<Rightarrow> string \<Rightarrow> ('w, unit) del_prog" where
  "process_one S n st i =
     bindE (del_get i) (\<lambda>r.
       if rq_due_state r = Some st \<and> \<not> n < parse_time (rq_next_action r) then step S r n else ret ())"

definition process_due :: "'w svc \<Rightarrow> ('w, unit) del_prog" where
  "process_due S =
     bindE now (\<lambda>n.
     forE due_states (\<lambda>st.
       bindE (tryE (del_list_due st n dueBatch)) (\<lambda>l. case l of
         Inl _ \<Rightarrow> ret ()
       | Inr ids \<Rightarrow> forE ids (\<lambda>i. logE (process_one S n st i)))))"

section \<open>Answers of the participants and support\<close>

definition acked :: "time \<Rightarrow> ack \<Rightarrow> service_status \<Rightarrow> service_status" where
  "acked n a st =
     (let st1 = st\<lparr>ss_acked_at := ts n, ss_counts := ack_counts a, ss_status := ServiceAcked\<rparr>
      in if ack_result a = ResultBlocked then
           st1\<lparr>ss_status := ServiceBlocked, ss_blockers := ss_blockers st1 @ map bl_code (ack_blockers a)\<rparr>
         else st1)"

text \<open>After a participant answered, a purging request is made due at once; any failure of it only
  delays the worker to the next due time.\<close>

definition nudge :: "time \<Rightarrow> string \<Rightarrow> ('w, unit) del_prog" where
  "nudge n i = logE (bindE (del_get i) (\<lambda>r.
     if rq_state r = StatePurging then del_save (set_due n (r\<lparr>rq_updated_at := ts n\<rparr>)) StatePurging else ret ()))"

definition receive_ack :: "string \<Rightarrow> ack \<Rightarrow> ('w, unit) del_prog" where
  "receive_ack svc a =
     bindE (del_list_services (ack_request a)) (\<lambda>sts.
     case List.find (\<lambda>st. ss_service st = svc) sts of
       None \<Rightarrow> throw ErrReqNotFound
     | Some st \<Rightarrow>
         if ss_status st \<noteq> ServiceDispatched then ret ()
         else
         bindE now (\<lambda>n.
         bindE (tryE (del_save_service (acked n a st) ServiceDispatched)) (\<lambda>w. case w of
           Inl e \<Rightarrow> if e \<noteq> ErrStateChanged then throw e
             else nudge n (ack_request a)
         | Inr _ \<Rightarrow> nudge n (ack_request a))))"

definition subject :: "string \<Rightarrow> ('w, string) del_prog" where
  "subject i =
     bindE (del_get i) (\<lambda>r.
     if rq_state r \<noteq> StatePurging then throw ErrReqNotFound
     else bindE (del_user (rq_user r)) (\<lambda>u. ret (u_cpf u)))"

definition held :: "time \<Rightarrow> string \<Rightarrow> bool \<Rightarrow> request \<Rightarrow> request" where
  "held n admin on r =
     (let r1 = r\<lparr>rq_legal_hold := on, rq_updated_at := ts n, rq_legal_hold_by := (if on then admin else [])\<rparr>
      in if \<not> on \<and> (rq_state r = StatePending \<or> rq_state r = StatePurging) then set_due n r1 else r1)"

definition set_legal_hold :: "string \<Rightarrow> string \<Rightarrow> bool \<Rightarrow> ('w, unit) del_prog" where
  "set_legal_hold i admin on =
     bindE (del_get i) (\<lambda>r.
     if \<not> on \<and> rq_legal_hold r \<and> rq_legal_hold_by r = admin then throw ErrHoldNeedsSecondAdmin
     else bindE now (\<lambda>n. del_save (held n admin on r) (rq_state r)))"

definition redriven :: "time \<Rightarrow> service_status \<Rightarrow> service_status" where
  "redriven n st = st\<lparr>ss_status := ServiceDispatched, ss_blockers := [], ss_acked_at := None, ss_attempts := 0,
     ss_first_dispatch := ts n, ss_last_dispatch := None\<rparr>"

definition redrive :: "string \<Rightarrow> string \<Rightarrow> ('w, unit) del_prog" where
  "redrive i svc =
     bindE (del_get i) (\<lambda>r.
     bindE (del_list_services i) (\<lambda>sts.
     bindE now (\<lambda>n.
     bindE (forE sts (\<lambda>st.
       if ss_service st = svc \<and> ss_status st = ServiceBlocked
       then del_save_service (redriven n st) ServiceBlocked else ret ())) (\<lambda>_.
     if rq_state r = StateStalled
     then del_save (set_due n (r\<lparr>rq_state := StatePurging, rq_updated_at := ts n\<rparr>)) StateStalled
     else ret ()))))"

end
