(* ===== verification/DeletionContract.thy ===== *)
theory DeletionContract
  imports DeletionService
begin

text \<open>
  What the deletion service keeps, whatever it is wired to. The interfaces it calls are a
  locale: a locker, a purger and an unlinker that leave the deletion table alone.
  From that contract alone every operation keeps the invariant of the table (one open request
  per user, deadlines in order, nothing forgotten) and moves requests only along the edges of
  their state machine.
\<close>

section \<open>The state machine\<close>

inductive edge :: "rstate \<Rightarrow> rstate \<Rightarrow> bool" where
  expire: "edge StateAwaitingConfirmation StateExpired"
| confirm: "edge StateAwaitingConfirmation StatePending"
| cancel_pending: "edge StatePending StateCancelled"
| cancel_blocked: "edge StateBlocked StateCancelled"
| block: "edge StatePending StateBlocked"
| lock: "edge StatePending StateLocked"
| dispatch: "edge StateLocked StatePurging"
| stall: "edge StatePurging StateStalled"
| resume: "edge StateStalled StatePurging"
| finish: "edge StatePurging StatePurged"

inductive_cases edgeE [elim!]: "edge a b"
inductive_simps edge_from [simp]:
  "edge StateAwaitingConfirmation b" "edge StatePending b" "edge StateBlocked b" "edge StateLocked b"
  "edge StatePurging b" "edge StateStalled b" "edge StateCancelled b" "edge StateExpired b" "edge StatePurged b"

definition moves :: "rstate \<Rightarrow> rstate \<Rightarrow> bool" where
  "moves a b \<longleftrightarrow> a = b \<or> edge a b"

lemma moves_refl [simp]: "moves a a"
  by (simp add: moves_def)

lemma edge_moves [simp]: "edge a b \<Longrightarrow> moves a b"
  by (simp add: moves_def)

lemma moves_open: "moves a b \<Longrightarrow> open_state b \<Longrightarrow> open_state a"
  by (auto simp: moves_def open_state_def)

section \<open>The invariant\<close>

text \<open>The deadlines a request went through: seven days of grace after the confirmation, and no
  lock before the end of the grace.\<close>

definition timely :: "request \<Rightarrow> bool" where
  "timely r \<longleftrightarrow>
     (rq_state r \<notin> {StateAwaitingConfirmation, StateExpired} \<longrightarrow>
        (\<exists>c. rq_confirmed_at r = Some c \<and> rq_grace_until r = Some (c + 604800))) \<and>
     (rq_state r \<in> {StateLocked, StatePurging, StateStalled, StatePurged} \<longrightarrow>
        (\<exists>l g. rq_locked_at r = Some l \<and> rq_grace_until r = Some g \<and> g \<le> l))"

text \<open>Nothing is forgotten: a request that waits for the worker is in the index of due requests,
  under the state it is in.\<close>

definition due_ok :: "'w svc \<Rightarrow> request \<Rightarrow> bool" where
  "due_ok S r \<longleftrightarrow>
     (rq_due_state r = None \<or> rq_due_state r = Some (rq_state r) \<and> rq_next_action r \<noteq> None) \<and>
     (rq_due_state r = None \<longrightarrow>
        rq_state r \<notin> {StateAwaitingConfirmation, StatePending, StateLocked} \<and>
        \<not> (rq_state r = StateBlocked \<and> \<not> rq_blocked_notified r) \<and>
        \<not> (rq_state r = StatePurging \<and> sv_purger S \<noteq> None \<and> sv_unlinker S \<noteq> None))"

definition req_ok :: "'w svc \<Rightarrow> request \<Rightarrow> bool" where
  "req_ok S r \<longleftrightarrow> timely r \<and> due_ok S r"

text \<open>The participants of a request that is being purged have a row each, and a request is
  purged only when every row was acknowledged.\<close>

definition has_rows :: "'w svc \<Rightarrow> 'w del_db \<Rightarrow> request \<Rightarrow> bool" where
  "has_rows S s r \<longleftrightarrow> (\<forall>p \<in> set (participants_for S r). tget (services s) (rq_id r, p) \<noteq> None)"

definition all_acked :: "'w svc \<Rightarrow> 'w del_db \<Rightarrow> request \<Rightarrow> bool" where
  "all_acked S s r \<longleftrightarrow> (\<forall>p \<in> set (participants_for S r). \<exists>st. tget (services s) (rq_id r, p) = Some st \<and>
     ss_status st = ServiceAcked)"

definition rows_ok :: "'w svc \<Rightarrow> 'w del_db \<Rightarrow> request \<Rightarrow> bool" where
  "rows_ok S s r \<longleftrightarrow>
     (rq_state r \<in> {StatePurging, StateStalled, StatePurged} \<longrightarrow> has_rows S s r) \<and>
     (rq_state r = StatePurged \<longrightarrow> all_acked S s r)"

text \<open>An erase order was given only for a request whose grace period is over.\<close>

definition past_grace :: "rstate \<Rightarrow> bool" where
  "past_grace st \<longleftrightarrow> st \<in> {StateLocked, StatePurging, StateStalled, StatePurged}"

definition erase_ok :: "'w del_db \<Rightarrow> bool" where
  "erase_ok s \<longleftrightarrow> (\<forall>m \<in> set (published s). msg_type m = TypeErase \<longrightarrow>
     (\<exists>q. tget (requests s) (msg_request m) = Some q \<and> past_grace (rq_state q)))"

definition del_inv :: "'w svc \<Rightarrow> 'w del_db \<Rightarrow> bool" where
  "del_inv S s \<longleftrightarrow>
     (tkeys (requests s) \<and> tkeys (markers s) \<and> tkeys (services s)) \<and> erase_ok s \<and>
     (\<forall>i r. tget (requests s) i = Some r \<longrightarrow> rq_id r = i \<and> req_ok S r \<and> rows_ok S s r) \<and>
     (\<forall>uid i. tget (markers s) uid = Some i \<longleftrightarrow>
        (\<exists>r. tget (requests s) i = Some r \<and> rq_user r = uid \<and> open_state (rq_state r))) \<and>
     (\<forall>k st. tget (services s) k = Some st \<longrightarrow> k = (ss_request st, ss_service st))"

lemma del_inv_req: "del_inv S s \<Longrightarrow> tget (requests s) i = Some r \<Longrightarrow> rq_id r = i \<and> req_ok S r \<and> rows_ok S s r"
  unfolding del_inv_def by blast

lemma del_inv_marker: "del_inv S s \<Longrightarrow> tget (markers s) uid = Some i \<longleftrightarrow>
    (\<exists>r. tget (requests s) i = Some r \<and> rq_user r = uid \<and> open_state (rq_state r))"
  unfolding del_inv_def by blast

lemma del_inv_service: "del_inv S s \<Longrightarrow> tget (services s) k = Some st \<Longrightarrow> k = (ss_request st, ss_service st)"
  unfolding del_inv_def by blast

lemma del_inv_tables: "del_inv S s \<Longrightarrow> tkeys (requests s) \<and> tkeys (markers s) \<and> tkeys (services s)"
  unfolding del_inv_def by blast

lemma del_inv_erase: "del_inv S s \<Longrightarrow> erase_ok s"
  unfolding del_inv_def by blast

text \<open>The identity of a request never changes. What an operation learnt stays true until it
  ends, whatever it writes: that the table has the request it read, in a state reached from the
  one it read; that the rows of its participants exist; that all of them were acknowledged.\<close>

definition same_ids :: "request \<Rightarrow> request \<Rightarrow> bool" where
  "same_ids r q \<longleftrightarrow> rq_id q = rq_id r \<and> rq_user q = rq_user r \<and> rq_scope q = rq_scope r \<and> rq_service q = rq_service r"

datatype fact = Seen request | Rows request | Acks request

fun holds :: "'w svc \<Rightarrow> 'w del_db \<Rightarrow> fact \<Rightarrow> bool" where
  "holds S s (Seen r) \<longleftrightarrow>
     (\<exists>q. tget (requests s) (rq_id r) = Some q \<and> same_ids r q \<and> edge\<^sup>*\<^sup>* (rq_state r) (rq_state q))"
| "holds S s (Rows r) \<longleftrightarrow> has_rows S s r"
| "holds S s (Acks r) \<longleftrightarrow> all_acked S s r"

definition dinv :: "'w svc \<Rightarrow> fact set \<Rightarrow> 'w del_db \<Rightarrow> bool" where
  "dinv S R s \<longleftrightarrow> del_inv S s \<and> (\<forall>f \<in> R. holds S s f)"

lemma same_ids_refl [simp]: "same_ids r r"
  by (simp add: same_ids_def)

lemma same_ids_trans: "same_ids p q \<Longrightarrow> same_ids q r \<Longrightarrow> same_ids p r"
  by (simp add: same_ids_def)

lemma same_ids_rows: "same_ids r q \<Longrightarrow> has_rows S s r = has_rows S s q \<and> all_acked S s r = all_acked S s q"
  by (simp add: has_rows_def all_acked_def participants_for_def same_ids_def)

lemma past_grace_edges: "edge\<^sup>*\<^sup>* a b \<Longrightarrow> past_grace a \<Longrightarrow> past_grace b"
  by (induction rule: rtranclp_induct) (auto simp: past_grace_def)

lemma moves_edges: "edge\<^sup>*\<^sup>* a b \<Longrightarrow> moves b c \<Longrightarrow> edge\<^sup>*\<^sup>* a c"
  unfolding moves_def by (metis rtranclp.rtrancl_into_rtrancl)

lemma dinv_empty: "dinv S {} = del_inv S"
  by (simp add: dinv_def fun_eq_iff)

lemma dinvD: "dinv S R s \<Longrightarrow> del_inv S s" "dinv S R s \<Longrightarrow> f \<in> R \<Longrightarrow> holds S s f"
  by (simp_all add: dinv_def)

text \<open>A step of a collaborator: it leaves the deletion table alone and gives no
  order to erase, except the one it is asked for.\<close>

definition quiet_but :: "(message \<Rightarrow> bool) \<Rightarrow> 'w del_db \<Rightarrow> 'w del_db \<Rightarrow> bool" where
  "quiet_but P s t \<longleftrightarrow> requests t = requests s \<and> markers t = markers s \<and> services t = services s \<and>
     (\<forall>m \<in> set (published t). m \<in> set (published s) \<or> msg_type m \<noteq> TypeErase \<or> P m)"

interpretation quiet: step_order "quiet_but P" for P
  by unfold_locales (auto simp: quiet_but_def)

abbreviation del_frame :: "'w del_db \<Rightarrow> 'w del_db \<Rightarrow> bool" where
  "del_frame \<equiv> quiet_but (\<lambda>_. False)"

abbreviation erase_frame :: "request \<Rightarrow> 'w del_db \<Rightarrow> 'w del_db \<Rightarrow> bool" where
  "erase_frame r \<equiv> quiet_but (\<lambda>m. msg_request m = rq_id r)"

lemma inv_quiet:
  assumes "quiet_but P s t" and "dinv S R s"
    and "\<And>m. P m \<Longrightarrow> \<exists>q. tget (requests s) (msg_request m) = Some q \<and> past_grace (rq_state q)"
  shows "dinv S R t"
proof -
  have eq: "requests t = requests s" "markers t = markers s" "services t = services s"
    using assms(1) by (simp_all add: quiet_but_def)
  have "erase_ok t"
    using assms(1,3) del_inv_erase [OF dinvD(1) [OF assms(2)]] unfolding erase_ok_def quiet_but_def by metis
  moreover have "rows_ok S t r = rows_ok S s r" "has_rows S t r = has_rows S s r" "all_acked S t r = all_acked S s r" for r
    by (simp_all add: rows_ok_def has_rows_def all_acked_def eq)
  moreover have "holds S t f = holds S s f" for f
    by (cases f) (simp_all add: eq has_rows_def all_acked_def)
  ultimately show ?thesis
    using assms(2) unfolding dinv_def del_inv_def eq by simp
qed

lemma inv_del_frame: "tracks del_frame f \<Longrightarrow> preserves (dinv S R) f"
  unfolding preserves_def using inv_quiet tracksD by metis

lemma inv_erase_frame:
  assumes "tracks (erase_frame r) f" and "Seen q \<in> R" and "same_ids q r" and "past_grace (rq_state q)"
  shows "preserves (dinv S R) f"
  unfolding preserves_def
proof (intro allI impI)
  fix s assume i: "dinv S R s"
  obtain p where "tget (requests s) (rq_id r) = Some p" "edge\<^sup>*\<^sup>* (rq_state q) (rq_state p)"
    using dinvD(2) [OF i assms(2)] assms(3) by (auto simp: same_ids_def)
  with past_grace_edges assms(4) have "tget (requests s) (rq_id r) = Some p \<and> past_grace (rq_state p)" by blast
  with inv_quiet [OF tracksD [OF assms(1)] i] show "dinv S R (snd (f s))" by metis
qed

section \<open>Writes\<close>

lemma dinv_faults [simp]: "dinv S R (s\<lparr>faults := os\<rparr>) = dinv S R s"
  using inv_quiet [of "\<lambda>_. False" s "s\<lparr>faults := os\<rparr>"] inv_quiet [of "\<lambda>_. False" "s\<lparr>faults := os\<rparr>" s]
  by (auto simp: quiet_but_def)

lemma blind_inv [simp, intro]: "blind (dinv S R)"
  by (simp add: blind_def)

lemma preserves_inv_read [wp]: "preserves (dinv S R) (db_read e f)"
  by (rule preserves_db_read) simp

text \<open>Saving a request that moves along an edge, under the identity of a known one. Entering the
  purge needs the rows of the participants, leaving it their acknowledgements.\<close>

definition warrant :: "fact set \<Rightarrow> request \<Rightarrow> rstate \<Rightarrow> rstate \<Rightarrow> bool" where
  "warrant R r a b \<longleftrightarrow> moves a b \<and> (a = StateLocked \<and> b = StatePurging \<longrightarrow> Rows r \<in> R) \<and>
     (a = StatePurging \<and> b = StatePurged \<longrightarrow> Acks r \<in> R)"

lemma warrant_rows:
  assumes "warrant R r (rq_state q) (rq_state r')" and "rows_ok S s q" and "dinv S R s"
    and "same_ids r q" and "same_ids r r'"
  shows "rows_ok S s r'"
proof -
  have "has_rows S s q = has_rows S s r'" "all_acked S s q = all_acked S s r'"
    "has_rows S s r = has_rows S s r'" "all_acked S s r = all_acked S s r'"
    using assms(4,5) same_ids_rows by blast+
  moreover have "Rows r \<in> R \<Longrightarrow> has_rows S s r" "Acks r \<in> R \<Longrightarrow> all_acked S s r"
    using dinvD(2) [OF assms(3)] holds.simps(2,3) by blast+
  moreover have "all_acked S s r \<Longrightarrow> has_rows S s r" by (auto simp: has_rows_def all_acked_def)
  ultimately show ?thesis
    using assms(1,2) by (auto simp: warrant_def moves_def rows_ok_def)
qed

lemma holds_save:
  assumes "holds S s f" and "tget (requests s) (rq_id r') = Some q" and "same_ids q r'"
    and "moves (rq_state q) (rq_state r')" and "requests t = tput (rq_id r') r' (requests s)" and "services t = services s"
  shows "holds S t f"
proof (cases f)
  case (Seen r)
  with assms show ?thesis
    by (auto simp: same_ids_def intro: moves_edges)
qed (use assms(1,6) in \<open>simp_all add: has_rows_def all_acked_def\<close>)

lemma save_step:
  assumes "dinv S R s" and "Seen r \<in> R" and "same_ids r r'" and "req_ok S r'"
    and "warrant R r from (rq_state r')"
    and "tget (requests s) (rq_id r') = Some q" and "rq_state q = from"
    and "releases r' from \<longrightarrow> tget (markers s) (rq_user r') = Some (rq_id r')"
  shows "dinv S R (s\<lparr>requests := tput (rq_id r') r' (requests s),
      markers := (if releases r' from then tdel (rq_user r') (markers s) else markers s)\<rparr>)"
    (is "dinv S R ?t")
proof -
  have di: "del_inv S s" using assms(1) by (rule dinvD)
  have mv: "moves from (rq_state r')" using assms(5) by (simp add: warrant_def)
  have ids: "same_ids r q" using dinvD(2) [OF assms(1,2)] assms(3,6) by (auto simp: same_ids_def)
  then have user: "rq_user q = rq_user r'" and ids': "same_ids q r'" using assms(3) by (auto simp: same_ids_def)
  note mk = del_inv_marker [OF di]
  have marks: "tget (markers ?t) u = Some i \<longleftrightarrow>
      (\<exists>r. tget (requests ?t) i = Some r \<and> rq_user r = u \<and> open_state (rq_state r))" for u i
  proof (cases "releases r' from")
    case True
    then have own: "tget (markers s) (rq_user r') = Some (rq_id r')" and cl: "\<not> open_state (rq_state r')"
      using assms(8) by (auto simp: releases_def)
    show ?thesis
    proof (cases "u = rq_user r'")
      case u: True
      have "i = rq_id r'" if "tget (requests s) i = Some r" "rq_user r = u" "open_state (rq_state r)" for r
        using own u that mk [of u i] by auto
      with True u cl show ?thesis by auto
    next
      case False
      with True user cl assms(6) show ?thesis by (auto simp: mk)
    qed
  next
    case False
    then have "open_state from = open_state (rq_state r')"
      using moves_open [OF mv] by (auto simp: releases_def)
    with False user assms(6,7) show ?thesis by (auto simp: mk)
  qed
  have rows: "rows_ok S ?t x = rows_ok S s x" for x by (simp add: rows_ok_def has_rows_def all_acked_def)
  have "rows_ok S s r'"
    using warrant_rows [OF _ _ assms(1) ids assms(3)] assms(5,7) del_inv_req [OF di assms(6)] by blast
  then have reqs: "rq_id x = i \<and> req_ok S x \<and> rows_ok S ?t x" if "tget (requests ?t) i = Some x" for i x
    using that del_inv_req [OF di, of i x] assms(4) unfolding rows by (auto split: if_splits)
  have erase: "erase_ok ?t"
    unfolding erase_ok_def
  proof (intro ballI impI)
    fix m assume "m \<in> set (published ?t)" "msg_type m = TypeErase"
    then obtain x where x: "tget (requests s) (msg_request m) = Some x" "past_grace (rq_state x)"
      using del_inv_erase [OF di] by (auto simp: erase_ok_def)
    have "past_grace (rq_state r')" if "msg_request m = rq_id r'"
      using past_grace_edges [OF moves_edges [OF rtranclp.rtrancl_refl mv]] x that assms(6,7) by simp
    with x show "\<exists>q. tget (requests ?t) (msg_request m) = Some q \<and> past_grace (rq_state q)" by simp
  qed
  have "tkeys (requests ?t) \<and> tkeys (markers ?t) \<and> tkeys (services ?t)"
    using del_inv_tables [OF di] by simp
  moreover have "tget (services ?t) k = Some st \<Longrightarrow> k = (ss_request st, ss_service st)" for k st
    using del_inv_service [OF di] by simp
  ultimately have "del_inv S ?t" unfolding del_inv_def using marks reqs erase by blast
  moreover have "holds S ?t f" if "f \<in> R" for f
    using holds_save [OF dinvD(2) [OF assms(1) that] assms(6) ids'] mv assms(7) by simp
  ultimately show ?thesis by (simp add: dinv_def)
qed

lemma preserves_save:
  assumes "Seen r \<in> R" and "same_ids r r'" and "req_ok S r'" and "warrant R r from (rq_state r')"
  shows "preserves (dinv S R) (del_save r' from)"
  unfolding del_save_def
proof (rule preserves_db_cond)
  fix s assume i: "dinv S R s" and c: "(case tget (requests s) (rq_id r') of None \<Rightarrow> False | Some q \<Rightarrow> rq_state q = from) \<and>
      (releases r' from \<longrightarrow> tget (markers s) (rq_user r') = Some (rq_id r'))"
  then obtain q where q: "tget (requests s) (rq_id r') = Some q" "rq_state q = from" by (auto split: option.splits)
  with save_step [OF i assms q] c show "dinv S R (s\<lparr>requests := tput (rq_id r') r' (requests s),
      markers := (if releases r' from then tdel (rq_user r') (markers s) else markers s)\<rparr>)" by blast
qed (simp_all add: blind_def)

lemma preserves_del_create:
  assumes "req_ok S r" and "rq_state r = StateAwaitingConfirmation"
  shows "preserves (dinv S R) (del_create r)"
  unfolding del_create_def
proof (rule preserves_db_cond)
  fix s assume i: "dinv S R s" and c: "tget (markers s) (rq_user r) = None \<and> tget (requests s) (rq_id r) = None"
  let ?t = "s\<lparr>markers := tput (rq_user r) (rq_id r) (markers s), requests := tput (rq_id r) r (requests s)\<rparr>"
  have di: "del_inv S s" using i by (rule dinvD)
  note mk = del_inv_marker [OF di]
  have op: "open_state (rq_state r)" using assms(2) by (simp add: open_state_def)
  have none: "\<not> (\<exists>q. tget (requests s) j = Some q \<and> rq_user q = rq_user r \<and> open_state (rq_state q))" for j
    using c mk [of "rq_user r" j] by auto
  have marks: "tget (markers ?t) u = Some j \<longleftrightarrow>
      (\<exists>q. tget (requests ?t) j = Some q \<and> rq_user q = u \<and> open_state (rq_state q))" for u j
    using none [of j] c op by (auto simp: mk)
  have rows: "rows_ok S ?t x = rows_ok S s x" for x by (simp add: rows_ok_def has_rows_def all_acked_def)
  have reqs: "rq_id q = j \<and> req_ok S q \<and> rows_ok S ?t q" if "tget (requests ?t) j = Some q" for j q
    using that del_inv_req [OF di, of j q] assms unfolding rows by (auto simp: rows_ok_def split: if_splits)
  have "\<exists>q. tget (requests ?t) k = Some q \<and> past_grace (rq_state q)"
    if "\<exists>q. tget (requests s) k = Some q \<and> past_grace (rq_state q)" for k
    using that c by auto
  then have erase: "erase_ok ?t" using del_inv_erase [OF di] unfolding erase_ok_def by simp
  have "tkeys (requests ?t) \<and> tkeys (markers ?t) \<and> tkeys (services ?t)"
    using del_inv_tables [OF di] by simp
  moreover have "tget (services ?t) k = Some st \<Longrightarrow> k = (ss_request st, ss_service st)" for k st
    using del_inv_service [OF di] by simp
  ultimately have "del_inv S ?t" unfolding del_inv_def using marks reqs erase by blast
  moreover have "holds S ?t f" if "f \<in> R" for f
    using dinvD(2) [OF i that] c by (cases f) (auto simp: has_rows_def all_acked_def)
  ultimately show "dinv S R ?t" by (simp add: dinv_def)
qed (simp_all add: blind_def)

text \<open>A write to the rows of the participants: rows stay, and an acknowledgement stays.\<close>

lemma inv_services:
  assumes "dinv S R s" and "k = (ss_request st, ss_service st)"
    and "\<And>old. tget (services s) k = Some old \<Longrightarrow> ss_status old \<noteq> ServiceAcked"
  shows "dinv S R (services_update (tput k st) s)" (is "dinv S R ?t")
proof -
  have di: "del_inv S s" using assms(1) by (rule dinvD)
  have rows: "has_rows S s r \<Longrightarrow> has_rows S ?t r" "all_acked S s r \<Longrightarrow> all_acked S ?t r" for r
    using assms(3) by (auto simp: has_rows_def all_acked_def)
  then have "rows_ok S s r \<Longrightarrow> rows_ok S ?t r" for r by (simp add: rows_ok_def)
  then have reqs: "rq_id q = j \<and> req_ok S q \<and> rows_ok S ?t q" if "tget (requests ?t) j = Some q" for j q
    using that del_inv_req [OF di, of j q] by simp
  have "tget (services ?t) j = Some x \<Longrightarrow> j = (ss_request x, ss_service x)" for j x
    using del_inv_service [OF di, of j x] assms(2) by (auto split: if_splits)
  moreover have "erase_ok ?t" using del_inv_erase [OF di] by (simp add: erase_ok_def)
  moreover have "tkeys (requests ?t) \<and> tkeys (markers ?t) \<and> tkeys (services ?t)"
    using del_inv_tables [OF di] by simp
  ultimately have "del_inv S ?t"
    using reqs del_inv_marker [OF di] unfolding del_inv_def by simp
  moreover have "holds S ?t f" if "f \<in> R" for f
    using dinvD(2) [OF assms(1) that] rows by (cases f) auto
  ultimately show ?thesis by (simp add: dinv_def)
qed

lemma preserves_save_service:
  assumes "from \<noteq> ServiceAcked"
  shows "preserves (dinv S R) (del_save_service st from)"
  unfolding del_save_service_def
  by (rule preserves_db_cond) (use assms in \<open>auto simp: blind_def intro!: inv_services split: option.splits\<close>)

lemmas save_service_wp [wp] = preserves_save_service [of ServiceDispatched, simplified]
  preserves_save_service [of ServiceBlocked, simplified]

definition put_row :: "service_status \<Rightarrow> ('w, unit) del_prog" where
  "put_row st = bindE (tryE (db_cond DInfra ErrStateChanged
      (\<lambda>s. tget (services s) (ss_request st, ss_service st) = None)
      (services_update (tput (ss_request st, ss_service st) st)))) (\<lambda>w. case w of
    Inl e \<Rightarrow> if e = ErrStateChanged then ret () else throw e
  | Inr _ \<Rightarrow> ret ())"

lemma del_put_services_row: "del_put_services rows = forE rows put_row"
  unfolding del_put_services_def put_row_def [abs_def] ..

lemma preserves_put_row [wp]: "preserves (dinv S R) (put_row st)"
proof -
  have "preserves (dinv S R) (db_cond DInfra ErrStateChanged
      (\<lambda>s. tget (services s) (ss_request st, ss_service st) = None)
      (services_update (tput (ss_request st, ss_service st) st)))"
    by (rule preserves_db_cond) (auto simp: blind_def intro!: inv_services)
  then show ?thesis unfolding put_row_def by (auto split: sum.split intro!: wp)
qed

lemma preserves_put_services [wp]: "preserves (dinv S R) (del_put_services rows)"
  unfolding del_put_services_row by (intro wp)

lemma put_row_stored:
  assumes "put_row st s = (Inr (), t)"
  shows "tget (services t) (ss_request st, ss_service st) \<noteq> None"
    and "tget (services s) k \<noteq> None \<Longrightarrow> tget (services t) k \<noteq> None"
proof -
  let ?k = "(ss_request st, ss_service st)"
  let ?c = "\<lambda>s. tget (services s) ?k = None" and ?u = "services_update (tput ?k st)"
  obtain os where "snd (db_cond DInfra ErrStateChanged ?c ?u s) = s\<lparr>faults := os\<rparr> \<and>
        (fst (db_cond DInfra ErrStateChanged ?c ?u s) = Inl DInfra \<or>
         fst (db_cond DInfra ErrStateChanged ?c ?u s) = Inl ErrStateChanged \<and> \<not> ?c s) \<or>
      snd (db_cond DInfra ErrStateChanged ?c ?u s) = ?u (s\<lparr>faults := os\<rparr>)"
    using db_cond_cases [of DInfra ErrStateChanged ?c ?u s] by blast
  with assms have "t = s\<lparr>faults := os\<rparr> \<and> \<not> ?c s \<or> t = ?u (s\<lparr>faults := os\<rparr>)"
    by (auto simp: put_row_def bindE_run split: sum.splits if_splits)
  then show "tget (services t) ?k \<noteq> None" and "tget (services s) k \<noteq> None \<Longrightarrow> tget (services t) k \<noteq> None"
    by auto
qed

lemma put_services_stored:
  "del_put_services rows s = (Inr (), t) \<Longrightarrow>
   (\<forall>k. tget (services s) k \<noteq> None \<longrightarrow> tget (services t) k \<noteq> None) \<and>
   (\<forall>st \<in> set rows. tget (services t) (ss_request st, ss_service st) \<noteq> None)"
  unfolding del_put_services_row
proof (induction rows arbitrary: s)
  case (Cons st rows)
  then obtain u where u: "put_row st s = (Inr (), u)" "forE rows put_row u = (Inr (), t)"
    by (auto elim: bindE_InrE)
  from put_row_stored [OF u(1)] Cons.IH [OF u(2)] show ?case by auto
qed simp

text \<open>What a read, a stored request, written rows and a finished reconciliation add.\<close>

lemma preserves_learn:
  assumes "preserves (dinv S R) f" and "preserves (dinv S (insert x R)) g"
    and "\<And>s t. dinv S R s \<Longrightarrow> f s = (Inr y, t) \<Longrightarrow> holds S t x" and "dinv S R s"
  shows "f s = (Inr y, t) \<Longrightarrow> dinv S R (snd (g t))"
proof -
  assume run: "f s = (Inr y, t)"
  have "dinv S R t" using preservesD [OF assms(1,4)] run by simp
  with assms(3) [OF assms(4) run] have "dinv S (insert x R) t" by (simp add: dinv_def)
  from preservesD [OF assms(2) this] show ?thesis by (simp add: dinv_def)
qed

lemma preserves_bind_learn:
  assumes "preserves (dinv S R) f" and "\<And>y. P y \<Longrightarrow> preserves (dinv S (insert (x y) R)) (g y)"
    and "\<And>y. \<not> P y \<Longrightarrow> preserves (dinv S R) (g y)"
    and "\<And>s t y. dinv S R s \<Longrightarrow> f s = (Inr y, t) \<Longrightarrow> P y \<Longrightarrow> holds S t (x y)"
  shows "preserves (dinv S R) (bindE f g)"
  unfolding preserves_def
proof (intro allI impI)
  fix s assume i: "dinv S R s"
  obtain r t where run: "f s = (r, t)" by (cases "f s")
  show "dinv S R (snd (bindE f g s))"
  proof (cases r)
    case (Inl e)
    with run preservesD [OF assms(1) i] show ?thesis by simp
  next
    case (Inr y)
    show ?thesis
    proof (cases "P y")
      case True
      with preserves_learn [OF assms(1) assms(2) [OF True] _ i] assms(4) run Inr show ?thesis by simp
    next
      case False
      with preservesD [OF assms(1) i] preservesD [OF assms(3) [OF False], of t] run Inr show ?thesis by simp
    qed
  qed
qed

lemma del_get_InrD:
  assumes "del_get i s = (Inr r, t)"
  shows "tget (requests s) i = Some r \<and> (\<exists>os. t = s\<lparr>faults := os\<rparr>)"
proof -
  let ?f = "\<lambda>s. tget (requests s) i"
  obtain os where "snd (db_read DInfra ?f s) = s\<lparr>faults := os\<rparr>"
    "fst (db_read DInfra ?f s) = Inr (?f s) \<or> fst (db_read DInfra ?f s) = Inl DInfra"
    using db_read_cases [of DInfra ?f s] by blast
  with assms show ?thesis
    by (auto simp: del_get_def bindE_run split: prod.splits sum.splits option.splits)
qed

lemma del_get_seen:
  assumes "dinv S R s" and "del_get i s = (Inr r, t)"
  shows "holds S t (Seen r)" and "req_ok S r" and "rq_id r = i"
  using del_get_InrD [OF assms(2)] del_inv_req [OF dinvD(1) [OF assms(1)]] by auto

lemma preserves_get [wp]: "preserves (dinv S R) (del_get i)"
  unfolding del_get_def by (auto split: option.split intro!: wp)

lemma yields_get: "yields (dinv S R) (del_get i) (\<lambda>r. req_ok S r \<and> rq_id r = i)"
  unfolding yields_def using del_get_seen by blast

lemma preserves_bind_get:
  assumes "\<And>r. req_ok S r \<Longrightarrow> rq_id r = i \<Longrightarrow> preserves (dinv S (insert (Seen r) R)) (g r)"
  shows "preserves (dinv S R) (bindE (del_get i) g)"
  unfolding preserves_def
proof (intro allI impI)
  fix s assume di: "dinv S R s"
  show "dinv S R (snd (bindE (del_get i) g s))"
  proof (cases "del_get i s")
    case (Pair q t)
    have t: "dinv S R t" using preservesD [OF preserves_get di, of i] Pair by simp
    show ?thesis
    proof (cases q)
      case (Inl e)
      with Pair t show ?thesis by simp
    next
      case (Inr r)
      note seen = del_get_seen [OF di, of i r t]
      have "dinv S (insert (Seen r) R) t" using t seen Pair Inr by (simp add: dinv_def)
      from preservesD [OF assms this] seen Pair Inr show ?thesis by (simp add: dinv_def)
    qed
  qed
qed

lemma bind_try: "bindE (tryE f) g = (\<lambda>s. case f s of (Inl e, t) \<Rightarrow> g (Inl e) t | (Inr x, t) \<Rightarrow> g (Inr x) t)"
  by (auto simp: fun_eq_iff bindE_run split: prod.split sum.split)

lemma preserves_bind_try_get:
  fixes g :: "del_err + request \<Rightarrow> ('w, 'a) del_prog"
  assumes "\<And>e. preserves (dinv S R) (g (Inl e))"
    and "\<And>r. req_ok S r \<Longrightarrow> rq_id r = i \<Longrightarrow> preserves (dinv S (insert (Seen r) R)) (g (Inr r))"
  shows "preserves (dinv S R) (bindE (tryE (del_get i)) g)"
  unfolding preserves_def
proof (intro allI impI)
  fix s assume di: "dinv S R s"
  show "dinv S R (snd (bindE (tryE (del_get i)) g s))"
  proof (cases "del_get i s")
    case (Pair q t)
    show ?thesis
    proof (cases q)
      case (Inl e)
      from preservesD [OF preserves_get di, of i] Pair Inl preservesD [OF assms(1), of t e]
      show ?thesis by (simp add: bind_try)
    next
      case (Inr r)
      have "preserves (dinv S R) (bindE (del_get i) (\<lambda>r. g (Inr r)))"
        by (rule preserves_bind_get) (rule assms(2))
      from preservesD [OF this di] Pair Inr show ?thesis by (simp add: bind_try)
    qed
  qed
qed

declare warrant_def [simp]

section \<open>The requests the operations write\<close>

lemma same_ids_writes [simp]:
  "same_ids q (set_due n r) = same_ids q r" "same_ids q (clear_due r) = same_ids q r"
  "same_ids q (expire n r) = same_ids q r" "same_ids q (schedule_next n r) = same_ids q r"
  "same_ids q (link_sent k r) = same_ids q r" "same_ids q (confirmed n r) = same_ids q r"
  "same_ids q (cancelled n r) = same_ids q r" "same_ids q (blocked_by n bs r) = same_ids q r"
  "same_ids q (locked n ws r) = same_ids q r" "same_ids q (purged n r) = same_ids q r"
  "same_ids q (held n a on r) = same_ids q r"
  "same_ids q (r\<lparr>rq_state := st\<rparr>) = same_ids q r" "same_ids q (r\<lparr>rq_updated_at := t\<rparr>) = same_ids q r"
  "same_ids q (r\<lparr>rq_cancel_hashes := hs\<rparr>) = same_ids q r" "same_ids q (r\<lparr>rq_lock_applied := b\<rparr>) = same_ids q r"
  by (cases k; simp add: same_ids_def set_due_def clear_due_def expire_def schedule_next_def confirmed_def
      cancelled_def blocked_by_def locked_def purged_def held_def Let_def)+

lemma same_ids_sym: "same_ids a b = same_ids b a"
  by (auto simp: same_ids_def)

lemma same_ids_left [simp]:
  "same_ids (set_due n r) q = same_ids r q" "same_ids (clear_due r) q = same_ids r q"
  "same_ids (schedule_next n r) q = same_ids r q" "same_ids (confirmed n r) q = same_ids r q"
  "same_ids (cancelled n r) q = same_ids r q" "same_ids (r\<lparr>rq_updated_at := t\<rparr>) q = same_ids r q"
  "same_ids (r\<lparr>rq_lock_applied := b\<rparr>) q = same_ids r q"
  by (simp_all add: same_ids_sym [of _ q])

lemma state_writes [simp]:
  "rq_state (set_due n r) = rq_state r" "rq_state (clear_due r) = rq_state r"
  "rq_state (expire n r) = StateExpired" "rq_state (schedule_next n r) = rq_state r"
  "rq_state (link_sent k r) = rq_state r" "rq_state (confirmed n r) = StatePending"
  "rq_state (cancelled n r) = StateCancelled" "rq_state (blocked_by n bs r) = StateBlocked"
  "rq_state (locked n ws r) = StateLocked" "rq_state (purged n r) = StatePurged"
  "rq_state (held n a on r) = rq_state r"
  by (cases k; simp add: set_due_def clear_due_def expire_def schedule_next_def confirmed_def
      cancelled_def blocked_by_def locked_def purged_def held_def Let_def)+

lemma unix_grace: "unix (n + GracePeriod) = unix n + 604800"
  by (simp add: unix_def GracePeriod_def hour_def second_def)

lemmas ok_defs = req_ok_def timely_def due_ok_def

lemma timely_due [simp]: "timely (set_due n r) = timely r" "timely (clear_due r) = timely r"
  by (simp_all add: timely_def set_due_def clear_due_def)

lemma due_ok_set [simp]: "due_ok S (set_due n r)"
  by (simp add: due_ok_def set_due_def ts_def)

lemma req_ok_set_due: "timely r \<Longrightarrow> req_ok S (set_due n r)"
  by (simp add: req_ok_def)

lemma req_ok_flags [simp]:
  "req_ok S (r\<lparr>rq_updated_at := t\<rparr>) = req_ok S r" "req_ok S (r\<lparr>rq_cancel_hashes := hs\<rparr>) = req_ok S r"
  "req_ok S (r\<lparr>rq_lock_applied := b\<rparr>) = req_ok S r" "req_ok S (r\<lparr>rq_legal_hold := h\<rparr>) = req_ok S r"
  "req_ok S (r\<lparr>rq_legal_hold_by := a\<rparr>) = req_ok S r"
  by (simp_all add: ok_defs)

lemma timely_flags [simp]:
  "timely (r\<lparr>rq_updated_at := t\<rparr>) = timely r" "timely (r\<lparr>rq_cancel_hashes := hs\<rparr>) = timely r"
  "timely (r\<lparr>rq_lock_applied := b\<rparr>) = timely r" "timely (link_sent k r) = timely r"
  "timely (r\<lparr>rq_legal_hold := h\<rparr>) = timely r" "timely (r\<lparr>rq_legal_hold_by := a\<rparr>) = timely r"
  by (cases k; simp add: timely_def)+

lemma req_okD: "req_ok S r \<Longrightarrow> timely r"
  by (simp add: req_ok_def)

lemma req_ok_expire: "req_ok S (expire n r)"
  by (simp add: ok_defs expire_def clear_due_def)

lemma req_ok_new: "req_ok S (new_request i u sc svc h n)"
  by (simp add: ok_defs new_request_def set_due_def ts_def)

lemma req_ok_confirmed: "req_ok S (confirmed n r)"
  by (simp add: ok_defs confirmed_def set_due_def ts_def unix_grace)

lemma req_ok_schedule:
  "timely r \<Longrightarrow> rq_state r \<in> {StatePending, StateBlocked} \<Longrightarrow> req_ok S (schedule_next n r)"
  by (auto simp: schedule_next_def req_ok_set_due) (auto simp: req_ok_def due_ok_def clear_due_def timely_def)

lemma req_ok_cancelled:
  "timely r \<Longrightarrow> rq_state r \<in> {StatePending, StateBlocked} \<Longrightarrow> req_ok S (cancelled n r)"
  by (auto simp: ok_defs cancelled_def set_due_def ts_def)

lemma req_ok_clear_cancelled: "timely r \<Longrightarrow> rq_state r = StateCancelled \<Longrightarrow> req_ok S (clear_due r)"
  by (auto simp: req_ok_def due_ok_def) (auto simp: clear_due_def)

lemma req_ok_blocked: "timely r \<Longrightarrow> rq_state r = StatePending \<Longrightarrow> req_ok S (blocked_by n bs r)"
  by (auto simp: ok_defs blocked_by_def set_due_def ts_def)

lemma req_ok_locked:
  assumes "timely r" and "rq_state r = StatePending" and "\<not> n < parse_time (rq_grace_until r)"
  shows "req_ok S (locked n ws r)"
proof -
  obtain c where c: "rq_confirmed_at r = Some c" "rq_grace_until r = Some (c + 604800)"
    using assms(1,2) by (auto simp: timely_def)
  then have "c + 604800 \<le> unix n" using assms(3) by (simp add: parse_time_def unix_def)
  with c show ?thesis by (simp add: ok_defs locked_def set_due_def ts_def)
qed

lemma req_ok_purging:
  assumes "timely r" and "rq_state r = StateLocked" and "b = (sv_purger S \<noteq> None \<or> ps \<noteq> [])"
  shows "req_ok S (if b then set_due n (r\<lparr>rq_state := StatePurging, rq_updated_at := t\<rparr>)
    else clear_due (r\<lparr>rq_state := StatePurging, rq_updated_at := t\<rparr>))"
  using assms by (auto simp: req_ok_def due_ok_def clear_due_def timely_def set_due_def ts_def)

lemma req_ok_stalled: "timely r \<Longrightarrow> rq_state r = StatePurging \<Longrightarrow>
    req_ok S (clear_due (r\<lparr>rq_state := StateStalled, rq_updated_at := t\<rparr>))"
  by (auto simp: req_ok_def due_ok_def clear_due_def timely_def)

lemma req_ok_resumed: "timely r \<Longrightarrow> rq_state r = StateStalled \<Longrightarrow>
    req_ok S (set_due n (r\<lparr>rq_state := StatePurging, rq_updated_at := t\<rparr>))"
  by (auto simp: req_ok_def due_ok_def timely_def set_due_def ts_def)

lemma req_ok_purged: "timely r \<Longrightarrow> rq_state r = StatePurging \<Longrightarrow> req_ok S (purged n r)"
  by (auto simp: ok_defs purged_def clear_due_def)

lemma req_ok_held: "req_ok S r \<Longrightarrow> req_ok S (held n a on r)"
  by (auto simp: held_def Let_def req_okD intro!: req_ok_set_due)

section \<open>The contract of the collaborators\<close>

lemma frame_world: "tracks del_frame (in_world f)"
  by (auto simp: tracks_def in_world_def quiet_but_def split: prod.split)

lemma frame_read: "tracks del_frame (db_read e f)"
  by (rule tracks_db_read) (simp add: quiet_but_def)

lemma frame_write:
  "(\<And>s. requests (u s) = requests s \<and> markers (u s) = markers s \<and> services (u s) = services s \<and>
     published (u s) = published s) \<Longrightarrow>
   tracks del_frame (db_write e u)"
  by (rule tracks_db_write) (simp_all add: quiet_but_def)

lemma frame_mail: "tracks del_frame (send_mail m)"
  unfolding send_mail_def by (rule frame_write) simp

lemma frame_user: "tracks del_frame (del_user u)"
  unfolding del_user_def user_get_by_id_def
  by (intro quiet.tracks_mapErr quiet.tracks_bindE frame_read)
    (auto split: option.split intro!: quiet.tracks_intros)

lemma frame_generate: "tracks del_frame (generate_mfa_token sha e)"
  by (auto simp: tracks_def generate_mfa_token_run Let_def quiet_but_def split: option.split)

lemma frame_new_uuid: "tracks del_frame new_uuid"
  by (simp add: tracks_def quiet_but_def)

lemma frame_now: "tracks del_frame now"
  by (simp add: tracks_def quiet_but_def)

lemmas inv_frames [wp] = frame_mail [THEN inv_del_frame] frame_user [THEN inv_del_frame]
  frame_generate [THEN inv_del_frame] frame_new_uuid [THEN inv_del_frame] frame_world [THEN inv_del_frame]

text \<open>\<open>yields\<close> from any state, for the request a method leaves behind.\<close>

abbreviation leaves :: "('s, 'e, 'a) prog \<Rightarrow> ('a \<Rightarrow> bool) \<Rightarrow> bool" where
  "leaves f V \<equiv> yields (\<lambda>_. True) f V"

lemma leaves_bind: "(\<And>x. leaves (g x) V) \<Longrightarrow> leaves (bindE f g) V"
  unfolding yields_def by (blast elim: bindE_InrE)

lemma leaves_if: "(b \<Longrightarrow> leaves f V) \<Longrightarrow> (\<not> b \<Longrightarrow> leaves g V) \<Longrightarrow> leaves (if b then f else g) V"
  by simp

lemma preserves_bind_leaves:
  assumes "preserves I f" and "leaves f V" and "\<And>x. V x \<Longrightarrow> preserves I (g x)"
  shows "preserves I (bindE f g)"
proof (rule preserves_bindE_val [OF assms(1) _ assms(3)])
  show "yields I f V" using assms(2) by (simp add: yields_def)
qed

definition next_of :: "'w svc \<Rightarrow> request \<Rightarrow> request \<times> (del_err + unit) \<Rightarrow> bool" where
  "next_of S r p \<longleftrightarrow> req_ok S (fst p) \<and> rq_state (fst p) = rq_state r \<and> same_ids r (fst p)"

locale deletion_service =
  fixes S :: "'w svc"
  assumes lock_frame: "tracks del_frame (sv_lock S r)"
    and unlock_frame: "tracks del_frame (sv_unlock S r)"
    and erase_frame: "tracks (erase_frame r) (sv_erase S r svcs)"
    and purger_frame: "sv_purger S = Some f \<Longrightarrow> tracks del_frame (f r)"
    and unlinker_frame: "sv_unlinker S = Some f \<Longrightarrow> tracks del_frame (f r)"
begin

lemmas calls [wp] = lock_frame [THEN inv_del_frame] unlock_frame [THEN inv_del_frame]

lemma leaves_send_cancel_link:
  "req_ok S r \<Longrightarrow> rq_state r \<in> {StatePending, StateBlocked} \<Longrightarrow>
   leaves (send_cancel_link S r k) (next_of S r)"
  unfolding send_cancel_link_def Let_def
  by (auto simp: next_of_def req_okD split: sum.split prod.split intro!: leaves_bind yields_ret req_ok_schedule)

lemma preserves_send_cancel_link:
  assumes "Seen q \<in> R" and "same_ids q r" and "req_ok S r" and "rq_state r \<in> {StatePending, StateBlocked}"
  shows "preserves (dinv S R) (send_cancel_link S r k)"
  unfolding send_cancel_link_def Let_def
  using assms by (auto simp: req_okD split: sum.split prod.split intro!: wp preserves_save [OF assms(1)] req_ok_schedule)

lemma leaves_lost_save: "req_ok S r \<Longrightarrow> leaves (lost_save S r e) (next_of S r)"
  unfolding lost_save_def
  by (auto simp: next_of_def split: sum.split intro!: leaves_bind yields_ret leaves_if)

lemma leaves_apply_lock:
  "req_ok S r \<Longrightarrow> rq_state r = StatePending \<Longrightarrow> leaves (apply_lock S r) (next_of S r)"
  unfolding apply_lock_def Let_def
  by (auto simp: next_of_def req_okD split: sum.split prod.split
      intro!: leaves_bind yields_ret req_ok_schedule leaves_if yields_weaken [OF leaves_lost_save])

lemma preserves_undo_lock:
  assumes "Seen q \<in> R" and "same_ids q r" and "req_ok S r" and "rq_state r = StateCancelled"
  shows "preserves (dinv S R) (undo_lock S r)"
  unfolding undo_lock_def
  using assms by (auto simp: req_okD split: sum.split intro!: wp preserves_save [OF assms(1)] req_ok_set_due)

lemma preserves_lost_save [wp]: "preserves (dinv S R) (lost_save S r e)"
  unfolding lost_save_def
  by (rule preserves_bind_try_get) (auto intro!: wp preserves_undo_lock)

lemma preserves_apply_lock:
  assumes "Seen q \<in> R" and "same_ids q r" and "req_ok S r" and "rq_state r = StatePending"
  shows "preserves (dinv S R) (apply_lock S r)"
  unfolding apply_lock_def Let_def
  using assms
  by (auto simp: req_okD split: sum.split intro!: wp preserves_save [OF assms(1)] req_ok_schedule)

lemma preserves_settle:
  "preserves I f \<Longrightarrow> preserves I (settle f)"
  unfolding settle_def by (auto split: sum.split prod.split intro!: wp)

lemma preserves_confirm: "preserves (dinv S R) (confirm S i tok)"
proof -
  have tail: "preserves (dinv S (insert (Seen r) R)) (bindE (apply_lock S (confirmed n r)) (\<lambda>(r2, _).
      bindE (send_cancel_link S r2 LinkScheduled) (\<lambda>(r3, _). ret r3)))" for r n
  proof (rule preserves_bind_leaves [OF preserves_apply_lock leaves_apply_lock])
    fix p assume p: "next_of S (confirmed n r) p"
    obtain r2 w where "p = (r2, w)" by (cases p)
    with p show "preserves (dinv S (insert (Seen r) R)) (case p of (r2, _) \<Rightarrow>
        bindE (send_cancel_link S r2 LinkScheduled) (\<lambda>(r3, _). ret r3))"
      by (auto simp: next_of_def same_ids_def confirmed_def set_due_def split: prod.split
          intro!: wp preserves_send_cancel_link [of r])
  qed (auto simp: req_ok_confirmed)
  show ?thesis
    unfolding confirm_def Let_def
    by (rule preserves_bind_try_get)
      (auto simp: req_ok_confirmed split: sum.split intro!: wp tail preserves_save)
qed

lemma preserves_finish_cancel:
  assumes "Seen q \<in> R" and "same_ids q r" and "req_ok S r" and "rq_state r = StateCancelled"
  shows "preserves (dinv S R) (finish_cancel S r)"
  unfolding finish_cancel_def Let_def
  using assms
  by (auto simp: req_okD split: sum.split intro!: wp preserves_save [OF assms(1)] req_ok_clear_cancelled)

lemma preserves_cancel_request:
  assumes "Seen q \<in> R" and "same_ids q r" and "req_ok S r"
  shows "preserves (dinv S R) (cancel_request S r)"
  unfolding cancel_request_def Let_def
  using assms
  by (auto simp: req_okD split: sum.split prod.split intro!: wp preserves_save [OF assms(1)]
      preserves_finish_cancel [OF assms(1)] req_ok_cancelled)

lemma preserves_cancel: "preserves (dinv S R) (cancel S i tok)"
  unfolding cancel_def by (rule preserves_bind_try_get) (auto intro!: wp preserves_cancel_request)

lemma preserves_support_cancel: "preserves (dinv S R) (support_cancel S i)"
  unfolding support_cancel_def by (rule preserves_bind_get) (auto intro!: preserves_cancel_request)

end

context deletion_service
begin

lemma preserves_get_open:
  assumes "\<And>r. req_ok S r \<Longrightarrow> preserves (dinv S (insert (Seen r) R)) (g r)"
  shows "preserves (dinv S R) (bindE (del_get_open uid) g)"
proof -
  have "bindE (del_get_open uid) g = bindE (db_read DInfra (\<lambda>s. tget (markers s) uid)) (\<lambda>q. case q of
      None \<Rightarrow> throw ErrReqNotFound | Some i \<Rightarrow> bindE (del_get i) g)"
    by (auto simp: del_get_open_def fun_eq_iff bindE_run split: prod.split sum.split option.split)
  moreover have "preserves (dinv S R) (bindE (del_get i) g)" for i
    by (rule preserves_bind_get) (rule assms)
  ultimately show ?thesis by (auto split: option.split intro!: wp)
qed

lemma preserves_expire_unconfirmed [wp]: "preserves (dinv S R) (expire_unconfirmed uid)"
  unfolding expire_unconfirmed_def
  by (rule preserves_get_open) (auto intro!: wp preserves_save req_ok_expire)

lemma preserves_store:
  "req_ok S r \<Longrightarrow> rq_state r = StateAwaitingConfirmation \<Longrightarrow> preserves (dinv S R) (store_request r)"
  unfolding store_request_def by (auto split: sum.split intro!: wp preserves_del_create)

lemma new_request_fields [simp]:
  "rq_id (new_request i u sc svc h n) = i" "rq_user (new_request i u sc svc h n) = u"
  "rq_state (new_request i u sc svc h n) = StateAwaitingConfirmation"
  by (simp_all add: new_request_def set_due_def)

text \<open>A stored request is known to whatever runs after.\<close>

lemma create_known: "del_create r s = (Inr (), t) \<Longrightarrow> holds S t (Seen r)"
proof -
  assume run: "del_create r s = (Inr (), t)"
  let ?c = "\<lambda>s. tget (markers s) (rq_user r) = None \<and> tget (requests s) (rq_id r) = None"
  let ?u = "\<lambda>s. s\<lparr>markers := tput (rq_user r) (rq_id r) (markers s), requests := tput (rq_id r) r (requests s)\<rparr>"
  obtain os where "t = ?u (s\<lparr>faults := os\<rparr>)"
    using db_cond_cases [of DInfra ErrOpenRequest ?c ?u s] run unfolding del_create_def by auto
  then show ?thesis by simp
qed

lemma store_known: "store_request r s = (Inr (), t) \<Longrightarrow> holds S t (Seen r)"
  using create_known [OF prod_eqI, of r]
  by (auto simp: store_request_def bindE_run split: prod.splits sum.splits if_splits dest: create_known)

lemma preserves_bind_store:
  assumes "req_ok S r" and "rq_state r = StateAwaitingConfirmation" and "preserves (dinv S (insert (Seen r) R)) g"
  shows "preserves (dinv S R) (bindE (store_request r) (\<lambda>_. g))"
  unfolding preserves_def
proof (intro allI impI)
  fix s assume i: "dinv S R s"
  obtain q t where run: "store_request r s = (q, t)" by (cases "store_request r s")
  have t: "dinv S R t" using preservesD [OF preserves_store [OF assms(1,2)] i] run by simp
  show "dinv S R (snd (bindE (store_request r) (\<lambda>_. g) s))"
  proof (cases q)
    case (Inl e)
    with run t show ?thesis by simp
  next
    case (Inr x)
    with run t store_known have "dinv S (insert (Seen r) R) t" by (auto simp: dinv_def)
    with assms(3) have "dinv S (insert (Seen r) R) (snd (g t))" by (rule preservesD)
    with run Inr show ?thesis by (simp add: dinv_def)
  qed
qed

lemma preserves_eligibility [wp]: "preserves (dinv S R) (eligibility S uid sc svc)"
  unfolding eligibility_def by (auto split: option.split prod.split intro!: wp)

lemma preserves_submit:
  "req_ok S r \<Longrightarrow> rq_state r = StateAwaitingConfirmation \<Longrightarrow> preserves (dinv S R) (submit_request u raw n r)"
  unfolding submit_request_def
  by (rule preserves_bind_store)
    (auto simp: open_state_def split: sum.split intro!: wp preserves_save [of r] req_ok_expire)

lemma preserves_open_request: "preserves (dinv S R) (open_request S uid sc svc)"
  unfolding open_request_def
  by (auto split: prod.split intro!: wp preserves_submit req_ok_new)

lemma preserves_redispatch [wp]: "preserves (dinv S R) (redispatch n sts nxt)"
proof (induction n sts nxt rule: redispatch.induct)
  case (1 n nxt)
  show ?case unfolding redispatch.simps by (intro wp)
next
  case (2 n st sts nxt)
  show ?case
    unfolding redispatch.simps Let_def
    by (rule wp, intro wp) (auto split: sum.split intro!: wp 2 [OF refl])
qed

lemma preserves_list_services [wp]: "preserves (dinv S R) (del_list_services i)"
  unfolding del_list_services_def by (intro wp)

text \<open>A reconciliation that reports the end found every row acknowledged.\<close>

lemma scan_all_acked:
  "scan_services n sts silent nxt = Some ([], None) \<Longrightarrow> silent = [] \<and> nxt = None \<and> (\<forall>st \<in> set sts. ss_status st = ServiceAcked)"
proof (induction sts arbitrary: silent nxt)
  case (Cons st sts)
  have some: "sooner nxt d \<noteq> None" for d by (simp add: sooner_def split: option.split)
  note IH = Cons.IH [of silent nxt] Cons.IH [of "silent @ [st]" nxt] and run = Cons.prems
  show ?case
  proof (cases "ss_status st")
    case ServiceDispatched
    have "scan_services n sts silent (sooner nxt d) \<noteq> Some ([], None)" for d
      using Cons.IH [of silent "sooner nxt d"] some [of d] by blast
    with ServiceDispatched run IH(2) show ?thesis
      by (cases "next_dispatch st") (simp_all split: if_splits)
  qed (use run IH(1) in simp_all)
qed simp

lemma reconcile_done:
  assumes "dinv S R s" and "Seen r \<in> R" and "rq_state r = StatePurging" and "reconcile S r n s = (Inr True, t)"
  shows "all_acked S t r"
proof -
  let ?rows = "tquery (\<lambda>k. fst k = rq_id r) (services s)"
  obtain os where rows: "snd (del_list_services (rq_id r) s) = s\<lparr>faults := os\<rparr>"
    "fst (del_list_services (rq_id r) s) = Inr ?rows \<or> fst (del_list_services (rq_id r) s) = Inl DInfra"
    unfolding del_list_services_def using db_read_cases [of DInfra "\<lambda>s. tquery (\<lambda>k. fst k = rq_id r) (services s)" s] by blast
  obtain sts u where l: "del_list_services (rq_id r) s = (Inr sts, u)"
    using assms(4) unfolding reconcile_def by (elim bindE_InrE) blast
  with rows have sts: "sts = ?rows" and u: "services u = services s" by auto
  from assms(4) l have "t = u \<and> scan_services n sts [] None = Some ([], None)"
    unfolding reconcile_def by (auto elim!: bindE_InrE split: option.splits prod.splits if_splits)
  then have acked: "\<forall>st \<in> set ?rows. ss_status st = ServiceAcked" and t: "services t = services s"
    using scan_all_acked sts u by blast+
  have di: "del_inv S s" using assms(1) by (rule dinvD)
  obtain p where p: "tget (requests s) (rq_id r) = Some p" "same_ids r p" "edge\<^sup>*\<^sup>* StatePurging (rq_state p)"
    using dinvD(2) [OF assms(1,2)] assms(3) by auto
  have "rq_state p \<in> {StatePurging, StateStalled, StatePurged}"
    using p(3) by (induction rule: rtranclp_induct) auto
  with del_inv_req [OF di p(1)] same_ids_rows [OF p(2)] have has: "has_rows S s r" by (auto simp: rows_ok_def)
  show ?thesis
    unfolding all_acked_def t
  proof
    fix x assume "x \<in> set (participants_for S r)"
    with has obtain st where st: "tget (services s) (rq_id r, x) = Some st" by (auto simp: has_rows_def)
    then have "st \<in> set ?rows" using del_inv_tables [OF di] by (auto simp: tquery_iff)
    with acked st show "\<exists>st. tget (services s) (rq_id r, x) = Some st \<and> ss_status st = ServiceAcked" by blast
  qed
qed

lemma preserves_reconcile:
  assumes "Seen r \<in> R" and "req_ok S r" and "rq_state r = StatePurging"
  shows "preserves (dinv S R) (reconcile S r n)"
proof -
  have [wp]: "preserves (dinv S R) (sv_erase S r svcs)" for svcs
    by (rule inv_erase_frame [OF erase_frame assms(1)]) (simp_all add: assms(3) past_grace_def)
  show ?thesis
    unfolding reconcile_def
    using assms(2,3)
    by (auto simp: req_okD split: option.split prod.split
        intro!: wp preserves_save [OF assms(1)] req_ok_stalled req_ok_set_due)
qed

lemma preserves_assess [wp]: "preserves (dinv S R) (assess S r)"
  unfolding assess_def by (auto split: option.split intro!: wp)

lemma preserves_end_of_grace:
  assumes "Seen q \<in> R" and "same_ids q r" and "req_ok S r" and "rq_state r = StatePending"
    and "\<not> n < parse_time (rq_grace_until r)"
  shows "preserves (dinv S R) (end_of_grace S r n)"
  unfolding end_of_grace_def
  using assms
  by (auto simp: req_okD split: prod.split
      intro!: wp preserves_save [OF assms(1)] req_ok_blocked req_ok_locked req_ok_set_due)

lemma preserves_step_pending:
  assumes "Seen q \<in> R" and "same_ids q r" and "req_ok S r" and "rq_state r = StatePending"
  shows "preserves (dinv S R) (step_pending S r n)"
  unfolding step_pending_def
  using assms
  by (auto intro!: wp preserves_settle preserves_apply_lock [OF assms(1)] preserves_send_cancel_link [OF assms(1)]
      preserves_end_of_grace [OF assms(1)])

lemma put_rows_has:
  assumes "(if participants_for S r \<noteq> [] then del_put_services (map (dispatched_row r n) (participants_for S r)) else ret ()) s = (Inr (), t)"
  shows "has_rows S t r"
proof (cases "participants_for S r = []")
  case False
  with assms put_services_stored [of "map (dispatched_row r n) (participants_for S r)" s t]
  have "\<forall>x \<in> set (participants_for S r). tget (services t) (rq_id r, x) \<noteq> None" by (auto simp: dispatched_row_def)
  then show ?thesis by (simp add: has_rows_def)
qed (simp add: has_rows_def)

lemma preserves_step_locked:
  assumes "Seen r \<in> R" and "req_ok S r" and "rq_state r = StateLocked"
  shows "preserves (dinv S R) (step_locked S r n)"
proof -
  let ?r = "if sv_purger S \<noteq> None \<or> participants_for S r \<noteq> []
    then set_due n (r\<lparr>rq_state := StatePurging, rq_updated_at := ts n\<rparr>)
    else clear_due (r\<lparr>rq_state := StatePurging, rq_updated_at := ts n\<rparr>)"
  let ?put = "if participants_for S r \<noteq> [] then del_put_services (map (dispatched_row r n) (participants_for S r)) else ret ()"
  have "req_ok S ?r" using assms(2,3) by (intro req_ok_purging) (simp_all add: req_okD)
  moreover have "same_ids r ?r" "rq_state ?r = StatePurging" by auto
  ultimately have save: "preserves (dinv S (insert (Rows r) R)) (del_save ?r StateLocked)"
    using assms(1) by (intro preserves_save [of r]) (auto simp: warrant_def)
  have put: "preserves (dinv S R) (bindE ?put (\<lambda>_. del_save ?r StateLocked))"
    by (rule preserves_bind_learn [where P = "\<lambda>_. True" and x = "\<lambda>_. Rows r"])
      (use save put_rows_has in \<open>auto intro!: wp\<close>)
  have erase: "preserves (dinv S R) (sv_erase S r [])"
    by (rule inv_erase_frame [OF erase_frame assms(1)]) (simp_all add: assms(3) past_grace_def)
  show ?thesis unfolding step_locked_def Let_def by (intro wp put erase)
qed

lemma preserves_finish_purge:
  assumes "Seen r \<in> R" and "Acks r \<in> R" and "req_ok S r" and "rq_state r = StatePurging"
  shows "preserves (dinv S R) (finish_purge S r n)"
proof (cases "if rq_scope r = ScopeService then sv_unlinker S else sv_purger S")
  case None
  then have "req_ok S (clear_due r)"
    using assms(3,4) by (auto simp: req_ok_def due_ok_def clear_due_def timely_def split: if_splits)
  with None assms show ?thesis
    unfolding finish_purge_def by (auto simp: warrant_def intro!: preserves_save [OF assms(1)])
next
  case (Some f)
  then have "tracks del_frame (f r)" using purger_frame unlinker_frame by (auto split: if_splits)
  then have "preserves (dinv S R) (f r)" by (rule inv_del_frame)
  with Some assms show ?thesis
    unfolding finish_purge_def
    by (auto simp: req_okD intro!: wp preserves_save [OF assms(1)] req_ok_purged)
qed

lemma preserves_step_purging:
  assumes "Seen r \<in> R" and "req_ok S r" and "rq_state r = StatePurging"
  shows "preserves (dinv S R) (step_purging S r n)"
proof -
  let ?rec = "if participants_for S r \<noteq> [] then reconcile S r n else ret True"
  have acks: "holds S t (Acks r)" if "dinv S R s" "?rec s = (Inr True, t)" for s t
    using that reconcile_done [OF that(1) assms(1,3), of n t] by (cases "participants_for S r = []") (auto simp: all_acked_def)
  have "preserves (dinv S R) (bindE ?rec (\<lambda>done. if \<not> done then ret () else finish_purge S r n))"
    by (rule preserves_bind_learn [where P = "\<lambda>y. y" and x = "\<lambda>_. Acks r"])
      (use assms acks in \<open>auto intro!: wp preserves_reconcile preserves_finish_purge\<close>)
  moreover have "preserves (dinv S R) (del_save (set_due (n + legalHoldRecheck) r) StatePurging)"
    using assms by (intro preserves_save [OF assms(1)]) (auto simp: req_okD intro: req_ok_set_due)
  ultimately show ?thesis unfolding step_purging_def by simp
qed

lemma preserves_step:
  assumes "Seen r \<in> R" and "req_ok S r"
  shows "preserves (dinv S R) (step S r n)"
  using assms
  by (cases "rq_state r")
    (auto simp: step_def intro!: wp preserves_settle preserves_save [OF assms(1)] req_ok_expire
      preserves_finish_cancel [OF assms(1)] preserves_step_pending [OF assms(1)]
      preserves_send_cancel_link [OF assms(1)] preserves_step_locked preserves_step_purging)

lemma preserves_process_due: "preserves (dinv S R) (process_due S)"
proof -
  have one: "preserves (dinv S R) (process_one S n st i)" for n st i
    unfolding process_one_def by (rule preserves_bind_get) (auto intro!: wp preserves_step)
  show ?thesis
    unfolding process_due_def del_list_due_def by (auto split: sum.split intro!: wp one)
qed

lemma preserves_nudge: "preserves (dinv S R) (nudge n i)"
proof -
  have "preserves (dinv S R) (bindE (del_get i) (\<lambda>r. if rq_state r = StatePurging
      then del_save (set_due n (r\<lparr>rq_updated_at := ts n\<rparr>)) StatePurging else ret ()))"
    by (rule preserves_bind_get) (auto simp: req_okD intro!: wp preserves_save req_ok_set_due)
  then show ?thesis unfolding nudge_def by (rule preserves_logE)
qed

lemma preserves_receive_ack: "preserves (dinv S R) (receive_ack svc a)"
  unfolding receive_ack_def by (auto split: option.split sum.split intro!: wp preserves_nudge)

lemma preserves_set_legal_hold: "preserves (dinv S R) (set_legal_hold i admin on)"
  unfolding set_legal_hold_def
  by (rule preserves_bind_get) (auto intro!: wp preserves_save req_ok_held)

lemma preserves_redrive: "preserves (dinv S R) (redrive i svc)"
  unfolding redrive_def
  by (rule preserves_bind_get) (auto simp: req_okD intro!: wp preserves_save req_ok_resumed)

end

end
