(* ===== verification/AccountDeletion.thy ===== *)
theory AccountDeletion
  imports DeletionContract
begin

text \<open>
  The account's own side of a deletion: the locker (\<open>locker.go\<close>), the ownership
  assessment (\<open>ownership.go\<close>, \<open>composite.go\<close>), the purger (\<open>purger.go\<close>,
  \<open>kycdocs.go\<close>), the end of a service unlink (\<open>unlink.go\<close>) and the return to a product
  (\<open>relink.go\<close>). Users, sessions and API keys are the modelled components; organizations,
  companies, consents, second factors and stored documents are reached through records of
  functions on \<open>world\<close>, as the code reaches them through interfaces.
\<close>

section \<open>The locker\<close>

record locker =
  lk_services :: "string list"
  lk_service_clients :: "(string \<Rightarrow> string list) option"

definition publish :: "locker \<Rightarrow> request \<Rightarrow> msg_type \<Rightarrow> time \<Rightarrow> string list \<Rightarrow> workspace list \<Rightarrow> string list \<Rightarrow>
    ('w, unit) del_prog" where
  "publish L r typ issued orgs wss svcs0 =
     (let service = (rq_scope r = ScopeService);
          svcs1 = (if service then [rq_service r] else svcs0);
          svcs = (if svcs1 = [] then lk_services L else svcs1)
      in if svcs = [] then ret ()
         else publish_message \<lparr>msg_type = typ, msg_request = rq_id r, msg_sub = rq_user r,
           msg_scope = (if service then ScopeService else ScopeAccount), msg_services = svcs,
           msg_organizations = (if service then [] else orgs), msg_workspaces = (if service then [] else wss),
           msg_attempt = 1, msg_issued = issued\<rparr>)"

definition revoke_tokens :: "string \<Rightarrow> ('w, unit) del_prog" where
  "revoke_tokens sub = bindE now (\<lambda>n. db_write DRevocation (cutoffs_update (tput sub n)))"

definition revoke_keys :: "(api_key \<Rightarrow> bool) \<Rightarrow> string \<Rightarrow> ('w, unit) del_prog" where
  "revoke_keys p uid =
     bindE (mapErr DKey (list_keys uid)) (\<lambda>ks.
       forE ks (\<lambda>k. if p k then mapErr DKey (revoke_key uid (key_id k)) else ret ()))"

definition revoke_service_keys :: "string \<Rightarrow> string \<Rightarrow> ('w, unit) del_prog" where
  "revoke_service_keys uid svc = revoke_keys (\<lambda>k. list_ex (\<lambda>sc. belongs_to_service sc svc) (ak_scopes k)) uid"

definition lock_service :: "locker \<Rightarrow> request \<Rightarrow> ('w, unit) del_prog" where
  "lock_service L r = (case lk_service_clients L of
       None \<Rightarrow> throw DNotConfigured
     | Some clients \<Rightarrow>
         bindE (mapErr DSession (revoke_clients (rq_user r) (clients (rq_service r)) (rq_service r))) (\<lambda>_.
         bindE (revoke_service_keys (rq_user r) (rq_service r)) (\<lambda>_.
         publish L r TypeLocked (parse_time (rq_confirmed_at r)) [] [] [])))"

definition lock :: "locker \<Rightarrow> request \<Rightarrow> ('w, unit) del_prog" where
  "lock L r =
     (if rq_scope r = ScopeService then lock_service L r
      else
      bindE (mapErr DUser (mark_pending_deletion (rq_user r) (rq_id r))) (\<lambda>_.
      bindE (mapErr DSession (revoke_all (rq_user r) [])) (\<lambda>_.
      bindE (revoke_keys (\<lambda>_. True) (rq_user r)) (\<lambda>_.
      bindE (revoke_tokens (rq_user r)) (\<lambda>_.
      publish L r TypeLocked (parse_time (rq_confirmed_at r)) [] [] [])))))"

definition unlock :: "locker \<Rightarrow> request \<Rightarrow> ('w, unit) del_prog" where
  "unlock L r =
     (if rq_scope r = ScopeService then publish L r TypeUnlocked (parse_time (rq_cancelled_at r)) [] [] []
      else
      bindE (mapErr DUser (clear_pending_deletion (rq_user r) (rq_id r))) (\<lambda>_.
      publish L r TypeUnlocked (parse_time (rq_cancelled_at r)) [] [] []))"

definition erase :: "locker \<Rightarrow> request \<Rightarrow> string list \<Rightarrow> ('w, unit) del_prog" where
  "erase L r svcs =
     publish L r TypeErase (parse_time (rq_locked_at r)) (rq_organizations r) (rq_workspaces r) svcs"

section \<open>Ownership\<close>

record membership =
  ms_organization :: string
  ms_role :: string

record owned_client =
  oc_id :: string
  oc_first_party :: bool

definition RoleOwner :: string where "RoleOwner = ''owner''"
definition BlockerSharedOrganization :: string where "BlockerSharedOrganization = ''account.organization_shared_owner''"
definition BlockerOwnedClient :: string where "BlockerOwnedClient = ''account.oauth_client_owned''"

record 'w ownership_deps =
  od_memberships :: "string \<Rightarrow> ('w, del_err, membership list) prog"
  od_members :: "string \<Rightarrow> string \<Rightarrow> ('w, del_err, membership list) prog"
  od_kind :: "string \<Rightarrow> ('w, del_err, string) prog"
  od_owned_clients :: "string \<Rightarrow> ('w, del_err, owned_client list) prog"

fun assess_memberships :: "'w ownership_deps \<Rightarrow> string \<Rightarrow> membership list \<Rightarrow>
    ('w, del_err, workspace list \<times> blocker list) prog" where
  "assess_memberships D uid [] = ret ([], [])"
| "assess_memberships D uid (m # ms) =
     (if ms_role m \<noteq> RoleOwner then assess_memberships D uid ms
      else
      bindE (od_members D (ms_organization m) uid) (\<lambda>members.
      if length members \<le> 1 then
        bindE (od_kind D (ms_organization m)) (\<lambda>kind.
        bindE (assess_memberships D uid ms) (\<lambda>(sole, bs).
        ret (\<lparr>ws_id = ms_organization m, ws_kind = kind\<rparr> # sole, bs)))
      else
        bindE (assess_memberships D uid ms) (\<lambda>(sole, bs).
        ret (sole, \<lparr>bl_code = BlockerSharedOrganization, bl_detail = [(''organization_id'', ms_organization m)]\<rparr> # bs))))"

definition ownership_assess :: "'w ownership_deps \<Rightarrow> string \<Rightarrow> ('w, del_err, workspace list \<times> blocker list) prog" where
  "ownership_assess D uid =
     bindE (od_memberships D uid) (\<lambda>ms.
     bindE (assess_memberships D uid ms) (\<lambda>(sole, bs).
     bindE (od_owned_clients D uid) (\<lambda>owned.
     ret (sole, bs @ map (\<lambda>c. \<lparr>bl_code = BlockerOwnedClient, bl_detail = [(''client_id'', oc_id c)]\<rparr>)
                         (filter (\<lambda>c. \<not> oc_first_party c) owned)))))"

definition composite_assess ::
  "(string \<Rightarrow> ('w, del_err, workspace list \<times> blocker list) prog) \<Rightarrow>
   (string \<Rightarrow> string list \<Rightarrow> ('w, del_err, blocker list) prog) \<Rightarrow>
   string \<Rightarrow> ('w, del_err, workspace list \<times> blocker list) prog" where
  "composite_assess loc remote uid =
     bindE (loc uid) (\<lambda>(sole, bs).
     bindE (remote uid (map ws_id sole)) (\<lambda>rs. ret (sole, bs @ rs)))"

section \<open>The purger\<close>

record grant =
  gr_client :: string
  gr_scopes :: "string list"

record company_edge =
  ce_organization :: string
  ce_company :: string

record 'w kyc_store =
  ks_list :: "string \<Rightarrow> ('w, del_err, string list) prog"
  ks_copy :: "string \<Rightarrow> string \<Rightarrow> ('w, del_err, unit) prog"
  ks_delete :: "string \<Rightarrow> ('w, del_err, unit) prog"

record 'w data_erasers =
  de_companies :: "string \<Rightarrow> ('w, del_err, unit) prog"
  de_organization :: "string \<Rightarrow> ('w, del_err, unit) prog"
  de_support :: "string \<Rightarrow> ('w, del_err, unit) prog"
  de_audit :: "string \<Rightarrow> ('w, del_err, unit) prog"
  de_kyc :: "'w kyc_store option"

record 'w purger =
  pu_memberships :: "string \<Rightarrow> ('w, del_err, membership list) prog"
  pu_leave :: "string \<Rightarrow> string \<Rightarrow> string \<Rightarrow> ('w, del_err, unit) prog"
  pu_edges :: "string \<Rightarrow> ('w, del_err, company_edge list) prog"
  pu_remove_actor :: "string \<Rightarrow> string \<Rightarrow> string \<Rightarrow> ('w, del_err, unit) prog"
  pu_grants :: "string \<Rightarrow> ('w, del_err, grant list) prog"
  pu_revoke_grant :: "string \<Rightarrow> string \<Rightarrow> ('w, del_err, unit) prog"
  pu_totp :: "string \<Rightarrow> ('w, del_err, unit) prog"
  pu_passkeys :: "string \<Rightarrow> ('w, del_err, string list) prog"
  pu_delete_passkey :: "string \<Rightarrow> string \<Rightarrow> ('w, del_err, unit) prog"
  pu_erasers :: "'w data_erasers option"
  pu_owner_data :: "(string \<Rightarrow> ('w, del_err, unit) prog) list"
  pu_sha :: "string \<Rightarrow> byte list"
  pu_cpf_mac :: "string \<Rightarrow> string"

definition move_kyc_documents :: "'w kyc_store \<Rightarrow> user \<Rightarrow> ('w, unit) del_prog" where
  "move_kyc_documents K u =
     bindE (in_world (ks_list K (''kyc/'' @ user_id u @ ''/''))) (\<lambda>keys.
     bindE (forE (u_kyc_documents u) (\<lambda>d.
       if kd_key d \<notin> set keys then ret ()
       else in_world (ks_copy K (kd_key d) (kyc_retention_doc_key (user_id u) (kd_id d))))) (\<lambda>_.
     forE keys (\<lambda>k. in_world (ks_delete K k))))"

text \<open>The sections of \<open>Purge\<close>: the frozen workspaces with support and audit, the memberships,
  the credentials, the documents, and the tombstone last.\<close>

definition purge_workspaces :: "'w purger \<Rightarrow> request \<Rightarrow> ('w, unit) del_prog" where
  "purge_workspaces P r = (case pu_erasers P of
       None \<Rightarrow> ret ()
     | Some E \<Rightarrow>
         bindE (forE (rq_organizations r) (\<lambda>o'.
           bindE (in_world (de_companies E o')) (\<lambda>_. in_world (de_organization E o')))) (\<lambda>_.
         bindE (in_world (de_support E (rq_user r))) (\<lambda>_. in_world (de_audit E (rq_user r)))))"

definition purge_memberships :: "'w purger \<Rightarrow> string \<Rightarrow> ('w, unit) del_prog" where
  "purge_memberships P u =
     bindE (in_world (pu_memberships P u)) (\<lambda>ms.
     bindE (forE ms (\<lambda>m. if ms_role m = RoleOwner then ret () else in_world (pu_leave P (ms_organization m) u u))) (\<lambda>_.
     bindE (in_world (pu_edges P u)) (\<lambda>es.
     forE es (\<lambda>e. in_world (pu_remove_actor P (ce_organization e) (ce_company e) u)))))"

definition purge_credentials :: "'w purger \<Rightarrow> string \<Rightarrow> ('w, unit) del_prog" where
  "purge_credentials P u =
     bindE (in_world (pu_grants P u)) (\<lambda>gs.
     bindE (forE gs (\<lambda>g. in_world (pu_revoke_grant P u (gr_client g)))) (\<lambda>_.
     bindE (mapErr DSession (revoke_all u [])) (\<lambda>_.
     bindE (revoke_keys (\<lambda>_. True) u) (\<lambda>_.
     bindE (in_world (pu_totp P u)) (\<lambda>_.
     bindE (in_world (pu_passkeys P u)) (\<lambda>cs.
     bindE (forE cs (\<lambda>c. in_world (pu_delete_passkey P u c))) (\<lambda>_.
     forE (pu_owner_data P) (\<lambda>e. in_world (e u)))))))))"

definition purge_documents :: "'w purger \<Rightarrow> string \<Rightarrow> ('w, unit) del_prog" where
  "purge_documents P u = (case Option.bind (pu_erasers P) de_kyc of
       None \<Rightarrow> ret ()
     | Some K \<Rightarrow>
         bindE (del_user u) (\<lambda>usr.
           if u_deletion_state usr \<noteq> DeletionStatePurged then move_kyc_documents K usr else ret ()))"

definition purge :: "'w purger \<Rightarrow> request \<Rightarrow> ('w, unit) del_prog" where
  "purge P r =
     bindE (purge_workspaces P r) (\<lambda>_.
     bindE (purge_memberships P (rq_user r)) (\<lambda>_.
     bindE (purge_credentials P (rq_user r)) (\<lambda>_.
     bindE (purge_documents P (rq_user r)) (\<lambda>_.
     bindE now (\<lambda>n.
     mapErr DUser (user_purge (pu_sha P) (pu_cpf_mac P) (rq_user r) (rq_id r) n))))))"

section \<open>Leaving one product, and coming back\<close>

record 'w unlinker =
  un_grants :: "string \<Rightarrow> ('w, del_err, grant list) prog"
  un_revoke_grant :: "string \<Rightarrow> string \<Rightarrow> ('w, del_err, unit) prog"
  un_clients :: "string \<Rightarrow> string list"
  un_audit :: "request \<Rightarrow> 'w \<Rightarrow> 'w" \<comment> \<open>the audit row; \<open>Record\<close> returns no error\<close>

definition unlink_finish :: "'w unlinker \<Rightarrow> request \<Rightarrow> ('w, unit) del_prog" where
  "unlink_finish U r =
     (let clients = un_clients U (rq_service r) in
     bindE (in_world (un_grants U (rq_user r))) (\<lambda>gs.
     bindE (forE gs (\<lambda>g.
       if gr_client g \<in> set clients \<or> list_ex (\<lambda>sc. belongs_to_service sc (rq_service r)) (gr_scopes g)
       then in_world (un_revoke_grant U (rq_user r) (gr_client g)) else ret ())) (\<lambda>_.
     bindE (mapErr DSession (revoke_clients (rq_user r) clients (rq_service r))) (\<lambda>_.
     bindE (revoke_service_keys (rq_user r) (rq_service r)) (\<lambda>_.
     bindE (mapErr DUser (add_unlinked_service (rq_user r) (rq_service r))) (\<lambda>_.
     bindE (modify (world_update (un_audit U r))) (\<lambda>_.
     bindE (tryE (del_user (rq_user r))) (\<lambda>q. case q of
       Inl _ \<Rightarrow> ret ()
     | Inr u \<Rightarrow> logE (send_mail (UnlinkedMail (u_email u) (u_first_name u) (rq_service r)))))))))))"

definition relink :: "bool \<Rightarrow> (string \<Rightarrow> string list) \<Rightarrow> user \<Rightarrow> string \<Rightarrow> ('w, unit) del_prog" where
  "relink has_pub clients u cid =
     forE (u_unlinked_services u) (\<lambda>svc.
       if cid \<notin> set (clients svc) then ret ()
       else if \<not> has_pub then throw DNotConfigured
       else
       bindE new_uuid (\<lambda>i.
       bindE now (\<lambda>n.
       bindE (publish_message \<lparr>msg_type = TypeRelinked, msg_request = i, msg_sub = user_id u,
           msg_scope = ScopeService, msg_services = [svc], msg_organizations = [], msg_workspaces = [],
           msg_attempt = 1, msg_issued = n\<rparr>) (\<lambda>_.
       mapErr DUser (remove_unlinked_service (user_id u) svc)))))"

section \<open>The wired service\<close>

text \<open>The service as \<open>newDeletionHandler\<close> assembles it: the configured participants give the
  names to wait for, the products that can be left and their login clients.\<close>

record participant =
  pa_service :: string
  pa_url :: string
  pa_audience :: string
  pa_client_id :: string
  pa_login_clients :: "string list"
  pa_export :: bool

definition service_names :: "participant list \<Rightarrow> string list" where
  "service_names ps = map pa_service ps"

definition leavable_service :: "participant list \<Rightarrow> string \<Rightarrow> participant option" where
  "leavable_service ps name = List.find (\<lambda>p. pa_service p = name \<and> pa_login_clients p \<noteq> []) ps"

definition login_clients :: "participant list \<Rightarrow> string \<Rightarrow> string list" where
  "login_clients ps name = (case leavable_service ps name of None \<Rightarrow> [] | Some p \<Rightarrow> pa_login_clients p)"

record 'w account_cfg =
  ac_sha :: "string \<Rightarrow> byte list"
  ac_participants :: "participant list"
  ac_ownership :: "'w ownership_deps"
  ac_remote :: "string \<Rightarrow> string list \<Rightarrow> ('w, del_err, blocker list) prog"
  ac_check_service :: "string \<Rightarrow> string \<Rightarrow> ('w, del_err, blocker list) prog"
  ac_purger :: "'w purger"
  ac_unlinker :: "'w unlinker"

definition account_locker :: "'w account_cfg \<Rightarrow> locker" where
  "account_locker C = \<lparr>lk_services = service_names (ac_participants C),
     lk_service_clients = Some (login_clients (ac_participants C))\<rparr>"

definition account_svc :: "'w account_cfg \<Rightarrow> 'w svc" where
  "account_svc C = \<lparr>sv_sha = ac_sha C, sv_lock = lock (account_locker C), sv_unlock = unlock (account_locker C),
     sv_erase = erase (account_locker C),
     sv_ownership = composite_assess (ownership_assess (ac_ownership C)) (ac_remote C),
     sv_purger = Some (purge ((ac_purger C)\<lparr>pu_sha := ac_sha C\<rparr>)),
     sv_participants = service_names (ac_participants C),
     sv_leavable = Some (\<lambda>name. map_option (\<lambda>p. \<lparr>st_service = pa_service p, st_login_clients = pa_login_clients p\<rparr>)
       (leavable_service (ac_participants C) name)),
     sv_service_elig = Some (ac_check_service C),
     sv_unlinker = Some (unlink_finish ((ac_unlinker C)\<lparr>un_clients := login_clients (ac_participants C)\<rparr>)),
     sv_service_list = Some (map pa_service (filter (\<lambda>p. pa_login_clients p \<noteq> []) (ac_participants C)))\<rparr>"

section \<open>The account's side keeps the contract\<close>

text \<open>What a write must leave alone to be quiet for the deletion table.\<close>

definition deaf :: "('w del_db \<Rightarrow> 'w del_db) \<Rightarrow> bool" where
  "deaf u \<longleftrightarrow> (\<forall>s. requests (u s) = requests s \<and> markers (u s) = markers s \<and> services (u s) = services s \<and>
     published (u s) = published s)"

lemma deaf_tables [simp]:
  "deaf (sess_tbl_update f)" "deaf (key_tbl_update g)" "deaf (user_tbl_update h)" "deaf (cutoffs_update k)"
  "deaf (mails_update m)"
  by (simp_all add: deaf_def)

lemma quiet_cond: "deaf u \<Longrightarrow> tracks (quiet_but P) (db_cond e d c u)"
  by (rule tracks_db_cond) (simp_all add: deaf_def quiet_but_def)

lemma quiet_write: "deaf u \<Longrightarrow> tracks (quiet_but P) (db_write e u)"
  unfolding db_write_def by (rule quiet_cond)

lemma quiet_read: "tracks (quiet_but P) (db_read e f)"
  by (rule tracks_db_read) (simp add: quiet_but_def)

lemma quiet_now: "tracks (quiet_but P) now"
  by (simp add: tracks_def quiet_but_def)

lemma quiet_world: "tracks (quiet_but P) (in_world f)"
  by (auto simp: tracks_def in_world_def quiet_but_def split: prod.split)

lemma quiet_audit: "tracks (quiet_but P) (modify (world_update f))"
  by (simp add: tracks_def quiet_but_def)

lemma quiet_publish:
  assumes "msg_type m = TypeErase \<Longrightarrow> P m"
  shows "tracks (quiet_but P) (publish_message m)"
  unfolding publish_message_def
  by (rule tracks_db_write) (use assms in \<open>auto simp: quiet_but_def\<close>)

lemmas quiet_calls = quiet.tracks_intros quiet_cond quiet_write quiet_read quiet_now quiet_world quiet_audit

lemma quiet_unmarshal_all: "tracks (quiet_but P) (unmarshal_all f is)"
proof (induction "is")
  case (Cons i js)
  have "tracks (quiet_but P) (unmarshal f i)" unfolding unmarshal_def
    by (cases "f i") (auto simp del: ret_run throw_run intro: quiet.tracks_throw quiet.tracks_ret)
  with Cons show ?case unfolding unmarshal_all.simps by (intro quiet.tracks_bindE quiet.tracks_ret)
qed (unfold unmarshal_all.simps, rule quiet.tracks_ret)

lemmas sess_defs = revoke_def repo_defs delete_item_def

lemma quiet_revoke_all: "tracks (quiet_but P) (revoke_all u e)"
  unfolding revoke_all_def sess_defs by (intro quiet_calls quiet_unmarshal_all) simp_all

lemma quiet_revoke_clients: "tracks (quiet_but P) (revoke_clients u cs v)"
  unfolding revoke_clients_def sess_defs by (intro quiet_calls quiet_unmarshal_all) simp_all

lemma quiet_revoke_keys: "tracks (quiet_but P) (revoke_keys p u)"
  unfolding revoke_keys_def list_keys_def key_list_by_user_def revoke_key_def key_get_by_id_def key_delete_def
  by (auto split: option.split intro!: quiet_calls)

lemma quiet_revoke_tokens: "tracks (quiet_but P) (revoke_tokens u)"
  unfolding revoke_tokens_def by (intro quiet_calls) simp

lemma quiet_send_mail: "tracks (quiet_but P) (send_mail m)"
  unfolding send_mail_def by (intro quiet_calls) simp

lemma quiet_del_user: "tracks (quiet_but P) (del_user u)"
  unfolding del_user_def user_get_by_id_def by (intro quiet_calls) (auto split: option.split intro!: quiet_calls)

lemma quiet_user_ops:
  "tracks (quiet_but P) (mark_pending_deletion u i)" "tracks (quiet_but P) (clear_pending_deletion u i)"
  "tracks (quiet_but P) (add_unlinked_service u v)" "tracks (quiet_but P) (remove_unlinked_service u v)"
  "tracks (quiet_but P) (user_purge sha mac u i n)"
  unfolding mark_pending_deletion_def user_update_def clear_pending_deletion_def clear_deletion_if_request_def
    add_unlinked_service_def remove_unlinked_service_def change_unlinked_def user_purge_def user_get_by_id_def repo_purge_def
  by (auto split: option.split sum.split intro!: quiet_calls)

lemmas quiet_account = quiet_revoke_all quiet_revoke_clients quiet_revoke_keys quiet_revoke_tokens quiet_send_mail
  quiet_del_user quiet_user_ops

lemma quiet_publish_typ: "(typ = TypeErase \<Longrightarrow> \<forall>m. msg_request m = rq_id r \<longrightarrow> P m) \<Longrightarrow>
    tracks (quiet_but P) (publish L r typ n os ws vs)"
  unfolding publish_def Let_def by (auto intro!: quiet_calls quiet_publish)

lemma lock_quiet: "tracks del_frame (lock L r)"
  unfolding lock_def lock_service_def revoke_service_keys_def
  by (auto split: option.split intro!: quiet_calls quiet_account quiet_publish_typ)

lemma unlock_quiet: "tracks del_frame (unlock L r)"
  unfolding unlock_def by (auto intro!: quiet_calls quiet_account quiet_publish_typ)

lemma erase_quiet: "tracks (erase_frame r) (erase L r svcs)"
  unfolding erase_def by (rule quiet_publish_typ) simp

lemma quiet_purge_parts:
  "tracks del_frame (purge_workspaces P r)" "tracks del_frame (purge_memberships P u)"
  "tracks del_frame (purge_credentials P u)" "tracks del_frame (purge_documents P u)"
  unfolding purge_workspaces_def purge_memberships_def purge_credentials_def purge_documents_def move_kyc_documents_def
  by (auto split: option.split intro!: quiet_calls quiet_account)

lemma purge_quiet: "tracks del_frame (purge P r)"
  unfolding purge_def by (intro quiet_calls quiet_purge_parts quiet_account)

lemma unlink_finish_quiet: "tracks del_frame (unlink_finish U r)"
  unfolding unlink_finish_def Let_def revoke_service_keys_def
  by (auto split: sum.split intro!: quiet_calls quiet_account)

text \<open>The wired service satisfies the contract of \<open>deletion_service\<close>, so everything proved from
  the contract holds of it.\<close>

interpretation account: deletion_service "account_svc C" for C
  by unfold_locales (auto simp: account_svc_def lock_quiet unlock_quiet erase_quiet purge_quiet unlink_finish_quiet)

end
