(* ===== verification/DeletionRuns.thy ===== *)
theory DeletionRuns
  imports AccountDeletion
begin

text \<open>
  Runs of the deletion service as the account service wires it: any sequence of calls by the
  user, the participants, support and the worker, with any failures of the database, the
  mailer and the publisher, interleaved with whatever the rest of the account service does to
  its own tables and with any passage of time. The calls themselves run one after the other;
  what a call that read an older copy writes is decided by the condition of \<open>Save\<close>, which the
  contract treats for every state it may find.
\<close>

section \<open>Steps\<close>

datatype del_call =
    CallRequest string | CallRequestService string string | CallConfirm string string
  | CallCancel string string | CallSupportCancel string | CallWorker | CallAck string ack
  | CallHold string string bool | CallRedrive string string

fun answer :: "'w svc \<Rightarrow> del_call \<Rightarrow> 'w del_db \<Rightarrow> 'w del_db" where
  "answer S (CallRequest uid) s = snd (request_account S uid s)"
| "answer S (CallRequestService uid svc) s = snd (request_service S uid svc s)"
| "answer S (CallConfirm i tok) s = snd (confirm S i tok s)"
| "answer S (CallCancel i tok) s = snd (cancel S i tok s)"
| "answer S (CallSupportCancel i) s = snd (support_cancel S i s)"
| "answer S CallWorker s = snd (process_due S s)"
| "answer S (CallAck svc a) s = snd (receive_ack svc a s)"
| "answer S (CallHold i admin on) s = snd (set_legal_hold i admin on s)"
| "answer S (CallRedrive i svc) s = snd (redrive i svc s)"

text \<open>The rest of the service: it may change anything but the deletion tables, and gives no order
  to erase; time and the list of outcomes are free.\<close>

abbreviation elsewhere :: "'w del_db \<Rightarrow> 'w del_db \<Rightarrow> bool" where
  "elsewhere \<equiv> del_frame"

inductive del_step :: "'w svc \<Rightarrow> 'w del_db \<Rightarrow> 'w del_db \<Rightarrow> bool" for S where
  called: "del_step S s (answer S c s)"
| other: "elsewhere s t \<Longrightarrow> del_step S s t"

inductive_cases del_stepE: "del_step S s t"

definition del_start :: "'w del_db \<Rightarrow> bool" where
  "del_start s \<longleftrightarrow> requests s = [] \<and> markers s = [] \<and> services s = [] \<and> published s = []"

lemma del_start_inv: "del_start s \<Longrightarrow> del_inv S s"
  by (simp add: del_start_def del_inv_def erase_ok_def)

context deletion_service
begin

lemma call_inv: "dinv S R s \<Longrightarrow> dinv S R (answer S c s)"
  by (cases c) (simp_all add: request_account_def request_service_def preservesD
      [OF preserves_open_request] preservesD [OF preserves_confirm] preservesD [OF preserves_cancel]
      preservesD [OF preserves_support_cancel] preservesD [OF preserves_process_due]
      preservesD [OF preserves_receive_ack] preservesD [OF preserves_set_legal_hold] preservesD [OF preserves_redrive])

lemma elsewhere_inv: "elsewhere s t \<Longrightarrow> dinv S R s \<Longrightarrow> dinv S R t"
  by (rule inv_quiet [where P = "\<lambda>_. False"]) simp_all

lemma run_inv: "(del_step S)\<^sup>*\<^sup>* s t \<Longrightarrow> dinv S R s \<Longrightarrow> dinv S R t"
  by (induction rule: rtranclp_induct) (auto elim!: del_stepE intro: call_inv elsewhere_inv)

lemma reachable_inv: "del_start s \<Longrightarrow> (del_step S)\<^sup>*\<^sup>* s t \<Longrightarrow> del_inv S t"
  using run_inv [of s t "{}"] del_start_inv [of s S] by (simp add: dinv_empty)

lemma run_seen:
  assumes "del_inv S s" and "(del_step S)\<^sup>*\<^sup>* s t" and "tget (requests s) i = Some r"
  obtains q where "tget (requests t) i = Some q" "same_ids r q" "edge\<^sup>*\<^sup>* (rq_state r) (rq_state q)"
proof -
  have i: "rq_id r = i" using del_inv_req [OF assms(1,3)] by simp
  with assms(1,3) have "dinv S {Seen r} s" by (simp add: dinv_def)
  from dinvD(2) [OF run_inv [OF assms(2) this]] i that show ?thesis by auto
qed

end

section \<open>What every run keeps\<close>

text \<open>Claim C3. One open request. In every state the deletion service can reach, a user has at most
  one request that is not cancelled, expired or purged, and the marker of the user names exactly
  that request.\<close>

theorem one_open_request:
  assumes "del_start s" and "(del_step (account_svc C))\<^sup>*\<^sup>* s t"
    and "tget (requests t) i = Some r" and "open_state (rq_state r)"
    and "tget (requests t) j = Some q" and "open_state (rq_state q)" and "rq_user q = rq_user r"
  shows "i = j \<and> tget (markers t) (rq_user r) = Some i"
proof -
  have "del_inv (account_svc C) t" using account.reachable_inv [OF assms(1,2)] .
  from del_inv_marker [OF this, of "rq_user r" i] del_inv_marker [OF this, of "rq_user r" j] assms(3-)
  show ?thesis by auto
qed

text \<open>Claim C1. The grace period. Whatever happens, a request is locked, being purged or purged only
  if it was confirmed and the seven days of grace after the confirmation had passed when it was
  locked; and every order to erase that ever went out to the participants belongs to such a
  request.\<close>

theorem grace_respected:
  assumes "del_start s" and "(del_step (account_svc C))\<^sup>*\<^sup>* s t"
  shows "(tget (requests t) i = Some r \<and> past_grace (rq_state r) \<longrightarrow>
            (\<exists>c l. rq_confirmed_at r = Some c \<and> rq_locked_at r = Some l \<and> c + 7 * 24 * 3600 \<le> l)) \<and>
         (m \<in> set (published t) \<and> msg_type m = TypeErase \<longrightarrow>
            (\<exists>q c l. tget (requests t) (msg_request m) = Some q \<and> past_grace (rq_state q) \<and>
               rq_confirmed_at q = Some c \<and> rq_locked_at q = Some l \<and> c + 7 * 24 * 3600 \<le> l))"
proof -
  have inv: "del_inv (account_svc C) t" using account.reachable_inv [OF assms] .
  have late: "\<exists>c l. rq_confirmed_at q = Some c \<and> rq_locked_at q = Some l \<and> c + 7 * 24 * 3600 \<le> l"
    if "tget (requests t) j = Some q" "past_grace (rq_state q)" for j q
    using del_inv_req [OF inv that(1)] that(2) by (auto simp: req_ok_def timely_def past_grace_def)
  from del_inv_erase [OF inv] have "\<exists>q. tget (requests t) (msg_request m) = Some q \<and> past_grace (rq_state q)"
    if "m \<in> set (published t)" "msg_type m = TypeErase" using that by (auto simp: erase_ok_def)
  with late show ?thesis by blast
qed

text \<open>Claim C2. Nobody is purged before everybody answered. A purged request has a row for every
  participant (for the left product only, when one product is left), and every such row records
  an acknowledged erasure.\<close>

theorem purged_after_every_ack:
  assumes "del_start s" and "(del_step (account_svc C))\<^sup>*\<^sup>* s t"
    and "tget (requests t) i = Some r" and "rq_state r = StatePurged"
    and "svc \<in> set (if rq_scope r = ScopeService then [rq_service r] else service_names (ac_participants C))"
  shows "\<exists>st. tget (services t) (i, svc) = Some st \<and> ss_status st = ServiceAcked"
proof -
  have inv: "del_inv (account_svc C) t" using account.reachable_inv [OF assms(1,2)] .
  from del_inv_req [OF inv assms(3)] assms(4) have "all_acked (account_svc C) t r" "rq_id r = i"
    by (auto simp: rows_ok_def)
  with assms(5) show ?thesis by (auto simp: all_acked_def participants_for_def account_svc_def split: if_splits)
qed

text \<open>Claim C4. The life of a request. A stored request is never lost: its id, user, scope and
  product never change and its state moves only along the edges of the state machine. In
  particular a request that is locked or further is never cancelled, and a finished one never
  comes back.\<close>

theorem request_life:
  assumes "del_start s" and "(del_step (account_svc C))\<^sup>*\<^sup>* s t" and "(del_step (account_svc C))\<^sup>*\<^sup>* t u"
    and "tget (requests t) i = Some r"
  shows "\<exists>q. tget (requests u) i = Some q \<and> rq_id q = rq_id r \<and> rq_user q = rq_user r \<and>
     rq_scope q = rq_scope r \<and> rq_service q = rq_service r \<and> edge\<^sup>*\<^sup>* (rq_state r) (rq_state q) \<and>
     (past_grace (rq_state r) \<longrightarrow> past_grace (rq_state q)) \<and>
     (\<not> open_state (rq_state r) \<longrightarrow> rq_state q = rq_state r)"
proof -
  have inv: "del_inv (account_svc C) t" using account.reachable_inv [OF assms(1,2)] .
  obtain q where q: "tget (requests u) i = Some q" "same_ids r q" "edge\<^sup>*\<^sup>* (rq_state r) (rq_state q)"
    using account.run_seen [OF inv assms(3,4)] .
  have "rq_state q = rq_state r" if "\<not> open_state (rq_state r)"
    using q(3) that by (cases rule: converse_rtranclpE) (auto simp: open_state_def)
  with q past_grace_edges show ?thesis by (auto simp: same_ids_def)
qed

text \<open>How many other requests in a state are due no later than a given instant.\<close>

definition ahead :: "string \<Rightarrow> rstate \<Rightarrow> int \<Rightarrow> (string, request) table \<Rightarrow> nat" where
  "ahead i st due tb = length (filter (\<lambda>(j, q). j \<noteq> i \<and> rq_due_state q = Some st \<and>
     (case rq_next_action q of None \<Rightarrow> False | Some x \<Rightarrow> x \<le> due)) tb)"

lemma ahead_listed:
  assumes "tkeys tb" and "(i, r) \<in> set tb" and "rq_due_state r = Some st" and "rq_next_action r = Some due"
    and "due \<le> n" and "ahead i st due tb < limit"
  shows "i \<in> set (take limit (map fst (sort_key due_key (filter (\<lambda>(i, r). rq_due_state r = Some st \<and>
      (case rq_next_action r of None \<Rightarrow> False | Some x \<Rightarrow> x \<le> n)) tb))))"
proof -
  let ?due = "\<lambda>(i, r). rq_due_state r = Some st \<and> (case rq_next_action r of None \<Rightarrow> False | Some x \<Rightarrow> x \<le> n)"
  have key: "due_key (i, r) = due" using assms(4) by (simp add: due_key_def)
  have "length (filter (\<lambda>p. p \<noteq> (i, r) \<and> due_key p \<le> due_key (i, r)) (filter ?due tb)) \<le> ahead i st due tb"
    unfolding ahead_def key filter_filter
  proof (rule length_filter_imp)
    fix p assume p: "p \<in> set tb" "?due p \<and> p \<noteq> (i, r) \<and> due_key p \<le> due"
    obtain j q where jq: "p = (j, q)" by (cases p)
    have "j \<noteq> i" using p assms(1,2) unfolding jq tkeys_def by (metis map_of_is_SomeI option.inject)
    with p(2) show "(case p of (j, q) \<Rightarrow> j \<noteq> i \<and> rq_due_state q = Some st \<and>
        (case rq_next_action q of None \<Rightarrow> False | Some x \<Rightarrow> x \<le> due))"
      unfolding jq by (auto simp: due_key_def split: option.splits)
  qed
  with assms(6) have "length (filter (\<lambda>p. p \<noteq> (i, r) \<and> due_key p \<le> due_key (i, r)) (filter ?due tb)) < limit" by simp
  moreover have "(i, r) \<in> set (filter ?due tb)" using assms(2-5) by simp
  ultimately have "(i, r) \<in> set (take limit (sort_key due_key (filter ?due tb)))" by (rule early_in_take [rotated])
  then show ?thesis by (force simp: take_map)
qed

text \<open>Claim C5. Nothing is forgotten. Every request that still waits for the worker (not confirmed
  yet, in its grace period, locked, being purged, or blocked with the notice not sent) has a due
  time. From that time on a query of the worker that is answered lists it as soon as fewer others than
  its limit wait in the same state and are due no later: a full batch goes to the requests due before.\<close>

theorem nothing_forgotten:
  assumes "del_start s" and "(del_step (account_svc C))\<^sup>*\<^sup>* s t" and "tget (requests t) i = Some r"
    and "rq_state r \<in> {StateAwaitingConfirmation, StatePending, StateLocked, StatePurging} \<or>
         rq_state r = StateBlocked \<and> \<not> rq_blocked_notified r"
  shows "\<exists>due. rq_next_action r = Some due \<and>
     (\<forall>n limit. due \<le> unix n \<and> ahead i (rq_state r) due (requests t) < limit \<longrightarrow>
       (\<exists>ids. fst (del_list_due (rq_state r) n limit (t\<lparr>faults := []\<rparr>)) = Inr ids \<and> i \<in> set ids))"
proof -
  have inv: "del_inv (account_svc C) t" using account.reachable_inv [OF assms(1,2)] .
  then have "due_ok (account_svc C) r" using del_inv_req [OF inv assms(3)] by (simp add: req_ok_def)
  then obtain due where due: "rq_due_state r = Some (rq_state r)" "rq_next_action r = Some due"
    using assms(4) by (auto simp: due_ok_def account_svc_def)
  have mem: "(i, r) \<in> set (requests t)" using assms(3) by (simp add: tget_def map_of_SomeD)
  have keys: "tkeys (requests t)" using del_inv_tables [OF inv] by blast
  from ahead_listed [OF keys mem due] due(2) show ?thesis by (simp add: del_list_due_def)
qed

section \<open>A run to its end\<close>

text \<open>One user, one product that takes part in erasures, and nothing else: the request is opened,
  confirmed by its link, and after eight days the worker locks it and tells the product, which
  acknowledges, and the worker purges the account.\<close>

definition nobody :: "'a \<Rightarrow> ('w, del_err, 'b list) prog" where
  "nobody = (\<lambda>_. ret [])"

definition demo_cfg :: "unit account_cfg" where
  "demo_cfg = \<lparr>ac_sha = sha_len,
     ac_participants = [\<lparr>pa_service = ''dfe'', pa_url = [], pa_audience = [], pa_client_id = ''dfe-api'',
       pa_login_clients = [''dfe-web''], pa_export = False\<rparr>],
     ac_ownership = \<lparr>od_memberships = nobody, od_members = (\<lambda>_. nobody), od_kind = (\<lambda>_. ret []),
       od_owned_clients = nobody\<rparr>,
     ac_remote = (\<lambda>_. nobody), ac_check_service = (\<lambda>_. nobody),
     ac_purger = \<lparr>pu_memberships = nobody, pu_leave = (\<lambda>_ _ _. ret ()), pu_edges = nobody,
       pu_remove_actor = (\<lambda>_ _ _. ret ()), pu_grants = nobody, pu_revoke_grant = (\<lambda>_ _. ret ()),
       pu_totp = (\<lambda>_. ret ()), pu_passkeys = nobody, pu_delete_passkey = (\<lambda>_ _. ret ()),
       pu_erasers = None, pu_owner_data = [], pu_sha = sha_len, pu_cpf_mac = (\<lambda>x. x)\<rparr>,
     ac_unlinker = \<lparr>un_grants = nobody, un_revoke_grant = (\<lambda>_ _. ret ()), un_clients = (\<lambda>_. []),
       un_audit = (\<lambda>_ w. w)\<rparr>\<rparr>"

definition demo_svc :: "unit svc" where
  "demo_svc = account_svc demo_cfg"

definition demo_del :: "unit del_db" where
  "demo_del = \<lparr>clock = 0, faults = [], rng = (\<lambda>_. Some 0), rng_ix = 0, uuids = (\<lambda>_. ''r1''), uuid_ix = 0,
     sess_tbl = [], key_tbl = [], user_tbl = [(''USER_u'', UserI demo_user), (''EMAIL#03'', LockI (Some 0))],
     requests = [], markers = [], services = [], mails = [], published = [], cutoffs = [], world = ()\<rparr>"

definition demo_tok :: string where
  "demo_tok = ''mfa_00000000000000000000000000000000''"

definition demo_pending :: "unit del_db" where
  "demo_pending = answer demo_svc (CallConfirm ''r1'' demo_tok) (answer demo_svc (CallRequest ''u'') demo_del)"

definition demo_purging :: "unit del_db" where
  "demo_purging = answer demo_svc CallWorker (demo_pending\<lparr>clock := 8 * day\<rparr>)"

definition demo_ack :: ack where
  "demo_ack = \<lparr>ack_request = ''r1'', ack_result = ResultErased, ack_counts = [], ack_blockers = []\<rparr>"

definition demo_purged :: "unit del_db" where
  "demo_purged = answer demo_svc CallWorker (answer demo_svc (CallAck ''dfe'' demo_ack) demo_purging)"

lemma demo_start: "del_start demo_del"
  by (simp add: del_start_def demo_del_def)

lemma demo_steps:
  "(del_step demo_svc)\<^sup>*\<^sup>* demo_del demo_pending" "(del_step demo_svc)\<^sup>*\<^sup>* demo_pending demo_purging"
  "(del_step demo_svc)\<^sup>*\<^sup>* demo_purging demo_purged"
proof -
  have call: "(del_step demo_svc)\<^sup>*\<^sup>* s t \<Longrightarrow> (del_step demo_svc)\<^sup>*\<^sup>* s (answer demo_svc c t)" for s t c
    using rtranclp.rtrancl_into_rtrancl del_step.called by metis
  show "(del_step demo_svc)\<^sup>*\<^sup>* demo_del demo_pending" "(del_step demo_svc)\<^sup>*\<^sup>* demo_purging demo_purged"
    unfolding demo_pending_def demo_purged_def by (intro call rtranclp.rtrancl_refl)+
  have "del_step demo_svc demo_pending (demo_pending\<lparr>clock := 8 * day\<rparr>)"
    by (rule del_step.other) (simp add: quiet_but_def)
  then show "(del_step demo_svc)\<^sup>*\<^sup>* demo_pending demo_purging"
    unfolding demo_purging_def by (intro call r_into_rtranclp)
qed

lemma demo_runs:
  "(del_step (account_svc demo_cfg))\<^sup>*\<^sup>* demo_del demo_pending" "(del_step (account_svc demo_cfg))\<^sup>*\<^sup>* demo_del demo_purging"
  "(del_step (account_svc demo_cfg))\<^sup>*\<^sup>* demo_del demo_purged"
  using demo_steps rtranclp_trans unfolding demo_svc_def by metis+

definition demo_req :: "unit del_db \<Rightarrow> request" where
  "demo_req s = the (tget (requests s) ''r1'')"

definition demo_view :: "unit del_db \<Rightarrow> (string \<times> rstate \<times> string \<times> scope \<times> stamp) list" where
  "demo_view s = map (\<lambda>(i, r). (i, rq_state r, rq_user r, rq_scope r, rq_next_action r)) (requests s)"

lemma demo_views:
  "demo_view demo_pending = [(''r1'', StatePending, ''u'', ScopeAccount, Some 518400)]"
  "demo_view demo_purging = [(''r1'', StatePurging, ''u'', ScopeAccount, Some 692100)]"
  "demo_view demo_purged = [(''r1'', StatePurged, ''u'', ScopeAccount, None)]"
  by code_simp+

lemma demo_viewD:
  assumes "demo_view s = [(''r1'', st, u, sc, a)]"
  shows "tget (requests s) ''r1'' = Some (demo_req s)" "rq_state (demo_req s) = st" "rq_user (demo_req s) = u"
    "rq_scope (demo_req s) = sc" "rq_next_action (demo_req s) = a" "length (requests s) = 1"
  using assms by (auto simp: demo_view_def demo_req_def)

lemmas demo_reqs = demo_views [THEN demo_viewD(1)] demo_views [THEN demo_viewD(2)] demo_views(1) [THEN demo_viewD(3)]
  demo_views(3) [THEN demo_viewD(4)] demo_views(1) [THEN demo_viewD(5)] demo_views(1) [THEN demo_viewD(6)]

theorem one_open_request_witness:
  "tget (markers demo_pending) ''u'' = Some ''r1''"
  using one_open_request [OF demo_start demo_runs(1) demo_reqs(1) _ demo_reqs(1)]
  by (simp add: demo_reqs open_state_def)

theorem grace_respected_witness:
  "\<exists>c l. rq_confirmed_at (demo_req demo_purging) = Some c \<and> rq_locked_at (demo_req demo_purging) = Some l \<and>
     c + 7 * 24 * 3600 \<le> l"
  using grace_respected [OF demo_start demo_runs(2), of "''r1''" "demo_req demo_purging"]
  by (simp add: demo_reqs past_grace_def)

theorem purged_after_every_ack_witness:
  "\<exists>st. tget (services demo_purged) (''r1'', ''dfe'') = Some st \<and> ss_status st = ServiceAcked"
  using purged_after_every_ack [OF demo_start demo_runs(3) demo_reqs(3,6), of "''dfe''"]
  by (simp add: demo_reqs demo_cfg_def service_names_def)

theorem request_life_witness:
  "\<exists>q. tget (requests demo_purged) ''r1'' = Some q \<and> past_grace (rq_state q)"
  using request_life [OF demo_start demo_runs(2) demo_steps(3) [unfolded demo_svc_def] demo_reqs(2)]
  by (auto simp: demo_reqs past_grace_def)

lemma demo_ahead: "ahead ''r1'' StatePending 518400 (requests demo_pending) = 0"
  by code_simp

theorem nothing_forgotten_witness:
  "\<exists>ids. fst (del_list_due StatePending (6 * day) 25 (demo_pending\<lparr>faults := []\<rparr>)) = Inr ids \<and> ''r1'' \<in> set ids"
proof -
  have "518400 \<le> unix (6 * day)" by (simp add: unix_def day_def second_def)
  then show ?thesis
    using nothing_forgotten [OF demo_start demo_runs(1) demo_reqs(1)] demo_ahead by (simp add: demo_reqs)
qed

end
