(* ===== verification/DeletionLinks.thy ===== *)
theory DeletionLinks
  imports DeletionRuns
begin

text \<open>
  The links of the deletion e-mails: who can confirm and who can cancel, and that neither works
  twice; what a lock and an unlock do to the account; what a legal hold stops.
\<close>

section \<open>Operations that always answer\<close>

definition total :: "('s, 'e, 'a) prog \<Rightarrow> bool" where
  "total f \<longleftrightarrow> (\<forall>s. \<exists>x. fst (f s) = Inr x)"

lemma totalD: "total f \<Longrightarrow> \<exists>x. f s = (Inr x, snd (f s))"
  unfolding total_def by (metis prod.collapse)

lemma total_intros:
  "total (ret x)" "total (tryE g)" "total (logE h)" "total now"
  by (simp_all add: total_def)

lemma total_bindE: "total f \<Longrightarrow> (\<And>x. total (g x)) \<Longrightarrow> total (bindE f g)"
proof -
  assume f: "total f" and g: "\<And>x. total (g x)"
  have "\<exists>y. fst (bindE f g s) = Inr y" for s
  proof -
    obtain x where "f s = (Inr x, snd (f s))" using totalD [OF f] by blast
    then have "bindE f g s = g x (snd (f s))" by (rule bindE_Inr)
    with g [of x] show ?thesis by (simp add: total_def)
  qed
  then show ?thesis by (simp add: total_def)
qed

lemma total_if: "total f \<Longrightarrow> total g \<Longrightarrow> total (if b then f else g)"
  by simp

lemmas totals = total_intros total_bindE total_if

lemma total_undo_lock: "total (undo_lock S r)"
  unfolding undo_lock_def by (auto split: sum.split intro!: totals)

lemma total_lost_save: "total (lost_save S r e)"
  unfolding lost_save_def by (auto split: sum.split intro!: totals total_undo_lock)

lemma total_apply_lock: "total (apply_lock S r)"
  unfolding apply_lock_def Let_def by (auto split: sum.split intro!: totals total_lost_save)

lemma total_send_cancel_link: "total (send_cancel_link S r k)"
  unfolding send_cancel_link_def Let_def by (auto split: sum.split prod.split intro!: totals)

lemma total_finish_cancel: "total (finish_cancel S r)"
  unfolding finish_cancel_def Let_def by (auto split: sum.split intro!: totals)

section \<open>Confirming\<close>

definition may_confirm :: "'w svc \<Rightarrow> string \<Rightarrow> time \<Rightarrow> request \<Rightarrow> bool" where
  "may_confirm S tok n r \<longleftrightarrow> rq_state r = StateAwaitingConfirmation \<and> n < parse_time (rq_confirm_by r) \<and>
     token_matches (sv_sha S) tok (rq_confirm_hash r)"

definition after_confirm :: "'w svc \<Rightarrow> request \<Rightarrow> ('w, request) del_prog" where
  "after_confirm S r = bindE (apply_lock S r) (\<lambda>(r2, _). bindE (send_cancel_link S r2 LinkScheduled) (\<lambda>(r3, _). ret r3))"

lemma total_after_confirm: "total (after_confirm S r)"
  unfolding after_confirm_def
  by (auto split: prod.split intro!: totals total_apply_lock total_send_cancel_link)

lemma get_calm: "faults s = [] \<Longrightarrow> del_get i s = (case tget (requests s) i of None \<Rightarrow> (Inl ErrReqNotFound, s) | Some r \<Rightarrow> (Inr r, s))"
  by (simp add: del_get_def split: option.split)

lemma save_calm:
  assumes "faults s = []" and "tget (requests s) (rq_id r) = Some q" and "rq_state q = from"
    and "releases r from \<longrightarrow> tget (markers s) (rq_user r) = Some (rq_id r)"
  shows "del_save r from s = (Inr (), s\<lparr>requests := tput (rq_id r) r (requests s),
      markers := (if releases r from then tdel (rq_user r) (markers s) else markers s)\<rparr>)"
  using assms by (simp add: del_save_def)

lemma confirmed_fields [simp]:
  "rq_id (confirmed n r) = rq_id r" "rq_user (confirmed n r) = rq_user r" "rq_confirm_hash (confirmed n r) = []"
  by (simp_all add: confirmed_def set_due_def)

lemma confirm_calm:
  assumes "faults s = []" and "del_inv S s"
  shows "confirm S i tok s = (case tget (requests s) i of
      None \<Rightarrow> (Inl ErrInvalidToken, s)
    | Some r \<Rightarrow> if may_confirm S tok (clock s) r
        then after_confirm S (confirmed (clock s) r) (s\<lparr>requests := tput i (confirmed (clock s) r) (requests s)\<rparr>)
        else (Inl ErrInvalidToken, s))"
proof (cases "tget (requests s) i")
  case None
  with assms(1) show ?thesis by (simp add: confirm_def get_calm)
next
  case (Some r)
  then have i: "rq_id r = i" using del_inv_req [OF assms(2)] by blast
  show ?thesis
  proof (cases "may_confirm S tok (clock s) r")
    case True
    then have st: "rq_state r = StateAwaitingConfirmation" by (simp add: may_confirm_def)
    have "\<not> releases (confirmed (clock s) r) StateAwaitingConfirmation" by (simp add: releases_def open_state_def)
    with save_calm [OF assms(1), of "confirmed (clock s) r" r StateAwaitingConfirmation] Some i st
    have "del_save (confirmed (clock s) r) StateAwaitingConfirmation s =
        (Inr (), s\<lparr>requests := tput i (confirmed (clock s) r) (requests s)\<rparr>)" by simp
    with Some True assms(1) show ?thesis
      by (simp add: confirm_def get_calm may_confirm_def Let_def after_confirm_def)
  next
    case False
    with Some assms(1) show ?thesis by (auto simp: confirm_def get_calm may_confirm_def Let_def)
  qed
qed

context deletion_service
begin

lemma after_confirm_inv:
  assumes "del_inv S s" and "tget (requests s) i = Some r" and "rq_state r = StateAwaitingConfirmation"
  shows "dinv S {Seen (confirmed n r)} (snd (after_confirm S (confirmed n r) (s\<lparr>requests := tput i (confirmed n r) (requests s)\<rparr>)))"
proof -
  have i: "rq_id r = i" using del_inv_req [OF assms(1,2)] by simp
  let ?t = "s\<lparr>requests := tput i (confirmed n r) (requests s), markers := markers s\<rparr>"
  have "dinv S {Seen r} ?t"
    using save_step [of S "{Seen r}" s r "confirmed n r" StateAwaitingConfirmation r] assms i
    by (simp add: dinv_def req_ok_confirmed releases_def open_state_def)
  then have t: "dinv S {Seen (confirmed n r)} (s\<lparr>requests := tput i (confirmed n r) (requests s)\<rparr>)"
    using i by (simp add: dinv_def)
  have "preserves (dinv S {Seen (confirmed n r)}) (after_confirm S (confirmed n r))"
    unfolding after_confirm_def
  proof (rule preserves_bind_leaves [OF preserves_apply_lock leaves_apply_lock])
    fix p assume p: "next_of S (confirmed n r) p"
    obtain r2 w where "p = (r2, w)" by (cases p)
    with p show "preserves (dinv S {Seen (confirmed n r)}) (case p of (r2, _) \<Rightarrow>
        bindE (send_cancel_link S r2 LinkScheduled) (\<lambda>(r3, _). ret r3))"
      by (auto simp: next_of_def same_ids_def split: prod.split intro!: wp preserves_send_cancel_link [of "confirmed n r"])
  qed (auto simp: req_ok_confirmed)
  from preservesD [OF this t] show ?thesis .
qed

end

text \<open>A bad link, whatever calls fail; and what an accepted one has written.\<close>

lemma get_still: "\<exists>os. snd (del_get i s) = s\<lparr>faults := os\<rparr>"
proof -
  obtain os where "snd (db_read DInfra (\<lambda>s. tget (requests s) i) s) = s\<lparr>faults := os\<rparr>"
    using db_read_cases [of DInfra "\<lambda>s. tget (requests s) i" s] by blast
  then show ?thesis by (auto simp: del_get_def bindE_run split: prod.split sum.split option.split)
qed

lemma save_Inr:
  assumes "del_save r from s = (Inr x, t)"
  obtains os where "t = s\<lparr>faults := os, requests := tput (rq_id r) r (requests s),
      markers := (if releases r from then tdel (rq_user r) (markers s) else markers s)\<rparr>"
proof -
  let ?c = "\<lambda>s. (case tget (requests s) (rq_id r) of None \<Rightarrow> False | Some q \<Rightarrow> rq_state q = from) \<and>
      (releases r from \<longrightarrow> tget (markers s) (rq_user r) = Some (rq_id r))"
  let ?w = "\<lambda>s. s\<lparr>requests := tput (rq_id r) r (requests s),
      markers := (if releases r from then tdel (rq_user r) (markers s) else markers s)\<rparr>"
  from assms have "fst (db_cond DInfra ErrStateChanged ?c ?w s) = Inr x" "snd (db_cond DInfra ErrStateChanged ?c ?w s) = t"
    by (simp_all add: del_save_def)
  with db_cond_cases [of DInfra ErrStateChanged ?c ?w s] obtain os where "t = ?w (s\<lparr>faults := os\<rparr>)" by auto
  with that [of os] show ?thesis by simp
qed

lemma confirm_bad:
  assumes "\<not> (\<exists>r. tget (requests s) i = Some r \<and> may_confirm S tok (clock s) r)"
  shows "isl (fst (confirm S i tok s)) \<and> (\<exists>os. snd (confirm S i tok s) = s\<lparr>faults := os\<rparr>)"
proof (cases "del_get i s")
  case (Pair g t)
  with get_still [of i s] obtain os where t: "t = s\<lparr>faults := os\<rparr>" by auto
  show ?thesis
  proof (cases g)
    case (Inl e)
    with Pair t show ?thesis by (auto simp: confirm_def bindE_run)
  next
    case (Inr r)
    with Pair del_get_InrD [of i s r t] have "tget (requests s) i = Some r" by simp
    with assms have "\<not> may_confirm S tok (clock s) r" by blast
    with Pair Inr t show ?thesis by (auto simp: confirm_def bindE_run may_confirm_def)
  qed
qed

lemma confirm_Inr:
  assumes "confirm S i tok s = (Inr q, t)" and "del_inv S s"
  obtains r os where "tget (requests s) i = Some r" and "may_confirm S tok (clock s) r"
    and "t = snd (after_confirm S (confirmed (clock s) r) (s\<lparr>faults := os, requests := tput i (confirmed (clock s) r) (requests s)\<rparr>))"
proof -
  from confirm_bad [of s i S tok] assms(1) obtain r where r: "tget (requests s) i = Some r" "may_confirm S tok (clock s) r"
    by auto
  have i: "rq_id r = i" using del_inv_req [OF assms(2) r(1)] by simp
  obtain g s1 where g: "del_get i s = (g, s1)" by (cases "del_get i s")
  with get_still [of i s] obtain os1 where s1: "s1 = s\<lparr>faults := os1\<rparr>" by auto
  from g assms(1) obtain r' where g': "g = Inr r'" by (cases g) (auto simp: confirm_def bindE_run)
  with g del_get_InrD [of i s r' s1] r(1) have "r' = r" by simp
  with g g' have get: "del_get i s = (Inr r, s1)" by simp
  let ?r = "confirmed (clock s) r"
  obtain w s2 where w: "del_save ?r StateAwaitingConfirmation s1 = (w, s2)" by (cases "del_save ?r StateAwaitingConfirmation s1")
  have run: "confirm S i tok s = (case w of Inl e \<Rightarrow> (Inl (if e = ErrStateChanged then ErrInvalidToken else e), s2)
      | Inr _ \<Rightarrow> after_confirm S ?r s2)"
    using get w r(2) s1 by (auto simp: confirm_def bindE_run may_confirm_def after_confirm_def Let_def split: sum.split)
  with assms(1) obtain x where x: "w = Inr x" by (cases w) auto
  have "\<not> releases ?r StateAwaitingConfirmation" by (simp add: confirmed_def set_due_def releases_def open_state_def)
  moreover obtain os where "s2 = s1\<lparr>faults := os, requests := tput (rq_id ?r) ?r (requests s1),
      markers := (if releases ?r StateAwaitingConfirmation then tdel (rq_user ?r) (markers s1) else markers s1)\<rparr>"
    using w unfolding x by (rule save_Inr)
  ultimately have "s2 = s\<lparr>faults := os, requests := tput i ?r (requests s)\<rparr>" using s1 i by simp
  with run x assms(1) have "t = snd (after_confirm S ?r (s\<lparr>faults := os, requests := tput i ?r (requests s)\<rparr>))"
    by (simp, metis snd_conv)
  with that [OF r] show ?thesis by blast
qed

text \<open>An accepted link is used up: the request has left the state in which it can be confirmed for ever.\<close>

lemma confirmed_for_good:
  assumes "del_inv (account_svc C) s" and "confirm (account_svc C) i tok s = (Inr q, t)"
    and "(del_step (account_svc C))\<^sup>*\<^sup>* t u"
  shows "del_inv (account_svc C) u \<and>
    \<not> (\<exists>r. tget (requests u) i = Some r \<and> may_confirm (account_svc C) tok' (clock u) r)"
proof -
  obtain r os where r: "tget (requests s) i = Some r" "may_confirm (account_svc C) tok (clock s) r"
    and t: "t = snd (after_confirm (account_svc C) (confirmed (clock s) r)
      (s\<lparr>faults := os, requests := tput i (confirmed (clock s) r) (requests s)\<rparr>))"
    using assms(2,1) by (rule confirm_Inr)
  let ?s = "s\<lparr>faults := os\<rparr>" and ?r = "confirmed (clock s) r"
  have "dinv (account_svc C) {} s" using assms(1) by (simp add: dinv_def)
  then have "dinv (account_svc C) {} ?s" by simp
  then have inv: "del_inv (account_svc C) ?s" by (rule dinvD(1))
  have st: "rq_state r = StateAwaitingConfirmation" and i: "rq_id r = i"
    using r del_inv_req [OF assms(1)] by (auto simp: may_confirm_def)
  have "dinv (account_svc C) {Seen ?r} t"
    using account.after_confirm_inv [OF inv _ st, of i "clock s"] r(1) by (simp add: t)
  from account.run_inv [OF assms(3) this] have inv': "dinv (account_svc C) {Seen ?r} u" .
  then obtain q where q: "tget (requests u) i = Some q" "edge\<^sup>*\<^sup>* StatePending (rq_state q)"
    using i by (auto simp: dinv_def)
  from q(2) have "rq_state q \<noteq> StateAwaitingConfirmation" by (cases rule: rtranclp.cases) auto
  with q(1) dinvD(1) [OF inv'] show ?thesis by (auto simp: may_confirm_def)
qed

text \<open>Claim C6. The confirmation link. Whatever calls fail, a link is accepted only if the request still
  waits for its confirmation, the 24 hours are not over and the token is the one that was sent; any
  other attempt is refused and changes nothing. With the database answering, such a link is accepted,
  and every refusal is the same error. An accepted link never works again: whatever happens later and
  whatever calls fail, every further attempt to confirm that request is refused and changes nothing.\<close>

theorem confirm_link_once:
  fixes tok i :: string
  assumes "del_inv (account_svc C) s"
  defines "good \<equiv> \<exists>r. tget (requests s) i = Some r \<and> may_confirm (account_svc C) tok (clock s) r"
  shows "(\<not> good \<longrightarrow> isl (fst (confirm (account_svc C) i tok s)) \<and>
            (\<exists>os. snd (confirm (account_svc C) i tok s) = s\<lparr>faults := os\<rparr>)) \<and>
         (faults s = [] \<longrightarrow> (if good then \<not> isl (fst (confirm (account_svc C) i tok s))
            else confirm (account_svc C) i tok s = (Inl ErrInvalidToken, s))) \<and>
         (\<not> isl (fst (confirm (account_svc C) i tok s)) \<longrightarrow>
            (\<forall>u tok'. (del_step (account_svc C))\<^sup>*\<^sup>* (snd (confirm (account_svc C) i tok s)) u \<longrightarrow>
               isl (fst (confirm (account_svc C) i tok' u)) \<and>
               (\<exists>os. snd (confirm (account_svc C) i tok' u) = u\<lparr>faults := os\<rparr>) \<and>
               (faults u = [] \<longrightarrow> fst (confirm (account_svc C) i tok' u) = Inl ErrInvalidToken)))"
proof -
  have calm: "if good then \<not> isl (fst (confirm (account_svc C) i tok s))
      else confirm (account_svc C) i tok s = (Inl ErrInvalidToken, s)" if "faults s = []"
    using total_after_confirm [of "account_svc C"] unfolding good_def total_def
    by (auto simp: confirm_calm [OF that assms(1)] isl_def split: option.split) (metis sum.distinct(1))+
  have later: "isl (fst (confirm (account_svc C) i tok' u)) \<and>
      (\<exists>os. snd (confirm (account_svc C) i tok' u) = u\<lparr>faults := os\<rparr>) \<and>
      (faults u = [] \<longrightarrow> fst (confirm (account_svc C) i tok' u) = Inl ErrInvalidToken)"
    if ok: "\<not> isl (fst (confirm (account_svc C) i tok s))"
      and reach: "(del_step (account_svc C))\<^sup>*\<^sup>* (snd (confirm (account_svc C) i tok s)) u" for u tok'
  proof -
    obtain q where "confirm (account_svc C) i tok s = (Inr q, snd (confirm (account_svc C) i tok s))"
      using ok by (metis prod.collapse sum.collapse(2))
    from confirmed_for_good [OF assms(1) this reach, of tok'] have inv: "del_inv (account_svc C) u"
      and bad: "\<not> (\<exists>r. tget (requests u) i = Some r \<and> may_confirm (account_svc C) tok' (clock u) r)" by blast+
    have "fst (confirm (account_svc C) i tok' u) = Inl ErrInvalidToken" if "faults u = []"
      using bad by (auto simp: confirm_calm [OF that inv] split: option.split)
    with confirm_bad [OF bad] show ?thesis by blast
  qed
  from confirm_bad [of s i "account_svc C" tok] calm later show ?thesis unfolding good_def by blast
qed

section \<open>Cancelling\<close>

lemma cancelled_fields [simp]:
  "rq_id (cancelled n r) = rq_id r" "rq_user (cancelled n r) = rq_user r" "rq_scope (cancelled n r) = rq_scope r"
  by (simp_all add: cancelled_def set_due_def)

definition cancel_row :: "time \<Rightarrow> string \<Rightarrow> request \<Rightarrow> 'w del_db \<Rightarrow> 'w del_db" where
  "cancel_row n i r s = s\<lparr>requests := tput i (cancelled n r) (requests s), markers := tdel (rq_user r) (markers s)\<rparr>"

lemma cancel_calm:
  assumes "faults s = []" and "del_inv S s"
  shows "cancel S i tok s = (case tget (requests s) i of
      None \<Rightarrow> (Inl ErrInvalidToken, s)
    | Some r \<Rightarrow>
        if \<not> any_token_matches (sv_sha S) tok (rq_cancel_hashes r) then (Inl ErrInvalidToken, s)
        else if rq_state r \<notin> {StatePending, StateBlocked} then (Inl ErrNotCancellable, s)
        else bindE (finish_cancel S (cancelled (clock s) r)) (\<lambda>(r2, _). ret r2) (cancel_row (clock s) i r s))"
proof (cases "tget (requests s) i")
  case None
  with assms(1) show ?thesis by (simp add: cancel_def get_calm)
next
  case (Some r)
  then have i: "rq_id r = i" using del_inv_req [OF assms(2)] by blast
  show ?thesis
  proof (cases "any_token_matches (sv_sha S) tok (rq_cancel_hashes r) \<and> rq_state r \<in> {StatePending, StateBlocked}")
    case True
    then have op: "open_state (rq_state r)" by (auto simp: open_state_def)
    then have "releases (cancelled (clock s) r) (rq_state r)" by (simp add: releases_def open_state_def)
    moreover have "tget (markers s) (rq_user r) = Some i" using del_inv_marker [OF assms(2)] Some op by blast
    ultimately have "del_save (cancelled (clock s) r) (rq_state r) s = (Inr (), cancel_row (clock s) i r s)"
      using save_calm [OF assms(1), of "cancelled (clock s) r" r "rq_state r"] Some i by (simp add: cancel_row_def)
    with Some True assms(1) show ?thesis by (auto simp: cancel_def get_calm cancel_request_def Let_def)
  next
    case False
    with Some assms(1) show ?thesis by (auto simp: cancel_def get_calm cancel_request_def)
  qed
qed

context deletion_service
begin

lemma cancel_inv:
  assumes "del_inv S s" and "tget (requests s) i = Some r" and "rq_state r \<in> {StatePending, StateBlocked}"
  shows "dinv S {Seen (cancelled n r)} (snd (bindE (finish_cancel S (cancelled n r)) (\<lambda>(r2, _). ret r2) (cancel_row n i r s)))"
proof -
  note r = del_inv_req [OF assms(1,2)]
  have op: "open_state (rq_state r)" using assms(3) by (auto simp: open_state_def)
  then have m: "tget (markers s) (rq_user r) = Some i" using del_inv_marker [OF assms(1)] assms(2) by blast
  have ok: "req_ok S (cancelled n r)" using r assms(3) by (auto intro: req_ok_cancelled req_okD)
  have "dinv S {Seen r} (cancel_row n i r s)"
    using save_step [of S "{Seen r}" s r "cancelled n r" "rq_state r" r] assms r op m ok
    by (auto simp: dinv_def releases_def open_state_def cancel_row_def)
  then have t: "dinv S {Seen (cancelled n r)} (cancel_row n i r s)"
    using r by (simp add: dinv_def cancel_row_def)
  have "preserves (dinv S {Seen (cancelled n r)}) (bindE (finish_cancel S (cancelled n r)) (\<lambda>(r2, _). ret r2))"
    using ok by (auto split: prod.split intro!: wp preserves_finish_cancel [of "cancelled n r"])
  from preservesD [OF this t] show ?thesis .
qed

end

text \<open>What the unlock does to the user's item.\<close>

definition freed :: "string \<Rightarrow> user_item option \<Rightarrow> user_item option \<Rightarrow> bool" where
  "freed i before after \<longleftrightarrow> (case before of
     Some (UserI u) \<Rightarrow> if u_deletion_request_id u = Some i
       then (\<exists>x. after = Some (UserI (u\<lparr>u_deletion_state := [], u_deletion_request_id := None, u_updated_at := x\<rparr>)))
       else after = before
   | _ \<Rightarrow> after = before)"

lemma clear_deletion_run:
  fixes s :: "'w del_db"
  assumes "faults s = []"
  shows "\<exists>tb. clear_pending_deletion uid i s = (Inr (), s\<lparr>user_tbl := tb\<rparr>) \<and>
    freed i (tget (user_tbl s) (build_pk uid)) (tget tb (build_pk uid)) \<and>
    (\<forall>k. k \<noteq> build_pk uid \<longrightarrow> tget tb k = tget (user_tbl s) k)"
proof (cases "\<exists>u. tget (user_tbl s) (build_pk uid) = Some (UserI u) \<and> u_deletion_request_id u = Some i")
  case True
  then obtain u where u: "tget (user_tbl s) (build_pk uid) = Some (UserI u)" "u_deletion_request_id u = Some i" by blast
  let ?f = "\<lambda>u. u\<lparr>u_deletion_state := [], u_deletion_request_id := None, u_updated_at := ts (clock s)\<rparr>"
  have "clear_pending_deletion uid i s = (Inr (), s\<lparr>user_tbl := tput (build_pk uid) (UserI (?f u)) (user_tbl s)\<rparr>)"
    using u assms by (simp add: clear_pending_deletion_def clear_deletion_if_request_def upd_user_def)
  with u show ?thesis by (intro exI [of _ "tput (build_pk uid) (UserI (?f u)) (user_tbl s)"]) (auto simp: freed_def)
next
  case False
  then have "clear_pending_deletion uid i s = (Inr (), s)"
    using assms by (auto simp: clear_pending_deletion_def clear_deletion_if_request_def split: option.splits user_item.splits)
  moreover have "freed i (tget (user_tbl s) (build_pk uid)) (tget (user_tbl s) (build_pk uid))"
    using False by (auto simp: freed_def split: option.split user_item.split)
  ultimately show ?thesis by (intro exI [of _ "user_tbl s"]) simp
qed

definition same_users :: "'w del_db \<Rightarrow> 'w del_db \<Rightarrow> bool" where
  "same_users s t \<longleftrightarrow> user_tbl t = user_tbl s"

interpretation users: step_order same_users
  by unfold_locales (auto simp: same_users_def)

lemma users_read: "tracks same_users (db_read e f)"
  by (rule tracks_db_read) (simp add: same_users_def)

lemma users_calls:
  "tracks same_users (send_mail m)" "tracks same_users (publish L r typ n os ws vs)" "tracks same_users (del_save r from)"
  "tracks same_users (del_user u)" "tracks same_users now"
proof -
  show "tracks same_users (send_mail m)" unfolding send_mail_def
    by (rule tracks_db_write) (simp_all add: same_users_def)
  have "tracks same_users (publish_message m')" for m' unfolding publish_message_def
    by (rule tracks_db_write) (simp_all add: same_users_def)
  then show "tracks same_users (publish L r typ n os ws vs)" unfolding publish_def Let_def
    by (auto intro!: users.tracks_intros)
  show "tracks same_users (del_save r from)" unfolding del_save_def
    by (rule tracks_db_cond) (simp_all add: same_users_def)
  show "tracks same_users (del_user u)" unfolding del_user_def user_get_by_id_def
    by (intro users.tracks_intros users_read) (auto split: option.split intro!: users.tracks_intros)
  show "tracks same_users now" by (simp add: tracks_def same_users_def)
qed

lemma unlock_users:
  fixes s :: "'w del_db"
  assumes "faults s = []" and "rq_scope r = ScopeAccount"
  shows "freed (rq_id r) (tget (user_tbl s) (build_pk (rq_user r))) (tget (user_tbl (snd (unlock L r s))) (build_pk (rq_user r))) \<and>
     (\<forall>k. k \<noteq> build_pk (rq_user r) \<longrightarrow> tget (user_tbl (snd (unlock L r s))) k = tget (user_tbl s) k)"
proof -
  obtain tb where tb: "clear_pending_deletion (rq_user r) (rq_id r) s = (Inr (), s\<lparr>user_tbl := tb\<rparr>)"
    "freed (rq_id r) (tget (user_tbl s) (build_pk (rq_user r))) (tget tb (build_pk (rq_user r)))"
    "\<forall>k. k \<noteq> build_pk (rq_user r) \<longrightarrow> tget tb k = tget (user_tbl s) k"
    using clear_deletion_run [OF assms(1)] by blast
  have "mapErr DUser (clear_pending_deletion (rq_user r) (rq_id r)) s = (Inr (), s\<lparr>user_tbl := tb\<rparr>)"
    using tb(1) by (simp add: mapErr_run)
  then have "unlock L r s = publish L r TypeUnlocked (parse_time (rq_cancelled_at r)) [] [] [] (s\<lparr>user_tbl := tb\<rparr>)"
    using assms(2) by (simp add: unlock_def)
  then have "user_tbl (snd (unlock L r s)) = tb"
    using tracksD [OF users_calls(2), of "s\<lparr>user_tbl := tb\<rparr>"] by (simp add: same_users_def)
  with tb(2,3) show ?thesis by simp
qed

lemma bind_try_run: "bindE (tryE f) g s = g (fst (f s)) (snd (f s))"
  by (simp add: bindE_run)

lemma snd_bind_fst: "snd (bindE f (\<lambda>(x, _). ret x) s) = snd (f s)"
  by (auto simp: bindE_run split: prod.split sum.split)

lemma finish_cancel_users:
  "user_tbl (snd (bindE (finish_cancel S r) (\<lambda>(r2, _). ret r2) s)) = user_tbl (snd (sv_unlock S r s))"
proof -
  have "tracks same_users (case u of Inl e \<Rightarrow> ret (r, Inl e) | Inr _ \<Rightarrow>
     bindE now (\<lambda>n. let r1 = clear_due (r\<lparr>rq_updated_at := ts n\<rparr>) in
     bindE (tryE (del_save r1 StateCancelled)) (\<lambda>w. case w of
       Inl e \<Rightarrow> ret (r1, Inl e)
     | Inr _ \<Rightarrow>
     bindE (tryE (del_user (rq_user r1))) (\<lambda>q. case q of
       Inl _ \<Rightarrow> ret (r1, Inr ())
     | Inr u \<Rightarrow>
         bindE (logE (send_mail (CancelledMail (u_email u) (u_first_name u) (rq_service r1))))
           (\<lambda>_. ret (r1, Inr ()))))))" for u
    unfolding Let_def by (auto split: sum.split intro!: users.tracks_intros users_calls)
  from tracksD [OF this] show ?thesis
    unfolding snd_bind_fst finish_cancel_def bind_try_run by (simp only: same_users_def)
qed

lemma account_fields [simp]:
  "sv_sha (account_svc C) = ac_sha C" "sv_unlock (account_svc C) = unlock (account_locker C)"
  "sv_lock (account_svc C) = lock (account_locker C)" "sv_erase (account_svc C) = erase (account_locker C)"
  by (simp_all add: account_svc_def)

text \<open>The cancel link. With the database answering, a link with none of the tokens that
  were sent for the request is refused as invalid, and a good link on a request that is not in
  its grace period or blocked is refused as too late; neither changes anything. Any other link
  cancels: the request stays cancelled for ever, its user may open a new one, and, when the
  whole account was being deleted, the user's sign-in block is lifted if this request placed it
  (a block of another request stays) while no other user is touched.\<close>

theorem cancel_link_exact:
  fixes tok :: string
  assumes "del_inv (account_svc C) s" and "faults s = []" and "tget (requests s) i = Some r"
  defines "after \<equiv> snd (cancel (account_svc C) i tok s)"
  shows "if \<not> any_token_matches (ac_sha C) tok (rq_cancel_hashes r)
         then cancel (account_svc C) i tok s = (Inl ErrInvalidToken, s)
         else if rq_state r \<notin> {StatePending, StateBlocked}
         then cancel (account_svc C) i tok s = (Inl ErrNotCancellable, s)
         else (\<exists>q. fst (cancel (account_svc C) i tok s) = Inr q) \<and>
           (\<forall>u. (del_step (account_svc C))\<^sup>*\<^sup>* after u \<longrightarrow>
              (\<exists>q. tget (requests u) i = Some q \<and> rq_state q = StateCancelled) \<and> tget (markers u) (rq_user r) \<noteq> Some i) \<and>
           (rq_scope r = ScopeAccount \<longrightarrow>
              freed i (tget (user_tbl s) (build_pk (rq_user r))) (tget (user_tbl after) (build_pk (rq_user r))) \<and>
              (\<forall>k. k \<noteq> build_pk (rq_user r) \<longrightarrow> tget (user_tbl after) k = tget (user_tbl s) k))"
proof (cases "any_token_matches (ac_sha C) tok (rq_cancel_hashes r) \<and> rq_state r \<in> {StatePending, StateBlocked}")
  case False
  with assms(3) cancel_calm [OF assms(2,1), of i tok] show ?thesis by auto
next
  case True
  let ?r = "cancelled (clock s) r" and ?t = "cancel_row (clock s) i r s"
  have i: "rq_id r = i" using del_inv_req [OF assms(1,3)] by simp
  have run: "cancel (account_svc C) i tok s = bindE (finish_cancel (account_svc C) ?r) (\<lambda>(r2, _). ret r2) ?t"
    using True assms(3) by (auto simp: cancel_calm [OF assms(2,1), of i tok])
  have "total (bindE (finish_cancel (account_svc C) ?r) (\<lambda>(r2, _). ret r2))"
    by (auto split: prod.split intro!: totals total_finish_cancel)
  then have ok: "\<exists>q. fst (cancel (account_svc C) i tok s) = Inr q" unfolding run total_def by blast
  have inv: "dinv (account_svc C) {Seen ?r} after"
    unfolding after_def run using account.cancel_inv [OF assms(1,3)] True by blast
  have later: "(\<exists>q. tget (requests u) i = Some q \<and> rq_state q = StateCancelled) \<and> tget (markers u) (rq_user r) \<noteq> Some i"
    if "(del_step (account_svc C))\<^sup>*\<^sup>* after u" for u
  proof -
    have inv': "dinv (account_svc C) {Seen ?r} u" by (rule account.run_inv [OF that inv])
    then obtain q where q: "tget (requests u) i = Some q" "edge\<^sup>*\<^sup>* StateCancelled (rq_state q)"
      using i by (auto simp: dinv_def)
    from q(2) have st: "rq_state q = StateCancelled" by (cases rule: converse_rtranclpE) auto
    with q(1) del_inv_marker [OF dinvD(1) [OF inv'], of "rq_user r" i] show ?thesis by (auto simp: open_state_def)
  qed
  have users: "freed i (tget (user_tbl s) (build_pk (rq_user r))) (tget (user_tbl after) (build_pk (rq_user r))) \<and>
      (\<forall>k. k \<noteq> build_pk (rq_user r) \<longrightarrow> tget (user_tbl after) k = tget (user_tbl s) k)" if "rq_scope r = ScopeAccount"
    unfolding after_def run finish_cancel_users
    using unlock_users [of ?t ?r "account_locker C"] assms(2) i that by (simp add: cancel_row_def)
  show ?thesis using True ok later users by simp
qed

section \<open>Both links on the concrete run\<close>

definition demo_asked :: "unit del_db" where
  "demo_asked = answer (account_svc demo_cfg) (CallRequest ''u'') demo_del"

lemma demo_asked_inv: "del_inv (account_svc demo_cfg) demo_asked" "del_inv (account_svc demo_cfg) demo_pending"
proof -
  have "del_step (account_svc demo_cfg) demo_del demo_asked" unfolding demo_asked_def by (rule del_step.called)
  then have "(del_step (account_svc demo_cfg))\<^sup>*\<^sup>* demo_del demo_asked" by (rule r_into_rtranclp)
  then show "del_inv (account_svc demo_cfg) demo_asked" "del_inv (account_svc demo_cfg) demo_pending"
    using account.reachable_inv [OF demo_start] demo_runs(1) by blast+
qed

lemma demo_asked_calm: "faults demo_asked = []" "faults demo_pending = []"
  "isl (fst (confirm (account_svc demo_cfg) ''r1'' ''no'' demo_asked))"
  "\<not> isl (fst (confirm (account_svc demo_cfg) ''r1'' demo_tok demo_asked))"
  "any_token_matches (ac_sha demo_cfg) demo_tok (rq_cancel_hashes (demo_req demo_pending))"
  by code_simp+

theorem confirm_link_once_witness:
  "confirm (account_svc demo_cfg) ''r1'' ''no'' demo_asked = (Inl ErrInvalidToken, demo_asked) \<and>
   \<not> isl (fst (confirm (account_svc demo_cfg) ''r1'' demo_tok demo_asked)) \<and>
   fst (confirm (account_svc demo_cfg) ''r1'' demo_tok demo_pending) = Inl ErrInvalidToken"
proof -
  note once = confirm_link_once [OF demo_asked_inv(1), of "''r1''"]
  have nxt: "demo_pending = snd (confirm (account_svc demo_cfg) ''r1'' demo_tok demo_asked)"
    by (simp add: demo_pending_def demo_asked_def demo_svc_def)
  have reach: "(del_step (account_svc demo_cfg))\<^sup>*\<^sup>* (snd (confirm (account_svc demo_cfg) ''r1'' demo_tok demo_asked)) demo_pending"
    unfolding nxt by simp
  note used = once [of demo_tok, THEN conjunct2, THEN conjunct2, THEN mp, OF demo_asked_calm(4), THEN spec, THEN spec, THEN mp, OF reach]
  have "confirm (account_svc demo_cfg) ''r1'' ''no'' demo_asked = (Inl ErrInvalidToken, demo_asked)"
    using once [of "''no''", THEN conjunct2, THEN conjunct1, THEN mp, OF demo_asked_calm(1), unfolded if_bool_eq_conj]
      demo_asked_calm(3) by blast
  moreover have "fst (confirm (account_svc demo_cfg) ''r1'' demo_tok demo_pending) = Inl ErrInvalidToken"
    by (rule used [of demo_tok, THEN conjunct2, THEN conjunct2, THEN mp, OF demo_asked_calm(2)])
  ultimately show ?thesis using demo_asked_calm by blast
qed

theorem cancel_link_exact_witness:
  "\<exists>q. tget (requests (snd (cancel (account_svc demo_cfg) ''r1'' demo_tok demo_pending))) ''r1'' = Some q \<and>
     rq_state q = StateCancelled"
  using cancel_link_exact [OF demo_asked_inv(2) demo_asked_calm(2) demo_reqs(1), of demo_tok] demo_asked_calm(5)
  by (auto simp: demo_reqs)

end
