(* ===== verification/DeletionWorker.thy ===== *)
theory DeletionWorker
  imports DeletionLinks
begin

text \<open>
  What the worker may and may not do: a legal hold keeps a request where it is, a silent
  participant is told again within a day, and the ownership assessment that decides whether an
  account may go agrees with its specification.
\<close>

section \<open>Legal hold\<close>

text \<open>The request \<open>i\<close> is stored under legal hold, in state \<open>st\<close>.\<close>

definition on_hold :: "string \<Rightarrow> rstate \<Rightarrow> 'w del_db \<Rightarrow> bool" where
  "on_hold i st s \<longleftrightarrow> (\<forall>j q. tget (requests s) j = Some q \<longrightarrow> rq_id q = j) \<and>
     (\<exists>q. tget (requests s) i = Some q \<and> rq_state q = st \<and> rq_legal_hold q)"

text \<open>What a write under hold looks like: another request, or the same state with the hold kept.\<close>

definition stays :: "string \<Rightarrow> rstate \<Rightarrow> request \<Rightarrow> bool" where
  "stays i st r \<longleftrightarrow> (rq_id r = i \<longrightarrow> rq_state r = st \<and> rq_legal_hold r)"

lemma on_hold_frame: "tracks (quiet_but P) f \<Longrightarrow> preserves (on_hold i st) f"
  unfolding preserves_def tracks_def quiet_but_def on_hold_def by metis

lemma blind_hold [simp, intro]: "blind (on_hold i st)"
  by (simp add: blind_def on_hold_def)

lemma hold_read [wp]: "preserves (on_hold i st) (db_read e f)"
  by (rule preserves_db_read) simp

lemma hold_save: "stays i st r \<Longrightarrow> preserves (on_hold i st) (del_save r from)"
  unfolding del_save_def
  by (rule preserves_db_cond) (auto simp: blind_def on_hold_def stays_def)

lemma hold_services:
  "preserves (on_hold i st) (del_save_service x from)" "preserves (on_hold i st) (put_row x)"
  "preserves (on_hold i st) (del_put_services xs)" "preserves (on_hold i st) (del_list_services j)"
proof -
  have cond: "preserves (on_hold i st) (db_cond DInfra ErrStateChanged c (services_update f))" if "blind c" for c f
    by (rule preserves_db_cond) (use that in \<open>auto simp: on_hold_def\<close>)
  show "preserves (on_hold i st) (del_save_service x from)" unfolding del_save_service_def
    by (rule cond) (simp add: blind_def)
  have row: "preserves (on_hold i st) (put_row x)" for x unfolding put_row_def
    by (auto simp: blind_def split: sum.split intro!: wp cond)
  show "preserves (on_hold i st) (put_row x)" by (rule row)
  show "preserves (on_hold i st) (del_put_services xs)" unfolding del_put_services_row by (intro wp row)
  show "preserves (on_hold i st) (del_list_services j)" unfolding del_list_services_def by (intro wp)
qed

lemma hold_get [wp]: "preserves (on_hold i st) (del_get j)"
  unfolding del_get_def by (auto split: option.split intro!: wp)

lemma hold_get_yields: "yields (on_hold i st) (del_get j) (\<lambda>r. rq_id r = j \<and> stays i st r)"
  unfolding yields_def on_hold_def stays_def using del_get_InrD by fastforce

lemmas hold_frames [wp] = frame_mail [THEN on_hold_frame] frame_user [THEN on_hold_frame]
  frame_generate [THEN on_hold_frame] frame_new_uuid [THEN on_hold_frame] frame_world [THEN on_hold_frame]
  hold_services

lemma stays_writes [simp]:
  "stays i st (set_due n r) = stays i st r" "stays i st (clear_due r) = stays i st r"
  "stays i st (schedule_next n r) = stays i st r" "stays i st (link_sent k r) = stays i st r"
  "stays i st (r\<lparr>rq_updated_at := t\<rparr>) = stays i st r" "stays i st (r\<lparr>rq_cancel_hashes := hs\<rparr>) = stays i st r"
  "stays i st (r\<lparr>rq_lock_applied := b\<rparr>) = stays i st r"
  by (cases k; simp add: stays_def set_due_def clear_due_def schedule_next_def)+

lemma stays_other:
  "rq_id r \<noteq> i \<Longrightarrow> stays i st (expire n r)" "rq_id r \<noteq> i \<Longrightarrow> stays i st (cancelled n r)"
  "rq_id r \<noteq> i \<Longrightarrow> stays i st (blocked_by n bs r)" "rq_id r \<noteq> i \<Longrightarrow> stays i st (locked n ws r)"
  "rq_id r \<noteq> i \<Longrightarrow> stays i st (purged n r)" "rq_id r \<noteq> i \<Longrightarrow> stays i st (r\<lparr>rq_state := x\<rparr>)"
  by (simp_all add: stays_def expire_def cancelled_def blocked_by_def locked_def purged_def clear_due_def set_due_def)

context deletion_service
begin

lemmas hold_calls = lock_frame [THEN on_hold_frame] unlock_frame [THEN on_hold_frame] erase_frame [THEN on_hold_frame]

lemma hold_send_cancel_link: "stays i st r \<Longrightarrow> preserves (on_hold i st) (send_cancel_link S r k)"
  unfolding send_cancel_link_def Let_def
  by (auto split: sum.split prod.split intro!: wp hold_save)

lemma hold_undo_lock: "stays i st r \<Longrightarrow> preserves (on_hold i st) (undo_lock S r)"
  unfolding undo_lock_def by (auto split: sum.split intro!: wp hold_save hold_calls)

lemma hold_lost_save: "preserves (on_hold i st) (lost_save S r e)"
  unfolding lost_save_def
  by (rule preserves_bindE_val [OF _ yields_tryE [OF hold_get_yields]])
    (auto split: sum.split intro!: wp hold_undo_lock)

lemma hold_apply_lock: "stays i st r \<Longrightarrow> preserves (on_hold i st) (apply_lock S r)"
  unfolding apply_lock_def Let_def by (auto split: sum.split intro!: wp hold_save hold_calls hold_lost_save)

lemma hold_settle: "preserves I f \<Longrightarrow> preserves I (settle f)"
  unfolding settle_def by (auto split: sum.split prod.split intro!: wp)

lemma hold_redispatch: "preserves (on_hold i st) (redispatch n sts nxt)"
proof (induction n sts nxt rule: redispatch.induct)
  case (1 n nxt)
  show ?case unfolding redispatch.simps by (intro wp)
next
  case (2 n x sts nxt)
  show ?case
    unfolding redispatch.simps Let_def
    by (rule wp, intro wp) (auto split: sum.split intro!: wp 2 [OF refl])
qed

lemma hold_reconcile: "rq_id r \<noteq> i \<Longrightarrow> preserves (on_hold i st) (reconcile S r n)"
  unfolding reconcile_def
  by (auto simp: stays_def clear_due_def set_due_def split: option.split prod.split
      intro!: wp hold_save hold_calls hold_redispatch)

lemma hold_finish_purge: "rq_id r \<noteq> i \<Longrightarrow> preserves (on_hold i st) (finish_purge S r n)"
proof (cases "if rq_scope r = ScopeService then sv_unlinker S else sv_purger S")
  case (Some f)
  then have "tracks del_frame (f r)" using purger_frame unlinker_frame by (auto split: if_splits)
  then have f: "preserves (on_hold i st) (f r)" by (rule on_hold_frame)
  assume "rq_id r \<noteq> i"
  with Some f show ?thesis unfolding finish_purge_def by (auto intro!: wp hold_save stays_other)
qed (auto simp: finish_purge_def stays_def clear_due_def intro!: hold_save)

lemma hold_assess: "preserves (on_hold i st) (assess S r)"
  unfolding assess_def by (auto split: option.split intro!: wp)

lemma hold_end_of_grace:
  "stays i st r \<Longrightarrow> preserves (on_hold i st) (end_of_grace S r n)"
  unfolding end_of_grace_def
  by (auto simp: stays_def [of _ _ r] split: prod.split intro!: wp hold_save hold_assess stays_other)

lemma hold_step_other:
  assumes "rq_id r \<noteq> i"
  shows "preserves (on_hold i st) (step_locked S r n)" "preserves (on_hold i st) (finish_cancel S r)"
    "preserves (on_hold i st) (step_purging S r n)"
proof -
  have s: "stays i st r" using assms by (simp add: stays_def)
  show "preserves (on_hold i st) (step_locked S r n)"
    unfolding step_locked_def Let_def using assms by (auto intro!: wp hold_save hold_calls stays_other)
  show "preserves (on_hold i st) (finish_cancel S r)"
    unfolding finish_cancel_def Let_def using s by (auto split: sum.split intro!: wp hold_save hold_calls)
  show "preserves (on_hold i st) (step_purging S r n)"
    unfolding step_purging_def using s assms
    by (auto intro!: wp hold_save hold_reconcile hold_finish_purge)
qed

lemma hold_step:
  assumes "stays i st r" and "st \<in> {StatePending, StatePurging}"
  shows "preserves (on_hold i st) (step S r n)"
proof (cases "rq_id r = i")
  case False
  with assms show ?thesis
    unfolding step_def step_pending_def
    by (auto split: rstate.split intro!: wp hold_settle hold_save hold_step_other hold_apply_lock
        hold_send_cancel_link hold_end_of_grace stays_other)
next
  case True
  with assms have "rq_state r = st" "rq_legal_hold r" by (auto simp: stays_def)
  with assms show ?thesis
    unfolding step_def step_pending_def step_purging_def
    by (auto intro!: wp hold_settle hold_save hold_apply_lock hold_send_cancel_link hold_end_of_grace)
qed

lemma hold_process_due:
  assumes "st \<in> {StatePending, StatePurging}"
  shows "preserves (on_hold i st) (process_due S)"
proof -
  have one: "preserves (on_hold i st) (process_one S n x j)" for n x j
    unfolding process_one_def
    by (rule preserves_bindE_val [OF hold_get hold_get_yields]) (use assms in \<open>auto intro!: wp hold_step\<close>)
  show ?thesis unfolding process_due_def del_list_due_def by (auto split: sum.split intro!: wp one)
qed

end

text \<open>A pass of the worker, or whatever else happens to the other tables and the clock.\<close>

inductive work :: "'w svc \<Rightarrow> 'w del_db \<Rightarrow> 'w del_db \<Rightarrow> bool" for S where
  pass: "work S s (answer S CallWorker s)"
| other: "elsewhere s t \<Longrightarrow> work S s t"

context deletion_service
begin

lemma work_hold:
  assumes "(work S)\<^sup>*\<^sup>* s t" and "on_hold i st s" and "st \<in> {StatePending, StatePurging}"
  shows "on_hold i st t"
  using assms(1)
proof (induction rule: rtranclp_induct)
  case (step t u)
  from step(2,3) show ?case
  proof cases
    case pass
    with preservesD [OF hold_process_due [OF assms(3)] step(3)] show ?thesis by simp
  next
    case other
    with step(3) show ?thesis by (simp add: on_hold_def quiet_but_def)
  qed
qed (rule assms(2))

end

text \<open>A legal hold. While a request in its grace period or being purged is under legal
  hold, no number of passes of the worker, at any times and with any failures, takes it any
  further. The admin who placed the hold cannot lift it; another admin can, and the request is
  then due at once.\<close>

theorem legal_hold_stops_worker:
  assumes "del_inv (account_svc C) s" and "tget (requests s) i = Some r" and "rq_legal_hold r"
    and "rq_state r \<in> {StatePending, StatePurging}"
  shows "(\<forall>t. (work (account_svc C))\<^sup>*\<^sup>* s t \<longrightarrow>
            (\<exists>q. tget (requests t) i = Some q \<and> rq_state q = rq_state r \<and> rq_legal_hold q)) \<and>
         (faults s = [] \<longrightarrow>
            set_legal_hold i (rq_legal_hold_by r) False s = (Inl ErrHoldNeedsSecondAdmin, s) \<and>
            (admin \<noteq> rq_legal_hold_by r \<longrightarrow>
               (\<exists>q. set_legal_hold i admin False s = (Inr (), s\<lparr>requests := tput i q (requests s)\<rparr>) \<and>
                  \<not> rq_legal_hold q \<and> rq_state q = rq_state r \<and> rq_due_state q = Some (rq_state r) \<and>
                  rq_next_action q = ts (clock s))))"
proof (intro conjI allI impI)
  fix t assume "(work (account_svc C))\<^sup>*\<^sup>* s t"
  moreover have "on_hold i (rq_state r) s"
    using assms(2,3) del_inv_req [OF assms(1)] by (auto simp: on_hold_def)
  ultimately have "on_hold i (rq_state r) t" using account.work_hold assms(4) by blast
  then show "\<exists>q. tget (requests t) i = Some q \<and> rq_state q = rq_state r \<and> rq_legal_hold q" by (auto simp: on_hold_def)
next
  assume "faults s = []"
  with assms(2,3) show "set_legal_hold i (rq_legal_hold_by r) False s = (Inl ErrHoldNeedsSecondAdmin, s)"
    by (simp add: set_legal_hold_def get_calm)
next
  assume calm: "faults s = []" and admin: "admin \<noteq> rq_legal_hold_by r"
  let ?q = "held (clock s) admin False r"
  have f: "rq_id ?q = i" "\<not> releases ?q (rq_state r)" "rq_state ?q = rq_state r"
    using assms(4) del_inv_req [OF assms(1,2)] by (auto simp: held_def Let_def set_due_def releases_def)
  then have "set_legal_hold i admin False s = (Inr (), s\<lparr>requests := tput i ?q (requests s)\<rparr>)"
    using save_calm [OF calm, of ?q r "rq_state r"] assms(2) admin calm by (simp add: set_legal_hold_def get_calm)
  moreover have "\<not> rq_legal_hold ?q" "rq_due_state ?q = Some (rq_state r)" "rq_next_action ?q = ts (clock s)"
    using assms(4) by (auto simp: held_def Let_def set_due_def)
  ultimately show "\<exists>q. set_legal_hold i admin False s = (Inr (), s\<lparr>requests := tput i q (requests s)\<rparr>) \<and>
      \<not> rq_legal_hold q \<and> rq_state q = rq_state r \<and> rq_due_state q = Some (rq_state r) \<and> rq_next_action q = ts (clock s)"
    using f(3) by blast
qed

section \<open>Silent participants\<close>

text \<open>The specification of the scan: a participant that has not answered is overdue when it was put
  back by support or its backoff is over.\<close>

definition overdue :: "time \<Rightarrow> service_status \<Rightarrow> bool" where
  "overdue n st \<longleftrightarrow> ss_status st = ServiceDispatched \<and> (case next_dispatch st of None \<Rightarrow> True | Some d \<Rightarrow> d \<le> n)"

text \<open>A time in the day after \<open>n\<close>.\<close>

definition soon :: "time \<Rightarrow> time option \<Rightarrow> bool" where
  "soon n x \<longleftrightarrow> (\<exists>d. x = Some d \<and> n < d \<and> d \<le> n + 24 * hour)"

lemma backoff_bounds: "15 * minute \<le> ackBackoff ! min k (length ackBackoff - 1) \<and>
    ackBackoff ! min k (length ackBackoff - 1) \<le> 24 * hour"
proof -
  have "\<forall>b \<in> set ackBackoff. 15 * minute \<le> b \<and> b \<le> 24 * hour"
    by (simp add: ackBackoff_def minute_def hour_def second_def)
  moreover have "ackBackoff ! min k (length ackBackoff - 1) \<in> set ackBackoff"
    by (rule nth_mem) (simp add: ackBackoff_def)
  ultimately show ?thesis by blast
qed

lemma soon_sooner: "soon n (Some d) \<Longrightarrow> nxt = None \<or> soon n nxt \<Longrightarrow> soon n (sooner nxt d)"
  by (auto simp: soon_def sooner_def split: option.split)

lemma waiting_soon:
  assumes "ss_status st = ServiceDispatched" and "\<not> overdue n st" and "parse_time (ss_last_dispatch st) \<le> n"
  obtains d where "next_dispatch st = Some d" "soon n (Some d)"
proof -
  obtain d where d: "next_dispatch st = Some d" "n < d" using assms(1,2) by (auto simp: overdue_def split: option.splits)
  then have "d \<le> n + 24 * hour"
    using assms(3) backoff_bounds [of "ss_attempts st - 1"] by (auto simp: next_dispatch_def split: if_splits)
  with d that show ?thesis by (auto simp: soon_def)
qed

lemma redispatched_soon: "\<exists>d. next_dispatch (redispatched n st) = Some d \<and> soon n (Some d)"
proof -
  have "next_dispatch (redispatched n st) = Some (parse_time (ts n) + ackBackoff ! min (ss_attempts st) (length ackBackoff - 1))"
    by (simp add: next_dispatch_def redispatched_def)
  moreover have "15 * minute > second" by (simp add: minute_def second_def)
  ultimately show ?thesis
    using parse_time_ts [of n] backoff_bounds [of "ss_attempts st"] by (auto simp: soon_def)
qed

lemma scan_spec:
  assumes "\<forall>st \<in> set sts. ss_status st \<noteq> ServiceBlocked \<and> parse_time (ss_last_dispatch st) \<le> n"
    and "nxt = None \<or> soon n nxt"
  shows "\<exists>nxt'. scan_services n sts silent nxt = Some (silent @ filter (overdue n) sts, nxt') \<and>
    (nxt' = None \<and> nxt = None \<and> (\<forall>st \<in> set sts. ss_status st = ServiceAcked \<or> overdue n st) \<or> soon n nxt')"
  using assms
proof (induction sts arbitrary: silent nxt)
  case (Cons st sts)
  show ?case
  proof (cases "ss_status st")
    case ServiceDispatched
    show ?thesis
    proof (cases "overdue n st")
      case True
      then have "scan_services n (st # sts) silent nxt = scan_services n sts (silent @ [st]) nxt"
        using ServiceDispatched by (auto simp: overdue_def split: option.splits)
      with Cons.IH [of nxt "silent @ [st]"] Cons.prems True show ?thesis by auto
    next
      case False
      obtain d where d: "next_dispatch st = Some d" "soon n (Some d)"
        using waiting_soon [OF ServiceDispatched False] Cons.prems by auto
      then have "scan_services n (st # sts) silent nxt = scan_services n sts silent (sooner nxt d)"
        using ServiceDispatched False by (auto simp: overdue_def)
      moreover have "soon n (sooner nxt d)" by (rule soon_sooner [OF d(2) Cons.prems(2)])
      ultimately show ?thesis using Cons.IH [of "sooner nxt d" silent] Cons.prems False by (auto simp: soon_def)
    qed
  next
    case ServiceAcked
    with Cons.IH [of nxt silent] Cons.prems show ?thesis by (auto simp: overdue_def)
  next
    case ServiceBlocked
    with Cons.prems show ?thesis by simp
  qed
qed auto

lemma scan_acked: "\<forall>st \<in> set sts. ss_status st = ServiceAcked \<Longrightarrow> scan_services n sts silent nxt = Some (silent, nxt)"
  by (induction sts) simp_all

lemma redispatch_calm:
  fixes s :: "'w del_db"
  assumes "faults s = []" and "nxt = None \<or> soon n nxt" and "sts \<noteq> [] \<or> soon n nxt"
  shows "\<exists>nxt' tb. redispatch n sts nxt s = (Inr nxt', s\<lparr>services := tb\<rparr>) \<and> soon n nxt'"
  using assms
proof (induction sts arbitrary: nxt s)
  case Nil
  then have "redispatch n [] nxt s = (Inr nxt, s\<lparr>services := services s\<rparr>) \<and> soon n nxt" by simp
  then show ?case by blast
next
  case (Cons st sts)
  obtain d where d: "next_dispatch (redispatched n st) = Some d" "soon n (Some d)" using redispatched_soon by blast
  have nxt: "soon n (sooner nxt d)" by (rule soon_sooner [OF d(2) Cons.prems(2)])
  let ?save = "del_save_service (redispatched n st) ServiceDispatched s"
  obtain tb where tb: "snd ?save = s\<lparr>services := tb\<rparr>" and e: "fst ?save = Inl ErrStateChanged \<or> fst ?save = Inr ()"
  proof (cases "?save = (Inl ErrStateChanged, s)")
    case True
    with that [of "services s"] show ?thesis by simp
  next
    case False
    let ?k = "(ss_request (redispatched n st), ss_service (redispatched n st))"
    from False Cons.prems(1) have "?save = (Inr (), services_update (tput ?k (redispatched n st)) s)"
      unfolding del_save_service_def by (simp split: if_splits)
    with that [of "tput ?k (redispatched n st) (services s)"] show ?thesis by simp
  qed
  have "redispatch n (st # sts) nxt s = redispatch n sts (sooner nxt d) (s\<lparr>services := tb\<rparr>)"
    using e tb d by (auto simp: Let_def bind_try_run)
  with Cons.IH [of "s\<lparr>services := tb\<rparr>" "sooner nxt d"] nxt Cons.prems(1) show ?case by auto
qed

lemma unix_day: "unix (n + 24 * hour) = unix n + 86400"
  by (simp add: unix_def hour_def second_def)

lemma soon_ts:
  assumes "soon n nxt"
  shows "\<exists>a. ts (case nxt of None \<Rightarrow> zero_time | Some d \<Rightarrow> d) = Some a \<and> unix n \<le> a \<and> a \<le> unix n + 86400"
proof -
  obtain d where "nxt = Some d" "n < d" "d \<le> n + 24 * hour" using assms by (auto simp: soon_def)
  with unix_mono [of n d] unix_mono [of d "n + 24 * hour"] show ?thesis by (simp add: ts_def unix_day)
qed

lemma erase_calm:
  assumes "faults s = []" and "rq_scope r = ScopeAccount" and "svcs \<noteq> []"
  shows "\<exists>m. erase L r svcs s = (Inr (), s\<lparr>published := published s @ [m]\<rparr>) \<and>
    msg_type m = TypeErase \<and> msg_services m = svcs \<and> msg_request m = rq_id r \<and> msg_sub m = rq_user r"
proof -
  let ?m = "\<lparr>msg_type = TypeErase, msg_request = rq_id r, msg_sub = rq_user r, msg_scope = ScopeAccount,
    msg_services = svcs, msg_organizations = rq_organizations r, msg_workspaces = rq_workspaces r,
    msg_attempt = 1, msg_issued = parse_time (rq_locked_at r)\<rparr>"
  have "erase L r svcs s = (Inr (), s\<lparr>published := published s @ [?m]\<rparr>)"
    using assms by (simp add: erase_def publish_def Let_def publish_message_def)
  then show ?thesis by (intro exI [of _ ?m]) simp
qed

lemma reconcile_save:
  fixes s :: "'w del_db"
  assumes "faults s = []" and "tget (requests s) (rq_id r) = Some r" and "rq_state r = StatePurging" and "soon n nxt"
  defines "q \<equiv> set_due (case nxt of None \<Rightarrow> zero_time | Some d \<Rightarrow> d) (r\<lparr>rq_updated_at := ts n\<rparr>)"
  shows "\<exists>a. bindE (del_save q StatePurging) (\<lambda>_. ret False) s = (Inr False, s\<lparr>requests := tput (rq_id r) q (requests s)\<rparr>) \<and>
     rq_state q = StatePurging \<and> rq_next_action q = Some a \<and> unix n \<le> a \<and> a \<le> unix n + 86400"
proof -
  have q: "rq_id q = rq_id r" "rq_state q = StatePurging" "\<not> releases q StatePurging"
    "rq_next_action q = ts (case nxt of None \<Rightarrow> zero_time | Some d \<Rightarrow> d)"
    using assms(3) by (simp_all add: q_def set_due_def releases_def open_state_def)
  then have "del_save q StatePurging s = (Inr (), s\<lparr>requests := tput (rq_id r) q (requests s)\<rparr>)"
    using save_calm [OF assms(1), of q r StatePurging] assms(2,3) by simp
  with q soon_ts [OF assms(4)] show ?thesis by simp
qed

text \<open>A silent participant is told again. When the worker looks at an account being purged
  and no participant reported a blocker, it either finds every participant done, or it sends one
  order to erase to exactly the participants whose backoff is over (none if there is none) and
  comes back within a day, the request still being purged.\<close>

theorem silent_participants_told:
  fixes s :: "'w del_db" and n :: time
  assumes "faults s = []" and "tget (requests s) (rq_id r) = Some r" and "rq_state r = StatePurging" and "rq_scope r = ScopeAccount"
  defines "rows \<equiv> tquery (\<lambda>k. fst k = rq_id r) (services s)"
  assumes rows: "\<forall>st \<in> set rows. ss_status st \<noteq> ServiceBlocked \<and> parse_time (ss_last_dispatch st) \<le> n"
  defines "late \<equiv> map ss_service (filter (overdue n) rows)"
  shows "if \<forall>st \<in> set rows. ss_status st = ServiceAcked then reconcile (account_svc C) r n s = (Inr True, s)
     else \<exists>t q a. reconcile (account_svc C) r n s = (Inr False, t) \<and> tget (requests t) (rq_id r) = Some q \<and>
       rq_state q = StatePurging \<and> rq_next_action q = Some a \<and> unix n \<le> a \<and> a \<le> unix n + 86400 \<and>
       (if late = [] then published t = published s
        else \<exists>m. published t = published s @ [m] \<and> msg_type m = TypeErase \<and> msg_services m = late \<and> msg_request m = rq_id r)"
proof -
  have list: "del_list_services (rq_id r) s = (Inr rows, s)" using assms(1) by (simp add: del_list_services_def rows_def)
  obtain nxt where scan: "scan_services n rows [] None = Some (filter (overdue n) rows, nxt)"
    and nxt: "nxt = None \<and> (\<forall>st \<in> set rows. ss_status st = ServiceAcked \<or> overdue n st) \<or> soon n nxt"
    using scan_spec [OF rows, of None "[]"] by auto
  have idle: "filter (overdue n) rows = [] \<and> nxt = None \<longleftrightarrow> (\<forall>st \<in> set rows. ss_status st = ServiceAcked)"
    using nxt scan scan_acked [of rows n "[]" None] by (auto simp: soon_def filter_empty_conv)
  let ?save = "\<lambda>x. bindE (del_save (set_due (case x of None \<Rightarrow> zero_time | Some d \<Rightarrow> d) (r\<lparr>rq_updated_at := ts n\<rparr>)) StatePurging) (\<lambda>_. ret False)"
  consider (acked) "\<forall>st \<in> set rows. ss_status st = ServiceAcked" | (wait) "filter (overdue n) rows = []" "soon n nxt"
    "\<not> (\<forall>st \<in> set rows. ss_status st = ServiceAcked)"
    | (tell) "filter (overdue n) rows \<noteq> []" "\<not> (\<forall>st \<in> set rows. ss_status st = ServiceAcked)"
    using nxt idle by auto
  then show ?thesis
  proof cases
    case acked
    with idle scan list show ?thesis by (simp add: reconcile_def)
  next
    case wait
    then have "reconcile (account_svc C) r n s = ?save nxt s" using list scan by (auto simp: reconcile_def soon_def)
    with reconcile_save [OF assms(1-3) wait(2)] wait(1,3) show ?thesis by (auto simp: late_def)
  next
    case tell
    then obtain m where m: "erase (account_locker C) r late s = (Inr (), s\<lparr>published := published s @ [m]\<rparr>)"
      "msg_type m = TypeErase" "msg_services m = late" "msg_request m = rq_id r"
      using erase_calm [OF assms(1,4), of late "account_locker C"] by (auto simp: late_def)
    obtain x tb where d: "redispatch n (filter (overdue n) rows) nxt (s\<lparr>published := published s @ [m]\<rparr>) =
        (Inr x, s\<lparr>published := published s @ [m], services := tb\<rparr>)" "soon n x"
      using redispatch_calm [of "s\<lparr>published := published s @ [m]\<rparr>" nxt n "filter (overdue n) rows"] tell(1) nxt assms(1) by auto
    have "reconcile (account_svc C) r n s = ?save x (s\<lparr>published := published s @ [m], services := tb\<rparr>)"
      using tell(1) list scan m(1) d(1) by (simp add: reconcile_def late_def)
    with reconcile_save [of "s\<lparr>published := published s @ [m], services := tb\<rparr>", OF _ _ assms(3) d(2)] assms(1,2) tell m
    show ?thesis by (auto simp: late_def)
  qed
qed

section \<open>Hold and reminder on the concrete run\<close>

definition demo_held :: "unit del_db" where
  "demo_held = answer (account_svc demo_cfg) (CallHold ''r1'' ''ada'' True) demo_pending"

lemma demo_held_req:
  "del_inv (account_svc demo_cfg) demo_held" "tget (requests demo_held) ''r1'' = Some (demo_req demo_held)"
  "rq_legal_hold (demo_req demo_held)" "rq_state (demo_req demo_held) = StatePending"
proof -
  have "(del_step (account_svc demo_cfg))\<^sup>*\<^sup>* demo_del demo_held"
    unfolding demo_held_def using demo_runs(1) del_step.called by (rule rtranclp.rtrancl_into_rtrancl)
  then show "del_inv (account_svc demo_cfg) demo_held" by (rule account.reachable_inv [OF demo_start])
qed code_simp+

theorem legal_hold_stops_worker_witness:
  "\<exists>q. tget (requests (answer (account_svc demo_cfg) CallWorker (demo_held\<lparr>clock := 8 * day\<rparr>))) ''r1'' = Some q \<and>
     rq_state q = StatePending"
proof -
  have "work (account_svc demo_cfg) demo_held (demo_held\<lparr>clock := 8 * day\<rparr>)"
    by (rule work.other) (simp add: quiet_but_def)
  then have "(work (account_svc demo_cfg))\<^sup>*\<^sup>* demo_held (answer (account_svc demo_cfg) CallWorker (demo_held\<lparr>clock := 8 * day\<rparr>))"
    by (rule rtranclp.rtrancl_into_rtrancl [OF r_into_rtranclp]) (rule work.pass)
  with legal_hold_stops_worker [OF demo_held_req(1-3)] demo_held_req(4) show ?thesis by auto
qed

lemma demo_purging_rows:
  "faults demo_purging = []" "rq_id (demo_req demo_purging) = ''r1''" "rq_scope (demo_req demo_purging) = ScopeAccount"
  "map (\<lambda>st. (ss_service st, ss_status st, ss_last_dispatch st)) (tquery (\<lambda>k. fst k = ''r1'') (services demo_purging)) =
     [(''dfe'', ServiceDispatched, Some 691200)]"
  by code_simp+

theorem silent_participants_told_witness:
  "\<exists>t. reconcile (account_svc demo_cfg) (demo_req demo_purging) (9 * day) demo_purging = (Inr False, t)"
proof -
  obtain st where st: "tquery (\<lambda>k. fst k = ''r1'') (services demo_purging) = [st]" "ss_status st = ServiceDispatched"
    "ss_last_dispatch st = Some 691200"
    using demo_purging_rows(4) by auto
  then have "parse_time (ss_last_dispatch st) \<le> 9 * day" by (simp add: parse_time_def day_def second_def)
  then show ?thesis
    using silent_participants_told [OF demo_purging_rows(1), of "demo_req demo_purging" "9 * day" demo_cfg] st demo_reqs demo_purging_rows
    by (auto split: if_splits)
qed

section \<open>Ownership\<close>

lemma assess_memberships_run:
  assumes "\<And>org. od_members D org uid w = (Inr (members org), w)" and "\<And>org. od_kind D org w = (Inr (kind org), w)"
  shows "assess_memberships D uid ms w = (Inr
     (map (\<lambda>m. \<lparr>ws_id = ms_organization m, ws_kind = kind (ms_organization m)\<rparr>)
        (filter (\<lambda>m. ms_role m = RoleOwner \<and> length (members (ms_organization m)) \<le> 1) ms),
      map (\<lambda>m. \<lparr>bl_code = BlockerSharedOrganization, bl_detail = [(''organization_id'', ms_organization m)]\<rparr>)
        (filter (\<lambda>m. ms_role m = RoleOwner \<and> 1 < length (members (ms_organization m))) ms)), w)"
  by (induction ms) (auto simp: assms)

text \<open>Who may leave. With every collaborator answering, the assessment of an account lists as
  its sole workspaces exactly the organizations the user owns alone, in order, and it reports no
  blocker exactly if every organization the user owns has no other member, every OAuth client the
  user owns is first-party, and no participant objects to erasing those workspaces.\<close>

theorem ownership_exact:
  fixes D :: "'w ownership_deps"
  assumes "od_memberships D uid w = (Inr ms, w)" and "\<And>org. od_members D org uid w = (Inr (members org), w)"
    and "\<And>org. od_kind D org w = (Inr (kind org), w)" and "od_owned_clients D uid w = (Inr clients, w)"
    and "\<And>orgs. remote uid orgs w = (Inr (objections orgs), w)"
  shows "\<exists>sole blockers. composite_assess (ownership_assess D) remote uid w = (Inr (sole, blockers), w) \<and>
     map ws_id sole = map ms_organization (filter (\<lambda>m. ms_role m = RoleOwner \<and> length (members (ms_organization m)) \<le> 1) ms) \<and>
     (\<forall>x \<in> set sole. ws_kind x = kind (ws_id x)) \<and>
     (blockers = [] \<longleftrightarrow> (\<forall>m \<in> set ms. ms_role m = RoleOwner \<longrightarrow> length (members (ms_organization m)) \<le> 1) \<and>
        (\<forall>c \<in> set clients. oc_first_party c) \<and> objections (map ws_id sole) = [])"
proof -
  let ?alone = "filter (\<lambda>m. ms_role m = RoleOwner \<and> length (members (ms_organization m)) \<le> 1) ms"
  let ?sole = "map (\<lambda>m. \<lparr>ws_id = ms_organization m, ws_kind = kind (ms_organization m)\<rparr>) ?alone"
  let ?bs = "map (\<lambda>m. \<lparr>bl_code = BlockerSharedOrganization, bl_detail = [(''organization_id'', ms_organization m)]\<rparr>)
        (filter (\<lambda>m. ms_role m = RoleOwner \<and> 1 < length (members (ms_organization m))) ms) @
      map (\<lambda>c. \<lparr>bl_code = BlockerOwnedClient, bl_detail = [(''client_id'', oc_id c)]\<rparr>) (filter (\<lambda>c. \<not> oc_first_party c) clients)"
  have "ownership_assess D uid w = (Inr (?sole, ?bs), w)"
    using assess_memberships_run [OF assms(2,3)] assms(1,4) by (simp add: ownership_assess_def)
  then have "composite_assess (ownership_assess D) remote uid w = (Inr (?sole, ?bs @ objections (map ws_id ?sole)), w)"
    using assms(5) by (simp add: composite_assess_def)
  moreover have "?bs = [] \<longleftrightarrow> (\<forall>m \<in> set ms. ms_role m = RoleOwner \<longrightarrow> length (members (ms_organization m)) \<le> 1) \<and>
      (\<forall>c \<in> set clients. oc_first_party c)" by (auto simp: filter_empty_conv not_less)
  ultimately show ?thesis
    by (intro exI [of _ ?sole] exI [of _ "?bs @ objections (map ws_id ?sole)"]) (simp add: comp_def, blast)
qed

definition demo_members :: "string \<Rightarrow> membership list" where
  "demo_members org = replicate (if org = ''o1'' then 1 else 2) \<lparr>ms_organization = org, ms_role = ''owner''\<rparr>"

definition demo_owner :: "unit ownership_deps" where
  "demo_owner = \<lparr>od_memberships = (\<lambda>_. ret [\<lparr>ms_organization = ''o1'', ms_role = ''owner''\<rparr>, \<lparr>ms_organization = ''o2'', ms_role = ''owner''\<rparr>]),
     od_members = (\<lambda>org uid. ret (demo_members org)),
     od_kind = (\<lambda>_. ret ''personal''), od_owned_clients = nobody\<rparr>"

theorem ownership_exact_witness:
  "\<exists>sole blockers. composite_assess (ownership_assess demo_owner) (\<lambda>_. nobody) ''u'' () = (Inr (sole, blockers), ()) \<and>
     map ws_id sole = [''o1''] \<and> blockers \<noteq> []"
  using ownership_exact [of demo_owner "''u''" "()"
      "[\<lparr>ms_organization = ''o1'', ms_role = ''owner''\<rparr>, \<lparr>ms_organization = ''o2'', ms_role = ''owner''\<rparr>]"
      demo_members "\<lambda>_. ''personal''" "[]" "\<lambda>_. nobody" "\<lambda>_. []"]
  by (auto simp: demo_owner_def demo_members_def nobody_def RoleOwner_def)

section \<open>Where a hold does not reach\<close>

definition demo_locked_held :: request where
  "demo_locked_held = (locked (8 * day) [] (demo_req demo_pending))\<lparr>rq_legal_hold := True\<rparr>"

text \<open>A hold that is placed between the lock and the dispatch does not stop the dispatch: the
  worker orders a locked request that is under legal hold to be erased, and it moves to purging.\<close>

lemma hold_misses_locked:
  "TypeErase \<in> msg_type ` set (published (snd (step demo_svc demo_locked_held (8 * day)
     (demo_pending\<lparr>requests := [(''r1'', demo_locked_held)]\<rparr>)))) \<and>
   map (\<lambda>(i, r). (rq_state r, rq_legal_hold r)) (requests (snd (step demo_svc demo_locked_held (8 * day)
     (demo_pending\<lparr>requests := [(''r1'', demo_locked_held)]\<rparr>)))) = [(StatePurging, True)]"
  by (rule conjI) code_simp+

text \<open>A hold can be lost: \<open>Save\<close> is conditional on the state only, so the worker, when it read the request before the
  hold was placed, writes its copy back and the hold is gone.\<close>

lemma hold_lost_update:
  "map (\<lambda>(i, r). rq_legal_hold r) (requests demo_held) = [True] \<and>
   map (\<lambda>(i, r). rq_legal_hold r) (requests (snd (send_cancel_link demo_svc (demo_req demo_pending) LinkReminder demo_held))) = [False]"
  by (rule conjI) code_simp+

end
