(* ===== verification/DeletionLock.thy ===== *)
theory DeletionLock
  imports DeletionWorker
begin

text \<open>
  What locking an account does to the components it goes through: users, sessions, API keys,
  access tokens and the participants; and what leaving one product does not touch.
\<close>

section \<open>Revoking API keys\<close>

definition key_pos :: "string \<Rightarrow> api_key \<Rightarrow> key" where
  "key_pos uid k = (build_pk uid, build_key_sk (key_id k))"

lemma key_wf_tbl: "key_wf s \<Longrightarrow> key_wf (s\<lparr>key_tbl := tdel q (key_tbl s)\<rparr>)"
  by (simp add: key_wf_def)

lemma forE_revoke_keys:
  fixes s :: "'w del_db"
  assumes "faults s = []" and "key_wf s" and "distinct (map key_id ks)"
    and "\<forall>k \<in> set ks. tget (key_tbl s) (key_pos uid k) = Some k"
  shows "forE ks (\<lambda>k. if p k then mapErr DKey (revoke_key uid (key_id k)) else ret ()) s =
    (Inr (), s\<lparr>key_tbl := fold tdel (map (key_pos uid) (filter p ks)) (key_tbl s)\<rparr>)"
  using assms
proof (induction ks arbitrary: s)
  case (Cons k ks)
  show ?case
  proof (cases "p k")
    case True
    let ?t = "s\<lparr>key_tbl := tdel (key_pos uid k) (key_tbl s)\<rparr>"
    have "revoke_key uid (key_id k) s = (Inr (), ?t)"
      using revoke_key_run [OF Cons.prems(1,2), of uid "key_id k" k] Cons.prems(4) by (simp add: key_pos_def)
    then have one: "mapErr DKey (revoke_key uid (key_id k)) s = (Inr (), ?t)" by (simp add: mapErr_run)
    have "\<forall>x \<in> set ks. key_pos uid x \<noteq> key_pos uid k" using Cons.prems(3) by (simp add: key_pos_def) (metis image_eqI)
    then have "forE ks (\<lambda>k. if p k then mapErr DKey (revoke_key uid (key_id k)) else ret ()) ?t =
        (Inr (), ?t\<lparr>key_tbl := fold tdel (map (key_pos uid) (filter p ks)) (key_tbl ?t)\<rparr>)"
      using Cons.prems key_wf_tbl [OF Cons.prems(2), of "key_pos uid k"] by (intro Cons.IH) auto
    with True one show ?thesis by simp
  next
    case False
    with Cons show ?thesis by simp
  qed
qed simp

lemma tget_fold_tdel': "tget (fold tdel ks tb) k = (if k \<in> set ks then None else tget tb k)"
  by (induction ks arbitrary: tb) auto

text \<open>Exactly the live keys of the user that satisfy the condition are gone.\<close>

definition keys_left :: "time \<Rightarrow> string \<Rightarrow> (api_key \<Rightarrow> bool) \<Rightarrow> (key, api_key) table \<Rightarrow> key \<Rightarrow> api_key option" where
  "keys_left n uid p tb q = (case tget tb q of None \<Rightarrow> None | Some k \<Rightarrow>
     if fst q = build_pk uid \<and> \<not> key_is_expired n k \<and> p k then None else Some k)"

lemma revoke_keys_run:
  fixes s :: "'w del_db"
  assumes "faults s = []" and "key_wf s"
  obtains tb where "revoke_keys p uid s = (Inr (), s\<lparr>key_tbl := tb\<rparr>)"
    and "tget tb = keys_left (clock s) uid p (key_tbl s)"
proof -
  obtain ks where ks: "list_keys uid s = (Inr ks, s)" "distinct (map key_id ks)"
    "\<And>i. i \<in> set ks \<longleftrightarrow> tget (key_tbl s) (build_pk uid, build_key_sk (key_id i)) = Some i \<and> \<not> key_is_expired (clock s) i"
    using list_keys_run [OF assms] by blast
  let ?tb = "fold tdel (map (key_pos uid) (filter p ks)) (key_tbl s)"
  have "revoke_keys p uid s = (Inr (), s\<lparr>key_tbl := ?tb\<rparr>)"
    using forE_revoke_keys [OF assms ks(2), of uid p] ks(1,3) by (simp add: revoke_keys_def mapErr_run key_pos_def)
  moreover have "tget ?tb q = keys_left (clock s) uid p (key_tbl s) q" for q
  proof (cases "tget (key_tbl s) q")
    case None
    then show ?thesis by (simp add: tget_fold_tdel' keys_left_def)
  next
    case (Some k)
    have q: "q = (build_pk (key_user_id k), build_key_sk (key_id k))"
      using key_wfD [OF assms(2) Some] by (simp add: key_item_ok_def)
    have "q \<in> key_pos uid ` set (filter p ks) \<longleftrightarrow> fst q = build_pk uid \<and> \<not> key_is_expired (clock s) k \<and> p k"
    proof
      assume "q \<in> key_pos uid ` set (filter p ks)"
      then obtain x where x: "q = key_pos uid x" "x \<in> set ks" "p x" by auto
      with ks(3) [of x] Some have "x = k" by (simp add: key_pos_def)
      with x ks(3) [of x] show "fst q = build_pk uid \<and> \<not> key_is_expired (clock s) k \<and> p k" by (simp add: key_pos_def)
    next
      assume r: "fst q = build_pk uid \<and> \<not> key_is_expired (clock s) k \<and> p k"
      with q have "q = key_pos uid k" by (simp add: key_pos_def)
      with r Some ks(3) [of k] show "q \<in> key_pos uid ` set (filter p ks)" by (auto simp: key_pos_def)
    qed
    with Some show ?thesis by (auto simp: tget_fold_tdel' keys_left_def)
  qed
  ultimately show ?thesis using that by blast
qed

section \<open>Locking an account\<close>

definition shut_user :: "time \<Rightarrow> string \<Rightarrow> user \<Rightarrow> user" where
  "shut_user n i u = u\<lparr>u_deletion_state := DeletionStatePending, u_deletion_request_id := Some i, u_updated_at := ts n\<rparr>"

lemma shut_user_state [simp]: "u_deletion_state (shut_user n i u) \<noteq> []"
  by (simp add: shut_user_def DeletionStatePending_def)

lemma mark_run:
  fixes s :: "'w del_db"
  assumes "faults s = []" and "tget (user_tbl s) (build_pk uid) = Some (UserI u)"
  shows "mark_pending_deletion uid i s = (Inr (), s\<lparr>user_tbl := tput (build_pk uid) (UserI (shut_user (clock s) i u)) (user_tbl s)\<rparr>)"
  using assms by (simp add: mark_pending_deletion_def user_update_def upd_user_def shut_user_def)

lemma mapErr_wins: "f s = (Inr x, t) \<Longrightarrow> mapErr h f s = (Inr x, t)"
  by (simp add: mapErr_run)

text \<open>What the participants are told about a whole account: one message that names them all, if there are any.\<close>

definition notices :: "locker \<Rightarrow> request \<Rightarrow> msg_type \<Rightarrow> time \<Rightarrow> message list" where
  "notices L r typ n = (if lk_services L = [] then [] else [\<lparr>msg_type = typ, msg_request = rq_id r, msg_sub = rq_user r,
     msg_scope = ScopeAccount, msg_services = lk_services L, msg_organizations = [], msg_workspaces = [], msg_attempt = 1, msg_issued = n\<rparr>])"

lemma publish_run:
  assumes "faults s = []" and "rq_scope r = ScopeAccount"
  shows "publish L r typ n [] [] [] s = (Inr (), s\<lparr>published := published s @ notices L r typ n\<rparr>)"
  using assms by (simp add: publish_def publish_message_def notices_def)

lemma lock_run:
  fixes s :: "'w del_db"
  assumes "faults s = []" and "sess_wf s" and "key_wf s" and "rq_scope r = ScopeAccount"
    and "tget (user_tbl s) (build_pk (rq_user r)) = Some (UserI u)"
  obtains st kt where "lock L r s = (Inr (), s\<lparr>
      user_tbl := tput (build_pk (rq_user r)) (UserI (shut_user (clock s) (rq_id r) u)) (user_tbl s),
      sess_tbl := st, key_tbl := kt, cutoffs := tput (rq_user r) (clock s) (cutoffs s),
      published := published s @ notices L r TypeLocked (parse_time (rq_confirmed_at r))\<rparr>)"
    and "tget st = without (\<lambda>k i. \<exists>sid. live_session (clock s) (sess_tbl s) (rq_user r) sid \<and> sid \<noteq> [] \<and>
      revoked_key (rq_user r) sid k) (sess_tbl s)"
    and "tget kt = keys_left (clock s) (rq_user r) (\<lambda>_. True) (key_tbl s)"
proof -
  let ?u = "rq_user r"
  let ?s1 = "s\<lparr>user_tbl := tput (build_pk ?u) (UserI (shut_user (clock s) (rq_id r) u)) (user_tbl s)\<rparr>"
  have "sess_wf ?s1" using assms(2) by (simp add: sess_wf_def)
  then have "removes (\<lambda>k i. \<exists>sid. live_session (clock ?s1) (sess_tbl ?s1) ?u sid \<and> sid \<noteq> [] \<and> revoked_key ?u sid k)
      (revoke_all ?u []) ?s1" using assms(1) by (intro removes_revoke_all) simp_all
  then obtain st where st: "revoke_all ?u [] ?s1 = (Inr (), ?s1\<lparr>sess_tbl := st\<rparr>)"
    "tget st = without (\<lambda>k i. \<exists>sid. live_session (clock s) (sess_tbl s) ?u sid \<and> sid \<noteq> [] \<and> revoked_key ?u sid k) (sess_tbl s)"
    by (auto elim: removesE)
  let ?s2 = "?s1\<lparr>sess_tbl := st\<rparr>"
  have "key_wf ?s2" using assms(3) by (simp add: key_wf_def)
  then obtain kt where kt: "revoke_keys (\<lambda>_. True) ?u ?s2 = (Inr (), ?s2\<lparr>key_tbl := kt\<rparr>)"
    "tget kt = keys_left (clock s) ?u (\<lambda>_. True) (key_tbl s)"
    using revoke_keys_run [of ?s2 "\<lambda>_. True" ?u] assms(1) by auto
  let ?s3 = "?s2\<lparr>key_tbl := kt, cutoffs := tput ?u (clock s) (cutoffs s)\<rparr>"
  have cut: "revoke_tokens ?u (?s2\<lparr>key_tbl := kt\<rparr>) = (Inr (), ?s3)" using assms(1) by (simp add: revoke_tokens_def)
  let ?ms = "notices L r TypeLocked (parse_time (rq_confirmed_at r))"
  have ms: "publish L r TypeLocked (parse_time (rq_confirmed_at r)) [] [] [] ?s3 = (Inr (), ?s3\<lparr>published := published s @ ?ms\<rparr>)"
    using publish_run [of ?s3 r L] assms(1,4) by simp
  have "mapErr DUser (mark_pending_deletion ?u (rq_id r)) s = (Inr (), ?s1)"
    by (rule mapErr_wins) (rule mark_run [OF assms(1,5)])
  moreover have "mapErr DSession (revoke_all ?u []) ?s1 = (Inr (), ?s2)" by (rule mapErr_wins) (rule st(1))
  ultimately have "lock L r s = (Inr (), ?s3\<lparr>published := published s @ ?ms\<rparr>)"
    using assms(4) kt(1) cut ms by (simp add: lock_def)
  with that [OF _ st(2) kt(2)] show ?thesis by simp
qed

text \<open>Claim C7. A lock shuts the account out everywhere. With the database answering, locking a user
  ends every live session and every live API key of the user, dates the user's access tokens as
  revoked from now on, refuses every sign-in with a password to that user, and publishes, if
  there are any participants, one message that names this request, its user and all of them;
  sessions, keys and user items of everybody else stay as they were. No session may be stored under
  an empty id: the code that revokes all sessions takes that id for none to be spared.\<close>

theorem lock_shuts_account:
  fixes s :: "'w del_db"
  assumes "faults s = []" and "sess_wf s" and "key_wf s" and "user_wf s" and "rq_scope r = ScopeAccount"
    and "tget (user_tbl s) (build_pk (rq_user r)) = Some (UserI u)"
    and no_blank: "\<not> live_session (clock s) (sess_tbl s) (rq_user r) []"
  shows "\<exists>t. lock L r s = (Inr (), t) \<and>
     (\<forall>sid. \<not> live_session (clock s) (sess_tbl t) (rq_user r) sid) \<and>
     (\<forall>kid. \<not> live_key (clock s) (key_tbl t) (rq_user r) kid) \<and>
     tget (cutoffs t) (rq_user r) = Some (clock s) \<and>
     (\<forall>argon dummy email pw v. fst (login argon dummy email pw t) = Inr v \<longrightarrow> user_id v \<noteq> rq_user r) \<and>
     (\<exists>m. published t = published s @ (if lk_services L = [] then [] else [m]) \<and> msg_type m = TypeLocked \<and>
        msg_request m = rq_id r \<and> msg_sub m = rq_user r \<and> msg_scope m = ScopeAccount \<and> msg_services m = lk_services L) \<and>
     (\<forall>k. fst k \<noteq> build_pk (rq_user r) \<longrightarrow> tget (sess_tbl t) k = tget (sess_tbl s) k \<and> tget (key_tbl t) k = tget (key_tbl s) k) \<and>
     (\<forall>k. k \<noteq> build_pk (rq_user r) \<longrightarrow> tget (user_tbl t) k = tget (user_tbl s) k)"
proof -
  let ?ms = "notices L r TypeLocked (parse_time (rq_confirmed_at r))"
  obtain st kt where run: "lock L r s = (Inr (), s\<lparr>
      user_tbl := tput (build_pk (rq_user r)) (UserI (shut_user (clock s) (rq_id r) u)) (user_tbl s),
      sess_tbl := st, key_tbl := kt, cutoffs := tput (rq_user r) (clock s) (cutoffs s), published := published s @ ?ms\<rparr>)"
      (is "_ = (Inr (), ?t)")
    and st: "tget st = without (\<lambda>k i. \<exists>sid. live_session (clock s) (sess_tbl s) (rq_user r) sid \<and> sid \<noteq> [] \<and>
      revoked_key (rq_user r) sid k) (sess_tbl s)"
    and kt: "tget kt = keys_left (clock s) (rq_user r) (\<lambda>_. True) (key_tbl s)"
    by (rule lock_run [OF assms(1-3,5,6), where L = L])
  have sess: "\<not> live_session (clock s) st (rq_user r) sid" for sid
  proof
    assume "live_session (clock s) st (rq_user r) sid"
    then obtain x where x: "tget st (build_pk (rq_user r), build_sk sid) = Some (SessionI x)" "\<not> session_is_expired (clock s) x"
      by (auto simp: live_session_iff)
    then have old: "tget (sess_tbl s) (build_pk (rq_user r), build_sk sid) = Some (SessionI x)"
      and keep: "\<not> (\<exists>sid'. live_session (clock s) (sess_tbl s) (rq_user r) sid' \<and> sid' \<noteq> [] \<and>
        revoked_key (rq_user r) sid' (build_pk (rq_user r), build_sk sid))"
      unfolding st without_def by (auto split: option.splits if_splits)
    from old x(2) have "live_session (clock s) (sess_tbl s) (rq_user r) sid" by (auto simp: live_session_iff)
    moreover have "sid \<noteq> []" using calculation no_blank by blast
    moreover have "revoked_key (rq_user r) sid (build_pk (rq_user r), build_sk sid)" by (simp add: revoked_key_def)
    ultimately show False using keep by blast
  qed
  have keys: "\<not> live_key (clock s) kt (rq_user r) kid" for kid
    by (auto simp: live_key_def kt keys_left_def split: option.splits if_splits)
  have login: "user_id v \<noteq> rq_user r" if "fst (login argon dummy email pw ?t) = Inr v" for argon dummy email pw v
  proof -
    have wf: "tkeys (user_tbl ?t)" using assms(4) by (simp add: user_wf_def)
    from that have "login argon dummy email pw ?t = (Inr v, snd (login argon dummy email pw ?t))" by (simp add: prod_eq_iff)
    from login_Inr [OF this wf] obtain k where k: "tget (user_tbl ?t) k = Some (UserI v)" "u_deletion_state v = []"
      by (auto simp: may_sign_in_def)
    then have other: "k \<noteq> build_pk (rq_user r)" by auto
    with k(1) have "tget (user_tbl s) k = Some (UserI v)" by simp
    from user_wfD [OF assms(4) this] other show ?thesis by metis
  qed
  have others: "tget st k = tget (sess_tbl s) k \<and> tget kt k = tget (key_tbl s) k" if "fst k \<noteq> build_pk (rq_user r)" for k
    using that by (auto simp: st kt without_def keys_left_def revoked_key_def split: option.split)
  define m where "m = \<lparr>msg_type = TypeLocked, msg_request = rq_id r, msg_sub = rq_user r, msg_scope = ScopeAccount,
    msg_services = lk_services L, msg_organizations = [], msg_workspaces = [], msg_attempt = 1, msg_issued = parse_time (rq_confirmed_at r)\<rparr>"
  have ms: "?ms = (if lk_services L = [] then [] else [m])" by (simp add: notices_def m_def)
  have told: "\<exists>m. published ?t = published s @ (if lk_services L = [] then [] else [m]) \<and> msg_type m = TypeLocked \<and>
      msg_request m = rq_id r \<and> msg_sub m = rq_user r \<and> msg_scope m = ScopeAccount \<and> msg_services m = lk_services L"
    by (rule exI [of _ m]) (simp add: ms, simp add: m_def)
  show ?thesis using run sess keys login told others by (intro exI [of _ ?t]) auto
qed

definition demo_signed_in :: "unit del_db" where
  "demo_signed_in = demo_del\<lparr>sess_tbl := sess_tbl demo_db\<rparr>"

definition demo_order :: request where
  "demo_order = new_request ''r1'' ''u'' ScopeAccount [] [] 0"

theorem lock_shuts_account_witness:
  "\<exists>t. lock (account_locker demo_cfg) demo_order demo_signed_in = (Inr (), t) \<and>
     live_session 0 (sess_tbl demo_signed_in) ''u'' ''s'' \<and> \<not> live_session 0 (sess_tbl t) ''u'' ''s''"
proof -
  have "sess_wf demo_signed_in" using demo_wf by (simp add: sess_wf_def demo_signed_in_def demo_del_def plain_id_def)
  moreover have "key_wf demo_signed_in" by (simp add: key_wf_def demo_signed_in_def demo_del_def)
  moreover have "user_wf demo_signed_in"
    by (auto simp: user_wf_def demo_signed_in_def demo_del_def tkeys_def demo_user_def blank_user_def user_id_def
        build_pk_def trim_prefix_def has_prefix_def split: if_splits)
  moreover have "rq_scope demo_order = ScopeAccount" "rq_user demo_order = ''u''"
    by (simp_all add: demo_order_def new_request_def set_due_def)
  moreover have "faults demo_signed_in = []" "clock demo_signed_in = 0"
    "tget (user_tbl demo_signed_in) (build_pk ''u'') = Some (UserI demo_user)"
    by (simp_all add: demo_signed_in_def demo_del_def build_pk_def)
  moreover have "\<not> live_session 0 (sess_tbl demo_signed_in) ''u'' []" "live_session 0 (sess_tbl demo_signed_in) ''u'' ''s''"
    by code_simp+
  ultimately show ?thesis
    using lock_shuts_account [of demo_signed_in demo_order demo_user "account_locker demo_cfg"] by auto
qed

end
