(* ===== verification/TaxID.thy ===== *)
theory TaxID
  imports Prelude
begin

text \<open>
  Brazilian tax ids (\<open>api/internal/domain/company/taxid.go\<close>): removal of the mask, the kinds of
  documents, and the two modulus-11 check digits, with the alphanumeric CNPJ. The source ranges
  over runes and then over bytes; every rune that is kept is one byte, and every other rune is
  refused, so a \<open>string\<close> of bytes gives the same answers.
\<close>

section \<open>Normalization\<close>

datatype tax_kind = KindCNPJ | KindCPF

definition cnpjLength :: nat where "cnpjLength = 14"
definition cpfLength :: nat where "cpfLength = 11"
definition cnpjBodyLength :: nat where "cnpjBodyLength = 12"

definition code :: "char \<Rightarrow> nat" where
  "code c = of_char c"

definition is_digit :: "char \<Rightarrow> bool" where
  "is_digit c \<longleftrightarrow> code CHR ''0'' \<le> code c \<and> code c \<le> code CHR ''9''"

definition is_upper :: "char \<Rightarrow> bool" where
  "is_upper c \<longleftrightarrow> code CHR ''A'' \<le> code c \<and> code c \<le> code CHR ''Z''"

definition is_lower :: "char \<Rightarrow> bool" where
  "is_lower c \<longleftrightarrow> code CHR ''a'' \<le> code c \<and> code c \<le> code CHR ''z''"

fun canonicalize :: "string \<Rightarrow> string option" where
  "canonicalize [] = Some []"
| "canonicalize (c # cs) =
     (if is_digit c \<or> is_upper c then map_option ((#) c) (canonicalize cs)
      else if is_lower c then map_option ((#) (char_of (code c - code CHR ''a'' + code CHR ''A''))) (canonicalize cs)
      else if c \<in> set ''./- '' then canonicalize cs
      else None)"

definition is_all_digits :: "string \<Rightarrow> bool" where
  "is_all_digits s \<longleftrightarrow> list_all is_digit s"

fun all_same_char :: "string \<Rightarrow> bool" where
  "all_same_char [] = True"
| "all_same_char (c # cs) = list_all ((=) c) cs"

definition char_value :: "char \<Rightarrow> int" where
  "char_value c = int (code c) - 48"

definition cnpj_weight :: "nat \<Rightarrow> int" where
  "cnpj_weight pos = int (pos mod 8 + 2)"

definition cpf_weight :: "nat \<Rightarrow> int" where
  "cpf_weight pos = int (pos + 2)"

text \<open>The loop of \<open>checkDigit\<close> runs from the last index down; \<open>n\<close> is the number of characters
  that are left.\<close>

fun digit_sum :: "string \<Rightarrow> (nat \<Rightarrow> int) \<Rightarrow> nat \<Rightarrow> int \<Rightarrow> int" where
  "digit_sum body w 0 acc = acc"
| "digit_sum body w (Suc i) acc = digit_sum body w i (acc + char_value (body ! i) * w (length body - 1 - i))"

definition check_digit :: "string \<Rightarrow> (nat \<Rightarrow> int) \<Rightarrow> char" where
  "check_digit body w =
     (let rem = digit_sum body w (length body) 0 mod 11 in
      if rem \<ge> 2 then char_of (nat (48 + 11 - rem)) else CHR ''0'')"

definition valid_check_digits :: "string \<Rightarrow> nat \<Rightarrow> (nat \<Rightarrow> int) \<Rightarrow> bool" where
  "valid_check_digits s n w \<longleftrightarrow>
     s ! n = check_digit (take n s) w \<and> s ! (n + 1) = check_digit (take (n + 1) s) w"

definition normalize_tax_id :: "string \<Rightarrow> (string \<times> tax_kind) option" where
  "normalize_tax_id raw = (case canonicalize raw of
       None \<Rightarrow> None
     | Some c \<Rightarrow>
         if all_same_char c then None
         else if length c = cpfLength then
           (if \<not> is_all_digits c \<or> \<not> valid_check_digits c (cpfLength - 2) cpf_weight then None else Some (c, KindCPF))
         else if length c = cnpjLength then
           (if \<not> is_all_digits (drop cnpjBodyLength c) \<or> \<not> valid_check_digits c cnpjBodyLength cnpj_weight then None
            else Some (c, KindCNPJ))
         else None)"

section \<open>Canonical text\<close>

definition alnum :: "char \<Rightarrow> bool" where
  "alnum c \<longleftrightarrow> is_digit c \<or> is_upper c"

lemma code_chars [simp]: "code CHR ''0'' = 48" "code CHR ''9'' = 57" "code CHR ''A'' = 65" "code CHR ''Z'' = 90"
  "code CHR ''a'' = 97" "code CHR ''z'' = 122"
  by (simp_all add: code_def)

lemma code_char_of: "n < 256 \<Longrightarrow> code (char_of n) = n"
  by (simp add: code_def)

lemma lower_to_upper: "is_lower c \<Longrightarrow> is_upper (char_of (code c - 97 + 65))"
  by (auto simp: is_lower_def is_upper_def code_char_of)

lemma canonicalize_alnum: "canonicalize s = Some c \<Longrightarrow> list_all alnum c"
  by (induction s arbitrary: c) (auto simp: alnum_def lower_to_upper split: if_splits)

lemma canonicalize_fixed: "list_all alnum s \<Longrightarrow> canonicalize s = Some s"
  by (induction s) (auto simp: alnum_def)

text \<open>Characters of a mask: dropped wherever they stand.\<close>

lemma mask_chars: "c \<in> set ''./- '' \<Longrightarrow> canonicalize (c # s) = canonicalize s"
  by (auto simp: is_digit_def is_upper_def is_lower_def code_def)

lemma canonicalize_append: "canonicalize (s @ t) = Option.bind (canonicalize s) (\<lambda>x. map_option ((@) x) (canonicalize t))"
  by (induction s) (auto simp: map_option_case split: option.split bind_splits)

section \<open>Check digits\<close>

lemma digit_sum_acc: "digit_sum body w n acc = acc + (\<Sum>i<n. char_value (body ! i) * w (length body - 1 - i))"
  by (induction n arbitrary: acc) auto

lemma check_digit_is_digit: "is_digit (check_digit body w)"
proof -
  let ?r = "digit_sum body w (length body) 0 mod 11"
  have "?r < 11" "0 \<le> ?r" by simp_all
  then have "?r \<ge> 2 \<Longrightarrow> code (char_of (nat (48 + 11 - ?r))) = nat (59 - ?r)" by (simp add: code_char_of)
  with \<open>?r < 11\<close> show ?thesis by (auto simp: check_digit_def Let_def is_digit_def)
qed

text \<open>The two digits that complete a body.\<close>

definition completion :: "string \<Rightarrow> (nat \<Rightarrow> int) \<Rightarrow> string" where
  "completion body w = (let d = check_digit body w in [d, check_digit (body @ [d]) w])"

lemma valid_iff_completion:
  assumes "length body = n"
  shows "valid_check_digits (body @ [a, b]) n w \<longleftrightarrow> [a, b] = completion body w"
proof -
  have "(body @ [a, b]) ! n = a" "(body @ [a, b]) ! (n + 1) = b" "take n (body @ [a, b]) = body"
    "take (n + 1) (body @ [a, b]) = body @ [a]"
    using assms by (simp_all add: nth_append)
  then show ?thesis unfolding valid_check_digits_def completion_def Let_def by auto
qed

lemma two_chars: "length dd = 2 \<Longrightarrow> \<exists>a b. dd = [a, b]"
  by (auto simp: length_Suc_conv numeral_2_eq_2)

lemma completion_digits: "length (completion body w) = 2" "list_all is_digit (completion body w)"
  by (simp_all add: completion_def Let_def check_digit_is_digit)

lemma all_same_prefix: "all_same_char (body @ dd) \<Longrightarrow> all_same_char body"
  by (cases body) auto

definition body_of :: "tax_kind \<Rightarrow> string \<Rightarrow> bool" where
  "body_of k body \<longleftrightarrow> \<not> all_same_char body \<and>
     (case k of KindCPF \<Rightarrow> length body = 9 \<and> list_all is_digit body | KindCNPJ \<Rightarrow> length body = 12 \<and> list_all alnum body)"

definition weight_of :: "tax_kind \<Rightarrow> nat \<Rightarrow> int" where
  "weight_of k = (case k of KindCPF \<Rightarrow> cpf_weight | KindCNPJ \<Rightarrow> cnpj_weight)"

lemma digits_alnum: "list_all is_digit s \<Longrightarrow> list_all alnum s"
  by (auto simp: list_all_iff alnum_def)

lemma normalize_body:
  assumes "body_of k body" and "length dd = 2"
  shows "normalize_tax_id (body @ dd) = Some (body @ dd, k) \<longleftrightarrow> dd = completion body (weight_of k)"
proof -
  obtain a b where dd: "dd = [a, b]" using two_chars [OF assms(2)] by blast
  have ns: "\<not> all_same_char (body @ dd)" using assms(1) all_same_prefix by (auto simp: body_of_def)
  have canon: "canonicalize (body @ dd) = Some (body @ dd)" if "list_all is_digit dd"
    using that assms(1) digits_alnum canonicalize_fixed by (auto simp: body_of_def split: tax_kind.splits)
  have fin: "list_all is_digit dd" if "dd = completion body (weight_of k)" using that completion_digits by simp
  have digits: "list_all is_digit dd" if "normalize_tax_id (body @ dd) = Some (body @ dd, k)"
    using that assms by (cases k) (auto simp: normalize_tax_id_def body_of_def is_all_digits_def cpfLength_def
        cnpjLength_def cnpjBodyLength_def split: option.splits if_splits)
  show ?thesis
  proof (cases "list_all is_digit dd")
    case True
    with assms canon ns valid_iff_completion [of body "length body" a b "weight_of k"] show ?thesis
      by (cases k) (auto simp: normalize_tax_id_def body_of_def is_all_digits_def cpfLength_def cnpjLength_def
          cnpjBodyLength_def weight_of_def dd)
  qed (use fin digits in blast)
qed

text \<open>Check digits. Every body of a document (nine digits of a CPF, twelve digits or capital
  letters of a CNPJ, not all the same) has exactly one completion by two characters that is
  accepted as a document of that kind, and that completion consists of digits: a letter in the
  place of a check digit is never accepted, and any change of the check digits is noticed.\<close>

theorem tax_id_completion:
  assumes "body_of k body"
  shows "(\<exists>!dd. length dd = 2 \<and> normalize_tax_id (body @ dd) = Some (body @ dd, k)) \<and>
    (\<forall>dd. length dd = 2 \<and> normalize_tax_id (body @ dd) = Some (body @ dd, k) \<longrightarrow> list_all is_digit dd)"
proof (intro conjI allI impI)
  show "\<exists>!dd. length dd = 2 \<and> normalize_tax_id (body @ dd) = Some (body @ dd, k)"
    using normalize_body [OF assms] completion_digits(1) by (intro ex1I [of _ "completion body (weight_of k)"]) auto
  fix dd assume "length dd = 2 \<and> normalize_tax_id (body @ dd) = Some (body @ dd, k)"
  with normalize_body [OF assms, of dd] completion_digits(2) show "list_all is_digit dd" by metis
qed

theorem tax_id_completion_witness:
  "\<exists>!dd. length dd = 2 \<and> normalize_tax_id (''529982247'' @ dd) = Some (''529982247'' @ dd, KindCPF)"
proof -
  have "body_of KindCPF ''529982247''" by code_simp
  from tax_id_completion [OF this] show ?thesis by blast
qed

section \<open>Masks\<close>

text \<open>The masks documents are printed with.\<close>

definition cpf_mask :: "string \<Rightarrow> string" where
  "cpf_mask s = take 3 s @ ''.'' @ take 3 (drop 3 s) @ ''.'' @ take 3 (drop 6 s) @ ''-'' @ drop 9 s"

definition cnpj_mask :: "string \<Rightarrow> string" where
  "cnpj_mask s = take 2 s @ ''.'' @ take 3 (drop 2 s) @ ''.'' @ take 3 (drop 5 s) @ ''/'' @ take 4 (drop 8 s) @ ''-'' @ drop 12 s"

definition print_tax_id :: "string \<times> tax_kind \<Rightarrow> string" where
  "print_tax_id d = (case snd d of KindCPF \<Rightarrow> cpf_mask (fst d) | KindCNPJ \<Rightarrow> cnpj_mask (fst d))"

lemma canonicalize_filter: "canonicalize (filter (\<lambda>c. c \<notin> set ''./- '') s) = canonicalize s"
proof (induction s)
  case (Cons c s)
  show ?case
  proof (cases "c \<in> set ''./- ''")
    case True
    show ?thesis unfolding mask_chars [OF True] using True Cons.IH by (simp only: filter.simps not_not if_False simp_thms)
  next
    case False
    then show ?thesis by (simp only: filter.simps if_True simp_thms canonicalize.simps Cons.IH)
  qed
qed simp

lemma canonicalize_masks: "canonicalize (cpf_mask s) = canonicalize s" "canonicalize (cnpj_mask s) = canonicalize s"
proof -
  let ?f = "filter (\<lambda>c. c \<notin> set ''./- '')"
  have parts: "take 3 s @ take 3 (drop 3 s) @ take 3 (drop 6 s) @ drop 9 s = s"
    "take 2 s @ take 3 (drop 2 s) @ take 3 (drop 5 s) @ take 4 (drop 8 s) @ drop 12 s = s"
    using append_take_drop_id [of 3 "drop 6 s"] append_take_drop_id [of 3 "drop 3 s"] append_take_drop_id [of 3 s]
      append_take_drop_id [of 4 "drop 8 s"] append_take_drop_id [of 3 "drop 5 s"] append_take_drop_id [of 3 "drop 2 s"]
      append_take_drop_id [of 2 s] by (simp_all del: append_take_drop_id)
  have "?f (cpf_mask s) = ?f (take 3 s @ take 3 (drop 3 s) @ take 3 (drop 6 s) @ drop 9 s)"
    "?f (cnpj_mask s) = ?f (take 2 s @ take 3 (drop 2 s) @ take 3 (drop 5 s) @ take 4 (drop 8 s) @ drop 12 s)"
    by (simp_all add: cpf_mask_def cnpj_mask_def)
  then show "canonicalize (cpf_mask s) = canonicalize s" "canonicalize (cnpj_mask s) = canonicalize s"
    unfolding parts by (metis canonicalize_filter)+
qed

text \<open>The accepted documents, without the machinery of the check.\<close>

lemma normalize_mask_eq: "canonicalize a = canonicalize b \<Longrightarrow> normalize_tax_id a = normalize_tax_id b"
  by (simp add: normalize_tax_id_def)

lemma normalize_SomeD:
  assumes "normalize_tax_id raw = Some (c, k)"
  shows "canonicalize raw = Some c" "list_all alnum c" "length c = (case k of KindCPF \<Rightarrow> 11 | KindCNPJ \<Rightarrow> 14)"
    "k = KindCPF \<Longrightarrow> list_all is_digit c"
  using assms canonicalize_alnum
  by (auto simp: normalize_tax_id_def cpfLength_def cnpjLength_def is_all_digits_def split: option.splits if_splits)

text \<open>Parse and print. An accepted document is stored in one canonical form: normalizing the
  stored text gives the same text and kind again, and so does normalizing the text printed with
  the usual mask. The stored text has the length of its kind and consists of digits and capital
  letters.\<close>

theorem tax_id_round_trip:
  assumes "normalize_tax_id raw = Some (c, k)"
  shows "normalize_tax_id c = Some (c, k) \<and> normalize_tax_id (print_tax_id (c, k)) = Some (c, k) \<and>
    length c = (case k of KindCPF \<Rightarrow> 11 | KindCNPJ \<Rightarrow> 14) \<and> list_all alnum c"
proof -
  note d = normalize_SomeD [OF assms]
  have "normalize_tax_id c = Some (c, k)"
    using normalize_mask_eq [of c raw] canonicalize_fixed [OF d(2)] d(1) assms by simp
  moreover have "normalize_tax_id (print_tax_id (c, k)) = normalize_tax_id c"
    by (rule normalize_mask_eq) (simp add: print_tax_id_def canonicalize_masks split: tax_kind.split)
  ultimately show ?thesis using d by simp
qed

theorem tax_id_round_trip_witness:
  "normalize_tax_id ''12.abc.345/01de-35'' = Some (''12ABC34501DE35'', KindCNPJ) \<and>
   normalize_tax_id (print_tax_id (''12ABC34501DE35'', KindCNPJ)) = Some (''12ABC34501DE35'', KindCNPJ)"
proof -
  have "normalize_tax_id ''12.abc.345/01de-35'' = Some (''12ABC34501DE35'', KindCNPJ)" by code_simp
  with tax_id_round_trip [OF this] show ?thesis by simp
qed

text \<open>The loop is the scalar product of the values with the weights, from left to right.\<close>

lemma digit_sum_product:
  "digit_sum body w (length body) 0 =
     (\<Sum>(x, y) \<leftarrow> zip (map char_value body) (map (\<lambda>i. w (length body - 1 - i)) [0..<length body]). x * y)"
  by (simp add: digit_sum_acc sum_list_sum_nth lessThan_atLeast0)

lemma published_weights:
  "map (\<lambda>i. cpf_weight (9 - 1 - i)) [0..<9] = [10, 9, 8, 7, 6, 5, 4, 3, 2]"
  "map (\<lambda>i. cnpj_weight (12 - 1 - i)) [0..<12] = [5, 4, 3, 2, 9, 8, 7, 6, 5, 4, 3, 2]"
  by code_simp+

text \<open>The check digit is the published one: the first check digit of a CPF and of a CNPJ is
  decided by the remainder modulo 11 of the scalar product with the published weights, a
  remainder below two giving 0 and any other its complement to 11.\<close>

theorem check_digit_published:
  assumes "length body = 9 \<and> w = cpf_weight \<and> ws = [10, 9, 8, 7, 6, 5, 4, 3, 2] \<or>
     length body = 12 \<and> w = cnpj_weight \<and> ws = [5, 4, 3, 2, 9, 8, 7, 6, 5, 4, 3, 2]"
  defines "rem \<equiv> (\<Sum>(x, y) \<leftarrow> zip (map char_value body) ws. x * y) mod 11"
  shows "char_value (check_digit body w) = (if rem < 2 then 0 else 11 - rem)"
proof -
  have "ws = map (\<lambda>i. w (length body - 1 - i)) [0..<length body]" using assms(1) published_weights by auto
  then have r: "digit_sum body w (length body) 0 mod 11 = rem" unfolding rem_def digit_sum_product by simp
  have "0 \<le> rem" "rem < 11" by (simp_all add: rem_def)
  then show ?thesis
    by (auto simp: check_digit_def Let_def r char_value_def code_char_of)
qed

theorem check_digit_published_witness:
  "char_value (check_digit ''529982247'' cpf_weight) = 2"
proof -
  have "(\<Sum>(x, y) \<leftarrow> zip (map char_value ''529982247'') [10, 9, 8, 7, 6, 5, 4, 3, 2]. x * y) mod 11 = 9" by code_simp
  then show ?thesis using check_digit_published [of "''529982247''" cpf_weight "[10, 9, 8, 7, 6, 5, 4, 3, 2]"] by simp
qed

end
