(* ===== verification/ScopeRegistry.thy ===== *)
theory ScopeRegistry
  imports AccountDeletion "HOL-Library.Char_ord" "HOL-Library.List_Lexorder"
begin

text \<open>
  The catalog of scopes and the registry of resource servers (\<open>api/internal/scopes\<close>:
  \<open>catalog.go\<close>, \<open>resource.go\<close>, \<open>repository.go\<close>, \<open>registry.go\<close>, \<open>service.go\<close>). A resource server
  publishes a manifest of its scopes; every revision leaves an immutable snapshot; the catalog
  merges the manifests over the older seed rows and says which scopes may be granted.

  The tables and the cached catalog live in the \<open>world\<close> of the database record. SHA-256 of the
  JSON text of a manifest is a parameter, and so is \<open>net/url\<close>'s parser. A revision is numbered by
  an \<open>int64\<close> that grows by one with each write; it is an \<open>int\<close> here, and a snapshot is keyed by
  the id and the number instead of their texts (\<open>historyPK\<close>, \<open>historySK\<close>: a fixed prefix and
  twenty digits).
\<close>

section \<open>Records\<close>

record scope_entry =
  en_scope :: string
  en_description :: string
  en_description_pt :: string
  en_m2m :: bool

record service_scopes =
  sg_service :: string
  sg_name :: string
  sg_audience :: string
  sg_scopes :: "scope_entry list"
  sg_internal :: bool

record public_service_scopes =
  pg_service :: string
  pg_name :: string
  pg_scopes :: "scope_entry list"

definition to_public :: "service_scopes \<Rightarrow> public_service_scopes" where
  "to_public g = \<lparr>pg_service = sg_service g, pg_name = sg_name g, pg_scopes = sg_scopes g\<rparr>"

definition IdentityService :: string where "IdentityService = ''identity''"
definition InternalServicePrefix :: string where "InternalServicePrefix = ''internal''"

definition filter_public :: "service_scopes list \<Rightarrow> service_scopes list" where
  "filter_public gs = filter (\<lambda>g. \<not> sg_internal g) gs"

definition VisibilityPublic :: string where "VisibilityPublic = ''public''"
definition VisibilityInternal :: string where "VisibilityInternal = ''internal''"
definition StatusActive :: string where "StatusActive = ''active''"
definition StatusDeprecated :: string where "StatusDeprecated = ''deprecated''"
definition ManifestSchemaV1 :: int where "ManifestSchemaV1 = 1"
definition maxResourceScopes :: nat where "maxResourceScopes = 100"
definition maxDescriptionLen :: nat where "maxDescriptionLen = 300"
definition AccountResourceID :: string where "AccountResourceID = ''account''"
definition SystemAccountPublisher :: string where "SystemAccountPublisher = ''system://ctech-account''"

text \<open>\<open>sd_descriptions\<close> is a Go map: a missing key reads as the empty string.\<close>

record scope_definition =
  sd_scope :: string
  sd_descriptions :: "(string \<times> string) list"
  sd_description :: string
  sd_description_pt :: string
  sd_visibility :: string
  sd_status :: string
  sd_m2m :: bool

definition described :: "scope_definition \<Rightarrow> string \<Rightarrow> string" where
  "described d tag = (case map_of (sd_descriptions d) tag of None \<Rightarrow> [] | Some t \<Rightarrow> t)"

record resource_server =
  rs_id :: string
  rs_display_name :: string
  rs_audience :: string
  rs_publisher :: string
  rs_scopes :: "scope_definition list"
  rs_revision :: int
  rs_hash :: string
  rs_updated_at :: stamp
  rs_updated_by :: string
  rs_source_repository :: string
  rs_source_revision :: string

record manifest =
  mf_schema :: int
  mf_id :: string
  mf_display_name :: string
  mf_scopes :: "scope_definition list"

record resource_revision =
  rv_id :: string
  rv_revision :: int
  rv_previous_hash :: string
  rv_hash :: string
  rv_display_name :: string
  rv_scopes :: "scope_definition list"
  rv_updated_at :: stamp
  rv_updated_by :: string
  rv_source_repository :: string
  rv_source_revision :: string

record scope_world =
  sw_services :: "(string, service_scopes) table"
  sw_resources :: "(string, resource_server) table"
  sw_history :: "(string \<times> int, resource_revision) table"
  sw_cache :: "(service_scopes list \<times> time) option"

datatype invalid =
    BadSchema | BadResourceID | BadDisplayName | BadScopeCount
  | BadScope string | DuplicateScope string | BadDescription string
  | OutsideNamespace string | InternalM2M string | BadVisibility string | BadStatus string
  | BadAudience | MissingPublisher | NotPublisher | AccountMismatch

datatype reg_err =
    RInfra | RDecode | ErrResourceNotFound | ErrRevisionConflict | ErrScopeRemoval string
  | ErrInvalidResource invalid | ErrResourceAlreadyExists

type_synonym ('v, 'a) reg_prog = "('v scope_world_scheme del_db, reg_err, 'a) prog"

section \<open>Validation\<close>

definition valid_resource_id :: "string \<Rightarrow> bool" where
  "valid_resource_id i \<longleftrightarrow>
     i \<noteq> [] \<and> length i \<le> 64 \<and> hd i \<in> set ''abcdefghijklmnopqrstuvwxyz'' \<and>
     set i \<subseteq> set ''abcdefghijklmnopqrstuvwxyz0123456789-_''"

definition validate_entry :: "string \<Rightarrow> string list \<Rightarrow> scope_definition \<Rightarrow> invalid option" where
  "validate_entry rid seen d =
     (let en = (if sd_description d = [] then described d ''en'' else sd_description d);
          pt = (if sd_description_pt d = [] then described d ''pt-BR'' else sd_description_pt d)
      in if \<not> is_valid_scope (sd_scope d) \<or> CHR ''*'' \<in> set (sd_scope d) \<or> is_oidc (sd_scope d)
           then Some (BadScope (sd_scope d))
         else if sd_scope d \<in> set seen then Some (DuplicateScope (sd_scope d))
         else if trim_space en = [] \<or> trim_space pt = [] \<or> length en > maxDescriptionLen \<or> length pt > maxDescriptionLen
           then Some (BadDescription (sd_scope d))
         else if sd_visibility d = VisibilityPublic \<and> \<not> has_prefix (sd_scope d) (rid @ '':'')
           then Some (OutsideNamespace (sd_scope d))
         else if sd_visibility d = VisibilityInternal \<and> \<not> has_prefix (sd_scope d) (InternalServicePrefix @ '':'' @ rid @ '':'')
           then Some (OutsideNamespace (sd_scope d))
         else if sd_visibility d = VisibilityInternal \<and> sd_m2m d then Some (InternalM2M (sd_scope d))
         else if sd_visibility d \<noteq> VisibilityPublic \<and> sd_visibility d \<noteq> VisibilityInternal
           then Some (BadVisibility (sd_scope d))
         else if sd_status d \<noteq> StatusActive \<and> sd_status d \<noteq> StatusDeprecated then Some (BadStatus (sd_scope d))
         else None)"

fun validate_entries :: "string \<Rightarrow> string list \<Rightarrow> scope_definition list \<Rightarrow> invalid option" where
  "validate_entries rid seen [] = None"
| "validate_entries rid seen (d # ds) = (case validate_entry rid seen d of
       Some e \<Rightarrow> Some e
     | None \<Rightarrow> validate_entries rid (sd_scope d # seen) ds)"

definition validate_manifest :: "manifest \<Rightarrow> invalid option" where
  "validate_manifest m =
     (if mf_schema m \<noteq> ManifestSchemaV1 then Some BadSchema
      else if \<not> valid_resource_id (mf_id m) \<or> mf_id m = IdentityService \<or> mf_id m = InternalServicePrefix
        then Some BadResourceID
      else if trim_space (mf_display_name m) = [] \<or> length (mf_display_name m) > 120 then Some BadDisplayName
      else if mf_scopes m = [] \<or> length (mf_scopes m) > maxResourceScopes then Some BadScopeCount
      else validate_entries (mf_id m) [] (mf_scopes m))"

text \<open>What \<open>url.Parse\<close> and \<open>net.ParseIP\<close> say of a text is a parameter.\<close>

record url =
  ul_scheme :: string
  ul_opaque :: string
  ul_has_user :: bool
  ul_host :: string
  ul_hostname :: string
  ul_path :: string
  ul_raw_query :: string
  ul_fragment :: string

record net_lib =
  nl_parse :: "string \<Rightarrow> url option"
  nl_loopback :: "string \<Rightarrow> bool"

definition validate_audience :: "net_lib \<Rightarrow> string \<Rightarrow> bool" where
  "validate_audience N raw = (case nl_parse N raw of
       None \<Rightarrow> False
     | Some u \<Rightarrow>
         ul_host u \<noteq> [] \<and> ul_raw_query u = [] \<and> ul_fragment u = [] \<and>
         (ul_scheme u = ''https'' \<or>
          ul_scheme u = ''http'' \<and> (ul_hostname u = ''localhost'' \<or> nl_loopback N (ul_hostname u))))"

text \<open>\<open>slices.SortFunc\<close> is not stable; the scopes of a manifest are distinct, so every sort gives
  the same list.\<close>

definition canonical_entry :: "scope_definition \<Rightarrow> scope_definition" where
  "canonical_entry d = d\<lparr>sd_descriptions := [],
     sd_description := trim_space (if sd_description d = [] then described d ''en'' else sd_description d),
     sd_description_pt := trim_space (if sd_description_pt d = [] then described d ''pt-BR'' else sd_description_pt d)\<rparr>"

definition canonical_manifest :: "manifest \<Rightarrow> manifest" where
  "canonical_manifest m = m\<lparr>mf_display_name := trim_space (mf_display_name m),
     mf_scopes := sort_key sd_scope (map canonical_entry (mf_scopes m))\<rparr>"

definition manifest_hash :: "(manifest \<Rightarrow> byte list) \<Rightarrow> manifest \<Rightarrow> string" where
  "manifest_hash H m = ''sha256-'' @ hex_encode (H (canonical_manifest m))"

definition resource_from_manifest ::
  "(manifest \<Rightarrow> byte list) \<Rightarrow> resource_server \<Rightarrow> manifest \<Rightarrow> string \<Rightarrow> string \<Rightarrow> string \<Rightarrow> time \<Rightarrow> resource_server" where
  "resource_from_manifest H cur m0 actor srepo srev n =
     (let m = canonical_manifest m0 in
      \<lparr>rs_id = rs_id cur, rs_display_name = mf_display_name m, rs_audience = rs_audience cur,
       rs_publisher = rs_publisher cur, rs_scopes = mf_scopes m, rs_revision = rs_revision cur + 1,
       rs_hash = manifest_hash H m, rs_updated_at = ts n, rs_updated_by = actor,
       rs_source_repository = srepo, rs_source_revision = srev\<rparr>)"

definition ensure_no_active_removal :: "resource_server \<Rightarrow> manifest \<Rightarrow> string option" where
  "ensure_no_active_removal cur nxt =
     map_option sd_scope (List.find (\<lambda>d. sd_status d = StatusActive \<and> sd_scope d \<notin> sd_scope ` set (mf_scopes nxt))
       (rs_scopes cur))"

section \<open>Repository\<close>

definition load_catalog :: "('v, service_scopes list) reg_prog" where
  "load_catalog = db_read RInfra (\<lambda>s. map snd (sw_services (world s)))"

definition repo_put_service :: "service_scopes \<Rightarrow> ('v, unit) reg_prog" where
  "repo_put_service g = db_write RInfra (world_update (sw_services_update (tput (sg_service g) g)))"

definition load_resources :: "('v, resource_server list) reg_prog" where
  "load_resources = db_read RInfra (\<lambda>s. map snd (sw_resources (world s)))"

definition get_resource :: "string \<Rightarrow> ('v, resource_server) reg_prog" where
  "get_resource i =
     bindE (db_read RInfra (\<lambda>s. tget (sw_resources (world s)) i)) (\<lambda>r. case r of
       None \<Rightarrow> throw ErrResourceNotFound
     | Some r \<Rightarrow> ret r)"

definition create_resource :: "resource_server \<Rightarrow> ('v, unit) reg_prog" where
  "create_resource r =
     db_cond RInfra ErrResourceAlreadyExists
       (\<lambda>s. tget (sw_resources (world s)) (rs_id r) = None)
       (world_update (sw_resources_update (tput (rs_id r) r)))"

definition snapshot :: "resource_server \<Rightarrow> resource_server \<Rightarrow> resource_revision" where
  "snapshot prev nxt = \<lparr>rv_id = rs_id nxt, rv_revision = rs_revision nxt, rv_previous_hash = rs_hash prev,
     rv_hash = rs_hash nxt, rv_display_name = rs_display_name nxt, rv_scopes = rs_scopes nxt,
     rv_updated_at = rs_updated_at nxt, rv_updated_by = rs_updated_by nxt,
     rv_source_repository = rs_source_repository nxt, rv_source_revision = rs_source_revision nxt\<rparr>"

text \<open>One transaction: the row is replaced where its revision is the one that was read, and the
  snapshot is a new item.\<close>

definition reconciled :: "resource_server \<Rightarrow> resource_server \<Rightarrow> 'v scope_world_scheme \<Rightarrow> 'v scope_world_scheme" where
  "reconciled prev nxt w = w\<lparr>sw_resources := tput (rs_id nxt) nxt (sw_resources w),
     sw_history := tput (rs_id nxt, rs_revision nxt) (snapshot prev nxt) (sw_history w)\<rparr>"

definition reconcile_ok :: "resource_server \<Rightarrow> resource_server \<Rightarrow> 'v scope_world_scheme \<Rightarrow> bool" where
  "reconcile_ok prev nxt w \<longleftrightarrow>
     (case tget (sw_resources w) (rs_id nxt) of None \<Rightarrow> False | Some q \<Rightarrow> rs_revision q = rs_revision prev) \<and>
     tget (sw_history w) (rs_id nxt, rs_revision nxt) = None"

definition reconcile_resource :: "resource_server \<Rightarrow> resource_server \<Rightarrow> ('v, unit) reg_prog" where
  "reconcile_resource prev nxt =
     db_cond RInfra ErrRevisionConflict (\<lambda>s. reconcile_ok prev nxt (world s)) (world_update (reconciled prev nxt))"

definition get_revision :: "string \<Rightarrow> int \<Rightarrow> ('v, resource_revision) reg_prog" where
  "get_revision i k =
     bindE (db_read RInfra (\<lambda>s. tget (sw_history (world s)) (i, k))) (\<lambda>r. case r of
       None \<Rightarrow> throw ErrResourceNotFound
     | Some r \<Rightarrow> ret r)"

section \<open>Registry\<close>

text \<open>\<open>on\<close> says whether a cache is configured and enabled.\<close>

definition invalidate :: "bool \<Rightarrow> ('v, unit) reg_prog" where
  "invalidate on = (if on then db_write RInfra (world_update (sw_cache_update (\<lambda>_. None))) else ret ())"

definition registry_get :: "string \<Rightarrow> ('v, resource_server) reg_prog" where
  "registry_get i = get_resource i"

definition new_resource :: "string \<Rightarrow> string \<Rightarrow> string \<Rightarrow> string \<Rightarrow> string \<Rightarrow> time \<Rightarrow> resource_server" where
  "new_resource i display audience publisher by n = \<lparr>rs_id = i, rs_display_name = display, rs_audience = audience,
     rs_publisher = publisher, rs_scopes = [], rs_revision = 0, rs_hash = [], rs_updated_at = ts n,
     rs_updated_by = by, rs_source_repository = [], rs_source_revision = []\<rparr>"

definition provision :: "net_lib \<Rightarrow> string \<Rightarrow> string \<Rightarrow> string \<Rightarrow> string \<Rightarrow> ('v, resource_server) reg_prog" where
  "provision N i display audience publisher =
     (if \<not> valid_resource_id i \<or> i = IdentityService \<or> i = AccountResourceID \<or> i = InternalServicePrefix
        then throw (ErrInvalidResource BadResourceID)
      else if display = [] \<or> publisher = [] then throw (ErrInvalidResource MissingPublisher)
      else if \<not> validate_audience N audience then throw (ErrInvalidResource BadAudience)
      else
      bindE now (\<lambda>n.
      let r = new_resource i display audience publisher ''operator'' n in
      bindE (create_resource r) (\<lambda>_. ret r)))"

definition publish_manifest ::
  "(manifest \<Rightarrow> byte list) \<Rightarrow> bool \<Rightarrow> string \<Rightarrow> manifest \<Rightarrow> int \<Rightarrow> string \<Rightarrow> string \<Rightarrow> ('v, resource_server \<times> bool) reg_prog" where
  "publish_manifest H on actor m expected srepo srev = (case validate_manifest m of
       Some e \<Rightarrow> throw (ErrInvalidResource e)
     | None \<Rightarrow>
     bindE (get_resource (mf_id m)) (\<lambda>cur.
     if rs_publisher cur \<noteq> actor then throw (ErrInvalidResource NotPublisher)
     else if rs_revision cur \<noteq> expected then throw ErrRevisionConflict
     else case ensure_no_active_removal cur m of
       Some sc \<Rightarrow> throw (ErrScopeRemoval sc)
     | None \<Rightarrow>
       if rs_hash cur = manifest_hash H m then bindE (invalidate on) (\<lambda>_. ret (cur, False))
       else
       bindE now (\<lambda>n.
       let nxt = resource_from_manifest H cur m actor srepo srev n in
       bindE (reconcile_resource cur nxt) (\<lambda>_.
       bindE (invalidate on) (\<lambda>_. ret (nxt, True))))))"

definition restore_label :: "int \<Rightarrow> string" where
  "restore_label k = ''revision-'' @ (if k < 0 then ''-'' @ show_nat (nat (- k)) else show_nat (nat k))"

definition restore ::
  "(manifest \<Rightarrow> byte list) \<Rightarrow> bool \<Rightarrow> string \<Rightarrow> int \<Rightarrow> int \<Rightarrow> string \<Rightarrow> ('v, resource_server) reg_prog" where
  "restore H on i k expected actor =
     bindE (get_resource i) (\<lambda>cur.
     if rs_revision cur \<noteq> expected then throw ErrRevisionConflict
     else
     bindE (get_revision i k) (\<lambda>v.
     let m = \<lparr>mf_schema = ManifestSchemaV1, mf_id = i, mf_display_name = rv_display_name v, mf_scopes = rv_scopes v\<rparr> in
     bindE now (\<lambda>n.
     let nxt = resource_from_manifest H cur m actor ''operator-restore'' (restore_label k) n in
     bindE (reconcile_resource cur nxt) (\<lambda>_.
     bindE (invalidate on) (\<lambda>_. ret nxt)))))"

text \<open>The embedded manifest is a parameter, \<open>None\<close> when it does not decode.\<close>

definition account_manifest :: "manifest option \<Rightarrow> ('v, manifest) reg_prog" where
  "account_manifest embedded = (case embedded of
       None \<Rightarrow> throw RDecode
     | Some m \<Rightarrow> (case validate_manifest m of Some e \<Rightarrow> throw (ErrInvalidResource e) | None \<Rightarrow> ret m))"

definition bootstrap_current :: "manifest \<Rightarrow> string \<Rightarrow> ('v, resource_server) reg_prog" where
  "bootstrap_current m audience =
     bindE (tryE (get_resource AccountResourceID)) (\<lambda>g. case g of
       Inr cur \<Rightarrow> ret cur
     | Inl e \<Rightarrow>
         if e \<noteq> ErrResourceNotFound then throw e
         else
         bindE now (\<lambda>n.
         bindE (tryE (create_resource (new_resource AccountResourceID (mf_display_name m) audience
             SystemAccountPublisher SystemAccountPublisher n))) (\<lambda>c. case c of
           Inl e \<Rightarrow> if e \<noteq> ErrResourceAlreadyExists then throw e else get_resource AccountResourceID
         | Inr _ \<Rightarrow> get_resource AccountResourceID)))"

definition bootstrap_account ::
  "(manifest \<Rightarrow> byte list) \<Rightarrow> bool \<Rightarrow> net_lib \<Rightarrow> manifest option \<Rightarrow> string \<Rightarrow> string \<Rightarrow> ('v, resource_server \<times> bool) reg_prog" where
  "bootstrap_account H on N embedded audience srev =
     bindE (account_manifest embedded) (\<lambda>m.
     if \<not> validate_audience N audience then throw (ErrInvalidResource BadAudience)
     else
     bindE (bootstrap_current m audience) (\<lambda>cur.
     if rs_audience cur \<noteq> audience \<or> rs_publisher cur \<noteq> SystemAccountPublisher
       then throw (ErrInvalidResource AccountMismatch)
     else
     bindE (tryE (publish_manifest H on SystemAccountPublisher m (rs_revision cur) ''ctech-account'' srev)) (\<lambda>p. case p of
       Inr r \<Rightarrow> ret r
     | Inl e \<Rightarrow>
         if e \<noteq> ErrRevisionConflict then throw e
         else
         bindE (get_resource AccountResourceID) (\<lambda>latest.
         if rs_hash latest = manifest_hash H m then ret (latest, False) else throw e))))"

section \<open>Catalog\<close>

definition entry_of :: "scope_definition \<Rightarrow> scope_entry" where
  "entry_of d = \<lparr>en_scope = sd_scope d, en_description = sd_description d,
     en_description_pt = sd_description_pt d, en_m2m = sd_m2m d\<rparr>"

definition shown :: "scope_definition \<Rightarrow> bool" where
  "shown d \<longleftrightarrow> sd_status d \<noteq> StatusDeprecated \<and> sd_visibility d \<noteq> VisibilityInternal"

definition resource_groups :: "resource_server \<Rightarrow> service_scopes list" where
  "resource_groups r =
     (let pub = map entry_of (filter shown (rs_scopes r));
          int = map entry_of (filter (\<lambda>d. \<not> shown d) (rs_scopes r))
      in (if pub \<noteq> [] then [\<lparr>sg_service = rs_id r, sg_name = rs_display_name r, sg_audience = rs_audience r,
            sg_scopes = pub, sg_internal = False\<rparr>] else []) @
         (if int \<noteq> [] then [\<lparr>sg_service = InternalServicePrefix @ '':'' @ rs_id r,
            sg_name = ''Internal '' @ [CHR 0xE2, CHR 0x80, CHR 0x94] @ '' '' @ rs_display_name r, sg_audience = rs_audience r,
            sg_scopes = int, sg_internal = True\<rparr>] else []))"

definition managed :: "resource_server list \<Rightarrow> service_scopes \<Rightarrow> bool" where
  "managed rs g \<longleftrightarrow> trim_prefix (sg_service g) (InternalServicePrefix @ '':'') \<in> rs_id ` set rs"

definition merge_resource_servers :: "service_scopes list \<Rightarrow> resource_server list \<Rightarrow> service_scopes list" where
  "merge_resource_servers legacy rs = filter (\<lambda>g. \<not> managed rs g) legacy @ concat (map resource_groups rs)"

definition catalogCacheTTL :: time where "catalogCacheTTL = 5 * minute"

text \<open>The value the cache has for the catalog: Valkey drops an entry when its time is over. A failed
  read counts as a miss.\<close>

definition cached_catalog :: "bool \<Rightarrow> ('v, service_scopes list) reg_prog" where
  "cached_catalog on =
     (if \<not> on then ret []
      else
      bindE (tryE (db_read RInfra (\<lambda>s. case sw_cache (world s) of
          None \<Rightarrow> []
        | Some (gs, t) \<Rightarrow> if clock s < t then gs else []))) (\<lambda>c. case c of
        Inl _ \<Rightarrow> ret []
      | Inr gs \<Rightarrow> ret gs))"

definition catalog :: "bool \<Rightarrow> ('v, service_scopes list) reg_prog" where
  "catalog on =
     bindE (cached_catalog on) (\<lambda>cached.
     if cached \<noteq> [] then ret cached
     else
     bindE load_catalog (\<lambda>legacy.
     bindE load_resources (\<lambda>rs.
     let gs = merge_resource_servers legacy rs in
     bindE now (\<lambda>n.
     bindE (if on \<and> gs \<noteq> [] then logE (db_write RInfra (world_update (sw_cache_update (\<lambda>_. Some (gs, n + catalogCacheTTL))))) else ret ())
       (\<lambda>_. ret gs)))))"

definition put_service :: "bool \<Rightarrow> service_scopes \<Rightarrow> ('v, unit) reg_prog" where
  "put_service on g =
     bindE (repo_put_service g) (\<lambda>_.
     if on then logE (db_write RInfra (world_update (sw_cache_update (\<lambda>_. None)))) else ret ())"

definition in_catalog :: "bool \<Rightarrow> string \<Rightarrow> ('v, bool) reg_prog" where
  "in_catalog on sc =
     bindE (catalog on) (\<lambda>gs. ret (list_ex (\<lambda>g. list_ex (\<lambda>e. en_scope e = sc) (sg_scopes g)) gs))"

text \<open>The first scope that the index does not have, or the empty string.\<close>

definition first_missing :: "string list \<Rightarrow> string list \<Rightarrow> string" where
  "first_missing index ss = (case List.find (\<lambda>sc. sc \<notin> set index) ss of None \<Rightarrow> [] | Some sc \<Rightarrow> sc)"

definition public_index :: "(scope_entry \<Rightarrow> bool) \<Rightarrow> service_scopes list \<Rightarrow> string list" where
  "public_index p gs = concat (map (\<lambda>g. if sg_internal g then [] else map en_scope (filter p (sg_scopes g))) gs)"

definition validate_grantable :: "bool \<Rightarrow> string list \<Rightarrow> ('v, string) reg_prog" where
  "validate_grantable on ss =
     bindE (catalog on) (\<lambda>gs. ret (first_missing (public_index (\<lambda>_. True) gs) ss))"

definition validate_machine_grantable :: "bool \<Rightarrow> string list \<Rightarrow> ('v, string) reg_prog" where
  "validate_machine_grantable on ss =
     bindE (catalog on) (\<lambda>gs. ret (first_missing (public_index en_m2m gs) ss))"

fun collect_audiences :: "string list \<Rightarrow> service_scopes list \<Rightarrow> string list \<Rightarrow> string list" where
  "collect_audiences ss [] auds = auds"
| "collect_audiences ss (g # gs) auds =
     (if sg_audience g \<noteq> [] \<and> list_ex (\<lambda>e. en_scope e \<in> set ss) (sg_scopes g) \<and> sg_audience g \<notin> set auds
      then collect_audiences ss gs (auds @ [sg_audience g])
      else collect_audiences ss gs auds)"

definition audiences_for :: "bool \<Rightarrow> string list \<Rightarrow> ('v, string list) reg_prog" where
  "audiences_for on ss = bindE (catalog on) (\<lambda>gs. ret (collect_audiences ss gs []))"

end
