(* ===== verification/RegistryRuns.thy ===== *)
theory RegistryRuns
  imports ScopeRegistry
begin

text \<open>
  What the registry guarantees over every sequence of calls, with any failures of the database:
  the history of a resource server is complete, chained and never rewritten, resource servers own
  disjoint scopes, a publication needs its publisher and the revision it read, and the catalog
  grants exactly the public active scopes.
\<close>

section \<open>Well-formed rows\<close>

definition entry_ok :: "string \<Rightarrow> scope_definition \<Rightarrow> bool" where
  "entry_ok i d \<longleftrightarrow>
     is_valid_scope (sd_scope d) \<and> \<not> is_oidc (sd_scope d) \<and> CHR ''*'' \<notin> set (sd_scope d) \<and>
     (sd_status d = StatusActive \<or> sd_status d = StatusDeprecated) \<and>
     (sd_visibility d = VisibilityPublic \<and> has_prefix (sd_scope d) (i @ '':'') \<or>
      sd_visibility d = VisibilityInternal \<and> has_prefix (sd_scope d) (InternalServicePrefix @ '':'' @ i @ '':'') \<and> \<not> sd_m2m d)"

definition scopes_ok :: "string \<Rightarrow> scope_definition list \<Rightarrow> bool" where
  "scopes_ok i ds \<longleftrightarrow> (\<forall>d\<in>set ds. entry_ok i d) \<and> distinct (map sd_scope ds)"

definition id_ok :: "string \<Rightarrow> bool" where
  "id_ok i \<longleftrightarrow> valid_resource_id i \<and> i \<noteq> IdentityService \<and> i \<noteq> InternalServicePrefix"

lemma vis_neq: "VisibilityPublic \<noteq> VisibilityInternal"
  by (simp add: VisibilityPublic_def VisibilityInternal_def)

lemma validate_entry_None: "validate_entry i seen d = None \<Longrightarrow> entry_ok i d \<and> sd_scope d \<notin> set seen"
  using vis_neq by (auto simp: validate_entry_def Let_def entry_ok_def split: if_splits)

lemma validate_entries_None:
  "validate_entries i seen ds = None \<Longrightarrow>
     (\<forall>d\<in>set ds. entry_ok i d) \<and> distinct (map sd_scope ds) \<and> sd_scope ` set ds \<inter> set seen = {}"
proof (induction ds arbitrary: seen)
  case (Cons d ds)
  then have d: "validate_entry i seen d = None" and r: "validate_entries i (sd_scope d # seen) ds = None"
    by (auto split: option.splits)
  from Cons.IH [OF r] validate_entry_None [OF d] show ?case by auto
qed simp

lemma validate_manifest_None: "validate_manifest m = None \<Longrightarrow> id_ok (mf_id m) \<and> scopes_ok (mf_id m) (mf_scopes m)"
  using validate_entries_None [of "mf_id m" "[]" "mf_scopes m"]
  by (auto simp: validate_manifest_def id_ok_def scopes_ok_def split: if_splits)

lemma canonical_entry_fields [simp]: "sd_scope (canonical_entry d) = sd_scope d"
  "sd_visibility (canonical_entry d) = sd_visibility d" "sd_status (canonical_entry d) = sd_status d"
  "sd_m2m (canonical_entry d) = sd_m2m d"
  by (simp_all add: canonical_entry_def)

lemma canonical_manifest_fields [simp]: "mf_id (canonical_manifest m) = mf_id m"
  "sd_scope ` set (mf_scopes (canonical_manifest m)) = sd_scope ` set (mf_scopes m)"
  by (auto simp: canonical_manifest_def image_image)

lemma distinct_sort_key: "distinct (map f xs) \<Longrightarrow> distinct (map f (sort_key g xs))"
  by (metis distinct_map distinct_sort inj_on_cong set_sort)

lemma scopes_ok_canonical: "scopes_ok i (mf_scopes m) \<Longrightarrow> scopes_ok i (mf_scopes (canonical_manifest m))"
  unfolding scopes_ok_def canonical_manifest_def
  by (auto simp: entry_ok_def comp_def intro!: distinct_sort_key)

text \<open>Two resource servers have no scope in common.\<close>

lemma entry_belongs: "id_ok i \<Longrightarrow> entry_ok i d \<Longrightarrow> belongs_to_service (sd_scope d) i"
  by (auto simp: id_ok_def valid_resource_id_def entry_ok_def belongs_to_service_def InternalServicePrefix_def)

lemma id_plain: "id_ok i \<Longrightarrow> CHR '':'' \<notin> set i \<and> i \<noteq> ''internal''"
  by (auto simp: id_ok_def valid_resource_id_def InternalServicePrefix_def)

lemma owners_unique:
  assumes "id_ok i" "id_ok j" "entry_ok i d" "entry_ok j e" "sd_scope d = sd_scope e"
  shows "i = j"
  using assms entry_belongs [of i d] entry_belongs [of j e] id_plain [of i] id_plain [of j]
    belongs_to_service_unique [of "sd_scope d" i j] by simp

section \<open>The invariant\<close>

definition history_ok :: "(string \<times> int, resource_revision) table \<Rightarrow> resource_server \<Rightarrow> bool" where
  "history_ok h r \<longleftrightarrow>
     (\<forall>k. tget h (rs_id r, k) \<noteq> None \<longleftrightarrow> 1 \<le> k \<and> k \<le> rs_revision r) \<and>
     (if rs_revision r = 0 then rs_scopes r = [] \<and> rs_hash r = []
      else \<exists>v. tget h (rs_id r, rs_revision r) = Some v \<and> rv_hash v = rs_hash r \<and>
             rv_scopes v = rs_scopes r \<and> rv_display_name v = rs_display_name r) \<and>
     (\<forall>k v. tget h (rs_id r, k) = Some v \<longrightarrow>
        rv_previous_hash v = (case tget h (rs_id r, k - 1) of None \<Rightarrow> [] | Some u \<Rightarrow> rv_hash u))"

definition row_ok :: "string \<Rightarrow> resource_server \<Rightarrow> bool" where
  "row_ok i r \<longleftrightarrow> rs_id r = i \<and> id_ok i \<and> scopes_ok i (rs_scopes r) \<and> 0 \<le> rs_revision r"

type_synonym core = "(string, resource_server) table \<times> (string \<times> int, resource_revision) table"

definition reg_inv :: "core \<Rightarrow> bool" where
  "reg_inv c \<longleftrightarrow> tkeys (fst c) \<and>
     (\<forall>i r. tget (fst c) i = Some r \<longrightarrow> row_ok i r \<and> history_ok (snd c) r) \<and>
     (\<forall>i k v. tget (snd c) (i, k) = Some v \<longrightarrow> tget (fst c) i \<noteq> None \<and> scopes_ok i (rv_scopes v))"

definition core :: "'v scope_world_scheme del_db \<Rightarrow> core" where
  "core s = (sw_resources (world s), sw_history (world s))"

text \<open>The two ways in which the tables change.\<close>

inductive reg_edge :: "core \<Rightarrow> core \<Rightarrow> bool" where
  create: "tget rs (rs_id r) = None \<Longrightarrow> id_ok (rs_id r) \<Longrightarrow> rs_scopes r = [] \<Longrightarrow> rs_revision r = 0 \<Longrightarrow>
     rs_hash r = [] \<Longrightarrow> reg_edge (rs, h) (tput (rs_id r) r rs, h)"
| revise: "tget rs i = Some cur \<Longrightarrow> rs_id nxt = i \<Longrightarrow> rs_revision nxt = rs_revision cur + 1 \<Longrightarrow>
     rs_publisher nxt = rs_publisher cur \<Longrightarrow> rs_audience nxt = rs_audience cur \<Longrightarrow> scopes_ok i (rs_scopes nxt) \<Longrightarrow>
     reg_edge (rs, h) (tput i nxt rs, tput (i, rs_revision nxt) (snapshot cur nxt) h)"

lemma inv_create:
  assumes "reg_inv (rs, h)" "tget rs (rs_id r) = None" "id_ok (rs_id r)" "rs_scopes r = []" "rs_revision r = 0" "rs_hash r = []"
  shows "reg_inv (tput (rs_id r) r rs, h)"
proof -
  have none: "tget h (rs_id r, k) = None" for k
    using assms(1, 2) unfolding reg_inv_def by (metis fst_conv not_None_eq snd_conv)
  have "row_ok (rs_id r) r" "history_ok h r"
    using assms(3-6) none by (auto simp: row_ok_def scopes_ok_def history_ok_def)
  with assms(1) show ?thesis by (auto simp: reg_inv_def split: if_splits)
qed

lemma history_ok_other: "rs_id r \<noteq> i \<Longrightarrow> history_ok (tput (i, k) v h) r \<longleftrightarrow> history_ok h r"
  by (simp add: history_ok_def)

lemma history_ok_revise:
  assumes "history_ok h cur" "rs_id nxt = rs_id cur" "rs_revision nxt = rs_revision cur + 1" "0 \<le> rs_revision cur"
  shows "history_ok (tput (rs_id cur, rs_revision nxt) (snapshot cur nxt) h) nxt"
proof -
  let ?h = "tput (rs_id cur, rs_revision nxt) (snapshot cur nxt) h"
  have old: "tget h (rs_id cur, k) \<noteq> None \<longleftrightarrow> 1 \<le> k \<and> k \<le> rs_revision cur" for k
    using assms(1) unfolding history_ok_def by blast
  have prev: "rs_hash cur = (case tget h (rs_id cur, rs_revision cur) of None \<Rightarrow> [] | Some u \<Rightarrow> rv_hash u)"
    using assms(1) old [of "rs_revision cur"] by (auto simp: history_ok_def split: option.splits if_splits)
  have chain: "rv_previous_hash v = (case tget ?h (rs_id cur, k - 1) of None \<Rightarrow> [] | Some u \<Rightarrow> rv_hash u)"
    if "tget ?h (rs_id cur, k) = Some v" for k v
  proof (cases "k = rs_revision nxt")
    case True
    with that assms(3) prev show ?thesis by (auto simp: snapshot_def)
  next
    case False
    with that have v: "tget h (rs_id cur, k) = Some v" by simp
    with old [of k] assms(3) have "k - 1 \<noteq> rs_revision nxt" by auto
    with v assms(1) show ?thesis by (simp add: history_ok_def)
  qed
  have dom: "tget ?h (rs_id cur, k) \<noteq> None \<longleftrightarrow> 1 \<le> k \<and> k \<le> rs_revision nxt" for k
    using old [of k] assms(3, 4) by auto
  have new: "tget ?h (rs_id cur, rs_revision nxt) = Some (snapshot cur nxt)" by simp
  show ?thesis
    unfolding history_ok_def assms(2) using chain dom new assms(3, 4) by (auto simp: snapshot_def)
qed

lemma inv_revise:
  assumes inv: "reg_inv (rs, h)" and cur: "tget rs i = Some cur" and i: "rs_id nxt = i"
    and rev: "rs_revision nxt = rs_revision cur + 1" and ok: "scopes_ok i (rs_scopes nxt)"
  shows "reg_inv (tput i nxt rs, tput (i, rs_revision nxt) (snapshot cur nxt) h)"
proof -
  from inv cur have c: "row_ok i cur" "history_ok h cur" by (auto simp: reg_inv_def)
  then have id: "rs_id cur = i" "0 \<le> rs_revision cur" by (auto simp: row_ok_def)
  have n: "row_ok i nxt" using c(1) i rev ok by (auto simp: row_ok_def)
  have hn: "history_ok (tput (i, rs_revision nxt) (snapshot cur nxt) h) nxt"
    using history_ok_revise [OF c(2)] i rev id by simp
  have others: "row_ok j r \<and> history_ok (tput (i, rs_revision nxt) (snapshot cur nxt) h) r"
    if "tget rs j = Some r" "j \<noteq> i" for j r
    using inv that by (auto simp: reg_inv_def history_ok_other row_ok_def)
  show ?thesis
    unfolding reg_inv_def
    using n hn others inv cur ok by (auto simp: reg_inv_def snapshot_def split: if_splits)
qed

lemma reg_inv_edge: "reg_edge c d \<Longrightarrow> reg_inv c \<Longrightarrow> reg_inv d"
  by (erule reg_edge.cases) (metis inv_create, metis inv_revise)

lemma reg_inv_edges: "reg_edge\<^sup>*\<^sup>* c d \<Longrightarrow> reg_inv c \<Longrightarrow> reg_inv d"
  by (induction rule: rtranclp_induct) (auto dest: reg_inv_edge)

text \<open>No snapshot is ever rewritten, no row is lost, and revisions only grow.\<close>

lemma edge_history: "reg_edge c d \<Longrightarrow> reg_inv c \<Longrightarrow> tget (snd c) k = Some v \<Longrightarrow> tget (snd d) k = Some v"
proof (induction rule: reg_edge.induct)
  case (revise rs i cur nxt h)
  have "tget h (i, rs_revision nxt) = None"
    using revise.prems(1) revise.hyps(1, 3) unfolding reg_inv_def row_ok_def history_ok_def
    by (metis fst_conv snd_conv add_le_same_cancel1 not_one_le_zero)
  with revise.prems(2) show ?case by auto
qed auto

lemma edges_history: "reg_edge\<^sup>*\<^sup>* c d \<Longrightarrow> reg_inv c \<Longrightarrow> tget (snd c) k = Some v \<Longrightarrow> tget (snd d) k = Some v"
  by (induction rule: rtranclp_induct) (auto dest: edge_history reg_inv_edges)

lemma edge_rows:
  "reg_edge c d \<Longrightarrow> tget (fst c) i = Some r \<Longrightarrow> \<exists>q. tget (fst d) i = Some q \<and> rs_revision r \<le> rs_revision q \<and>
     rs_publisher q = rs_publisher r \<and> rs_audience q = rs_audience r"
  by (induction rule: reg_edge.induct) (auto split: if_splits)

lemma edges_rows:
  "reg_edge\<^sup>*\<^sup>* c d \<Longrightarrow> tget (fst c) i = Some r \<Longrightarrow> \<exists>q. tget (fst d) i = Some q \<and> rs_revision r \<le> rs_revision q \<and>
     rs_publisher q = rs_publisher r \<and> rs_audience q = rs_audience r"
proof (induction rule: rtranclp_induct)
  case (step d e)
  then obtain q where "tget (fst d) i = Some q" "rs_revision r \<le> rs_revision q" "rs_publisher q = rs_publisher r"
    "rs_audience q = rs_audience r" by blast
  with edge_rows [OF step.hyps(2), of i q] show ?case by force
qed auto

section \<open>Effects of the calls\<close>

lemma core_faults [simp]: "core (s\<lparr>faults := os\<rparr>) = core s"
  by (simp add: core_def)

lemma core_db_read [simp]: "core (snd (db_read e f s)) = core s"
  using db_read_cases [of e f s] by auto

lemma core_invalidate [simp]: "core (snd (invalidate on s)) = core s"
proof (cases on)
  case True
  let ?u = "world_update (sw_cache_update (\<lambda>_. None)) :: 'a scope_world_scheme del_db \<Rightarrow> _"
  have "core (?u t) = core t" for t by (simp add: core_def)
  with True db_cond_cases [of RInfra RInfra "\<lambda>_. True" ?u s] show ?thesis
    by (auto simp: invalidate_def db_write_def)
qed (simp add: invalidate_def)

lemma get_resource_cases:
  obtains (failed) os e where "get_resource i s = (Inl e, s\<lparr>faults := os\<rparr>)"
  | (found) os cur where "get_resource i s = (Inr cur, s\<lparr>faults := os\<rparr>)" "tget (sw_resources (world s)) i = Some cur"
proof -
  obtain os where snd: "snd (db_read RInfra (\<lambda>s. tget (sw_resources (world s)) i) s) = s\<lparr>faults := os\<rparr>"
    and fst: "fst (db_read RInfra (\<lambda>s. tget (sw_resources (world s)) i) s) \<in> {Inr (tget (sw_resources (world s)) i), Inl RInfra}"
    using db_read_cases [of RInfra "\<lambda>s. tget (sw_resources (world s)) i" s] by auto
  show ?thesis
  proof (cases "db_read RInfra (\<lambda>s. tget (sw_resources (world s)) i) s")
    case (Pair r t)
    with snd have t: "t = s\<lparr>faults := os\<rparr>" by simp
    from Pair fst have r: "r = Inr (tget (sw_resources (world s)) i) \<or> r = Inl RInfra" by simp
    show ?thesis
    proof (cases "tget (sw_resources (world s)) i")
      case None
      with r Pair t failed show ?thesis by (auto simp: get_resource_def bindE_run)
    next
      case (Some cur)
      with r Pair t failed found show ?thesis by (auto simp: get_resource_def bindE_run)
    qed
  qed
qed

lemma reconcile_effect:
  "core (snd (reconcile_resource prev nxt s)) = core s \<or>
   reconcile_ok prev nxt (world s) \<and>
   core (snd (reconcile_resource prev nxt s)) = (tput (rs_id nxt) nxt (fst (core s)), tput (rs_id nxt, rs_revision nxt) (snapshot prev nxt) (snd (core s)))"
proof -
  let ?u = "world_update (reconciled prev nxt) :: 'a scope_world_scheme del_db \<Rightarrow> _"
  have "core (?u t) = (tput (rs_id nxt) nxt (fst (core t)), tput (rs_id nxt, rs_revision nxt) (snapshot prev nxt) (snd (core t)))" for t
    by (simp add: core_def reconciled_def)
  with db_cond_cases [of RInfra ErrRevisionConflict "\<lambda>s. reconcile_ok prev nxt (world s)" ?u s] show ?thesis
    by (auto simp: reconcile_resource_def)
qed

lemma core_bindE_ret: "(\<And>x t. core (snd (g x t)) = core t) \<Longrightarrow> core (snd (bindE f g s)) = core (snd (f s))"
  by (simp add: bindE_def split: prod.splits sum.splits)

lemma core_finish: "core (snd (bindE (reconcile_resource prev nxt) (\<lambda>_. bindE (invalidate on) (\<lambda>_. ret x)) s)) =
    core (snd (reconcile_resource prev nxt s))"
  by (rule core_bindE_ret) (subst core_bindE_ret, simp_all)

text \<open>What a publication needs before it writes anything.\<close>

definition publish_guard :: "(manifest \<Rightarrow> byte list) \<Rightarrow> string \<Rightarrow> manifest \<Rightarrow> int \<Rightarrow> resource_server \<Rightarrow> bool" where
  "publish_guard H actor m expected cur \<longleftrightarrow>
     validate_manifest m = None \<and> rs_publisher cur = actor \<and> rs_revision cur = expected \<and>
     ensure_no_active_removal cur m = None \<and> rs_hash cur \<noteq> manifest_hash H m"

lemma publish_effect:
  assumes t_def: "t = snd (publish_manifest H on actor m expected srepo srev s)"
  shows "core t = core s \<or> (\<exists>cur. tget (fst (core s)) (mf_id m) = Some cur \<and> publish_guard H actor m expected cur \<and>
     core t = (let nxt = resource_from_manifest H cur m actor srepo srev (clock s) in
       (tput (rs_id cur) nxt (fst (core s)), tput (rs_id cur, rs_revision nxt) (snapshot cur nxt) (snd (core s)))))"
proof (cases "validate_manifest m")
  case (Some e)
  then show ?thesis by (simp add: t_def publish_manifest_def)
next
  case valid: None
  show ?thesis
  proof (cases rule: get_resource_cases [of "mf_id m" s])
    case (failed os e)
    with valid show ?thesis by (simp add: t_def publish_manifest_def)
  next
    case (found os cur)
    let ?s = "s\<lparr>faults := os\<rparr>" and ?n = "resource_from_manifest H cur m actor srepo srev (clock s)"
    show ?thesis
    proof (cases "publish_guard H actor m expected cur")
      case False
      with valid found(1) show ?thesis
        by (auto simp: t_def publish_manifest_def publish_guard_def core_bindE_ret split: option.split)
    next
      case True
      with valid found(1) have "t = snd (bindE (reconcile_resource cur ?n) (\<lambda>_. bindE (invalidate on) (\<lambda>_. ret (?n, True))) ?s)"
        by (simp add: t_def publish_manifest_def publish_guard_def bindE_run [of now] Let_def)
      then have "core t = core (snd (reconcile_resource cur ?n ?s))" by (simp only: core_finish)
      with reconcile_effect [of cur ?n ?s] found(2) True show ?thesis
        by (auto simp: Let_def core_def resource_from_manifest_def)
    qed
  qed
qed

lemma resource_from_manifest_fields [simp]:
  "rs_id (resource_from_manifest H cur m actor srepo srev n) = rs_id cur"
  "rs_revision (resource_from_manifest H cur m actor srepo srev n) = rs_revision cur + 1"
  "rs_publisher (resource_from_manifest H cur m actor srepo srev n) = rs_publisher cur"
  "rs_audience (resource_from_manifest H cur m actor srepo srev n) = rs_audience cur"
  "rs_scopes (resource_from_manifest H cur m actor srepo srev n) = mf_scopes (canonical_manifest m)"
  by (simp_all add: resource_from_manifest_def Let_def)

lemma revise_edge:
  assumes "reg_inv c" "tget (fst c) i = Some cur" "scopes_ok i (mf_scopes m)"
    "nxt = resource_from_manifest H cur m actor srepo srev n"
  shows "reg_edge c (tput (rs_id cur) nxt (fst c), tput (rs_id cur, rs_revision nxt) (snapshot cur nxt) (snd c))"
proof -
  have "rs_id cur = i" using assms(1, 2) by (auto simp: reg_inv_def row_ok_def)
  with assms scopes_ok_canonical [OF assms(3)] show ?thesis
    using reg_edge.revise [of "fst c" i cur nxt "snd c"] by simp
qed

lemma publish_edge:
  assumes "reg_inv (core s)"
  shows "reg_edge\<^sup>*\<^sup>* (core s) (core (snd (publish_manifest H on actor m expected srepo srev s)))"
proof (cases "core (snd (publish_manifest H on actor m expected srepo srev s)) = core s")
  case False
  with publish_effect [OF refl, of H on actor m expected srepo srev s] obtain cur where
    cur: "tget (fst (core s)) (mf_id m) = Some cur" "publish_guard H actor m expected cur"
    and eq: "core (snd (publish_manifest H on actor m expected srepo srev s)) =
      (let nxt = resource_from_manifest H cur m actor srepo srev (clock s) in
       (tput (rs_id cur) nxt (fst (core s)), tput (rs_id cur, rs_revision nxt) (snapshot cur nxt) (snd (core s))))"
    by blast
  from cur(2) have "scopes_ok (mf_id m) (mf_scopes m)"
    using validate_manifest_None by (auto simp: publish_guard_def)
  from revise_edge [OF assms cur(1) this refl] show ?thesis unfolding eq Let_def by (rule r_into_rtranclp)
qed simp

lemma create_edge:
  assumes "id_ok (rs_id r)" "rs_scopes r = []" "rs_revision r = 0" "rs_hash r = []"
  shows "reg_edge\<^sup>*\<^sup>* (core s) (core (snd (create_resource r s)))"
proof -
  let ?u = "world_update (sw_resources_update (tput (rs_id r) r)) :: 'a scope_world_scheme del_db \<Rightarrow> _"
  have u: "core (?u t) = (tput (rs_id r) r (fst (core t)), snd (core t))" for t by (simp add: core_def)
  have e: "reg_edge (core s) (tput (rs_id r) r (fst (core s)), snd (core s))" if "tget (sw_resources (world s)) (rs_id r) = None"
    using assms that by (cases "core s") (auto simp: core_def intro!: reg_edge.create)
  from db_cond_cases [of RInfra ErrResourceAlreadyExists "\<lambda>s. tget (sw_resources (world s)) (rs_id r) = None" ?u s] e u
  show ?thesis by (auto simp: create_resource_def simp del: rtranclp.simps)
qed

lemma provision_edge: "reg_edge\<^sup>*\<^sup>* (core s) (core (snd (provision N i display audience publisher s)))"
proof (cases "\<not> valid_resource_id i \<or> i = IdentityService \<or> i = AccountResourceID \<or> i = InternalServicePrefix \<or>
    display = [] \<or> publisher = [] \<or> \<not> validate_audience N audience")
  case False
  then have "id_ok i" by (simp add: id_ok_def)
  then have "reg_edge\<^sup>*\<^sup>* (core s) (core (snd (create_resource (new_resource i display audience publisher ''operator'' (clock s)) s)))"
    by (intro create_edge) (simp_all add: new_resource_def)
  with False show ?thesis
    by (simp add: provision_def Let_def bindE_run [of now] core_bindE_ret)
qed (auto simp: provision_def)

lemma get_revision_cases:
  obtains (failed) os e where "get_revision i k s = (Inl e, s\<lparr>faults := os\<rparr>)"
  | (found) os v where "get_revision i k s = (Inr v, s\<lparr>faults := os\<rparr>)" "tget (sw_history (world s)) (i, k) = Some v"
proof -
  let ?f = "\<lambda>s. tget (sw_history (world s)) (i, k)"
  obtain r os where run: "db_read RInfra ?f s = (r, s\<lparr>faults := os\<rparr>)" and r: "r = Inr (?f s) \<or> r = Inl RInfra"
    using db_read_cases [of RInfra ?f s] by (metis prod.collapse)
  show ?thesis
  proof (cases "?f s")
    case None
    with run r failed show ?thesis by (auto simp: get_revision_def bindE_run)
  next
    case (Some v)
    with run r failed found show ?thesis by (auto simp: get_revision_def bindE_run)
  qed
qed

lemma restore_edge:
  assumes inv: "reg_inv (core s)"
  shows "reg_edge\<^sup>*\<^sup>* (core s) (core (snd (restore H on i k expected actor s)))"
proof (cases rule: get_resource_cases [of i s])
  case (failed os e)
  then show ?thesis by (simp add: restore_def)
next
  case (found os cur)
  note cur = found
  show ?thesis
  proof (cases "rs_revision cur = expected")
    case False
    with cur show ?thesis by (simp add: restore_def)
  next
    case True
    show ?thesis
    proof (cases rule: get_revision_cases [of i k "s\<lparr>faults := os\<rparr>"])
      case (failed os' e)
      with cur True show ?thesis by (simp add: restore_def)
    next
      case (found os' v)
      let ?m = "\<lparr>mf_schema = ManifestSchemaV1, mf_id = i, mf_display_name = rv_display_name v, mf_scopes = rv_scopes v\<rparr>"
      let ?n = "resource_from_manifest H cur ?m actor ''operator-restore'' (restore_label k) (clock s)"
      let ?s = "s\<lparr>faults := os'\<rparr>"
      have "core (snd (restore H on i k expected actor s)) = core (snd (reconcile_resource cur ?n ?s))"
        using cur True found(1) by (simp add: restore_def Let_def bindE_run [of now] core_finish)
      moreover have "scopes_ok i (mf_scopes ?m)" using inv found(2) by (simp add: reg_inv_def core_def)
      then have "reg_edge (core s) (tput (rs_id cur) ?n (fst (core s)), tput (rs_id cur, rs_revision ?n) (snapshot cur ?n) (snd (core s)))"
        using revise_edge [OF inv, of i cur ?m ?n] cur(2) by (simp add: core_def)
      ultimately show ?thesis using reconcile_effect [of cur ?n ?s] by (auto intro: r_into_rtranclp)
    qed
  qed
qed

lemma bootstrap_current_edge:
  "reg_edge\<^sup>*\<^sup>* (core s) (core (snd (bootstrap_current m audience s)))"
proof (cases rule: get_resource_cases [of AccountResourceID s])
  case (found os cur)
  then show ?thesis by (simp add: bootstrap_current_def)
next
  case (failed os e)
  let ?r = "new_resource AccountResourceID (mf_display_name m) audience SystemAccountPublisher SystemAccountPublisher (clock s)"
  have e: "reg_edge\<^sup>*\<^sup>* (core (s\<lparr>faults := os\<rparr>)) (core (snd (create_resource ?r (s\<lparr>faults := os\<rparr>))))"
    by (rule create_edge) (simp_all add: new_resource_def id_ok_def valid_resource_id_def AccountResourceID_def
        IdentityService_def InternalServicePrefix_def)
  have g: "core (snd (get_resource AccountResourceID t)) = core t" for t :: "'a scope_world_scheme del_db"
    by (cases rule: get_resource_cases [of AccountResourceID t]) simp_all
  have "core (snd (bootstrap_current m audience s)) \<in> {core s, core (snd (create_resource ?r (s\<lparr>faults := os\<rparr>)))}"
    using failed g by (cases "fst (create_resource ?r (s\<lparr>faults := os\<rparr>))")
      (auto simp: bootstrap_current_def bindE_run [of now] bindE_run [of "tryE _"])
  with e show ?thesis by auto
qed

lemma bootstrap_edge:
  assumes "reg_inv (core s)"
  shows "reg_edge\<^sup>*\<^sup>* (core s) (core (snd (bootstrap_account H on N embedded audience srev s)))"
proof -
  have am: "snd (account_manifest embedded s) = s"
    by (auto simp: account_manifest_def split: option.splits)
  have g: "core (snd (get_resource AccountResourceID t)) = core t" for t :: "'a scope_world_scheme del_db"
    by (cases rule: get_resource_cases [of AccountResourceID t]) simp_all
  show ?thesis
  proof (cases "account_manifest embedded s")
    case (Pair r t)
    with am have t: "t = s" by simp
    show ?thesis
    proof (cases r)
      case (Inl e)
      with Pair t show ?thesis by (simp add: bootstrap_account_def)
    next
      case (Inr m)
      let ?b = "bootstrap_current m audience s"
      note b = bootstrap_current_edge [of s m audience]
      have inv: "reg_inv (core (snd ?b))" using reg_inv_edges [OF b assms] .
      have p: "reg_edge\<^sup>*\<^sup>* (core s) (core (snd (publish_manifest H on SystemAccountPublisher m k ''ctech-account'' srev (snd ?b))))" for k
        using b publish_edge [OF inv] by (rule rtranclp_trans)
      show ?thesis
        using b p Pair t Inr g
        by (auto simp: bootstrap_account_def bindE_run [of "bootstrap_current _ _"] bindE_run [of "tryE _"]
            core_bindE_ret split: prod.split sum.split)
    qed
  qed
qed

section \<open>Runs\<close>

datatype reg_call =
    Provision string string string string
  | Publish string manifest int string string
  | Restore string int int string
  | Bootstrap "manifest option" string string
  | PutService service_scopes
  | Catalog

fun reg_run :: "(manifest \<Rightarrow> byte list) \<Rightarrow> bool \<Rightarrow> net_lib \<Rightarrow> reg_call \<Rightarrow> 'v scope_world_scheme del_db \<Rightarrow> 'v scope_world_scheme del_db" where
  "reg_run H on N (Provision i display audience publisher) s = snd (provision N i display audience publisher s)"
| "reg_run H on N (Publish actor m expected srepo srev) s = snd (publish_manifest H on actor m expected srepo srev s)"
| "reg_run H on N (Restore i k expected actor) s = snd (restore H on i k expected actor s)"
| "reg_run H on N (Bootstrap embedded audience srev) s = snd (bootstrap_account H on N embedded audience srev s)"
| "reg_run H on N (PutService g) s = snd (put_service on g s)"
| "reg_run H on N Catalog s = snd (catalog on s)"

text \<open>Between two calls the clock moves and the outcomes of the next database calls are drawn.\<close>

inductive reg_step :: "(manifest \<Rightarrow> byte list) \<Rightarrow> bool \<Rightarrow> net_lib \<Rightarrow> 'v scope_world_scheme del_db \<Rightarrow> 'v scope_world_scheme del_db \<Rightarrow> bool"
  for H on N where
  call: "reg_step H on N s (reg_run H on N c s)"
| outside: "reg_step H on N s (s\<lparr>clock := n, faults := os\<rparr>)"

definition reg_start :: "'v scope_world_scheme del_db \<Rightarrow> bool" where
  "reg_start s \<longleftrightarrow> core s = ([], [])"

lemma core_write [simp]: "(\<And>t. core (u t) = core t) \<Longrightarrow> core (snd (db_write e u s)) = core s"
  using db_cond_cases [of e e "\<lambda>_. True" u s] by (auto simp: db_write_def)

lemma core_cache [simp]: "core (world_update (sw_cache_update f) t) = core t"
  "core (world_update (sw_services_update g) t) = core t"
  by (simp_all add: core_def)

lemma tracks_core: "tracks (\<lambda>s t. core t = core s) f \<Longrightarrow> core (snd (f s)) = core s"
  by (simp add: tracks_def)

interpretation core_frame: step_order "\<lambda>s t. core t = core s"
  by unfold_locales auto

lemma catalog_core: "tracks (\<lambda>s t. core t = core s) (catalog on :: ('v, service_scopes list) reg_prog)"
  unfolding catalog_def cached_catalog_def load_catalog_def load_resources_def Let_def
  by (intro core_frame.tracks_intros allI impI) (simp_all add: tracks_def now_def split: sum.split)

lemma put_service_core: "tracks (\<lambda>s t. core t = core s) (put_service on g :: ('v, unit) reg_prog)"
  unfolding put_service_def repo_put_service_def
  by (intro core_frame.tracks_intros) (simp_all add: tracks_def)

lemma reg_step_edges: "reg_step H on N s t \<Longrightarrow> reg_inv (core s) \<Longrightarrow> reg_edge\<^sup>*\<^sup>* (core s) (core t)"
proof (induction rule: reg_step.induct)
  case (call s c)
  then show ?case
    by (cases c) (simp_all add: provision_edge publish_edge restore_edge bootstrap_edge
        tracks_core [OF catalog_core] tracks_core [OF put_service_core])
qed (simp add: core_def)

lemma reg_steps_edges: "(reg_step H on N)\<^sup>*\<^sup>* s t \<Longrightarrow> reg_inv (core s) \<Longrightarrow> reg_edge\<^sup>*\<^sup>* (core s) (core t)"
proof (induction rule: rtranclp_induct)
  case (step t u)
  then have "reg_edge\<^sup>*\<^sup>* (core s) (core t)" by blast
  moreover from this step.prems have "reg_inv (core t)" by (rule reg_inv_edges)
  ultimately show ?case using reg_step_edges [OF step.hyps(2)] by simp
qed simp

lemma reg_inv_start: "reg_start s \<Longrightarrow> reg_inv (core s)"
  by (simp add: reg_start_def reg_inv_def)

lemma reg_inv_reachable: "reg_start s \<Longrightarrow> (reg_step H on N)\<^sup>*\<^sup>* s t \<Longrightarrow> reg_inv (core t)"
  using reg_steps_edges reg_inv_edges reg_inv_start by blast

section \<open>History and ownership\<close>

text \<open>Claim C21. History of a resource server. In every run of the registry, with any failures of the
  database, the snapshots of a resource server are exactly its revisions from 1 to the current one,
  the current row has the content of the last snapshot, every snapshot names the hash of the one
  before, and no later call rewrites a snapshot, lowers a revision, or changes the publisher or the
  audience of a resource server.\<close>

theorem registry_history:
  assumes "reg_start s0" and "(reg_step H on N)\<^sup>*\<^sup>* s0 s" and "(reg_step H on N)\<^sup>*\<^sup>* s t"
    and "tget (sw_resources (world s)) i = Some r"
  shows "(\<forall>k. tget (sw_history (world s)) (i, k) \<noteq> None \<longleftrightarrow> 1 \<le> k \<and> k \<le> rs_revision r) \<and>
    (rs_revision r \<noteq> 0 \<longrightarrow> (\<exists>v. tget (sw_history (world s)) (i, rs_revision r) = Some v \<and>
       rv_hash v = rs_hash r \<and> rv_scopes v = rs_scopes r \<and> rv_display_name v = rs_display_name r)) \<and>
    (\<forall>k v. tget (sw_history (world s)) (i, k) = Some v \<longrightarrow>
       rv_previous_hash v = (case tget (sw_history (world s)) (i, k - 1) of None \<Rightarrow> [] | Some u \<Rightarrow> rv_hash u) \<and>
       tget (sw_history (world t)) (i, k) = Some v) \<and>
    (\<exists>q. tget (sw_resources (world t)) i = Some q \<and> rs_revision r \<le> rs_revision q \<and>
       rs_publisher q = rs_publisher r \<and> rs_audience q = rs_audience r)"
proof -
  have inv: "reg_inv (core s)" using reg_inv_reachable assms(1, 2) by blast
  have edges: "reg_edge\<^sup>*\<^sup>* (core s) (core t)" using reg_steps_edges [OF assms(3) inv] .
  have h: "history_ok (sw_history (world s)) r" and "rs_id r = i"
    using inv assms(4) by (auto simp: reg_inv_def core_def row_ok_def)
  moreover have "tget (sw_history (world t)) (i, k) = Some v" if "tget (sw_history (world s)) (i, k) = Some v" for k v
    using edges_history [OF edges inv, of "(i, k)" v] that by (simp add: core_def)
  moreover have "\<exists>q. tget (sw_resources (world t)) i = Some q \<and> rs_revision r \<le> rs_revision q \<and>
      rs_publisher q = rs_publisher r \<and> rs_audience q = rs_audience r"
    using edges_rows [OF edges, of i r] assms(4) by (simp add: core_def)
  ultimately show ?thesis unfolding history_ok_def by (auto split: if_splits)
qed

text \<open>Claim C22. Ownership of scopes. In every run, every scope of a stored resource server stands in the
  namespace of that server, is well-formed and concrete, and no two entries, of one server or of
  two, carry the same scope: no product can publish a scope of another one.\<close>

theorem scopes_have_one_owner:
  assumes "reg_start s0" and "(reg_step H on N)\<^sup>*\<^sup>* s0 s"
    and "tget (sw_resources (world s)) i = Some r" and "tget (sw_resources (world s)) j = Some q"
    and "d \<in> set (rs_scopes r)" and "e \<in> set (rs_scopes q)"
  shows "belongs_to_service (sd_scope d) i \<and> is_valid_scope (sd_scope d) \<and> \<not> is_oidc (sd_scope d) \<and>
    (sd_visibility d = VisibilityPublic \<longrightarrow> has_prefix (sd_scope d) (i @ '':'')) \<and>
    (sd_scope d = sd_scope e \<longrightarrow> i = j \<and> d = e)"
proof -
  have inv: "reg_inv (core s)" using reg_inv_reachable assms(1, 2) by blast
  have r: "id_ok i" "scopes_ok i (rs_scopes r)" and q: "id_ok j" "scopes_ok j (rs_scopes q)"
    using inv assms(3, 4) by (auto simp: reg_inv_def core_def row_ok_def)
  have de: "entry_ok i d" "entry_ok j e" using r(2) q(2) assms(5, 6) by (auto simp: scopes_ok_def)
  have "i = j \<and> d = e" if eq: "sd_scope d = sd_scope e"
  proof -
    have "i = j" using owners_unique [OF r(1) q(1) de eq] .
    with assms(3, 4) have "q = r" by simp
    with r(2) assms(5, 6) eq have "d = e" by (auto simp: scopes_ok_def distinct_map dest: inj_onD)
    with \<open>i = j\<close> show ?thesis by simp
  qed
  with entry_belongs [OF r(1) de(1)] de(1) vis_neq show ?thesis by (auto simp: entry_ok_def)
qed

section \<open>Publication\<close>

lemma no_removal:
  assumes "ensure_no_active_removal cur m = None" "d \<in> set (rs_scopes cur)" "sd_status d = StatusActive"
  shows "sd_scope d \<in> sd_scope ` set (mf_scopes (canonical_manifest m))"
  using assms unfolding canonical_manifest_fields by (auto simp: ensure_no_active_removal_def find_None_iff)

lemma invalidate_calm: "faults s = [] \<Longrightarrow> invalidate on s = (Inr (), if on then world_update (sw_cache_update (\<lambda>_. None)) s else s)"
  by (simp add: invalidate_def)

lemma publish_calm:
  assumes "faults s = []" "reg_inv (core s)" "tget (sw_resources (world s)) (mf_id m) = Some cur" "publish_guard H actor m expected cur"
    "nxt = resource_from_manifest H cur m actor srepo srev (clock s)"
  shows "publish_manifest H on actor m expected srepo srev s =
    (Inr (nxt, True), snd (invalidate on (world_update (reconciled cur nxt) s)))"
proof -
  have id: "rs_id cur = mf_id m" and h: "history_ok (sw_history (world s)) cur"
    using assms(2, 3) by (auto simp: reg_inv_def core_def row_ok_def)
  have "tget (sw_history (world s)) (mf_id m, rs_revision cur + 1) = None"
    using h id unfolding history_ok_def by (metis add_le_same_cancel1 not_one_le_zero)
  then have "reconcile_ok cur nxt (world s)" using assms(3, 5) id by (simp add: reconcile_ok_def)
  then show ?thesis
    using assms by (simp add: publish_manifest_def publish_guard_def get_resource_def bindE_run Let_def
        reconcile_resource_def invalidate_calm)
qed

text \<open>Publication. Whatever database calls fail, a publication changes the registry only if the
  manifest is valid, the caller is the publisher of its resource server, the revision is the one the
  caller read, and no active scope disappears; then it replaces only that row, raises its revision
  by one and keeps its publisher and its audience. Conversely a publication that satisfies these
  conditions, with a database that answers, succeeds, stores the manifest in canonical form and
  leaves no stale catalog in the cache.\<close>

theorem publish_guarded:
  assumes "reg_start s0" and "(reg_step H on N)\<^sup>*\<^sup>* s0 s" and "t = snd (publish_manifest H on actor m expected srepo srev s)"
  shows "(\<not> (sw_resources (world t) = sw_resources (world s) \<and> sw_history (world t) = sw_history (world s)) \<longrightarrow>
      (\<exists>cur nxt. tget (sw_resources (world s)) (mf_id m) = Some cur \<and> publish_guard H actor m expected cur \<and>
         tget (sw_resources (world t)) = (tget (sw_resources (world s)))(mf_id m \<mapsto> nxt) \<and>
         rs_revision nxt = expected + 1 \<and> rs_publisher nxt = actor \<and> rs_audience nxt = rs_audience cur \<and>
         (\<forall>d. d \<in> set (rs_scopes cur) \<and> sd_status d = StatusActive \<longrightarrow> sd_scope d \<in> sd_scope ` set (rs_scopes nxt)))) \<and>
    (\<forall>cur. faults s = [] \<and> tget (sw_resources (world s)) (mf_id m) = Some cur \<and> publish_guard H actor m expected cur \<longrightarrow>
      (\<exists>nxt. fst (publish_manifest H on actor m expected srepo srev s) = Inr (nxt, True) \<and>
         tget (sw_resources (world t)) (mf_id m) = Some nxt \<and> rs_scopes nxt = mf_scopes (canonical_manifest m) \<and>
         rs_hash nxt = manifest_hash H (canonical_manifest m) \<and> (on \<longrightarrow> sw_cache (world t) = None)))"
proof (intro conjI impI allI)
  let ?n = "\<lambda>cur. resource_from_manifest H cur m actor srepo srev (clock s)"
  have inv: "reg_inv (core s)" using reg_inv_reachable assms(1, 2) by blast
  show "\<exists>cur nxt. tget (sw_resources (world s)) (mf_id m) = Some cur \<and> publish_guard H actor m expected cur \<and>
         tget (sw_resources (world t)) = (tget (sw_resources (world s)))(mf_id m \<mapsto> nxt) \<and>
         rs_revision nxt = expected + 1 \<and> rs_publisher nxt = actor \<and> rs_audience nxt = rs_audience cur \<and>
         (\<forall>d. d \<in> set (rs_scopes cur) \<and> sd_status d = StatusActive \<longrightarrow> sd_scope d \<in> sd_scope ` set (rs_scopes nxt))"
    if changed: "\<not> (sw_resources (world t) = sw_resources (world s) \<and> sw_history (world t) = sw_history (world s))"
  proof -
    from publish_effect [OF assms(3)] changed obtain cur where cur: "tget (fst (core s)) (mf_id m) = Some cur"
      "publish_guard H actor m expected cur"
      and eq: "core t = (let nxt = resource_from_manifest H cur m actor srepo srev (clock s) in
       (tput (rs_id cur) nxt (fst (core s)), tput (rs_id cur, rs_revision nxt) (snapshot cur nxt) (snd (core s))))"
      by (auto simp: core_def)
    have "rs_id cur = mf_id m" using inv cur(1) by (auto simp: reg_inv_def row_ok_def)
    with cur eq no_removal [of cur m]
    have "tget (sw_resources (world s)) (mf_id m) = Some cur \<and> publish_guard H actor m expected cur \<and>
         tget (sw_resources (world t)) = (tget (sw_resources (world s)))(mf_id m \<mapsto> ?n cur) \<and>
         rs_revision (?n cur) = expected + 1 \<and> rs_publisher (?n cur) = actor \<and> rs_audience (?n cur) = rs_audience cur \<and>
         (\<forall>d. d \<in> set (rs_scopes cur) \<and> sd_status d = StatusActive \<longrightarrow> sd_scope d \<in> sd_scope ` set (rs_scopes (?n cur)))"
      by (simp add: core_def Let_def publish_guard_def)
    then show ?thesis by blast
  qed
  fix cur
  assume a: "faults s = [] \<and> tget (sw_resources (world s)) (mf_id m) = Some cur \<and> publish_guard H actor m expected cur"
  have "rs_id cur = mf_id m" using inv a by (auto simp: reg_inv_def row_ok_def core_def)
  with a publish_calm [OF _ inv, of m cur H actor expected "?n cur" srepo srev on] assms(3)
  show "\<exists>nxt. fst (publish_manifest H on actor m expected srepo srev s) = Inr (nxt, True) \<and>
         tget (sw_resources (world t)) (mf_id m) = Some nxt \<and> rs_scopes nxt = mf_scopes (canonical_manifest m) \<and>
         rs_hash nxt = manifest_hash H (canonical_manifest m) \<and> (on \<longrightarrow> sw_cache (world t) = None)"
    by (auto simp: invalidate_calm reconciled_def resource_from_manifest_def Let_def)
qed

section \<open>Grantable scopes\<close>

definition fresh_catalog :: "bool \<Rightarrow> 'v scope_world_scheme del_db \<Rightarrow> bool" where
  "fresh_catalog on s \<longleftrightarrow> (on \<longrightarrow> (case sw_cache (world s) of None \<Rightarrow> True | Some (gs, t) \<Rightarrow> t \<le> clock s))"

lemma catalog_fresh:
  assumes "faults s = []" "fresh_catalog on s"
  shows "fst (catalog on s) = Inr (merge_resource_servers (map snd (sw_services (world s))) (map snd (sw_resources (world s))))"
proof -
  have "cached_catalog on s = (Inr [], s)"
    using assms by (auto simp: cached_catalog_def fresh_catalog_def bindE_run split: option.split)
  then show ?thesis
    using assms(1) by (simp add: catalog_def load_catalog_def load_resources_def bindE_run Let_def)
qed

lemma first_missing_empty: "[] \<notin> set ss \<Longrightarrow> first_missing index ss = [] \<longleftrightarrow> set ss \<subseteq> set index"
  by (auto simp: first_missing_def find_None_iff split: option.split dest!: find_SomeD)

text \<open>The scopes the tables say may be granted: active public ones of a resource server, and those of a
  public seed row whose product has no resource server yet.\<close>

definition published_scope :: "(scope_definition \<Rightarrow> bool) \<Rightarrow> 'v scope_world_scheme \<Rightarrow> string \<Rightarrow> bool" where
  "published_scope p w sc \<longleftrightarrow> (\<exists>i r d. tget (sw_resources w) i = Some r \<and> d \<in> set (rs_scopes r) \<and> sd_scope d = sc \<and>
     sd_status d = StatusActive \<and> sd_visibility d = VisibilityPublic \<and> p d)"

definition seeded_scope :: "(scope_entry \<Rightarrow> bool) \<Rightarrow> 'v scope_world_scheme \<Rightarrow> string \<Rightarrow> bool" where
  "seeded_scope p w sc \<longleftrightarrow> (\<exists>g e. g \<in> snd ` set (sw_services w) \<and> \<not> sg_internal g \<and> e \<in> set (sg_scopes g) \<and>
     en_scope e = sc \<and> p e \<and>
     tget (sw_resources w) (trim_prefix (sg_service g) (InternalServicePrefix @ '':'')) = None)"

lemma public_index_append: "public_index p (xs @ ys) = public_index p xs @ public_index p ys"
  by (simp add: public_index_def)

lemma entry_of_scope [simp]: "en_scope (entry_of d) = sd_scope d" "en_m2m (entry_of d) = sd_m2m d"
  by (simp_all add: entry_of_def)

lemma public_index_resource:
  "sc \<in> set (public_index p (resource_groups r)) \<longleftrightarrow>
     (\<exists>d\<in>set (rs_scopes r). shown d \<and> sd_scope d = sc \<and> p (entry_of d))"
  by (auto simp: public_index_def resource_groups_def Let_def filter_empty_conv image_iff)

lemma public_index_concat: "set (public_index p (concat xss)) = (\<Union>xs\<in>set xss. set (public_index p xs))"
  by (auto simp: public_index_def)

lemma shown_iff: "entry_ok i d \<Longrightarrow> shown d \<longleftrightarrow> sd_status d = StatusActive \<and> sd_visibility d = VisibilityPublic"
  by (auto simp: entry_ok_def shown_def VisibilityPublic_def VisibilityInternal_def StatusActive_def StatusDeprecated_def)

lemma row_of: "tkeys rs \<Longrightarrow> r \<in> snd ` set rs \<longleftrightarrow> (\<exists>i. tget rs i = Some r)"
  by (metis (no_types, opaque_lifting) imageE image_eqI prod.collapse snd_conv tmem)

lemma merged_index:
  assumes inv: "reg_inv (core s)"
  shows "sc \<in> set (public_index p (merge_resource_servers (map snd (sw_services (world s))) (map snd (sw_resources (world s))))) \<longleftrightarrow>
    published_scope (\<lambda>d. p (entry_of d)) (world s) sc \<or> seeded_scope p (world s) sc"
proof -
  let ?rs = "sw_resources (world s)" and ?w = "world s"
  have tk: "tkeys ?rs" using inv by (simp add: reg_inv_def core_def)
  have ok: "row_ok i r" if "tget ?rs i = Some r" for i r using inv that by (simp add: reg_inv_def core_def)
  have res: "(\<exists>r\<in>snd ` set ?rs. sc \<in> set (public_index p (resource_groups r))) \<longleftrightarrow> published_scope (\<lambda>d. p (entry_of d)) ?w sc"
  proof -
    have "shown d \<longleftrightarrow> sd_status d = StatusActive \<and> sd_visibility d = VisibilityPublic"
      if "tget ?rs i = Some r" "d \<in> set (rs_scopes r)" for i r d
      using ok [OF that(1)] that(2) shown_iff [of i d] by (simp add: row_ok_def scopes_ok_def)
    then show ?thesis
      unfolding public_index_resource published_scope_def Bex_def row_of [OF tk] by metis
  qed
  have man: "managed (map snd ?rs) g \<longleftrightarrow> tget ?rs (trim_prefix (sg_service g) (InternalServicePrefix @ '':'')) \<noteq> None" for g
  proof -
    have "rs_id ` snd ` set ?rs = {i. tget ?rs i \<noteq> None}"
    proof (intro subset_antisym subsetI)
      fix i assume "i \<in> rs_id ` snd ` set ?rs"
      then obtain r where "r \<in> snd ` set ?rs" "rs_id r = i" by blast
      then obtain j where "tget ?rs j = Some r" using row_of [OF tk, of r] by blast
      with ok [of j r] \<open>rs_id r = i\<close> show "i \<in> {i. tget ?rs i \<noteq> None}" by (simp add: row_ok_def)
    next
      fix i assume "i \<in> {i. tget ?rs i \<noteq> None}"
      then obtain r where r: "tget ?rs i = Some r" by blast
      then have "r \<in> snd ` set ?rs" using row_of [OF tk, of r] by blast
      with ok [OF r] show "i \<in> rs_id ` snd ` set ?rs" unfolding row_ok_def by blast
    qed
    then show ?thesis by (simp add: managed_def)
  qed
  have seed: "sc \<in> set (public_index p (filter (\<lambda>g. \<not> managed (map snd ?rs) g) (map snd (sw_services ?w)))) \<longleftrightarrow>
      seeded_scope p ?w sc"
    unfolding seeded_scope_def public_index_def using man by auto
  have groups: "set (public_index p (concat (map resource_groups (map snd ?rs)))) =
      (\<Union>r\<in>snd ` set ?rs. set (public_index p (resource_groups r)))"
    unfolding public_index_concat by simp
  show ?thesis
    unfolding merge_resource_servers_def public_index_append set_append Un_iff groups UN_iff res seed by blast
qed

text \<open>Grantable scopes. With a catalog that is not older than the tables, a list of scopes may be
  granted to a client or an API key exactly if every one of them is an active public scope of a
  resource server, or stands in a public seed row of a product without a resource server; for a
  machine token each must moreover be marked for machines. Internal and deprecated scopes of a
  resource server are never grantable.\<close>

theorem grantable_exact:
  assumes "reg_start s0" and "(reg_step H on N)\<^sup>*\<^sup>* s0 s" and "faults s = []" and "fresh_catalog on s" and "[] \<notin> set ss"
  shows "(fst (validate_grantable on ss s) = Inr [] \<longleftrightarrow>
      (\<forall>sc\<in>set ss. published_scope (\<lambda>_. True) (world s) sc \<or> seeded_scope (\<lambda>_. True) (world s) sc)) \<and>
    (fst (validate_machine_grantable on ss s) = Inr [] \<longleftrightarrow>
      (\<forall>sc\<in>set ss. published_scope sd_m2m (world s) sc \<or> seeded_scope en_m2m (world s) sc))"
proof -
  have inv: "reg_inv (core s)" using reg_inv_reachable assms(1, 2) by blast
  let ?gs = "merge_resource_servers (map snd (sw_services (world s))) (map snd (sw_resources (world s)))"
  have run: "catalog on s = (Inr ?gs, snd (catalog on s))"
    using catalog_fresh [OF assms(3, 4)] by (metis prod.collapse)
  have v: "fst (validate_grantable on ss s) = Inr [] \<longleftrightarrow> set ss \<subseteq> set (public_index (\<lambda>_. True) ?gs)"
    "fst (validate_machine_grantable on ss s) = Inr [] \<longleftrightarrow> set ss \<subseteq> set (public_index en_m2m ?gs)"
    using run first_missing_empty [OF assms(5)]
    by (simp_all add: validate_grantable_def validate_machine_grantable_def)
  show ?thesis
    unfolding v subset_iff merged_index [OF inv] entry_of_scope by blast
qed

section \<open>A run\<close>

definition demo_registry :: "scope_world del_db" where
  "demo_registry = \<lparr>clock = 0, faults = [], rng = (\<lambda>_. Some 0), rng_ix = 0, uuids = (\<lambda>_. ''n''), uuid_ix = 0,
     sess_tbl = [], key_tbl = [], user_tbl = [], requests = [], markers = [], services = [], mails = [],
     published = [], cutoffs = [], world = \<lparr>sw_services = [], sw_resources = [], sw_history = [], sw_cache = None\<rparr>\<rparr>"

definition demo_scope :: "string \<Rightarrow> string \<Rightarrow> bool \<Rightarrow> scope_definition" where
  "demo_scope sc vis m2m = \<lparr>sd_scope = sc, sd_descriptions = [(''en'', ''Read'')], sd_description = [],
     sd_description_pt = ''Ler'', sd_visibility = vis, sd_status = StatusActive, sd_m2m = m2m\<rparr>"

definition demo_manifest :: manifest where
  "demo_manifest = \<lparr>mf_schema = 1, mf_id = ''dfe'', mf_display_name = ''DFe'',
     mf_scopes = [demo_scope ''internal:dfe:sync'' VisibilityInternal False, demo_scope ''dfe:nfes:read'' VisibilityPublic True]\<rparr>"

definition demo_net :: net_lib where
  "demo_net = \<lparr>nl_parse = (\<lambda>_. Some \<lparr>ul_scheme = ''https'', ul_opaque = [], ul_has_user = False,
     ul_host = ''dfe'', ul_hostname = ''dfe'', ul_path = [], ul_raw_query = [], ul_fragment = []\<rparr>),
     nl_loopback = (\<lambda>_. False)\<rparr>"

definition demo_provisioned :: "scope_world del_db" where
  "demo_provisioned = reg_run (\<lambda>_. []) True demo_net (Provision ''dfe'' ''DFe'' ''https://dfe'' ''pub'') demo_registry"

definition demo_published :: "scope_world del_db" where
  "demo_published = reg_run (\<lambda>_. []) True demo_net (Publish ''pub'' demo_manifest 0 ''repo'' ''rev'') demo_provisioned"

lemma demo_registry_start: "reg_start demo_registry"
  by (simp add: reg_start_def core_def demo_registry_def)

lemma demo_provisioned_run: "(reg_step (\<lambda>_. []) True demo_net)\<^sup>*\<^sup>* demo_registry demo_provisioned"
  unfolding demo_provisioned_def by (rule r_into_rtranclp) (rule reg_step.call)

lemma demo_published_step: "reg_step (\<lambda>_. []) True demo_net demo_provisioned demo_published"
  unfolding demo_published_def by (rule reg_step.call)

lemma demo_published_run: "(reg_step (\<lambda>_. []) True demo_net)\<^sup>*\<^sup>* demo_registry demo_published"
  using demo_provisioned_run demo_published_step by (rule rtranclp.rtrancl_into_rtrancl)

definition demo_row :: resource_server where
  "demo_row = the (tget (sw_resources (world demo_published)) ''dfe'')"

lemma demo_row_view: "tget (sw_resources (world demo_published)) ''dfe'' \<noteq> None \<and> rs_revision demo_row = 1 \<and>
    map sd_scope (rs_scopes demo_row) = [''dfe:nfes:read'', ''internal:dfe:sync''] \<and> faults demo_published = [] \<and>
    sw_cache (world demo_published) = None"
  by code_simp

lemma demo_row: "tget (sw_resources (world demo_published)) ''dfe'' = Some demo_row"
  using demo_row_view by (auto simp: demo_row_def)

theorem registry_history_witness:
  "(\<forall>k. tget (sw_history (world demo_published)) (''dfe'', k) \<noteq> None \<longleftrightarrow> 1 \<le> k \<and> k \<le> 1) \<and>
   (\<exists>v. tget (sw_history (world demo_published)) (''dfe'', 1) = Some v \<and> rv_scopes v = rs_scopes demo_row)"
proof -
  have rev: "rs_revision demo_row = 1" using demo_row_view by blast
  show ?thesis
    using registry_history [OF demo_registry_start demo_published_run rtranclp.rtrancl_refl demo_row]
    unfolding rev by auto
qed

theorem scopes_have_one_owner_witness:
  "belongs_to_service ''internal:dfe:sync'' ''dfe'' \<and> is_valid_scope ''internal:dfe:sync''"
proof -
  have m: "map sd_scope (rs_scopes demo_row) = [''dfe:nfes:read'', ''internal:dfe:sync'']" using demo_row_view by blast
  have "''internal:dfe:sync'' \<in> set (map sd_scope (rs_scopes demo_row))" unfolding m by simp
  then obtain d where "d \<in> set (rs_scopes demo_row)" "sd_scope d = ''internal:dfe:sync''" by auto
  with scopes_have_one_owner [OF demo_registry_start demo_published_run demo_row demo_row, of d d] show ?thesis by simp
qed

lemma demo_provisioned_view:
  "faults demo_provisioned = [] \<and> (case tget (sw_resources (world demo_provisioned)) ''dfe'' of None \<Rightarrow> False
     | Some cur \<Rightarrow> publish_guard (\<lambda>_. []) ''pub'' demo_manifest 0 cur)"
  unfolding publish_guard_def by code_simp

theorem publish_guarded_witness:
  "\<exists>nxt. fst (publish_manifest (\<lambda>_. []) True ''pub'' demo_manifest 0 ''repo'' ''rev'' demo_provisioned) = Inr (nxt, True) \<and>
     tget (sw_resources (world demo_published)) ''dfe'' = Some nxt \<and> rs_scopes nxt = mf_scopes (canonical_manifest demo_manifest)"
proof -
  have t: "demo_published = snd (publish_manifest (\<lambda>_. []) True ''pub'' demo_manifest 0 ''repo'' ''rev'' demo_provisioned)"
    by (simp add: demo_published_def)
  have i: "mf_id demo_manifest = ''dfe''" by (simp add: demo_manifest_def)
  obtain cur where "tget (sw_resources (world demo_provisioned)) ''dfe'' = Some cur"
    "publish_guard (\<lambda>_. []) ''pub'' demo_manifest 0 cur" "faults demo_provisioned = []"
    using demo_provisioned_view by (auto split: option.splits)
  with publish_guarded [OF demo_registry_start demo_provisioned_run t] show ?thesis unfolding i by blast
qed

theorem grantable_exact_witness:
  "fst (validate_grantable True [''dfe:nfes:read''] demo_published) = Inr [] \<and>
   fst (validate_grantable True [''internal:dfe:sync''] demo_published) \<noteq> Inr [] \<and>
   fst (validate_machine_grantable True [''dfe:nfes:read''] demo_published) = Inr []"
proof -
  have calm: "faults demo_published = []" and cache: "fresh_catalog True demo_published"
    using demo_row_view by (auto simp: fresh_catalog_def)
  note g = grantable_exact [OF demo_registry_start demo_published_run calm cache]
  have row: "list_ex (\<lambda>d. sd_scope d = ''dfe:nfes:read'' \<and> sd_status d = StatusActive \<and> sd_visibility d = VisibilityPublic \<and> sd_m2m d)
      (rs_scopes demo_row) \<and> sw_services (world demo_published) = [] \<and> map fst (sw_resources (world demo_published)) = [''dfe''] \<and>
      list_all (\<lambda>d. sd_scope d = ''internal:dfe:sync'' \<longrightarrow> sd_visibility d \<noteq> VisibilityPublic) (rs_scopes demo_row)"
    by code_simp
  then have p: "published_scope p (world demo_published) ''dfe:nfes:read''" if "\<And>d. sd_m2m d \<Longrightarrow> p d" for p
    using that demo_row unfolding published_scope_def list_ex_iff by blast
  have only: "r = demo_row" if "tget (sw_resources (world demo_published)) i = Some r" for i r
  proof -
    have "i \<in> set (map fst (sw_resources (world demo_published)))"
      using that unfolding tget_def by (metis domI dom_map_of_conv_image_fst set_map)
    with row have "i = ''dfe''" by simp
    with that demo_row show ?thesis by simp
  qed
  have np: "\<not> published_scope (\<lambda>_. True) (world demo_published) ''internal:dfe:sync''"
    using only row unfolding published_scope_def list_all_iff by blast
  have ns: "\<not> seeded_scope (\<lambda>_. True) (world demo_published) ''internal:dfe:sync''"
    using row by (simp add: seeded_scope_def)
  show ?thesis using g [of "[''dfe:nfes:read'']"] g [of "[''internal:dfe:sync'']"] p np ns by simp
qed

end
