(* ===== verification/OAuthClients.thy ===== *)
theory OAuthClients
  imports RegistryRuns
begin

text \<open>
  OAuth clients (\<open>api/internal/domain/oauth/client\<close>): the record and what it allows (\<open>model.go\<close>),
  the table (\<open>repository.go\<close>), the view for other services (\<open>internal_view.go\<close>), the
  self-service of the developer page (\<open>service.go\<close>) and the operator's side (\<open>operator.go\<close>). The
  table lives in the \<open>world\<close> of the database record, next to the scope registry.
\<close>

section \<open>The world of the OAuth endpoints\<close>

record oauth_client =
  cl_pk :: string
  cl_name :: string
  cl_secret_hash :: string
  cl_type :: string
  cl_redirect_uris :: "string list"
  cl_allowed_scopes :: "string list"
  cl_audience :: "string list"
  cl_first_party :: bool
  cl_owner :: string
  cl_managed_resource :: string
  cl_created_at :: stamp
  cl_updated_at :: stamp

record auth_code =
  ac_user_id :: string
  ac_session_id :: string
  ac_client_id :: string
  ac_redirect_uri :: string
  ac_scopes :: "string list"
  ac_challenge :: string
  ac_method :: string
  ac_mfa_verified :: bool
  ac_nonce :: string
  ac_created_at :: stamp

record consent_grant =
  cg_pk :: string
  cg_sk :: string
  cg_scopes :: "string list"
  cg_created_at :: stamp
  cg_updated_at :: stamp

record audit_event =
  ae_pk :: string
  ae_type :: string
  ae_ip :: string
  ae_user_agent :: string
  ae_meta :: "(string \<times> string) list"
  ae_created_at :: stamp
  ae_expires_at :: int

record oauth_world = scope_world +
  ow_clients :: "(string, oauth_client) table"
  ow_codes :: "(string, auth_code \<times> time) table"
  ow_consents :: "(key, consent_grant) table"
  ow_audit :: "audit_event list"

datatype oauth_err =
    OInfra | ORandom | ErrClientNotFound | ErrCodeNotFound | ErrGrantNotFound
  | OReg reg_err | OUser user_err | OPw pw_err
  | ErrClientForbidden | ErrInvalidClientType | ErrInvalidRedirectURI | ErrNotConfidential
  | ErrInvalidScope string | ErrClientAlreadyExists | ErrInvalidClientID | ErrInvalidClientName
  | ErrScopesRequired | ErrOIDCScopeForM2M string | ErrRepeatedScope string | ErrNotM2MClient
  | ErrPublisherClient | ErrManagedResourceRequired | ErrNotSystemClient

type_synonym ('v, 'a) oauth_prog = "('v oauth_world_scheme del_db, oauth_err, 'a) prog"

section \<open>Clients\<close>

definition TypePublic :: string where "TypePublic = ''public''"
definition TypeConfidential :: string where "TypeConfidential = ''confidential''"
definition SystemOwnerUserID :: string where "SystemOwnerUserID = ''system''"
definition minOperatorClientIDLength :: nat where "minOperatorClientIDLength = 3"
definition maxOperatorClientIDLength :: nat where "maxOperatorClientIDLength = 128"
definition maxOperatorClientNameLen :: nat where "maxOperatorClientNameLen = 120"
definition maxOwnedClients :: nat where "maxOwnedClients = 100"

definition build_client_pk :: "string \<Rightarrow> string" where
  "build_client_pk cid = ''CLIENT_'' @ cid"

definition client_id :: "oauth_client \<Rightarrow> string" where
  "client_id c = trim_prefix (cl_pk c) ''CLIENT_''"

definition effective_audience :: "oauth_client \<Rightarrow> string list" where
  "effective_audience c = (if cl_audience c \<noteq> [] then cl_audience c else [client_id c])"

definition is_public :: "oauth_client \<Rightarrow> bool" where
  "is_public c \<longleftrightarrow> cl_type c = TypePublic"

definition loopback_host :: "string \<Rightarrow> bool" where
  "loopback_host h \<longleftrightarrow> h = ''localhost'' \<or> has_prefix h ''127.''"

definition is_native_client :: "net_lib \<Rightarrow> oauth_client \<Rightarrow> bool" where
  "is_native_client N c \<longleftrightarrow>
     is_public c \<and> cl_redirect_uris c \<noteq> [] \<and>
     list_all (\<lambda>raw. case nl_parse N raw of
         None \<Rightarrow> False
       | Some u \<Rightarrow> ul_scheme u = ''http'' \<and> loopback_host (ul_hostname u)) (cl_redirect_uris c)"

definition is_redirect_uri_allowed :: "oauth_client \<Rightarrow> string \<Rightarrow> bool" where
  "is_redirect_uri_allowed c uri \<longleftrightarrow> list_ex (\<lambda>a. a = uri) (cl_redirect_uris c)"

definition is_registered_origin :: "net_lib \<Rightarrow> oauth_client \<Rightarrow> string \<Rightarrow> bool" where
  "is_registered_origin N c uri = (case nl_parse N uri of
       None \<Rightarrow> False
     | Some t \<Rightarrow>
         ul_scheme t \<noteq> [] \<and> ul_host t \<noteq> [] \<and>
         list_ex (\<lambda>raw. case nl_parse N raw of
             None \<Rightarrow> False
           | Some a \<Rightarrow> ul_scheme a = ul_scheme t \<and> ul_host a = ul_host t) (cl_redirect_uris c))"

definition has_scope :: "oauth_client \<Rightarrow> string \<Rightarrow> bool" where
  "has_scope c sc \<longleftrightarrow> list_ex (\<lambda>s. s = sc) (cl_allowed_scopes c)"

definition filter_scopes :: "oauth_client \<Rightarrow> string list \<Rightarrow> string list" where
  "filter_scopes c ss = filter (has_scope c) ss"

section \<open>Repository\<close>

definition client_get_by_id :: "string \<Rightarrow> ('v, oauth_client) oauth_prog" where
  "client_get_by_id cid =
     bindE (db_read OInfra (\<lambda>s. tget (ow_clients (world s)) (build_client_pk cid))) (\<lambda>c. case c of
       None \<Rightarrow> throw ErrClientNotFound
     | Some c \<Rightarrow> ret c)"

text \<open>\<open>Create\<close> sets the key and the timestamps of the client it is given, and its caller sees them.\<close>

definition client_create :: "oauth_client \<Rightarrow> ('v, oauth_client) oauth_prog" where
  "client_create c =
     bindE (if cl_pk c = [] then bindE new_uuid (\<lambda>i. ret (c\<lparr>cl_pk := build_client_pk i\<rparr>)) else ret c) (\<lambda>c1.
     bindE now (\<lambda>n.
     let c2 = c1\<lparr>cl_created_at := ts n, cl_updated_at := ts n\<rparr> in
     bindE (db_write OInfra (world_update (ow_clients_update (tput (cl_pk c2) c2)))) (\<lambda>_. ret c2)))"

definition client_list_by_owner :: "string \<Rightarrow> ('v, oauth_client list) oauth_prog" where
  "client_list_by_owner uid =
     db_read OInfra (\<lambda>s. take maxOwnedClients (filter (\<lambda>c. cl_owner c = uid) (map snd (ow_clients (world s)))))"

definition client_delete :: "string \<Rightarrow> ('v, unit) oauth_prog" where
  "client_delete cid = db_write OInfra (world_update (ow_clients_update (tdel (build_client_pk cid))))"

text \<open>\<open>UpdateItem\<close> on a missing key creates an item with the given attributes only.\<close>

definition blank_client :: "string \<Rightarrow> oauth_client" where
  "blank_client pk = \<lparr>cl_pk = pk, cl_name = [], cl_secret_hash = [], cl_type = [], cl_redirect_uris = [],
     cl_allowed_scopes = [], cl_audience = [], cl_first_party = False, cl_owner = [], cl_managed_resource = [],
     cl_created_at = None, cl_updated_at = None\<rparr>"

definition client_update :: "string \<Rightarrow> (oauth_client \<Rightarrow> oauth_client) \<Rightarrow> ('v, unit) oauth_prog" where
  "client_update cid f =
     bindE now (\<lambda>n.
     db_write OInfra (world_update (ow_clients_update (\<lambda>tb.
       let k = build_client_pk cid;
           old = (case tget tb k of None \<Rightarrow> blank_client k | Some c \<Rightarrow> c)
       in tput k ((f old)\<lparr>cl_updated_at := ts n\<rparr>) tb))))"

section \<open>The internal view\<close>

record internal_view =
  iv_client_id :: string
  iv_owner :: string
  iv_allowed_scopes :: "string list"
  iv_active :: bool

definition client_active :: "oauth_client \<Rightarrow> ('v, bool) oauth_prog" where
  "client_active c =
     (if is_public c \<or> cl_secret_hash c = [] then ret False
      else if cl_owner c = SystemOwnerUserID then ret True
      else if cl_owner c = [] then ret False
      else mapErr OUser (is_active (cl_owner c)))"

definition describe_client :: "string \<Rightarrow> ('v, internal_view) oauth_prog" where
  "describe_client cid =
     (if cid = [] \<or> length cid > maxOperatorClientIDLength then throw ErrClientNotFound
      else
      bindE (client_get_by_id cid) (\<lambda>c.
      bindE (client_active c) (\<lambda>act.
      ret \<lparr>iv_client_id = client_id c, iv_owner = cl_owner c, iv_allowed_scopes = cl_allowed_scopes c, iv_active = act\<rparr>)))"

section \<open>Self-service\<close>

definition native_part :: "string \<Rightarrow> bool" where
  "native_part p \<longleftrightarrow> p \<noteq> [] \<and> hd p \<in> set ''abcdefghijklmnopqrstuvwxyz'' \<and>
     set p \<subseteq> set ''abcdefghijklmnopqrstuvwxyz0123456789-''"

definition valid_native_redirect :: "url \<Rightarrow> bool" where
  "valid_native_redirect u \<longleftrightarrow>
     ul_host u = [] \<and> \<not> ul_has_user u \<and> ul_opaque u = [] \<and> ul_raw_query u = [] \<and> ul_fragment u = [] \<and>
     has_prefix (ul_path u) ''/'' \<and> ul_path u \<noteq> ''/'' \<and>
     (let parts = split_on (CHR ''.'') (ul_scheme u) in length parts \<ge> 3 \<and> list_all native_part parts)"

definition valid_redirect :: "net_lib \<Rightarrow> string \<Rightarrow> bool" where
  "valid_redirect N raw = (case nl_parse N raw of
       None \<Rightarrow> False
     | Some u \<Rightarrow>
         valid_native_redirect u \<or>
         ul_host u \<noteq> [] \<and> (ul_scheme u = ''https'' \<or> ul_scheme u = ''http'' \<and> loopback_host (ul_hostname u)))"

definition validate_redirect_uris :: "net_lib \<Rightarrow> string list \<Rightarrow> bool" where
  "validate_redirect_uris N uris = list_all (valid_redirect N) uris"

definition generate_secret :: "(string \<Rightarrow> byte list) \<Rightarrow> ('v, string) oauth_prog" where
  "generate_secret sha = bindE (generate_opaque_token sha ORandom) (\<lambda>(raw, _). ret raw)"

definition require_grantable :: "bool \<Rightarrow> string list \<Rightarrow> ('v, unit) oauth_prog" where
  "require_grantable on ss =
     bindE (mapErr OReg (validate_grantable on ss)) (\<lambda>bad. if bad \<noteq> [] then throw (ErrInvalidScope bad) else ret ())"

definition list_clients :: "string \<Rightarrow> ('v, oauth_client list) oauth_prog" where
  "list_clients uid = client_list_by_owner uid"

definition create_client ::
  "(string \<Rightarrow> byte list) \<Rightarrow> argon2id \<Rightarrow> net_lib \<Rightarrow> bool \<Rightarrow> string \<Rightarrow> string \<Rightarrow> string \<Rightarrow> string list \<Rightarrow> string list \<Rightarrow> string list \<Rightarrow>
   ('v, oauth_client \<times> string) oauth_prog" where
  "create_client sha argon N on uid name typ uris scs aud =
     (if typ \<noteq> TypePublic \<and> typ \<noteq> TypeConfidential then throw ErrInvalidClientType
      else if \<not> validate_redirect_uris N uris then throw ErrInvalidRedirectURI
      else
      bindE (require_grantable on scs) (\<lambda>_.
      let c = (blank_client [])\<lparr>cl_name := name, cl_type := typ, cl_redirect_uris := uris, cl_allowed_scopes := scs,
            cl_audience := aud, cl_owner := uid\<rparr> in
      if typ = TypeConfidential then
        bindE (generate_secret sha) (\<lambda>raw.
        bindE (mapErr OPw (hash_password argon raw)) (\<lambda>h.
        bindE (client_create (c\<lparr>cl_secret_hash := h\<rparr>)) (\<lambda>c'. ret (c', raw))))
      else bindE (client_create c) (\<lambda>c'. ret (c', []))))"

definition get_owned :: "string \<Rightarrow> string \<Rightarrow> ('v, oauth_client) oauth_prog" where
  "get_owned uid cid =
     bindE (client_get_by_id cid) (\<lambda>c. if cl_owner c \<noteq> uid then throw ErrClientForbidden else ret c)"

definition update_client ::
  "net_lib \<Rightarrow> bool \<Rightarrow> string \<Rightarrow> string \<Rightarrow> string \<Rightarrow> string list \<Rightarrow> string list \<Rightarrow> string list \<Rightarrow> ('v, oauth_client) oauth_prog" where
  "update_client N on uid cid name uris scs aud =
     bindE (get_owned uid cid) (\<lambda>c.
     if \<not> validate_redirect_uris N uris then throw ErrInvalidRedirectURI
     else
     bindE (require_grantable on scs) (\<lambda>_.
     let f = (\<lambda>c. c\<lparr>cl_name := name, cl_redirect_uris := uris, cl_allowed_scopes := scs, cl_audience := aud\<rparr>) in
     bindE (client_update cid f) (\<lambda>_. ret (f c))))"

definition delete_client :: "string \<Rightarrow> string \<Rightarrow> ('v, unit) oauth_prog" where
  "delete_client uid cid = bindE (get_owned uid cid) (\<lambda>_. client_delete cid)"

definition regenerate_secret :: "(string \<Rightarrow> byte list) \<Rightarrow> argon2id \<Rightarrow> string \<Rightarrow> string \<Rightarrow> ('v, string) oauth_prog" where
  "regenerate_secret sha argon uid cid =
     bindE (get_owned uid cid) (\<lambda>c.
     if is_public c then throw ErrNotConfidential
     else
     bindE (generate_secret sha) (\<lambda>raw.
     bindE (mapErr OPw (hash_password argon raw)) (\<lambda>h.
     bindE (client_update cid (\<lambda>c. c\<lparr>cl_secret_hash := h\<rparr>)) (\<lambda>_. ret raw))))"

section \<open>The operator's side\<close>

definition InternalAccountScopeRegistryWrite :: string where
  "InternalAccountScopeRegistryWrite = ''internal:account:scope-registry:write''"

definition alnum_chars :: string where
  "alnum_chars = ''ABCDEFGHIJKLMNOPQRSTUVWXYZabcdefghijklmnopqrstuvwxyz0123456789''"

definition operatorClientIDPattern :: "string \<Rightarrow> bool" where
  "operatorClientIDPattern s \<longleftrightarrow> s \<noteq> [] \<and> hd s \<in> set alnum_chars \<and> set s \<subseteq> set (alnum_chars @ ''._~-'')"

definition valid_client_id :: "string \<Rightarrow> bool" where
  "valid_client_id cid \<longleftrightarrow>
     minOperatorClientIDLength \<le> length cid \<and> length cid \<le> maxOperatorClientIDLength \<and> operatorClientIDPattern cid"

fun validate_m2m_list :: "string list \<Rightarrow> string list \<Rightarrow> oauth_err option" where
  "validate_m2m_list seen [] = None"
| "validate_m2m_list seen (sc # ss) =
     (if \<not> is_valid_scope sc then Some (ErrInvalidScope sc)
      else if is_oidc sc then Some (ErrOIDCScopeForM2M sc)
      else if sc \<in> set seen then Some (ErrRepeatedScope sc)
      else validate_m2m_list (sc # seen) ss)"

definition validate_m2m_scopes :: "string list \<Rightarrow> oauth_err option" where
  "validate_m2m_scopes ss = (if ss = [] then Some ErrScopesRequired else validate_m2m_list [] ss)"

definition validate_m2m_input :: "string \<Rightarrow> string \<Rightarrow> string list \<Rightarrow> oauth_err option" where
  "validate_m2m_input cid0 name0 ss =
     (let cid = trim_space cid0; name = trim_space name0 in
      if \<not> valid_client_id cid then Some ErrInvalidClientID
      else if name = [] \<or> length name > maxOperatorClientNameLen then Some ErrInvalidClientName
      else validate_m2m_scopes ss)"

definition require_registered :: "bool \<Rightarrow> string list \<Rightarrow> ('v, unit) oauth_prog" where
  "require_registered on ss =
     bindE (mapErr OReg (catalog on)) (\<lambda>gs.
     case List.find (\<lambda>sc. \<not> list_ex (\<lambda>g. list_ex (\<lambda>e. en_scope e = sc) (sg_scopes g)) gs) ss of
       None \<Rightarrow> ret ()
     | Some sc \<Rightarrow> throw (ErrInvalidScope sc))"

definition create_m2m ::
  "(string \<Rightarrow> byte list) \<Rightarrow> argon2id \<Rightarrow> bool \<Rightarrow> string \<Rightarrow> string \<Rightarrow> string list \<Rightarrow> string \<Rightarrow> ('v, oauth_client \<times> string) oauth_prog" where
  "create_m2m sha argon on cid0 name0 ss managed_id =
     (let cid = trim_space cid0; name = trim_space name0 in
      case validate_m2m_input cid name ss of Some e \<Rightarrow> throw e | None \<Rightarrow>
      bindE (require_registered on ss) (\<lambda>_.
      bindE (tryE (client_get_by_id cid)) (\<lambda>g. case g of
        Inr _ \<Rightarrow> throw ErrClientAlreadyExists
      | Inl e \<Rightarrow>
          if e \<noteq> ErrClientNotFound then throw e
          else
          bindE (generate_secret sha) (\<lambda>raw.
          bindE (mapErr OPw (hash_password argon raw)) (\<lambda>h.
          bindE (client_create ((blank_client (build_client_pk cid))\<lparr>cl_name := name, cl_secret_hash := h,
              cl_type := TypeConfidential, cl_allowed_scopes := ss, cl_first_party := True,
              cl_owner := SystemOwnerUserID, cl_managed_resource := managed_id\<rparr>)) (\<lambda>c. ret (c, raw)))))))"

definition create_resource_publisher ::
  "(string \<Rightarrow> byte list) \<Rightarrow> argon2id \<Rightarrow> bool \<Rightarrow> string \<Rightarrow> string \<Rightarrow> string \<Rightarrow> ('v, oauth_client \<times> string) oauth_prog" where
  "create_resource_publisher sha argon on cid name rid =
     (if trim_space rid = [] then throw ErrManagedResourceRequired
      else create_m2m sha argon on cid name [InternalAccountScopeRegistryWrite] (trim_space rid))"

text \<open>The items of \<open>ys\<close> that \<open>xs\<close> does not have, appended in order.\<close>

fun append_new :: "string list \<Rightarrow> string list \<Rightarrow> string list" where
  "append_new xs [] = xs"
| "append_new xs (y # ys) = append_new (if y \<in> set xs then xs else xs @ [y]) ys"

definition ensure_first_party_public_client ::
  "net_lib \<Rightarrow> string \<Rightarrow> string \<Rightarrow> string \<Rightarrow> string list \<Rightarrow> string list \<Rightarrow> ('v, oauth_client \<times> bool) oauth_prog" where
  "ensure_first_party_public_client N cid0 name0 uri ss aud =
     (let cid = trim_space cid0; name = trim_space name0 in
      if \<not> valid_client_id cid then throw ErrInvalidClientID
      else if name = [] \<or> length name > maxOperatorClientNameLen then throw ErrInvalidClientName
      else if \<not> validate_redirect_uris N [uri] then throw ErrInvalidRedirectURI
      else if ss = [] \<or> validate_scopes ss \<noteq> [] then throw ErrScopesRequired
      else
      bindE (tryE (client_get_by_id cid)) (\<lambda>g. case g of
        Inl e \<Rightarrow>
          if e = ErrClientNotFound then
            bindE (client_create ((blank_client (build_client_pk cid))\<lparr>cl_name := name, cl_type := TypePublic,
                cl_redirect_uris := [uri], cl_allowed_scopes := ss, cl_audience := aud, cl_first_party := True,
                cl_owner := SystemOwnerUserID\<rparr>)) (\<lambda>c. ret (c, True))
          else throw e
      | Inr c \<Rightarrow>
          if \<not> is_public c \<or> \<not> cl_first_party c \<or> cl_owner c \<noteq> SystemOwnerUserID then throw ErrNotSystemClient
          else
          let f = (\<lambda>d. d\<lparr>cl_name := name, cl_redirect_uris := append_new (cl_redirect_uris c) [uri],
                cl_allowed_scopes := append_new (cl_allowed_scopes c) ss, cl_audience := append_new (cl_audience c) aud\<rparr>) in
          if f c = c then ret (c, False)
          else bindE (client_update cid f) (\<lambda>_. ret (f c, True))))"

definition ensure_first_party_public_client_scopes :: "string \<Rightarrow> string list \<Rightarrow> ('v, oauth_client option \<times> bool) oauth_prog" where
  "ensure_first_party_public_client_scopes cid0 ss =
     (let cid = trim_space cid0 in
      if ss = [] then ret (None, False)
      else case List.find (\<lambda>sc. \<not> is_valid_scope sc \<or> \<not> has_prefix sc (cid @ '':'') \<or>
          has_prefix sc (InternalServicePrefix @ '':'')) ss of
        Some sc \<Rightarrow> throw (ErrInvalidScope sc)
      | None \<Rightarrow>
      bindE (tryE (client_get_by_id cid)) (\<lambda>g. case g of
        Inl e \<Rightarrow> if e = ErrClientNotFound then ret (None, False) else throw e
      | Inr c \<Rightarrow>
          if \<not> is_public c \<or> \<not> cl_first_party c then throw ErrNotSystemClient
          else
          let allowed = append_new (cl_allowed_scopes c) ss in
          if allowed = cl_allowed_scopes c then ret (Some c, False)
          else bindE (client_update cid (\<lambda>d. d\<lparr>cl_allowed_scopes := allowed\<rparr>))
                 (\<lambda>_. ret (Some (c\<lparr>cl_allowed_scopes := allowed\<rparr>), True))))"

definition grant_m2m_scopes :: "bool \<Rightarrow> string \<Rightarrow> string list \<Rightarrow> ('v, oauth_client \<times> string list) oauth_prog" where
  "grant_m2m_scopes on cid0 ss =
     (let cid = trim_space cid0 in
      case validate_m2m_scopes ss of Some e \<Rightarrow> throw e | None \<Rightarrow>
      bindE (require_registered on ss) (\<lambda>_.
      bindE (client_get_by_id cid) (\<lambda>c.
      if is_public c \<or> \<not> cl_first_party c then throw ErrNotM2MClient
      else if cl_managed_resource c \<noteq> [] then throw ErrPublisherClient
      else
      let allowed = append_new (cl_allowed_scopes c) ss;
          added = drop (length (cl_allowed_scopes c)) allowed
      in if added = [] then ret (c, [])
         else bindE (client_update cid (\<lambda>d. d\<lparr>cl_allowed_scopes := allowed\<rparr>))
                (\<lambda>_. ret (c\<lparr>cl_allowed_scopes := allowed\<rparr>, added)))))"

end
