(* ===== verification/ClientRuns.thy ===== *)
theory ClientRuns
  imports OAuthClients
begin

text \<open>
  What the two ways of creating OAuth clients keep apart, over all runs of the registry, the
  developer page and the operator's commands, with any failures of the database: only the platform
  has first-party clients, no client of a person ever holds an internal scope, a registry publisher
  holds nothing but its one permission, and a person touches nobody else's client.
\<close>

section \<open>Frames\<close>

text \<open>\<open>keeps \<pi> f\<close>: \<open>f\<close> leaves what \<open>\<pi>\<close> shows of the state alone.\<close>

definition keeps :: "('s \<Rightarrow> 'a) \<Rightarrow> ('s, 'e, 'b) prog \<Rightarrow> bool" where
  "keeps \<pi> f \<longleftrightarrow> tracks (\<lambda>s t. \<pi> t = \<pi> s) f"

interpretation keeps: step_order "\<lambda>s t. \<pi> t = \<pi> s" for \<pi>
  by unfold_locales auto

lemma keepsD: "keeps \<pi> f \<Longrightarrow> \<pi> (snd (f s)) = \<pi> s"
  by (simp add: keeps_def tracks_def)

lemma keepsD': "keeps \<pi> f \<Longrightarrow> f s = (r, t) \<Longrightarrow> \<pi> t = \<pi> s"
  by (drule keepsD [of _ _ s]) simp

lemmas keeps_intros = keeps.tracks_intros [folded keeps_def]

lemma kept_read: "blind \<pi> \<Longrightarrow> keeps \<pi> (db_read e f)"
  unfolding keeps_def by (rule tracks_db_read) (simp add: blindD)

lemma kept_cond: "blind \<pi> \<Longrightarrow> (\<And>s. \<pi> (u s) = \<pi> s) \<Longrightarrow> keeps \<pi> (db_cond e d c u)"
  unfolding keeps_def by (rule tracks_db_cond) (simp_all add: blindD)

lemma kept_write: "blind \<pi> \<Longrightarrow> (\<And>s. \<pi> (u s) = \<pi> s) \<Longrightarrow> keeps \<pi> (db_write e u)"
  unfolding db_write_def by (rule kept_cond)

lemma keeps_now: "keeps \<pi> now"
  by (simp add: keeps_def tracks_def)

lemma keeps_new_uuid: "(\<And>s n. \<pi> (s\<lparr>uuid_ix := n\<rparr>) = \<pi> s) \<Longrightarrow> keeps \<pi> new_uuid"
  by (simp add: keeps_def tracks_def)

lemma keeps_random: "(\<And>s n. \<pi> (s\<lparr>rng_ix := n\<rparr>) = \<pi> s) \<Longrightarrow> keeps \<pi> (generate_random e b)"
  by (simp add: keeps_def tracks_def generate_random_def Let_def split: option.split)

lemma keeps_option:
  "(x = None \<Longrightarrow> keeps \<pi> f) \<Longrightarrow> (\<And>y. x = Some y \<Longrightarrow> keeps \<pi> (g y)) \<Longrightarrow> keeps \<pi> (case x of None \<Rightarrow> f | Some y \<Rightarrow> g y)"
  by (cases x) simp_all

lemma keeps_sum:
  "(\<And>e. x = Inl e \<Longrightarrow> keeps \<pi> (f e)) \<Longrightarrow> (\<And>y. x = Inr y \<Longrightarrow> keeps \<pi> (g y)) \<Longrightarrow> keeps \<pi> (case x of Inl e \<Rightarrow> f e | Inr y \<Rightarrow> g y)"
  by (cases x) simp_all

lemma keeps_prod: "(\<And>a b. x = (a, b) \<Longrightarrow> keeps \<pi> (f a b)) \<Longrightarrow> keeps \<pi> (case x of (a, b) \<Rightarrow> f a b)"
  by (cases x) simp

lemma keeps_list:
  "(x = [] \<Longrightarrow> keeps \<pi> f) \<Longrightarrow> (\<And>y ys. x = y # ys \<Longrightarrow> keeps \<pi> (g y ys)) \<Longrightarrow> keeps \<pi> (case x of [] \<Rightarrow> f | y # ys \<Rightarrow> g y ys)"
  by (cases x) simp_all

lemmas keeps_calls = keeps_intros kept_read kept_cond kept_write keeps_now keeps_new_uuid keeps_random
  keeps_option keeps_sum keeps_prod keeps_list

lemma blind_world [simp, intro]: "blind (\<lambda>s :: 'w del_db. P (world s))"
  by (simp add: blind_def)

text \<open>The registry does not touch the clients.\<close>

abbreviation beside :: "'v scope_world_scheme del_db \<Rightarrow> 'v" where
  "beside s \<equiv> scope_world.more (world s)"

lemma beside_updates [simp]:
  "scope_world.more (sw_services_update f w) = scope_world.more w"
  "scope_world.more (sw_resources_update g w) = scope_world.more w"
  "scope_world.more (sw_history_update h w) = scope_world.more w"
  "scope_world.more (sw_cache_update c w) = scope_world.more w"
  by (cases w; simp)+

lemma blind_beside [simp]: "blind beside"
  by (simp add: blind_def)

lemmas registry_defs = load_catalog_def repo_put_service_def load_resources_def get_resource_def create_resource_def
  reconcile_resource_def reconciled_def get_revision_def invalidate_def

lemma beside_catalog: "keeps beside (catalog on)"
  unfolding catalog_def cached_catalog_def registry_defs Let_def
  by (intro keeps_calls) simp_all

lemma beside_publish: "keeps beside (publish_manifest H on actor m expected srepo srev)"
  unfolding publish_manifest_def registry_defs Let_def
  by (intro keeps_calls) simp_all

lemma beside_bootstrap: "keeps beside (bootstrap_account H on N embedded audience srev)"
  unfolding bootstrap_account_def bootstrap_current_def account_manifest_def registry_defs
  by (intro keeps_calls beside_publish) simp_all

lemma beside_registry: "beside (reg_run H on N c s) = beside s"
proof (cases c)
  case (Provision i d a p)
  have "keeps beside (provision N i d a p)"
    unfolding provision_def registry_defs Let_def by (intro keeps_calls) simp_all
  from keepsD [OF this, of s] Provision show ?thesis by simp
next
  case (Restore i k e a)
  have "keeps beside (restore H on i k e a)"
    unfolding restore_def registry_defs Let_def by (intro keeps_calls) simp_all
  from keepsD [OF this, of s] Restore show ?thesis by simp
next
  case (PutService g)
  have "keeps beside (put_service on g)"
    unfolding put_service_def registry_defs by (intro keeps_calls) simp_all
  from keepsD [OF this, of s] PutService show ?thesis by simp
qed (simp_all add: keepsD [OF beside_publish] keepsD [OF beside_bootstrap] keepsD [OF beside_catalog])

section \<open>Catalogs without internal scopes in public groups\<close>

definition is_internal :: "string \<Rightarrow> bool" where
  "is_internal sc \<longleftrightarrow> has_prefix sc (InternalServicePrefix @ '':'')"

definition group_safe :: "service_scopes \<Rightarrow> bool" where
  "group_safe g \<longleftrightarrow> (sg_internal g \<or> (\<forall>e\<in>set (sg_scopes g). \<not> is_internal (en_scope e)))"

definition side_inv :: "'v scope_world_scheme del_db \<Rightarrow> bool" where
  "side_inv s \<longleftrightarrow> (\<forall>g\<in>snd ` set (sw_services (world s)). group_safe g) \<and>
     (\<forall>gs t. sw_cache (world s) = Some (gs, t) \<longrightarrow> (\<forall>g\<in>set gs. group_safe g))"

definition scope_inv :: "'v scope_world_scheme del_db \<Rightarrow> bool" where
  "scope_inv s \<longleftrightarrow> reg_inv (core s) \<and> side_inv s"

lemma blind_scope_inv [simp]: "blind scope_inv" "blind side_inv"
  by (simp_all add: blind_def scope_inv_def side_inv_def core_def)

lemma preserves_option:
  "(x = None \<Longrightarrow> preserves I f) \<Longrightarrow> (\<And>y. x = Some y \<Longrightarrow> preserves I (g y)) \<Longrightarrow> preserves I (case x of None \<Rightarrow> f | Some y \<Rightarrow> g y)"
  by (cases x) simp_all

lemma preserves_sum:
  "(\<And>e. x = Inl e \<Longrightarrow> preserves I (f e)) \<Longrightarrow> (\<And>y. x = Inr y \<Longrightarrow> preserves I (g y)) \<Longrightarrow> preserves I (case x of Inl e \<Rightarrow> f e | Inr y \<Rightarrow> g y)"
  by (cases x) simp_all

lemma preserves_prod: "(\<And>a b. x = (a, b) \<Longrightarrow> preserves I (f a b)) \<Longrightarrow> preserves I (case x of (a, b) \<Rightarrow> f a b)"
  by (cases x) simp

lemmas preserves_cases = preserves_option preserves_sum preserves_prod

lemma entry_external: "id_ok i \<Longrightarrow> entry_ok i d \<Longrightarrow> shown d \<Longrightarrow> \<not> is_internal (sd_scope d)"
proof
  assume a: "id_ok i" "entry_ok i d" "shown d" "is_internal (sd_scope d)"
  from a(1) have i: "CHR '':'' \<notin> set i" "i \<noteq> InternalServicePrefix" "CHR '':'' \<notin> set InternalServicePrefix"
    using id_plain [of i] by (auto simp: InternalServicePrefix_def)
  from a(2, 3) obtain x where "sd_scope d = i @ '':'' @ x"
    by (auto simp: entry_ok_def shown_def has_prefix_iff)
  moreover from a(4) obtain y where "sd_scope d = InternalServicePrefix @ '':'' @ y"
    by (auto simp: is_internal_def has_prefix_iff)
  ultimately show False using append_colon_inject [of i InternalServicePrefix x y] i by simp
qed

lemma resource_groups_safe: "row_ok i r \<Longrightarrow> g \<in> set (resource_groups r) \<Longrightarrow> group_safe g"
  using entry_external by (auto simp: resource_groups_def Let_def group_safe_def row_ok_def scopes_ok_def split: if_splits)

lemma merge_safe:
  "(\<forall>g\<in>set gs. group_safe g) \<Longrightarrow> (\<forall>r\<in>set rs. \<exists>i. row_ok i r) \<Longrightarrow> g \<in> set (merge_resource_servers gs rs) \<Longrightarrow> group_safe g"
  using resource_groups_safe by (fastforce simp: merge_resource_servers_def)

lemma yields_if: "(b \<Longrightarrow> yields I f V) \<Longrightarrow> (\<not> b \<Longrightarrow> yields I g V) \<Longrightarrow> yields I (if b then f else g) V"
  by simp

lemma cached_catalog_safe:
  "preserves scope_inv (cached_catalog on)" "yields scope_inv (cached_catalog on) (\<lambda>gs. \<forall>g\<in>set gs. group_safe g)"
proof -
  let ?f = "\<lambda>s. case sw_cache (world s) of None \<Rightarrow> [] | Some (gs, t) \<Rightarrow> if clock s < t then gs else []"
  show "preserves scope_inv (cached_catalog on)"
    unfolding cached_catalog_def by (intro wp preserves_cases) simp_all
  have "yields scope_inv (db_read RInfra ?f) (\<lambda>gs. \<forall>g\<in>set gs. group_safe g)"
    by (rule yields_db_read) (auto simp: scope_inv_def side_inv_def split: option.split, metis)
  from yields_tryE [OF this] show "yields scope_inv (cached_catalog on) (\<lambda>gs. \<forall>g\<in>set gs. group_safe g)"
    unfolding cached_catalog_def
    by (intro yields_if yields_bindE [where V = "\<lambda>r. \<forall>x. r = Inr x \<longrightarrow> (\<forall>g\<in>set x. group_safe g)"] wp)
      (auto simp: yields_def split: sum.split)
qed

lemma load_safe:
  "preserves scope_inv load_catalog" "yields scope_inv load_catalog (\<lambda>gs. \<forall>g\<in>set gs. group_safe g)"
  "preserves scope_inv load_resources" "yields scope_inv load_resources (\<lambda>rs. \<forall>r\<in>set rs. \<exists>i. row_ok i r)"
proof -
  show "preserves scope_inv load_catalog" "preserves scope_inv load_resources"
    unfolding registry_defs by (intro wp; simp)+
  show "yields scope_inv load_catalog (\<lambda>gs. \<forall>g\<in>set gs. group_safe g)"
    unfolding registry_defs by (rule yields_db_read) (simp add: scope_inv_def side_inv_def)
  have "\<exists>i. row_ok i r" if "scope_inv s" "r \<in> snd ` set (sw_resources (world s))" for s :: "'v scope_world_scheme del_db" and r
    using that row_of [of "sw_resources (world s)" r] by (auto simp: scope_inv_def reg_inv_def core_def)
  then show "yields (scope_inv :: 'v scope_world_scheme del_db \<Rightarrow> bool) load_resources (\<lambda>rs. \<forall>r\<in>set rs. \<exists>i. row_ok i r)"
    unfolding registry_defs by (intro yields_db_read) auto
qed

lemma catalog_safe:
  "preserves scope_inv (catalog on)" "yields scope_inv (catalog on) (\<lambda>gs. \<forall>g\<in>set gs. group_safe g)"
proof -
  have w: "preserves scope_inv (if on \<and> gs \<noteq> [] then logE (db_write RInfra (world_update (sw_cache_update (\<lambda>_. Some (gs, n))))) else ret ())"
    if "\<forall>g\<in>set gs. group_safe g" for gs n
    using that by (intro wp preserves_db_write) (simp_all add: scope_inv_def side_inv_def core_def)
  have m: "\<forall>g\<in>set (merge_resource_servers gs rs). group_safe g"
    if "\<forall>g\<in>set gs. group_safe g" "\<forall>r\<in>set rs. \<exists>i. row_ok i r" for gs rs
    using merge_safe that by blast
  show "preserves scope_inv (catalog on)"
    unfolding catalog_def Let_def
    by (rule preserves_bindE_val [OF cached_catalog_safe])
      (intro wp preserves_bindE_val [OF load_safe(1, 2)] preserves_bindE_val [OF load_safe(3, 4)] w m; assumption)
  show "yields scope_inv (catalog on) (\<lambda>gs. \<forall>g\<in>set gs. group_safe g)"
    unfolding catalog_def Let_def
    by (rule yields_bindE [OF cached_catalog_safe])
      (intro yields_if yields_ret yields_bindE [OF load_safe(1, 2)] yields_bindE [OF load_safe(3, 4)]
        yields_bindE [OF preserves_now yields_True] yields_bindE [OF w yields_True] m; assumption)
qed

lemma side_put_service: "group_safe g \<Longrightarrow> preserves side_inv (put_service on g)"
  unfolding put_service_def registry_defs
proof (intro wp preserves_db_write)
  fix s :: "'a scope_world_scheme del_db"
  assume g: "group_safe g" and s: "side_inv s"
  have sub: "snd ` set (tput k g t) \<subseteq> insert g (snd ` set t)" for k and t :: "(string, service_scopes) table"
    by (induction t) (auto simp: tput_def)
  have "group_safe x" if "x \<in> snd ` set (tput (sg_service g) g (sw_services (world s)))" for x
  proof -
    from subsetD [OF sub that] g s show ?thesis unfolding side_inv_def by blast
  qed
  then have "\<forall>x\<in>snd ` set (tput (sg_service g) g (sw_services (world s))). group_safe x" by blast
  with s show "side_inv (world_update (sw_services_update (tput (sg_service g) g)) s)"
    by (simp add: side_inv_def)
qed (simp_all add: side_inv_def)

lemma blind_conditions [simp]: "blind (\<lambda>s :: 'v scope_world_scheme del_db. tget (sw_resources (world s)) i = x)"
  "blind (\<lambda>s :: 'v scope_world_scheme del_db. reconcile_ok p q (world s))"
  by (simp_all add: blind_def)

lemma side_reconcile: "preserves side_inv (reconcile_resource p q)"
  unfolding reconcile_resource_def by (rule preserves_db_cond) (simp_all add: side_inv_def reconciled_def)

lemma side_create_resource: "preserves side_inv (create_resource r)"
  unfolding create_resource_def by (rule preserves_db_cond) (simp_all add: side_inv_def)

lemma side_invalidate: "preserves side_inv (invalidate on)"
  unfolding invalidate_def by (intro wp preserves_db_write) (simp_all add: side_inv_def)

lemma side_get_resource: "preserves side_inv (get_resource i)" "preserves side_inv (get_revision i k)"
  unfolding get_resource_def get_revision_def by (intro wp preserves_cases; simp)+

lemmas side_calls = wp preserves_cases side_reconcile side_create_resource side_invalidate side_get_resource

lemma side_publish: "preserves side_inv (publish_manifest H on actor m expected srepo srev)"
  unfolding publish_manifest_def Let_def by (intro side_calls)

lemma side_registry:
  "preserves side_inv (provision N i d a p)" "preserves side_inv (restore H on i k e a)"
  "preserves side_inv (bootstrap_account H on N embedded audience srev)"
  unfolding provision_def restore_def bootstrap_account_def bootstrap_current_def account_manifest_def Let_def
  by (intro side_calls side_publish)+

text \<open>A seed row may be written as long as it does not show an internal scope.\<close>

definition seed_ok :: "reg_call \<Rightarrow> bool" where
  "seed_ok c = (case c of PutService g \<Rightarrow> group_safe g | _ \<Rightarrow> True)"

lemma scope_inv_registry:
  assumes "scope_inv s" "seed_ok c"
  shows "scope_inv (reg_run H on N c s)"
proof (cases "c = Catalog")
  case True
  with assms(1) preservesD [OF catalog_safe(1)] show ?thesis by simp
next
  case False
  from assms(1) have inv: "reg_inv (core s)" and side: "side_inv s" by (simp_all add: scope_inv_def)
  have "reg_inv (core (reg_run H on N c s))"
    using reg_inv_edges [OF reg_step_edges [OF reg_step.call inv] inv] .
  moreover have "side_inv (reg_run H on N c s)"
    using side False assms(2) by (cases c) (auto simp: seed_ok_def intro: preservesD side_publish side_registry side_put_service)
  ultimately show ?thesis by (simp add: scope_inv_def)
qed

section \<open>Clients\<close>

definition client_ok :: "string \<Rightarrow> oauth_client \<Rightarrow> bool" where
  "client_ok k c \<longleftrightarrow> cl_pk c = k \<and>
     (cl_first_party c \<longrightarrow> cl_owner c = SystemOwnerUserID) \<and>
     (\<not> cl_first_party c \<longrightarrow> [] \<notin> set (cl_allowed_scopes c) \<longrightarrow> (\<forall>sc\<in>set (cl_allowed_scopes c). \<not> is_internal sc)) \<and>
     (cl_managed_resource c \<noteq> [] \<longrightarrow> cl_first_party c \<and> \<not> is_public c \<and>
        cl_allowed_scopes c = [InternalAccountScopeRegistryWrite]) \<and>
     (is_public c \<longrightarrow> cl_secret_hash c = [])"

definition clients_inv :: "'v oauth_world_scheme del_db \<Rightarrow> bool" where
  "clients_inv s \<longleftrightarrow> (\<forall>k c. tget (ow_clients (world s)) k = Some c \<longrightarrow> client_ok k c)"

definition trust_inv :: "'v oauth_world_scheme del_db \<Rightarrow> bool" where
  "trust_inv s \<longleftrightarrow> scope_inv s \<and> clients_inv s"

lemma blind_trust [simp]: "blind trust_inv"
  by (simp add: blind_def trust_inv_def scope_inv_def side_inv_def core_def clients_inv_def)

lemma same_clients: "beside s = beside t \<Longrightarrow> ow_clients (world s) = ow_clients (world t)"
  by (cases "world s"; cases "world t") simp

lemma trust_registry: "trust_inv s \<Longrightarrow> seed_ok c \<Longrightarrow> trust_inv (reg_run H on N c s)"
  by (simp add: trust_inv_def clients_inv_def same_clients [OF beside_registry] scope_inv_registry)

lemma scope_inv_clients [simp]: "scope_inv (world_update (ow_clients_update f) s) \<longleftrightarrow> scope_inv s"
  by (simp add: scope_inv_def side_inv_def core_def)

text \<open>From \<open>A\<close> the program ends in \<open>B\<close>, whatever it returns.\<close>

definition leads :: "('s \<Rightarrow> bool) \<Rightarrow> ('s, 'e, 'a) prog \<Rightarrow> ('s \<Rightarrow> bool) \<Rightarrow> bool" where
  "leads A f B \<longleftrightarrow> (\<forall>s. A s \<longrightarrow> B (snd (f s)))"

lemma leads_preserves: "preserves I f \<longleftrightarrow> leads I f I"
  by (simp add: leads_def preserves_def)

lemma leads_idle: "(\<And>s. A s \<Longrightarrow> B s) \<Longrightarrow> preserves A f \<Longrightarrow> leads A f B"
  by (simp add: leads_def preserves_def)

lemma leads_bindE:
  assumes "preserves A f" "\<And>s. A s \<Longrightarrow> B s" "\<And>x. leads A (g x) B"
  shows "leads A (bindE f g) B"
  unfolding leads_def
proof (intro allI impI)
  fix s assume A: "A s"
  from preservesD [OF assms(1) A] assms(2, 3) show "B (snd (bindE f g s))"
    by (auto simp: leads_def bindE_def split: prod.split sum.split)
qed

lemma leads_if: "(b \<Longrightarrow> leads A f B) \<Longrightarrow> (\<not> b \<Longrightarrow> leads A g B) \<Longrightarrow> leads A (if b then f else g) B"
  by simp

lemma leads_write:
  assumes "blind A" "blind B" "\<And>s. A s \<Longrightarrow> B s" "\<And>s. A s \<Longrightarrow> B (u s)"
  shows "leads A (db_write e u) B"
  unfolding leads_def db_write_def
proof (intro allI impI)
  fix s assume "A s"
  obtain os where "snd (db_cond e e (\<lambda>_. True) u s) = s\<lparr>faults := os\<rparr> \<or> snd (db_cond e e (\<lambda>_. True) u s) = u (s\<lparr>faults := os\<rparr>)"
    using db_cond_cases [of e e "\<lambda>_. True" u s] by blast
  with \<open>A s\<close> assms show "B (snd (db_cond e e (\<lambda>_. True) u s))" by (auto simp: blindD)
qed

definition holds :: "string \<Rightarrow> oauth_client \<Rightarrow> 'v oauth_world_scheme del_db \<Rightarrow> bool" where
  "holds cid c s \<longleftrightarrow> trust_inv s \<and> tget (ow_clients (world s)) (build_client_pk cid) = Some c"

lemma blind_holds [simp]: "blind (holds cid c)"
  by (simp add: blind_def holds_def blindD [OF blind_trust])

lemma client_get_cases:
  obtains (failed) os e where "client_get_by_id cid s = (Inl e, s\<lparr>faults := os\<rparr>)"
  | (found) os c where "client_get_by_id cid s = (Inr c, s\<lparr>faults := os\<rparr>)"
      "tget (ow_clients (world s)) (build_client_pk cid) = Some c"
proof -
  let ?f = "\<lambda>s. tget (ow_clients (world s)) (build_client_pk cid)"
  obtain r os where run: "db_read OInfra ?f s = (r, s\<lparr>faults := os\<rparr>)" and r: "r = Inr (?f s) \<or> r = Inl OInfra"
    using db_read_cases [of OInfra ?f s] by (metis prod.collapse)
  show ?thesis
  proof (cases "?f s")
    case None
    with run r failed show ?thesis by (auto simp: client_get_by_id_def bindE_run)
  next
    case (Some c)
    with run r failed found show ?thesis by (auto simp: client_get_by_id_def bindE_run)
  qed
qed

lemma client_read:
  assumes "\<And>c. leads (holds cid c) (g c) trust_inv"
  shows "preserves trust_inv (bindE (client_get_by_id cid) g)"
  unfolding preserves_def
proof (intro allI impI)
  fix s :: "'a oauth_world_scheme del_db" assume inv: "trust_inv s"
  show "trust_inv (snd (bindE (client_get_by_id cid) g s))"
  proof (cases rule: client_get_cases [of cid s])
    case (failed os e)
    with inv show ?thesis by (simp add: blindD)
  next
    case (found os c)
    with inv have "holds cid c (s\<lparr>faults := os\<rparr>)" by (simp add: holds_def blindD)
    with assms [of c] found show ?thesis by (simp add: leads_def)
  qed
qed

lemma client_try_read:
  assumes "\<And>e. preserves trust_inv (g (Inl e))" "\<And>c. leads (holds cid c) (g (Inr c)) trust_inv"
  shows "preserves trust_inv (bindE (tryE (client_get_by_id cid)) g)"
  unfolding preserves_def
proof (intro allI impI)
  fix s :: "'a oauth_world_scheme del_db" assume inv: "trust_inv s"
  show "trust_inv (snd (bindE (tryE (client_get_by_id cid)) g s))"
  proof (cases rule: client_get_cases [of cid s])
    case (failed os e)
    with inv have "trust_inv (s\<lparr>faults := os\<rparr>)" by (simp add: blindD)
    from preservesD [OF assms(1) this] failed show ?thesis by (simp add: bindE_run)
  next
    case (found os c)
    with inv have "holds cid c (s\<lparr>faults := os\<rparr>)" by (simp add: holds_def blindD)
    with assms(2) [of c] found show ?thesis by (simp add: leads_def bindE_run)
  qed
qed

lemma keeps_clients: "keeps beside f \<Longrightarrow> ow_clients (world (snd (f s))) = ow_clients (world s)"
  by (rule same_clients) (rule keepsD)

lemma preserves_holds: "preserves trust_inv f \<Longrightarrow> keeps beside f \<Longrightarrow> preserves (holds cid c) f"
  using keeps_clients [of f] by (simp add: preserves_def holds_def)

lemma holds_trust: "holds cid c s \<Longrightarrow> trust_inv s"
  by (simp add: holds_def)

lemma trust_of_beside: "preserves scope_inv f \<Longrightarrow> keeps beside f \<Longrightarrow> preserves trust_inv f"
  using keeps_clients [of f] by (simp add: preserves_def trust_inv_def clients_inv_def)

lemma beside_mapErr: "keeps beside f \<Longrightarrow> keeps beside (mapErr h f)"
  by (intro keeps_calls)

lemma trust_catalog: "preserves trust_inv (mapErr OReg (catalog on))"
  by (intro trust_of_beside wp catalog_safe beside_mapErr beside_catalog)

lemma trust_grantable: "preserves trust_inv (require_grantable on ss)" "keeps beside (require_grantable on ss)"
  unfolding require_grantable_def validate_grantable_def
  by (intro trust_of_beside wp catalog_safe keeps_calls beside_catalog)+

lemma trust_registered: "preserves trust_inv (require_registered on ss)" "keeps beside (require_registered on ss)"
  unfolding require_registered_def
  by (intro trust_catalog wp preserves_cases keeps_calls beside_mapErr beside_catalog)+

lemma first_missing_subset: "first_missing index ss = [] \<Longrightarrow> [] \<notin> set ss \<Longrightarrow> set ss \<subseteq> set index"
  using first_missing_empty by blast

lemma grantable_external:
  "yields trust_inv (require_grantable on ss) (\<lambda>_. [] \<notin> set ss \<longrightarrow> (\<forall>sc\<in>set ss. \<not> is_internal sc))"
proof -
  have y: "yields scope_inv (validate_grantable on ss) (\<lambda>bad. bad = [] \<longrightarrow> [] \<notin> set ss \<longrightarrow> (\<forall>sc\<in>set ss. \<not> is_internal sc))"
    unfolding validate_grantable_def
  proof (rule yields_bindE [OF catalog_safe], rule yields_ret, intro impI)
    fix gs assume "\<forall>g\<in>set gs. group_safe g" "first_missing (public_index (\<lambda>_. True) gs) ss = []" "[] \<notin> set ss"
    with first_missing_subset [of "public_index (\<lambda>_. True) gs" ss] show "\<forall>sc\<in>set ss. \<not> is_internal sc"
      by (auto simp: public_index_def group_safe_def split: if_splits)
  qed
  have "yields trust_inv (mapErr OReg (validate_grantable on ss)) (\<lambda>bad. bad = [] \<longrightarrow> [] \<notin> set ss \<longrightarrow> (\<forall>sc\<in>set ss. \<not> is_internal sc))"
    using y by (fastforce simp: yields_def mapErr_def trust_inv_def split: prod.splits sum.splits)
  moreover have "preserves trust_inv (mapErr OReg (validate_grantable on ss))"
    unfolding validate_grantable_def by (intro trust_of_beside wp catalog_safe keeps_calls beside_catalog)
  ultimately show ?thesis
    unfolding require_grantable_def
    by (intro yields_bindE [where V = "\<lambda>bad. bad = [] \<longrightarrow> [] \<notin> set ss \<longrightarrow> (\<forall>sc\<in>set ss. \<not> is_internal sc)"]) (auto simp: yields_def)
qed

lemma trust_write: "client_ok k c \<Longrightarrow> trust_inv s \<Longrightarrow> trust_inv (world_update (ow_clients_update (tput k c)) s)"
  by (auto simp: trust_inv_def clients_inv_def)

lemma trust_outside: "trust_inv (s\<lparr>uuid_ix := i\<rparr>) \<longleftrightarrow> trust_inv s" "trust_inv (s\<lparr>rng_ix := j\<rparr>) \<longleftrightarrow> trust_inv s"
  by (simp_all add: trust_inv_def scope_inv_def side_inv_def core_def clients_inv_def)

lemma holds_outside: "holds cid c (s\<lparr>rng_ix := j\<rparr>) \<longleftrightarrow> holds cid c s"
  by (simp add: holds_def trust_outside)

lemma trust_uuid: "preserves trust_inv new_uuid"
  by (simp add: preserves_def trust_outside)

lemma random_preserves: "(\<And>s j. I (s\<lparr>rng_ix := j\<rparr>) \<longleftrightarrow> I s) \<Longrightarrow> preserves I (generate_random e b)"
  by (simp add: preserves_def generate_random_def Let_def split: option.split)

lemma secret_preserves: "(\<And>s j. I (s\<lparr>rng_ix := j\<rparr>) \<longleftrightarrow> I s) \<Longrightarrow> preserves I (generate_secret sha)"
  "(\<And>s j. I (s\<lparr>rng_ix := j\<rparr>) \<longleftrightarrow> I s) \<Longrightarrow> preserves I (mapErr OPw (hash_password argon pw))"
  unfolding generate_secret_def generate_opaque_token_def hash_password_def Let_def
  by (intro wp preserves_cases random_preserves; assumption)+

lemmas secret_trust = secret_preserves [OF trust_outside(2)] secret_preserves [OF holds_outside]

text \<open>A new client: only its key and its timestamps are still open.\<close>

lemma trust_create:
  assumes "\<And>k. client_ok k (c\<lparr>cl_pk := k\<rparr>)"
  shows "preserves trust_inv (client_create c)"
proof -
  have ok: "client_ok (cl_pk c1) (c1\<lparr>cl_created_at := ts n, cl_updated_at := ts n\<rparr>)" if "client_ok (cl_pk c1) c1" for c1 n
    using that by (simp add: client_ok_def is_public_def)
  have "client_ok (cl_pk c) c" using assms [of "cl_pk c"] by simp
  with assms ok show ?thesis
    unfolding client_create_def Let_def
    by (intro preserves_bindE_val [where V = "\<lambda>c1. client_ok (cl_pk c1) c1"] wp trust_uuid preserves_db_write trust_write)
      (auto simp: yields_def intro!: trust_write)
qed

text \<open>An update of the row that was read.\<close>

lemma clients_update_eq:
  "g (ow_clients (world s)) = h (ow_clients (world s)) \<Longrightarrow>
   world_update (ow_clients_update g) s = world_update (ow_clients_update h) (s :: 'v oauth_world_scheme del_db)"
  by (cases s; cases "world s") simp

lemma update_leads:
  assumes "client_ok (build_client_pk cid) (f c)"
  shows "leads (holds cid c) (client_update cid f :: ('v, unit) oauth_prog) trust_inv"
  unfolding client_update_def
proof (rule leads_bindE)
  fix n
  have "client_ok (build_client_pk cid) ((f c)\<lparr>cl_updated_at := ts n\<rparr>)"
    using assms by (simp add: client_ok_def is_public_def)
  note written = trust_write [OF this]
  show "leads (holds cid c) (db_write OInfra (world_update (ow_clients_update (\<lambda>tb. let k = build_client_pk cid;
      old = (case tget tb k of None \<Rightarrow> blank_client k | Some c \<Rightarrow> c) in tput k ((f old)\<lparr>cl_updated_at := ts n\<rparr>) tb))) :: ('v, unit) oauth_prog) trust_inv"
  proof (rule leads_write)
    fix s :: "'v oauth_world_scheme del_db" assume h: "holds cid c s"
    from h show "trust_inv (world_update (ow_clients_update (\<lambda>tb. let k = build_client_pk cid;
        old = (case tget tb k of None \<Rightarrow> blank_client k | Some c \<Rightarrow> c) in tput k ((f old)\<lparr>cl_updated_at := ts n\<rparr>) tb)) s)"
      by (subst clients_update_eq [where h = "tput (build_client_pk cid) ((f c)\<lparr>cl_updated_at := ts n\<rparr>)"])
        (simp_all add: holds_def written)
  qed (simp_all add: holds_trust)
qed (simp_all add: preserves_now holds_trust)

lemma leads_ret: "leads (holds cid c) (ret x) trust_inv" "leads (holds cid c) (throw e) trust_inv"
  by (simp_all add: leads_def holds_trust)

lemma leads_then_ret: "leads A f B \<Longrightarrow> leads A (bindE f (\<lambda>y. ret (h y))) B"
  unfolding leads_def
proof (intro allI impI)
  fix s assume "\<forall>s. A s \<longrightarrow> B (snd (f s))" "A s"
  then have "B (snd (f s))" by simp
  then show "B (snd (bindE f (\<lambda>y. ret (h y)) s))" by (cases "f s"; cases "fst (f s)") (auto simp: bindE_run)
qed

lemma held_ok: "holds cid c s \<Longrightarrow> client_ok (build_client_pk cid) c"
  by (simp add: holds_def trust_inv_def clients_inv_def)

lemma leads_fact: "(\<And>s. A s \<Longrightarrow> P) \<Longrightarrow> (P \<Longrightarrow> leads A f B) \<Longrightarrow> leads A f B"
  by (auto simp: leads_def)

lemma trust_delete: "preserves trust_inv (client_delete cid)"
  unfolding client_delete_def
  by (rule preserves_db_write) (auto simp: trust_inv_def clients_inv_def split: if_splits)

lemma leads_weaken: "preserves trust_inv f \<Longrightarrow> leads (holds cid c) f trust_inv"
  by (simp add: leads_def preserves_def holds_trust)

lemma owned_read:
  assumes "\<And>c. cl_owner c = uid \<Longrightarrow> leads (holds cid c) (g c) trust_inv"
  shows "preserves trust_inv (bindE (get_owned uid cid) g)"
proof -
  have "bindE (get_owned uid cid) g = bindE (client_get_by_id cid) (\<lambda>c. if cl_owner c \<noteq> uid then throw ErrClientForbidden else g c)"
    by (auto simp: get_owned_def bindE_def fun_eq_iff split: prod.split sum.split)
  with assms show ?thesis by (auto intro!: client_read leads_if leads_ret)
qed

lemma public_confidential: "TypePublic \<noteq> TypeConfidential"
  by (simp add: TypePublic_def TypeConfidential_def)

lemma trust_create_client: "preserves trust_inv (create_client sha argon N on uid name typ uris scs aud)"
proof -
  have row: "client_ok k ((blank_client [])\<lparr>cl_name := name, cl_type := typ, cl_redirect_uris := uris, cl_allowed_scopes := scs,
      cl_audience := aud, cl_owner := uid, cl_secret_hash := h, cl_pk := k\<rparr>)"
    if "[] \<notin> set scs \<longrightarrow> (\<forall>sc\<in>set scs. \<not> is_internal sc)" "typ \<noteq> TypePublic \<or> h = []" for k h
    using that by (auto simp: client_ok_def blank_client_def is_public_def)
  have row0: "client_ok k ((blank_client [])\<lparr>cl_name := name, cl_type := typ, cl_redirect_uris := uris, cl_allowed_scopes := scs,
      cl_audience := aud, cl_owner := uid, cl_pk := k\<rparr>)"
    if "[] \<notin> set scs \<longrightarrow> (\<forall>sc\<in>set scs. \<not> is_internal sc)" for k
    using that by (auto simp: client_ok_def blank_client_def is_public_def)
  show ?thesis
    unfolding create_client_def Let_def
    by (intro wp preserves_bindE_val [OF trust_grantable(1) grantable_external] secret_trust trust_create)
      (use row row0 public_confidential in \<open>auto simp: client_ok_def blank_client_def is_public_def\<close>)
qed

lemma trust_update_client: "uid \<noteq> SystemOwnerUserID \<Longrightarrow> preserves trust_inv (update_client N on uid cid name uris scs aud :: ('v, oauth_client) oauth_prog)"
  unfolding update_client_def Let_def
proof (intro owned_read leads_if leads_ret)
  fix c :: oauth_client
  let ?f = "\<lambda>c. c\<lparr>cl_name := name, cl_redirect_uris := uris, cl_allowed_scopes := scs, cl_audience := aud\<rparr>"
  assume uid: "uid \<noteq> SystemOwnerUserID" and own: "cl_owner c = uid"
  show "leads (holds cid c) (bindE (require_grantable on scs) (\<lambda>_. bindE (client_update cid ?f) (\<lambda>_. ret (?f c))) :: ('v, oauth_client) oauth_prog) trust_inv"
    unfolding leads_def
  proof (intro allI impI)
    fix s :: "'v oauth_world_scheme del_db" assume h: "holds cid c s"
    let ?r = "require_grantable on scs s"
    have h': "holds cid c (snd ?r)" using preservesD [OF preserves_holds [OF trust_grantable] h] .
    show "trust_inv (snd (bindE (require_grantable on scs) (\<lambda>_. bindE (client_update cid ?f) (\<lambda>_. ret (?f c))) s))"
    proof (cases "fst ?r")
      case (Inl e)
      then obtain t where r: "?r = (Inl e, t)" by (metis prod.collapse)
      with holds_trust [OF h'] show ?thesis by simp
    next
      case (Inr u)
      then have "[] \<notin> set scs \<longrightarrow> (\<forall>sc\<in>set scs. \<not> is_internal sc)"
        using yieldsD [OF grantable_external holds_trust [OF h], of on scs u "snd ?r"] by (metis prod.collapse)
      with held_ok [OF h] uid own have "client_ok (build_client_pk cid) (?f c)" by (auto simp: client_ok_def is_public_def)
      then have "leads (holds cid c) (client_update cid ?f) trust_inv" by (rule update_leads [where f = ?f])
      from leads_then_ret [OF this, of "\<lambda>_. ?f c"] h'
      have "trust_inv (snd (bindE (client_update cid ?f) (\<lambda>_. ret (?f c)) (snd ?r)))" unfolding leads_def by blast
      moreover obtain t where "?r = (Inr u, t)" using Inr by (metis prod.collapse)
      ultimately show ?thesis by simp
    qed
  qed
qed

text \<open>An update that writes what keeps the row in order.\<close>

lemma update_then_ret:
  "client_ok (build_client_pk cid) (f c) \<Longrightarrow> leads (holds cid c) (bindE (client_update cid f) (\<lambda>_. ret x)) trust_inv"
  by (rule leads_then_ret [where h = "\<lambda>_. x"]) (rule update_leads [where f = f])

lemma trust_delete_client: "preserves trust_inv (delete_client uid cid)"
  unfolding delete_client_def by (intro owned_read leads_weaken trust_delete)

lemma client_ok_secret: "client_ok k c \<Longrightarrow> \<not> is_public c \<Longrightarrow> client_ok k (c\<lparr>cl_secret_hash := h\<rparr>)"
  by (simp add: client_ok_def is_public_def)

lemma trust_regenerate: "preserves trust_inv (regenerate_secret sha argon uid cid)"
  unfolding regenerate_secret_def
proof (intro owned_read leads_if leads_ret)
  fix c assume np: "\<not> is_public c"
  show "leads (holds cid c) (bindE (generate_secret sha) (\<lambda>raw. bindE (mapErr OPw (hash_password argon raw)) (\<lambda>h.
      bindE (client_update cid (\<lambda>c. c\<lparr>cl_secret_hash := h\<rparr>)) (\<lambda>_. ret raw)))) trust_inv"
  proof (intro leads_bindE [OF secret_trust(3)] leads_bindE [OF secret_trust(4)])
    fix raw h
    show "leads (holds cid c) (bindE (client_update cid (\<lambda>c. c\<lparr>cl_secret_hash := h\<rparr>)) (\<lambda>_. ret raw)) trust_inv"
    proof (rule leads_fact)
      fix s assume "holds cid c s"
      with np show "client_ok (build_client_pk cid) (c\<lparr>cl_secret_hash := h\<rparr>)" by (intro client_ok_secret held_ok)
    next
      assume "client_ok (build_client_pk cid) (c\<lparr>cl_secret_hash := h\<rparr>)"
      then show "leads (holds cid c) (bindE (client_update cid (\<lambda>c. c\<lparr>cl_secret_hash := h\<rparr>)) (\<lambda>_. ret raw)) trust_inv"
        by (rule update_then_ret [where f = "\<lambda>c. c\<lparr>cl_secret_hash := h\<rparr>"])
    qed
  qed (simp_all add: holds_trust)
qed

text \<open>A client of the platform.\<close>

lemma client_ok_system:
  assumes "cl_pk c = k" "cl_first_party c" "cl_owner c = SystemOwnerUserID"
    "cl_managed_resource c \<noteq> [] \<longrightarrow> \<not> is_public c \<and> cl_allowed_scopes c = [InternalAccountScopeRegistryWrite]"
    "is_public c \<longrightarrow> cl_secret_hash c = []"
  shows "client_ok k c"
  using assms by (simp add: client_ok_def)

lemma system_row: "is_public c \<Longrightarrow> client_ok k c \<Longrightarrow> cl_managed_resource c = []"
  by (auto simp: client_ok_def)

lemma trust_try_client: "preserves trust_inv (client_get_by_id cid)"
  unfolding client_get_by_id_def by (intro wp preserves_cases) simp

lemma trust_create_m2m:
  assumes "mid = [] \<or> ss = [InternalAccountScopeRegistryWrite]"
  shows "preserves trust_inv (create_m2m sha argon on cid0 name0 ss mid)"
proof -
  have ok: "client_ok k ((blank_client (build_client_pk cid))\<lparr>cl_name := name, cl_secret_hash := h,
      cl_type := TypeConfidential, cl_allowed_scopes := ss, cl_first_party := True,
      cl_owner := SystemOwnerUserID, cl_managed_resource := mid, cl_pk := k\<rparr>)" for k cid name h
    using assms public_confidential by (intro client_ok_system) (auto simp: blank_client_def is_public_def)
  show ?thesis
    unfolding create_m2m_def Let_def
    by (intro wp preserves_cases trust_registered trust_try_client secret_trust trust_create) (use ok in simp)
qed

lemma trust_publisher: "preserves trust_inv (create_resource_publisher sha argon on cid name rid)"
  unfolding create_resource_publisher_def by (intro wp trust_create_m2m) simp

end
