(* ===== verification/ClientTrust.thy ===== *)
theory ClientTrust
  imports ClientRuns
begin

text \<open>
  The runs of the developer page, the operator's commands and the scope registry together, and what
  they keep: which clients are the platform's, and which scopes a client may hold.
\<close>

section \<open>The remaining operator's commands\<close>

lemma trust_ensure_client: "preserves trust_inv (ensure_first_party_public_client N cid0 name0 uri ss aud)"
proof -
  have new: "client_ok k ((blank_client (build_client_pk cid))\<lparr>cl_name := name, cl_type := TypePublic,
      cl_redirect_uris := [uri], cl_allowed_scopes := ss, cl_audience := aud, cl_first_party := True,
      cl_owner := SystemOwnerUserID, cl_pk := k\<rparr>)" for k cid name
    by (rule client_ok_system) (simp_all add: blank_client_def)
  have upd: "client_ok k (c\<lparr>cl_name := name, cl_redirect_uris := us, cl_allowed_scopes := ss', cl_audience := aud'\<rparr>)"
    if "client_ok k c" "is_public c" "cl_first_party c" "cl_owner c = SystemOwnerUserID" for k c name us ss' aud'
  proof -
    have "cl_managed_resource c = []" "cl_pk c = k" "cl_secret_hash c = []"
      using system_row [OF that(2, 1)] that(1, 2) unfolding client_ok_def by blast+
    with that show ?thesis by (intro client_ok_system) simp_all
  qed
  have row: "leads (holds (trim_space cid0) c)
      (if \<not> is_public c \<or> \<not> cl_first_party c \<or> cl_owner c \<noteq> SystemOwnerUserID then throw ErrNotSystemClient
       else if b then ret x else bindE (client_update (trim_space cid0)
         (\<lambda>d. d\<lparr>cl_name := name, cl_redirect_uris := us, cl_allowed_scopes := ss', cl_audience := aud'\<rparr>)) (\<lambda>_. ret y)) trust_inv"
    for c b x y name us ss' aud'
  proof (intro leads_if leads_ret)
    assume a: "\<not> (\<not> is_public c \<or> \<not> cl_first_party c \<or> cl_owner c \<noteq> SystemOwnerUserID)"
    let ?f = "\<lambda>d. d\<lparr>cl_name := name, cl_redirect_uris := us, cl_allowed_scopes := ss', cl_audience := aud'\<rparr>"
    show "leads (holds (trim_space cid0) c) (bindE (client_update (trim_space cid0) ?f) (\<lambda>_. ret y)) trust_inv"
    proof (rule leads_fact)
      fix s assume "holds (trim_space cid0) c s"
      then have "client_ok (build_client_pk (trim_space cid0)) c" by (rule held_ok)
      with a upd [OF this] show "client_ok (build_client_pk (trim_space cid0)) (?f c)" by simp
    qed (rule update_then_ret [where f = ?f])
  qed
  show ?thesis
    unfolding ensure_first_party_public_client_def Let_def
    by (intro wp client_try_read; unfold sum.case; (rule row | (intro wp trust_create; rule new)))
qed

text \<open>Giving more scopes to a client of the platform that is no publisher.\<close>

lemma grow_row:
  assumes "cl_first_party c" "cl_managed_resource c = []"
  shows "leads (holds cid c) (bindE (client_update cid (\<lambda>d. d\<lparr>cl_allowed_scopes := ss\<rparr>)) (\<lambda>_. ret x)) trust_inv"
proof (rule leads_fact)
  fix s assume "holds cid c s"
  from held_ok [OF this] assms show "client_ok (build_client_pk cid) ((\<lambda>d. d\<lparr>cl_allowed_scopes := ss\<rparr>) c)"
    by (simp add: client_ok_def is_public_def)
qed (rule update_then_ret)

lemma grow_public_row:
  assumes "is_public c" "cl_first_party c"
  shows "leads (holds cid c) (bindE (client_update cid (\<lambda>d. d\<lparr>cl_allowed_scopes := ss\<rparr>)) (\<lambda>_. ret x)) trust_inv"
proof (rule leads_fact)
  fix s assume "holds cid c s"
  from system_row [OF assms(1) held_ok [OF this]] show "cl_managed_resource c = []" .
qed (rule grow_row [OF assms(2)])

lemma trust_ensure_scopes: "preserves trust_inv (ensure_first_party_public_client_scopes cid0 ss)"
  unfolding ensure_first_party_public_client_scopes_def Let_def
  by (intro wp preserves_cases client_try_read; (unfold sum.case)?; (intro wp leads_if leads_ret grow_public_row)?) simp_all

lemma trust_grant: "preserves trust_inv (grant_m2m_scopes on cid0 ss)"
  unfolding grant_m2m_scopes_def Let_def
  by (intro wp preserves_cases trust_registered client_read leads_if leads_ret grow_row) simp_all

section \<open>Runs\<close>

text \<open>What a signed-in person does on the developer page, and what the platform's operator does.\<close>

datatype self_call =
    CreateClient string string "string list" "string list" "string list"
  | UpdateClient string string "string list" "string list" "string list"
  | DeleteClient string
  | RegenerateSecret string

datatype operator_call =
    CreateM2M string string "string list"
  | CreatePublisher string string string
  | EnsurePublic string string string "string list" "string list"
  | EnsurePublicScopes string "string list"
  | GrantM2M string "string list"

fun self_run :: "(string \<Rightarrow> byte list) \<Rightarrow> argon2id \<Rightarrow> net_lib \<Rightarrow> bool \<Rightarrow> string \<Rightarrow> self_call \<Rightarrow>
    'v oauth_world_scheme del_db \<Rightarrow> 'v oauth_world_scheme del_db" where
  "self_run sha argon N on uid (CreateClient name typ uris scs aud) s = snd (create_client sha argon N on uid name typ uris scs aud s)"
| "self_run sha argon N on uid (UpdateClient cid name uris scs aud) s = snd (update_client N on uid cid name uris scs aud s)"
| "self_run sha argon N on uid (DeleteClient cid) s = snd (delete_client uid cid s)"
| "self_run sha argon N on uid (RegenerateSecret cid) s = snd (regenerate_secret sha argon uid cid s)"

fun operator_run :: "(string \<Rightarrow> byte list) \<Rightarrow> argon2id \<Rightarrow> net_lib \<Rightarrow> bool \<Rightarrow> operator_call \<Rightarrow>
    'v oauth_world_scheme del_db \<Rightarrow> 'v oauth_world_scheme del_db" where
  "operator_run sha argon N on (CreateM2M cid name ss) s = snd (create_m2m sha argon on cid name ss [] s)"
| "operator_run sha argon N on (CreatePublisher cid name rid) s = snd (create_resource_publisher sha argon on cid name rid s)"
| "operator_run sha argon N on (EnsurePublic cid name uri ss aud) s = snd (ensure_first_party_public_client N cid name uri ss aud s)"
| "operator_run sha argon N on (EnsurePublicScopes cid ss) s = snd (ensure_first_party_public_client_scopes cid ss s)"
| "operator_run sha argon N on (GrantM2M cid ss) s = snd (grant_m2m_scopes on cid ss s)"

text \<open>No person is called \<open>system\<close>: user ids are fresh UUIDs. Whatever happens outside the registry and the
  clients, time included, does not touch their tables.\<close>

inductive client_step :: "(manifest \<Rightarrow> byte list) \<Rightarrow> (string \<Rightarrow> byte list) \<Rightarrow> argon2id \<Rightarrow> net_lib \<Rightarrow> bool \<Rightarrow>
    'v oauth_world_scheme del_db \<Rightarrow> 'v oauth_world_scheme del_db \<Rightarrow> bool" for H sha argon N on where
  registry: "seed_ok c \<Longrightarrow> client_step H sha argon N on s (reg_run H on N c s)"
| self: "uid \<noteq> SystemOwnerUserID \<Longrightarrow> client_step H sha argon N on s (self_run sha argon N on uid c s)"
| operator: "client_step H sha argon N on s (operator_run sha argon N on c s)"
| outside: "world t = world s \<Longrightarrow> client_step H sha argon N on s t"

definition client_start :: "'v oauth_world_scheme del_db \<Rightarrow> bool" where
  "client_start s \<longleftrightarrow> core s = ([], []) \<and> sw_services (world s) = [] \<and> sw_cache (world s) = None \<and> ow_clients (world s) = []"

lemma trust_start: "client_start s \<Longrightarrow> trust_inv s"
  by (simp add: client_start_def trust_inv_def scope_inv_def side_inv_def clients_inv_def reg_inv_def)

lemma trust_same_world: "world t = world s \<Longrightarrow> trust_inv t \<longleftrightarrow> trust_inv s"
  by (simp add: trust_inv_def scope_inv_def side_inv_def core_def clients_inv_def)

lemma trust_self: "uid \<noteq> SystemOwnerUserID \<Longrightarrow> trust_inv s \<Longrightarrow> trust_inv (self_run sha argon N on uid c s)"
  by (cases c) (auto intro: preservesD trust_create_client trust_update_client trust_delete_client trust_regenerate)

lemma trust_operator: "trust_inv s \<Longrightarrow> trust_inv (operator_run sha argon N on c s)"
  by (cases c) (auto intro: preservesD trust_create_m2m trust_publisher trust_ensure_client trust_ensure_scopes trust_grant)

lemma trust_step: "client_step H sha argon N on s t \<Longrightarrow> trust_inv s \<Longrightarrow> trust_inv t"
proof (induction rule: client_step.induct)
  case (outside t s)
  then show ?case using trust_same_world by blast
qed (simp_all add: trust_registry trust_self trust_operator)

lemma trust_reachable: "(client_step H sha argon N on)\<^sup>*\<^sup>* s t \<Longrightarrow> trust_inv s \<Longrightarrow> trust_inv t"
  by (induction rule: rtranclp_induct) (auto intro: trust_step)

text \<open>Claim C23. Who may hold what. In every run of the registry, the developer page and the operator's
  commands, with any failures of the database: a first-party client is owned by the platform; a client
  of a person holds no internal scope, provided that its scope list has no empty string; a registry
  publisher is a confidential first-party client that holds exactly its one permission; and a public
  client has no secret.\<close>

theorem clients_trusted:
  assumes "client_start s0" and "(client_step H sha argon N on)\<^sup>*\<^sup>* s0 s" and "tget (ow_clients (world s)) k = Some c"
  shows "cl_pk c = k \<and>
    (cl_first_party c \<longrightarrow> cl_owner c = SystemOwnerUserID) \<and>
    (\<not> cl_first_party c \<longrightarrow> [] \<notin> set (cl_allowed_scopes c) \<longrightarrow> (\<forall>sc\<in>set (cl_allowed_scopes c). \<not> is_internal sc)) \<and>
    (cl_managed_resource c \<noteq> [] \<longrightarrow> cl_first_party c \<and> \<not> is_public c \<and>
       cl_allowed_scopes c = [InternalAccountScopeRegistryWrite]) \<and>
    (is_public c \<longrightarrow> cl_secret_hash c = [])"
  using trust_reachable [OF assms(2) trust_start [OF assms(1)]] assms(3)
  by (simp add: trust_inv_def clients_inv_def client_ok_def)

section \<open>A run\<close>

definition demo_oauth :: "oauth_world del_db" where
  "demo_oauth = \<lparr>clock = 0, faults = [], rng = (\<lambda>_. Some 0), rng_ix = 0, uuids = (\<lambda>_. ''n''), uuid_ix = 0,
     sess_tbl = [], key_tbl = [], user_tbl = [], requests = [], markers = [], services = [], mails = [],
     published = [], cutoffs = [], world = \<lparr>sw_services = [], sw_resources = [], sw_history = [], sw_cache = None,
       ow_clients = [], ow_codes = [], ow_consents = [], ow_audit = []\<rparr>\<rparr>"

definition demo_argon :: argon2id where
  "demo_argon = (\<lambda>_ _ _ _ _ _. [1, 2, 3])"

definition demo_system_client :: "oauth_world del_db" where
  "demo_system_client = operator_run (\<lambda>_. []) demo_argon demo_net True
     (EnsurePublic ''dash'' ''Dashboard'' ''https://dfe'' [''openid''] []) demo_oauth"

definition demo_own_client :: "oauth_world del_db" where
  "demo_own_client = self_run (\<lambda>_. []) demo_argon demo_net True ''u1''
     (CreateClient ''App'' TypePublic [''https://dfe''] [] []) demo_system_client"

lemma demo_client_steps:
  "client_step (\<lambda>_. []) (\<lambda>_. []) demo_argon demo_net True demo_oauth demo_system_client"
  "client_step (\<lambda>_. []) (\<lambda>_. []) demo_argon demo_net True demo_system_client demo_own_client"
  unfolding demo_system_client_def demo_own_client_def
  by (rule client_step.operator, rule client_step.self) (simp add: SystemOwnerUserID_def)

lemma demo_client_view:
  "map (\<lambda>(k, c). (k, cl_first_party c, cl_owner c)) (ow_clients (world demo_own_client)) =
     [(''CLIENT_dash'', True, ''system''), (''CLIENT_n'', False, ''u1'')]"
  by code_simp

theorem clients_trusted_witness:
  "\<exists>c. tget (ow_clients (world demo_own_client)) ''CLIENT_dash'' = Some c \<and> cl_owner c = SystemOwnerUserID \<and> cl_secret_hash c = []"
proof -
  have view: "(case tget (ow_clients (world demo_own_client)) ''CLIENT_dash'' of None \<Rightarrow> False
      | Some c \<Rightarrow> cl_first_party c \<and> is_public c)"
    by code_simp
  then obtain c where c: "tget (ow_clients (world demo_own_client)) ''CLIENT_dash'' = Some c" "cl_first_party c" "is_public c"
    by (auto split: option.splits)
  have start: "client_start demo_oauth" by (simp add: client_start_def core_def demo_oauth_def)
  have run: "(client_step (\<lambda>_. []) (\<lambda>_. []) demo_argon demo_net True)\<^sup>*\<^sup>* demo_oauth demo_own_client"
    using demo_client_steps by (meson r_into_rtranclp rtranclp.rtrancl_into_rtrancl)
  from clients_trusted [OF start run c(1)] c show ?thesis by blast
qed

end
