(* ===== verification/OAuthTokens.thy ===== *)
theory OAuthTokens
  imports ClientTrust
begin

text \<open>
  What the OAuth endpoints share and the token endpoint: the problems a handler answers
  (\<open>problem/problem.go\<close>), the authorization codes in the cache (\<open>oauth/code\<close>), the consents
  (\<open>oauth/consent\<close>), the audit trail (\<open>domain/audit\<close>), the claims of the tokens
  (\<open>crypto/jwt.go\<close>, \<open>kyc.ClaimLevel\<close>) and \<open>handler/token.go\<close>. A handler is a program that ends
  in a response or in a problem; the texts of the problems are left out. The signature is a parameter
  \<open>jwt \<Rightarrow> string option\<close> that turns claims into a token or fails.
\<close>

section \<open>Problems\<close>

datatype problem =
    InvalidRequest | Unauthorized | SessionExpired | TokenReuse | UnsupportedGrantType | InvalidGrant | InvalidClient
  | InvalidScope | ServerError | ServiceUnavailable | UnauthorizedClient
  | ValidationFailed | InvalidCredentials | InvalidToken | Forbidden | InsufficientScope | NotFound | Conflict
  | AccountDisabled | AccountPendingDeletion | TooManyRequests | StepUpRequired | MFAEnrollmentRequired | EmailNotVerified

fun problem_status :: "problem \<Rightarrow> nat" where
  "problem_status InvalidRequest = 400"
| "problem_status Unauthorized = 401"
| "problem_status SessionExpired = 401"
| "problem_status TokenReuse = 401"
| "problem_status UnsupportedGrantType = 400"
| "problem_status InvalidGrant = 400"
| "problem_status InvalidClient = 401"
| "problem_status InvalidScope = 400"
| "problem_status ServerError = 500"
| "problem_status ServiceUnavailable = 503"
| "problem_status UnauthorizedClient = 403"
| "problem_status ValidationFailed = 422"
| "problem_status InvalidCredentials = 401"
| "problem_status InvalidToken = 401"
| "problem_status Forbidden = 403"
| "problem_status InsufficientScope = 403"
| "problem_status NotFound = 404"
| "problem_status Conflict = 409"
| "problem_status AccountDisabled = 403"
| "problem_status AccountPendingDeletion = 403"
| "problem_status TooManyRequests = 429"
| "problem_status StepUpRequired = 403"
| "problem_status MFAEnrollmentRequired = 403"
| "problem_status EmailNotVerified = 403"

text \<open>The second component tells whether the rate limiter counts the refusal (\<open>SkipRateLimitCount\<close>).\<close>

type_synonym ('v, 'a) handler = "('v oauth_world_scheme del_db, problem \<times> bool, 'a) prog"

definition refuse :: "problem \<Rightarrow> ('v, 'a) handler" where
  "refuse p = throw (p, True)"

definition refuse_uncounted :: "problem \<Rightarrow> ('v, 'a) handler" where
  "refuse_uncounted p = throw (p, False)"

text \<open>A call whose every failure is a server error.\<close>

definition or_500 :: "('v oauth_world_scheme del_db, 'e, 'a) prog \<Rightarrow> ('v, 'a) handler" where
  "or_500 f = mapErr (\<lambda>_. (ServerError, True)) f"

section \<open>Authorization codes\<close>

text \<open>A read and a deletion in one command of the cache.\<close>

definition db_take :: "'e \<Rightarrow> ('x env_scheme \<Rightarrow> 'a) \<Rightarrow> ('x env_scheme \<Rightarrow> 'x env_scheme) \<Rightarrow> ('x env_scheme, 'e, 'a) prog" where
  "db_take infra f u = (\<lambda>s. case faults s of
       [] \<Rightarrow> (Inr (f s), u s)
     | Served # os \<Rightarrow> (Inr (f s), u (s\<lparr>faults := os\<rparr>))
     | Refused # os \<Rightarrow> (Inl infra, s\<lparr>faults := os\<rparr>)
     | Unacknowledged # os \<Rightarrow> (Inl infra, u (s\<lparr>faults := os\<rparr>)))"

definition codeTTL :: time where "codeTTL = 60 * second"
definition keyPrefix :: string where "keyPrefix = ''auth_code:''"

definition live_code :: "(string, auth_code \<times> time) table \<Rightarrow> string \<Rightarrow> time \<Rightarrow> auth_code option" where
  "live_code tb k n = (case tget tb k of None \<Rightarrow> None | Some (ac, e) \<Rightarrow> if n > e then None else Some ac)"

definition code_store :: "bool \<Rightarrow> string \<Rightarrow> auth_code \<Rightarrow> ('v, unit) oauth_prog" where
  "code_store on h ac =
     (if \<not> on then ret ()
      else bindE now (\<lambda>n. db_write OInfra (world_update (ow_codes_update (tput (keyPrefix @ h) (ac, n + codeTTL))))))"

definition found_code :: "auth_code option \<Rightarrow> ('v, auth_code) oauth_prog" where
  "found_code r = (case r of None \<Rightarrow> throw ErrCodeNotFound | Some ac \<Rightarrow> ret ac)"

definition code_get :: "bool \<Rightarrow> string \<Rightarrow> ('v, auth_code) oauth_prog" where
  "code_get on h =
     (if \<not> on then throw ErrCodeNotFound
      else bindE (db_read OInfra (\<lambda>s. live_code (ow_codes (world s)) (keyPrefix @ h) (clock s))) found_code)"

definition code_get_and_delete :: "bool \<Rightarrow> string \<Rightarrow> ('v, auth_code) oauth_prog" where
  "code_get_and_delete on h =
     (if \<not> on then throw ErrCodeNotFound
      else bindE (db_take OInfra (\<lambda>s. live_code (ow_codes (world s)) (keyPrefix @ h) (clock s))
             (world_update (ow_codes_update (tdel (keyPrefix @ h))))) found_code)"

definition code_delete :: "bool \<Rightarrow> string \<Rightarrow> ('v, unit) oauth_prog" where
  "code_delete on h =
     (if \<not> on then ret () else db_write OInfra (world_update (ow_codes_update (tdel (keyPrefix @ h)))))"

section \<open>Consents\<close>

definition build_consent_sk :: "string \<Rightarrow> string" where
  "build_consent_sk cid = ''CONSENT_'' @ cid"

definition consent_user_id :: "consent_grant \<Rightarrow> string" where
  "consent_user_id g = trim_prefix (cg_pk g) ''USER_''"

definition consent_client_id :: "consent_grant \<Rightarrow> string" where
  "consent_client_id g = trim_prefix (cg_sk g) ''CONSENT_''"

definition covers :: "consent_grant \<Rightarrow> string list \<Rightarrow> bool" where
  "covers g requested \<longleftrightarrow> list_all (\<lambda>s. s \<in> set (cg_scopes g)) requested"

definition consent_get :: "string \<Rightarrow> string \<Rightarrow> ('v, consent_grant) oauth_prog" where
  "consent_get uid cid =
     bindE (db_read OInfra (\<lambda>s. tget (ow_consents (world s)) (build_pk uid, build_consent_sk cid))) (\<lambda>g. case g of
       None \<Rightarrow> throw ErrGrantNotFound
     | Some g \<Rightarrow> ret g)"

definition consent_put :: "consent_grant \<Rightarrow> ('v, unit) oauth_prog" where
  "consent_put g = db_write OInfra (world_update (ow_consents_update (tput (cg_pk g, cg_sk g) g)))"

definition consent_delete :: "string \<Rightarrow> string \<Rightarrow> ('v, unit) oauth_prog" where
  "consent_delete uid cid = db_write OInfra (world_update (ow_consents_update (tdel (build_pk uid, build_consent_sk cid))))"

definition consent_list_by_user :: "string \<Rightarrow> ('v, consent_grant list) oauth_prog" where
  "consent_list_by_user uid = db_read OInfra (\<lambda>s.
     tquery (\<lambda>k. fst k = build_pk uid \<and> has_prefix (snd k) ''CONSENT_'') (ow_consents (world s)))"

definition has_grant :: "string \<Rightarrow> string \<Rightarrow> string list \<Rightarrow> ('v, bool) oauth_prog" where
  "has_grant uid cid requested =
     bindE (tryE (consent_get uid cid)) (\<lambda>r. case r of
       Inl e \<Rightarrow> if e = ErrGrantNotFound then ret False else throw e
     | Inr g \<Rightarrow> ret (covers g requested))"

definition grant_consent :: "string \<Rightarrow> string \<Rightarrow> string list \<Rightarrow> ('v, unit) oauth_prog" where
  "grant_consent uid cid ss =
     bindE now (\<lambda>n.
     bindE (tryE (consent_get uid cid)) (\<lambda>r.
     let write = (\<lambda>previous created. consent_put \<lparr>cg_pk = build_pk uid, cg_sk = build_consent_sk cid,
           cg_scopes = append_new (append_new [] previous) ss, cg_created_at = created, cg_updated_at = ts n\<rparr>) in
     case r of
       Inl e \<Rightarrow> if e = ErrGrantNotFound then write [] (ts n) else throw e
     | Inr g \<Rightarrow> write (cg_scopes g) (cg_created_at g)))"

definition revoke_consent :: "string \<Rightarrow> string \<Rightarrow> ('v, unit) oauth_prog" where
  "revoke_consent uid cid = consent_delete uid cid"

definition list_consents :: "string \<Rightarrow> ('v, consent_grant list) oauth_prog" where
  "list_consents uid = consent_list_by_user uid"

section \<open>The audit trail\<close>

definition EventTTL :: time where "EventTTL = 400 * day"
definition EventTokenReuseDetected :: string where "EventTokenReuseDetected = ''token.reuse_detected''"
definition EventConsentGranted :: string where "EventConsentGranted = ''consent.granted''"

definition audit_anon_pk :: "string \<Rightarrow> string" where
  "audit_anon_pk ip = ''ANON_'' @ ip"

record audit_entry =
  ev_user :: string
  ev_anon_ip :: string
  ev_type :: string
  ev_ip :: string
  ev_agent :: string
  ev_meta :: "(string \<times> string) list"

text \<open>The sort key only orders the events; the list keeps them in the order of writing.\<close>

definition record_strict :: "audit_entry \<Rightarrow> ('v, unit) oauth_prog" where
  "record_strict e =
     bindE now (\<lambda>n.
     db_write OInfra (world_update (ow_audit_update (\<lambda>l. l @ [
       \<lparr>ae_pk = (if ev_user e = [] then audit_anon_pk (ev_anon_ip e) else build_pk (ev_user e)), ae_type = ev_type e,
        ae_ip = ev_ip e, ae_user_agent = ev_agent e, ae_meta = ev_meta e, ae_created_at = ts n,
        ae_expires_at = unix (n + EventTTL)\<rparr>]))))"

definition record_event :: "audit_entry \<Rightarrow> ('v oauth_world_scheme del_db, 'e, unit) prog" where
  "record_event e = logE (record_strict e)"

section \<open>The claims of a token\<close>

definition LevelBasic :: string where "LevelBasic = ''basic''"
definition LevelEnhanced :: string where "LevelEnhanced = ''enhanced''"
definition StatusVerified :: string where "StatusVerified = ''verified''"

definition claim_level :: "string \<Rightarrow> string \<Rightarrow> string" where
  "claim_level lvl st =
     (if lvl = LevelEnhanced \<and> st = StatusVerified then LevelEnhanced
      else if lvl = LevelBasic \<and> st = StatusVerified then LevelBasic
      else if lvl = LevelEnhanced then LevelBasic
      else [])"

definition join_space :: "string list \<Rightarrow> string" where
  "join_space ss = (case ss of [] \<Rightarrow> [] | s # r \<Rightarrow> s @ concat (map (\<lambda>t. CHR '' '' # t) r))"

definition deduplicate :: "string list \<Rightarrow> string list" where
  "deduplicate ss = (if length ss < 2 then ss else remdups_adj (sort ss))"

text \<open>A claim that the code leaves out is \<open>None\<close>.\<close>

record access_claims =
  at_sub :: string
  at_sid :: string
  at_scope :: string
  at_iss :: string
  at_aud :: "string list"
  at_azp :: string
  at_iat :: int
  at_exp :: int
  at_auth_time :: "int option"
  at_last_mfa_at :: "int option"
  at_amr :: "string list option"
  at_kyc_level :: "string option"

record id_claims =
  it_sub :: string
  it_email :: string
  it_name :: string
  it_preferred_username :: string
  it_given_name :: string
  it_family_name :: string
  it_iss :: string
  it_aud :: "string list"
  it_iat :: int
  it_exp :: int
  it_email_verified :: bool
  it_nonce :: "string option"
  it_kyc_level :: "string option"

text \<open>The constructor is the claim \<open>token_use\<close>.\<close>

datatype jwt = AccessToken access_claims | IdToken id_claims

record token_conf =
  tc_sha :: "string \<Rightarrow> byte list"
  tc_argon :: argon2id
  tc_net :: net_lib
  tc_sign :: "jwt \<Rightarrow> string option"
  tc_access_ttl :: time
  tc_id_ttl :: time
  tc_issuer :: string
  tc_audience :: string
  tc_self_client :: string
  tc_cache :: bool
  tc_cookie_secure :: bool
  tc_cookie_domain :: string
  tc_relinker :: "(bool \<times> (string \<Rightarrow> string list)) option"

definition sign_jwt :: "token_conf \<Rightarrow> jwt \<Rightarrow> ('v, string) handler" where
  "sign_jwt T j = (case tc_sign T j of None \<Rightarrow> refuse ServerError | Some t \<Rightarrow> ret t)"

definition sign_access_token ::
  "token_conf \<Rightarrow> string \<Rightarrow> string \<Rightarrow> string \<Rightarrow> string list \<Rightarrow> string list \<Rightarrow> int \<Rightarrow> int \<Rightarrow> string list \<Rightarrow> string \<Rightarrow> ('v, string) handler" where
  "sign_access_token T uid sid cid ss aud auth_time mfa_at amr kyc =
     bindE now (\<lambda>n.
     sign_jwt T (AccessToken \<lparr>at_sub = uid, at_sid = sid, at_scope = join_space ss, at_iss = tc_issuer T,
       at_aud = deduplicate aud, at_azp = cid, at_iat = unix n, at_exp = unix (n + tc_access_ttl T),
       at_auth_time = (if auth_time > 0 then Some auth_time else None),
       at_last_mfa_at = (if mfa_at > 0 then Some mfa_at else None),
       at_amr = (if amr \<noteq> [] then Some amr else None),
       at_kyc_level = (if kyc \<noteq> [] then Some kyc else None)\<rparr>))"

definition sign_id_token :: "token_conf \<Rightarrow> user \<Rightarrow> string \<Rightarrow> string \<Rightarrow> string \<Rightarrow> string \<Rightarrow> ('v, string) handler" where
  "sign_id_token T u uid cid nonce kyc =
     bindE now (\<lambda>n.
     sign_jwt T (IdToken \<lparr>it_sub = uid, it_email = u_email u, it_name = full_name u,
       it_preferred_username = display_or_full_name u, it_given_name = u_first_name u, it_family_name = u_last_name u,
       it_iss = tc_issuer T, it_aud = [cid], it_iat = unix n, it_exp = unix (n + tc_id_ttl T),
       it_email_verified = u_email_verified u,
       it_nonce = (if nonce \<noteq> [] then Some nonce else None),
       it_kyc_level = (if kyc \<noteq> [] then Some kyc else None)\<rparr>))"

section \<open>Cookies\<close>

record cookie =
  ck_name :: string
  ck_value :: string
  ck_http_only :: bool
  ck_secure :: bool
  ck_same_site :: string
  ck_path :: string
  ck_domain :: string
  ck_max_age :: int

definition effective_cookie_domain :: "token_conf \<Rightarrow> string \<Rightarrow> string" where
  "effective_cookie_domain T host =
     (if host = ''localhost'' \<or> has_prefix host ''127.'' \<or> host = ''::1'' then [] else tc_cookie_domain T)"

definition set_auth_cookie :: "token_conf \<Rightarrow> string \<Rightarrow> string \<Rightarrow> string \<Rightarrow> int \<Rightarrow> cookie" where
  "set_auth_cookie T host name v age = \<lparr>ck_name = name, ck_value = v, ck_http_only = True, ck_secure = tc_cookie_secure T,
     ck_same_site = ''Lax'', ck_path = ''/'', ck_domain = effective_cookie_domain T host, ck_max_age = age\<rparr>"

definition clear_auth_cookie :: "token_conf \<Rightarrow> string \<Rightarrow> string \<Rightarrow> cookie" where
  "clear_auth_cookie T host name = set_auth_cookie T host name [] (-1)"

definition authHintCookieName :: string where "authHintCookieName = ''ctech_auth''"
definition sessionCookieName :: string where "sessionCookieName = ''ctech_session''"

definition set_auth_hint_cookie :: "token_conf \<Rightarrow> string \<Rightarrow> int \<Rightarrow> cookie" where
  "set_auth_hint_cookie T host age = (set_auth_cookie T host authHintCookieName ''1'' age)\<lparr>ck_http_only := False\<rparr>"

definition refreshTokenCookieName :: string where "refreshTokenCookieName = ''ctech_rt''"
definition refreshTokenMaxAge :: int where "refreshTokenMaxAge = 90 * 24 * 60 * 60"

definition refresh_cookie_name_for :: "token_conf \<Rightarrow> string \<Rightarrow> string" where
  "refresh_cookie_name_for T cid = refreshTokenCookieName @ ''_'' @ hex_encode (take 8 (tc_sha T cid))"

section \<open>The token endpoint\<close>

record token_request =
  tq_form :: "string \<Rightarrow> string"
  tq_cookie :: "string \<Rightarrow> string"
  tq_host :: string
  tq_ip :: string
  tq_agent :: string

record token_response =
  tr_access_token :: string
  tr_expires_in :: int
  tr_id_token :: "string option"
  tr_scope :: string
  tr_refresh_token :: "string option"
  tr_cookies :: "cookie list"

definition accessTokenTTLSeconds :: int where "accessTokenTTLSeconds = 900"
definition apiKeyClientID :: string where "apiKeyClientID = ''api-key''"

definition set_refresh_cookie :: "token_conf \<Rightarrow> string \<Rightarrow> string \<Rightarrow> string \<Rightarrow> int \<Rightarrow> cookie list" where
  "set_refresh_cookie T host cid v age =
     [set_auth_cookie T host (refresh_cookie_name_for T cid) v age, clear_auth_cookie T host refreshTokenCookieName]"

definition clear_refresh_cookie :: "token_conf \<Rightarrow> string \<Rightarrow> string \<Rightarrow> cookie list" where
  "clear_refresh_cookie T host cid =
     (if cid \<noteq> [] then [clear_auth_cookie T host (refresh_cookie_name_for T cid)] else []) @
     [clear_auth_cookie T host refreshTokenCookieName]"

definition access_token_audience :: "string \<Rightarrow> oauth_client \<Rightarrow> string list" where
  "access_token_audience self c = self # effective_audience c"

definition kyc_claim_for :: "user \<Rightarrow> string list \<Rightarrow> string" where
  "kyc_claim_for u ss = (if ''kyc'' \<notin> set ss then [] else claim_level (u_kyc_level u) (u_kyc_status u))"

definition raw_url_char :: "char \<Rightarrow> char" where
  "raw_url_char c = (if c = CHR ''+'' then CHR ''-'' else if c = CHR ''/'' then CHR ''_'' else c)"

definition raw_url_encode :: "byte list \<Rightarrow> string" where
  "raw_url_encode b = map raw_url_char (encode64 b)"

definition verify_pkce :: "token_conf \<Rightarrow> string \<Rightarrow> string \<Rightarrow> bool" where
  "verify_pkce T verifier challenge \<longleftrightarrow> raw_url_encode (tc_sha T verifier) = challenge"

definition pending_deletion_problem :: "string \<Rightarrow> ('v, unit) handler" where
  "pending_deletion_problem uid =
     bindE (tryE (user_get_by_id uid)) (\<lambda>r. case r of
       Inl e \<Rightarrow> if e = ErrUserNotFound then ret () else refuse ServerError
     | Inr u \<Rightarrow> if u_deletion_state u \<noteq> [] then refuse InvalidGrant else ret ())"

text \<open>The client of a request, and the secret of a confidential one, as every grant checks them.\<close>

definition load_client :: "string \<Rightarrow> ('v, oauth_client) handler" where
  "load_client cid = mapErr (\<lambda>e. (if e = ErrClientNotFound then InvalidClient else ServerError, True)) (client_get_by_id cid)"

definition check_secret :: "token_conf \<Rightarrow> oauth_client \<Rightarrow> string \<Rightarrow> ('v, unit) handler" where
  "check_secret T c secret =
     (case verify_password (tc_argon T) secret (cl_secret_hash c) of
        Inl e \<Rightarrow> refuse ServerError
      | Inr ok \<Rightarrow> if ok then ret () else refuse InvalidClient)"

definition authenticate_client :: "token_conf \<Rightarrow> oauth_client \<Rightarrow> string \<Rightarrow> ('v, unit) handler" where
  "authenticate_client T c secret =
     (if is_public c then ret ()
      else if secret = [] then refuse InvalidClient
      else check_secret T c secret)"

definition api_key_exchange :: "token_conf \<Rightarrow> token_request \<Rightarrow> ('v, token_response) handler" where
  "api_key_exchange T q =
     (let raw = tq_form q ''api_key'' in
      if raw = [] then refuse InvalidRequest
      else
      bindE (mapErr (\<lambda>_. (InvalidGrant, True)) (authenticate_key (tc_sha T) raw)) (\<lambda>k.
      bindE (pending_deletion_problem (key_user_id k)) (\<lambda>_.
      bindE (or_500 (audiences_for (tc_cache T) (ak_scopes k))) (\<lambda>aud.
      bindE (sign_access_token T (key_user_id k) (key_id k) apiKeyClientID (ak_scopes k) (tc_audience T # aud) 0 0 [] []) (\<lambda>tok.
      ret \<lparr>tr_access_token = tok, tr_expires_in = accessTokenTTLSeconds, tr_id_token = None,
        tr_scope = join_space (ak_scopes k), tr_refresh_token = None, tr_cookies = []\<rparr>)))))"

text \<open>\<open>strings.Fields\<close>.\<close>

definition fields :: "string \<Rightarrow> string list" where
  "fields s = filter (\<lambda>w. w \<noteq> []) (split_on (CHR '' '') (map (\<lambda>c. if is_space c then CHR '' '' else c) s))"

definition machine_scopes_for_developer_client :: "token_conf \<Rightarrow> oauth_client \<Rightarrow> string list \<Rightarrow> ('v, string list) handler" where
  "machine_scopes_for_developer_client T c requested =
     bindE (or_500 (client_active c)) (\<lambda>act.
     if \<not> act then refuse UnauthorizedClient
     else
     bindE (or_500 (validate_machine_grantable (tc_cache T) (cl_allowed_scopes c))) (\<lambda>bad.
     if bad \<noteq> [] then refuse UnauthorizedClient
     else if list_ex (\<lambda>sc. \<not> has_scope c sc) requested then refuse InvalidScope
     else ret requested))"

definition machine_scopes :: "token_conf \<Rightarrow> oauth_client \<Rightarrow> string list \<Rightarrow> ('v, string list) handler" where
  "machine_scopes T c requested =
     (if cl_first_party c then ret (filter_scopes c requested)
      else machine_scopes_for_developer_client T c requested)"

definition client_credentials :: "token_conf \<Rightarrow> token_request \<Rightarrow> ('v, token_response) handler" where
  "client_credentials T q =
     (let cid = tq_form q ''client_id''; secret = tq_form q ''client_secret'' in
      if cid = [] \<or> secret = [] then refuse InvalidRequest
      else
      bindE (load_client cid) (\<lambda>c.
      if is_public c then refuse UnauthorizedClient
      else
      bindE (check_secret T c secret) (\<lambda>_.
      let requested = fields (tq_form q ''scope'') in
      bindE (machine_scopes T c requested) (\<lambda>scp.
      if scp = [] then refuse InvalidScope
      else
      bindE (or_500 (audiences_for (tc_cache T) scp)) (\<lambda>aud.
      bindE (sign_access_token T cid [] cid scp (tc_audience T # aud) 0 0 [] []) (\<lambda>tok.
      ret \<lparr>tr_access_token = tok, tr_expires_in = accessTokenTTLSeconds, tr_id_token = None,
        tr_scope = join_space scp, tr_refresh_token = None, tr_cookies = []\<rparr>))))))"

definition redeemable :: "token_conf \<Rightarrow> auth_code \<Rightarrow> string \<Rightarrow> string \<Rightarrow> string \<Rightarrow> bool" where
  "redeemable T ac cid uri verifier \<longleftrightarrow>
     ac_client_id ac = cid \<and> ac_redirect_uri ac = uri \<and>
     (ac_challenge ac \<noteq> [] \<longrightarrow> verifier \<noteq> [] \<and> verify_pkce T verifier (ac_challenge ac))"

text \<open>The call of the relinker, whose failure makes the product refuse the sign-in.\<close>

definition call_relinker :: "token_conf \<Rightarrow> user \<Rightarrow> string \<Rightarrow> ('v, unit) handler" where
  "call_relinker T u cid = (case tc_relinker T of
       None \<Rightarrow> ret ()
     | Some (pub, clients) \<Rightarrow>
         if u_unlinked_services u = [] then ret ()
         else mapErr (\<lambda>_. (ServiceUnavailable, True)) (relink pub clients u cid))"

text \<open>The tokens of a sign-in, once code, user and session are known.\<close>

definition issue_tokens :: "token_conf \<Rightarrow> token_request \<Rightarrow> oauth_client \<Rightarrow> string \<Rightarrow> auth_code \<Rightarrow> user \<Rightarrow> session \<Rightarrow>
    ('v, token_response) handler" where
  "issue_tokens T q c cid ac u sess =
     (let kyc = kyc_claim_for u (ac_scopes ac) in
      bindE (sign_access_token T (ac_user_id ac) (ac_session_id ac) cid (ac_scopes ac)
               (access_token_audience (tc_audience T) c) (se_auth_time sess) (se_last_mfa_at sess) (se_amr sess) kyc) (\<lambda>tok.
      bindE (if ''openid'' \<in> set (ac_scopes ac) then sign_id_token T u (ac_user_id ac) cid (ac_nonce ac) kyc else ret []) (\<lambda>idt.
      bindE (or_500 (issue_client_token (tc_sha T) (ac_user_id ac) (ac_session_id ac) cid (ac_scopes ac))) (\<lambda>rt.
      ret \<lparr>tr_access_token = tok, tr_expires_in = 900, tr_id_token = Some idt, tr_scope = join_space (ac_scopes ac),
        tr_refresh_token = (if \<not> is_public c \<or> is_native_client (tc_net T) c then Some rt else None),
        tr_cookies = set_refresh_cookie T (tq_host q) cid rt refreshTokenMaxAge @
          [set_auth_hint_cookie T (tq_host q) refreshTokenMaxAge]\<rparr>))))"

definition authorization_code :: "token_conf \<Rightarrow> token_request \<Rightarrow> ('v, token_response) handler" where
  "authorization_code T q =
     (let code = tq_form q ''code''; cid = tq_form q ''client_id''; uri = tq_form q ''redirect_uri'';
          verifier = tq_form q ''code_verifier'' in
      if code = [] \<or> cid = [] \<or> uri = [] then refuse InvalidRequest
      else
      bindE (load_client cid) (\<lambda>c.
      bindE (authenticate_client T c (tq_form q ''client_secret'')) (\<lambda>_.
      bindE (mapErr (\<lambda>e. (if e = ErrCodeNotFound then InvalidGrant else ServerError, True))
               (code_get_and_delete (tc_cache T) (hash_token (tc_sha T) code))) (\<lambda>ac.
      if \<not> redeemable T ac cid uri verifier then refuse InvalidGrant
      else
      bindE (or_500 (user_get_by_id (ac_user_id ac))) (\<lambda>u.
      if u_deletion_state u \<noteq> [] then refuse InvalidGrant
      else
      bindE (mapErr (\<lambda>_. (InvalidGrant, False)) (get_session (ac_user_id ac) (ac_session_id ac))) (\<lambda>sess.
      bindE (call_relinker T u cid) (\<lambda>_.
      issue_tokens T q c cid ac u sess)))))))"

definition AccountUserScopes :: "string list" where
  "AccountUserScopes = sort (map (\<lambda>s. ''account:'' @ s)
     [''profile:read'', ''profile:write'', ''security:write'', ''sessions:read'', ''sessions:revoke'', ''activity:read'',
      ''api-keys:read'', ''api-keys:write'', ''oauth-clients:read'', ''oauth-clients:write'', ''consents:read'',
      ''consents:revoke'', ''mfa:read'', ''mfa:write'', ''kyc:read'', ''kyc:write'', ''terms:write'', ''deletion:write'',
      ''export:write''])"

text \<open>The scopes a refresh starts from: those of the token, the identity scopes for a token without
  any, and the account permissions of the platform's own front end.\<close>

definition granted_on_refresh :: "token_conf \<Rightarrow> oauth_client \<Rightarrow> string \<Rightarrow> string list \<Rightarrow> string list" where
  "granted_on_refresh T c cid granted0 =
     (let granted = (if granted0 = [] then [''openid'', ''profile'', ''email'', ''kyc''] else granted0) in
      if cid = tc_self_client T \<and> cl_first_party c then append_new granted AccountUserScopes else granted)"

definition refresh_refusal :: "token_request \<Rightarrow> string \<Rightarrow> sess_err \<Rightarrow> ('v, 'a) handler" where
  "refresh_refusal q cid e =
     (if e = ErrTokenReuse then
        bindE (record_event \<lparr>ev_user = [], ev_anon_ip = tq_ip q, ev_type = EventTokenReuseDetected, ev_ip = tq_ip q,
            ev_agent = tq_agent q, ev_meta = [(''client_id'', cid)]\<rparr>) (\<lambda>_. refuse TokenReuse)
      else if e = ErrSessionExpired then refuse_uncounted SessionExpired
      else refuse InvalidGrant)"

definition refresh_raw_token :: "token_conf \<Rightarrow> token_request \<Rightarrow> string \<Rightarrow> string" where
  "refresh_raw_token T q cid =
     (let form = tq_form q ''refresh_token''; own = tq_cookie q (refresh_cookie_name_for T cid) in
      if form \<noteq> [] then form else if own \<noteq> [] then own else tq_cookie q refreshTokenCookieName)"

text \<open>The answer to a rotation that succeeded.\<close>

definition finish_refresh :: "token_conf \<Rightarrow> token_request \<Rightarrow> oauth_client \<Rightarrow> string \<Rightarrow> session \<times> string \<times> string list \<Rightarrow>
    ('v, token_response) handler" where
  "finish_refresh T q c cid = (\<lambda>(sess, new_raw, granted0).
      bindE (pending_deletion_problem (session_user_id sess)) (\<lambda>_.
      let scp = filter_scopes c (granted_on_refresh T c cid granted0) in
      bindE (if ''kyc'' \<in> set scp
             then bindE (or_500 (user_get_by_id (session_user_id sess))) (\<lambda>u. ret (claim_level (u_kyc_level u) (u_kyc_status u)))
             else ret []) (\<lambda>kyc.
      bindE (sign_access_token T (session_user_id sess) (session_id sess) cid scp
               (access_token_audience (tc_audience T) c) (se_auth_time sess) (se_last_mfa_at sess) (se_amr sess) kyc) (\<lambda>tok.
      ret \<lparr>tr_access_token = tok, tr_expires_in = 900, tr_id_token = None, tr_scope = join_space scp,
        tr_refresh_token = (if \<not> is_public c then Some new_raw else None),
        tr_cookies = set_refresh_cookie T (tq_host q) cid new_raw refreshTokenMaxAge @
          [set_auth_hint_cookie T (tq_host q) refreshTokenMaxAge]\<rparr>))))"

definition refresh_grant :: "token_conf \<Rightarrow> token_request \<Rightarrow> ('v, token_response) handler" where
  "refresh_grant T q =
     (let cid = tq_form q ''client_id''; raw = refresh_raw_token T q cid in
      if raw = [] \<or> cid = [] then refuse_uncounted InvalidRequest
      else
      bindE (load_client cid) (\<lambda>c.
      bindE (authenticate_client T c (tq_form q ''client_secret'')) (\<lambda>_.
      bindE (tryE (rotate_client_token (tc_sha T) raw cid)) (\<lambda>r. case r of
        Inl e \<Rightarrow> refresh_refusal q cid e
      | Inr x \<Rightarrow> finish_refresh T q c cid x))))"

definition token_endpoint :: "token_conf \<Rightarrow> token_request \<Rightarrow> ('v, token_response) handler" where
  "token_endpoint T q =
     (let g = tq_form q ''grant_type'' in
      if g = ''authorization_code'' then authorization_code T q
      else if g = ''refresh_token'' then refresh_grant T q
      else if g = ''api_key'' then api_key_exchange T q
      else if g = ''client_credentials'' then client_credentials T q
      else refuse UnsupportedGrantType)"

definition revoke_raw_token :: "token_conf \<Rightarrow> token_request \<Rightarrow> string" where
  "revoke_raw_token T q =
     (let form = tq_form q ''token''; cid = tq_form q ''client_id'';
          own = (if cid \<noteq> [] then tq_cookie q (refresh_cookie_name_for T cid) else []) in
      if form \<noteq> [] then form else if own \<noteq> [] then own else tq_cookie q refreshTokenCookieName)"

definition revoke_endpoint :: "token_conf \<Rightarrow> token_request \<Rightarrow> ('v, cookie list) handler" where
  "revoke_endpoint T q =
     (let raw = revoke_raw_token T q in
      if raw = [] then refuse InvalidRequest
      else
      bindE (tryE (revoke_client_token (tc_sha T) raw)) (\<lambda>r.
      bindE (case r of
          Inr _ \<Rightarrow> ret ()
        | Inl _ \<Rightarrow> bindE (tryE (validate_token (tc_sha T) raw)) (\<lambda>v. case v of
              Inr sess \<Rightarrow> logE (revoke (session_user_id sess) (session_id sess))
            | Inl _ \<Rightarrow> ret ())) (\<lambda>_.
      ret (clear_refresh_cookie T (tq_host q) (tq_form q ''client_id'')))))"

end
