(* ===== verification/TokenRuns.thy ===== *)
theory TokenRuns
  imports OAuthTokens
begin

text \<open>
  What the token endpoint guarantees: an authorization code is redeemed at most once and only by the
  client, at the redirect address and with the verifier it was issued for; an access token carries
  exactly the claims of what was granted; no refresh widens a grant; an account that is being
  deleted gets no token by any grant; and a machine token has only what its client holds.
\<close>

section \<open>Programs that succeed\<close>

named_theorems wins

lemma mapErr_Inr [wins]: "mapErr h f s = (Inr x, t) \<longleftrightarrow> f s = (Inr x, t)"
  by (auto simp: mapErr_def split: prod.splits sum.splits)

lemma or_500_Inr [wins]: "or_500 f s = (Inr x, t) \<longleftrightarrow> f s = (Inr x, t)"
  by (simp add: or_500_def mapErr_Inr)

lemma refuse_Inr [wins]: "refuse p s = (Inr x, t) \<longleftrightarrow> False" "refuse_uncounted p s = (Inr x, t) \<longleftrightarrow> False"
  by (simp_all add: refuse_def refuse_uncounted_def)

lemma ret_Inr [wins]: "ret y s = (Inr x, t) \<longleftrightarrow> y = x \<and> s = t"
  by simp

lemma bindE_Inr_iff [wins]: "bindE f g s = (Inr y, u) \<longleftrightarrow> (\<exists>x t. f s = (Inr x, t) \<and> g x t = (Inr y, u))"
  by (auto simp: bindE_run split: prod.splits sum.splits)

lemma tryE_Inr [wins]: "tryE f s = (Inr r, t) \<longleftrightarrow> f s = (r, t)"
  by (auto simp: prod_eq_iff)

lemma if_Inr [wins]: "(if b then f else g) s = (Inr x, t) \<longleftrightarrow> (if b then f s = (Inr x, t) else g s = (Inr x, t))"
  by simp

section \<open>What a handler reads\<close>

text \<open>The tables a grant consults; only the codes, the sessions' tokens, the audit trail and what a
  relinker writes change on the way.\<close>

definition accounts :: "'v oauth_world_scheme del_db \<Rightarrow>
    (string, oauth_client) table \<times> (key, sess_item) table \<times> (key, api_key) table \<times> (string, user_item) table \<times> time" where
  "accounts s = (ow_clients (world s), sess_tbl s, key_tbl s, user_tbl s, clock s)"

lemma blind_accounts [simp]: "blind accounts"
  by (simp add: blind_def accounts_def)

lemma accounts_updates [simp]:
  "accounts (s\<lparr>faults := os\<rparr>) = accounts s"
  "accounts (s\<lparr>rng_ix := i\<rparr>) = accounts s"
  "accounts (world_update (ow_codes_update f) s) = accounts s"
  "accounts (world_update (ow_audit_update g) s) = accounts s"
  "accounts (world_update (sw_cache_update h) s) = accounts s"
  by (simp_all add: accounts_def)

lemma accountsD:
  "accounts t = accounts s \<Longrightarrow> ow_clients (world t) = ow_clients (world s)"
  "accounts t = accounts s \<Longrightarrow> sess_tbl t = sess_tbl s"
  "accounts t = accounts s \<Longrightarrow> key_tbl t = key_tbl s"
  "accounts t = accounts s \<Longrightarrow> user_tbl t = user_tbl s"
  "accounts t = accounts s \<Longrightarrow> clock t = clock s"
  by (simp_all add: accounts_def)

lemma world_faults: "(world_update f s)\<lparr>faults := os\<rparr> = world_update f (s\<lparr>faults := os\<rparr>)"
  by simp

lemma read_Inr: "db_read e f s = (Inr x, t) \<Longrightarrow> x = f s \<and> (\<exists>os. t = s\<lparr>faults := os\<rparr>)"
  using db_read_cases [of e f s] by auto

lemma take_Inr: "db_take e f u s = (Inr x, t) \<Longrightarrow> x = f s \<and> (\<exists>os. t = u (s\<lparr>faults := os\<rparr>))"
  by (cases s; auto simp: db_take_def split: list.splits outcome.splits)

text \<open>A read followed by a case distinction.\<close>

lemma read_thenE:
  assumes "bindE (db_read e f) g s = (Inr x, t)"
  obtains os where "g (f s) (s\<lparr>faults := os\<rparr>) = (Inr x, t)"
  using assms by (auto elim!: bindE_InrE dest!: read_Inr)

lemma client_Inr: "load_client cid s = (Inr c, t) \<Longrightarrow>
    tget (ow_clients (world s)) (build_client_pk cid) = Some c \<and> (\<exists>os. t = s\<lparr>faults := os\<rparr>)"
  unfolding load_client_def client_get_by_id_def mapErr_Inr
  by (erule read_thenE, cases "tget (ow_clients (world s)) (build_client_pk cid)") auto

lemma user_Inr: "user_get_by_id uid s = (Inr u, t) \<Longrightarrow>
    (\<exists>i. tget (user_tbl s) (build_pk uid) = Some i \<and> as_user i = Some u) \<and> (\<exists>os. t = s\<lparr>faults := os\<rparr>)"
  unfolding user_get_by_id_def
  by (erule read_thenE, cases "tget (user_tbl s) (build_pk uid)") (auto split: option.split_asm)

lemma session_Inr: "get_session uid sid s = (Inr x, t) \<Longrightarrow>
    tget (sess_tbl s) (build_pk uid, build_sk sid) = Some (SessionI x) \<and> (\<exists>os. t = s\<lparr>faults := os\<rparr>)"
  unfolding get_session_def repo_get_by_id_def get_item_def unmarshal_def
  by (erule read_thenE, cases "tget (sess_tbl s) (build_pk uid, build_sk sid)")
    (auto split: option.split_asm elim!: as_session.elims)

lemma secret_Inr: "check_secret T c w s = (Inr x, t) \<Longrightarrow> verify_password (tc_argon T) w (cl_secret_hash c) = Inr True \<and> t = s"
  unfolding check_secret_def by (auto simp: wins split: sum.splits if_splits)

lemma authenticate_Inr: "authenticate_client T c w s = (Inr x, t) \<Longrightarrow>
    (\<not> is_public c \<longrightarrow> verify_password (tc_argon T) w (cl_secret_hash c) = Inr True) \<and> t = s"
  unfolding authenticate_client_def by (auto simp: wins split: if_splits dest: secret_Inr)

lemma found_Inr: "found_code r s = (Inr ac, t) \<longleftrightarrow> r = Some ac \<and> t = s"
  by (auto simp: found_code_def split: option.split)

lemma code_Inr: "code_get_and_delete on h s = (Inr ac, t) \<Longrightarrow>
    on \<and> live_code (ow_codes (world s)) (keyPrefix @ h) (clock s) = Some ac \<and>
    (\<exists>os. t = world_update (ow_codes_update (tdel (keyPrefix @ h))) (s\<lparr>faults := os\<rparr>))"
  unfolding code_get_and_delete_def
  by (auto simp: found_Inr dest!: take_Inr elim!: bindE_InrE split: if_splits)

lemma sign_Inr: "sign_jwt T j s = (Inr x, t) \<Longrightarrow> tc_sign T j = Some x \<and> t = s"
  unfolding sign_jwt_def by (auto simp: wins split: option.splits)

definition claims_of :: "token_conf \<Rightarrow> string \<Rightarrow> string \<Rightarrow> string \<Rightarrow> string list \<Rightarrow> string list \<Rightarrow> int \<Rightarrow> int \<Rightarrow> string list \<Rightarrow> string \<Rightarrow> time \<Rightarrow> access_claims" where
  "claims_of T uid sid cid ss aud auth_time mfa_at amr kyc n = \<lparr>at_sub = uid, at_sid = sid, at_scope = join_space ss,
     at_iss = tc_issuer T, at_aud = deduplicate aud, at_azp = cid, at_iat = unix n, at_exp = unix (n + tc_access_ttl T),
     at_auth_time = (if auth_time > 0 then Some auth_time else None),
     at_last_mfa_at = (if mfa_at > 0 then Some mfa_at else None),
     at_amr = (if amr \<noteq> [] then Some amr else None),
     at_kyc_level = (if kyc \<noteq> [] then Some kyc else None)\<rparr>"

lemma access_Inr: "sign_access_token T uid sid cid ss aud a m amr kyc s = (Inr x, t) \<Longrightarrow>
    tc_sign T (AccessToken (claims_of T uid sid cid ss aud a m amr kyc (clock s))) = Some x \<and> t = s"
  unfolding sign_access_token_def by (auto simp: wins claims_of_def dest!: sign_Inr)

lemma id_Inr: "sign_id_token T u uid cid nonce kyc s = (Inr x, t) \<Longrightarrow> t = s"
  unfolding sign_id_token_def by (auto simp: wins dest!: sign_Inr)

text \<open>An account that may get tokens: none that is marked for deletion.\<close>

definition marked :: "string \<Rightarrow> 'v oauth_world_scheme del_db \<Rightarrow> bool" where
  "marked uid s \<longleftrightarrow> (\<exists>i u. tget (user_tbl s) (build_pk uid) = Some i \<and> as_user i = Some u \<and> u_deletion_state u \<noteq> [])"

lemma user_missing: "user_get_by_id uid s = (Inl ErrUserNotFound, t) \<Longrightarrow>
    tget (user_tbl s) (build_pk uid) = None \<and> (\<exists>os. t = s\<lparr>faults := os\<rparr>)"
  using db_read_cases [of UInfra "\<lambda>s. tget (user_tbl s) (build_pk uid)" s]
  by (auto simp: user_get_by_id_def bindE_run split: prod.splits option.splits sum.splits)

lemma pending_Inr:
  assumes "pending_deletion_problem uid s = (Inr x, t)"
  shows "\<not> marked uid s \<and> (\<exists>os. t = s\<lparr>faults := os\<rparr>)"
proof -
  obtain r u where r: "user_get_by_id uid s = (r, u)" by fastforce
  with assms have k: "(case r of Inl e \<Rightarrow> if e = ErrUserNotFound then ret () else refuse ServerError
     | Inr u \<Rightarrow> if u_deletion_state u \<noteq> [] then refuse InvalidGrant else ret ()) u = (Inr x, t)"
    unfolding pending_deletion_problem_def wins by auto
  show ?thesis
  proof (cases r)
    case (Inl e)
    with k r have "user_get_by_id uid s = (Inl ErrUserNotFound, u)" "t = u" by (auto simp: wins split: if_splits)
    with user_missing [of uid s u] show ?thesis by (auto simp: marked_def)
  next
    case (Inr v)
    with k have "u_deletion_state v = []" "t = u" by (auto simp: wins split: if_splits)
    with user_Inr [of uid s v u] r Inr show ?thesis by (auto simp: marked_def)
  qed
qed

section \<open>The exchange of a code\<close>

definition code_key :: "token_conf \<Rightarrow> token_request \<Rightarrow> string" where
  "code_key T q = keyPrefix @ hash_token (tc_sha T) (tq_form q ''code'')"

text \<open>What an issued response says, given what was granted.\<close>

lemma issue_Inr:
  assumes "issue_tokens T q c cid ac u sess s = (Inr resp, t)"
  shows "tc_sign T (AccessToken (claims_of T (ac_user_id ac) (ac_session_id ac) cid (ac_scopes ac)
           (access_token_audience (tc_audience T) c) (se_auth_time sess) (se_last_mfa_at sess) (se_amr sess)
           (kyc_claim_for u (ac_scopes ac)) (clock s))) = Some (tr_access_token resp) \<and>
    tr_scope resp = join_space (ac_scopes ac) \<and>
    (\<exists>rt. (\<exists>s'. issue_client_token (tc_sha T) (ac_user_id ac) (ac_session_id ac) cid (ac_scopes ac) s' = (Inr rt, t)) \<and>
       tr_refresh_token resp = (if \<not> is_public c \<or> is_native_client (tc_net T) c then Some rt else None) \<and>
       tr_cookies resp = set_refresh_cookie T (tq_host q) cid rt refreshTokenMaxAge @ [set_auth_hint_cookie T (tq_host q) refreshTokenMaxAge])"
proof -
  from assms obtain tok s1 idt s2 rt where
    a: "sign_access_token T (ac_user_id ac) (ac_session_id ac) cid (ac_scopes ac)
           (access_token_audience (tc_audience T) c) (se_auth_time sess) (se_last_mfa_at sess) (se_amr sess)
           (kyc_claim_for u (ac_scopes ac)) s = (Inr tok, s1)"
    and i: "issue_client_token (tc_sha T) (ac_user_id ac) (ac_session_id ac) cid (ac_scopes ac) s2 = (Inr rt, t)"
    and r: "resp = \<lparr>tr_access_token = tok, tr_expires_in = 900, tr_id_token = Some idt, tr_scope = join_space (ac_scopes ac),
        tr_refresh_token = (if \<not> is_public c \<or> is_native_client (tc_net T) c then Some rt else None),
        tr_cookies = set_refresh_cookie T (tq_host q) cid rt refreshTokenMaxAge @
          [set_auth_hint_cookie T (tq_host q) refreshTokenMaxAge]\<rparr>"
    unfolding issue_tokens_def Let_def by (elim bindE_InrE, unfold or_500_Inr ret_Inr, elim conjE) (rule that, assumption, simp, erule sym)
  show ?thesis
  proof (intro conjI exI)
    show "issue_client_token (tc_sha T) (ac_user_id ac) (ac_session_id ac) cid (ac_scopes ac) s2 = (Inr rt, t)" by (rule i)
  qed (use access_Inr [OF a] r in simp_all)
qed

lemma relinker_clock: "keeps clock (call_relinker T u cid)"
  unfolding call_relinker_def relink_def publish_message_def remove_unlinked_service_def change_unlinked_def
  by (intro keeps_calls) (simp_all add: blind_def)

lemma exchange_Inr:
  assumes "authorization_code T q s = (Inr resp, t)"
  obtains c ac i u sess where
    "tget (ow_clients (world s)) (build_client_pk (tq_form q ''client_id'')) = Some c"
    "\<not> is_public c \<longrightarrow> verify_password (tc_argon T) (tq_form q ''client_secret'') (cl_secret_hash c) = Inr True"
    "tc_cache T" "live_code (ow_codes (world s)) (code_key T q) (clock s) = Some ac"
    "redeemable T ac (tq_form q ''client_id'') (tq_form q ''redirect_uri'') (tq_form q ''code_verifier'')"
    "tget (user_tbl s) (build_pk (ac_user_id ac)) = Some i" "as_user i = Some u" "u_deletion_state u = []"
    "tget (sess_tbl s) (build_pk (ac_user_id ac), build_sk (ac_session_id ac)) = Some (SessionI sess)"
    "\<exists>os w. call_relinker T u (tq_form q ''client_id'') (world_update (ow_codes_update (tdel (code_key T q))) (s\<lparr>faults := os\<rparr>)) = (Inr (), w) \<and>
       issue_tokens T q c (tq_form q ''client_id'') ac u sess w = (Inr resp, t)"
proof -
  let ?cid = "tq_form q ''client_id''"
  from assms obtain c s1 s2 ac s3 u s4 sess s5 s6 where
    r: "load_client ?cid s = (Inr c, s1)" "authenticate_client T c (tq_form q ''client_secret'') s1 = (Inr (), s2)"
    "code_get_and_delete (tc_cache T) (hash_token (tc_sha T) (tq_form q ''code'')) s2 = (Inr ac, s3)"
    "redeemable T ac ?cid (tq_form q ''redirect_uri'') (tq_form q ''code_verifier'')"
    "user_get_by_id (ac_user_id ac) s3 = (Inr u, s4)" "u_deletion_state u = []"
    "get_session (ac_user_id ac) (ac_session_id ac) s4 = (Inr sess, s5)"
    "call_relinker T u ?cid s5 = (Inr (), s6)" "issue_tokens T q c ?cid ac u sess s6 = (Inr resp, t)"
    unfolding authorization_code_def Let_def
    by (auto simp: mapErr_Inr or_500_Inr refuse_Inr elim!: bindE_InrE split: if_splits)
  from client_Inr [OF r(1)] obtain o1 where 1: "tget (ow_clients (world s)) (build_client_pk ?cid) = Some c" "s1 = s\<lparr>faults := o1\<rparr>" by blast
  from authenticate_Inr [OF r(2)] have 2: "\<not> is_public c \<longrightarrow> verify_password (tc_argon T) (tq_form q ''client_secret'') (cl_secret_hash c) = Inr True" "s2 = s1"
    by auto
  from code_Inr [OF r(3)] 1 2 obtain o3 where
    3: "tc_cache T" "live_code (ow_codes (world s)) (code_key T q) (clock s) = Some ac"
      "s3 = world_update (ow_codes_update (tdel (code_key T q))) (s\<lparr>faults := o3\<rparr>)"
    by (auto simp: code_key_def)
  from user_Inr [OF r(5)] 3(3) obtain i o4 where
    4: "tget (user_tbl s) (build_pk (ac_user_id ac)) = Some i" "as_user i = Some u"
      "s4 = world_update (ow_codes_update (tdel (code_key T q))) (s\<lparr>faults := o4\<rparr>)"
    by (auto simp: world_faults)
  from session_Inr [OF r(7)] 4(3) obtain o5 where
    5: "tget (sess_tbl s) (build_pk (ac_user_id ac), build_sk (ac_session_id ac)) = Some (SessionI sess)"
      "s5 = world_update (ow_codes_update (tdel (code_key T q))) (s\<lparr>faults := o5\<rparr>)"
    by (auto simp: world_faults)
  show ?thesis
    using that [OF 1(1) 2(1) 3(1, 2) r(4) 4(1, 2) r(6) 5(1)] r(8, 9) 5(2) by blast
qed

text \<open>Claim C28. What a code is good for. A response to the code grant, whatever database calls fail on the
  way: the client exists and, if confidential, proved its secret; the code is one that was issued
  to this client for this redirect address at most sixty seconds ago, and the verifier hashes to its
  challenge; the user exists and is not being deleted; the session still exists; and the access
  token carries exactly the user, session and scopes of the code. The refresh token is in the body
  only for confidential and native clients, and no cookie that a script can read holds a secret.\<close>

theorem code_exchange_sound:
  assumes "authorization_code T q s = (Inr resp, t)"
  shows "\<exists>c ac i u sess.
    tget (ow_clients (world s)) (build_client_pk (tq_form q ''client_id'')) = Some c \<and>
    (\<not> is_public c \<longrightarrow> verify_password (tc_argon T) (tq_form q ''client_secret'') (cl_secret_hash c) = Inr True) \<and>
    live_code (ow_codes (world s)) (keyPrefix @ hash_token (tc_sha T) (tq_form q ''code'')) (clock s) = Some ac \<and>
    ac_client_id ac = tq_form q ''client_id'' \<and> ac_redirect_uri ac = tq_form q ''redirect_uri'' \<and>
    (ac_challenge ac \<noteq> [] \<longrightarrow> raw_url_encode (tc_sha T (tq_form q ''code_verifier'')) = ac_challenge ac) \<and>
    tget (user_tbl s) (build_pk (ac_user_id ac)) = Some i \<and> as_user i = Some u \<and> u_deletion_state u = [] \<and>
    tget (sess_tbl s) (build_pk (ac_user_id ac), build_sk (ac_session_id ac)) = Some (SessionI sess) \<and>
    tc_sign T (AccessToken (claims_of T (ac_user_id ac) (ac_session_id ac) (tq_form q ''client_id'') (ac_scopes ac)
      (access_token_audience (tc_audience T) c) (se_auth_time sess) (se_last_mfa_at sess) (se_amr sess)
      (kyc_claim_for u (ac_scopes ac)) (clock s))) = Some (tr_access_token resp) \<and>
    tr_scope resp = join_space (ac_scopes ac) \<and>
    (tr_refresh_token resp \<noteq> None \<longleftrightarrow> \<not> is_public c \<or> is_native_client (tc_net T) c) \<and>
    (\<forall>k\<in>set (tr_cookies resp). ck_http_only k \<or> ck_name k = authHintCookieName \<and> ck_value k = ''1'')"
proof -
  obtain c ac i u sess os w where
    c: "tget (ow_clients (world s)) (build_client_pk (tq_form q ''client_id'')) = Some c"
      "\<not> is_public c \<longrightarrow> verify_password (tc_argon T) (tq_form q ''client_secret'') (cl_secret_hash c) = Inr True"
    and code: "live_code (ow_codes (world s)) (code_key T q) (clock s) = Some ac"
      "redeemable T ac (tq_form q ''client_id'') (tq_form q ''redirect_uri'') (tq_form q ''code_verifier'')"
    and user: "tget (user_tbl s) (build_pk (ac_user_id ac)) = Some i" "as_user i = Some u" "u_deletion_state u = []"
    and sess: "tget (sess_tbl s) (build_pk (ac_user_id ac), build_sk (ac_session_id ac)) = Some (SessionI sess)"
    and rel: "call_relinker T u (tq_form q ''client_id'') (world_update (ow_codes_update (tdel (code_key T q))) (s\<lparr>faults := os\<rparr>)) = (Inr (), w)"
    and iss: "issue_tokens T q c (tq_form q ''client_id'') ac u sess w = (Inr resp, t)"
    by (rule exchange_Inr [OF assms], elim exE conjE) (rule that; assumption)
  have clk: "clock w = clock s" using keepsD' [OF relinker_clock rel] by simp
  obtain rt where rt: "tr_refresh_token resp = (if \<not> is_public c \<or> is_native_client (tc_net T) c then Some rt else None)"
    "tr_cookies resp = set_refresh_cookie T (tq_host q) (tq_form q ''client_id'') rt refreshTokenMaxAge @ [set_auth_hint_cookie T (tq_host q) refreshTokenMaxAge]"
    using issue_Inr [OF iss] by blast
  have cookies: "\<forall>k\<in>set (tr_cookies resp). ck_http_only k \<or> ck_name k = authHintCookieName \<and> ck_value k = ''1''"
    unfolding rt(2) by (simp add: set_refresh_cookie_def set_auth_hint_cookie_def set_auth_cookie_def clear_auth_cookie_def)
  have shown: "tr_refresh_token resp \<noteq> None \<longleftrightarrow> \<not> is_public c \<or> is_native_client (tc_net T) c" using rt(1) by simp
  have bound: "ac_client_id ac = tq_form q ''client_id''" "ac_redirect_uri ac = tq_form q ''redirect_uri''"
    "ac_challenge ac \<noteq> [] \<longrightarrow> raw_url_encode (tc_sha T (tq_form q ''code_verifier'')) = ac_challenge ac"
    using code(2) by (simp_all add: redeemable_def verify_pkce_def)
  show ?thesis
    by (rule exI [of _ c], rule exI [of _ ac], rule exI [of _ i], rule exI [of _ u], rule exI [of _ sess])
      (intro conjI; fact c code(1) [unfolded code_key_def] bound user sess issue_Inr [OF iss, unfolded clk, THEN conjunct1]
        issue_Inr [OF iss, THEN conjunct2, THEN conjunct1] shown cookies)
qed

section \<open>One redemption\<close>

abbreviation codes :: "'v oauth_world_scheme del_db \<Rightarrow> (string, auth_code \<times> time) table" where
  "codes s \<equiv> ow_codes (world s)"

lemma blind_codes [simp]: "blind codes"
  by (simp add: blind_def)

text \<open>What is neither sessions nor the random source nor the outcomes stays as it was.\<close>

lemma keeps_sessions:
  assumes b: "blind \<pi>" and t: "\<And>f s. \<pi> (sess_tbl_update f s) = \<pi> s" and r: "\<And>s n. \<pi> (s\<lparr>rng_ix := n\<rparr>) = \<pi> s"
  shows "keeps \<pi> (issue_client_token sha u i c ss)" "keeps \<pi> (rotate_client_token sha w c)"
    "keeps \<pi> (revoke_client_token sha w)" "keeps \<pi> (validate_token sha w)" "keeps \<pi> (revoke u i)"
    "keeps \<pi> (get_session u i)"
proof -
  have um: "keeps \<pi> (unmarshal f x)" for f :: "sess_item \<Rightarrow> 'z option" and x
    unfolding unmarshal_def by (intro keeps_calls)
  have uma: "keeps \<pi> (unmarshal_all f xs)" for f :: "sess_item \<Rightarrow> 'z option" and xs
    by (induction xs) (auto intro!: keeps_calls um simp del: ret_run)
  have put: "keeps \<pi> (put_item k x)" "keeps \<pi> (delete_item k)" for k x
    unfolding put_item_def delete_item_def by (intro kept_write b t)+
  have rot: "keeps \<pi> (repo_rotate_refresh_token x y n)" "keeps \<pi> (repo_put_refresh_token x)" for x y n
    unfolding repo_rotate_refresh_token_def repo_put_refresh_token_def by (intro keeps_calls b t)+
  have gen: "keeps \<pi> (generate_refresh_token sha e)" for sha and e :: sess_err
    unfolding generate_refresh_token_def Let_def by (intro keeps_calls r)
  note calls = keeps_calls um uma put rot gen b
  show rv: "keeps \<pi> (revoke u i)" for u i unfolding revoke_def repo_defs by (intro calls)
  have stale: "keeps \<pi> (on_stale_hash h)" for h unfolding on_stale_hash_def repo_defs by (intro calls rv)
  show "keeps \<pi> (issue_client_token sha u i c ss)" unfolding issue_client_token_def repo_defs Let_def by (intro calls)
  show "keeps \<pi> (rotate_client_token sha w c)"
    unfolding rotate_client_token_def finish_rotation_def repo_defs Let_def by (intro calls rv stale)
  show "keeps \<pi> (revoke_client_token sha w)" unfolding revoke_client_token_def repo_defs by (intro calls)
  show "keeps \<pi> (validate_token sha w)" unfolding validate_token_def repo_defs by (intro calls)
  show "keeps \<pi> (get_session u i)" unfolding get_session_def repo_defs by (intro calls)
qed

lemma keeps_reads:
  assumes b: "blind \<pi>"
  shows "keeps \<pi> (user_get_by_id u)" "keeps \<pi> (authenticate_key sha w)" "keeps \<pi> (client_get_by_id cid)"
  unfolding user_get_by_id_def authenticate_key_def key_get_by_hash_def client_get_by_id_def
  by (intro keeps_calls b)+

text \<open>Codes only go away, except where one is stored.\<close>

definition codes_gone :: "'v oauth_world_scheme del_db \<Rightarrow> 'v oauth_world_scheme del_db \<Rightarrow> bool" where
  "codes_gone s t \<longleftrightarrow> (\<forall>k. tget (codes t) k = None \<or> tget (codes t) k = tget (codes s) k)"

interpretation gone: step_order codes_gone
proof unfold_locales
  show "codes_gone s s" for s :: "'v oauth_world_scheme del_db" by (simp add: codes_gone_def)
  show "codes_gone s u" if "codes_gone s t" "codes_gone t u" for s t u :: "'v oauth_world_scheme del_db"
    using that unfolding codes_gone_def by metis
qed

lemma gone_keeps: "keeps codes f \<Longrightarrow> tracks codes_gone f"
  by (simp add: keeps_def tracks_def codes_gone_def)

lemma codes_updates [simp]:
  "codes (sess_tbl_update f s) = codes s" "codes (s\<lparr>rng_ix := n\<rparr>) = codes s" "codes (user_tbl_update g s) = codes s"
  "codes (published_update h s) = codes s" "codes (s\<lparr>uuid_ix := n\<rparr>) = codes s"
  "codes (world_update (ow_audit_update a) s) = codes s"
  by simp_all

lemmas codes_sessions = keeps_sessions [of codes, OF blind_codes codes_updates(1, 2)] keeps_reads [of codes, OF blind_codes]

lemma same_codes: "beside s = beside t \<Longrightarrow> codes s = codes t"
  by (cases "world s"; cases "world t") simp

lemma codes_catalog: "keeps codes (catalog on)"
  using beside_catalog [of on] unfolding keeps_def tracks_def by (metis same_codes)

lemma gone_take: "tracks codes_gone (db_take e f (world_update (ow_codes_update (tdel k))))"
  unfolding tracks_def db_take_def codes_gone_def by (auto split: list.split outcome.split)

lemma codes_sign: "keeps codes (sign_jwt T j)"
  unfolding sign_jwt_def refuse_def by (intro keeps_calls)

lemma codes_tokens: "keeps codes (sign_access_token T uid sid cid ss aud a m amr kyc)" "keeps codes (sign_id_token T u uid cid nonce kyc)"
  unfolding sign_access_token_def sign_id_token_def by (intro keeps_calls codes_sign)+

lemma codes_relinker: "keeps codes (call_relinker T u cid)"
  unfolding call_relinker_def relink_def publish_message_def remove_unlinked_service_def change_unlinked_def
  by (intro keeps_calls) simp_all

lemma codes_issue: "keeps codes (issue_tokens T q c cid ac u sess)"
  unfolding issue_tokens_def or_500_def Let_def by (intro keeps_calls codes_sessions codes_tokens)

lemma gone_endpoint: "tracks codes_gone (token_endpoint T q)" "tracks codes_gone (revoke_endpoint T q)"
proof -
  have take: "tracks codes_gone (code_get_and_delete on h)" for on h
    unfolding code_get_and_delete_def found_code_def
    by (intro gone.tracks_intros gone_take gone_keeps keeps_calls)
  have small: "keeps codes (load_client cid)" "keeps codes (authenticate_client T c w)" "keeps codes (check_secret T c w)"
      "keeps codes (pending_deletion_problem uid)" 
    for cid c w uid
    unfolding load_client_def authenticate_client_def check_secret_def pending_deletion_problem_def refuse_def
    by (intro keeps_calls codes_sessions)+
  have reg: "keeps codes (audiences_for on ss)" "keeps codes (validate_machine_grantable on ss)" "keeps codes (client_active c)" for on ss c
    unfolding audiences_for_def validate_machine_grantable_def client_active_def is_active_def
    by (intro keeps_calls codes_catalog codes_sessions)+
  have rec: "keeps codes (record_event e)" for e
    unfolding record_event_def record_strict_def by (intro keeps_calls) simp_all
  note calls = keeps_calls codes_sessions small reg codes_relinker rec codes_tokens
  have grants: "keeps codes (api_key_exchange T q)" "keeps codes (client_credentials T q)" "keeps codes (refresh_grant T q)"
    unfolding api_key_exchange_def client_credentials_def refresh_grant_def finish_refresh_def machine_scopes_def machine_scopes_for_developer_client_def
      refresh_refusal_def or_500_def refuse_def refuse_uncounted_def Let_def
    by (intro calls)+
  have "tracks codes_gone (authorization_code T q)"
    unfolding authorization_code_def or_500_def refuse_def refuse_uncounted_def Let_def
    by (intro gone.tracks_intros take gone_keeps [OF codes_issue] gone_keeps [OF small(1)] gone_keeps [OF small(2)]
        gone_keeps [OF codes_relinker] gone_keeps [OF codes_sessions(6)] gone_keeps [OF codes_sessions(7)])
  with grants [THEN gone_keeps] show "tracks codes_gone (token_endpoint T q)"
    unfolding token_endpoint_def Let_def refuse_def
    by (intro gone.tracks_if gone.tracks_throw)
  show "tracks codes_gone (revoke_endpoint T q)"
    unfolding revoke_endpoint_def refuse_def Let_def by (intro gone_keeps calls)
qed

text \<open>Later: calls of the endpoint by anyone, revocations, and whatever else happens as long as it stores no
  code under the same hash; codes are drawn at random.\<close>

inductive token_step :: "token_conf \<Rightarrow> string \<Rightarrow> 'v oauth_world_scheme del_db \<Rightarrow> 'v oauth_world_scheme del_db \<Rightarrow> bool" for T k where
  call: "token_step T k s (snd (token_endpoint T q s))"
| revoke: "token_step T k s (snd (revoke_endpoint T q s))"
| elsewhere: "tget (codes t) k = tget (codes s) k \<Longrightarrow> token_step T k s t"

lemma token_steps_gone: "(token_step T k)\<^sup>*\<^sup>* s t \<Longrightarrow> tget (codes s) k = None \<Longrightarrow> tget (codes t) k = None"
proof (induction rule: rtranclp_induct)
  case (step t u)
  from step.hyps(2) step.IH [OF step.prems] show ?case
  proof (cases rule: token_step.cases)
    case (call q)
    with step.IH [OF step.prems] tracksD [OF gone_endpoint(1), of t T q] show ?thesis by (metis codes_gone_def)
  next
    case (revoke q)
    with step.IH [OF step.prems] tracksD [OF gone_endpoint(2), of t T q] show ?thesis by (metis codes_gone_def)
  qed simp
qed simp

lemma exchange_consumes:
  assumes "authorization_code T q s = (Inr resp, t)"
  shows "tget (codes t) (code_key T q) = None"
proof -
  obtain c ac u sess os w where
    rel: "call_relinker T u (tq_form q ''client_id'') (world_update (ow_codes_update (tdel (code_key T q))) (s\<lparr>faults := os\<rparr>)) = (Inr (), w)"
    and iss: "issue_tokens T q c (tq_form q ''client_id'') ac u sess w = (Inr resp, t)"
    by (rule exchange_Inr [OF assms], elim exE conjE) (rule that; assumption)
  have "codes w = tdel (code_key T q) (codes s)"
    using keepsD' [OF codes_relinker rel] by simp
  with keepsD' [OF codes_issue iss] show ?thesis by simp
qed

text \<open>Claim C29. An authorization code is redeemed once. After a response to the code grant, no call of the
  token endpoint with the same code ever gets one again, whoever makes it and whatever happens in
  between; and the step that consumes the code is atomic, so of two calls that run at the same time
  only one gets past it.\<close>

theorem code_redeemed_once:
  assumes "token_endpoint T q s = (Inr resp, t)" and "tq_form q ''grant_type'' = ''authorization_code''"
    and "(token_step T (code_key T q))\<^sup>*\<^sup>* t u"
    and "tq_form q' ''grant_type'' = ''authorization_code''" and "tq_form q' ''code'' = tq_form q ''code''"
  shows "(\<exists>p. fst (token_endpoint T q' u) = Inl p) \<and>
    (\<forall>ac. fst (code_get_and_delete (tc_cache T) (hash_token (tc_sha T) (tq_form q ''code'')) u) \<noteq> Inr ac)"
proof -
  have "authorization_code T q s = (Inr resp, t)" using assms(1, 2) by (simp add: token_endpoint_def)
  from token_steps_gone [OF assms(3) exchange_consumes [OF this]] have gone: "live_code (codes u) (code_key T q) n = None" for n
    by (simp add: live_code_def)
  have key: "code_key T q' = code_key T q" using assms(5) by (simp add: code_key_def)
  have no: "fst (token_endpoint T q' u) \<noteq> Inr r" for r
  proof
    assume "fst (token_endpoint T q' u) = Inr r"
    then obtain v where "authorization_code T q' u = (Inr r, v)"
      using assms(4) by (simp add: token_endpoint_def prod_eq_iff)
    from exchange_Inr [OF this] obtain ac where "live_code (codes u) (code_key T q') (clock u) = Some ac" .
    with gone key show False by simp
  qed
  have "fst (code_get_and_delete (tc_cache T) (hash_token (tc_sha T) (tq_form q ''code'')) u) \<noteq> Inr ac" for ac
    using code_Inr [of "tc_cache T" "hash_token (tc_sha T) (tq_form q ''code'')" u ac] gone
    by (metis code_key_def option.distinct(1) prod.collapse)
  with no show ?thesis by (metis obj_sumE)
qed

section \<open>The refresh grant\<close>

lemma get_item_thenE:
  assumes "bindE (get_item k) g s = (Inr x, t)"
  obtains os where "g (tget (sess_tbl s) k) (s\<lparr>faults := os\<rparr>) = (Inr x, t)"
  using assms unfolding get_item_def by (rule read_thenE) (rule that)

lemma lookup_Inr: "get_token_lookup h s = (Inr x, t) \<Longrightarrow> \<exists>os. t = s\<lparr>faults := os\<rparr>"
  unfolding get_token_lookup_def
  by (erule get_item_thenE) (auto simp: unmarshal_def elim!: bindE_InrE split: option.splits)

lemma stored: "tget tb k = Some x \<Longrightarrow> x \<in> snd ` set tb"
  unfolding tget_def by (metis image_eqI map_of_SomeD snd_conv)

lemma refresh_Inr:
  assumes "repo_get_refresh_token_by_hash h s = (Inr tk, t)"
  shows "rt_hash tk = h \<and> RefreshI tk \<in> snd ` set (sess_tbl s) \<and> (\<exists>os. t = s\<lparr>faults := os\<rparr>)"
proof -
  from assms obtain lk s1 where lk: "get_token_lookup h s = (Inr lk, s1)" unfolding repo_get_refresh_token_by_hash_def
    by (rule bindE_InrE)
  from lookup_Inr [OF lk] obtain os where s1: "s1 = s\<lparr>faults := os\<rparr>" by blast
  show ?thesis
  proof (cases lk)
    case (Some l)
    let ?k = "(build_pk (tl_user_id l), build_refresh_sk (tl_session_id l) (tl_client_id l))"
    from assms lk Some s1 have "bindE (get_item ?k) (\<lambda>i. case i of None \<Rightarrow> throw ErrRefreshTokenNotFound
        | Some i \<Rightarrow> bindE (unmarshal as_refresh i) (\<lambda>t. if rt_hash t \<noteq> h then throw ErrRefreshTokenNotFound else ret t))
        (s\<lparr>faults := os\<rparr>) = (Inr tk, t)"
      unfolding repo_get_refresh_token_by_hash_def by (simp split: if_splits)
    then show ?thesis
      by (rule get_item_thenE)
        (auto simp: unmarshal_def elim!: bindE_InrE as_refresh.elims split: option.split_asm if_splits dest: stored)
  next
    case None
    let ?f = "\<lambda>s. take 2 (filter (\<lambda>(k, i). item_hash i = Some h) (sess_tbl s))"
    from assms lk None s1 obtain r s2 where q: "query_by_token_hash h ''REFRESH_'' (s\<lparr>faults := os\<rparr>) = (Inr r, s2)"
      and k: "(case r of None \<Rightarrow> throw ErrRefreshTokenNotFound | Some (k, i) \<Rightarrow>
         if \<not> has_prefix (snd k) ''REFRESH_'' then throw ErrRefreshTokenNotFound else unmarshal as_refresh i) s2 = (Inr tk, t)"
      unfolding repo_get_refresh_token_by_hash_def by (auto elim!: bindE_InrE)
    from q obtain os2 where s2: "s2 = s\<lparr>faults := os2\<rparr>" and r: "r = List.find (\<lambda>(k, i). has_prefix (snd k) ''REFRESH_'') (?f s)"
      unfolding query_by_token_hash_def by (elim read_thenE) auto
    have m: "item_hash i = Some h \<and> (k, i) \<in> set (sess_tbl s)" if "r = Some (k, i)" for k i
      using that unfolding r by (auto dest!: find_SomeD in_set_takeD)
    show ?thesis
    proof (cases r)
      case (Some p)
      obtain key i where p: "p = (key, i)" by fastforce
      with k Some have "as_refresh i = Some tk" "t = s2" by (auto simp: unmarshal_def split: if_splits option.splits)
      moreover from m [of key i] Some p have "item_hash i = Some h" "i \<in> snd ` set (sess_tbl s)"
        by (simp, metis image_eqI snd_conv)
      ultimately show ?thesis using s2 by (cases i) auto
    qed (use k in simp)
  qed
qed

lemma rotate_Inr:
  assumes "rotate_client_token sha raw cid s = (Inr (sess, new_raw, ss), t)"
  obtains tk where "RefreshI tk \<in> snd ` set (sess_tbl s)" "rt_hash tk = hash_token sha raw" "rt_client_id tk = cid"
    "ss = rt_scopes tk" "\<not> refresh_is_expired (clock s) tk" "\<not> session_is_expired (clock s) sess"
    "tget (sess_tbl s) (build_pk (refresh_user_id tk), build_sk (rt_session_id tk)) = Some (SessionI sess)"
proof -
  obtain r s1 where r: "repo_get_refresh_token_by_hash (hash_token sha raw) s = (r, s1)" by fastforce
  have stale: "on_stale_hash h v \<noteq> (Inr x, w)" for h x v w
    by (auto simp: on_stale_hash_def bindE_run split: sum.splits prod.splits)
  show ?thesis
  proof (cases r)
    case (Inl e)
    with r assms have "on_stale_hash (hash_token sha raw) s1 = (Inr (sess, new_raw, ss), t)"
      by (auto simp: rotate_client_token_def bindE_run [of "tryE _"] split: if_splits)
    with stale show ?thesis by blast
  next
    case (Inr tk)
    from refresh_Inr r Inr obtain os where tk: "rt_hash tk = hash_token sha raw" "RefreshI tk \<in> snd ` set (sess_tbl s)"
      "s1 = s\<lparr>faults := os\<rparr>" by blast
    obtain q s2 where q: "repo_get_by_id (refresh_user_id tk) (rt_session_id tk) s1 = (q, s2)" by fastforce
    have rest: "rt_client_id tk = cid" "\<not> refresh_is_expired (clock s) tk"
      "\<exists>x. q = Inr x \<and> \<not> session_is_expired (clock s) x \<and> finish_rotation sha tk x (clock s) s2 = (Inr (sess, new_raw, ss), t)"
      using assms r Inr tk(3) q
      by (auto simp: rotate_client_token_def bindE_run [of "tryE _"] bindE_run [of now] bindE_run [of "logE _"]
          split: if_splits sum.splits)
    then obtain x where x: "q = Inr x" "\<not> session_is_expired (clock s) x"
      "finish_rotation sha tk x (clock s) s2 = (Inr (sess, new_raw, ss), t)" by blast
    from x(3) have fin: "sess = x" "ss = rt_scopes tk"
      by (auto simp: finish_rotation_def Let_def bindE_run split: prod.splits sum.splits if_splits)
    from session_Inr [of "refresh_user_id tk" "rt_session_id tk" s1 x s2] q x(1) tk(3)
    have "tget (sess_tbl s) (build_pk (refresh_user_id tk), build_sk (rt_session_id tk)) = Some (SessionI x)"
      by (simp add: get_session_def)
    with that [OF tk(2, 1) rest(1) fin(2) rest(2)] x(2) fin show ?thesis by simp
  qed
qed

lemma append_new_set: "set (append_new xs ys) = set xs \<union> set ys"
  by (induction xs ys rule: append_new.induct) auto

lemma rotate_keeps:
  assumes "rotate_client_token sha raw cid s = (r, t)"
  shows "user_tbl t = user_tbl s" "clock t = clock s"
proof -
  show "user_tbl t = user_tbl s" by (rule keepsD' [OF keeps_sessions(2) assms]) (simp_all add: blind_def)
  show "clock t = clock s" by (rule keepsD' [OF keeps_sessions(2) assms]) (simp_all add: blind_def)
qed

lemma refresh_facts:
  assumes "refresh_grant T q s = (Inr resp, t)"
  obtains c tk sess scp kyc where
    "tget (ow_clients (world s)) (build_client_pk (tq_form q ''client_id'')) = Some c"
    "\<not> is_public c \<longrightarrow> verify_password (tc_argon T) (tq_form q ''client_secret'') (cl_secret_hash c) = Inr True"
    "RefreshI tk \<in> snd ` set (sess_tbl s)"
    "rt_hash tk = hash_token (tc_sha T) (refresh_raw_token T q (tq_form q ''client_id''))"
    "rt_client_id tk = tq_form q ''client_id''" "\<not> refresh_is_expired (clock s) tk"
    "tget (sess_tbl s) (build_pk (refresh_user_id tk), build_sk (rt_session_id tk)) = Some (SessionI sess)"
    "\<not> session_is_expired (clock s) sess" "\<not> marked (session_user_id sess) s"
    "tc_sign T (AccessToken (claims_of T (session_user_id sess) (session_id sess) (tq_form q ''client_id'') scp
      (access_token_audience (tc_audience T) c) (se_auth_time sess) (se_last_mfa_at sess) (se_amr sess) kyc (clock s)))
      = Some (tr_access_token resp)"
    "tr_scope resp = join_space scp" "scp = filter_scopes c (granted_on_refresh T c (tq_form q ''client_id'') (rt_scopes tk))"
    "tr_refresh_token resp = None \<longleftrightarrow> is_public c"
proof -
  let ?cid = "tq_form q ''client_id''"
  let ?raw = "refresh_raw_token T q ?cid"
  from assms obtain c s1 s2 res s3 where
    r: "load_client ?cid s = (Inr c, s1)" "authenticate_client T c (tq_form q ''client_secret'') s1 = (Inr (), s2)"
      "rotate_client_token (tc_sha T) ?raw ?cid s2 = (res, s3)"
    and cont: "(case res of Inl e \<Rightarrow> refresh_refusal q ?cid e | Inr x \<Rightarrow> finish_refresh T q c ?cid x) s3 = (Inr resp, t)"
    unfolding refresh_grant_def Let_def
    by (auto simp: refuse_Inr tryE_Inr simp del: tryE_run elim!: bindE_InrE split: if_splits)
  from client_Inr [OF r(1)] obtain o1 where 1: "tget (ow_clients (world s)) (build_client_pk ?cid) = Some c" "s1 = s\<lparr>faults := o1\<rparr>" by blast
  from authenticate_Inr [OF r(2)] have 2: "\<not> is_public c \<longrightarrow> verify_password (tc_argon T) (tq_form q ''client_secret'') (cl_secret_hash c) = Inr True" "s2 = s1"
    by auto
  have "refresh_refusal q ?cid e v \<noteq> (Inr x, w)" for e v w and x :: token_response
    by (auto simp: refresh_refusal_def refuse_Inr elim!: bindE_InrE split: if_splits)
  with cont obtain sess new_raw granted where res: "res = Inr (sess, new_raw, granted)" by (cases res) auto
  let ?scp = "filter_scopes c (granted_on_refresh T c ?cid granted)"
  from cont res obtain s4 kyc s5 tok where
    p: "pending_deletion_problem (session_user_id sess) s3 = (Inr (), s4)"
    and k: "(if ''kyc'' \<in> set ?scp
       then bindE (or_500 (user_get_by_id (session_user_id sess))) (\<lambda>u. ret (claim_level (u_kyc_level u) (u_kyc_status u)))
       else ret []) s4 = (Inr kyc, s5)"
    and a: "sign_access_token T (session_user_id sess) (session_id sess) ?cid ?scp
       (access_token_audience (tc_audience T) c) (se_auth_time sess) (se_last_mfa_at sess) (se_amr sess) kyc s5 = (Inr tok, t)"
    and resp: "tr_access_token resp = tok" "tr_scope resp = join_space ?scp"
      "tr_refresh_token resp = None \<longleftrightarrow> is_public c"
    by (auto simp: finish_refresh_def Let_def elim!: bindE_InrE)
  have "rotate_client_token (tc_sha T) ?raw ?cid (s\<lparr>faults := o1\<rparr>) = (Inr (sess, new_raw, granted), s3)"
    using r(3) res 1(2) 2(2) by simp
  then obtain tk where
    tk: "RefreshI tk \<in> snd ` set (sess_tbl s)" "rt_hash tk = hash_token (tc_sha T) ?raw" "rt_client_id tk = ?cid"
      "\<not> refresh_is_expired (clock s) tk"
      "tget (sess_tbl s) (build_pk (refresh_user_id tk), build_sk (rt_session_id tk)) = Some (SessionI sess)"
      "\<not> session_is_expired (clock s) sess"
    and granted: "granted = rt_scopes tk"
    by (rule rotate_Inr) (rule that; simp)
  from rotate_keeps [OF r(3)] 1 2 have s3: "user_tbl s3 = user_tbl s" "clock s3 = clock s" by simp_all
  from pending_Inr [OF p] s3 have nm: "\<not> marked (session_user_id sess) s" and s4: "clock s4 = clock s"
    by (auto simp: marked_def)
  have s5: "clock s5 = clock s4" using k by (auto simp: or_500_Inr elim!: bindE_InrE split: if_splits dest!: user_Inr)
  note tok = access_Inr [OF a, THEN conjunct1, unfolded s5 s4, folded resp(1)]
  show ?thesis
    by (rule that [OF 1(1) 2(1) tk nm tok resp(2)]) (simp_all add: granted resp(3))
qed

text \<open>Claim C30. A refresh never widens a grant. A response to the refresh grant, whatever database calls
  fail: the presented token is stored, unexpired and was issued to this client, which proved its
  secret if confidential; the session behind it is live and its account not being deleted; and the
  access token is for that user and session with scopes that the client still has and that the
  token was granted. Only a token without any recorded scope falls back to the identity scopes, and
  only the platform's own front end also gets the account permissions.\<close>

theorem refresh_never_widens:
  assumes "refresh_grant T q s = (Inr resp, t)"
  shows "\<exists>c tk sess scp kyc.
    tget (ow_clients (world s)) (build_client_pk (tq_form q ''client_id'')) = Some c \<and>
    (\<not> is_public c \<longrightarrow> verify_password (tc_argon T) (tq_form q ''client_secret'') (cl_secret_hash c) = Inr True) \<and>
    RefreshI tk \<in> snd ` set (sess_tbl s) \<and>
    rt_hash tk = hash_token (tc_sha T) (refresh_raw_token T q (tq_form q ''client_id'')) \<and>
    rt_client_id tk = tq_form q ''client_id'' \<and> \<not> refresh_is_expired (clock s) tk \<and>
    tget (sess_tbl s) (build_pk (refresh_user_id tk), build_sk (rt_session_id tk)) = Some (SessionI sess) \<and>
    \<not> session_is_expired (clock s) sess \<and> \<not> marked (session_user_id sess) s \<and>
    tc_sign T (AccessToken (claims_of T (session_user_id sess) (session_id sess) (tq_form q ''client_id'') scp
      (access_token_audience (tc_audience T) c) (se_auth_time sess) (se_last_mfa_at sess) (se_amr sess) kyc (clock s)))
      = Some (tr_access_token resp) \<and>
    tr_scope resp = join_space scp \<and> set scp \<subseteq> set (cl_allowed_scopes c) \<and>
    set scp \<subseteq> set (rt_scopes tk) \<union> (if rt_scopes tk = [] then set oidcScopes else {}) \<union>
      (if tq_form q ''client_id'' = tc_self_client T \<and> cl_first_party c then set AccountUserScopes else {})"
proof -
  obtain c tk sess scp kyc where
    c: "tget (ow_clients (world s)) (build_client_pk (tq_form q ''client_id'')) = Some c"
      "\<not> is_public c \<longrightarrow> verify_password (tc_argon T) (tq_form q ''client_secret'') (cl_secret_hash c) = Inr True"
    and tk: "RefreshI tk \<in> snd ` set (sess_tbl s)"
      "rt_hash tk = hash_token (tc_sha T) (refresh_raw_token T q (tq_form q ''client_id''))"
      "rt_client_id tk = tq_form q ''client_id''" "\<not> refresh_is_expired (clock s) tk"
      "tget (sess_tbl s) (build_pk (refresh_user_id tk), build_sk (rt_session_id tk)) = Some (SessionI sess)"
      "\<not> session_is_expired (clock s) sess" "\<not> marked (session_user_id sess) s"
    and tok: "tc_sign T (AccessToken (claims_of T (session_user_id sess) (session_id sess) (tq_form q ''client_id'') scp
      (access_token_audience (tc_audience T) c) (se_auth_time sess) (se_last_mfa_at sess) (se_amr sess) kyc (clock s)))
      = Some (tr_access_token resp)" "tr_scope resp = join_space scp"
    and scp: "scp = filter_scopes c (granted_on_refresh T c (tq_form q ''client_id'') (rt_scopes tk))"
    by (rule refresh_facts [OF assms]) (rule that; assumption)
  have sub: "set scp \<subseteq> set (cl_allowed_scopes c)" unfolding scp by (auto simp: filter_scopes_def has_scope_def list_ex_iff)
  have wide: "set scp \<subseteq> set (rt_scopes tk) \<union> (if rt_scopes tk = [] then set oidcScopes else {}) \<union>
      (if tq_form q ''client_id'' = tc_self_client T \<and> cl_first_party c then set AccountUserScopes else {})"
    unfolding scp granted_on_refresh_def Let_def oidcScopes_def
    by (auto simp: filter_scopes_def append_new_set split: if_splits)
  show ?thesis
    by (rule exI [of _ c], rule exI [of _ tk], rule exI [of _ sess], rule exI [of _ scp], rule exI [of _ kyc])
      (intro conjI; fact c tk tok sub wide)
qed

section \<open>API keys and machine tokens\<close>

text \<open>A program that only reads.\<close>

interpretation only_faults: step_order "\<lambda>s t. \<exists>os. t = s\<lparr>faults := os\<rparr>"
proof unfold_locales
  show "\<exists>os. s = s\<lparr>faults := os\<rparr>" for s :: "'x env_scheme" by (rule exI [of _ "faults s"]) simp
  show "\<exists>os. u = s\<lparr>faults := os\<rparr>" if "\<exists>os. t = s\<lparr>faults := os\<rparr>" "\<exists>os. u = t\<lparr>faults := os\<rparr>" for s t u :: "'x env_scheme"
    using that by auto
qed

lemma only_read: "tracks (\<lambda>s t. \<exists>os. t = s\<lparr>faults := os\<rparr>) (db_read e f)" "tracks (\<lambda>s t. \<exists>os. t = s\<lparr>faults := os\<rparr>) now"
  by (auto intro: tracks_db_read) (auto simp: tracks_def intro: only_faults.refl)

lemma tracks_option:
  "(x = None \<Longrightarrow> tracks R f) \<Longrightarrow> (\<And>y. x = Some y \<Longrightarrow> tracks R (g y)) \<Longrightarrow> tracks R (case x of None \<Rightarrow> f | Some y \<Rightarrow> g y)"
  by (cases x) simp_all

lemma tracks_sum:
  "(\<And>e. z = Inl e \<Longrightarrow> tracks R (h e)) \<Longrightarrow> (\<And>y. z = Inr y \<Longrightarrow> tracks R (k y)) \<Longrightarrow> tracks R (case z of Inl e \<Rightarrow> h e | Inr y \<Rightarrow> k y)"
  by (cases z) simp_all

lemma tracks_list:
  "(l = [] \<Longrightarrow> tracks R a) \<Longrightarrow> (\<And>y ys. l = y # ys \<Longrightarrow> tracks R (b y ys)) \<Longrightarrow> tracks R (case l of [] \<Rightarrow> a | y # ys \<Rightarrow> b y ys)"
  by (cases l) simp_all

lemmas tracks_cases = tracks_option tracks_sum tracks_list

lemma key_Inr: "authenticate_key sha raw s = (Inr k, t) \<Longrightarrow> \<exists>os. t = s\<lparr>faults := os\<rparr>"
  by (erule tracksD' [rotated]) (unfold authenticate_key_def key_get_by_hash_def, intro only_faults.tracks_intros only_read tracks_cases)

lemma active_Inr: "client_active c s = (Inr b, t) \<Longrightarrow> \<exists>os. t = s\<lparr>faults := os\<rparr>"
  by (erule tracksD' [rotated])
    (unfold client_active_def is_active_def user_get_by_id_def, intro only_faults.tracks_intros only_read tracks_cases)

lemma key_facts:
  assumes "api_key_exchange T q s = (Inr resp, t)"
  obtains k aud n where "\<not> marked (key_user_id k) s"
    "tc_sign T (AccessToken (claims_of T (key_user_id k) (key_id k) apiKeyClientID (ak_scopes k) aud 0 0 [] [] n)) = Some (tr_access_token resp)"
proof -
  from assms obtain k s1 s2 aud s3 tok where
    r: "authenticate_key (tc_sha T) (tq_form q ''api_key'') s = (Inr k, s1)" "pending_deletion_problem (key_user_id k) s1 = (Inr (), s2)"
      "sign_access_token T (key_user_id k) (key_id k) apiKeyClientID (ak_scopes k) (tc_audience T # aud) 0 0 [] [] s3 = (Inr tok, t)"
      "tr_access_token resp = tok"
    unfolding api_key_exchange_def Let_def
    by (auto simp: mapErr_Inr or_500_Inr refuse_Inr elim!: bindE_InrE split: if_splits)
  from key_Inr [OF r(1)] pending_Inr [OF r(2)] have "\<not> marked (key_user_id k) s" by (auto simp: marked_def)
  with that access_Inr [OF r(3)] r(4) show ?thesis by auto
qed

lemma keeps_clock_registry: "keeps clock (catalog on)" "keeps clock (audiences_for on ss)" "keeps clock (validate_machine_grantable on ss)"
  unfolding audiences_for_def validate_machine_grantable_def catalog_def cached_catalog_def registry_defs Let_def
  by (intro keeps_calls; simp add: blind_def)+

lemma machine_facts:
  assumes "client_credentials T q s = (Inr resp, t)"
  obtains c scp aud where
    "tget (ow_clients (world s)) (build_client_pk (tq_form q ''client_id'')) = Some c" "\<not> is_public c"
    "verify_password (tc_argon T) (tq_form q ''client_secret'') (cl_secret_hash c) = Inr True"
    "scp \<noteq> []" "set scp \<subseteq> set (cl_allowed_scopes c) \<inter> set (fields (tq_form q ''scope''))"
    "\<not> cl_first_party c \<longrightarrow> (\<exists>os os'. fst (client_active c (s\<lparr>faults := os\<rparr>)) = Inr True \<and>
       fst (validate_machine_grantable (tc_cache T) (cl_allowed_scopes c) (s\<lparr>faults := os'\<rparr>)) = Inr [])"
    "tc_sign T (AccessToken (claims_of T (tq_form q ''client_id'') [] (tq_form q ''client_id'') scp aud 0 0 [] [] (clock s)))
       = Some (tr_access_token resp)" "tr_scope resp = join_space scp" "tr_refresh_token resp = None" "tr_cookies resp = []"
proof -
  let ?cid = "tq_form q ''client_id''"
  let ?req = "fields (tq_form q ''scope'')"
  from assms obtain c s1 s2 scp s3 aud s4 tok where
    r: "load_client ?cid s = (Inr c, s1)" "\<not> is_public c" "check_secret T c (tq_form q ''client_secret'') s1 = (Inr (), s2)"
      "machine_scopes T c ?req s2 = (Inr scp, s3)"
      "scp \<noteq> []" "audiences_for (tc_cache T) scp s3 = (Inr aud, s4)"
      "sign_access_token T ?cid [] ?cid scp (tc_audience T # aud) 0 0 [] [] s4 = (Inr tok, t)"
    and resp: "tr_access_token resp = tok" "tr_scope resp = join_space scp" "tr_refresh_token resp = None" "tr_cookies resp = []"
    unfolding client_credentials_def Let_def
    by (auto simp: or_500_Inr refuse_Inr elim!: bindE_InrE split: if_split_asm)
  from client_Inr [OF r(1)] obtain o1 where 1: "tget (ow_clients (world s)) (build_client_pk ?cid) = Some c" "s1 = s\<lparr>faults := o1\<rparr>" by blast
  from secret_Inr [OF r(3)] 1(2) have 2: "verify_password (tc_argon T) (tq_form q ''client_secret'') (cl_secret_hash c) = Inr True"
    "s2 = s\<lparr>faults := o1\<rparr>" by simp_all
  have 3: "set scp \<subseteq> set (cl_allowed_scopes c) \<inter> set ?req \<and> clock s3 = clock s \<and>
      (\<not> cl_first_party c \<longrightarrow> (\<exists>os os'. fst (client_active c (s\<lparr>faults := os\<rparr>)) = Inr True \<and>
       fst (validate_machine_grantable (tc_cache T) (cl_allowed_scopes c) (s\<lparr>faults := os'\<rparr>)) = Inr []))"
  proof (cases "cl_first_party c")
    case True
    with r(4) 2(2) show ?thesis by (auto simp: machine_scopes_def filter_scopes_def has_scope_def list_ex_iff)
  next
    case False
    with r(4) obtain s5 where a: "client_active c s2 = (Inr True, s5)"
      and g: "validate_machine_grantable (tc_cache T) (cl_allowed_scopes c) s5 = (Inr [], s3)"
      and h: "scp = ?req" "\<not> list_ex (\<lambda>sc. \<not> has_scope c sc) ?req"
      unfolding machine_scopes_def machine_scopes_for_developer_client_def
      by (auto simp: or_500_Inr refuse_Inr elim!: bindE_InrE split: if_split_asm)
    from active_Inr [OF a] 2(2) obtain o5 where s5: "s5 = s\<lparr>faults := o5\<rparr>" by auto
    from keepsD' [OF keeps_clock_registry(3) g] s5 have "clock s3 = clock s" by simp
    moreover have "fst (client_active c (s\<lparr>faults := o1\<rparr>)) = Inr True" using a 2(2) by simp
    moreover have "fst (validate_machine_grantable (tc_cache T) (cl_allowed_scopes c) (s\<lparr>faults := o5\<rparr>)) = Inr []" using g s5 by simp
    ultimately show ?thesis using h by (auto simp: has_scope_def list_ex_iff)
  qed
  have s4: "clock s4 = clock s" using keepsD' [OF keeps_clock_registry(2) r(6)] 3 by simp
  show ?thesis
    using that [OF 1(1) r(2) 2(1) r(5), of "tc_audience T # aud"] 3 access_Inr [OF r(7), unfolded s4] resp by simp
qed

text \<open>Claim C31. No token for an account that is being deleted. While the row of a user is marked for deletion,
  no call of the token endpoint answers with a token for that user: not for a code issued before, not
  for a refresh token that outlived the lock, not for an API key. (A machine token has no user.)\<close>

theorem marked_account_gets_no_token:
  assumes "token_endpoint T q s = (Inr resp, t)" and "marked uid s" and "tq_form q ''grant_type'' \<noteq> ''client_credentials''"
  shows "\<exists>cl. tc_sign T (AccessToken cl) = Some (tr_access_token resp) \<and> at_sub cl \<noteq> uid"
proof -
  consider (code) "authorization_code T q s = (Inr resp, t)" | (refresh) "refresh_grant T q s = (Inr resp, t)"
    | (key) "api_key_exchange T q s = (Inr resp, t)"
    using assms(1, 3) by (auto simp: token_endpoint_def Let_def refuse_Inr split: if_splits)
  then show ?thesis
  proof cases
    case code
    obtain c ac i u sess os w where
      user: "tget (user_tbl s) (build_pk (ac_user_id ac)) = Some i" "as_user i = Some u" "u_deletion_state u = []"
      and iss: "issue_tokens T q c (tq_form q ''client_id'') ac u sess w = (Inr resp, t)"
      by (rule exchange_Inr [OF code], elim exE conjE) (rule that; assumption)
    from user assms(2) have "ac_user_id ac \<noteq> uid" by (auto simp: marked_def)
    with issue_Inr [OF iss, THEN conjunct1] show ?thesis by (metis access_claims.select_convs(1) claims_of_def)
  next
    case refresh
    obtain c scp kyc sess where "\<not> marked (session_user_id sess) s"
      and sg: "tc_sign T (AccessToken (claims_of T (session_user_id sess) (session_id sess) (tq_form q ''client_id'') scp
        (access_token_audience (tc_audience T) c) (se_auth_time sess) (se_last_mfa_at sess) (se_amr sess) kyc (clock s)))
        = Some (tr_access_token resp)"
      by (rule refresh_facts [OF refresh]) (rule that; assumption)
    with assms(2) have "session_user_id sess \<noteq> uid" by auto
    with sg show ?thesis by (metis access_claims.select_convs(1) claims_of_def)
  next
    case key
    obtain k aud n where "\<not> marked (key_user_id k) s"
      and sg: "tc_sign T (AccessToken (claims_of T (key_user_id k) (key_id k) apiKeyClientID (ak_scopes k) aud 0 0 [] [] n)) = Some (tr_access_token resp)"
      by (rule key_facts [OF key])
    with assms(2) have "key_user_id k \<noteq> uid" by auto
    with sg show ?thesis by (metis access_claims.select_convs(1) claims_of_def)
  qed
qed

text \<open>Claim C32. What a machine gets. In every run of the registry, the developer page and the operator's
  commands, a response to the client-credentials grant is for a confidential client that proved its
  secret; the token has no user, no session, no second factor and no refresh token, and its scopes are
  requested ones that the client holds. A client that is not the platform's gets one only while its
  owner is active and every scope it holds is published for machines, and never one with an internal
  scope unless its scope list has an empty string.\<close>

theorem machine_token_exact:
  assumes "client_start s0" and "(client_step H sha argon N on)\<^sup>*\<^sup>* s0 s" and "client_credentials T q s = (Inr resp, t)"
  shows "\<exists>c scp aud.
    tget (ow_clients (world s)) (build_client_pk (tq_form q ''client_id'')) = Some c \<and> \<not> is_public c \<and>
    verify_password (tc_argon T) (tq_form q ''client_secret'') (cl_secret_hash c) = Inr True \<and>
    scp \<noteq> [] \<and> set scp \<subseteq> set (cl_allowed_scopes c) \<inter> set (fields (tq_form q ''scope'')) \<and>
    (\<not> cl_first_party c \<longrightarrow> (\<exists>os os'. fst (client_active c (s\<lparr>faults := os\<rparr>)) = Inr True \<and>
       fst (validate_machine_grantable (tc_cache T) (cl_allowed_scopes c) (s\<lparr>faults := os'\<rparr>)) = Inr [])) \<and>
    (\<forall>sc\<in>set scp. is_internal sc \<longrightarrow> cl_first_party c \<and> cl_owner c = SystemOwnerUserID \<or> [] \<in> set (cl_allowed_scopes c)) \<and>
    tc_sign T (AccessToken (claims_of T (tq_form q ''client_id'') [] (tq_form q ''client_id'') scp aud 0 0 [] [] (clock s)))
       = Some (tr_access_token resp) \<and> tr_scope resp = join_space scp \<and> tr_refresh_token resp = None"
proof -
  obtain c scp aud where
    f: "tget (ow_clients (world s)) (build_client_pk (tq_form q ''client_id'')) = Some c" "\<not> is_public c"
    "verify_password (tc_argon T) (tq_form q ''client_secret'') (cl_secret_hash c) = Inr True"
    "scp \<noteq> []" "set scp \<subseteq> set (cl_allowed_scopes c) \<inter> set (fields (tq_form q ''scope''))"
    "\<not> cl_first_party c \<longrightarrow> (\<exists>os os'. fst (client_active c (s\<lparr>faults := os\<rparr>)) = Inr True \<and>
       fst (validate_machine_grantable (tc_cache T) (cl_allowed_scopes c) (s\<lparr>faults := os'\<rparr>)) = Inr [])"
    and g: "tc_sign T (AccessToken (claims_of T (tq_form q ''client_id'') [] (tq_form q ''client_id'') scp aud 0 0 [] [] (clock s)))
       = Some (tr_access_token resp)" "tr_scope resp = join_space scp" "tr_refresh_token resp = None"
    by (rule machine_facts [OF assms(3)]) (rule that; assumption)
  from trust_reachable [OF assms(2) trust_start [OF assms(1)]] f(1) have "client_ok (build_client_pk (tq_form q ''client_id'')) c"
    by (simp add: trust_inv_def clients_inv_def)
  then have inner: "\<forall>sc\<in>set scp. is_internal sc \<longrightarrow> cl_first_party c \<and> cl_owner c = SystemOwnerUserID \<or> [] \<in> set (cl_allowed_scopes c)"
    using f(5) by (auto simp: client_ok_def)
  show ?thesis
    by (rule exI [of _ c], rule exI [of _ scp], rule exI [of _ aud]) (intro conjI; fact f g inner)
qed

end
