(* ===== verification/Secrets.thy ===== *)
theory Secrets
  imports Password
begin

text \<open>
  Sealing of secrets at rest (\<open>api/internal/crypto/secret.go\<close>): the key of the process, AES-256-GCM
  with a random nonce in front, standard base 64 around both. The cipher is a parameter (the key, the
  nonce and the text); the text formats, the choice of the key and every error are modelled.
\<close>

section \<open>Text as bytes\<close>

definition to_bytes :: "string \<Rightarrow> byte list" where
  "to_bytes s = map of_char s"

definition of_bytes :: "byte list \<Rightarrow> string" where
  "of_bytes b = map (\<lambda>x. char_of (unat x)) b"

lemma length_to_bytes: "length (to_bytes w) = length w"
  by (simp add: to_bytes_def)

lemma of_bytes_to_bytes: "of_bytes (to_bytes w) = w"
proof -
  have "char_of (unat (of_char c :: byte)) = c" for c :: char
  proof -
    have "(of_char c :: byte) = of_nat (of_char c :: nat)" by (simp only: of_nat_of_char)
    then have "unat (of_char c :: byte) = (of_char c :: nat) mod 256" by (simp only: unat_of_nat) simp
    then show ?thesis by simp
  qed
  then show ?thesis by (simp add: of_bytes_def to_bytes_def map_idI comp_def)
qed

section \<open>Base 64 with padding\<close>

definition pad64 :: "nat \<Rightarrow> string" where
  "pad64 n = replicate ((4 - n mod 4) mod 4) (CHR ''='')"

definition std_encode :: "byte list \<Rightarrow> string" where
  "std_encode b = encode64 b @ pad64 (length (encode64 b))"

text \<open>Line breaks are skipped; what follows the first padding character must be the padding.\<close>

definition std_decode :: "string \<Rightarrow> byte list option" where
  "std_decode s =
     (let t = filter (\<lambda>c. c \<noteq> CHR 0x0A \<and> c \<noteq> CHR 0x0D) s; d = takeWhile (\<lambda>c. c \<noteq> CHR ''='') t
      in if dropWhile (\<lambda>c. c \<noteq> CHR ''='') t = pad64 (length d) then decode64 d else None)"

lemma std_round_trip: "std_decode (std_encode b) = Some b"
proof -
  have no: "CHR ''='' \<notin> set (encode64 b)" "CHR 0x0A \<notin> set (encode64 b)" "CHR 0x0D \<notin> set (encode64 b)"
    using encode64_chars [of b] by (auto simp: base64_chars_def)
  then have e: "filter (\<lambda>c. c \<noteq> CHR 0x0A \<and> c \<noteq> CHR 0x0D) (encode64 b) = encode64 b"
    by (intro filter_True) auto
  have p: "filter (\<lambda>c. c \<noteq> CHR 0x0A \<and> c \<noteq> CHR 0x0D) (pad64 n) = pad64 n" for n
    by (simp add: pad64_def)
  have tw: "takeWhile (\<lambda>c. c \<noteq> CHR ''='') (encode64 b @ pad64 n) = encode64 b" for n
    using no by (cases "(4 - n mod 4) mod 4") (auto simp: pad64_def takeWhile_append)
  have dw: "dropWhile (\<lambda>c. c \<noteq> CHR ''='') (encode64 b @ pad64 n) = pad64 n" for n
    using no by (cases "(4 - n mod 4) mod 4") (auto simp: pad64_def dropWhile_append)
  show ?thesis
    unfolding std_decode_def std_encode_def Let_def filter_append e p tw dw by (simp add: decode64_encode64)
qed

section \<open>The key\<close>

text \<open>\<open>hex.DecodeString\<close>.\<close>

definition hex_digit :: "char \<Rightarrow> nat option" where
  "hex_digit c = (let n = of_char c :: nat in
     if 48 \<le> n \<and> n \<le> 57 then Some (n - 48)
     else if 65 \<le> n \<and> n \<le> 70 then Some (n - 55)
     else if 97 \<le> n \<and> n \<le> 102 then Some (n - 87) else None)"

fun hex_decode :: "string \<Rightarrow> byte list option" where
  "hex_decode [] = Some []"
| "hex_decode [c] = None"
| "hex_decode (a # b # s) = (case (hex_digit a, hex_digit b) of
       (Some x, Some y) \<Rightarrow> map_option ((#) (of_nat (x * 16 + y))) (hex_decode s)
     | _ \<Rightarrow> None)"

definition devEncryptionKey :: string where
  "devEncryptionKey = ''devkey00devkey01devkey02devkey03''"

definition sized :: "byte list option \<Rightarrow> byte list option" where
  "sized r = (case r of Some b \<Rightarrow> if length b = 32 then Some b else None | None \<Rightarrow> None)"

definition load_encryption_key :: "string \<Rightarrow> byte list option" where
  "load_encryption_key raw =
     (if raw = [] then Some (to_bytes devEncryptionKey)
      else case sized (std_decode raw) of
        Some b \<Rightarrow> Some b
      | None \<Rightarrow> sized (hex_decode raw))"

text \<open>The process does not start without a key outside of development.\<close>

definition new_sealer_key :: "string \<Rightarrow> string \<Rightarrow> byte list option" where
  "new_sealer_key environment raw =
     (if raw = [] \<and> environment \<noteq> ''dev'' \<and> environment \<noteq> ''development'' then None
      else load_encryption_key raw)"

section \<open>Sealing\<close>

definition gcmNonceSize :: nat where "gcmNonceSize = 12"

record sealer =
  sl_key :: "byte list"
  sl_seal :: "byte list \<Rightarrow> byte list \<Rightarrow> byte list \<Rightarrow> byte list"
  sl_open :: "byte list \<Rightarrow> byte list \<Rightarrow> byte list \<Rightarrow> byte list option"

definition key_fits :: "sealer \<Rightarrow> bool" where
  "key_fits K \<longleftrightarrow> length (sl_key K) \<in> {16, 24, 32}"

definition seal :: "sealer \<Rightarrow> 'e \<Rightarrow> string \<Rightarrow> ('x env_scheme, 'e, string) prog" where
  "seal K e w =
     (if w = [] then ret []
      else if \<not> key_fits K then throw e
      else
      bindE (generate_random e (8 * gcmNonceSize)) (\<lambda>nonce.
      ret (std_encode (nonce @ sl_seal K (sl_key K) nonce (to_bytes w)))))"

definition unseal :: "sealer \<Rightarrow> string \<Rightarrow> string option" where
  "unseal K w =
     (if w = [] then Some []
      else if \<not> key_fits K then None
      else (case std_decode w of
         None \<Rightarrow> None
       | Some raw \<Rightarrow>
           if length raw < gcmNonceSize then None
           else map_option of_bytes (sl_open K (sl_key K) (take gcmNonceSize raw) (drop gcmNonceSize raw))))"

text \<open>What AES-GCM promises: the text comes back under the key and the nonce it was sealed with.\<close>

definition opens :: "sealer \<Rightarrow> bool" where
  "opens K \<longleftrightarrow> (\<forall>k n w. sl_open K k n (sl_seal K k n w) = Some w)"

lemma seal_unseal:
  assumes "opens K" and "seal K e w s = (Inr c, t)"
  shows "unseal K c = Some w \<and> (w = [] \<longleftrightarrow> c = [])"
proof (cases "w = []")
  case True
  with assms(2) show ?thesis by (simp add: seal_def unseal_def)
next
  case False
  with assms(2) obtain n u where k: "key_fits K" and r: "generate_random e (8 * gcmNonceSize) s = (Inr n, u)"
    and c: "c = std_encode (n @ sl_seal K (sl_key K) n (to_bytes w))"
    by (auto simp: seal_def bindE_run split: prod.splits sum.splits if_splits)
  have l: "length n = gcmNonceSize" using generate_random_Inr [OF r] by simp
  have "n @ x \<noteq> []" for x using l by (auto simp: gcmNonceSize_def)
  moreover have "encode64 b \<noteq> []" if "b \<noteq> []" for b using that by (cases b rule: encode64.cases) auto
  ultimately have "c \<noteq> []" unfolding c std_encode_def by blast
  with False assms(1) k l show ?thesis
    by (simp add: unseal_def c std_round_trip opens_def of_bytes_to_bytes)
qed

lemma sealer_key_length: "new_sealer_key environment raw = Some k \<Longrightarrow> length k = 32"
  by (auto simp: new_sealer_key_def load_encryption_key_def sized_def devEncryptionKey_def to_bytes_def
      split: if_splits option.splits)

end
