(* ===== verification/AuthCache.thy ===== *)
theory AuthCache
  imports TokenRuns Secrets
begin

text \<open>
  What the interactive endpoints share: the client of the cache (\<open>cache/valkey.go\<close>, the commands sent
  to Valkey), the values they keep in it, the requests, the queries they build with \<open>net/url\<close>, and
  the state, which is that of the token endpoint with the cache, the TOTP table and the mails sent.
  The text of a mail is left out; a mail that is sent in the background is sent at once.
\<close>

section \<open>The state\<close>

record terms_payload =
  tp_user :: string
  tp_device :: string
  tp_ip :: string
  tp_agent :: string
  tp_continue :: string
  tp_reaccept :: bool

record mfa_payload =
  mp_user :: string
  mp_device :: string
  mp_ip :: string
  mp_agent :: string
  mp_primary_amr :: string

text \<open>The JSON values of the cache, by the type they are read back with.\<close>

datatype cache_val = TermsV terms_payload | MfaV mfa_payload | TextV string | CountV int

fun terms_of :: "cache_val \<Rightarrow> terms_payload option" where
  "terms_of (TermsV p) = Some p"
| "terms_of _ = None"

fun mfa_of :: "cache_val \<Rightarrow> mfa_payload option" where
  "mfa_of (MfaV p) = Some p"
| "mfa_of _ = None"

fun text_of :: "cache_val \<Rightarrow> string option" where
  "text_of (TextV p) = Some p"
| "text_of _ = None"

text \<open>A row of the second factors; an attribute that the row may lack is an option.\<close>

record totp_row =
  to_pk :: string
  to_sk :: string
  to_secret :: string
  to_verified :: "bool option"
  to_backup_codes :: "string list"
  to_version :: "int option"
  to_created_at :: stamp

datatype auth_mail =
    VerificationMail string string string
  | PasswordResetMail string string string
  | AccountExistsMail string string
  | NewDeviceMail string string string string string string

record auth_world = oauth_world +
  aw_cache :: "(string, cache_val \<times> time option) table"
  aw_totp :: "(key, totp_row) table"
  aw_mails :: "auth_mail list"

datatype cache_err = CacheMiss | CacheFail | CacheRandom

type_synonym ('v, 'a) cache_prog = "('v auth_world_scheme del_db, cache_err, 'a) prog"
type_synonym ('v, 'a) auth_handler = "('v auth_world_scheme del_db, problem \<times> bool, 'a) prog"

section \<open>The cache\<close>

text \<open>A key without an expiry stays; a key with one is gone once the instant has passed.\<close>

definition live_val :: "(string, cache_val \<times> time option) table \<Rightarrow> string \<Rightarrow> time \<Rightarrow> cache_val option" where
  "live_val tb k n = (case tget tb k of
       None \<Rightarrow> None
     | Some (v, e) \<Rightarrow> (case e of None \<Rightarrow> Some v | Some t \<Rightarrow> if n > t then None else Some v))"

definition cache_set :: "bool \<Rightarrow> string \<Rightarrow> cache_val \<Rightarrow> time \<Rightarrow> ('v, unit) cache_prog" where
  "cache_set on k v ttl =
     (if \<not> on then ret ()
      else bindE now (\<lambda>n. db_write CacheFail (world_update (aw_cache_update (tput k (v, Some (n + ttl)))))))"

definition decoded :: "(cache_val \<Rightarrow> 'b option) \<Rightarrow> cache_val option \<Rightarrow> ('v, 'b) cache_prog" where
  "decoded dec r = (case r of
       None \<Rightarrow> throw CacheMiss
     | Some v \<Rightarrow> (case dec v of None \<Rightarrow> throw CacheFail | Some x \<Rightarrow> ret x))"

definition cache_get :: "bool \<Rightarrow> string \<Rightarrow> (cache_val \<Rightarrow> 'b option) \<Rightarrow> ('v, 'b) cache_prog" where
  "cache_get on k dec =
     (if \<not> on then throw CacheMiss
      else bindE (db_read CacheFail (\<lambda>s. live_val (aw_cache (world s)) k (clock s))) (decoded dec))"

definition cache_get_del :: "bool \<Rightarrow> string \<Rightarrow> (cache_val \<Rightarrow> 'b option) \<Rightarrow> ('v, 'b) cache_prog" where
  "cache_get_del on k dec =
     (if \<not> on then throw CacheMiss
      else bindE (db_take CacheFail (\<lambda>s. live_val (aw_cache (world s)) k (clock s))
             (world_update (aw_cache_update (tdel k)))) (decoded dec))"

definition cache_delete :: "bool \<Rightarrow> string \<Rightarrow> ('v, unit) cache_prog" where
  "cache_delete on k =
     (if \<not> on then ret () else db_write CacheFail (world_update (aw_cache_update (tdel k))))"

text \<open>\<open>Incr\<close> sends \<open>SET key 0 NX EX ttl\<close> and then \<open>INCR key\<close>, which keeps the expiry.\<close>

definition seed :: "string \<Rightarrow> time \<Rightarrow> time \<Rightarrow> 'v auth_world_scheme \<Rightarrow> 'v auth_world_scheme" where
  "seed k n ttl w = (case live_val (aw_cache w) k n of
       Some _ \<Rightarrow> w
     | None \<Rightarrow> aw_cache_update (tput k (CountV 0, Some (n + ttl))) w)"

definition bumped :: "(string, cache_val \<times> time option) table \<Rightarrow> string \<Rightarrow> time \<Rightarrow> (int \<times> time option) option" where
  "bumped tb k n = (case live_val tb k n of
       None \<Rightarrow> Some (1, None)
     | Some (CountV c) \<Rightarrow> Some (c + 1, snd (the (tget tb k)))
     | Some _ \<Rightarrow> None)"

definition bump :: "string \<Rightarrow> time \<Rightarrow> 'v auth_world_scheme \<Rightarrow> 'v auth_world_scheme" where
  "bump k n w = (case bumped (aw_cache w) k n of
       None \<Rightarrow> w
     | Some (c, e) \<Rightarrow> aw_cache_update (tput k (CountV c, e)) w)"

definition cache_incr :: "bool \<Rightarrow> string \<Rightarrow> time \<Rightarrow> ('v, int) cache_prog" where
  "cache_incr on k ttl =
     (if \<not> on then ret 0
      else bindE now (\<lambda>n.
      bindE (db_write CacheFail (world_update (seed k n ttl))) (\<lambda>_.
      bindE (db_take CacheFail (\<lambda>s. bumped (aw_cache (world s)) k n) (world_update (bump k n))) (\<lambda>r. case r of
        None \<Rightarrow> throw CacheFail
      | Some (c, _) \<Rightarrow> ret c))))"

section \<open>Requests, answers and the audit trail\<close>

record auth_request =
  ar_query :: "string \<Rightarrow> string"
  ar_url :: string
  ar_cookie :: "string \<Rightarrow> string"
  ar_host :: string
  ar_raw_ip :: string
  ar_agent :: string

record auth_conf =
  au_tokens :: token_conf
  au_app_url :: string
  au_api_url :: string
  au_origins :: "string list"
  au_url_string :: "url \<Rightarrow> string"
  au_geo :: "string \<Rightarrow> geo_data"
  au_dummy :: string
  au_mail :: bool

definition au_sha :: "auth_conf \<Rightarrow> string \<Rightarrow> byte list" where "au_sha A = tc_sha (au_tokens A)"
definition au_cache :: "auth_conf \<Rightarrow> bool" where "au_cache A = tc_cache (au_tokens A)"

text \<open>\<open>utils.IP\<close>: the first address of the chain.\<close>

definition client_ip :: "auth_request \<Rightarrow> string" where
  "client_ip q = trim_space (takeWhile (\<lambda>c. c \<noteq> CHR '','') (ar_raw_ip q))"

definition record_audit :: "auth_request \<Rightarrow> string \<Rightarrow> string \<Rightarrow> (string \<times> string) list \<Rightarrow> ('v, unit) auth_handler" where
  "record_audit q uid ty meta = record_event \<lparr>ev_user = uid, ev_anon_ip = [], ev_type = ty, ev_ip = client_ip q,
     ev_agent = ar_agent q, ev_meta = meta\<rparr>"

definition record_audit_anon :: "auth_request \<Rightarrow> string \<Rightarrow> (string \<times> string) list \<Rightarrow> ('v, unit) auth_handler" where
  "record_audit_anon q ty meta = record_event \<lparr>ev_user = [], ev_anon_ip = client_ip q, ev_type = ty, ev_ip = client_ip q,
     ev_agent = ar_agent q, ev_meta = meta\<rparr>"

definition post_mail :: "auth_mail \<Rightarrow> ('v, unit) auth_handler" where
  "post_mail m = modify (world_update (aw_mails_update (\<lambda>l. l @ [m])))"

section \<open>Queries\<close>

definition unreserved :: "char \<Rightarrow> bool" where
  "unreserved c \<longleftrightarrow> (let n = of_char c :: nat in
     48 \<le> n \<and> n \<le> 57 \<or> 65 \<le> n \<and> n \<le> 90 \<or> 97 \<le> n \<and> n \<le> 122) \<or> c \<in> set ''-_.~''"

definition upper_hex :: "nat \<Rightarrow> char" where
  "upper_hex d = ''0123456789ABCDEF'' ! d"

definition escape_char :: "char \<Rightarrow> string" where
  "escape_char c =
     (if unreserved c then [c]
      else if c = CHR '' '' then ''+''
      else [CHR ''%'', upper_hex (of_char c div 16), upper_hex (of_char c mod 16)])"

text \<open>\<open>url.QueryEscape\<close> and \<open>url.Values.Encode\<close>.\<close>

definition query_escape :: "string \<Rightarrow> string" where
  "query_escape s = concat (map escape_char s)"

definition join_amp :: "string list \<Rightarrow> string" where
  "join_amp ss = (case ss of [] \<Rightarrow> [] | s # r \<Rightarrow> s @ concat (map (\<lambda>t. CHR ''&'' # t) r))"

definition encode_values :: "(string \<times> string) list \<Rightarrow> string" where
  "encode_values kvs = join_amp (map (\<lambda>(k, v). query_escape k @ ''='' @ query_escape v) (sort_key fst kvs))"

text \<open>\<open>url.QueryUnescape\<close>.\<close>

fun query_unescape :: "string \<Rightarrow> string option" where
  "query_unescape [] = Some []"
| "query_unescape (c # s) =
     (if c = CHR ''%'' then
        (case s of
           a # b # r \<Rightarrow> (case (hex_digit a, hex_digit b) of
               (Some x, Some y) \<Rightarrow> map_option ((#) (char_of (x * 16 + y))) (query_unescape r)
             | _ \<Rightarrow> None)
         | _ \<Rightarrow> None)
      else map_option ((#) (if c = CHR ''+'' then CHR '' '' else c)) (query_unescape s))"

text \<open>\<open>url.ParseQuery\<close>: pairs with a semicolon or a bad escape are dropped.\<close>

definition parse_pair :: "string \<Rightarrow> (string \<times> string) option" where
  "parse_pair w =
     (if w = [] \<or> CHR '';'' \<in> set w then None
      else case (query_unescape (takeWhile (\<lambda>c. c \<noteq> CHR ''='') w), query_unescape (drop 1 (dropWhile (\<lambda>c. c \<noteq> CHR ''='') w))) of
        (Some k, Some v) \<Rightarrow> Some (k, v)
      | _ \<Rightarrow> None)"

definition query_get :: "string \<Rightarrow> string \<Rightarrow> string" where
  "query_get raw k = (case map_of (List.map_filter parse_pair (split_on (CHR ''&'') raw)) k of None \<Rightarrow> [] | Some v \<Rightarrow> v)"

text \<open>\<open>base64.RawURLEncoding\<close>.\<close>

definition raw_url_decode :: "string \<Rightarrow> byte list option" where
  "raw_url_decode s =
     (if CHR ''+'' \<in> set s \<or> CHR ''/'' \<in> set s then None
      else decode64 (map (\<lambda>c. if c = CHR ''-'' then CHR ''+'' else if c = CHR ''_'' then CHR ''/'' else c) s))"

definition with_state :: "string \<Rightarrow> string" where
  "with_state st = (if st = [] then [] else ''&state='' @ query_escape st)"

end
