(* ===== verification/Totp.thy ===== *)
theory Totp
  imports AuthCache
begin

text \<open>
  The second factor: enrolment, verification and backup codes (\<open>domain/mfa/totp\<close>) and its pages
  (\<open>handler/mfa.go\<close>). The check of a passcode and the generation of a key are those of the library
  \<open>pquerna/otp\<close>, hence parameters; the key a row keeps is sealed. An update of DynamoDB writes a row
  that is not there, with the attributes of the update only.
\<close>

section \<open>The data\<close>

datatype totp_err = ErrTotpNotFound | ErrAlreadyVerified | ErrInvalidCode | TotpMoved | TotpInfra | TotpRandom
  | TotpPassword pw_err

type_synonym ('v, 'a) totp_prog = "('v auth_world_scheme del_db, totp_err, 'a) prog"

text \<open>\<open>tl_validate\<close> checks six digits against a key at an instant, one period of skew allowed;
  \<open>None\<close> is its error. \<open>tl_generate\<close> makes a key and its address from an issuer, an account and
  random bytes.\<close>

record totp_lib =
  tl_sealer :: sealer
  tl_validate :: "string \<Rightarrow> string \<Rightarrow> time \<Rightarrow> bool option"
  tl_generate :: "string \<Rightarrow> string \<Rightarrow> byte list \<Rightarrow> (string \<times> string) option"
  tl_issuer :: string

record totp_secret =
  tt_pk :: string
  tt_sk :: string
  tt_encrypted :: string
  tt_secret :: string
  tt_verified :: bool
  tt_backup_codes :: "string list"
  tt_version :: int
  tt_created_at :: stamp

definition build_totp_sk :: string where "build_totp_sk = ''TOTP_default''"

definition totp_user_id :: "totp_secret \<Rightarrow> string" where
  "totp_user_id sec = trim_prefix (tt_pk sec) ''USER_''"

definition totp_key :: "string \<Rightarrow> key" where
  "totp_key uid = (build_pk uid, build_totp_sk)"

section \<open>The repository\<close>

definition totp_to_row :: "string \<Rightarrow> totp_secret \<Rightarrow> totp_row" where
  "totp_to_row enc sec = \<lparr>to_pk = tt_pk sec, to_sk = tt_sk sec, to_secret = enc, to_verified = Some (tt_verified sec),
     to_backup_codes = tt_backup_codes sec, to_version = Some (tt_version sec), to_created_at = tt_created_at sec\<rparr>"

text \<open>A key that cannot be opened is taken as it is stored.\<close>

definition totp_of_row :: "sealer \<Rightarrow> totp_row \<Rightarrow> totp_secret" where
  "totp_of_row K r = \<lparr>tt_pk = to_pk r, tt_sk = to_sk r, tt_encrypted = to_secret r,
     tt_secret = (case unseal K (to_secret r) of Some w \<Rightarrow> w | None \<Rightarrow> to_secret r),
     tt_verified = (case to_verified r of Some b \<Rightarrow> b | None \<Rightarrow> False), tt_backup_codes = to_backup_codes r,
     tt_version = (case to_version r of Some v \<Rightarrow> v | None \<Rightarrow> 0), tt_created_at = to_created_at r\<rparr>"

definition repo_totp_create :: "sealer \<Rightarrow> totp_secret \<Rightarrow> ('v, unit) totp_prog" where
  "repo_totp_create K sec =
     bindE (seal K TotpRandom (tt_secret sec)) (\<lambda>enc.
     db_write TotpInfra (world_update (aw_totp_update (tput (tt_pk sec, tt_sk sec) (totp_to_row enc sec)))))"

definition totp_found :: "sealer \<Rightarrow> totp_row option \<Rightarrow> ('v, totp_secret) totp_prog" where
  "totp_found K r = (case r of None \<Rightarrow> throw ErrTotpNotFound | Some x \<Rightarrow> ret (totp_of_row K x))"

definition totp_get :: "sealer \<Rightarrow> string \<Rightarrow> ('v, totp_secret) totp_prog" where
  "totp_get K uid = bindE (db_read TotpInfra (\<lambda>s. tget (aw_totp (world s)) (totp_key uid))) (totp_found K)"

definition empty_totp_row :: "string \<Rightarrow> totp_row" where
  "empty_totp_row uid = \<lparr>to_pk = build_pk uid, to_sk = build_totp_sk, to_secret = [], to_verified = None,
     to_backup_codes = [], to_version = None, to_created_at = None\<rparr>"

definition totp_row_at :: "string \<Rightarrow> (key, totp_row) table \<Rightarrow> totp_row" where
  "totp_row_at uid tb = (case tget tb (totp_key uid) of Some r \<Rightarrow> r | None \<Rightarrow> empty_totp_row uid)"

definition totp_change :: "string \<Rightarrow> (totp_row \<Rightarrow> totp_row) \<Rightarrow> 'v auth_world_scheme \<Rightarrow> 'v auth_world_scheme" where
  "totp_change uid f = aw_totp_update (\<lambda>tb. tput (totp_key uid) (f (totp_row_at uid tb)) tb)"

text \<open>A conditional update says whether it was applied.\<close>

definition totp_update_if :: "string \<Rightarrow> (totp_row \<Rightarrow> bool) \<Rightarrow> (totp_row \<Rightarrow> totp_row) \<Rightarrow> ('v, bool) totp_prog" where
  "totp_update_if uid c f =
     bindE (tryE (db_cond TotpInfra TotpMoved (\<lambda>s. c (totp_row_at uid (aw_totp (world s)))) (world_update (totp_change uid f))))
       (\<lambda>r. case r of Inr _ \<Rightarrow> ret True | Inl e \<Rightarrow> if e = TotpMoved then ret False else throw e)"

definition confirm_totp :: "string \<Rightarrow> string list \<Rightarrow> ('v, bool) totp_prog" where
  "confirm_totp uid bcs = totp_update_if uid (\<lambda>r. to_verified r = None \<or> to_verified r = Some False)
     (\<lambda>r. r\<lparr>to_verified := Some True, to_backup_codes := bcs\<rparr>)"

definition consume_backup_code :: "string \<Rightarrow> string list \<Rightarrow> int \<Rightarrow> ('v, bool) totp_prog" where
  "consume_backup_code uid remaining v = totp_update_if uid (\<lambda>r. to_version r = None \<or> to_version r = Some v)
     (\<lambda>r. r\<lparr>to_backup_codes := remaining, to_version := Some (v + 1)\<rparr>)"

definition replace_backup_codes :: "string \<Rightarrow> string list \<Rightarrow> ('v, unit) totp_prog" where
  "replace_backup_codes uid bcs = db_write TotpInfra (world_update (totp_change uid (to_backup_codes_update (\<lambda>_. bcs))))"

definition repo_totp_remove :: "string \<Rightarrow> ('v, unit) totp_prog" where
  "repo_totp_remove uid = db_write TotpInfra (world_update (aw_totp_update (tdel (totp_key uid))))"

section \<open>The service\<close>

definition totp_generate :: "totp_lib \<Rightarrow> string \<Rightarrow> string \<Rightarrow> ('v, totp_secret \<times> string) totp_prog" where
  "totp_generate L uid account =
     bindE (generate_random TotpRandom 160) (\<lambda>b.
     case tl_generate L (tl_issuer L) account b of
       None \<Rightarrow> throw TotpRandom
     | Some (w, url) \<Rightarrow>
     bindE now (\<lambda>n.
     let sec = \<lparr>tt_pk = build_pk uid, tt_sk = build_totp_sk, tt_encrypted = [], tt_secret = w, tt_verified = False,
           tt_backup_codes = [], tt_version = 0, tt_created_at = ts n\<rparr>
     in bindE (repo_totp_create (tl_sealer L) sec) (\<lambda>_. ret (sec, url))))"

definition fresh_code :: "(string \<Rightarrow> byte list) \<Rightarrow> argon2id \<Rightarrow> ('v, string \<times> string) totp_prog" where
  "fresh_code sha argon =
     bindE (generate_code sha TotpRandom) (\<lambda>(raw, _).
     bindE (mapErr TotpPassword (hash_password argon raw)) (\<lambda>h. ret (raw, h)))"

fun fresh_codes :: "(string \<Rightarrow> byte list) \<Rightarrow> argon2id \<Rightarrow> nat \<Rightarrow> ('v, string list \<times> string list) totp_prog" where
  "fresh_codes sha argon 0 = ret ([], [])"
| "fresh_codes sha argon (Suc n) =
     bindE (fresh_code sha argon) (\<lambda>(raw, h).
     bindE (fresh_codes sha argon n) (\<lambda>(raws, hs). ret (raw # raws, h # hs)))"

definition totp_verify :: "totp_lib \<Rightarrow> (string \<Rightarrow> byte list) \<Rightarrow> argon2id \<Rightarrow> string \<Rightarrow> string \<Rightarrow> ('v, string list) totp_prog" where
  "totp_verify L sha argon uid code =
     bindE (totp_get (tl_sealer L) uid) (\<lambda>sec.
     if tt_verified sec then throw ErrAlreadyVerified
     else
     bindE now (\<lambda>n.
     if tl_validate L code (tt_secret sec) n \<noteq> Some True then throw ErrInvalidCode
     else
     bindE (fresh_codes sha argon 10) (\<lambda>(raws, hs).
     bindE (confirm_totp uid hs) (\<lambda>applied. ret (if applied then raws else [])))))"

text \<open>The first backup code whose hash the passcode fits; a hash that cannot be read is skipped.\<close>

fun backup_index :: "argon2id \<Rightarrow> string \<Rightarrow> string list \<Rightarrow> pw_err + nat option" where
  "backup_index argon code [] = Inr None"
| "backup_index argon code (h # hs) =
     (case verify_password argon code h of
        Inl e \<Rightarrow> if e = PwPanic then Inl e else map_sum id (map_option Suc) (backup_index argon code hs)
      | Inr ok \<Rightarrow> if ok then Inr (Some 0) else map_sum id (map_option Suc) (backup_index argon code hs))"

definition validate_backup_code :: "argon2id \<Rightarrow> totp_secret \<Rightarrow> string \<Rightarrow> string \<Rightarrow> ('v, bool) totp_prog" where
  "validate_backup_code argon sec uid code =
     (case backup_index argon code (tt_backup_codes sec) of
        Inl e \<Rightarrow> throw (TotpPassword e)
      | Inr None \<Rightarrow> ret False
      | Inr (Some i) \<Rightarrow> consume_backup_code uid (take i (tt_backup_codes sec) @ drop (Suc i) (tt_backup_codes sec)) (tt_version sec))"

definition check_passcode :: "totp_lib \<Rightarrow> argon2id \<Rightarrow> string \<Rightarrow> string \<Rightarrow> totp_secret \<Rightarrow> ('v, bool) totp_prog" where
  "check_passcode L argon uid code sec =
     bindE now (\<lambda>n. case tl_validate L code (tt_secret sec) n of
       None \<Rightarrow> ret False
     | Some ok \<Rightarrow> if ok then ret True else validate_backup_code argon sec uid code)"

definition totp_validate :: "totp_lib \<Rightarrow> argon2id \<Rightarrow> string \<Rightarrow> string \<Rightarrow> ('v, bool) totp_prog" where
  "totp_validate L argon uid code =
     bindE (tryE (totp_get (tl_sealer L) uid)) (\<lambda>r. case r of
       Inl e \<Rightarrow> if e = ErrTotpNotFound then ret False else throw e
     | Inr sec \<Rightarrow> if \<not> tt_verified sec then ret False else check_passcode L argon uid code sec)"

definition totp_regenerate :: "totp_lib \<Rightarrow> (string \<Rightarrow> byte list) \<Rightarrow> argon2id \<Rightarrow> string \<Rightarrow> ('v, string list) totp_prog" where
  "totp_regenerate L sha argon uid =
     bindE (totp_get (tl_sealer L) uid) (\<lambda>sec.
     if \<not> tt_verified sec then throw ErrTotpNotFound
     else
     bindE (fresh_codes sha argon 10) (\<lambda>(raws, hs).
     bindE (replace_backup_codes uid hs) (\<lambda>_. ret raws)))"

definition totp_remove :: "string \<Rightarrow> ('v, unit) totp_prog" where
  "totp_remove uid = repo_totp_remove uid"

section \<open>The pages\<close>

definition EventTOTPEnabled :: string where "EventTOTPEnabled = ''totp.enabled''"
definition EventTOTPDisabled :: string where "EventTOTPDisabled = ''totp.disabled''"
definition EventBackupCodesRegen :: string where "EventBackupCodesRegen = ''backup_codes.regenerated''"

definition totp_status :: "totp_lib \<Rightarrow> string \<Rightarrow> ('v, bool) auth_handler" where
  "totp_status L uid =
     bindE (tryE (totp_get (tl_sealer L) uid)) (\<lambda>r. case r of
       Inl e \<Rightarrow> if e = ErrTotpNotFound then ret False else refuse ServerError
     | Inr sec \<Rightarrow> ret (tt_verified sec))"

definition start_setup :: "totp_lib \<Rightarrow> string \<Rightarrow> ('v, string) auth_handler" where
  "start_setup L uid =
     bindE (mapErr (\<lambda>e. (if e = ErrUserNotFound then NotFound else ServerError, True)) (user_get_by_id uid)) (\<lambda>u.
     bindE (or_500 (totp_generate L uid (u_email u))) (\<lambda>(_, url). ret url))"

definition totp_setup :: "totp_lib \<Rightarrow> string \<Rightarrow> ('v, string) auth_handler" where
  "totp_setup L uid =
     bindE (tryE (totp_get (tl_sealer L) uid)) (\<lambda>r. case r of
       Inr sec \<Rightarrow> if tt_verified sec then refuse Conflict else start_setup L uid
     | Inl e \<Rightarrow> if e = ErrTotpNotFound then start_setup L uid else refuse ServerError)"

fun confirm_problem :: "totp_err \<Rightarrow> problem \<times> bool" where
  "confirm_problem ErrTotpNotFound = (NotFound, True)"
| "confirm_problem ErrAlreadyVerified = (Conflict, True)"
| "confirm_problem ErrInvalidCode = (Unauthorized, True)"
| "confirm_problem _ = (ServerError, True)"

definition totp_confirm :: "auth_conf \<Rightarrow> totp_lib \<Rightarrow> auth_request \<Rightarrow> string \<Rightarrow> string \<Rightarrow> ('v, string list) auth_handler" where
  "totp_confirm A L q uid code =
     bindE (mapErr confirm_problem (totp_verify L (au_sha A) (tc_argon (au_tokens A)) uid code)) (\<lambda>bcs.
     bindE (record_audit q uid EventTOTPEnabled []) (\<lambda>_. ret bcs))"

definition totp_disable :: "auth_request \<Rightarrow> string \<Rightarrow> ('v, unit) auth_handler" where
  "totp_disable q uid =
     bindE (or_500 (totp_remove uid)) (\<lambda>_. record_audit q uid EventTOTPDisabled [])"

definition totp_new_codes :: "auth_conf \<Rightarrow> totp_lib \<Rightarrow> auth_request \<Rightarrow> string \<Rightarrow> ('v, string list) auth_handler" where
  "totp_new_codes A L q uid =
     bindE (mapErr (\<lambda>e. (if e = ErrTotpNotFound then NotFound else ServerError, True))
       (totp_regenerate L (au_sha A) (tc_argon (au_tokens A)) uid)) (\<lambda>bcs.
     bindE (record_audit q uid EventBackupCodesRegen []) (\<lambda>_. ret bcs))"

end
