(* ===== verification/Authorize.thy ===== *)
theory Authorize
  imports AuthCache
begin

text \<open>
  The authorize endpoint (\<open>handler/authorize.go\<close>), the re-acceptance of the terms
  (\<open>handler/terms.go\<close>) and the list of connected applications (\<open>handler/consents.go\<close>). The answer of
  the authorize endpoint is the address it redirects to, with the cookies it sets. The result of
  \<open>url.Parse\<close> and the text of a URL are parameters.
\<close>

section \<open>Terms\<close>

definition acceptTermsTokenTTL :: time where "acceptTermsTokenTTL = 10 * minute"
definition termsTokenCachePrefix :: string where "termsTokenCachePrefix = ''terms_token:''"
definition acceptTermsPath :: string where "acceptTermsPath = ''/accept-terms''"
definition acceptMethodGoogle :: string where "acceptMethodGoogle = ''google''"
definition acceptMethodReaccept :: string where "acceptMethodReaccept = ''reaccept''"
definition acceptMethodInApp :: string where "acceptMethodInApp = ''in-app''"
definition EventTermsAccepted :: string where "EventTermsAccepted = ''auth.terms_accepted''"

definition mint_accept_terms_url :: "auth_conf \<Rightarrow> terms_payload \<Rightarrow> pending_terms \<Rightarrow> ('v, string) cache_prog" where
  "mint_accept_terms_url A p pend =
     bindE (generate_mfa_token (au_sha A) CacheRandom) (\<lambda>(raw, h).
     bindE (cache_set (au_cache A) (termsTokenCachePrefix @ h) (TermsV p) acceptTermsTokenTTL) (\<lambda>_.
     ret (au_app_url A @ acceptTermsPath @ ''?'' @ encode_values ((''token'', raw) #
       (if pt_tos pend then [(''tos'', ''1'')] else []) @ (if pt_privacy pend then [(''privacy'', ''1'')] else [])))))"

definition accepted_meta :: "string \<Rightarrow> pending_terms \<Rightarrow> (string \<times> string) list" where
  "accepted_meta m pend = (''method'', m) # (if pt_tos pend then [(''tos_version'', CurrentToSVersion)] else []) @
     (if pt_privacy pend then [(''privacy_version'', CurrentPrivacyVersion)] else [])"

definition accept_pending_terms :: "auth_request \<Rightarrow> user \<Rightarrow> bool \<Rightarrow> bool \<Rightarrow> string \<Rightarrow> ('v, unit) auth_handler" where
  "accept_pending_terms q u tos privacy m =
     (let pend = pending_for (u_tos_version u) (u_privacy_version u) in
      if \<not> pending_any pend then ret ()
      else if (pt_tos pend \<and> \<not> tos) \<or> (pt_privacy pend \<and> \<not> privacy) then refuse ValidationFailed
      else
      bindE (or_500 (accept_terms (user_id u) (pt_tos pend) (pt_privacy pend))) (\<lambda>_.
      record_audit q (user_id u) EventTermsAccepted (accepted_meta m pend)))"

definition load_user :: "string \<Rightarrow> ('v, user) auth_handler" where
  "load_user uid = mapErr (\<lambda>e. (if e = ErrUserNotFound then NotFound else ServerError, True)) (user_get_by_id uid)"

definition terms_accept :: "auth_request \<Rightarrow> string \<Rightarrow> bool \<Rightarrow> bool \<Rightarrow> ('v, pending_terms) auth_handler" where
  "terms_accept q uid tos privacy =
     bindE (load_user uid) (\<lambda>u.
     bindE (accept_pending_terms q u tos privacy acceptMethodInApp) (\<lambda>_.
     bindE (or_500 (user_get_by_id uid)) (\<lambda>v.
     ret (pending_for (u_tos_version v) (u_privacy_version v)))))"

section \<open>Connected applications\<close>

definition EventConsentRevoked :: string where "EventConsentRevoked = ''consent.revoked''"

text \<open>One grant for the page: the client's name where it can be read, its id otherwise.\<close>

definition consent_view :: "consent_grant \<Rightarrow> ('v, string \<times> string \<times> string list \<times> stamp \<times> stamp) auth_handler" where
  "consent_view g =
     bindE (tryE (client_get_by_id (consent_client_id g))) (\<lambda>r.
     ret (consent_client_id g, case r of Inr c \<Rightarrow> cl_name c | Inl _ \<Rightarrow> consent_client_id g, cg_scopes g, cg_created_at g, cg_updated_at g))"

fun view_all :: "consent_grant list \<Rightarrow> ('v, (string \<times> string \<times> string list \<times> stamp \<times> stamp) list) auth_handler" where
  "view_all [] = ret []"
| "view_all (g # gs) = bindE (consent_view g) (\<lambda>x. bindE (view_all gs) (\<lambda>xs. ret (x # xs)))"

definition consents_list :: "string \<Rightarrow> ('v, (string \<times> string \<times> string list \<times> stamp \<times> stamp) list) auth_handler" where
  "consents_list uid = bindE (or_500 (list_consents uid)) view_all"

definition consents_revoke :: "auth_request \<Rightarrow> string \<Rightarrow> string \<Rightarrow> ('v, unit) auth_handler" where
  "consents_revoke q uid cid =
     bindE (or_500 (revoke_consent uid cid)) (\<lambda>_. record_audit q uid EventConsentRevoked [(''client_id'', cid)])"

section \<open>Authorize\<close>

definition maxAgeGraceSeconds :: int where "maxAgeGraceSeconds = 60"

definition wrap64 :: "int \<Rightarrow> int" where
  "wrap64 x = (x + 2 ^ 63) mod 2 ^ 64 - 2 ^ 63"

text \<open>\<open>strconv.ParseInt(raw, 10, 64)\<close>.\<close>

definition parse_int64 :: "string \<Rightarrow> int option" where
  "parse_int64 s =
     (let neg = (s \<noteq> [] \<and> hd s = CHR ''-'');
          ds = (if s \<noteq> [] \<and> hd s \<in> set ''+-'' then tl s else s);
          n = foldl (\<lambda>a c. a * 10 + (of_char c - 48)) (0 :: int) ds;
          v = (if neg then - n else n)
      in if ds = [] \<or> \<not> list_all (\<lambda>c. c \<in> set ''0123456789'') ds \<or> v < - (2 ^ 63) \<or> 2 ^ 63 \<le> v then None else Some v)"

definition parse_max_age :: "string \<Rightarrow> int option" where
  "parse_max_age raw =
     (if raw = [] then None
      else case parse_int64 raw of None \<Rightarrow> None | Some v \<Rightarrow> if v < 0 then None else Some v)"

definition too_old :: "time \<Rightarrow> session \<Rightarrow> string \<Rightarrow> bool" where
  "too_old n sess raw = (case parse_max_age raw of
       None \<Rightarrow> False
     | Some m \<Rightarrow> wrap64 (unix n - se_auth_time sess) > wrap64 (m + maxAgeGraceSeconds))"

definition login_url :: "auth_conf \<Rightarrow> string \<Rightarrow> string" where
  "login_url A u = au_app_url A @ ''/login?continue='' @ raw_url_encode (to_bytes u)"

definition consent_url :: "auth_conf \<Rightarrow> string \<Rightarrow> string \<Rightarrow> string list \<Rightarrow> string" where
  "consent_url A u name ss = au_app_url A @ ''/consent?'' @ encode_values
     [(''req'', raw_url_encode (to_bytes u)), (''client_name'', name), (''scope'', join_space ss)]"

definition error_location :: "string \<Rightarrow> string \<Rightarrow> string \<Rightarrow> string \<Rightarrow> string" where
  "error_location uri st code desc =
     uri @ ''?error='' @ query_escape code @ ''&error_description='' @ query_escape desc @ with_state st"

type_synonym redirect = "string \<times> cookie list"

definition redirect_to :: "string \<Rightarrow> ('v, redirect) auth_handler" where
  "redirect_to l = ret (l, [])"

definition redirect_error :: "string \<Rightarrow> string \<Rightarrow> string \<Rightarrow> string \<Rightarrow> ('v, redirect) auth_handler" where
  "redirect_error uri st code desc = redirect_to (error_location uri st code desc)"

text \<open>The cookie that drops a session which is not valid any more.\<close>

definition drop_session_cookie :: "auth_conf \<Rightarrow> cookie" where
  "drop_session_cookie A = \<lparr>ck_name = sessionCookieName, ck_value = [], ck_http_only = False, ck_secure = False,
     ck_same_site = [], ck_path = ''/'', ck_domain = tc_cookie_domain (au_tokens A), ck_max_age = -1\<rparr>"

definition code_for :: "auth_request \<Rightarrow> session \<Rightarrow> string list \<Rightarrow> time \<Rightarrow> auth_code" where
  "code_for q sess ss n = \<lparr>ac_user_id = session_user_id sess, ac_session_id = session_id sess,
     ac_client_id = ar_query q ''client_id'', ac_redirect_uri = ar_query q ''redirect_uri'', ac_scopes = ss,
     ac_challenge = ar_query q ''code_challenge'', ac_method = ar_query q ''code_challenge_method'',
     ac_mfa_verified = False, ac_nonce = ar_query q ''nonce'', ac_created_at = ts n\<rparr>"

definition issue_code :: "auth_conf \<Rightarrow> auth_request \<Rightarrow> session \<Rightarrow> string list \<Rightarrow> ('v, redirect) auth_handler" where
  "issue_code A q sess ss =
     (let uri = ar_query q ''redirect_uri''; st = ar_query q ''state'' in
      bindE (tryE (generate_code (au_sha A) CacheRandom)) (\<lambda>g. case g of
        Inl _ \<Rightarrow> redirect_error uri st ''server_error'' ''failed to generate authorization code''
      | Inr (raw, h) \<Rightarrow>
      bindE now (\<lambda>n.
      bindE (tryE (code_store (au_cache A) h (code_for q sess ss n))) (\<lambda>r. case r of
        Inl _ \<Rightarrow> redirect_error uri st ''server_error'' ''failed to store authorization code''
      | Inr _ \<Rightarrow> redirect_to (uri @ ''?code='' @ query_escape raw @ with_state st)))))"

definition consent_gate :: "auth_conf \<Rightarrow> auth_request \<Rightarrow> oauth_client \<Rightarrow> session \<Rightarrow> string list \<Rightarrow> ('v, redirect) auth_handler" where
  "consent_gate A q c sess ss =
     (if cl_first_party c then issue_code A q sess ss
      else
      bindE (tryE (has_grant (session_user_id sess) (ar_query q ''client_id'') ss)) (\<lambda>r. case r of
        Inl _ \<Rightarrow> redirect_error (ar_query q ''redirect_uri'') (ar_query q ''state'') ''server_error'' ''failed to check consent''
      | Inr granted \<Rightarrow>
          if granted then issue_code A q sess ss
          else redirect_to (consent_url A (ar_url q) (cl_name c) ss)))"

definition terms_payload_for :: "auth_conf \<Rightarrow> auth_request \<Rightarrow> session \<Rightarrow> terms_payload" where
  "terms_payload_for A q sess = \<lparr>tp_user = session_user_id sess, tp_device = [], tp_ip = [], tp_agent = [],
     tp_continue = au_api_url A @ ar_url q, tp_reaccept = True\<rparr>"

definition ask_terms :: "auth_conf \<Rightarrow> auth_request \<Rightarrow> session \<Rightarrow> pending_terms \<Rightarrow> ('v, redirect) auth_handler" where
  "ask_terms A q sess pend =
     bindE (tryE (mint_accept_terms_url A (terms_payload_for A q sess) pend)) (\<lambda>m. case m of
       Inl _ \<Rightarrow> redirect_error (ar_query q ''redirect_uri'') (ar_query q ''state'') ''server_error'' ''failed to start terms acceptance''
     | Inr l \<Rightarrow> redirect_to l)"

definition terms_gate :: "auth_conf \<Rightarrow> auth_request \<Rightarrow> oauth_client \<Rightarrow> session \<Rightarrow> string list \<Rightarrow> ('v, redirect) auth_handler" where
  "terms_gate A q c sess ss =
     bindE (tryE (user_get_by_id (session_user_id sess))) (\<lambda>r. case r of
       Inl _ \<Rightarrow> redirect_error (ar_query q ''redirect_uri'') (ar_query q ''state'') ''server_error'' ''failed to load user''
     | Inr u \<Rightarrow>
       let pend = pending_for (u_tos_version u) (u_privacy_version u) in
       if pending_any pend then ask_terms A q sess pend else consent_gate A q c sess ss)"

definition session_gate :: "auth_conf \<Rightarrow> auth_request \<Rightarrow> oauth_client \<Rightarrow> string list \<Rightarrow> ('v, redirect) auth_handler" where
  "session_gate A q c ss =
     (let cookie = ar_cookie q sessionCookieName in
      if cookie = [] then redirect_to (login_url A (ar_url q))
      else
      bindE (tryE (validate_token (au_sha A) cookie)) (\<lambda>r. case r of
        Inl _ \<Rightarrow> ret (login_url A (ar_url q), [drop_session_cookie A])
      | Inr sess \<Rightarrow>
      bindE now (\<lambda>n.
      if too_old n sess (ar_query q ''max_age'') then redirect_to (login_url A (ar_url q))
      else terms_gate A q c sess ss)))"

text \<open>The checks whose failure is delivered to the redirect address.\<close>

definition request_error :: "auth_request \<Rightarrow> oauth_client \<Rightarrow> (string \<times> string) option" where
  "request_error q c =
     (if ar_query q ''response_type'' \<noteq> ''code'' then Some (''unsupported_response_type'', ''only response_type=code is supported'')
      else if ar_query q ''code_challenge'' \<noteq> [] \<and> ar_query q ''code_challenge_method'' \<noteq> ''S256'' then
        Some (''invalid_request'', ''only S256 code_challenge_method is supported'')
      else if filter_scopes c (OAuthTokens.fields (ar_query q ''scope'')) = [] then
        Some (''invalid_scope'', ''no valid scopes requested for this client'')
      else if is_public c \<and> ar_query q ''code_challenge'' = [] then
        Some (''invalid_request'', ''PKCE code_challenge is required for public clients'')
      else None)"

definition authorize :: "auth_conf \<Rightarrow> auth_request \<Rightarrow> ('v, redirect) auth_handler" where
  "authorize A q =
     (let cid = ar_query q ''client_id''; uri = ar_query q ''redirect_uri'' in
      if cid = [] \<or> uri = [] then refuse InvalidRequest
      else
      bindE (load_client cid) (\<lambda>c.
      if \<not> is_redirect_uri_allowed c uri then refuse InvalidRequest
      else (case request_error q c of
        Some (code, desc) \<Rightarrow> redirect_error uri (ar_query q ''state'') code desc
      | None \<Rightarrow> session_gate A q c (filter_scopes c (OAuthTokens.fields (ar_query q ''scope''))))))"

section \<open>The decision on the consent page\<close>

definition authorizeRequestPath :: string where "authorizeRequestPath = ''/v1.0/authorize''"
definition maxConsentReqLen :: nat where "maxConsentReqLen = 4096"

text \<open>The authorization request that the page sends back, as a parsed address.\<close>

definition consent_request :: "auth_conf \<Rightarrow> string \<Rightarrow> url option" where
  "consent_request A req =
     (case raw_url_decode req of
        None \<Rightarrow> None
      | Some b \<Rightarrow>
          if length b > maxConsentReqLen then None
          else (case nl_parse (tc_net (au_tokens A)) (of_bytes b) of
              None \<Rightarrow> None
            | Some u \<Rightarrow> if ul_path u \<noteq> authorizeRequestPath \<or> ul_host u \<noteq> [] then None else Some u))"

definition deny_url :: "string \<Rightarrow> string \<Rightarrow> string" where
  "deny_url uri st = uri @ ''?error=access_denied&error_description='' @
     query_escape ''the user denied the authorization request'' @ with_state st"

definition decide_consent :: "auth_conf \<Rightarrow> auth_request \<Rightarrow> session \<Rightarrow> url \<Rightarrow> bool \<Rightarrow> ('v, string) auth_handler" where
  "decide_consent A q sess u approved =
     (let get = query_get (ul_raw_query u); cid = get ''client_id''; uri = get ''redirect_uri'' in
      bindE (load_client cid) (\<lambda>c.
      if \<not> is_redirect_uri_allowed c uri then refuse InvalidRequest
      else if \<not> approved then ret (deny_url uri (get ''state''))
      else
      let ss = filter_scopes c (OAuthTokens.fields (get ''scope'')) in
      if ss = [] then refuse InvalidRequest
      else
      bindE (or_500 (grant_consent (session_user_id sess) cid ss)) (\<lambda>_.
      bindE (record_audit q (session_user_id sess) EventConsentGranted [(''client_id'', cid)]) (\<lambda>_.
      ret (au_api_url A @ au_url_string A u)))))"

definition consent_decision :: "auth_conf \<Rightarrow> auth_request \<Rightarrow> string \<Rightarrow> bool \<Rightarrow> ('v, string) auth_handler" where
  "consent_decision A q req approved =
     (let cookie = ar_cookie q sessionCookieName in
      if cookie = [] then refuse Unauthorized
      else
      bindE (mapErr (\<lambda>_. (Unauthorized, True)) (validate_token (au_sha A) cookie)) (\<lambda>sess.
      case consent_request A req of
        None \<Rightarrow> refuse InvalidRequest
      | Some u \<Rightarrow> decide_consent A q sess u approved))"

end
