(* ===== verification/Login.thy ===== *)
theory Login
  imports Totp Authorize
begin

text \<open>
  The sign-in handlers (\<open>handler/auth.go\<close>): registration, the password login with the hand-over to the
  second factor, logout, the links of an e-mail verification and of a password reset. A request is
  taken after \<open>parseBody\<close> has decoded and validated it, and the cache client exists, switched on or
  off. A program answers with what the page shows and the cookies it sets.
\<close>

section \<open>Events and limits\<close>

definition EventLoginSuccess :: string where "EventLoginSuccess = ''login.success''"
definition EventLoginFailed :: string where "EventLoginFailed = ''login.failed''"
definition EventLoginMFARequired :: string where "EventLoginMFARequired = ''login.mfa_required''"
definition EventMFAChallengeSuccess :: string where "EventMFAChallengeSuccess = ''mfa.challenge.success''"
definition EventMFAChallengeFailed :: string where "EventMFAChallengeFailed = ''mfa.challenge.failed''"
definition EventPasswordResetRequest :: string where "EventPasswordResetRequest = ''password.reset_requested''"
definition EventPasswordResetComplete :: string where "EventPasswordResetComplete = ''password.reset_completed''"
definition EventEmailVerified :: string where "EventEmailVerified = ''email.verified''"

definition mfaTokenTTL :: time where "mfaTokenTTL = 5 * minute"
definition mfaMaxAttempts :: int where "mfaMaxAttempts = 5"
definition emailVerifyTTL :: time where "emailVerifyTTL = 24 * hour"
definition passwordResetTTL :: time where "passwordResetTTL = 15 * minute"

definition AMRPassword :: string where "AMRPassword = ''pwd''"
definition AMRGoogle :: string where "AMRGoogle = ''google''"

section \<open>Helpers\<close>

fun contains :: "string \<Rightarrow> string \<Rightarrow> bool" where
  "contains [] w \<longleftrightarrow> w = []"
| "contains (c # s) w \<longleftrightarrow> has_prefix (c # s) w \<or> contains s w"

definition parse_device_name :: "string \<Rightarrow> string" where
  "parse_device_name agent =
     (let ua = to_lower agent in
      if contains ua ''chrome'' then ''Chrome''
      else if contains ua ''firefox'' then ''Firefox''
      else if contains ua ''safari'' then ''Safari''
      else if contains ua ''edge'' then ''Edge''
      else if contains ua ''curl'' then ''curl''
      else take 50 agent)"

definition email_domain :: "string \<Rightarrow> string" where
  "email_domain email =
     (if CHR 0x40 \<in> set email then rev (takeWhile (\<lambda>c. c \<noteq> CHR 0x40) (rev email)) else [])"

definition session_cookies :: "auth_conf \<Rightarrow> auth_request \<Rightarrow> string \<Rightarrow> cookie list" where
  "session_cookies A q raw =
     [set_auth_cookie (au_tokens A) (ar_host q) sessionCookieName raw (unix SessionTTL),
      set_auth_hint_cookie (au_tokens A) (ar_host q) (unix SessionTTL)]"

definition cleared_cookies :: "auth_conf \<Rightarrow> auth_request \<Rightarrow> cookie list" where
  "cleared_cookies A q =
     [clear_auth_cookie (au_tokens A) (ar_host q) sessionCookieName,
      clear_auth_cookie (au_tokens A) (ar_host q) refreshTokenCookieName,
      set_auth_hint_cookie (au_tokens A) (ar_host q) (-1)]"

record sign_in =
  si_user :: string
  si_email :: string
  si_first_name :: string
  si_last_name :: string
  si_session :: string
  si_cookies :: "cookie list"

datatype login_answer = SignedIn sign_in | MfaRequired string "string list"

section \<open>Opening a session\<close>

text \<open>Whether the device is new; a failure of the lookup counts as seen.\<close>

definition new_device :: "auth_conf \<Rightarrow> string \<Rightarrow> string \<Rightarrow> string \<Rightarrow> ('v, bool) auth_handler" where
  "new_device A uid device ip =
     bindE (tryE (has_seen_device uid device (gd_country (au_geo A ip)))) (\<lambda>r. ret (r = Inr False))"

definition notify_new_device :: "auth_conf \<Rightarrow> user \<Rightarrow> string \<Rightarrow> string \<Rightarrow> bool \<Rightarrow> ('v, unit) auth_handler" where
  "notify_new_device A u device ip new =
     (if new \<and> au_mail A
      then post_mail (NewDeviceMail (u_email u) (u_first_name u) device (gd_city (au_geo A ip)) (gd_country (au_geo A ip)) ip)
      else ret ())"

definition start_session :: "auth_conf \<Rightarrow> user \<Rightarrow> string \<Rightarrow> string \<Rightarrow> string \<Rightarrow> string list \<Rightarrow> ('v, session \<times> string) auth_handler" where
  "start_session A u device ip agent amr = or_500 (create_session (au_sha A) (user_id u) device ip agent amr (au_geo A ip))"

text \<open>The mail, the event and the answer after the session was stored.\<close>

definition session_opened ::
  "auth_conf \<Rightarrow> auth_request \<Rightarrow> user \<Rightarrow> string \<Rightarrow> string \<Rightarrow> string \<Rightarrow> (string \<times> string) list \<Rightarrow> bool \<Rightarrow> session \<times> string \<Rightarrow>
   ('v, sign_in) auth_handler" where
  "session_opened A q u device ip ty meta new opened =
     bindE (notify_new_device A u device ip new) (\<lambda>_.
     bindE (record_audit q (user_id u) ty (meta @ [(''session_id'', session_id (fst opened))] @
       (if new then [(''new_device'', ''true'')] else []))) (\<lambda>_.
     ret \<lparr>si_user = user_id u, si_email = u_email u, si_first_name = u_first_name u, si_last_name = u_last_name u,
       si_session = session_id (fst opened), si_cookies = session_cookies A q (snd opened)\<rparr>))"

definition issue_session :: "auth_conf \<Rightarrow> auth_request \<Rightarrow> user \<Rightarrow> ('v, sign_in) auth_handler" where
  "issue_session A q u =
     (let device = parse_device_name (ar_agent q); ip = client_ip q in
      bindE (new_device A (user_id u) device ip) (\<lambda>new.
      bindE (start_session A u device ip (ar_agent q) [AMRPassword])
        (session_opened A q u device ip EventLoginSuccess [] new)))"

section \<open>The password login\<close>

definition mfa_token_key :: "string \<Rightarrow> string" where "mfa_token_key h = ''mfa_token:'' @ h"
definition mfa_attempts_key :: "string \<Rightarrow> string" where "mfa_attempts_key h = ''mfa_attempts:'' @ h"

definition issue_mfa_token :: "auth_conf \<Rightarrow> mfa_payload \<Rightarrow> string list \<Rightarrow> ('v, login_answer) auth_handler" where
  "issue_mfa_token A p methods =
     (if \<not> au_cache A then refuse ServerError
      else
      bindE (or_500 (generate_mfa_token (au_sha A) CacheRandom)) (\<lambda>(raw, h).
      bindE (or_500 (cache_set (au_cache A) (mfa_token_key h) (MfaV p) mfaTokenTTL)) (\<lambda>_.
      ret (MfaRequired raw methods))))"

definition password_handover :: "auth_request \<Rightarrow> user \<Rightarrow> mfa_payload" where
  "password_handover q u = \<lparr>mp_user = user_id u, mp_device = parse_device_name (ar_agent q), mp_ip = client_ip q,
     mp_agent = ar_agent q, mp_primary_amr = AMRPassword\<rparr>"

definition after_password :: "auth_conf \<Rightarrow> totp_lib \<Rightarrow> auth_request \<Rightarrow> user \<Rightarrow> ('v, login_answer) auth_handler" where
  "after_password A L q u =
     bindE (tryE (totp_get (tl_sealer L) (user_id u))) (\<lambda>r.
     if (case r of Inl e \<Rightarrow> e \<noteq> ErrTotpNotFound | Inr _ \<Rightarrow> False) then refuse ServerError
     else if (case r of Inl _ \<Rightarrow> False | Inr sec \<Rightarrow> tt_verified sec) then
       bindE (record_audit q (user_id u) EventLoginMFARequired []) (\<lambda>_.
       issue_mfa_token A (password_handover q u) [''totp''])
     else bindE (issue_session A q u) (\<lambda>si. ret (SignedIn si)))"

text \<open>A refused password: the event goes to the account when there is one.\<close>

definition login_failed :: "auth_request \<Rightarrow> string \<Rightarrow> ('v, unit) auth_handler" where
  "login_failed q email =
     bindE (tryE (user_get_by_email (to_lower email))) (\<lambda>r. case r of
       Inr known \<Rightarrow> record_audit q (user_id known) EventLoginFailed []
     | Inl _ \<Rightarrow> record_audit_anon q EventLoginFailed [(''email_domain'', email_domain email)])"

definition auth_login :: "auth_conf \<Rightarrow> totp_lib \<Rightarrow> auth_request \<Rightarrow> string \<Rightarrow> string \<Rightarrow> ('v, login_answer) auth_handler" where
  "auth_login A L q email pw =
     bindE (tryE (login (tc_argon (au_tokens A)) (au_dummy A) email pw)) (\<lambda>r. case r of
       Inr u \<Rightarrow> after_password A L q u
     | Inl e \<Rightarrow>
         if e = ErrEmailNotVerified then refuse EmailNotVerified
         else if e = ErrPendingDeletion then refuse AccountPendingDeletion
         else bindE (login_failed q email) (\<lambda>_. refuse InvalidCredentials))"

section \<open>The second factor\<close>

definition mfa_session_amr :: "mfa_payload \<Rightarrow> string list" where
  "mfa_session_amr p =
     (let primary = mp_primary_amr p in
      [if primary \<noteq> AMRPassword \<and> primary \<noteq> AMRWebAuthn
       then (if mp_device p = ''Passkey'' then AMRWebAuthn else AMRPassword) else primary, AMRTOTP])"

text \<open>Too many guesses: the token and its counter go, each deletion on its own.\<close>

definition mfa_exhausted :: "auth_conf \<Rightarrow> auth_request \<Rightarrow> string \<Rightarrow> mfa_payload \<Rightarrow> ('v, 'a) auth_handler" where
  "mfa_exhausted A q h p =
     bindE (logE (cache_delete (au_cache A) (mfa_token_key h))) (\<lambda>_.
     bindE (logE (cache_delete (au_cache A) (mfa_attempts_key h))) (\<lambda>_.
     bindE (record_audit q (mp_user p) EventMFAChallengeFailed [(''method'', ''totp''), (''reason'', ''max_attempts'')]) (\<lambda>_.
     refuse InvalidToken)))"

text \<open>The code was right: the token is claimed and the session opened.\<close>

definition mfa_accepted :: "auth_conf \<Rightarrow> auth_request \<Rightarrow> string \<Rightarrow> mfa_payload \<Rightarrow> ('v, sign_in) auth_handler" where
  "mfa_accepted A q h p =
     bindE (mapErr (\<lambda>_. (InvalidToken, True)) (cache_get_del (au_cache A) (mfa_token_key h) mfa_of)) (\<lambda>_.
     bindE (logE (cache_delete (au_cache A) (mfa_attempts_key h))) (\<lambda>_.
     bindE (or_500 (user_get_by_id (mp_user p))) (\<lambda>u.
     if u_deletion_state u \<noteq> [] then refuse AccountPendingDeletion
     else
     bindE (new_device A (user_id u) (mp_device p) (mp_ip p)) (\<lambda>new.
     bindE (start_session A u (mp_device p) (mp_ip p) (mp_agent p) (mfa_session_amr p))
       (session_opened A q u (mp_device p) (mp_ip p) EventMFAChallengeSuccess [(''method'', ''totp'')] new)))))"

definition mfa_check :: "auth_conf \<Rightarrow> totp_lib \<Rightarrow> auth_request \<Rightarrow> string \<Rightarrow> mfa_payload \<Rightarrow> string \<Rightarrow> ('v, sign_in) auth_handler" where
  "mfa_check A L q h p code =
     bindE (tryE (totp_validate L (tc_argon (au_tokens A)) (mp_user p) code)) (\<lambda>r.
     if r = Inr True then mfa_accepted A q h p
     else
     bindE (record_audit q (mp_user p) EventMFAChallengeFailed [(''method'', ''totp'')]) (\<lambda>_. refuse Unauthorized))"

definition mfa_challenge :: "auth_conf \<Rightarrow> totp_lib \<Rightarrow> auth_request \<Rightarrow> string \<Rightarrow> string \<Rightarrow> ('v, sign_in) auth_handler" where
  "mfa_challenge A L q token code =
     (let h = hash_token (au_sha A) token in
      bindE (mapErr (\<lambda>_. (InvalidToken, True)) (cache_get (au_cache A) (mfa_token_key h) mfa_of)) (\<lambda>p.
      bindE (mapErr (\<lambda>_. (ServiceUnavailable, True)) (cache_incr (au_cache A) (mfa_attempts_key h) mfaTokenTTL)) (\<lambda>attempts.
      if attempts > mfaMaxAttempts then mfa_exhausted A q h p
      else mfa_check A L q h p code)))"

section \<open>Registration\<close>

definition registration_meta :: "(string \<times> string) list" where
  "registration_meta = [(''tos_version'', CurrentToSVersion), (''privacy_version'', CurrentPrivacyVersion)]"

definition send_verification_email :: "auth_conf \<Rightarrow> string \<Rightarrow> string \<Rightarrow> string \<Rightarrow> ('v, unit) auth_handler" where
  "send_verification_email A uid email first =
     (if \<not> au_cache A \<or> \<not> au_mail A then ret ()
      else
      bindE (tryE (generate_mfa_token (au_sha A) CacheRandom)) (\<lambda>g. case g of
        Inl _ \<Rightarrow> ret ()
      | Inr (raw, h) \<Rightarrow>
      bindE (tryE (cache_set (au_cache A) (''ev:'' @ h) (TextV uid) emailVerifyTTL)) (\<lambda>r. case r of
        Inl _ \<Rightarrow> ret ()
      | Inr _ \<Rightarrow> post_mail (VerificationMail email first raw))))"

definition tell_owner :: "auth_conf \<Rightarrow> string \<Rightarrow> ('v, unit) auth_handler" where
  "tell_owner A email =
     (if \<not> au_mail A then ret ()
      else
      bindE (tryE (user_get_by_email email)) (\<lambda>r. case r of
        Inr x \<Rightarrow> post_mail (AccountExistsMail (u_email x) (u_first_name x))
      | Inl _ \<Rightarrow> ret ()))"

text \<open>The answer is the same whether the address was free or not.\<close>

definition auth_register :: "auth_conf \<Rightarrow> auth_request \<Rightarrow> string \<Rightarrow> string \<Rightarrow> string \<Rightarrow> string \<Rightarrow> ('v, unit) auth_handler" where
  "auth_register A q email0 pw first last0 =
     (let email = to_lower (trim_space email0) in
      bindE (tryE (register (au_sha A) (tc_argon (au_tokens A)) email pw first last0)) (\<lambda>r. case r of
        Inl e \<Rightarrow> if e = ErrEmailConflict then tell_owner A email else refuse ServerError
      | Inr u \<Rightarrow>
          bindE (record_audit q (user_id u) EventTermsAccepted registration_meta) (\<lambda>_.
          if au_mail A then send_verification_email A (user_id u) (u_email u) (u_first_name u) else ret ())))"

section \<open>Logout\<close>

definition drop_cookie_session :: "auth_conf \<Rightarrow> auth_request \<Rightarrow> ('v, unit) auth_handler" where
  "drop_cookie_session A q =
     (let cookie = ar_cookie q sessionCookieName in
      if cookie = [] then ret ()
      else
      bindE (tryE (validate_token (au_sha A) cookie)) (\<lambda>r. case r of
        Inr sess \<Rightarrow> logE (revoke (session_user_id sess) (session_id sess))
      | Inl _ \<Rightarrow> ret ()))"

definition logout :: "auth_conf \<Rightarrow> auth_request \<Rightarrow> ('v, cookie list) auth_handler" where
  "logout A q =
     bindE (drop_cookie_session A q) (\<lambda>_.
     bindE (if ar_cookie q refreshTokenCookieName = [] then ret ()
            else logE (revoke_client_token (au_sha A) (ar_cookie q refreshTokenCookieName))) (\<lambda>_.
     ret (cleared_cookies A q)))"

definition end_session :: "auth_conf \<Rightarrow> auth_request \<Rightarrow> ('v, redirect) auth_handler" where
  "end_session A q =
     (let home = au_app_url A @ ''/login''; uri = ar_query q ''post_logout_redirect_uri'' in
      bindE (drop_cookie_session A q) (\<lambda>_.
      if uri = [] then ret (home, cleared_cookies A q)
      else
      bindE (tryE (client_get_by_id (ar_query q ''client_id''))) (\<lambda>r.
      ret (case r of
             Inr c \<Rightarrow> if is_registered_origin (tc_net (au_tokens A)) c uri then uri else home
           | Inl _ \<Rightarrow> home, cleared_cookies A q))))"

section \<open>Verification of the address\<close>

definition verify_email :: "auth_conf \<Rightarrow> auth_request \<Rightarrow> string \<Rightarrow> ('v, unit) auth_handler" where
  "verify_email A q token =
     bindE (mapErr (\<lambda>_. (InvalidToken, True)) (cache_get_del (au_cache A) (''ev:'' @ hash_token (au_sha A) token) text_of)) (\<lambda>uid.
     bindE (or_500 (mark_email_verified uid)) (\<lambda>_.
     record_audit q uid EventEmailVerified []))"

definition resend_verification :: "auth_conf \<Rightarrow> string \<Rightarrow> ('v, unit) auth_handler" where
  "resend_verification A email =
     bindE (tryE (user_get_by_email (to_lower email))) (\<lambda>r. case r of
       Inr u \<Rightarrow> if \<not> u_email_verified u \<and> au_mail A then send_verification_email A (user_id u) (u_email u) (u_first_name u) else ret ()
     | Inl _ \<Rightarrow> ret ())"

section \<open>Password reset\<close>

definition send_reset_link :: "auth_conf \<Rightarrow> user \<Rightarrow> ('v, unit) auth_handler" where
  "send_reset_link A u =
     (if \<not> au_mail A \<or> \<not> au_cache A then ret ()
      else
      bindE (tryE (generate_mfa_token (au_sha A) CacheRandom)) (\<lambda>g. case g of
        Inl _ \<Rightarrow> ret ()
      | Inr (raw, h) \<Rightarrow>
      bindE (tryE (cache_set (au_cache A) (''pr:'' @ h) (TextV (user_id u)) passwordResetTTL)) (\<lambda>r. case r of
        Inl _ \<Rightarrow> ret ()
      | Inr _ \<Rightarrow> post_mail (PasswordResetMail (u_email u) (u_first_name u) raw))))"

definition forgot_password :: "auth_conf \<Rightarrow> auth_request \<Rightarrow> string \<Rightarrow> ('v, unit) auth_handler" where
  "forgot_password A q email =
     bindE (tryE (user_get_by_email (to_lower email))) (\<lambda>r. case r of
       Inl _ \<Rightarrow> ret ()
     | Inr u \<Rightarrow>
         bindE (record_audit q (user_id u) EventPasswordResetRequest []) (\<lambda>_. send_reset_link A u))"

definition reset_password :: "auth_conf \<Rightarrow> auth_request \<Rightarrow> string \<Rightarrow> string \<Rightarrow> ('v, unit) auth_handler" where
  "reset_password A q token pw =
     bindE (mapErr (\<lambda>_. (InvalidToken, True)) (cache_get_del (au_cache A) (''pr:'' @ hash_token (au_sha A) token) text_of)) (\<lambda>uid.
     bindE (or_500 (hash_password (tc_argon (au_tokens A)) pw)) (\<lambda>h.
     bindE (mapErr (\<lambda>_. (InvalidToken, True)) (user_get_by_id uid)) (\<lambda>_.
     bindE (or_500 (force_set_password uid h)) (\<lambda>_.
     bindE (logE (revoke_all uid [])) (\<lambda>_.
     record_audit q uid EventPasswordResetComplete [])))))"

end
