(* ===== verification/Social.thy ===== *)
theory Social
  imports Login
begin

text \<open>
  The login with Google (\<open>handler/social.go\<close>). The two
  calls to Google are parameters: the answer of its token endpoint to a form, and the profile it gives
  for an access token. \<open>c.Redirect().To\<close> and the \<open>Send\<close> of a problem write the answer and return no error,
  so a later redirect replaces what was written before.
\<close>

section \<open>Google\<close>

record google_profile =
  gp_sub :: string
  gp_email :: string
  gp_email_verified :: bool
  gp_given_name :: string
  gp_family_name :: string
  gp_picture :: string

record google_conf =
  gc_client_id :: string
  gc_client_secret :: string
  gc_token :: "string \<Rightarrow> string option"
  gc_userinfo :: "string \<Rightarrow> google_profile option"

definition googleStateTTL :: time where "googleStateTTL = 10 * minute"
definition google_state_key :: "string \<Rightarrow> string" where "google_state_key h = ''gs:'' @ h"
definition EventSocialLinked :: string where "EventSocialLinked = ''social.linked''"

definition callback_uri :: "auth_conf \<Rightarrow> string" where
  "callback_uri A = au_api_url A @ ''/v1.0/auth/google/callback''"

definition is_allowed_continue_url :: "auth_conf \<Rightarrow> string \<Rightarrow> bool" where
  "is_allowed_continue_url A u =
     (if has_prefix u ''/'' then \<not> has_prefix u ''//'' \<and> \<not> has_prefix u [CHR ''/'', CHR 0x5C]
      else list_ex (\<lambda>origin. u = origin \<or> has_prefix u (origin @ ''/'')) ([au_app_url A, au_api_url A] @ au_origins A))"

definition google_url :: "auth_conf \<Rightarrow> google_conf \<Rightarrow> string \<Rightarrow> string" where
  "google_url A G state = ''https://accounts.google.com/o/oauth2/v2/auth?'' @ encode_values
     [(''client_id'', gc_client_id G), (''redirect_uri'', callback_uri A), (''response_type'', ''code''),
      (''scope'', ''openid email profile''), (''state'', state), (''access_type'', ''offline''), (''prompt'', ''select_account'')]"

definition google_redirect :: "auth_conf \<Rightarrow> google_conf \<Rightarrow> auth_request \<Rightarrow> ('v, redirect) auth_handler" where
  "google_redirect A G q =
     (if gc_client_id G = [] then refuse ServerError
      else if \<not> au_cache A then refuse ServiceUnavailable
      else
      let asked = (if ar_query q ''continue'' = [] then au_app_url A else ar_query q ''continue'');
          cont = (if is_allowed_continue_url A asked then asked else au_app_url A)
      in
      bindE (or_500 (generate_mfa_token (au_sha A) CacheRandom)) (\<lambda>(raw, h).
      bindE (mapErr (\<lambda>_. (ServiceUnavailable, True)) (cache_set (au_cache A) (google_state_key h) (TextV cont) googleStateTTL)) (\<lambda>_.
      redirect_to (google_url A G raw))))"

text \<open>\<open>exchangeGoogleCode\<close>: an empty access token or an empty address is an error.\<close>

definition exchange_google_code :: "auth_conf \<Rightarrow> google_conf \<Rightarrow> string \<Rightarrow> google_profile option" where
  "exchange_google_code A G code =
     (case gc_token G (encode_values [(''code'', code), (''client_id'', gc_client_id G), (''client_secret'', gc_client_secret G),
         (''redirect_uri'', callback_uri A), (''grant_type'', ''authorization_code'')]) of
        None \<Rightarrow> None
      | Some access \<Rightarrow>
          if access = [] then None
          else (case gc_userinfo G access of
              None \<Rightarrow> None
            | Some p \<Rightarrow> if gp_email p = [] then None else Some p))"

definition resolve_continue :: "auth_conf \<Rightarrow> string \<Rightarrow> string" where
  "resolve_continue A cont =
     (if has_prefix cont ''/'' then (if has_prefix cont ''/v1.0/'' then au_api_url A else au_app_url A) @ cont else cont)"

definition suspended_sign_up :: "auth_request \<Rightarrow> user \<Rightarrow> string \<Rightarrow> terms_payload" where
  "suspended_sign_up q u cont = \<lparr>tp_user = user_id u, tp_device = parse_device_name (ar_agent q), tp_ip = client_ip q,
     tp_agent = ar_agent q, tp_continue = cont, tp_reaccept = False\<rparr>"

definition redirect_to_accept_terms :: "auth_conf \<Rightarrow> auth_request \<Rightarrow> user \<Rightarrow> string \<Rightarrow> ('v, redirect) auth_handler" where
  "redirect_to_accept_terms A q u cont =
     bindE (or_500 (mint_accept_terms_url A (suspended_sign_up q u cont) (pending_for [] []))) redirect_to"

text \<open>The cookies of the session that was opened; none for an account that is being deleted or when the
  session could not be stored: what was written for these the caller overwrites.\<close>

definition issue_session_from_social :: "auth_conf \<Rightarrow> auth_request \<Rightarrow> user \<Rightarrow> ('v, cookie list) auth_handler" where
  "issue_session_from_social A q u =
     (let device = parse_device_name (ar_agent q); ip = client_ip q in
      bindE (new_device A (user_id u) device ip) (\<lambda>new.
      if u_deletion_state u \<noteq> [] then ret []
      else
      bindE (tryE (start_session A u device ip (ar_agent q) [AMRGoogle])) (\<lambda>r. case r of
        Inl _ \<Rightarrow> ret []
      | Inr opened \<Rightarrow>
          bindE (session_opened A q u device ip EventLoginSuccess [(''method'', ''google'')] new opened) (\<lambda>si.
          ret (si_cookies si)))))"

definition google_account :: "auth_conf \<Rightarrow> auth_request \<Rightarrow> google_profile \<Rightarrow> string \<Rightarrow> ('v, redirect) auth_handler" where
  "google_account A q p cont =
     bindE (tryE (find_or_create_by_google (au_sha A) (gp_sub p) (gp_email p) (gp_given_name p) (gp_family_name p) (gp_picture p)))
       (\<lambda>r. case r of
         Inl e \<Rightarrow> if e = ErrGoogleEmailConflict then redirect_to (au_app_url A @ ''/login?error=google_account_exists'') else refuse ServerError
       | Inr (u, is_new) \<Rightarrow>
           if is_new then redirect_to_accept_terms A q u cont
           else bindE (issue_session_from_social A q u) (\<lambda>cs. ret (cont, cs)))"

definition link_google_account :: "auth_conf \<Rightarrow> auth_request \<Rightarrow> string \<Rightarrow> google_profile \<Rightarrow> string \<Rightarrow> ('v, redirect) auth_handler" where
  "link_google_account A q uid p cont =
     bindE (tryE (link_google uid (gp_sub p) (gp_email p))) (\<lambda>r. case r of
       Inl e \<Rightarrow> if e = ErrGoogleEmailConflict then redirect_to (au_app_url A @ ''/login?error=google_link_conflict'') else refuse ServerError
     | Inr _ \<Rightarrow> bindE (record_audit q uid EventSocialLinked []) (\<lambda>_. redirect_to cont))"

text \<open>A browser with a live session links the identity to its account; any other signs in with it.\<close>

definition google_identity :: "auth_conf \<Rightarrow> auth_request \<Rightarrow> google_profile \<Rightarrow> string \<Rightarrow> ('v, redirect) auth_handler" where
  "google_identity A q p cont =
     (let cookie = ar_cookie q sessionCookieName in
      if cookie = [] then google_account A q p cont
      else
      bindE (tryE (validate_token (au_sha A) cookie)) (\<lambda>r. case r of
        Inr sess \<Rightarrow> link_google_account A q (session_user_id sess) p cont
      | Inl _ \<Rightarrow> google_account A q p cont))"

definition google_callback :: "auth_conf \<Rightarrow> google_conf \<Rightarrow> auth_request \<Rightarrow> ('v, redirect) auth_handler" where
  "google_callback A G q =
     (if ar_query q ''error'' \<noteq> [] then redirect_to (au_app_url A @ ''/login?error=google_denied'')
      else if ar_query q ''code'' = [] \<or> ar_query q ''state'' = [] then refuse InvalidRequest
      else if \<not> au_cache A then refuse ServiceUnavailable
      else
      let h = hash_token (au_sha A) (ar_query q ''state'') in
      bindE (mapErr (\<lambda>_. (InvalidToken, True)) (cache_get (au_cache A) (google_state_key h) text_of)) (\<lambda>cont.
      bindE (logE (cache_delete (au_cache A) (google_state_key h))) (\<lambda>_.
      case exchange_google_code A G (ar_query q ''code'') of
        None \<Rightarrow> refuse ServerError
      | Some p \<Rightarrow>
          if \<not> gp_email_verified p then redirect_to (au_app_url A @ ''/login?error=google_email_unverified'')
          else google_identity A q p (resolve_continue A cont))))"

text \<open>The page of the terms, for a suspended sign-up or an account whose terms have changed.\<close>

definition finish_sign_up :: "auth_conf \<Rightarrow> auth_request \<Rightarrow> user \<Rightarrow> terms_payload \<Rightarrow> ('v, redirect) auth_handler" where
  "finish_sign_up A q u p =
     bindE (new_device A (user_id u) (tp_device p) (tp_ip p)) (\<lambda>new.
     if u_deletion_state u \<noteq> [] then redirect_to (au_app_url A @ ''/login?error=account_pending_deletion'')
     else
     bindE (start_session A u (tp_device p) (tp_ip p) (tp_agent p) [AMRGoogle]) (\<lambda>opened.
     bindE (session_opened A q u (tp_device p) (tp_ip p) EventLoginSuccess [(''method'', acceptMethodGoogle)] new opened) (\<lambda>si.
     ret (tp_continue p, si_cookies si))))"

definition social_accept_terms :: "auth_conf \<Rightarrow> auth_request \<Rightarrow> string \<Rightarrow> bool \<Rightarrow> bool \<Rightarrow> ('v, redirect) auth_handler" where
  "social_accept_terms A q token tos privacy =
     (if \<not> au_cache A then refuse ServerError
      else
      bindE (mapErr (\<lambda>_. (InvalidToken, True))
        (cache_get_del (au_cache A) (termsTokenCachePrefix @ hash_token (au_sha A) token) terms_of)) (\<lambda>p.
      bindE (or_500 (user_get_by_id (tp_user p))) (\<lambda>u.
      bindE (accept_pending_terms q u tos privacy (if tp_reaccept p then acceptMethodReaccept else acceptMethodGoogle)) (\<lambda>_.
      if tp_reaccept p then redirect_to (tp_continue p) else finish_sign_up A q u p))))"

end
