(* ===== verification/AuthorizeRuns.thy ===== *)
theory AuthorizeRuns
  imports Authorize
begin

text \<open>
  What the authorize endpoint guarantees: it only redirects to registered addresses and to the pages of
  the platform; a code is stored only for a request that passed every check, so that a token obtained
  with a code traces back to a person who was signed in, had accepted the terms and had granted the
  scopes; and what the consent page sends back.
\<close>

section \<open>What is behind a code\<close>

definition consented :: "oauth_client \<Rightarrow> string \<Rightarrow> string \<Rightarrow> string list \<Rightarrow> 'v oauth_world_scheme del_db \<Rightarrow> bool" where
  "consented c uid cid ss s \<longleftrightarrow> cl_first_party c \<or>
     (\<exists>g. tget (ow_consents (world s)) (build_pk uid, build_consent_sk cid) = Some g \<and> set ss \<subseteq> set (cg_scopes g))"

definition terms_current :: "string \<Rightarrow> 'v oauth_world_scheme del_db \<Rightarrow> bool" where
  "terms_current uid s \<longleftrightarrow> (\<exists>i u. tget (user_tbl s) (build_pk uid) = Some i \<and> as_user i = Some u \<and>
     u_tos_version u = CurrentToSVersion \<and> u_privacy_version u = CurrentPrivacyVersion)"

definition live_session :: "(string \<Rightarrow> byte list) \<Rightarrow> string \<Rightarrow> session \<Rightarrow> 'v oauth_world_scheme del_db \<Rightarrow> bool" where
  "live_session sha raw sess s \<longleftrightarrow> SessionI sess \<in> snd ` set (sess_tbl s) \<and> se_hash sess = hash_token sha raw \<and>
     \<not> session_is_expired (clock s) sess"

definition authorized :: "auth_conf \<Rightarrow> auth_request \<Rightarrow> auth_code \<Rightarrow> 'v oauth_world_scheme del_db \<Rightarrow> bool" where
  "authorized A q ac s \<longleftrightarrow> (\<exists>c sess.
     tget (ow_clients (world s)) (build_client_pk (ar_query q ''client_id'')) = Some c \<and>
     ar_query q ''redirect_uri'' \<in> set (cl_redirect_uris c) \<and>
     (is_public c \<longrightarrow> ac_challenge ac \<noteq> []) \<and> (ac_challenge ac \<noteq> [] \<longrightarrow> ac_method ac = ''S256'') \<and>
     live_session (au_sha A) (ar_cookie q sessionCookieName) sess s \<and>
     \<not> too_old (clock s) sess (ar_query q ''max_age'') \<and>
     terms_current (session_user_id sess) s \<and>
     consented c (session_user_id sess) (ar_query q ''client_id'') (ac_scopes ac) s \<and>
     ac = code_for q sess (filter_scopes c (OAuthTokens.fields (ar_query q ''scope''))) (clock s) \<and> ac_scopes ac \<noteq> [])"

lemma authorized_blind: "authorized A q ac (s\<lparr>faults := os\<rparr>) = authorized A q ac s"
  by (simp add: authorized_def consented_def terms_current_def live_session_def)

section \<open>Reads\<close>

lemma filter_mem: "x \<in> set (take n (filter P xs)) \<Longrightarrow> x \<in> set xs \<and> P x"
  by (auto dest: in_set_takeD)

lemma item_session: "as_session i = Some x \<Longrightarrow> i = SessionI x"
  by (cases i) auto

lemma by_hash_Inr:
  assumes "repo_get_by_token_hash h s = (Inr x, t)"
  shows "SessionI x \<in> snd ` set (sess_tbl s) \<and> se_hash x = h \<and> (\<exists>os. t = s\<lparr>faults := os\<rparr>)"
proof -
  obtain items s1 where r: "db_read SInfra (\<lambda>s. take 2 (filter (\<lambda>(k, i). item_hash i = Some h) (sess_tbl s))) s = (Inr items, s1)"
    and run: "(case List.find (\<lambda>(k, i). has_prefix (snd k) ''SESSION_'') items of None \<Rightarrow> throw ErrNotFound
      | Some (k, i) \<Rightarrow> if \<not> has_prefix (snd k) ''SESSION_'' then throw ErrNotFound else unmarshal as_session i) s1 = (Inr x, t)"
    using assms unfolding repo_get_by_token_hash_def query_by_token_hash_def by (auto elim!: bindE_InrE)
  from read_Inr [OF r] obtain os where items: "items = take 2 (filter (\<lambda>(k, i). item_hash i = Some h) (sess_tbl s))"
    and s1: "s1 = s\<lparr>faults := os\<rparr>" by auto
  from run obtain k i where f: "List.find (\<lambda>(k, i). has_prefix (snd k) ''SESSION_'') items = Some (k, i)"
    and x: "as_session i = Some x" and t: "t = s1"
    by (auto simp: unmarshal_def split: option.splits prod.splits if_splits)
  from find_SomeD [OF f] have "(k, i) \<in> set (sess_tbl s)" "item_hash i = Some h" unfolding items by (auto dest: filter_mem)
  with item_session [OF x] have "SessionI x \<in> snd ` set (sess_tbl s)" "se_hash x = h" by force+
  with t s1 show ?thesis by blast
qed

lemma validate_Inr:
  assumes "validate_token sha raw s = (Inr sess, t)"
  shows "live_session sha raw sess s \<and> (\<exists>os. t = s\<lparr>faults := os\<rparr>)"
proof -
  obtain x s1 where g: "repo_get_by_token_hash (hash_token sha raw) s = (Inr x, s1)" and x: "x = sess" "t = s1"
    "\<not> session_is_expired (clock s1) x"
    using assms unfolding validate_token_def
    by (auto simp: logE_def tryE_Inr simp del: tryE_run split: sum.splits if_splits elim!: bindE_InrE)
  from by_hash_Inr [OF g] x show ?thesis by (auto simp: live_session_def)
qed

lemma grant_Inr:
  assumes "has_grant uid cid ss s = (Inr True, t)"
  shows "(\<exists>g. tget (ow_consents (world s)) (build_pk uid, build_consent_sk cid) = Some g \<and> set ss \<subseteq> set (cg_scopes g)) \<and>
    (\<exists>os. t = s\<lparr>faults := os\<rparr>)"
proof -
  obtain g where g: "consent_get uid cid s = (Inr g, t)" and c: "covers g ss"
    using assms unfolding has_grant_def by (auto simp: tryE_Inr simp del: tryE_run split: sum.splits if_splits elim!: bindE_InrE)
  from g have "tget (ow_consents (world s)) (build_pk uid, build_consent_sk cid) = Some g \<and> (\<exists>os. t = s\<lparr>faults := os\<rparr>)"
    unfolding consent_get_def by (elim read_thenE) (auto split: option.splits)
  with c show ?thesis by (auto simp: covers_def list_all_iff)
qed

section \<open>What is kept\<close>

lemma codes_auth_updates [simp]:
  "codes (world_update (aw_cache_update f) s) = codes s"
  "codes (world_update (aw_mails_update g) s) = codes s"
  "codes (world_update (aw_totp_update h) s) = codes s"
  "codes (world_update (ow_consents_update c) s) = codes s"
  by simp_all

lemma kept_take: "blind \<pi> \<Longrightarrow> (\<And>s. \<pi> (u s) = \<pi> s) \<Longrightarrow> keeps \<pi> (db_take e f u)"
  unfolding keeps_def tracks_def db_take_def by (auto simp: blindD split: list.split outcome.split)

lemma keeps_load_client: "blind \<pi> \<Longrightarrow> keeps \<pi> (load_client cid)"
  unfolding load_client_def by (intro keeps_calls keeps_reads)

lemma keeps_has_grant: "blind \<pi> \<Longrightarrow> keeps \<pi> (has_grant uid cid ss)"
  unfolding has_grant_def consent_get_def by (intro keeps_calls)

lemma keeps_mint:
  assumes "blind \<pi>" "\<And>f s. \<pi> (world_update (aw_cache_update f) s) = \<pi> s" "\<And>s n. \<pi> (s\<lparr>rng_ix := n\<rparr>) = \<pi> s"
  shows "keeps \<pi> (mint_accept_terms_url A p pend)"
  unfolding mint_accept_terms_url_def generate_mfa_token_def cache_set_def Let_def
  by (intro keeps_calls assms)

lemma keeps_redirect: "keeps \<pi> (redirect_to l)" "keeps \<pi> (redirect_error uri st code desc)" "keeps \<pi> (refuse p)"
  unfolding redirect_to_def redirect_error_def refuse_def by (intro keeps_calls)+

section \<open>When a code is stored\<close>

text \<open>\<open>stored C s t\<close>: between \<open>s\<close> and \<open>t\<close> the codes stayed as they were, or one that satisfies \<open>C\<close> was
  stored for a minute.\<close>

definition code_stored :: "(auth_code \<Rightarrow> bool) \<Rightarrow> 'v oauth_world_scheme del_db \<Rightarrow> 'v oauth_world_scheme del_db \<Rightarrow> bool" where
  "code_stored C s t \<longleftrightarrow> codes t = codes s \<or> (\<exists>k ac. C ac \<and> codes t = tput k (ac, clock s + codeTTL) (codes s))"

lemma stored_same: "keeps codes f \<Longrightarrow> code_stored C s (snd (f s))"
  using keepsD [of codes f s] by (simp add: code_stored_def)

lemma stored_weaken: "code_stored C s t \<Longrightarrow> (\<And>ac. C ac \<Longrightarrow> D ac) \<Longrightarrow> code_stored D s t"
  by (auto simp: code_stored_def)

lemma stored_faults: "code_stored C (s\<lparr>faults := os\<rparr>) t = code_stored C s t"
  by (simp add: code_stored_def)

text \<open>A gate: a call that leaves the codes alone, a way out when it fails, and the rest.\<close>

lemma stored_gate:
  assumes "keeps codes f" "\<And>e. keeps codes (g e)"
    and "\<And>x t. f s = (Inr x, t) \<Longrightarrow> code_stored C s (snd (h x t))"
  shows "code_stored C s (snd (bindE (tryE f) (\<lambda>r. case r of Inl e \<Rightarrow> g e | Inr x \<Rightarrow> h x) s))"
proof (cases "f s")
  case (Pair r t)
  show ?thesis
  proof (cases r)
    case (Inl e)
    with Pair have "snd (bindE (tryE f) (\<lambda>r. case r of Inl e \<Rightarrow> g e | Inr x \<Rightarrow> h x) s) = snd (g e t)"
      by (simp add: bindE_run)
    with keepsD [OF assms(2), of e t] keepsD' [OF assms(1) Pair] show ?thesis by (simp add: code_stored_def)
  next
    case (Inr x)
    with Pair assms(3) show ?thesis by (simp add: bindE_run)
  qed
qed

lemma stored_bind:
  assumes "keeps codes f" and "\<And>x t. f s = (Inr x, t) \<Longrightarrow> code_stored C s (snd (h x t))"
  shows "code_stored C s (snd (bindE f h s))"
proof (cases "f s")
  case (Pair r t)
  with assms keepsD' [OF assms(1) Pair] show ?thesis
    by (cases r) (auto simp: bindE_run code_stored_def)
qed

lemma random_state: "generate_code sha e s = (Inr x, t) \<Longrightarrow> t = s\<lparr>rng_ix := Suc (rng_ix s)\<rparr>"
  by (auto simp: generate_code_def generate_random_def Let_def bindE_run split: option.splits)

lemma store_stored: "code_stored (\<lambda>x. x = ac) s (snd (code_store on h ac s))"
proof (cases on)
  case True
  then have "snd (code_store on h ac s) = snd (db_cond OInfra OInfra (\<lambda>_. True) (world_update (ow_codes_update (tput (keyPrefix @ h) (ac, clock s + codeTTL)))) s)"
    by (simp add: code_store_def bindE_run db_write_def)
  with db_cond_cases [of OInfra OInfra "\<lambda>_. True" "world_update (ow_codes_update (tput (keyPrefix @ h) (ac, clock s + codeTTL)))" s]
  show ?thesis by (auto simp: code_stored_def)
qed (simp add: code_store_def code_stored_def)

lemma issue_stored: "code_stored (\<lambda>ac. ac = code_for q sess ss (clock s)) s (snd (issue_code A q sess ss s))"
  unfolding issue_code_def Let_def
proof (rule stored_gate)
  show "keeps codes (generate_code (au_sha A) CacheRandom)"
    unfolding generate_code_def Let_def by (intro keeps_calls) simp_all
  fix x t assume g: "generate_code (au_sha A) CacheRandom s = (Inr x, t)"
  obtain raw h where x: "x = (raw, h)" by (cases x)
  have t: "clock t = clock s" "codes t = codes s" using random_state [OF g] by simp_all
  obtain r u where st: "code_store (au_cache A) h (code_for q sess ss (clock s)) t = (r, u)" by force
  have "code_stored (\<lambda>ac. ac = code_for q sess ss (clock s)) s u"
    using store_stored [of "code_for q sess ss (clock s)" t "au_cache A" h] t st by (simp add: code_stored_def)
  moreover have "codes (snd (redirect_to l u)) = codes u" "codes (snd (redirect_error uri st c d u)) = codes u" for l uri st c d
    by (simp_all add: redirect_error_def redirect_to_def)
  ultimately show "code_stored (\<lambda>ac. ac = code_for q sess ss (clock s)) s (snd ((case x of (raw, h) \<Rightarrow> bindE now (\<lambda>n.
      bindE (tryE (code_store (au_cache A) h (code_for q sess ss n))) (\<lambda>r. case r of
        Inl _ \<Rightarrow> redirect_error (ar_query q ''redirect_uri'') (ar_query q ''state'') ''server_error'' ''failed to store authorization code''
      | Inr _ \<Rightarrow> redirect_to (ar_query q ''redirect_uri'' @ ''?code='' @ query_escape raw @ with_state (ar_query q ''state''))))) t))"
    unfolding x by (cases r) (simp_all add: bindE_run t st code_stored_def)
qed (rule keeps_redirect)

lemma consent_stored:
  "code_stored (\<lambda>ac. ac = code_for q sess ss (clock s) \<and> consented c (session_user_id sess) (ar_query q ''client_id'') ss s) s
     (snd (consent_gate A q c sess ss s))"
proof (cases "cl_first_party c")
  case True
  with issue_stored [of q sess ss s A] show ?thesis by (simp add: consent_gate_def consented_def)
next
  case False
  show ?thesis unfolding consent_gate_def if_not_P [OF False]
  proof (rule stored_gate)
    fix granted t assume g: "has_grant (session_user_id sess) (ar_query q ''client_id'') ss s = (Inr granted, t)"
    show "code_stored (\<lambda>ac. ac = code_for q sess ss (clock s) \<and> consented c (session_user_id sess) (ar_query q ''client_id'') ss s) s
        (snd ((if granted then issue_code A q sess ss else redirect_to (consent_url A (ar_url q) (cl_name c) ss)) t))"
    proof (cases granted)
      case True
      with g have "has_grant (session_user_id sess) (ar_query q ''client_id'') ss s = (Inr True, t)" by simp
      from grant_Inr [OF this] obtain os where t: "t = s\<lparr>faults := os\<rparr>"
        and c: "consented c (session_user_id sess) (ar_query q ''client_id'') ss s" by (auto simp: consented_def)
      from issue_stored [of q sess ss t A] c True show ?thesis unfolding t by (simp add: stored_faults)
    next
      case False
      with keepsD' [OF keeps_has_grant [OF blind_codes] g] show ?thesis by (simp add: redirect_to_def code_stored_def)
    qed
  qed (rule keeps_has_grant [OF blind_codes] keeps_redirect)+
qed

lemma terms_stored:
  "code_stored (\<lambda>ac. ac = code_for q sess ss (clock s) \<and> terms_current (session_user_id sess) s \<and>
       consented c (session_user_id sess) (ar_query q ''client_id'') ss s) s
     (snd (terms_gate A q c sess ss s))"
  unfolding terms_gate_def Let_def
proof (rule stored_gate)
  fix u t assume g: "user_get_by_id (session_user_id sess) s = (Inr u, t)"
  from user_Inr [OF g] obtain i os where u: "tget (user_tbl s) (build_pk (session_user_id sess)) = Some i" "as_user i = Some u"
    and t: "t = s\<lparr>faults := os\<rparr>" by blast
  let ?pend = "pending_for (u_tos_version u) (u_privacy_version u)"
  show "code_stored (\<lambda>ac. ac = code_for q sess ss (clock s) \<and> terms_current (session_user_id sess) s \<and>
       consented c (session_user_id sess) (ar_query q ''client_id'') ss s) s
     (snd ((if pending_any ?pend then ask_terms A q sess ?pend else consent_gate A q c sess ss) t))"
  proof (cases "pending_any ?pend")
    case True
    have "keeps codes (ask_terms A q sess ?pend)"
      unfolding ask_terms_def by (intro keeps_calls keeps_mint keeps_redirect blind_codes) simp_all
    from keepsD [OF this, of t] True show ?thesis unfolding t by (simp add: code_stored_def)
  next
    case False
    then have "terms_current (session_user_id sess) s"
      using u by (auto simp: terms_current_def pending_any_def pending_for_def)
    with consent_stored [of q sess ss t c A] False show ?thesis
      unfolding t by (simp add: stored_faults consented_def)
  qed
qed (rule codes_sessions(7) keeps_redirect)+

lemma codes_validate: "keeps codes (validate_token sha raw)"
  by (rule codes_sessions(4))

lemma session_stored:
  "code_stored (\<lambda>ac. \<exists>sess. ac = code_for q sess ss (clock s) \<and>
       live_session (au_sha A) (ar_cookie q sessionCookieName) sess s \<and>
       \<not> too_old (clock s) sess (ar_query q ''max_age'') \<and>
       terms_current (session_user_id sess) s \<and> consented c (session_user_id sess) (ar_query q ''client_id'') ss s) s
     (snd (session_gate A q c ss s))" (is "code_stored ?C s _")
proof (cases "ar_cookie q sessionCookieName = []")
  case True
  then show ?thesis by (simp add: session_gate_def redirect_to_def code_stored_def)
next
  case False
  show ?thesis unfolding session_gate_def Let_def if_not_P [OF False]
  proof (rule stored_gate)
    fix sess t assume g: "validate_token (au_sha A) (ar_cookie q sessionCookieName) s = (Inr sess, t)"
    from validate_Inr [OF g] obtain os where live: "live_session (au_sha A) (ar_cookie q sessionCookieName) sess s"
      and t: "t = s\<lparr>faults := os\<rparr>" by blast
    show "code_stored ?C s (snd (bindE now (\<lambda>n. if too_old n sess (ar_query q ''max_age'') then redirect_to (login_url A (ar_url q))
        else terms_gate A q c sess ss) t))"
    proof (cases "too_old (clock s) sess (ar_query q ''max_age'')")
      case True
      then show ?thesis unfolding t by (simp add: redirect_to_def code_stored_def)
    next
      case False
      have "code_stored ?C t (snd (terms_gate A q c sess ss t))"
        by (rule stored_weaken [OF terms_stored]) (use False live in \<open>auto simp: t consented_def terms_current_def\<close>)
      with False show ?thesis unfolding t by (simp add: stored_faults)
    qed
  qed (auto intro!: codes_validate keeps_calls simp del: ret_run)
qed

lemma authorize_stored: "code_stored (\<lambda>ac. authorized A q ac s) s (snd (authorize A q s))"
proof (cases "ar_query q ''client_id'' = [] \<or> ar_query q ''redirect_uri'' = []")
  case True
  then show ?thesis by (simp add: authorize_def refuse_def code_stored_def)
next
  case False
  show ?thesis unfolding authorize_def Let_def if_not_P [OF False]
  proof (rule stored_bind)
    fix c t assume g: "load_client (ar_query q ''client_id'') s = (Inr c, t)"
    from client_Inr [OF g] obtain os where c: "tget (ow_clients (world s)) (build_client_pk (ar_query q ''client_id'')) = Some c"
      and t: "t = s\<lparr>faults := os\<rparr>" by blast
    let ?ss = "filter_scopes c (OAuthTokens.fields (ar_query q ''scope''))"
    consider (foreign) "\<not> is_redirect_uri_allowed c (ar_query q ''redirect_uri'')"
      | (bad) e d where "is_redirect_uri_allowed c (ar_query q ''redirect_uri'')" "request_error q c = Some (e, d)"
      | (fine) "is_redirect_uri_allowed c (ar_query q ''redirect_uri'')" "request_error q c = None"
      by (cases "request_error q c") auto
    then show "code_stored (\<lambda>ac. authorized A q ac s) s (snd ((if \<not> is_redirect_uri_allowed c (ar_query q ''redirect_uri'') then refuse InvalidRequest
        else (case request_error q c of
          Some (code, desc) \<Rightarrow> redirect_error (ar_query q ''redirect_uri'') (ar_query q ''state'') code desc
        | None \<Rightarrow> session_gate A q c ?ss)) t))"
    proof cases
      case fine
      have uri: "ar_query q ''redirect_uri'' \<in> set (cl_redirect_uris c)"
        using fine(1) by (simp add: is_redirect_uri_allowed_def list_ex_iff)
      have req: "?ss \<noteq> []" "is_public c \<longrightarrow> ar_query q ''code_challenge'' \<noteq> []"
        "ar_query q ''code_challenge'' \<noteq> [] \<longrightarrow> ar_query q ''code_challenge_method'' = ''S256''"
        using fine(2) by (auto simp: request_error_def split: if_splits)
      have "code_stored (\<lambda>ac. authorized A q ac t) t (snd (session_gate A q c ?ss t))"
        by (rule stored_weaken [OF session_stored])
          (use c uri req in \<open>auto simp: authorized_def code_for_def t\<close>)
      with fine show ?thesis by (simp add: t stored_faults authorized_blind)
    qed (simp_all add: t refuse_def redirect_error_def redirect_to_def code_stored_def)
  qed (rule keeps_load_client [OF blind_codes])
qed

section \<open>Where a browser is sent\<close>

definition lands :: "auth_conf \<Rightarrow> string \<Rightarrow> redirect \<Rightarrow> bool" where
  "lands A uri r \<longleftrightarrow> (\<exists>rest. fst r \<in> {uri @ ''?code='' @ rest, uri @ ''?error='' @ rest, au_app_url A @ ''/login?continue='' @ rest,
      au_app_url A @ ''/consent?'' @ rest, au_app_url A @ acceptTermsPath @ ''?'' @ rest}) \<and> set (snd r) \<subseteq> {drop_session_cookie A}"

lemma lands_pages:
  "redirect_error uri st code desc s = (Inr r, t) \<Longrightarrow> lands A uri r"
  "redirect_to (uri @ ''?code='' @ rest) s = (Inr r, t) \<Longrightarrow> lands A uri r"
  "redirect_to (login_url A u) s = (Inr r, t) \<Longrightarrow> lands A uri r"
  "redirect_to (consent_url A u name ss) s = (Inr r, t) \<Longrightarrow> lands A uri r"
  "lands A uri (login_url A u, [drop_session_cookie A])"
  by (auto simp: lands_def redirect_error_def redirect_to_def error_location_def login_url_def consent_url_def)

lemma lands_terms:
  assumes "ask_terms A q sess pend s = (Inr r, t)"
  shows "lands A (ar_query q ''redirect_uri'') r"
proof -
  have l: "\<exists>rest. l = au_app_url A @ acceptTermsPath @ ''?'' @ rest" if "mint_accept_terms_url A p pend s = (Inr l, u)" for l u p
    using that unfolding mint_accept_terms_url_def by (auto elim!: bindE_InrE)
  obtain m u where m: "mint_accept_terms_url A (terms_payload_for A q sess) pend s = (m, u)" by force
  show ?thesis
  proof (cases m)
    case (Inl e)
    with assms m show ?thesis by (auto simp: ask_terms_def bindE_run intro: lands_pages)
  next
    case (Inr x)
    with l m obtain rest where "x = au_app_url A @ acceptTermsPath @ ''?'' @ rest" by blast
    with Inr assms m show ?thesis by (auto simp: ask_terms_def bindE_run redirect_to_def lands_def)
  qed
qed

lemma lands_issue: "issue_code A q sess ss s = (Inr r, t) \<Longrightarrow> lands A (ar_query q ''redirect_uri'') r"
  unfolding issue_code_def Let_def
  by (auto simp: bindE_run split: sum.splits prod.splits elim: lands_pages(1-4) lands_pages(2) [simplified])

lemma lands_consent: "consent_gate A q c sess ss s = (Inr r, t) \<Longrightarrow> lands A (ar_query q ''redirect_uri'') r"
  unfolding consent_gate_def
  by (auto simp: bindE_run split: sum.splits prod.splits if_splits elim: lands_pages(1-4) lands_issue)

lemma lands_gate: "terms_gate A q c sess ss s = (Inr r, t) \<Longrightarrow> lands A (ar_query q ''redirect_uri'') r"
  unfolding terms_gate_def Let_def
  by (auto simp: bindE_run split: sum.splits prod.splits if_splits elim: lands_pages(1-4) lands_terms lands_consent)

lemma lands_session: "session_gate A q c ss s = (Inr r, t) \<Longrightarrow> lands A (ar_query q ''redirect_uri'') r"
  unfolding session_gate_def Let_def
  by (auto simp: bindE_run split: sum.splits prod.splits if_splits intro: lands_pages(5) elim: lands_pages(1-4) lands_gate)

text \<open>Claim C38. No open redirect. Whatever request arrives at the authorize endpoint and whatever calls
  fail, a browser is redirected only if the client exists, and then either to an address the client has
  registered, with a code or an error appended, or to the sign-in, consent or terms page of the platform;
  no cookie is set, at most the dead session's is dropped.\<close>

theorem authorize_stays_registered:
  assumes "authorize A q s = (Inr (location, cookies), t)"
  shows "\<exists>c rest. tget (ow_clients (world s)) (build_client_pk (ar_query q ''client_id'')) = Some c \<and>
    ar_query q ''redirect_uri'' \<in> set (cl_redirect_uris c) \<and>
    location \<in> {ar_query q ''redirect_uri'' @ ''?code='' @ rest, ar_query q ''redirect_uri'' @ ''?error='' @ rest,
      au_app_url A @ ''/login?continue='' @ rest, au_app_url A @ ''/consent?'' @ rest, au_app_url A @ ''/accept-terms'' @ ''?'' @ rest} \<and>
    set cookies \<subseteq> {drop_session_cookie A}"
proof -
  from assms obtain c s1 where g: "load_client (ar_query q ''client_id'') s = (Inr c, s1)"
    and allowed: "is_redirect_uri_allowed c (ar_query q ''redirect_uri'')"
    and rest: "(case request_error q c of Some (code, desc) \<Rightarrow> redirect_error (ar_query q ''redirect_uri'') (ar_query q ''state'') code desc
      | None \<Rightarrow> session_gate A q c (filter_scopes c (OAuthTokens.fields (ar_query q ''scope'')))) s1 = (Inr (location, cookies), t)"
    unfolding authorize_def Let_def by (auto simp: refuse_Inr elim!: bindE_InrE split: if_splits)
  from rest have "lands A (ar_query q ''redirect_uri'') (location, cookies)"
    by (auto split: option.splits prod.splits intro: lands_pages(1) lands_session)
  with client_Inr [OF g] allowed show ?thesis
    by (auto simp: lands_def is_redirect_uri_allowed_def list_ex_iff acceptTermsPath_def)
qed

section \<open>Where a token comes from\<close>

text \<open>What happens between a sign-in and the exchange of a code: calls of the authorize and token
  endpoints by anyone, and anything that stores no code.\<close>

inductive auth_step :: "auth_conf \<Rightarrow> 'v auth_world_scheme del_db \<Rightarrow> 'v auth_world_scheme del_db \<Rightarrow> bool" for A where
  authorize: "auth_step A s (snd (authorize A q s))"
| token: "auth_step A s (snd (token_endpoint (au_tokens A) q s))"
| revoke: "auth_step A s (snd (revoke_endpoint (au_tokens A) q s))"
| elsewhere: "codes_gone s t \<Longrightarrow> auth_step A s t"

lemma auth_step_codes:
  assumes "auth_step A s t"
  shows "codes_gone s t \<or> (\<exists>q. t = snd (authorize A q s))"
  using assms by cases (use tracksD [OF gone_endpoint(1)] tracksD [OF gone_endpoint(2)] in blast)+

lemma code_origin:
  assumes "(auth_step A)\<^sup>*\<^sup>* s0 s" and "codes s0 = []" and "tget (codes s) k = Some (ac, e)"
  shows "\<exists>s1 q. (auth_step A)\<^sup>*\<^sup>* s0 s1 \<and> (auth_step A)\<^sup>*\<^sup>* s1 s \<and> authorized A q ac s1 \<and> e = clock s1 + codeTTL"
  using assms(1, 3)
proof (induction arbitrary: ac e rule: rtranclp_induct)
  case base
  with assms(2) show ?case by simp
next
  case (step s t)
  show ?case
  proof (cases "tget (codes t) k = tget (codes s) k")
    case True
    with step.IH [of ac e] step.prems step.hyps(2) show ?thesis by (metis rtranclp.rtrancl_into_rtrancl)
  next
    case False
    with auth_step_codes [OF step.hyps(2)] step.prems obtain q where t: "t = snd (authorize A q s)"
      by (metis codes_gone_def option.distinct(1))
    from authorize_stored [of A q s] False have "authorized A q ac s" "e = clock s + codeTTL"
      using step.prems unfolding t [symmetric] by (auto simp: code_stored_def split: if_splits)
    with step.hyps show ?thesis by blast
  qed
qed

text \<open>Claim C39. Every token of a sign-in traces back to a person. In every run, when the exchange of a code
  succeeds, somebody was authorized for exactly that code at most a minute before: at that moment the
  client existed with this redirect address, a public client gave a S256 challenge, the browser's session
  was live and recent enough for the request, its user had accepted the current terms and, unless the
  client is the platform's, had granted the scopes; the scopes are those the client asked for and may
  have; and the token is for this client, user and session, with these scopes.\<close>

theorem token_traces_to_sign_in:
  assumes "codes s0 = []" and "(auth_step A)\<^sup>*\<^sup>* s0 s" and "authorization_code (au_tokens A) q s = (Inr resp, t)"
  shows "\<exists>s1 q1 ac cl. (auth_step A)\<^sup>*\<^sup>* s0 s1 \<and> (auth_step A)\<^sup>*\<^sup>* s1 s \<and> authorized A q1 ac s1 \<and>
    clock s \<le> clock s1 + 60 * second \<and>
    ac_client_id ac = tq_form q ''client_id'' \<and> ac_redirect_uri ac = tq_form q ''redirect_uri'' \<and>
    (ac_challenge ac \<noteq> [] \<longrightarrow> raw_url_encode (au_sha A (tq_form q ''code_verifier'')) = ac_challenge ac) \<and>
    tc_sign (au_tokens A) (AccessToken cl) = Some (tr_access_token resp) \<and>
    at_sub cl = ac_user_id ac \<and> at_sid cl = ac_session_id ac \<and> at_azp cl = ac_client_id ac \<and>
    at_scope cl = join_space (ac_scopes ac) \<and> tr_scope resp = join_space (ac_scopes ac)"
proof -
  obtain c ac i u sess w where
    live: "live_code (codes s) (code_key (au_tokens A) q) (clock s) = Some ac"
    and red: "redeemable (au_tokens A) ac (tq_form q ''client_id'') (tq_form q ''redirect_uri'') (tq_form q ''code_verifier'')"
    and iss: "issue_tokens (au_tokens A) q c (tq_form q ''client_id'') ac u sess w = (Inr resp, t)"
    by (rule exchange_Inr [OF assms(3)], elim exE conjE) (rule that; assumption)
  from live obtain e where e: "tget (codes s) (code_key (au_tokens A) q) = Some (ac, e)" "clock s \<le> e"
    by (auto simp: live_code_def split: option.splits prod.splits if_splits)
  from code_origin [OF assms(2, 1) e(1)] obtain s1 q1 where
    o: "(auth_step A)\<^sup>*\<^sup>* s0 s1" "(auth_step A)\<^sup>*\<^sup>* s1 s" "authorized A q1 ac s1" "e = clock s1 + codeTTL" by blast
  let ?cl = "claims_of (au_tokens A) (ac_user_id ac) (ac_session_id ac) (tq_form q ''client_id'') (ac_scopes ac)
      (access_token_audience (tc_audience (au_tokens A)) c) (se_auth_time sess) (se_last_mfa_at sess) (se_amr sess)
      (kyc_claim_for u (ac_scopes ac)) (clock w)"
  have "clock s \<le> clock s1 + 60 * second" using e(2) o(4) by (simp add: codeTTL_def)
  with o(1-3) red issue_Inr [OF iss] show ?thesis
    by (intro exI [of _ s1] exI [of _ q1] exI [of _ ac] exI [of _ ?cl])
      (auto simp: redeemable_def verify_pkce_def au_sha_def claims_of_def)
qed

end
