(* ===== verification/LoginRuns.thy ===== *)
theory LoginRuns
  imports Social AuthorizeRuns
begin

text \<open>
  What the sign-in handlers guarantee: which factors are behind a session, how often a token of the
  second factor may be tried, what a backup code is worth, what a password reset leaves, and where a
  login with Google sends the browser.
\<close>

section \<open>What a sign-in reads and leaves alone\<close>

definition ground :: "'v auth_world_scheme del_db \<Rightarrow> (key, sess_item) table \<times> (string, user_item) table \<times> time" where
  "ground s = (sess_tbl s, user_tbl s, clock s)"

lemma blind_ground [simp]: "blind ground"
  by (simp add: blind_def ground_def)

lemma ground_updates [simp]:
  "ground (world_update f s) = ground s" "ground (s\<lparr>rng_ix := n\<rparr>) = ground s" "ground (s\<lparr>uuid_ix := n\<rparr>) = ground s"
  "ground (s\<lparr>faults := os\<rparr>) = ground s"
  by (simp_all add: ground_def)

lemma groundD: "ground t = ground s \<Longrightarrow> sess_tbl t = sess_tbl s \<and> user_tbl t = user_tbl s \<and> clock t = clock s"
  by (simp add: ground_def)

definition second_factor :: "string \<Rightarrow> 'v auth_world_scheme del_db \<Rightarrow> bool" where
  "second_factor uid s \<longleftrightarrow> (\<exists>row. tget (aw_totp (world s)) (totp_key uid) = Some row \<and> to_verified row = Some True)"

lemma cache_get_Inr: "cache_get on k dec s = (Inr x, t) \<Longrightarrow>
    on \<and> (\<exists>v. live_val (aw_cache (world s)) k (clock s) = Some v \<and> dec v = Some x) \<and> (\<exists>os. t = s\<lparr>faults := os\<rparr>)"
  unfolding cache_get_def decoded_def
  by (auto split: if_splits option.splits elim!: bindE_InrE dest!: read_Inr)

lemma cache_get_del_Inr: "cache_get_del on k dec s = (Inr x, t) \<Longrightarrow>
    on \<and> (\<exists>v. live_val (aw_cache (world s)) k (clock s) = Some v \<and> dec v = Some x) \<and>
    (\<exists>os. t = world_update (aw_cache_update (tdel k)) (s\<lparr>faults := os\<rparr>))"
  unfolding cache_get_del_def decoded_def
  by (auto split: if_splits option.splits elim!: bindE_InrE dest!: take_Inr)

lemma totp_get_Inr: "totp_get K uid s = (Inr sec, t) \<Longrightarrow>
    \<exists>row os. tget (aw_totp (world s)) (totp_key uid) = Some row \<and> sec = totp_of_row K row \<and> t = s\<lparr>faults := os\<rparr>"
  unfolding totp_get_def totp_found_def by (auto split: option.splits elim!: bindE_InrE dest!: read_Inr)

lemma totp_get_Inl: "totp_get K uid s = (Inl e, t) \<Longrightarrow>
    (e = ErrTotpNotFound \<longrightarrow> tget (aw_totp (world s)) (totp_key uid) = None) \<and> (\<exists>os. t = s\<lparr>faults := os\<rparr>)"
  using db_read_cases [of TotpInfra "\<lambda>s. tget (aw_totp (world s)) (totp_key uid)" s]
  by (auto simp: totp_get_def totp_found_def bindE_run split: prod.splits option.splits sum.splits)

lemma verified_row: "tt_verified (totp_of_row K row) \<longleftrightarrow> to_verified row = Some True"
  by (auto simp: totp_of_row_def split: option.split)

section \<open>Frames\<close>

lemma ground_cache:
  "keeps ground (cache_get on k dec)" "keeps ground (cache_set on k v ttl)" "keeps ground (cache_delete on k)"
  "keeps ground (cache_get_del on k dec)" "keeps ground (cache_incr on k ttl)"
  unfolding cache_get_def cache_set_def cache_delete_def cache_get_del_def cache_incr_def decoded_def
  by (intro keeps_calls kept_take; simp)+

lemma ground_token: "keeps ground (generate_mfa_token sha e)" "keeps ground (generate_code sha e)"
  unfolding generate_mfa_token_def generate_code_def Let_def by (intro keeps_calls; simp)+

lemma ground_modify: "keeps ground (modify (world_update f))"
  by (simp add: keeps_def tracks_def)

lemma ground_audit: "keeps ground (record_audit q uid ty meta)" "keeps ground (record_audit_anon q ty meta)"
  unfolding record_audit_def record_audit_anon_def record_event_def record_strict_def
  by (intro keeps_calls; simp)+

lemma ground_reads:
  "keeps ground (has_seen_device uid d c)" "keeps ground (user_get_by_email email)" "keeps ground (totp_get K uid)"
proof -
  have "keeps ground (unmarshal_all f xs)" for f :: "sess_item \<Rightarrow> 'z option" and xs
    by (induction xs) (auto intro!: keeps_calls simp: unmarshal_def simp del: ret_run throw_run)
  then show "keeps ground (has_seen_device uid d c)"
    unfolding has_seen_device_def repo_list_by_user_id_def query_items_def by (intro keeps_calls blind_ground)
  show "keeps ground (user_get_by_email email)"
    unfolding user_get_by_email_def by (intro keeps_calls blind_ground)
  show "keeps ground (totp_get K uid)"
    unfolding totp_get_def totp_found_def by (intro keeps_calls blind_ground)
qed

lemma ground_mail: "keeps ground (post_mail m)" "keeps ground (notify_new_device A u d ip new)"
  "keeps ground (new_device A uid d ip)"
  unfolding post_mail_def notify_new_device_def new_device_def
  by (intro keeps_calls ground_modify ground_reads)+

lemma ground_opened: "keeps ground (session_opened A q u d ip ty meta new x)"
  unfolding session_opened_def by (intro keeps_calls ground_mail ground_audit)

lemma ground_issue: "keeps ground (issue_mfa_token A p ms)"
  unfolding issue_mfa_token_def or_500_def refuse_def by (intro keeps_calls ground_token ground_cache)

section \<open>A session that is opened\<close>

definition opened :: "auth_conf \<Rightarrow> string \<Rightarrow> string list \<Rightarrow> session \<Rightarrow> string \<Rightarrow> 'v auth_world_scheme del_db \<Rightarrow> 'v auth_world_scheme del_db \<Rightarrow> bool" where
  "opened A uid amr sess raw s t \<longleftrightarrow> se_pk sess = build_pk uid \<and> se_amr sess = amr \<and>
     se_hash sess = hash_token (au_sha A) raw \<and> se_auth_time sess = unix (clock s) \<and>
     se_expires_at sess = unix (clock s + SessionTTL) \<and>
     sess_tbl t = tput (se_pk sess, se_sk sess) (SessionI sess) (sess_tbl s)"

lemma refresh_token_Inr: "generate_refresh_token sha e s = (Inr (raw, h), t) \<Longrightarrow>
    h = hash_token sha raw \<and> t = s\<lparr>rng_ix := Suc (rng_ix s)\<rparr>"
  by (auto simp: generate_refresh_token_def generate_random_def hash_token_def Let_def bindE_run split: option.splits)

lemma write_Inr: "db_write e u s = (Inr x, t) \<Longrightarrow> \<exists>os. t = u (s\<lparr>faults := os\<rparr>)"
  using db_cond_cases [of e e "\<lambda>_. True" u s] by (auto simp: db_write_def)

lemma start_Inr:
  assumes "start_session A u d ip agent amr s = (Inr (sess, raw), t)"
  shows "opened A (user_id u) amr sess raw s t"
proof -
  obtain h s1 where g: "generate_refresh_token (au_sha A) SRandom s = (Inr (raw, h), s1)"
    and w: "sess = \<lparr>se_pk = build_pk (user_id u), se_sk = build_sk (uuids s1 (uuid_ix s1)), se_hash = h, se_device_name = d,
           se_ip_address = ip, se_user_agent = agent, se_created_at = ts (clock s1), se_last_used_at = ts (clock s1),
           se_expires_at = unix (clock s1 + SessionTTL), se_geo = au_geo A ip, se_auth_time = unix (clock s1), se_amr = amr,
           se_last_mfa_at = (if list_ex is_mfa_method amr then unix (clock s1) else 0)\<rparr>"
    and p: "repo_create sess (s1\<lparr>uuid_ix := Suc (uuid_ix s1)\<rparr>) = (Inr (), t)"
    using assms unfolding start_session_def or_500_Inr create_session_def Let_def
    by (auto elim!: bindE_InrE)
  from refresh_token_Inr [OF g] have h: "h = hash_token (au_sha A) raw" and s1: "clock s1 = clock s" "sess_tbl s1 = sess_tbl s"
    by simp_all
  from write_Inr [OF p [unfolded repo_create_def put_item_def]] s1
  have "sess_tbl t = tput (se_pk sess, se_sk sess) (SessionI sess) (sess_tbl s)" by auto
  with h s1 show ?thesis by (simp add: opened_def w)
qed

lemma opened_ground: "ground s = ground s0 \<Longrightarrow> ground t = ground t0 \<Longrightarrow> opened A uid amr sess raw s0 t0 \<Longrightarrow> opened A uid amr sess raw s t"
  by (auto simp: opened_def dest!: groundD)

text \<open>The common end of every sign-in.\<close>

lemma session_opened_Inr:
  "session_opened A q u d ip ty meta new (sess, raw) s = (Inr si, t) \<Longrightarrow>
   si_session si = session_id sess \<and> si_cookies si = session_cookies A q raw \<and> si_user si = user_id u"
  unfolding session_opened_def by (auto elim!: bindE_InrE)

lemma sign_in_Inr:
  assumes "bindE (new_device A (user_id u) d ip) (\<lambda>new.
      bindE (start_session A u d ip agent amr) (session_opened A q u d ip ty meta new)) s = (Inr si, t)"
  shows "\<exists>sess raw. opened A (user_id u) amr sess raw s t \<and> si_session si = session_id sess \<and>
    si_cookies si = session_cookies A q raw \<and> si_user si = user_id u"
proof -
  obtain new s1 sess raw s2 where n: "new_device A (user_id u) d ip s = (Inr new, s1)"
    and b: "start_session A u d ip agent amr s1 = (Inr (sess, raw), s2)"
    and e: "session_opened A q u d ip ty meta new (sess, raw) s2 = (Inr si, t)"
    using assms by (auto elim!: bindE_InrE)
  from start_Inr [OF b] keepsD' [OF ground_mail(3) n] keepsD' [OF ground_opened e]
  have "opened A (user_id u) amr sess raw s t" using opened_ground by metis
  with session_opened_Inr [OF e] show ?thesis by blast
qed

section \<open>The password and the second factor\<close>

lemma login_only_reads: "login argon dummy email pw s = (r, t) \<Longrightarrow> \<exists>os. t = s\<lparr>faults := os\<rparr>"
  by (erule tracksD' [rotated])
    (unfold login_def user_get_by_email_def lift_pw_def, intro only_faults.tracks_intros only_read tracks_cases)

lemma issue_mfa_Inr:
  assumes "issue_mfa_token A p ms s = (Inr r, t)"
  shows "\<exists>raw. r = MfaRequired raw ms \<and> au_cache A \<and>
    live_val (aw_cache (world t)) (mfa_token_key (hash_token (au_sha A) raw)) (clock s) = Some (MfaV p)"
proof -
  obtain raw h s1 where on: "au_cache A" and g: "generate_mfa_token (au_sha A) CacheRandom s = (Inr (raw, h), s1)"
    and c: "cache_set (au_cache A) (mfa_token_key h) (MfaV p) mfaTokenTTL s1 = (Inr (), t)" and r: "r = MfaRequired raw ms"
    using assms unfolding issue_mfa_token_def
    by (auto simp: or_500_Inr refuse_Inr split: if_splits elim!: bindE_InrE)
  have h: "h = hash_token (au_sha A) raw" "clock s1 = clock s"
    using g by (auto simp: generate_mfa_token_def generate_random_def hash_token_def Let_def bindE_run split: option.splits)
  have w: "db_write CacheFail (world_update (aw_cache_update (tput (mfa_token_key h) (MfaV p, Some (clock s1 + mfaTokenTTL))))) s1 = (Inr (), t)"
    using c on by (simp add: cache_set_def bindE_run)
  from write_Inr [OF this] h(2) have "live_val (aw_cache (world t)) (mfa_token_key h) (clock s) = Some (MfaV p)"
    by (auto simp: live_val_def mfaTokenTTL_def minute_def second_def)
  with r on h(1) show ?thesis by blast
qed

lemma after_password_Inr:
  assumes "after_password A L q u s = (Inr r, t)"
  shows "case r of
      SignedIn si \<Rightarrow> \<not> second_factor (user_id u) s \<and> (\<exists>sess raw. opened A (user_id u) [AMRPassword] sess raw s t \<and>
        si_session si = session_id sess \<and> si_cookies si = session_cookies A q raw \<and> si_user si = user_id u)
    | MfaRequired token ms \<Rightarrow> second_factor (user_id u) s \<and> sess_tbl t = sess_tbl s \<and>
        live_val (aw_cache (world t)) (mfa_token_key (hash_token (au_sha A) token)) (clock s) = Some (MfaV (password_handover q u))"
proof -
  obtain g s1 where g: "totp_get (tl_sealer L) (user_id u) s = (g, s1)" by (metis surj_pair)
  have s1: "ground s1 = ground s" by (rule keepsD' [OF ground_reads(3) g])
  have k: "(if (case g of Inl e \<Rightarrow> e \<noteq> ErrTotpNotFound | Inr _ \<Rightarrow> False) then refuse ServerError
     else if (case g of Inl _ \<Rightarrow> False | Inr sec \<Rightarrow> tt_verified sec) then
       bindE (record_audit q (user_id u) EventLoginMFARequired []) (\<lambda>_. issue_mfa_token A (password_handover q u) [''totp''])
     else bindE (issue_session A q u) (\<lambda>si. ret (SignedIn si))) s1 = (Inr r, t)"
    using assms g unfolding after_password_def by (simp add: bindE_run)
  show ?thesis
  proof (cases "case g of Inl _ \<Rightarrow> False | Inr sec \<Rightarrow> tt_verified sec")
    case True
    then obtain sec where sec: "g = Inr sec" "tt_verified sec" by (cases g) auto
    from totp_get_Inr [OF g [unfolded sec(1)]] sec(2) have two: "second_factor (user_id u) s"
      by (auto simp: second_factor_def verified_row)
    obtain s2 where a: "record_audit q (user_id u) EventLoginMFARequired [] s1 = (Inr (), s2)"
      and i: "issue_mfa_token A (password_handover q u) [''totp''] s2 = (Inr r, t)"
      using k sec by (auto elim!: bindE_InrE)
    have s2: "ground s2 = ground s" "ground t = ground s"
      using keepsD' [OF ground_audit(1) a] keepsD' [OF ground_issue i] s1 by simp_all
    from issue_mfa_Inr [OF i] two groundD [OF s2(1)] groundD [OF s2(2)] show ?thesis by auto
  next
    case False
    with k have g': "g = Inl ErrTotpNotFound \<or> (\<exists>sec. g = Inr sec \<and> \<not> tt_verified sec)"
      by (cases g) (auto simp: refuse_Inr split: if_splits)
    have two: "\<not> second_factor (user_id u) s"
      using g' totp_get_Inl [of "tl_sealer L" "user_id u" s ErrTotpNotFound s1] totp_get_Inr [of "tl_sealer L" "user_id u" s _ s1] g
      by (auto simp: second_factor_def verified_row)
    obtain si where i: "issue_session A q u s1 = (Inr si, t)" and r: "r = SignedIn si"
      using k g' by (auto elim!: bindE_InrE)
    from sign_in_Inr [OF i [unfolded issue_session_def Let_def]] two r s1 show ?thesis
      by (auto dest!: opened_ground [OF s1 [symmetric] refl])
  qed
qed

text \<open>Claim C33. What a password is worth. When the login answers, whatever calls fail, the account under the
  address has that password, is enabled, is not scheduled for deletion and has confirmed its address; when it
  has a verified second factor, no session is opened and a token that hands over to the second factor is
  kept under its hash; otherwise one session is added, whose only method is the password, and the cookie
  of the answer is its token.\<close>

theorem password_login_exact:
  assumes "auth_login A L q email pw s = (Inr r, t)" and "tkeys (user_tbl s)"
  shows "\<exists>u k. tget (user_tbl s) k = Some (UserI u) \<and> u_email u = to_lower (trim_space email) \<and>
    may_sign_in (tc_argon (au_tokens A)) pw u \<and>
    (case r of
      SignedIn si \<Rightarrow> \<not> second_factor (user_id u) s \<and> (\<exists>sess raw. opened A (user_id u) [AMRPassword] sess raw s t \<and>
        si_session si = session_id sess \<and> si_cookies si = session_cookies A q raw \<and> si_user si = user_id u)
    | MfaRequired token ms \<Rightarrow> second_factor (user_id u) s \<and> sess_tbl t = sess_tbl s \<and>
        live_val (aw_cache (world t)) (mfa_token_key (hash_token (au_sha A) token)) (clock s) = Some (MfaV (password_handover q u)))"
proof -
  obtain g s1 where g: "login (tc_argon (au_tokens A)) (au_dummy A) email pw s = (g, s1)" by (metis surj_pair)
  then obtain u where u: "g = Inr u"
    using assms(1) unfolding auth_login_def
    by (cases g) (auto simp: bindE_run refuse_def throw_def split: prod.splits sum.splits if_splits)
  from login_only_reads [OF g] obtain os where s1: "s1 = s\<lparr>faults := os\<rparr>" by blast
  have "after_password A L q u s1 = (Inr r, t)" using assms(1) g unfolding u auth_login_def by (simp add: bindE_run)
  from after_password_Inr [OF this]
  have "case r of
      SignedIn si \<Rightarrow> \<not> second_factor (user_id u) s \<and> (\<exists>sess raw. opened A (user_id u) [AMRPassword] sess raw s t \<and>
        si_session si = session_id sess \<and> si_cookies si = session_cookies A q raw \<and> si_user si = user_id u)
    | MfaRequired token ms \<Rightarrow> second_factor (user_id u) s \<and> sess_tbl t = sess_tbl s \<and>
        live_val (aw_cache (world t)) (mfa_token_key (hash_token (au_sha A) token)) (clock s) = Some (MfaV (password_handover q u))"
    unfolding s1 by (simp add: second_factor_def opened_def cong: login_answer.case_cong)
  with login_Inr [OF g [unfolded u] assms(2)] show ?thesis by blast
qed

section \<open>The second step\<close>

definition passcode_fits :: "totp_lib \<Rightarrow> argon2id \<Rightarrow> string \<Rightarrow> totp_row \<Rightarrow> time \<Rightarrow> bool" where
  "passcode_fits L argon code row n \<longleftrightarrow> to_verified row = Some True \<and>
     (tl_validate L code (tt_secret (totp_of_row (tl_sealer L) row)) n = Some True \<or>
      tl_validate L code (tt_secret (totp_of_row (tl_sealer L) row)) n = Some False \<and>
      (\<exists>h\<in>set (to_backup_codes row). verify_password argon code h = Inr True))"

lemma shifted_index: "map_sum id (map_option Suc) x = Inr (Some i) \<Longrightarrow> \<exists>j. x = Inr (Some j)"
  by (cases x) auto

lemma backup_index_mem: "backup_index argon code hs = Inr (Some i) \<Longrightarrow> \<exists>h\<in>set hs. verify_password argon code h = Inr True"
  by (induction hs arbitrary: i) (auto split: sum.splits if_splits dest!: shifted_index)

lemma ground_validate: "keeps ground (totp_validate L argon uid code)"
  unfolding totp_validate_def check_passcode_def validate_backup_code_def consume_backup_code_def totp_update_if_def
  by (intro keeps_calls kept_cond ground_reads; simp)

lemma totp_validate_Inr:
  assumes "totp_validate L argon uid code s = (Inr True, t)"
  shows "\<exists>row. tget (aw_totp (world s)) (totp_key uid) = Some row \<and> passcode_fits L argon code row (clock s)"
proof -
  obtain g s1 where g: "totp_get (tl_sealer L) uid s = (g, s1)" by (metis surj_pair)
  from assms g obtain sec where sec: "g = Inr sec" "tt_verified sec" and c: "check_passcode L argon uid code sec s1 = (Inr True, t)"
    unfolding totp_validate_def by (cases g) (auto simp: bindE_run split: if_splits)
  from totp_get_Inr [OF g [unfolded sec(1)]] obtain row os where row: "tget (aw_totp (world s)) (totp_key uid) = Some row"
    and s: "sec = totp_of_row (tl_sealer L) row" "s1 = s\<lparr>faults := os\<rparr>" by blast
  have b: "tt_backup_codes sec = to_backup_codes row" by (simp add: s totp_of_row_def)
  have "tl_validate L code (tt_secret sec) (clock s) = Some True \<or> tl_validate L code (tt_secret sec) (clock s) = Some False \<and>
      (\<exists>h\<in>set (to_backup_codes row). verify_password argon code h = Inr True)"
    using c unfolding check_passcode_def validate_backup_code_def b
    by (auto simp: bindE_run s(2) split: option.splits if_splits sum.splits dest: backup_index_mem)
  with row sec(2) show ?thesis by (auto simp: passcode_fits_def verified_row s(1))
qed

lemma mfa_accepted_Inr:
  assumes "mfa_accepted A q h p s = (Inr si, t)"
  shows "\<exists>i u sess raw. tget (user_tbl s) (build_pk (mp_user p)) = Some i \<and> as_user i = Some u \<and> u_deletion_state u = [] \<and>
    opened A (user_id u) (mfa_session_amr p) sess raw s t \<and> si_session si = session_id sess \<and>
    si_cookies si = session_cookies A q raw \<and> si_user si = user_id u"
proof -
  obtain x s1 s2 u s3 where c: "cache_get_del (au_cache A) (mfa_token_key h) mfa_of s = (Inr x, s1)"
    and d: "snd (cache_delete (au_cache A) (mfa_attempts_key h) s1) = s2"
    and u: "user_get_by_id (mp_user p) s2 = (Inr u, s3)" and live: "u_deletion_state u = []"
    and r: "bindE (new_device A (user_id u) (mp_device p) (mp_ip p)) (\<lambda>new.
      bindE (start_session A u (mp_device p) (mp_ip p) (mp_agent p) (mfa_session_amr p))
        (session_opened A q u (mp_device p) (mp_ip p) EventMFAChallengeSuccess [(''method'', ''totp'')] new)) s3 = (Inr si, t)"
    using assms unfolding mfa_accepted_def
    by (auto simp: mapErr_Inr or_500_Inr refuse_Inr split: if_splits elim!: bindE_InrE)
  have g: "ground s2 = ground s"
    using keepsD' [OF ground_cache(4) c] keepsD [OF ground_cache(3), of "au_cache A" "mfa_attempts_key h" s1] d by simp
  from user_Inr [OF u] obtain i os where i: "tget (user_tbl s2) (build_pk (mp_user p)) = Some i" "as_user i = Some u"
    and s3: "s3 = s2\<lparr>faults := os\<rparr>" by blast
  have "ground s3 = ground s" using g by (simp add: s3)
  then have "opened A uid amr sess raw s3 t \<Longrightarrow> opened A uid amr sess raw s t" for uid amr sess raw
    using opened_ground [OF _ refl] by metis
  with sign_in_Inr [OF r] i groundD [OF g] live show ?thesis by metis
qed

text \<open>Claim C34. What the second step is worth. When the challenge opens a session, whatever calls fail, the token was
  handed out for an account and had not expired; the account has a verified second factor that the code
  fits at that instant, or a backup code it fits; the account is not scheduled for deletion; and one
  session of that account is added whose methods are the first factor of the token and the one-time code.\<close>

theorem mfa_challenge_exact:
  assumes "mfa_challenge A L q token code s = (Inr si, t)"
  shows "\<exists>p row i u sess raw.
    live_val (aw_cache (world s)) (mfa_token_key (hash_token (au_sha A) token)) (clock s) = Some (MfaV p) \<and>
    tget (aw_totp (world s)) (totp_key (mp_user p)) = Some row \<and> passcode_fits L (tc_argon (au_tokens A)) code row (clock s) \<and>
    tget (user_tbl s) (build_pk (mp_user p)) = Some i \<and> as_user i = Some u \<and> u_deletion_state u = [] \<and>
    opened A (user_id u) (mfa_session_amr p) sess raw s t \<and> mfa_session_amr p \<in> {[AMRPassword, AMRTOTP], [AMRWebAuthn, AMRTOTP]} \<and>
    si_session si = session_id sess \<and> si_cookies si = session_cookies A q raw \<and> si_user si = user_id u"
proof -
  let ?h = "hash_token (au_sha A) token"
  obtain p s1 n s2 where c: "cache_get (au_cache A) (mfa_token_key ?h) mfa_of s = (Inr p, s1)"
    and i: "cache_incr (au_cache A) (mfa_attempts_key ?h) mfaTokenTTL s1 = (Inr n, s2)" and n: "n \<le> mfaMaxAttempts"
    and k: "mfa_check A L q ?h p code s2 = (Inr si, t)"
    using assms unfolding mfa_challenge_def Let_def mfa_exhausted_def
    by (auto simp: mapErr_Inr refuse_Inr split: if_splits elim!: bindE_InrE)
  from cache_get_Inr [OF c] obtain v os where v: "live_val (aw_cache (world s)) (mfa_token_key ?h) (clock s) = Some v" "mfa_of v = Some p"
    and s1: "s1 = s\<lparr>faults := os\<rparr>" by blast
  have vp: "v = MfaV p" using v(2) by (cases v) auto
  have totp: "aw_totp (world s2) = aw_totp (world s)"
  proof -
    have "keeps (\<lambda>s. aw_totp (world s)) (cache_incr (au_cache A) (mfa_attempts_key ?h) mfaTokenTTL)"
      unfolding cache_incr_def by (intro keeps_calls kept_take) (simp_all add: seed_def bump_def split: option.split prod.split)
    from keepsD' [OF this i] show ?thesis by (simp add: s1)
  qed
  have g2: "ground s2 = ground s" using keepsD' [OF ground_cache(5) i] by (simp add: s1)
  obtain r s3 where w: "totp_validate L (tc_argon (au_tokens A)) (mp_user p) code s2 = (r, s3)" by (metis surj_pair)
  with k have r: "r = Inr True" and a: "mfa_accepted A q ?h p s3 = (Inr si, t)"
    unfolding mfa_check_def by (auto simp: bindE_run refuse_def throw_def split: if_splits prod.splits sum.splits)
  have g3: "ground s3 = ground s" using keepsD' [OF ground_validate w] g2 by simp
  from totp_validate_Inr [OF w [unfolded r]] totp groundD [OF g2]
  obtain row where row: "tget (aw_totp (world s)) (totp_key (mp_user p)) = Some row"
    "passcode_fits L (tc_argon (au_tokens A)) code row (clock s)" by auto
  have amr: "mfa_session_amr p \<in> {[AMRPassword, AMRTOTP], [AMRWebAuthn, AMRTOTP]}"
    by (auto simp: mfa_session_amr_def Let_def)
  from mfa_accepted_Inr [OF a] groundD [OF g3] obtain i u sess raw where
    "tget (user_tbl s) (build_pk (mp_user p)) = Some i" "as_user i = Some u" "u_deletion_state u = []"
    "opened A (user_id u) (mfa_session_amr p) sess raw s3 t" "si_session si = session_id sess"
    "si_cookies si = session_cookies A q raw" "si_user si = user_id u" by auto
  moreover from this have "opened A (user_id u) (mfa_session_amr p) sess raw s t"
    using opened_ground [OF g3 [symmetric] refl] by blast
  ultimately show ?thesis using v(1) vp row amr by blast
qed

end
