(* ===== verification/LoginLimits.thy ===== *)
theory LoginLimits
  imports LoginRuns
begin

text \<open>
  How often a hand-over token may be tried, what a backup code is worth, and what a password reset
  leaves behind.
\<close>

section \<open>Undisturbed calls\<close>

definition undisturbed :: "'x env_scheme \<Rightarrow> bool" where
  "undisturbed s \<longleftrightarrow> faults s = []"

lemma undisturbed_updates [simp]:
  "undisturbed (s\<lparr>rng_ix := n\<rparr>) = undisturbed s" "undisturbed (s\<lparr>uuid_ix := n\<rparr>) = undisturbed s"
  by (simp_all add: undisturbed_def)

lemma undisturbed_read: "preserves undisturbed (db_read e f)"
  by (simp add: preserves_def undisturbed_def)

lemma undisturbed_cond: "(\<And>s. undisturbed (u s) = undisturbed s) \<Longrightarrow> preserves undisturbed (db_cond e d c u)"
  by (simp add: preserves_def undisturbed_def)

lemma undisturbed_write: "(\<And>s. undisturbed (u s) = undisturbed s) \<Longrightarrow> preserves undisturbed (db_write e u)"
  unfolding db_write_def by (rule undisturbed_cond)

lemma undisturbed_take: "(\<And>s. undisturbed (u s) = undisturbed s) \<Longrightarrow> preserves undisturbed (db_take e f u)"
  by (simp add: preserves_def undisturbed_def db_take_def)

lemma undisturbed_modify: "(\<And>s. undisturbed (u s) = undisturbed s) \<Longrightarrow> preserves undisturbed (modify u)"
  by (simp add: preserves_def)

lemma undisturbed_random: "preserves undisturbed (generate_random e b)" "preserves undisturbed new_uuid" "preserves undisturbed now"
  by (simp_all add: preserves_def generate_random_def Let_def split: option.split)

lemma undisturbed_world [simp]:
  "undisturbed (world_update f s) = undisturbed s" "undisturbed (sess_tbl_update g s) = undisturbed s"
  "undisturbed (user_tbl_update h s) = undisturbed s" "undisturbed (s\<lparr>clock := n\<rparr>) = undisturbed s"
  by (simp_all add: undisturbed_def)

lemmas undisturbed_calls = wp preserves_cases undisturbed_read undisturbed_cond undisturbed_write undisturbed_take
  undisturbed_modify undisturbed_random

lemma undisturbed_cache:
  "preserves undisturbed (cache_get on k dec)" "preserves undisturbed (cache_set on k v ttl)" "preserves undisturbed (cache_delete on k)"
  "preserves undisturbed (cache_get_del on k dec)" "preserves undisturbed (cache_incr on k ttl)"
  unfolding cache_get_def cache_set_def cache_delete_def cache_get_del_def cache_incr_def decoded_def
  by (intro undisturbed_calls; simp)+

lemma undisturbed_audit: "preserves undisturbed (record_audit q uid ty meta)"
  unfolding record_audit_def record_event_def record_strict_def by (intro undisturbed_calls; simp)

lemma undisturbed_session:
  "preserves undisturbed (new_device A uid d ip)" "preserves undisturbed (start_session A u d ip agent amr)"
  "preserves undisturbed (session_opened A q u d ip ty meta new x)"
proof -
  have "preserves undisturbed (unmarshal_all f xs)" for f :: "sess_item \<Rightarrow> 'z option" and xs
    by (induction xs) (auto intro!: undisturbed_calls simp: unmarshal_def simp del: ret_run throw_run)
  then show "preserves undisturbed (new_device A uid d ip)"
    unfolding new_device_def has_seen_device_def repo_list_by_user_id_def query_items_def by (intro undisturbed_calls)
  show "preserves undisturbed (start_session A u d ip agent amr)"
    unfolding start_session_def or_500_def create_session_def generate_refresh_token_def repo_create_def put_item_def Let_def
    by (intro undisturbed_calls; simp)
  show "preserves undisturbed (session_opened A q u d ip ty meta new x)"
    unfolding session_opened_def notify_new_device_def post_mail_def by (intro undisturbed_calls undisturbed_audit; simp)
qed

lemma undisturbed_totp: "preserves undisturbed (totp_validate L argon uid code)"
  unfolding totp_validate_def check_passcode_def validate_backup_code_def consume_backup_code_def totp_update_if_def
    totp_get_def totp_found_def
  by (intro undisturbed_calls; simp)

lemma undisturbed_accepted: "preserves undisturbed (mfa_accepted A q h p)"
  unfolding mfa_accepted_def or_500_def refuse_def user_get_by_id_def
  by (intro undisturbed_calls undisturbed_cache undisturbed_session)

section \<open>The entries of a hand-over token\<close>

abbreviation cached :: "'v auth_world_scheme del_db \<Rightarrow> string \<Rightarrow> (cache_val \<times> time option) option" where
  "cached s k \<equiv> tget (aw_cache (world s)) k"

definition cache_of :: "'v auth_world_scheme del_db \<Rightarrow> (string, cache_val \<times> time option) table" where
  "cache_of s = aw_cache (world s)"

lemma cache_of_updates [simp]:
  "cache_of (world_update (ow_audit_update f) s) = cache_of s" "cache_of (world_update (aw_totp_update g) s) = cache_of s"
  "cache_of (world_update (aw_mails_update h) s) = cache_of s" "cache_of (sess_tbl_update i s) = cache_of s"
  "cache_of (world_update (totp_change uid c) s) = cache_of s" "cache_of (user_tbl_update j s) = cache_of s"
  "cache_of (s\<lparr>rng_ix := n\<rparr>) = cache_of s" "cache_of (s\<lparr>uuid_ix := n\<rparr>) = cache_of s" "cache_of (s\<lparr>faults := os\<rparr>) = cache_of s"
  by (simp_all add: totp_change_def cache_of_def)

lemma blind_cache_of [simp]: "blind cache_of"
  by (simp add: blind_def)

lemma cache_kept:
  "keeps cache_of (totp_validate L argon uid code)" "keeps cache_of (record_audit q uid ty meta)"
  "keeps cache_of (new_device A uid d ip)" "keeps cache_of (start_session A u d ip agent amr)"
  "keeps cache_of (session_opened A q u d ip ty meta new x)" "keeps cache_of (user_get_by_id uid)"
proof -
  show "keeps cache_of (totp_validate L argon uid code)"
    unfolding totp_validate_def check_passcode_def validate_backup_code_def consume_backup_code_def totp_update_if_def
      totp_get_def totp_found_def
    by (intro keeps_calls; simp)
  show audit: "keeps cache_of (record_audit q uid ty meta)" for q uid ty meta
    unfolding record_audit_def record_event_def record_strict_def by (intro keeps_calls; simp)
  have "keeps cache_of (unmarshal_all f xs)" for f :: "sess_item \<Rightarrow> 'z option" and xs
    by (induction xs) (auto intro!: keeps_calls simp: unmarshal_def simp del: ret_run throw_run)
  then show "keeps cache_of (new_device A uid d ip)"
    unfolding new_device_def has_seen_device_def repo_list_by_user_id_def query_items_def by (intro keeps_calls blind_cache_of)
  show "keeps cache_of (start_session A u d ip agent amr)"
    unfolding start_session_def or_500_def create_session_def generate_refresh_token_def repo_create_def put_item_def Let_def
    by (intro keeps_calls; simp)
  show "keeps cache_of (session_opened A q u d ip ty meta new x)"
    unfolding session_opened_def notify_new_device_def post_mail_def
    by (intro keeps_calls audit; simp add: keeps_def tracks_def)
  show "keeps cache_of (user_get_by_id uid)"
    by (rule keeps_reads(1)) simp
qed

lemma cached_of_cache: "keeps cache_of f \<Longrightarrow> keeps (\<lambda>s. cached s k) f"
  by (simp add: keeps_def tracks_def cache_of_def)

lemmas cached_kept = cache_kept [THEN cached_of_cache]

text \<open>After the check of a code the two entries are as they were, or the token is gone.\<close>

lemma accepted_gone:
  assumes "undisturbed s"
  shows "cached (snd (mfa_accepted A q h p s)) (mfa_token_key h) = None \<or> \<not> au_cache A"
proof (cases "au_cache A")
  case True
  let ?k = "mfa_token_key h"
  define s1 where "s1 = world_update (aw_cache_update (tdel ?k)) s"
  obtain r where c: "cache_get_del (au_cache A) ?k mfa_of s = (r, s1)"
  proof -
    have "db_take CacheFail (\<lambda>s. live_val (aw_cache (world s)) ?k (clock s)) (world_update (aw_cache_update (tdel ?k))) s =
        (Inr (live_val (aw_cache (world s)) ?k (clock s)), s1)"
      using assms by (simp add: db_take_def undisturbed_def s1_def)
    then have "snd (cache_get_del (au_cache A) ?k mfa_of s) = s1"
      using True by (auto simp: cache_get_del_def decoded_def bindE_run split: option.split)
    then show thesis using that by (metis prod.collapse)
  qed
  have rest: "keeps (\<lambda>s. cached s ?k) (bindE (logE (cache_delete (au_cache A) (mfa_attempts_key h))) (\<lambda>_.
     bindE (or_500 (user_get_by_id (mp_user p))) (\<lambda>u.
     if u_deletion_state u \<noteq> [] then refuse AccountPendingDeletion
     else
     bindE (new_device A (user_id u) (mp_device p) (mp_ip p)) (\<lambda>new.
     bindE (start_session A u (mp_device p) (mp_ip p) (mp_agent p) (mfa_session_amr p))
       (session_opened A q u (mp_device p) (mp_ip p) EventMFAChallengeSuccess [(''method'', ''totp'')] new)))))"
    unfolding or_500_def refuse_def cache_delete_def
    by (intro keeps_calls cached_kept) (simp_all add: mfa_token_key_def mfa_attempts_key_def blind_def)
  have "cached s1 ?k = None" by (simp add: s1_def)
  with keepsD [OF rest, of s1] c show ?thesis
    by (cases r) (simp_all add: mfa_accepted_def bindE_run mapErr_run)
qed simp

lemma check_entries:
  assumes "undisturbed s" and "au_cache A"
  shows "cached (snd (mfa_check A L q h p code s)) (mfa_token_key h) = None \<or>
    (\<forall>k. cached (snd (mfa_check A L q h p code s)) k = cached s k)"
proof -
  obtain r s1 where v: "totp_validate L (tc_argon (au_tokens A)) (mp_user p) code s = (r, s1)" by (metis surj_pair)
  have s1: "undisturbed s1" "cached s1 k = cached s k" for k
    using preservesD [OF undisturbed_totp assms(1), of L "tc_argon (au_tokens A)" "mp_user p" code] v
      keepsD' [OF cached_kept(1) v] by simp_all
  show ?thesis
  proof (cases "r = Inr True")
    case True
    with v accepted_gone [OF s1(1), of A q h p] assms(2) show ?thesis by (simp add: mfa_check_def bindE_run)
  next
    case False
    obtain a s2 where e: "record_audit q (mp_user p) EventMFAChallengeFailed [(''method'', ''totp'')] s1 = (a, s2)"
      by (metis surj_pair)
    from False v e have "snd (mfa_check A L q h p code s) = s2"
      by (cases a) (simp_all add: mfa_check_def bindE_run refuse_def)
    with keepsD' [OF cached_kept(2) e] s1(2) show ?thesis by simp
  qed
qed

section \<open>How often a token may be tried\<close>

definition tries :: "string \<Rightarrow> 'v auth_world_scheme del_db \<Rightarrow> int" where
  "tries h s = (case live_val (aw_cache (world s)) (mfa_attempts_key h) (clock s) of Some (CountV c) \<Rightarrow> c | _ \<Rightarrow> 0)"

definition tries_left :: "string \<Rightarrow> 'v auth_world_scheme del_db \<Rightarrow> nat" where
  "tries_left h s = (case live_val (aw_cache (world s)) (mfa_token_key h) (clock s) of
       Some (MfaV p) \<Rightarrow> nat (mfaMaxAttempts - tries h s) | _ \<Rightarrow> 0)"

text \<open>The token expires, and its counter counts and does not expire before it.\<close>

definition tries_wf :: "string \<Rightarrow> 'v auth_world_scheme del_db \<Rightarrow> bool" where
  "tries_wf h s \<longleftrightarrow> undisturbed s \<and>
     (\<forall>v e. cached s (mfa_token_key h) = Some (v, e) \<longrightarrow> (\<exists>y. e = Some y \<and> y \<le> clock s + mfaTokenTTL)) \<and>
     (\<forall>v e. cached s (mfa_attempts_key h) = Some (v, e) \<longrightarrow> (\<exists>c. v = CountV c \<and> 0 \<le> c) \<and>
        (\<forall>x w y. e = Some x \<longrightarrow> cached s (mfa_token_key h) = Some (w, Some y) \<longrightarrow> y \<le> x))"

lemma keys_differ: "mfa_token_key h \<noteq> mfa_attempts_key g" "mfa_attempts_key g \<noteq> mfa_token_key h"
  by (simp_all add: mfa_token_key_def mfa_attempts_key_def)

lemma tries_later:
  assumes "tries_wf h s"
  shows "tries_wf h (s\<lparr>clock := clock s + int d\<rparr>) \<and> tries_left h (s\<lparr>clock := clock s + int d\<rparr>) \<le> tries_left h s"
proof
  let ?t = "s\<lparr>clock := clock s + int d\<rparr>"
  show "tries_wf h ?t" using assms unfolding tries_wf_def by fastforce
  show "tries_left h ?t \<le> tries_left h s"
  proof (cases "live_val (aw_cache (world s)) (mfa_token_key h) (clock s + int d)")
    case None
    then show ?thesis by (simp add: tries_left_def)
  next
    case (Some v)
    then obtain e where e: "cached s (mfa_token_key h) = Some (v, e)"
      by (auto simp: live_val_def split: option.splits if_splits)
    with assms obtain y where y: "e = Some y" by (auto simp: tries_wf_def)
    with Some e have late: "clock s + int d \<le> y" by (auto simp: live_val_def split: if_splits)
    have now: "live_val (aw_cache (world s)) (mfa_token_key h) (clock s) = Some v"
      using e y late by (simp add: live_val_def)
    have "tries h ?t = tries h s"
    proof (cases "cached s (mfa_attempts_key h)")
      case (Some a)
      obtain w x where a: "a = (w, x)" by (cases a)
      have "clock s + int d \<le> z" if "x = Some z" for z
      proof -
        have "\<forall>x w y. Some z = Some x \<longrightarrow> cached s (mfa_token_key h) = Some (w, Some y) \<longrightarrow> y \<le> x"
          using assms Some that unfolding a tries_wf_def by blast
        with e y late show ?thesis by fastforce
      qed
      then show ?thesis using Some a by (cases x) (auto simp: tries_def live_val_def)
    qed (simp add: tries_def live_val_def)
    with now Some show ?thesis by (simp add: tries_left_def split: cache_val.split)
  qed
qed

text \<open>One more try is counted.\<close>

lemma incr_run:
  assumes "tries_wf h s" and "on"
  obtains t e where "cache_incr on (mfa_attempts_key h) mfaTokenTTL s = (Inr (tries h s + 1), t)"
    "cached t (mfa_attempts_key h) = Some (CountV (tries h s + 1), e)" "cached t (mfa_token_key h) = cached s (mfa_token_key h)"
    "undisturbed t" "clock t = clock s" "0 \<le> tries h s"
    "\<And>x w y. e = Some x \<Longrightarrow> cached s (mfa_token_key h) = Some (w, Some y) \<Longrightarrow> y \<le> x \<and> clock s \<le> x"
proof -
  let ?k = "mfa_attempts_key h"
  have f: "faults s = []" using assms(1) by (simp add: tries_wf_def undisturbed_def)
  define s1 where "s1 = world_update (seed ?k (clock s) mfaTokenTTL) s"
  define t where "t = world_update (bump ?k (clock s)) s1"
  have run: "cache_incr on ?k mfaTokenTTL s = (case bumped (aw_cache (world s1)) ?k (clock s) of
      None \<Rightarrow> throw CacheFail | Some (c, _) \<Rightarrow> ret c) t"
    using assms(2) f by (simp add: cache_incr_def bindE_run db_take_def s1_def t_def)
  have ttl: "0 \<le> mfaTokenTTL" by (simp add: mfaTokenTTL_def minute_def second_def)
  show thesis
  proof (cases "live_val (aw_cache (world s)) ?k (clock s)")
    case None
    then have z: "tries h s = 0" by (simp add: tries_def)
    have s1: "cached s1 ?k = Some (CountV 0, Some (clock s + mfaTokenTTL))"
      "cached s1 (mfa_token_key h) = cached s (mfa_token_key h)"
      using None by (simp_all add: s1_def seed_def keys_differ)
    then have b: "bumped (aw_cache (world s1)) ?k (clock s) = Some (1, Some (clock s + mfaTokenTTL))"
      using ttl by (simp add: bumped_def live_val_def)
    have "cached t ?k = Some (CountV (tries h s + 1), Some (clock s + mfaTokenTTL))"
      "cached t (mfa_token_key h) = cached s (mfa_token_key h)" "undisturbed t" "clock t = clock s"
      using b s1(2) f z by (simp_all add: t_def bump_def keys_differ undisturbed_def s1_def)
    moreover have "cache_incr on ?k mfaTokenTTL s = (Inr (tries h s + 1), t)" using run b z by simp
    moreover have "y \<le> clock s + mfaTokenTTL \<and> clock s \<le> clock s + mfaTokenTTL" if "cached s (mfa_token_key h) = Some (w, Some y)" for w y
      using assms(1) that ttl unfolding tries_wf_def by auto
    ultimately show thesis using z by (intro that [of t "Some (clock s + mfaTokenTTL)"]) auto
  next
    case (Some v)
    then obtain e where e: "cached s ?k = Some (v, e)" by (auto simp: live_val_def split: option.splits if_splits)
    with assms(1) obtain c where c: "v = CountV c" "0 \<le> c" by (auto simp: tries_wf_def)
    with Some have z: "tries h s = c" by (simp add: tries_def)
    have s1: "s1 = s" using Some by (simp add: s1_def seed_def)
    have b: "bumped (aw_cache (world s1)) ?k (clock s) = Some (c + 1, e)"
      using Some e c by (simp add: bumped_def s1)
    have "cached t ?k = Some (CountV (tries h s + 1), e)"
      "cached t (mfa_token_key h) = cached s (mfa_token_key h)" "undisturbed t" "clock t = clock s"
      using b f z by (simp_all add: t_def bump_def keys_differ undisturbed_def s1)
    moreover have "cache_incr on ?k mfaTokenTTL s = (Inr (tries h s + 1), t)" using run b z by simp
    moreover have "y \<le> x \<and> clock s \<le> x" if "e = Some x" "cached s (mfa_token_key h) = Some (w, Some y)" for x w y
      using assms(1) that e Some unfolding tries_wf_def by (auto simp: live_val_def split: if_splits)
    ultimately show thesis using z c by (intro that [of t e]) auto
  qed
qed

interpretation fades: step_order "\<lambda>s t. cached t k = cached s k \<or> cached t k = None" for k
  by unfold_locales auto

lemma fades_keeps: "keeps (\<lambda>s. cached s k) f \<Longrightarrow> tracks (\<lambda>s t. cached t k = cached s k \<or> cached t k = None) f"
  by (simp add: keeps_def tracks_def)

lemma fades_delete:
  "tracks (\<lambda>s t. cached t k = cached s k \<or> cached t k = None) (cache_delete on j)"
  "tracks (\<lambda>s t. cached t k = cached s k \<or> cached t k = None) (cache_get_del on j dec)"
proof -
  let ?R = "\<lambda>s t. cached t k = cached s k \<or> cached t k = None"
  have w: "tracks ?R (db_write CacheFail (world_update (aw_cache_update (tdel j))))"
    unfolding db_write_def by (rule tracks_db_cond) auto
  then show "tracks ?R (cache_delete on j)"
    unfolding cache_delete_def by (intro fades.tracks_intros)
  have "tracks ?R (db_take CacheFail f (world_update (aw_cache_update (tdel j))))" for f :: "'v auth_world_scheme del_db \<Rightarrow> cache_val option"
    by (auto simp: tracks_def db_take_def split: list.split outcome.split)
  then show "tracks ?R (cache_get_del on j dec)"
    unfolding cache_get_del_def decoded_def by (intro fades.tracks_intros tracks_cases)
qed

lemma fades_accepted: "tracks (\<lambda>s t. cached t k = cached s k \<or> cached t k = None) (mfa_accepted A q h p)"
  unfolding mfa_accepted_def or_500_def refuse_def
  by (intro fades.tracks_intros fades_delete fades_keeps cached_kept)

lemma fades_check: "tracks (\<lambda>s t. cached t k = cached s k \<or> cached t k = None) (mfa_check A L q h p code)"
  unfolding mfa_check_def refuse_def
  by (intro fades.tracks_intros fades_accepted fades_keeps cached_kept)

lemma undisturbed_check: "preserves undisturbed (mfa_check A L q h p code)"
  unfolding mfa_check_def refuse_def by (intro undisturbed_calls undisturbed_totp undisturbed_accepted undisturbed_audit)

lemma ground_clock: "keeps ground f \<Longrightarrow> keeps clock f"
  by (simp add: keeps_def tracks_def ground_def)

lemma clock_check: "keeps clock (mfa_check A L q h p code)"
proof -
  have c: "blind clock" by (simp add: blind_def)
  have u: "keeps clock (unmarshal_all f xs)" for f :: "sess_item \<Rightarrow> 'z option" and xs
    by (induction xs) (auto intro!: keeps_calls simp: unmarshal_def simp del: ret_run throw_run)
  have t: "keeps clock (start_session A u d ip agent amr)" for u d ip agent amr
    unfolding start_session_def or_500_def create_session_def generate_refresh_token_def repo_create_def put_item_def Let_def
    by (intro keeps_calls c; simp)
  show ?thesis
    unfolding mfa_check_def mfa_accepted_def or_500_def refuse_def
    by (intro keeps_calls t ground_clock [OF ground_validate] ground_clock [OF ground_audit(1)] ground_clock [OF ground_cache(3)] ground_clock [OF ground_cache(4)]
        ground_clock [OF ground_mail(3)] ground_clock [OF ground_opened] keeps_reads c)
qed

lemma exhausted_run:
  assumes "undisturbed s" and "au_cache A" and "mfa_exhausted A q h p s = (r, t)"
  shows "r = Inl (InvalidToken, True) \<and> undisturbed t \<and> clock t = clock s \<and>
    cached t (mfa_token_key h) = None \<and> cached t (mfa_attempts_key h) = None"
proof -
  let ?m = "[(''method'', ''totp''), (''reason'', ''max_attempts'')]"
  define s1 where "s1 = world_update (aw_cache_update (tdel (mfa_attempts_key h)))
    (world_update (aw_cache_update (tdel (mfa_token_key h))) s)"
  have s1: "undisturbed s1" "clock s1 = clock s" "cached s1 (mfa_token_key h) = None" "cached s1 (mfa_attempts_key h) = None"
    using assms(1) by (simp_all add: s1_def keys_differ)
  obtain a s2 where e: "record_audit q (mp_user p) EventMFAChallengeFailed ?m s1 = (a, s2)" by (metis surj_pair)
  have a: "a = Inr ()" using e by (simp add: record_audit_def record_event_def)
  have "(r, t) = (Inl (InvalidToken, True), s2)"
    using assms e a by (simp add: mfa_exhausted_def cache_delete_def bindE_run refuse_def s1_def undisturbed_def)
  moreover have "ground s2 = ground s1" by (rule keepsD' [OF ground_audit(1) e])
  moreover have "undisturbed s2" using preservesD [OF undisturbed_audit s1(1), of q "mp_user p" EventMFAChallengeFailed ?m] e by simp
  moreover have "cached s2 k = cached s1 k" for k by (rule keepsD' [OF cached_kept(2) e])
  ultimately show ?thesis using s1 groundD [of s2 s1] by auto
qed

lemma challenge_step:
  assumes "tries_wf h s" and "au_cache A" and "h = hash_token (au_sha A) token"
    and "mfa_challenge A L q token code s = (r, t)"
  shows "tries_wf h t \<and> clock t = clock s \<and>
    (if r = Inl (InvalidToken, True) then tries_left h t \<le> tries_left h s else Suc (tries_left h t) \<le> tries_left h s)"
proof -
  let ?k = "mfa_token_key h"
  have f: "faults s = []" and u: "undisturbed s" using assms(1) by (simp_all add: tries_wf_def undisturbed_def)
  show ?thesis
  proof (cases "\<exists>p. live_val (aw_cache (world s)) ?k (clock s) = Some (MfaV p)")
    case False
    then have "fst (cache_get (au_cache A) ?k mfa_of s) = Inl CacheMiss \<or> fst (cache_get (au_cache A) ?k mfa_of s) = Inl CacheFail"
      "snd (cache_get (au_cache A) ?k mfa_of s) = s"
      using f assms(2) by (auto simp: cache_get_def decoded_def bindE_run split: option.split elim!: mfa_of.elims)
    then have "mfa_challenge A L q token code s = (Inl (InvalidToken, True), s)"
      unfolding mfa_challenge_def Let_def assms(3) [symmetric]
      by (cases "cache_get (au_cache A) ?k mfa_of s") (auto simp: bindE_run mapErr_run)
    with assms(1, 4) show ?thesis by simp
  next
    case True
    then obtain p where p: "live_val (aw_cache (world s)) ?k (clock s) = Some (MfaV p)" by blast
    then obtain y where y: "cached s ?k = Some (MfaV p, Some y)"
      using assms(1) unfolding tries_wf_def by (auto simp: live_val_def split: option.splits if_splits)
    have get: "cache_get (au_cache A) ?k mfa_of s = (Inr p, s)"
      using f assms(2) p by (simp add: cache_get_def decoded_def bindE_run)
    obtain t1 e where i: "cache_incr (au_cache A) (mfa_attempts_key h) mfaTokenTTL s = (Inr (tries h s + 1), t1)"
      and t1: "cached t1 (mfa_attempts_key h) = Some (CountV (tries h s + 1), e)" "cached t1 ?k = cached s ?k"
        "undisturbed t1" "clock t1 = clock s" "0 \<le> tries h s"
        "\<And>x w y. e = Some x \<Longrightarrow> cached s ?k = Some (w, Some y) \<Longrightarrow> y \<le> x \<and> clock s \<le> x"
      by (rule incr_run [OF assms(1, 2)]) (rule that; assumption)
    have left: "tries_left h s = nat (5 - tries h s)" using p by (simp add: tries_left_def mfaMaxAttempts_def)
    have run: "(if tries h s + 1 > mfaMaxAttempts then mfa_exhausted A q h p else mfa_check A L q h p code) t1 = (r, t)"
      using assms(4) get i unfolding mfa_challenge_def Let_def assms(3) [symmetric] by (simp add: bindE_run mapErr_run)
    show ?thesis
    proof (cases "tries h s + 1 > mfaMaxAttempts")
      case True
      with run have "mfa_exhausted A q h p t1 = (r, t)" by simp
      from exhausted_run [OF t1(3) assms(2) this] t1(4) show ?thesis
        by (simp add: tries_wf_def tries_left_def live_val_def)
    next
      case False
      with run have c: "mfa_check A L q h p code t1 = (r, t)" by simp
      have t: "undisturbed t" "clock t = clock s"
        using preservesD [OF undisturbed_check t1(3), of A L q h p code] keepsD' [OF clock_check c] c t1(4) by simp_all
      have ak: "cached t (mfa_attempts_key h) = cached t1 (mfa_attempts_key h) \<or> cached t (mfa_attempts_key h) = None"
        using tracksD' [OF fades_check c, of "mfa_attempts_key h"] .
      from check_entries [OF t1(3) assms(2), of L q h p code] c
      consider (gone) "cached t ?k = None" | (kept) "\<forall>j. cached t j = cached t1 j" by auto
      then have "tries_wf h t \<and> Suc (tries_left h t) \<le> tries_left h s"
      proof cases
        case gone
        then have "tries_wf h t" using t ak t1(1, 5) by (auto simp: tries_wf_def)
        moreover have "tries_left h t = 0" using gone by (simp add: tries_left_def live_val_def)
        ultimately show ?thesis using False left by (simp add: mfaMaxAttempts_def)
      next
        case kept
        have tk: "cached t ?k = Some (MfaV p, Some y)" using kept t1(2) y by simp
        have "y \<le> clock s + mfaTokenTTL" using assms(1) y by (auto simp: tries_wf_def)
        then have "tries_wf h t" using t kept t1 tk y by (auto simp: tries_wf_def)
        moreover have "clock s \<le> x" if "e = Some x" for x using t1(6) [OF that y] by simp
        then have "tries h t = tries h s + 1"
          using kept t1(1) t(2) unfolding tries_def [of h t] live_val_def by (cases e) auto
        ultimately show ?thesis using False left p y tk t(2) by (simp add: tries_left_def live_val_def mfaMaxAttempts_def split: if_splits)
      qed
      with t show ?thesis by (simp split: if_splits)
    qed
  qed
qed

text \<open>The answers to a sequence of guesses on one token, each some time after the one before.\<close>

fun guesses :: "auth_conf \<Rightarrow> totp_lib \<Rightarrow> string \<Rightarrow> (auth_request \<times> string \<times> nat) list \<Rightarrow> 'v auth_world_scheme del_db \<Rightarrow>
    (problem \<times> bool + sign_in) list" where
  "guesses A L token [] s = []"
| "guesses A L token ((q, code, d) # gs) s =
     (case mfa_challenge A L q token code (s\<lparr>clock := clock s + int d\<rparr>) of (r, t) \<Rightarrow> r # guesses A L token gs t)"

text \<open>The answers that tell something about the code.\<close>

definition telling :: "(problem \<times> bool + sign_in) list \<Rightarrow> nat" where
  "telling rs = length (filter (\<lambda>r. r \<noteq> Inl (InvalidToken, True)) rs)"

lemma guesses_bounded:
  assumes "tries_wf (hash_token (au_sha A) token) s" and "au_cache A"
  shows "telling (guesses A L token gs s) \<le> tries_left (hash_token (au_sha A) token) s"
  using assms(1)
proof (induction gs arbitrary: s)
  case Nil
  then show ?case by (simp add: telling_def)
next
  case (Cons g gs)
  obtain q code d where g: "g = (q, code, d)" by (cases g)
  let ?h = "hash_token (au_sha A) token" and ?u = "s\<lparr>clock := clock s + int d\<rparr>"
  obtain r t where c: "mfa_challenge A L q token code ?u = (r, t)" by (metis surj_pair)
  from tries_later [OF Cons.prems, of d] have u: "tries_wf ?h ?u" "tries_left ?h ?u \<le> tries_left ?h s" by simp_all
  from challenge_step [OF u(1) assms(2) refl c] have t: "tries_wf ?h t"
    "if r = Inl (InvalidToken, True) then tries_left ?h t \<le> tries_left ?h ?u else Suc (tries_left ?h t) \<le> tries_left ?h ?u"
    by simp_all
  have "telling (guesses A L token (g # gs) s) =
      (if r = Inl (InvalidToken, True) then 0 else 1) + telling (guesses A L token gs t)"
    using c by (simp add: g telling_def)
  with Cons.IH [OF t(1)] t(2) u(2) show ?case by (auto split: if_splits)
qed

text \<open>Claim C35. A hand-over token is good for five guesses. When no call fails, a token that is stored for no
  longer than its usual lifetime and whose counter has not started yet gets, over any sequence of guesses
  by any browsers with any pauses, at most five answers that depend on the code.\<close>

theorem mfa_guesses_bounded:
  assumes "faults s = []" and "au_cache A"
    and "cached s (mfa_token_key (hash_token (au_sha A) token)) = Some (MfaV p, Some y)" and "y \<le> clock s + mfaTokenTTL"
    and "cached s (mfa_attempts_key (hash_token (au_sha A) token)) = None"
  shows "telling (guesses A L token gs s) \<le> 5"
proof -
  let ?h = "hash_token (au_sha A) token"
  have "tries_wf ?h s" using assms by (auto simp: tries_wf_def undisturbed_def)
  from guesses_bounded [OF this assms(2)] have "telling (guesses A L token gs s) \<le> tries_left ?h s" .
  moreover have "tries_left ?h s \<le> 5"
    using assms(5) by (simp add: tries_left_def tries_def live_val_def mfaMaxAttempts_def split: option.split cache_val.split)
  ultimately show ?thesis by simp
qed

text \<open>Where the limit leaks. The sixth guess deletes the token and its counter one after the other and
  ignores the failures: when the deletion of the token fails and that of the counter is served, the token
  stays valid and its count starts again.\<close>

theorem exhausted_token_restarts:
  assumes "faults s = [Served, Served, Served, Refused]" and "au_cache A"
    and "cached s (mfa_token_key (hash_token (au_sha A) token)) = Some (MfaV p, Some y)" and "clock s \<le> y"
    and "cached s (mfa_attempts_key (hash_token (au_sha A) token)) = Some (CountV 5, Some x)" and "clock s \<le> x"
  shows "\<exists>t. mfa_challenge A L q token code s = (Inl (InvalidToken, True), t) \<and> faults t = [] \<and> clock t = clock s \<and>
    cached t (mfa_token_key (hash_token (au_sha A) token)) = Some (MfaV p, Some y) \<and>
    cached t (mfa_attempts_key (hash_token (au_sha A) token)) = None"
proof -
  let ?k = "mfa_token_key (hash_token (au_sha A) token)" and ?a = "mfa_attempts_key (hash_token (au_sha A) token)"
  let ?m = "[(''method'', ''totp''), (''reason'', ''max_attempts'')]"
  define s3 where "s3 = world_update (aw_cache_update (tput ?a (CountV 6, Some x))) (s\<lparr>faults := [Refused]\<rparr>)"
  define s4 where "s4 = world_update (aw_cache_update (tdel ?a)) (s3\<lparr>faults := []\<rparr>)"
  have g: "cache_get (au_cache A) ?k mfa_of s = (Inr p, s\<lparr>faults := [Served, Served, Refused]\<rparr>)"
    using assms by (simp add: cache_get_def decoded_def bindE_run db_read_def live_val_def)
  have i: "cache_incr (au_cache A) ?a mfaTokenTTL (s\<lparr>faults := [Served, Served, Refused]\<rparr>) = (Inr 6, s3)"
    using assms by (simp add: cache_incr_def bindE_run db_write_def db_cond_def db_take_def seed_def bumped_def bump_def live_val_def s3_def)
  have d: "snd (cache_delete (au_cache A) ?k s3) = s3\<lparr>faults := []\<rparr>" "snd (cache_delete (au_cache A) ?a (s3\<lparr>faults := []\<rparr>)) = s4"
    using assms(2) by (simp_all add: cache_delete_def db_write_def db_cond_def s3_def s4_def)
  obtain a s5 where e: "record_audit q (mp_user p) EventMFAChallengeFailed ?m s4 = (a, s5)" by (metis surj_pair)
  have a: "a = Inr ()" using e by (simp add: record_audit_def record_event_def)
  have s4: "undisturbed s4" "clock s4 = clock s" "cached s4 ?k = Some (MfaV p, Some y)" "cached s4 ?a = None"
    using assms(3) by (simp_all add: s4_def s3_def undisturbed_def keys_differ)
  have s5: "undisturbed s5" "ground s5 = ground s4" "cached s5 k = cached s4 k" for k
    using preservesD [OF undisturbed_audit s4(1), of q "mp_user p" EventMFAChallengeFailed ?m] e
      keepsD' [OF ground_audit(1) e] keepsD' [OF cached_kept(2) e] by simp_all
  have "mfa_challenge A L q token code s = (Inl (InvalidToken, True), s5)"
    using g i d e a by (simp add: mfa_challenge_def Let_def bindE_run mapErr_run mfaMaxAttempts_def mfa_exhausted_def refuse_def)
  with s5 s4 groundD [OF s5(2)] show ?thesis by (auto simp: undisturbed_def)
qed

section \<open>Backup codes\<close>

text \<open>What \<open>pquerna/otp\<close> documents: a passcode that does not have the number of digits asked for, blanks
  around it aside, is an error.\<close>

definition six_digits :: "totp_lib \<Rightarrow> bool" where
  "six_digits L \<longleftrightarrow> (\<forall>code w n. length (trim_space code) \<noteq> 6 \<longrightarrow> tl_validate L code w n = None)"

lemma base62_no_space: "list_all (\<lambda>c. \<not> is_space c) base62_chars"
  by code_simp

lemma dropWhile_none: "list_all (\<lambda>c. \<not> P c) w \<Longrightarrow> dropWhile P w = w"
  by (cases w) auto

lemma trim_base62: "trim_space (to_base62 b) = to_base62 b"
proof -
  have "set (to_base62 b) \<subseteq> set base62_chars" by (simp add: to_base62_def base62_loop_chars)
  then have "list_all (\<lambda>c. \<not> is_space c) (to_base62 b)" "list_all (\<lambda>c. \<not> is_space c) (rev (to_base62 b))"
    using base62_no_space by (auto simp: list_all_iff)
  then show ?thesis by (simp add: trim_space_def dropWhile_none)
qed

lemma base62_loop_min: "62 ^ k \<le> n \<Longrightarrow> k < length (base62_loop n)"
proof (induction k arbitrary: n)
  case 0
  then show ?case by (subst base62_loop.simps) simp
next
  case (Suc k)
  then have "62 ^ k \<le> n div 62" "0 < n" by (auto simp: less_eq_div_iff_mult_less_eq intro: gr0I)
  with Suc.IH show ?case by (subst base62_loop.simps) simp
qed

text \<open>Claim C37. Backup codes do not work. A backup code is 128 random bits in base 62, longer than six digits but
  for one code in about six billion billion billion, while the check first asks the library, which
  refuses any other length with an error that ends the check: the code fits one of the hashes that
  are stored for the account and is still refused, and it is not used up either.\<close>

theorem backup_code_refused:
  assumes "six_digits L" and "fresh_code sha argon s0 = (Inr (raw, h), s1)"
    and "rng s0 (rng_ix s0) = Some n" and "62 ^ 6 \<le> n" and "n < 2 ^ 128"
    and "\<And>w salt. length (argon w salt argonTime argonMemory argonThreads argonKeyLen) = argonKeyLen"
    and "faults s = []" and "tget (aw_totp (world s)) (totp_key uid) = Some row"
    and "to_verified row = Some True" and "h \<in> set (to_backup_codes row)"
  shows "verify_password argon raw h = Inr True \<and> totp_validate L argon uid raw s = (Inr False, s)"
proof -
  have raw: "raw = to_base62 (bytes_be 16 n)"
    and h: "\<exists>salt. h = encode_hash salt (argon raw salt argonTime argonMemory argonThreads argonKeyLen)"
    using assms(2, 3)
    by (auto simp: fresh_code_def generate_code_def generate_random_def hash_password_def Let_def bindE_run mapErr_run
        split: prod.splits sum.splits option.splits)
  have fits: "verify_password argon raw h = Inr True" using h assms(6) by (auto simp: verify_encode_hash)
  have "set_bytes (bytes_be 16 n) = n" using assms(5) by (simp add: set_bytes_be)
  then have "6 < length raw" using base62_loop_min [OF assms(4)] by (simp add: raw to_base62_def)
  then have "tl_validate L raw w m = None" for w m
    using assms(1) trim_base62 [of "bytes_be 16 n"] by (simp add: six_digits_def raw)
  then have "totp_validate L argon uid raw s = (Inr False, s)"
    using assms(7, 8) by (simp add: totp_validate_def totp_get_def totp_found_def check_passcode_def bindE_run)
  with fits show ?thesis by blast
qed

section \<open>Password reset\<close>

text \<open>What a password reset leaves. With a link that has not expired, an existing account and no
  failing call, the reset succeeds; afterwards the new password verifies, no session of the account is
  live, and the same link is refused, with any password, as long as nothing else is stored under it.\<close>

theorem password_reset_exact:
  assumes "faults s = []" and "sess_wf s" and "au_cache A"
    and "live_val (aw_cache (world s)) (''pr:'' @ hash_token (au_sha A) token) (clock s) = Some (TextV uid)"
    and "tget (user_tbl s) (build_pk uid) = Some (UserI u)" and "rng s (rng_ix s) = Some n"
    and "\<And>w salt. length (tc_argon (au_tokens A) w salt argonTime argonMemory argonThreads argonKeyLen) = argonKeyLen"
  shows "\<exists>t v. reset_password A q token pw s = (Inr (), t) \<and>
    tget (user_tbl t) (build_pk uid) = Some (UserI v) \<and>
    verify_password (tc_argon (au_tokens A)) pw (u_password_hash v) = Inr True \<and>
    (\<nexists>sid. sid \<noteq> [] \<and> SessionService.live_session (clock t) (sess_tbl t) uid sid) \<and>
    fst (reset_password A q' token pw' t) = Inl (InvalidToken, True)"
proof -
  let ?k = "''pr:'' @ hash_token (au_sha A) token" and ?argon = "tc_argon (au_tokens A)"
  define s1 where "s1 = world_update (aw_cache_update (tdel ?k)) s"
  define s2 where "s2 = s1\<lparr>rng_ix := Suc (rng_ix s)\<rparr>"
  obtain h where hp: "hash_password ?argon pw s1 = (Inr h, s2)" and v: "verify_password ?argon pw h = Inr True"
  proof -
    let ?salt = "bytes_be 16 n"
    have "hash_password ?argon pw s1 = (Inr (encode_hash ?salt (?argon pw ?salt argonTime argonMemory argonThreads argonKeyLen)), s2)"
      using assms(6) by (simp add: hash_password_def generate_random_def Let_def bindE_run s1_def s2_def argonSaltLen_def)
    then show thesis using that assms(7) by (simp add: verify_encode_hash)
  qed
  have get: "cache_get_del (au_cache A) ?k text_of s = (Inr uid, s1)"
    using assms(1, 3, 4) by (simp add: cache_get_del_def decoded_def bindE_run db_take_def s1_def)
  have us: "user_get_by_id uid s2 = (Inr u, s2)"
    using assms(1, 5) by (simp add: user_get_by_id_def bindE_run s1_def s2_def)
  define s3 where "s3 = user_tbl_update (upd_user uid (\<lambda>u. u\<lparr>u_password_hash := h, u_updated_at := ts (clock s)\<rparr>)) s2"
  have fs: "force_set_password uid h s2 = (Inr (), s3)"
    using assms(1) by (simp add: force_set_password_def user_update_def bindE_run s1_def s2_def s3_def)
  have s3: "faults s3 = []" "sess_wf s3" "sess_tbl s3 = sess_tbl s" "clock s3 = clock s"
    using assms(1, 2) by (simp_all add: s3_def s2_def s1_def sess_wf_def)
  from removes_revoke_all [OF s3(1, 2), of uid "[]"] obtain tb where rv: "revoke_all uid [] s3 = (Inr (), s3\<lparr>sess_tbl := tb\<rparr>)"
    and tb: "tget tb = without (\<lambda>k i. \<exists>sid. SessionService.live_session (clock s3) (sess_tbl s3) uid sid \<and> sid \<noteq> [] \<and> revoked_key uid sid k) (sess_tbl s3)"
    by (rule removesE)
  define s4 where "s4 = s3\<lparr>sess_tbl := tb\<rparr>"
  obtain a t where e: "record_audit q uid EventPasswordResetComplete [] s4 = (a, t)" by (metis surj_pair)
  have a: "a = Inr ()" using e by (simp add: record_audit_def record_event_def)
  have run: "reset_password A q token pw s = (Inr (), t)"
    using get hp us fs rv e a by (simp add: reset_password_def bindE_run mapErr_run or_500_def s4_def)
  have t: "ground t = ground s4" "cached t k = cached s4 k" "undisturbed t" for k
    using keepsD' [OF ground_audit(1) e] keepsD' [OF cached_kept(2) e]
      preservesD [OF undisturbed_audit, of s4 q uid EventPasswordResetComplete "[]"] e s3(1)
    by (simp_all add: undisturbed_def s4_def)
  have usr: "tget (user_tbl t) (build_pk uid) = Some (UserI (u\<lparr>u_password_hash := h, u_updated_at := ts (clock s)\<rparr>))"
    using groundD [OF t(1)] assms(5) by (simp add: s4_def s3_def s2_def s1_def upd_user_def)
  have none: "\<not> (sid \<noteq> [] \<and> SessionService.live_session (clock t) (sess_tbl t) uid sid)" for sid
    using groundD [OF t(1)] tb s3 by (auto simp: s4_def live_session_iff without_def revoked_key_def split: option.splits if_splits)
  have "cached t ?k = None" using t(2) [of ?k] by (simp add: s4_def s3_def s2_def s1_def)
  then have "fst (reset_password A q' token pw' t) = Inl (InvalidToken, True)"
    using t(3) assms(3) by (simp add: reset_password_def cache_get_del_def db_take_def undisturbed_def decoded_def live_val_def bindE_run mapErr_run)
  with run usr v none show ?thesis by fastforce
qed

end
