(* ===== verification/SocialRuns.thy ===== *)
theory SocialRuns
  imports LoginLimits
begin

text \<open>
  What the login with Google guarantees about where the browser goes, and what it answers for an account
  that is being deleted.
\<close>

section \<open>Addresses of the platform\<close>

text \<open>The front end, the service itself or an allowed origin, or a page below one of them.\<close>

definition home_page :: "auth_conf \<Rightarrow> string \<Rightarrow> bool" where
  "home_page A l \<longleftrightarrow> (\<exists>b\<in>set (au_app_url A # au_api_url A # au_origins A). l = b \<or> has_prefix l (b @ ''/''))"

lemma allowed_home: "is_allowed_continue_url A u \<Longrightarrow> home_page A (resolve_continue A u)"
proof -
  assume a: "is_allowed_continue_url A u"
  show ?thesis
  proof (cases "has_prefix u ''/''")
    case True
    then obtain r where u: "u = CHR ''/'' # r" by (auto simp: has_prefix_iff)
    have "has_prefix (b @ u) (b @ ''/'')" for b by (simp add: has_prefix_iff u)
    then show ?thesis using True by (auto simp: resolve_continue_def home_page_def)
  next
    case False
    with a show ?thesis by (auto simp: is_allowed_continue_url_def resolve_continue_def home_page_def list_ex_iff)
  qed
qed

lemma app_home: "home_page A (resolve_continue A (au_app_url A))"
  by (auto simp: resolve_continue_def home_page_def has_prefix_iff)

lemma app_page: "home_page A (au_app_url A @ CHR ''/'' # r)" "home_page A (au_app_url A)"
  by (auto simp: home_page_def has_prefix_iff)

lemma api_page: "home_page A (au_api_url A @ CHR ''/'' # r)"
  by (auto simp: home_page_def has_prefix_iff)

section \<open>What the cache holds for the redirects\<close>

definition homeward :: "auth_conf \<Rightarrow> 'v auth_world_scheme del_db \<Rightarrow> bool" where
  "homeward A s \<longleftrightarrow>
     (\<forall>h v e. tget (cache_of s) (google_state_key h) = Some (TextV v, e) \<longrightarrow> home_page A (resolve_continue A v)) \<and>
     (\<forall>k p e. tget (cache_of s) k = Some (TermsV p, e) \<longrightarrow> home_page A (tp_continue p))"

lemma blind_homeward [simp]: "blind (homeward A)"
  by (simp add: blind_def homeward_def)

lemma homeward_kept: "keeps cache_of f \<Longrightarrow> preserves (homeward A) f"
  by (simp add: keeps_def tracks_def preserves_def homeward_def)

lemma homeward_put:
  "homeward A s \<Longrightarrow> (\<And>h u. k = google_state_key h \<Longrightarrow> v = TextV u \<Longrightarrow> home_page A (resolve_continue A u)) \<Longrightarrow>
   (\<And>p. v = TermsV p \<Longrightarrow> home_page A (tp_continue p)) \<Longrightarrow>
   homeward A (world_update (aw_cache_update (tput k (v, e))) s)"
  by (auto simp: homeward_def cache_of_def)

lemma homeward_del: "homeward A s \<Longrightarrow> homeward A (world_update (aw_cache_update (tdel k)) s)"
  by (auto simp: homeward_def cache_of_def)

lemma homeward_set:
  assumes "\<And>h u. k = google_state_key h \<Longrightarrow> v = TextV u \<Longrightarrow> home_page A (resolve_continue A u)"
    and "\<And>p. v = TermsV p \<Longrightarrow> home_page A (tp_continue p)"
  shows "preserves (homeward A) (cache_set on k v ttl)"
  unfolding cache_set_def
  by (intro wp preserves_now preserves_db_write homeward_put blind_homeward; (assumption | erule assms))

lemma preserves_take:
  assumes "blind I" and "\<And>s. I s \<Longrightarrow> I (u s)"
  shows "preserves I (db_take e f u)"
  unfolding preserves_def
proof (intro allI impI)
  fix s assume "I s"
  then have "I (s\<lparr>faults := os\<rparr>)" for os using blindD [OF assms(1)] by metis
  with \<open>I s\<close> assms(2) show "I (snd (db_take e f u s))"
    by (auto simp: db_take_def split: list.split outcome.split)
qed

lemma homeward_cache:
  "preserves (homeward A) (cache_get on k dec)" "preserves (homeward A) (cache_get_del on k dec)"
  "preserves (homeward A) (cache_delete on k)"
  unfolding cache_get_def cache_get_del_def cache_delete_def decoded_def
  by (intro wp preserves_cases preserves_db_read preserves_take preserves_db_write homeward_del blind_homeward; assumption)+

section \<open>The handlers\<close>

lemma cache_of_beside [simp]: "cache_of (world_update (ow_consents_update f) s) = cache_of s"
  by (simp add: cache_of_def)

lemma token_cache: "keeps cache_of (generate_mfa_token sha e)"
  unfolding generate_mfa_token_def Let_def by (intro keeps_calls) simp

lemma users_cache:
  "keeps cache_of (link_google uid sub email)" "keeps cache_of (find_or_create_by_google sha sub email f l a)"
  "keeps cache_of (accept_pending_terms q u tos privacy m)" "keeps cache_of (validate_token sha w)"
proof -
  have up: "keeps cache_of (user_update uid g)" for uid g
    unfolding user_update_def by (intro keeps_calls blind_cache_of) simp
  have av: "keeps cache_of (refresh_avatar u a)" for u a
    unfolding refresh_avatar_def by (intro keeps_calls up)
  have cr: "keeps cache_of (user_create sha u)" for u
    unfolding user_create_def Let_def by (intro keeps_calls; simp)
  show "keeps cache_of (link_google uid sub email)"
    unfolding link_google_def Let_def by (intro keeps_calls up cache_kept(6))
  show "keeps cache_of (find_or_create_by_google sha sub email f l a)"
    unfolding find_or_create_by_google_def user_get_by_email_def Let_def
    by (intro keeps_calls up av cr blind_cache_of)
  show "keeps cache_of (accept_pending_terms q u tos privacy m)"
    unfolding accept_pending_terms_def accept_terms_def or_500_def refuse_def Let_def
    by (intro keeps_calls up cache_kept(2))
  show "keeps cache_of (validate_token sha w)"
    by (rule keeps_sessions) simp_all
qed

lemma homeward_mint:
  "home_page A (tp_continue p) \<Longrightarrow> preserves (homeward A) (mint_accept_terms_url A p pend)"
  unfolding mint_accept_terms_url_def
  by (intro wp preserves_cases homeward_kept [OF token_cache] homeward_set)
    (simp_all add: termsTokenCachePrefix_def google_state_key_def)

lemma homeward_redirect: "preserves (homeward A) (redirect_to l)" "preserves (homeward A) (refuse p)"
  unfolding redirect_to_def refuse_def by (intro wp)+

lemma homeward_social:
  "preserves (homeward A) (google_redirect A G q)" "preserves (homeward A) (social_accept_terms A q token tos privacy)"
proof -
  show "preserves (homeward A) (google_redirect A G q)"
    unfolding google_redirect_def or_500_def Let_def
    by (intro wp preserves_cases homeward_kept [OF token_cache] homeward_set homeward_redirect)
      (auto simp: app_home allowed_home split: if_splits)
  show "preserves (homeward A) (social_accept_terms A q token tos privacy)"
    unfolding social_accept_terms_def finish_sign_up_def or_500_def
    by (intro wp preserves_cases homeward_cache homeward_redirect homeward_kept [OF users_cache(3)] homeward_kept [OF cache_kept(3)]
        homeward_kept [OF cache_kept(4)] homeward_kept [OF cache_kept(5)] homeward_kept [OF cache_kept(6)])
qed

lemma homeward_identity: "home_page A cont \<Longrightarrow> preserves (homeward A) (google_identity A q p cont)"
  unfolding google_identity_def google_account_def link_google_account_def redirect_to_accept_terms_def
    issue_session_from_social_def or_500_def Let_def
  by (intro wp preserves_cases homeward_redirect homeward_mint homeward_kept [OF users_cache(1)] homeward_kept [OF users_cache(2)]
      homeward_kept [OF users_cache(4)] homeward_kept [OF cache_kept(2)] homeward_kept [OF cache_kept(3)]
      homeward_kept [OF cache_kept(4)] homeward_kept [OF cache_kept(5)])
    (simp_all add: suspended_sign_up_def)

lemma homeward_callback: "preserves (homeward A) (google_callback A G q)"
proof -
  let ?k = "google_state_key (hash_token (au_sha A) (ar_query q ''state''))"
  let ?get = "mapErr (\<lambda>_. (InvalidToken, True)) (cache_get (au_cache A) ?k text_of)"
  have y: "yields (homeward A) ?get (\<lambda>cont. home_page A (resolve_continue A cont))"
    unfolding yields_def
  proof (intro allI impI)
    fix s x t assume h: "homeward A s" and g: "?get s = (Inr x, t)"
    from g have "cache_get (au_cache A) ?k text_of s = (Inr x, t)" by (simp add: mapErr_Inr)
    from cache_get_Inr [OF this] obtain v where v: "live_val (aw_cache (world s)) ?k (clock s) = Some v" "text_of v = Some x" by blast
    then have "\<exists>e. tget (cache_of s) ?k = Some (TextV x, e)"
      by (cases v) (auto simp: live_val_def cache_of_def split: option.splits if_splits)
    with h show "home_page A (resolve_continue A x)" by (auto simp: homeward_def)
  qed
  have rest: "preserves (homeward A) (bindE ?get (\<lambda>cont.
      bindE (logE (cache_delete (au_cache A) ?k)) (\<lambda>_.
      case exchange_google_code A G (ar_query q ''code'') of
        None \<Rightarrow> refuse ServerError
      | Some p \<Rightarrow>
          if \<not> gp_email_verified p then redirect_to (au_app_url A @ ''/login?error=google_email_unverified'')
          else google_identity A q p (resolve_continue A cont))))"
  proof (rule preserves_bindE_val [OF _ y])
    show "preserves (homeward A) ?get" by (intro wp homeward_cache)
    fix cont assume h: "home_page A (resolve_continue A cont)"
    show "preserves (homeward A) (bindE (logE (cache_delete (au_cache A) ?k)) (\<lambda>_.
      case exchange_google_code A G (ar_query q ''code'') of
        None \<Rightarrow> refuse ServerError
      | Some p \<Rightarrow>
          if \<not> gp_email_verified p then redirect_to (au_app_url A @ ''/login?error=google_email_unverified'')
          else google_identity A q p (resolve_continue A cont)))"
      by (intro wp preserves_cases homeward_cache homeward_redirect homeward_identity h)
  qed
  show ?thesis
    unfolding google_callback_def Let_def by (intro wp homeward_redirect rest)
qed

lemma login_cache: "keeps cache_of (login argon dummy email pw)" "keeps cache_of (user_get_by_email email)" "keeps cache_of (totp_get K uid)"
  unfolding login_def user_get_by_email_def lift_pw_def totp_get_def totp_found_def
  by (intro keeps_calls blind_cache_of)+

lemma homeward_audit: "preserves (homeward A) (record_audit q uid ty meta)" "preserves (homeward A) (record_audit_anon q ty meta)"
proof -
  show "preserves (homeward A) (record_audit q uid ty meta)" by (rule homeward_kept [OF cache_kept(2)])
  have "keeps cache_of (record_audit_anon q ty meta)"
    unfolding record_audit_anon_def record_event_def record_strict_def by (intro keeps_calls; simp)
  then show "preserves (homeward A) (record_audit_anon q ty meta)" by (rule homeward_kept)
qed

lemma homeward_count:
  "homeward A s \<Longrightarrow> homeward A (world_update (seed k n ttl) s)" "homeward A s \<Longrightarrow> homeward A (world_update (bump k n) s)"
  by (auto simp: homeward_def cache_of_def seed_def bump_def split: option.splits if_splits)

lemma homeward_sign_in: "preserves (homeward A) (auth_login A L q email pw)" "preserves (homeward A) (mfa_challenge A L q token code)"
proof -
  show "preserves (homeward A) (auth_login A L q email pw)"
    unfolding auth_login_def after_password_def login_failed_def issue_mfa_token_def issue_session_def or_500_def Let_def
    by (intro wp preserves_cases homeward_redirect homeward_audit homeward_kept [OF login_cache(1)] homeward_kept [OF login_cache(2)]
        homeward_kept [OF login_cache(3)] homeward_kept [OF token_cache] homeward_set homeward_kept [OF cache_kept(3)]
        homeward_kept [OF cache_kept(4)] homeward_kept [OF cache_kept(5)])
      (simp_all add: mfa_token_key_def google_state_key_def)
  have incr: "preserves (homeward A) (cache_incr on k ttl)" for on k ttl
    unfolding cache_incr_def
    by (intro wp preserves_cases preserves_now preserves_db_write preserves_take blind_homeward homeward_count)
  show "preserves (homeward A) (mfa_challenge A L q token code)"
    unfolding mfa_challenge_def mfa_exhausted_def mfa_check_def mfa_accepted_def or_500_def Let_def
    by (intro wp preserves_cases homeward_redirect homeward_audit homeward_cache incr homeward_kept [OF cache_kept(1)]
        homeward_kept [OF cache_kept(3)] homeward_kept [OF cache_kept(4)] homeward_kept [OF cache_kept(5)] homeward_kept [OF cache_kept(6)])
qed

lemma homeward_mails:
  "preserves (homeward A) (auth_register A q email pw f l)" "preserves (homeward A) (forgot_password A q email)"
  "preserves (homeward A) (resend_verification A email)"
proof -
  have post: "preserves (homeward A) (post_mail m)" for m
    by (rule homeward_kept) (simp add: post_mail_def keeps_def tracks_def)
  have cr: "keeps cache_of (register sha argon email pw f l)" for sha argon email
  proof -
    have "keeps cache_of (user_create sha u)" for u
      unfolding user_create_def Let_def by (intro keeps_calls; simp)
    then show ?thesis
      unfolding register_def hash_pw_def hash_password_def generate_opaque_token_def Let_def
      by (intro keeps_calls login_cache) simp_all
  qed
  have send: "preserves (homeward A) (send_verification_email A uid email first)" for uid email first
    unfolding send_verification_email_def
    by (intro wp preserves_cases post homeward_kept [OF token_cache] homeward_set) (simp_all add: google_state_key_def)
  show "preserves (homeward A) (auth_register A q email pw f l)"
    unfolding auth_register_def tell_owner_def Let_def
    by (intro wp preserves_cases post send homeward_audit homeward_redirect homeward_kept [OF cr] homeward_kept [OF login_cache(2)])
  show "preserves (homeward A) (forgot_password A q email)"
    unfolding forgot_password_def send_reset_link_def
    by (intro wp preserves_cases post homeward_audit homeward_set homeward_kept [OF token_cache] homeward_kept [OF login_cache(2)])
      (simp_all add: google_state_key_def)
  show "preserves (homeward A) (resend_verification A email)"
    unfolding resend_verification_def
    by (intro wp preserves_cases send homeward_kept [OF login_cache(2)])
qed

lemma homeward_authorize:
  assumes "has_prefix (ar_url q) ''/''"
  shows "preserves (homeward A) (authorize A q)"
proof -
  obtain r where r: "ar_url q = CHR ''/'' # r" using assms by (auto simp: has_prefix_iff)
  have codes: "keeps cache_of (generate_code sha e)" "keeps cache_of (code_store on h ac)" for sha e on h ac
  proof -
    show "keeps cache_of (generate_code sha e)" unfolding generate_code_def Let_def by (intro keeps_calls) simp
    show "keeps cache_of (code_store on h ac)" unfolding code_store_def by (intro keeps_calls) (simp_all add: cache_of_def)
  qed
  have pages: "preserves (homeward A) (redirect_error uri st code desc)" for uri st code desc
    unfolding redirect_error_def by (rule homeward_redirect)
  have mint: "preserves (homeward A) (mint_accept_terms_url A (terms_payload_for A q sess) pend)" for sess pend
    by (rule homeward_mint) (simp add: terms_payload_for_def r api_page)
  show ?thesis
    unfolding authorize_def session_gate_def terms_gate_def ask_terms_def consent_gate_def issue_code_def Let_def
    by (intro wp preserves_cases preserves_now pages mint homeward_redirect homeward_kept [OF codes(1)] homeward_kept [OF codes(2)]
        homeward_kept [OF keeps_load_client] homeward_kept [OF keeps_has_grant] homeward_kept [OF users_cache(4)]
        homeward_kept [OF cache_kept(6)] blind_cache_of)
qed

section \<open>Where the browser goes\<close>

text \<open>The interactive handlers, in any order, for any browsers and any failing calls, and time.\<close>

inductive browse :: "auth_conf \<Rightarrow> google_conf \<Rightarrow> totp_lib \<Rightarrow> 'v auth_world_scheme del_db \<Rightarrow> 'v auth_world_scheme del_db \<Rightarrow> bool"
  for A G L where
  to_google: "browse A G L s (snd (google_redirect A G q s))"
| from_google: "browse A G L s (snd (google_callback A G q s))"
| terms_page: "browse A G L s (snd (social_accept_terms A q token tos privacy s))"
| authorizing: "has_prefix (ar_url q) ''/'' \<Longrightarrow> browse A G L s (snd (authorize A q s))"
| password: "browse A G L s (snd (auth_login A L q email pw s))"
| second: "browse A G L s (snd (mfa_challenge A L q token code s))"
| registering: "browse A G L s (snd (auth_register A q email pw f l s))"
| forgetting: "browse A G L s (snd (forgot_password A q email s))"
| resending: "browse A G L s (snd (resend_verification A email s))"
| waiting: "browse A G L s (s\<lparr>clock := n, faults := os\<rparr>)"

lemma browse_homeward: "browse A G L s t \<Longrightarrow> homeward A s \<Longrightarrow> homeward A t"
proof (induction rule: browse.induct)
  case (waiting s n os)
  then show ?case by (simp add: homeward_def cache_of_def)
qed (simp_all add: preservesD [OF homeward_social(1)] preservesD [OF homeward_callback] preservesD [OF homeward_social(2)]
    preservesD [OF homeward_authorize] preservesD [OF homeward_sign_in(1)] preservesD [OF homeward_sign_in(2)]
    preservesD [OF homeward_mails(1)] preservesD [OF homeward_mails(2)] preservesD [OF homeward_mails(3)])

lemma browse_run: "(browse A G L)\<^sup>*\<^sup>* s t \<Longrightarrow> aw_cache (world s) = [] \<Longrightarrow> homeward A t"
proof (induction rule: rtranclp_induct)
  case base
  then show ?case by (simp add: homeward_def cache_of_def)
next
  case (step t u)
  then show ?case by (blast intro: browse_homeward)
qed

lemma account_lands:
  "home_page A cont \<Longrightarrow> google_account A q p cont s = (Inr (l, cs), t) \<Longrightarrow> home_page A l"
  unfolding google_account_def redirect_to_accept_terms_def redirect_to_def mint_accept_terms_url_def acceptTermsPath_def
  by (auto simp: bindE_run refuse_def or_500_def mapErr_run app_page split: prod.splits sum.splits if_splits)

lemma identity_lands:
  assumes "home_page A cont" and "google_identity A q p cont s = (Inr (l, cs), t)"
  shows "home_page A l"
proof -
  have link: "home_page A l" if "link_google_account A q uid p cont u = (Inr (l, cs), v)" for uid u v
    using that assms(1) unfolding link_google_account_def redirect_to_def
    by (auto simp: bindE_run refuse_def app_page split: prod.splits sum.splits if_splits)
  show ?thesis
    using assms account_lands [OF assms(1)] link unfolding google_identity_def Let_def
    by (auto simp: bindE_run split: prod.splits sum.splits if_splits)
qed

text \<open>Claim C36. No open redirect. Starting with an empty cache, after any sequence of visits to the interactive
  handlers by any browsers, with any failing calls, the answer to a callback from Google and the answer of
  the page that accepts the terms send the browser to the front end, to the service or to an allowed
  origin, or to a page below one of these, whatever address the browser had asked to continue at.\<close>

theorem google_stays_home:
  assumes "(browse A G L)\<^sup>*\<^sup>* s0 s" and "aw_cache (world s0) = []"
    and "google_callback A G q s = (Inr (l, cs), t) \<or> social_accept_terms A q token tos privacy s = (Inr (l, cs), t)"
  shows "home_page A l"
  using assms(3)
proof
  have h: "homeward A s" by (rule browse_run [OF assms(1, 2)])
  show "home_page A l" if c: "google_callback A G q s = (Inr (l, cs), t)"
  proof (cases "ar_query q ''error'' = []")
    case False
    with c show ?thesis by (auto simp: google_callback_def redirect_to_def app_page)
  next
    case True
    let ?k = "google_state_key (hash_token (au_sha A) (ar_query q ''state''))"
    obtain x u where g: "cache_get (au_cache A) ?k text_of s = (Inr x, u)"
      and r: "home_page A l \<or> (\<exists>p w. google_identity A q p (resolve_continue A x) w = (Inr (l, cs), t))"
      using c True unfolding google_callback_def Let_def
      by (auto simp: refuse_Inr mapErr_Inr redirect_to_def app_page split: if_splits option.splits elim!: bindE_InrE) blast
    from cache_get_Inr [OF g] obtain v where v: "live_val (aw_cache (world s)) ?k (clock s) = Some v" "text_of v = Some x" by blast
    then have "\<exists>e. tget (cache_of s) ?k = Some (TextV x, e)"
      by (cases v) (auto simp: live_val_def cache_of_def split: option.splits if_splits)
    with h have "home_page A (resolve_continue A x)" by (auto simp: homeward_def)
    with r show ?thesis by (blast intro: identity_lands)
  qed
  show "home_page A l" if c: "social_accept_terms A q token tos privacy s = (Inr (l, cs), t)"
  proof -
    let ?k = "termsTokenCachePrefix @ hash_token (au_sha A) token"
    obtain p u where g: "cache_get_del (au_cache A) ?k terms_of s = (Inr p, u)"
      and r: "home_page A (tp_continue p) \<Longrightarrow> home_page A l"
      using c unfolding social_accept_terms_def finish_sign_up_def
      by (auto simp: refuse_Inr mapErr_Inr redirect_to_def app_page split: if_splits elim!: bindE_InrE)
    from cache_get_del_Inr [OF g] obtain v where v: "live_val (aw_cache (world s)) ?k (clock s) = Some v" "terms_of v = Some p" by blast
    then have "\<exists>e. tget (cache_of s) ?k = Some (TermsV p, e)"
      by (cases v) (auto simp: live_val_def cache_of_def split: option.splits if_splits)
    with h r show ?thesis by (auto simp: homeward_def)
  qed
qed

section \<open>An account that is being deleted\<close>

text \<open>A Google login to an account that is being deleted goes nowhere. No session is opened, but the
  redirect that would tell so is replaced by the one to the page the browser had asked for, without
  cookies.\<close>

theorem google_deletion_untold:
  assumes "find_or_create_by_google (au_sha A) (gp_sub p) (gp_email p) (gp_given_name p) (gp_family_name p) (gp_picture p) s = (Inr (u, False), s1)"
    and "u_deletion_state u \<noteq> []"
  shows "\<exists>t. google_account A q p cont s = (Inr (cont, []), t) \<and> sess_tbl t = sess_tbl s1"
proof -
  obtain r t where n: "new_device A (user_id u) (parse_device_name (ar_agent q)) (client_ip q) s1 = (r, t)" by (metis surj_pair)
  then obtain b where b: "r = Inr b" unfolding new_device_def by (auto simp: bindE_run)
  have "google_account A q p cont s = (Inr (cont, []), t)"
    using assms n unfolding b by (simp add: google_account_def issue_session_from_social_def Let_def bindE_run)
  with groundD [OF keepsD' [OF ground_mail(3) n]] show ?thesis by blast
qed

end
