(* ===== verification/EmptyScope.thy ===== *)
theory EmptyScope
  imports TokenRuns
begin

text \<open>
  A flaw from end to end: a person who lists the empty string first registers a client with any internal
  scope and gets a machine token for it. The calls of an undisturbed system are computed here; the
  demonstrations use them as well.
\<close>

section \<open>The catalog of an undisturbed system\<close>

definition cat_merged :: "'v scope_world_scheme del_db \<Rightarrow> service_scopes list" where
  "cat_merged s = merge_resource_servers (map snd (sw_services (world s))) (map snd (sw_resources (world s)))"

definition cat_cached :: "bool \<Rightarrow> 'v scope_world_scheme del_db \<Rightarrow> service_scopes list" where
  "cat_cached on s = (if on then case sw_cache (world s) of None \<Rightarrow> [] | Some (gs, t) \<Rightarrow> if clock s < t then gs else [] else [])"

definition cat_value :: "bool \<Rightarrow> 'v scope_world_scheme del_db \<Rightarrow> service_scopes list" where
  "cat_value on s = (if cat_cached on s \<noteq> [] then cat_cached on s else cat_merged s)"

definition cat_state :: "bool \<Rightarrow> 'v scope_world_scheme del_db \<Rightarrow> 'v scope_world_scheme del_db" where
  "cat_state on s = (if cat_cached on s \<noteq> [] \<or> \<not> on \<or> cat_merged s = [] then s
     else world_update (sw_cache_update (\<lambda>_. Some (cat_merged s, clock s + catalogCacheTTL))) s)"

lemma calm_catalog: "faults s = [] \<Longrightarrow> catalog on s = (Inr (cat_value on s), cat_state on s)"
proof -
  assume calm: "faults s = []"
  then have "cached_catalog on s = (Inr (cat_cached on s), s)"
    by (auto simp: cached_catalog_def cat_cached_def bindE_run)
  with calm show ?thesis
    by (auto simp: catalog_def cat_value_def cat_state_def cat_merged_def load_catalog_def load_resources_def bindE_run logE_def Let_def)
qed

lemma cat_state_fields [simp]:
  "faults (cat_state on s) = faults s" "clock (cat_state on s) = clock s" "rng (cat_state on s) = rng s"
  "rng_ix (cat_state on s) = rng_ix s" "uuids (cat_state on s) = uuids s" "uuid_ix (cat_state on s) = uuid_ix s"
  "user_tbl (cat_state on s) = user_tbl s"
  by (simp_all add: cat_state_def)

text \<open>A second look gives the same catalog, whatever else changed in between.\<close>

lemma cat_again:
  assumes "sw_services (world t) = sw_services (world (cat_state on s))" "sw_resources (world t) = sw_resources (world (cat_state on s))"
    "sw_cache (world t) = sw_cache (world (cat_state on s))" "clock t = clock s"
  shows "cat_value on t = cat_value on s"
  using assms
  by (auto simp: cat_value_def cat_cached_def cat_merged_def cat_state_def catalogCacheTTL_def hour_def minute_def second_def split: option.splits if_splits)

section \<open>The empty scope is always grantable\<close>

lemma empty_missing: "[] \<notin> set index \<Longrightarrow> first_missing index ([] # ss) = []"
  by (simp add: first_missing_def)

definition no_empty :: "service_scopes list \<Rightarrow> bool" where
  "no_empty gs \<longleftrightarrow> (\<forall>g\<in>set gs. \<forall>e\<in>set (sg_scopes g). en_scope e \<noteq> [])"

lemma no_empty_index: "no_empty gs \<Longrightarrow> [] \<notin> set (public_index p gs)"
  by (fastforce simp: no_empty_def public_index_def)

lemma empty_accepted:
  assumes "faults s = []" "no_empty (cat_value on s)"
  shows "validate_grantable on ([] # ss) s = (Inr [], cat_state on s)"
    "validate_machine_grantable on ([] # ss) s = (Inr [], cat_state on s)"
    "require_grantable on ([] # ss) s = (Inr (), cat_state on s)"
  using calm_catalog [OF assms(1), of on] empty_missing [OF no_empty_index [OF assms(2)]]
  by (simp_all add: validate_grantable_def validate_machine_grantable_def require_grantable_def mapErr_def bindE_run)

section \<open>A confidential client, and its token\<close>

lemma calm_secret:
  assumes "\<And>n. rng s n \<noteq> None"
  obtains raw where "generate_secret sha s = (Inr raw, s\<lparr>rng_ix := Suc (rng_ix s)\<rparr>)" "raw \<noteq> []"
proof -
  obtain n where "rng s (rng_ix s) = Some n" using assms by blast
  then show ?thesis
    using that [of "''ak_'' @ to_base62 (bytes_be 32 n)"]
    by (simp add: generate_secret_def generate_opaque_token_run bindE_run Let_def)
qed

lemma calm_hash:
  assumes "\<And>n. rng s n \<noteq> None"
  obtains salt where "mapErr e (hash_password argon pw) s =
    (Inr (encode_hash salt (argon pw salt argonTime argonMemory argonThreads argonKeyLen)), s\<lparr>rng_ix := Suc (rng_ix s)\<rparr>)"
proof -
  obtain n where "rng s (rng_ix s) = Some n" using assms by blast
  then show ?thesis
    using that by (simp add: hash_password_def mapErr_def bindE_run generate_random_def Let_def)
qed

definition own_hash :: "argon2id \<Rightarrow> string \<Rightarrow> string \<Rightarrow> bool" where
  "own_hash argon pw h \<longleftrightarrow> (\<exists>salt. h = encode_hash salt (argon pw salt argonTime argonMemory argonThreads argonKeyLen))"

lemma own_hash_verifies:
  assumes "\<And>p salt n m k l. length (argon p salt n m k l) = l" "own_hash argon pw h"
  shows "verify_password argon pw h = Inr True"
  using assms by (auto simp: own_hash_def verify_encode_hash)

lemma create_confidential:
  assumes "require_grantable on scs s = (Inr (), s1)" "faults s1 = []" "\<And>n. rng s1 n \<noteq> None" "validate_redirect_uris N uris"
  obtains raw h n where "raw \<noteq> []" "own_hash argon raw h"
    "create_client sha argon N on uid name TypeConfidential uris scs aud s =
       (let k = build_client_pk (uuids s1 (uuid_ix s1));
            c = (blank_client k)\<lparr>cl_name := name, cl_type := TypeConfidential, cl_redirect_uris := uris, cl_allowed_scopes := scs,
              cl_audience := aud, cl_owner := uid, cl_secret_hash := h, cl_created_at := ts (clock s1), cl_updated_at := ts (clock s1)\<rparr>
        in (Inr (c, raw), world_update (ow_clients_update (tput k c)) (s1\<lparr>rng_ix := n, uuid_ix := Suc (uuid_ix s1)\<rparr>)))"
proof -
  obtain raw where raw: "generate_secret sha s1 = (Inr raw, s1\<lparr>rng_ix := Suc (rng_ix s1)\<rparr>)" "raw \<noteq> []"
    by (rule calm_secret [OF assms(3)])
  obtain salt where hash: "mapErr OPw (hash_password argon raw) (s1\<lparr>rng_ix := Suc (rng_ix s1)\<rparr>) =
    (Inr (encode_hash salt (argon raw salt argonTime argonMemory argonThreads argonKeyLen)), s1\<lparr>rng_ix := Suc (Suc (rng_ix s1))\<rparr>)"
    by (rule calm_hash [of "s1\<lparr>rng_ix := Suc (rng_ix s1)\<rparr>" OPw argon raw]) (use assms(3) in simp_all)
  show ?thesis
  proof (rule that [OF raw(2)])
    show "own_hash argon raw (encode_hash salt (argon raw salt argonTime argonMemory argonThreads argonKeyLen))"
      by (auto simp: own_hash_def)
  qed (use assms(1, 2, 4) raw(1) hash public_confidential in
      \<open>simp add: create_client_def client_create_def blank_client_def build_client_pk_def bindE_run [of "require_grantable _ _"]
        bindE_run [of "generate_secret _"] bindE_run [of "mapErr _ _"] bindE_run [of "db_write _ _"] bindE_run [of now] bindE_run [of new_uuid] bindE_run [of "bindE _ _"] Let_def\<close>)
qed

lemma credentials_run:
  assumes "faults s = []" "tget (ow_clients (world s)) (build_client_pk (tq_form q ''client_id'')) = Some c" "\<not> is_public c"
    "verify_password (tc_argon T) (tq_form q ''client_secret'') (cl_secret_hash c) = Inr True"
    "tq_form q ''client_id'' \<noteq> []" "tq_form q ''client_secret'' \<noteq> []"
    "machine_scopes T c (fields (tq_form q ''scope'')) s = (Inr scp, s3)" "scp \<noteq> []" "faults s3 = []" "\<And>j. tc_sign T j \<noteq> None"
  shows "\<exists>resp t. client_credentials T q s = (Inr resp, t) \<and> tr_scope resp = join_space scp"
proof -
  have l: "load_client (tq_form q ''client_id'') s = (Inr c, s)"
    using assms(1, 2) by (simp add: load_client_def client_get_by_id_def mapErr_def bindE_run)
  have k: "check_secret T c (tq_form q ''client_secret'') s = (Inr (), s)" using assms(4) by (simp add: check_secret_def)
  have au: "or_500 (audiences_for (tc_cache T) scp) s3 = (Inr (collect_audiences scp (cat_value (tc_cache T) s3) []), cat_state (tc_cache T) s3)"
    unfolding or_500_Inr using calm_catalog [OF assms(9), of "tc_cache T"] by (simp add: audiences_for_def)
  have sg: "\<exists>tok. sign_access_token T uid sid cid ss aud a m amr kyc v = (Inr tok, v)" for uid sid cid ss aud a m amr kyc
      and v :: "'a oauth_world_scheme del_db"
  proof -
    have "\<exists>tok. sign_jwt T j v = (Inr tok, v)" for j :: jwt and v :: "'a oauth_world_scheme del_db"
      using assms(10) [of j] by (auto simp: sign_jwt_def)
    then show ?thesis unfolding sign_access_token_def by simp
  qed
  from sg [of "tq_form q ''client_id''" "[]" "tq_form q ''client_id''" scp "tc_audience T # collect_audiences scp (cat_value (tc_cache T) s3) []" 0 0 "[]" "[]"
      "cat_state (tc_cache T) s3"] obtain tok where
    "sign_access_token T (tq_form q ''client_id'') [] (tq_form q ''client_id'') scp
       (tc_audience T # collect_audiences scp (cat_value (tc_cache T) s3) []) 0 0 [] [] (cat_state (tc_cache T) s3) = (Inr tok, cat_state (tc_cache T) s3)"
    by blast
  with l k au assms(3, 5, 6, 7, 8) show ?thesis
    by (simp add: client_credentials_def Let_def)
qed

lemma calm_active:
  assumes "faults s = []" "tget (user_tbl s) (build_pk (cl_owner c)) = Some (UserI u)" "u_is_enabled u" "u_deletion_state u = []"
    "\<not> is_public c" "cl_secret_hash c \<noteq> []" "cl_owner c \<noteq> []"
  shows "client_active c s = (Inr True, s)"
  using assms by (simp add: client_active_def is_active_def user_get_by_id_def mapErr_def bindE_run)

text \<open>The empty scope switches the check off (a flaw). The validation reports the first scope that
  may not be granted, and the empty string stands for no such scope; so a list that starts with the empty
  string is always accepted, whatever follows it. On an undisturbed system any enabled person can in this
  way register a confidential client with whatever scopes they like, internal ones included, and the
  token endpoint then issues a machine token with those scopes.\<close>

theorem empty_scope_bypasses_check:
  assumes calm: "faults s = []" "\<And>n. rng s n \<noteq> None" "uuids s (uuid_ix s) \<noteq> []"
    and cat: "no_empty (cat_value (tc_cache T) s)"
    and lib: "\<And>p salt n m k l. length (tc_argon T p salt n m k l) = l" "\<And>j. tc_sign T j \<noteq> None"
    and person: "tget (user_tbl s) (build_pk uid) = Some (UserI u)" "u_is_enabled u" "u_deletion_state u = []" "uid \<noteq> []"
    and input: "validate_redirect_uris N uris" "fields scope \<noteq> []" "set (fields scope) \<subseteq> set ss"
  shows "\<exists>c raw t.
    create_client (tc_sha T) (tc_argon T) N (tc_cache T) uid name TypeConfidential uris ([] # ss) aud s = (Inr (c, raw), t) \<and>
    cl_owner c = uid \<and> \<not> cl_first_party c \<and> cl_allowed_scopes c = [] # ss \<and>
    (\<forall>q. tq_form q ''client_id'' = client_id c \<and> tq_form q ''client_secret'' = raw \<and> tq_form q ''scope'' = scope \<longrightarrow>
       (\<exists>resp v. client_credentials T q t = (Inr resp, v) \<and> tr_scope resp = join_space (fields scope)))"
proof -
  let ?s1 = "cat_state (tc_cache T) s"
  let ?id = "uuids s (uuid_ix s)"
  obtain raw h n where raw: "raw \<noteq> []" "own_hash (tc_argon T) raw h"
    and run: "create_client (tc_sha T) (tc_argon T) N (tc_cache T) uid name TypeConfidential uris ([] # ss) aud s =
       (let k = build_client_pk (uuids ?s1 (uuid_ix ?s1));
            c = (blank_client k)\<lparr>cl_name := name, cl_type := TypeConfidential, cl_redirect_uris := uris, cl_allowed_scopes := [] # ss,
              cl_audience := aud, cl_owner := uid, cl_secret_hash := h, cl_created_at := ts (clock ?s1), cl_updated_at := ts (clock ?s1)\<rparr>
        in (Inr (c, raw), world_update (ow_clients_update (tput k c)) (?s1\<lparr>rng_ix := n, uuid_ix := Suc (uuid_ix ?s1)\<rparr>)))"
    by (rule create_confidential [OF empty_accepted(3) [OF calm(1) cat], where N = N and uris = uris and sha = "tc_sha T"
        and argon = "tc_argon T" and uid = uid and name = name and aud = aud]) (use calm input in simp_all)
  define k where "k = build_client_pk ?id"
  define c where "c = (blank_client k)\<lparr>cl_name := name, cl_type := TypeConfidential, cl_redirect_uris := uris, cl_allowed_scopes := [] # ss,
              cl_audience := aud, cl_owner := uid, cl_secret_hash := h, cl_created_at := ts (clock s), cl_updated_at := ts (clock s)\<rparr>"
  define t where "t = world_update (ow_clients_update (tput k c)) (?s1\<lparr>rng_ix := n, uuid_ix := Suc (uuid_ix s)\<rparr>)"
  have run': "create_client (tc_sha T) (tc_argon T) N (tc_cache T) uid name TypeConfidential uris ([] # ss) aud s = (Inr (c, raw), t)"
    using run by (simp add: c_def k_def t_def Let_def)
  have c: "cl_owner c = uid" "\<not> cl_first_party c" "cl_allowed_scopes c = [] # ss" "\<not> is_public c" "client_id c = ?id" "cl_secret_hash c = h"
    using public_confidential by (simp_all add: c_def blank_client_def is_public_def client_id_def k_def build_client_pk_def trim_prefix_def has_prefix_def)
  have t: "faults t = []" "tget (ow_clients (world t)) k = Some c" "tget (user_tbl t) (build_pk uid) = Some (UserI u)"
    using calm(1) person(1) by (simp_all add: t_def)
  have again: "cat_value (tc_cache T) t = cat_value (tc_cache T) s"
    by (rule cat_again) (simp_all add: t_def)
  have h: "h \<noteq> []" using raw(2) by (auto simp: own_hash_def encode_hash_def)
  have "client_active c t = (Inr True, t)"
    by (rule calm_active [OF t(1) _ person(2, 3)]) (use t(3) c h person(4) in simp_all)
  moreover have "validate_machine_grantable (tc_cache T) (cl_allowed_scopes c) t = (Inr [], cat_state (tc_cache T) t)"
    unfolding c(3) by (rule empty_accepted(2)) (use t(1) again cat in simp_all)
  ultimately have scopes: "machine_scopes T c (fields scope) t = (Inr (fields scope), cat_state (tc_cache T) t)"
    using c(2, 3) input(3) by (auto simp: machine_scopes_def machine_scopes_for_developer_client_def or_500_def mapErr_def bindE_run
        has_scope_def list_ex_iff)
  have "\<exists>resp v. client_credentials T q t = (Inr resp, v) \<and> tr_scope resp = join_space (fields scope)"
    if q: "tq_form q ''client_id'' = client_id c \<and> tq_form q ''client_secret'' = raw \<and> tq_form q ''scope'' = scope" for q
  proof (rule credentials_run [OF t(1)])
    show "tget (ow_clients (world t)) (build_client_pk (tq_form q ''client_id'')) = Some c" using q c(5) t(2) by (simp add: k_def)
    show "verify_password (tc_argon T) (tq_form q ''client_secret'') (cl_secret_hash c) = Inr True"
      using own_hash_verifies [OF lib(1) raw(2)] q c(6) by simp
    show "machine_scopes T c (fields (tq_form q ''scope'')) t = (Inr (fields scope), cat_state (tc_cache T) t)" using q scopes by simp
  qed (use q c(4, 5) calm(3) raw(1) input(2) t(1) lib(2) in simp_all)
  with run' c(1, 2, 3) show ?thesis by blast
qed

text \<open>A machine client of the platform.\<close>

lemma create_machine:
  assumes "validate_m2m_input (trim_space cid0) (trim_space name0) ss = None" "require_registered on ss s = (Inr (), s1)"
    "faults s1 = []" "\<And>n. rng s1 n \<noteq> None" "tget (ow_clients (world s1)) (build_client_pk (trim_space cid0)) = None"
  obtains raw h n where "raw \<noteq> []" "own_hash argon raw h"
    "create_m2m sha argon on cid0 name0 ss mid s =
       (let k = build_client_pk (trim_space cid0);
            c = (blank_client k)\<lparr>cl_name := trim_space name0, cl_secret_hash := h, cl_type := TypeConfidential, cl_allowed_scopes := ss,
              cl_first_party := True, cl_owner := SystemOwnerUserID, cl_managed_resource := mid,
              cl_created_at := ts (clock s1), cl_updated_at := ts (clock s1)\<rparr>
        in (Inr (c, raw), world_update (ow_clients_update (tput k c)) (s1\<lparr>rng_ix := n\<rparr>)))"
proof -
  obtain raw where raw: "generate_secret sha s1 = (Inr raw, s1\<lparr>rng_ix := Suc (rng_ix s1)\<rparr>)" "raw \<noteq> []"
    by (rule calm_secret [OF assms(4)])
  obtain salt where hash: "mapErr OPw (hash_password argon raw) (s1\<lparr>rng_ix := Suc (rng_ix s1)\<rparr>) =
    (Inr (encode_hash salt (argon raw salt argonTime argonMemory argonThreads argonKeyLen)), s1\<lparr>rng_ix := Suc (Suc (rng_ix s1))\<rparr>)"
    by (rule calm_hash [of "s1\<lparr>rng_ix := Suc (rng_ix s1)\<rparr>" OPw argon raw]) (use assms(4) in simp_all)
  have miss: "client_get_by_id (trim_space cid0) s1 = (Inl ErrClientNotFound, s1)"
    using assms(3, 5) by (simp add: client_get_by_id_def bindE_run)
  show ?thesis
  proof (rule that [OF raw(2)])
    show "own_hash argon raw (encode_hash salt (argon raw salt argonTime argonMemory argonThreads argonKeyLen))"
      by (auto simp: own_hash_def)
  qed (use assms(1, 2, 3) raw(1) hash miss in
      \<open>simp add: create_m2m_def client_create_def blank_client_def build_client_pk_def bindE_run Let_def\<close>)
qed

end
