(* ===== verification/TokenDemo.thy ===== *)
theory TokenDemo
  imports EmptyScope
begin

text \<open>Concrete runs of the token endpoint: the hypotheses of its properties hold somewhere, and two ways in
  which it does not do what it means to.\<close>

definition sha_text :: "string \<Rightarrow> byte list" where
  "sha_text w = map (\<lambda>c. of_nat (of_char c)) w"

definition demo_loop_net :: net_lib where
  "demo_loop_net = \<lparr>nl_parse = (\<lambda>_. Some \<lparr>ul_scheme = ''http'', ul_opaque = [], ul_has_user = False,
     ul_host = ''127.0.0.1:8080'', ul_hostname = ''127.0.0.1'', ul_path = ''/'', ul_raw_query = [], ul_fragment = []\<rparr>),
     nl_loopback = (\<lambda>_. True)\<rparr>"

definition demo_sign :: "jwt \<Rightarrow> string option" where
  "demo_sign j = (case j of AccessToken cl \<Rightarrow> Some (at_sub cl @ ''|'' @ at_sid cl @ ''|'' @ at_scope cl) | IdToken cl \<Rightarrow> Some ''id'')"

definition demo_conf :: token_conf where
  "demo_conf = \<lparr>tc_sha = sha_text, tc_argon = argon_sum, tc_net = demo_loop_net, tc_sign = demo_sign, tc_access_ttl = 15 * minute,
     tc_id_ttl = hour, tc_issuer = ''https://idp'', tc_audience = ''idp'', tc_self_client = ''dash'', tc_cache = True,
     tc_cookie_secure = True, tc_cookie_domain = ''idp'', tc_relinker = None\<rparr>"

definition demo_request :: "(string \<times> string) list \<Rightarrow> token_request" where
  "demo_request fs = \<lparr>tq_form = (\<lambda>k. case map_of fs k of None \<Rightarrow> [] | Some v \<Rightarrow> v), tq_cookie = (\<lambda>_. []), tq_host = ''idp'',
     tq_ip = ''1.2.3.4'', tq_agent = []\<rparr>"

definition demo_cli :: oauth_client where
  "demo_cli = (blank_client ''CLIENT_cli'')\<lparr>cl_type := TypePublic, cl_redirect_uris := [''http://127.0.0.1/cb''],
     cl_allowed_scopes := [''openid'', ''dfe:nfes:read''], cl_owner := ''u9''\<rparr>"

definition demo_code :: auth_code where
  "demo_code = \<lparr>ac_user_id = ''u'', ac_session_id = ''s'', ac_client_id = ''cli'', ac_redirect_uri = ''http://127.0.0.1/cb'',
     ac_scopes = [''openid''], ac_challenge = raw_url_encode (sha_text ''v1''), ac_method = ''S256'', ac_mfa_verified = False,
     ac_nonce = [], ac_created_at = Some 0\<rparr>"

definition demo_signed_in_at :: "user \<Rightarrow> oauth_world del_db" where
  "demo_signed_in_at u = \<lparr>clock = 0, faults = [], rng = (\<lambda>n. Some n), rng_ix = 7, uuids = (\<lambda>_. ''n''), uuid_ix = 0,
     sess_tbl = [((''USER_u'', ''SESSION_s''), SessionI demo_session)], key_tbl = [], user_tbl = [(''USER_u'', UserI u)],
     requests = [], markers = [], services = [], mails = [], published = [], cutoffs = [],
     world = \<lparr>sw_services = [], sw_resources = [], sw_history = [], sw_cache = None, ow_clients = [(''CLIENT_cli'', demo_cli)],
       ow_codes = [(''auth_code:'' @ hash_token sha_text ''c1'', (demo_code, codeTTL))], ow_consents = [], ow_audit = []\<rparr>\<rparr>"

definition demo_signed_in :: "oauth_world del_db" where
  "demo_signed_in = demo_signed_in_at (blank_user ''USER_u'')"

definition demo_exchange :: token_request where
  "demo_exchange = demo_request [(''grant_type'', ''authorization_code''), (''code'', ''c1''), (''client_id'', ''cli''),
     (''redirect_uri'', ''http://127.0.0.1/cb''), (''code_verifier'', ''v1'')]"

definition demo_first :: "(problem \<times> bool) + token_response" where
  "demo_first = fst (token_endpoint demo_conf demo_exchange demo_signed_in)"

definition demo_after :: "oauth_world del_db" where
  "demo_after = snd (token_endpoint demo_conf demo_exchange demo_signed_in)"

definition demo_refresh :: token_request where
  "demo_refresh = demo_request [(''grant_type'', ''refresh_token''), (''client_id'', ''cli''),
     (''refresh_token'', (case demo_first of Inl _ \<Rightarrow> [] | Inr r \<Rightarrow> (case tr_refresh_token r of None \<Rightarrow> [] | Some t \<Rightarrow> t)))]"

definition demo_second :: "(problem \<times> bool) + token_response" where
  "demo_second = fst (token_endpoint demo_conf demo_refresh demo_after)"

definition demo_after2 :: "oauth_world del_db" where
  "demo_after2 = snd (token_endpoint demo_conf demo_refresh demo_after)"

definition demo_marked :: "oauth_world del_db" where
  "demo_marked = demo_signed_in_at ((blank_user ''USER_u'')\<lparr>u_deletion_state := ''pending''\<rparr>)"

lemma demo_grants:
  "token_endpoint demo_conf demo_exchange = authorization_code demo_conf demo_exchange"
  "token_endpoint demo_conf demo_refresh = refresh_grant demo_conf demo_refresh"
  by (simp_all add: token_endpoint_def Let_def demo_exchange_def demo_refresh_def demo_request_def)

lemma demo_view:
  "(case demo_first of Inl _ \<Rightarrow> False | Inr r \<Rightarrow> tr_access_token r = ''u|s|openid'' \<and> tr_refresh_token r = Some ''rt_7'') \<and>
   (case demo_second of Inl _ \<Rightarrow> False | Inr r \<Rightarrow> tr_access_token r = ''u|s|openid'' \<and> tr_refresh_token r = None) \<and>
   tget (ow_clients (world demo_after)) (build_client_pk ''cli'') = Some demo_cli \<and>
   tget (ow_clients (world demo_signed_in)) (build_client_pk ''cli'') = Some demo_cli \<and>
   tq_form demo_exchange ''client_id'' = ''cli'' \<and> tq_form demo_refresh ''client_id'' = ''cli'' \<and>
   tq_form demo_exchange ''grant_type'' = ''authorization_code'' \<and> tq_form demo_refresh ''grant_type'' = ''refresh_token'' \<and>
   is_native_client (tc_net demo_conf) demo_cli"
  by code_simp

lemma demo_token_runs:
  obtains r1 r2 where "authorization_code demo_conf demo_exchange demo_signed_in = (Inr r1, demo_after)"
    "refresh_grant demo_conf demo_refresh demo_after = (Inr r2, demo_after2)"
proof -
  obtain r1 r2 where "demo_first = Inr r1" "demo_second = Inr r2" using demo_view by (auto split: sum.splits)
  then have "authorization_code demo_conf demo_exchange demo_signed_in = (Inr r1, demo_after)"
    "refresh_grant demo_conf demo_refresh demo_after = (Inr r2, demo_after2)"
    by (simp_all add: demo_first_def demo_second_def demo_after_def demo_after2_def demo_grants prod_eq_iff)
  then show ?thesis by (rule that)
qed

theorem code_exchange_sound_witness:
  "\<exists>ac sess. live_code (ow_codes (world demo_signed_in)) (keyPrefix @ hash_token (tc_sha demo_conf) (tq_form demo_exchange ''code'')) (clock demo_signed_in) = Some ac \<and>
     tget (sess_tbl demo_signed_in) (build_pk (ac_user_id ac), build_sk (ac_session_id ac)) = Some (SessionI sess)"
proof -
  obtain r1 where "authorization_code demo_conf demo_exchange demo_signed_in = (Inr r1, demo_after)" by (rule demo_token_runs)
  from code_exchange_sound [OF this] show ?thesis by blast
qed

theorem code_redeemed_once_witness:
  "\<exists>p. fst (token_endpoint demo_conf demo_exchange demo_after) = Inl p"
proof -
  obtain r1 where "authorization_code demo_conf demo_exchange demo_signed_in = (Inr r1, demo_after)" by (rule demo_token_runs)
  then have run: "token_endpoint demo_conf demo_exchange demo_signed_in = (Inr r1, demo_after)" by (simp add: demo_grants)
  have g: "tq_form demo_exchange ''grant_type'' = ''authorization_code''" using demo_view by blast
  from code_redeemed_once [OF run g rtranclp.rtrancl_refl g refl] show ?thesis by blast
qed

theorem refresh_never_widens_witness:
  "\<exists>tk. RefreshI tk \<in> snd ` set (sess_tbl demo_after) \<and> rt_client_id tk = tq_form demo_refresh ''client_id''"
proof -
  obtain r1 r2 where "refresh_grant demo_conf demo_refresh demo_after = (Inr r2, demo_after2)" by (rule demo_token_runs)
  from refresh_never_widens [OF this] show ?thesis by blast
qed

text \<open>The user of \<open>demo_signed_in\<close> signs in while another account is being deleted.\<close>

definition demo_other :: "oauth_world del_db" where
  "demo_other = user_tbl_update (tput ''USER_x'' (UserI ((blank_user ''USER_x'')\<lparr>u_deletion_state := ''pending''\<rparr>))) demo_signed_in"

theorem marked_account_gets_no_token_witness:
  "\<exists>cl. tc_sign demo_conf (AccessToken cl) = Some ''u|s|openid'' \<and> at_sub cl \<noteq> ''x''"
proof -
  have v: "(case fst (token_endpoint demo_conf demo_exchange demo_other) of Inl _ \<Rightarrow> False
      | Inr r \<Rightarrow> tr_access_token r = ''u|s|openid'') \<and> tq_form demo_exchange ''grant_type'' \<noteq> ''client_credentials''"
    by code_simp
  then obtain r where r: "token_endpoint demo_conf demo_exchange demo_other = (Inr r, snd (token_endpoint demo_conf demo_exchange demo_other))"
    "tr_access_token r = ''u|s|openid''" by (auto split: sum.splits simp: prod_eq_iff)
  have m: "marked ''x'' demo_other"
    unfolding marked_def
    by (rule exI [of _ "UserI ((blank_user ''USER_x'')\<lparr>u_deletion_state := ''pending''\<rparr>)"], rule exI [of _ "(blank_user ''USER_x'')\<lparr>u_deletion_state := ''pending''\<rparr>"])
      (simp add: demo_other_def build_pk_def)
  from marked_account_gets_no_token [OF r(1) m] v r(2) show ?thesis by simp
qed

section \<open>A native client loses its refresh token\<close>

text \<open>A native client cannot stay signed in (a flaw). The code grant puts the refresh token into the
  body for a native client, because it has no cookies; the refresh grant does not, although it has
  replaced the token. So after its first refresh such a client holds a consumed token, and using it
  once more ends the whole session as a token theft.\<close>

theorem native_refresh_withheld:
  assumes "authorization_code T q s = (Inr r1, t)" and "refresh_grant T q' s' = (Inr r2, t')"
    and "tget (ow_clients (world s)) (build_client_pk (tq_form q ''client_id'')) = Some c"
    and "tget (ow_clients (world s')) (build_client_pk (tq_form q' ''client_id'')) = Some c"
    and "is_native_client (tc_net T) c"
  shows "tr_refresh_token r1 \<noteq> None \<and> tr_refresh_token r2 = None"
proof -
  obtain c1 ac u sess w where "tget (ow_clients (world s)) (build_client_pk (tq_form q ''client_id'')) = Some c1"
    and iss: "issue_tokens T q c1 (tq_form q ''client_id'') ac u sess w = (Inr r1, t)"
    by (rule exchange_Inr [OF assms(1)], elim exE conjE) (rule that; assumption)
  with assms(3) issue_Inr [OF iss] assms(5) have a: "tr_refresh_token r1 \<noteq> None" by auto
  obtain c2 where "tget (ow_clients (world s')) (build_client_pk (tq_form q' ''client_id'')) = Some c2"
    "tr_refresh_token r2 = None \<longleftrightarrow> is_public c2"
    by (rule refresh_facts [OF assms(2)])
  with assms(4, 5) a show ?thesis by (simp add: is_native_client_def)
qed

theorem native_refresh_withheld_witness:
  "(\<exists>r1 r2. demo_first = Inr r1 \<and> demo_second = Inr r2 \<and> tr_refresh_token r1 \<noteq> None \<and> tr_refresh_token r2 = None) \<and>
   fst (token_endpoint demo_conf demo_refresh demo_after2) = Inl (TokenReuse, True) \<and>
   map fst (sess_tbl (snd (token_endpoint demo_conf demo_refresh demo_after2))) =
     [lookup_key (hash_token sha_text ''rt_7''), lookup_key (hash_token sha_text ''rt_8'')]"
proof -
  obtain r1 r2 where r: "authorization_code demo_conf demo_exchange demo_signed_in = (Inr r1, demo_after)"
    "refresh_grant demo_conf demo_refresh demo_after = (Inr r2, demo_after2)" by (rule demo_token_runs)
  have c: "tget (ow_clients (world demo_signed_in)) (build_client_pk (tq_form demo_exchange ''client_id'')) = Some demo_cli"
    "tget (ow_clients (world demo_after)) (build_client_pk (tq_form demo_refresh ''client_id'')) = Some demo_cli"
    "is_native_client (tc_net demo_conf) demo_cli" using demo_view by simp_all
  have "tr_refresh_token r1 \<noteq> None \<and> tr_refresh_token r2 = None" by (rule native_refresh_withheld [OF r c])
  moreover have "demo_first = Inr r1" "demo_second = Inr r2"
    using r by (simp_all add: demo_first_def demo_second_def demo_grants)
  moreover have "fst (token_endpoint demo_conf demo_refresh demo_after2) = Inl (TokenReuse, True) \<and>
   map fst (sess_tbl (snd (token_endpoint demo_conf demo_refresh demo_after2))) =
     [lookup_key (hash_token sha_text ''rt_7''), lookup_key (hash_token sha_text ''rt_8'')]" by code_simp
  ultimately show ?thesis by blast
qed

section \<open>A person gets an internal scope\<close>

definition demo_owner :: "oauth_world del_db" where
  "demo_owner = user_tbl_update (\<lambda>_. [(''USER_u1'', UserI ((blank_user ''USER_u1'')\<lparr>u_is_enabled := True\<rparr>))]) demo_oauth"

theorem empty_scope_bypasses_check_witness:
  "\<exists>c raw t. create_client (tc_sha demo_conf) (tc_argon demo_conf) demo_net True ''u1'' ''App'' TypeConfidential [''https://dfe'']
       [[], ''internal:account:kyc''] [] demo_owner = (Inr (c, raw), t) \<and> cl_owner c = ''u1'' \<and> \<not> cl_first_party c \<and>
     cl_allowed_scopes c = [[], ''internal:account:kyc'']"
proof -
  have f: "fields ''internal:account:kyc'' = [''internal:account:kyc'']" by code_simp
  have conf: "tc_cache demo_conf" "tc_argon demo_conf = argon_sum" "tc_sign demo_conf = demo_sign" by (simp_all add: demo_conf_def)
  have "no_empty (cat_value (tc_cache demo_conf) demo_owner)"
    by (simp add: conf no_empty_def cat_value_def cat_cached_def cat_merged_def demo_owner_def demo_oauth_def merge_resource_servers_def)
  moreover have "tget (user_tbl demo_owner) (build_pk ''u1'') = Some (UserI ((blank_user ''USER_u1'')\<lparr>u_is_enabled := True\<rparr>))"
    by (simp add: demo_owner_def build_pk_def)
  moreover have "validate_redirect_uris demo_net [''https://dfe'']" by code_simp
  ultimately have "\<exists>c raw t. create_client (tc_sha demo_conf) (tc_argon demo_conf) demo_net (tc_cache demo_conf) ''u1'' ''App'' TypeConfidential [''https://dfe'']
       ([] # [''internal:account:kyc'']) [] demo_owner = (Inr (c, raw), t) \<and> cl_owner c = ''u1'' \<and> \<not> cl_first_party c \<and>
     cl_allowed_scopes c = [] # [''internal:account:kyc''] \<and>
    (\<forall>q. tq_form q ''client_id'' = client_id c \<and> tq_form q ''client_secret'' = raw \<and> tq_form q ''scope'' = ''internal:account:kyc'' \<longrightarrow>
       (\<exists>resp v. client_credentials demo_conf q t = (Inr resp, v) \<and> tr_scope resp = join_space (fields ''internal:account:kyc'')))"
    by (intro empty_scope_bypasses_check [where u = "(blank_user ''USER_u1'')\<lparr>u_is_enabled := True\<rparr>"])
      (simp_all add: conf f demo_owner_def demo_oauth_def argon_sum_def demo_sign_def blank_user_def split: jwt.split)
  then show ?thesis using conf(1) by auto
qed

section \<open>A client of the platform asks for a token\<close>

definition demo_with_scopes :: "oauth_world del_db" where
  "demo_with_scopes = reg_run (\<lambda>_. []) True demo_net (Publish ''pub'' demo_manifest 0 ''repo'' ''rev'')
     (reg_run (\<lambda>_. []) True demo_net (Provision ''dfe'' ''DFe'' ''https://dfe'' ''pub'') demo_oauth)"

definition demo_wallet :: "oauth_world del_db" where
  "demo_wallet = operator_run sha_text argon_sum demo_net True (CreateM2M ''wallet'' ''Wallet'' [''internal:dfe:sync'']) demo_with_scopes"

lemma demo_wallet_run: "(client_step (\<lambda>_. []) sha_text argon_sum demo_net True)\<^sup>*\<^sup>* demo_oauth demo_wallet"
proof -
  let ?st = "client_step (\<lambda>_. []) sha_text argon_sum demo_net True"
  let ?s = "reg_run (\<lambda>_. []) True demo_net (Provision ''dfe'' ''DFe'' ''https://dfe'' ''pub'') demo_oauth"
  have "?st demo_oauth ?s" by (rule client_step.registry) (simp add: seed_ok_def)
  moreover have "?st ?s demo_with_scopes" unfolding demo_with_scopes_def by (rule client_step.registry) (simp add: seed_ok_def)
  moreover have "?st demo_with_scopes demo_wallet" unfolding demo_wallet_def by (rule client_step.operator)
  ultimately show ?thesis by (meson rtranclp.rtrancl_refl rtranclp.rtrancl_into_rtrancl)
qed

definition demo_listed :: "oauth_world del_db" where
  "demo_listed = snd (require_registered True [''internal:dfe:sync''] demo_with_scopes)"

lemma demo_wallet_view:
  "validate_m2m_input (trim_space ''wallet'') (trim_space ''Wallet'') [''internal:dfe:sync''] = None \<and>
   fst (require_registered True [''internal:dfe:sync''] demo_with_scopes) = Inr () \<and> faults demo_listed = [] \<and>
   ow_clients (world demo_listed) = [] \<and> fields ''internal:dfe:sync'' = [''internal:dfe:sync''] \<and> trim_space ''wallet'' = ''wallet''"
  by code_simp

lemma demo_wallet_rng: "rng demo_listed n = Some 0"
  by code_simp

theorem machine_token_exact_witness:
  "\<exists>c. tget (ow_clients (world demo_wallet)) (build_client_pk ''wallet'') = Some c \<and> \<not> is_public c \<and>
     (\<exists>scp. scp \<noteq> [] \<and> set scp \<subseteq> set (cl_allowed_scopes c) \<inter> {''internal:dfe:sync''})"
proof -
  note v = demo_wallet_view
  have reg: "require_registered True [''internal:dfe:sync''] demo_with_scopes = (Inr (), demo_listed)"
    using v by (simp add: demo_listed_def prod_eq_iff)
  let ?k = "build_client_pk (trim_space ''wallet'')"
  obtain raw h n where raw: "raw \<noteq> []" "own_hash argon_sum raw h"
    and run: "create_m2m sha_text argon_sum True ''wallet'' ''Wallet'' [''internal:dfe:sync''] [] demo_with_scopes =
       (let k = ?k;
            c = (blank_client k)\<lparr>cl_name := trim_space ''Wallet'', cl_secret_hash := h, cl_type := TypeConfidential, cl_allowed_scopes := [''internal:dfe:sync''],
              cl_first_party := True, cl_owner := SystemOwnerUserID, cl_managed_resource := [],
              cl_created_at := ts (clock demo_listed), cl_updated_at := ts (clock demo_listed)\<rparr>
        in (Inr (c, raw), world_update (ow_clients_update (tput k c)) (demo_listed\<lparr>rng_ix := n\<rparr>)))"
    by (rule create_machine [OF _ reg, where ?cid0.0 = "''wallet''" and ?name0.0 = "''Wallet''" and argon = argon_sum and sha = sha_text and mid = "[]"])
      (use v demo_wallet_rng in auto)
  define c where "c = (blank_client ?k)\<lparr>cl_name := trim_space ''Wallet'', cl_secret_hash := h, cl_type := TypeConfidential, cl_allowed_scopes := [''internal:dfe:sync''],
              cl_first_party := True, cl_owner := SystemOwnerUserID, cl_managed_resource := [],
              cl_created_at := ts (clock demo_listed), cl_updated_at := ts (clock demo_listed)\<rparr>"
  have w: "demo_wallet = world_update (ow_clients_update (tput ?k c)) (demo_listed\<lparr>rng_ix := n\<rparr>)"
    unfolding demo_wallet_def operator_run.simps run c_def Let_def by simp
  have c: "\<not> is_public c" "cl_secret_hash c = h" "cl_first_party c" "cl_allowed_scopes c = [''internal:dfe:sync'']"
    using public_confidential by (simp_all add: c_def is_public_def)
  let ?q = "demo_request [(''client_id'', ''wallet''), (''client_secret'', raw), (''scope'', ''internal:dfe:sync'')]"
  have q: "tq_form ?q ''client_id'' = ''wallet''" "tq_form ?q ''client_secret'' = raw" "tq_form ?q ''scope'' = ''internal:dfe:sync''"
    by (simp_all add: demo_request_def)
  have conf: "tc_argon demo_conf = argon_sum" "\<And>j. tc_sign demo_conf j \<noteq> None"
    by (simp_all add: demo_conf_def demo_sign_def split: jwt.split)
  have "\<exists>resp t. client_credentials demo_conf ?q demo_wallet = (Inr resp, t) \<and> tr_scope resp = join_space [''internal:dfe:sync'']"
  proof (rule credentials_run [where c = c and scp = "[''internal:dfe:sync'']" and ?s3.0 = demo_wallet])
    show "faults demo_wallet = []" "faults demo_wallet = []" using v by (simp_all add: w)
    show "tget (ow_clients (world demo_wallet)) (build_client_pk (tq_form ?q ''client_id'')) = Some c" using v unfolding q(1) w by simp
    show "verify_password (tc_argon demo_conf) (tq_form ?q ''client_secret'') (cl_secret_hash c) = Inr True"
      unfolding conf(1) q(2) c(2) by (rule own_hash_verifies [OF _ raw(2)]) (simp add: argon_sum_def)
    show "machine_scopes demo_conf c (fields (tq_form ?q ''scope'')) demo_wallet = (Inr [''internal:dfe:sync''], demo_wallet)"
      using v c(3, 4) unfolding q(3) by (simp add: machine_scopes_def filter_scopes_def has_scope_def)
  qed (use q raw c conf in simp_all)
  then obtain resp t where "client_credentials demo_conf ?q demo_wallet = (Inr resp, t)" by blast
  moreover have "client_start demo_oauth" by (simp add: client_start_def core_def demo_oauth_def)
  ultimately show ?thesis
    using machine_token_exact [OF _ demo_wallet_run, of demo_conf ?q resp t] v unfolding q by auto
qed

end
