(* ===== verification/ConsentRuns.thy ===== *)
theory ConsentRuns
  imports AuthorizeRuns
begin

text \<open>
  The consents refine a map from pairs of a user and a client to the set of granted scopes; and what the
  decision on the consent page does and answers.
\<close>

section \<open>The abstract consents\<close>

type_synonym grants = "string \<times> string \<Rightarrow> string set option"

definition spec_grant :: "string \<Rightarrow> string \<Rightarrow> string set \<Rightarrow> grants \<Rightarrow> grants" where
  "spec_grant u c S G = G((u, c) := Some (S \<union> (case G (u, c) of None \<Rightarrow> {} | Some T \<Rightarrow> T)))"

definition spec_revoke :: "string \<Rightarrow> string \<Rightarrow> grants \<Rightarrow> grants" where
  "spec_revoke u c G = G((u, c) := None)"

definition spec_has :: "string \<Rightarrow> string \<Rightarrow> string set \<Rightarrow> grants \<Rightarrow> bool" where
  "spec_has u c R G \<longleftrightarrow> (\<exists>S. G (u, c) = Some S \<and> R \<subseteq> S)"

inductive spec_step :: "grants \<Rightarrow> grants \<Rightarrow> bool" where
  grant: "spec_step G (spec_grant u c S G)"
| revoke: "spec_step G (spec_revoke u c G)"

section \<open>The table\<close>

abbreviation consents :: "'v oauth_world_scheme del_db \<Rightarrow> (key, consent_grant) table" where
  "consents s \<equiv> ow_consents (world s)"

definition grants_of :: "(key, consent_grant) table \<Rightarrow> grants" where
  "grants_of tb = (\<lambda>(u, c). map_option (\<lambda>g. set (cg_scopes g)) (tget tb (build_pk u, build_consent_sk c)))"

definition consents_wf :: "(key, consent_grant) table \<Rightarrow> bool" where
  "consents_wf tb \<longleftrightarrow> tkeys tb \<and> (\<forall>k g. tget tb k = Some g \<longrightarrow> (\<exists>u c. k = (build_pk u, build_consent_sk c)) \<and> cg_pk g = fst k \<and> cg_sk g = snd k)"

lemma consent_keys [simp]: "build_pk u = build_pk v \<longleftrightarrow> u = v" "build_consent_sk c = build_consent_sk d \<longleftrightarrow> c = d"
  by (simp_all add: build_pk_def build_consent_sk_def)

lemma consents_wf_put:
  "consents_wf tb \<Longrightarrow> cg_pk g = build_pk u \<Longrightarrow> cg_sk g = build_consent_sk c \<Longrightarrow> consents_wf (tput (build_pk u, build_consent_sk c) g tb)"
  unfolding consents_wf_def by (auto split: if_splits)

lemma consents_wf_del: "consents_wf tb \<Longrightarrow> consents_wf (tdel k tb)"
  unfolding consents_wf_def by (auto split: if_splits)

lemma grants_put: "grants_of (tput (build_pk u, build_consent_sk c) g tb) = (grants_of tb)((u, c) \<mapsto> set (cg_scopes g))"
  by (auto simp: grants_of_def fun_eq_iff)

lemma grants_del: "grants_of (tdel (build_pk u, build_consent_sk c) tb) = spec_revoke u c (grants_of tb)"
  by (auto simp: grants_of_def spec_revoke_def fun_eq_iff)

section \<open>The operations\<close>

lemma consent_put_cases:
  "consents (snd (consent_put g s)) \<in> {consents s, tput (cg_pk g, cg_sk g) g (consents s)} \<and>
   (fst (consent_put g s) = Inr () \<longrightarrow> consents (snd (consent_put g s)) = tput (cg_pk g, cg_sk g) g (consents s))"
  using db_cond_cases [of OInfra OInfra "\<lambda>_. True" "world_update (ow_consents_update (tput (cg_pk g, cg_sk g) g))" s]
  by (auto simp: consent_put_def db_write_def)

lemma consent_get_cases:
  "(\<exists>os. snd (consent_get u c s) = s\<lparr>faults := os\<rparr>) \<and>
   (fst (consent_get u c s) = Inl OInfra \<or>
    (case tget (consents s) (build_pk u, build_consent_sk c) of
       None \<Rightarrow> fst (consent_get u c s) = Inl ErrGrantNotFound | Some g \<Rightarrow> fst (consent_get u c s) = Inr g))"
proof -
  have "\<exists>os. snd (db_read OInfra (\<lambda>s. tget (consents s) (build_pk u, build_consent_sk c)) s) = s\<lparr>faults := os\<rparr> \<and>
      (fst (db_read OInfra (\<lambda>s. tget (consents s) (build_pk u, build_consent_sk c)) s) = Inr (tget (consents s) (build_pk u, build_consent_sk c)) \<or>
       fst (db_read OInfra (\<lambda>s. tget (consents s) (build_pk u, build_consent_sk c)) s) = Inl OInfra)"
    by (rule db_read_cases)
  then show ?thesis unfolding consent_get_def bindE_run
    by (auto split: prod.splits sum.splits option.splits)
qed

text \<open>The scopes a grant writes are the union with those that were there.\<close>

lemma grant_cases:
  assumes "grant_consent u c ss s = (r, t)"
  shows "consents t = consents s \<and> r \<noteq> Inr () \<or> (\<exists>g. consents t = tput (build_pk u, build_consent_sk c) g (consents s) \<and>
    cg_pk g = build_pk u \<and> cg_sk g = build_consent_sk c \<and>
    Some (set (cg_scopes g)) = spec_grant u c (set ss) (grants_of (consents s)) (u, c))"
proof -
  obtain x v where g: "consent_get u c s = (x, v)" by force
  then obtain os where v: "v = s\<lparr>faults := os\<rparr>" using consent_get_cases [of u c s] by auto
  have put: "\<exists>g. g = \<lparr>cg_pk = build_pk u, cg_sk = build_consent_sk c, cg_scopes = append_new (append_new [] prev) ss,
      cg_created_at = cr, cg_updated_at = ts (clock s)\<rparr> \<and>
      (consents t = consents s \<and> r \<noteq> Inr () \<or> consents t = tput (build_pk u, build_consent_sk c) g (consents s))"
    if "consent_put \<lparr>cg_pk = build_pk u, cg_sk = build_consent_sk c, cg_scopes = append_new (append_new [] prev) ss,
      cg_created_at = cr, cg_updated_at = ts (clock s)\<rparr> v = (r, t)" for prev cr
    using consent_put_cases [of "\<lparr>cg_pk = build_pk u, cg_sk = build_consent_sk c, cg_scopes = append_new (append_new [] prev) ss,
      cg_created_at = cr, cg_updated_at = ts (clock s)\<rparr>" v] that by (auto simp: v)
  show ?thesis
  proof (cases x)
    case (Inl e)
    show ?thesis
    proof (cases "e = ErrGrantNotFound")
      case True
      with g Inl consent_get_cases [of u c s] have none: "tget (consents s) (build_pk u, build_consent_sk c) = None"
        by (auto split: option.splits)
      from assms g Inl True v have "consent_put \<lparr>cg_pk = build_pk u, cg_sk = build_consent_sk c, cg_scopes = append_new (append_new [] []) ss,
        cg_created_at = ts (clock s), cg_updated_at = ts (clock s)\<rparr> v = (r, t)"
        by (simp add: grant_consent_def bindE_run Let_def)
      from put [OF this] none show ?thesis
        by (auto simp: spec_grant_def grants_of_def append_new_set)
    next
      case False
      with assms g Inl v show ?thesis by (auto simp: grant_consent_def bindE_run Let_def)
    qed
  next
    case (Inr g0)
    with g consent_get_cases [of u c s] have some: "tget (consents s) (build_pk u, build_consent_sk c) = Some g0"
      by (auto split: option.splits)
    from assms g Inr v have "consent_put \<lparr>cg_pk = build_pk u, cg_sk = build_consent_sk c, cg_scopes = append_new (append_new [] (cg_scopes g0)) ss,
        cg_created_at = cg_created_at g0, cg_updated_at = ts (clock s)\<rparr> v = (r, t)"
      by (simp add: grant_consent_def bindE_run Let_def)
    from put [OF this] some show ?thesis
      by (auto simp: spec_grant_def grants_of_def append_new_set)
  qed
qed

lemma grant_refines:
  assumes "grant_consent u c ss s = (r, t)" and "consents_wf (consents s)"
  shows "consents_wf (consents t) \<and>
    (grants_of (consents t) = spec_grant u c (set ss) (grants_of (consents s)) \<or> r \<noteq> Inr () \<and> consents t = consents s)"
  using grant_cases [OF assms(1)]
proof
  assume "\<exists>g. consents t = tput (build_pk u, build_consent_sk c) g (consents s) \<and>
    cg_pk g = build_pk u \<and> cg_sk g = build_consent_sk c \<and>
    Some (set (cg_scopes g)) = spec_grant u c (set ss) (grants_of (consents s)) (u, c)"
  then obtain g where g: "consents t = tput (build_pk u, build_consent_sk c) g (consents s)" "cg_pk g = build_pk u" "cg_sk g = build_consent_sk c"
    "Some (set (cg_scopes g)) = spec_grant u c (set ss) (grants_of (consents s)) (u, c)" by blast
  from g(4) have "(grants_of (consents s))((u, c) \<mapsto> set (cg_scopes g)) = spec_grant u c (set ss) (grants_of (consents s))"
    by (simp add: spec_grant_def)
  with g(1-3) assms(2) show ?thesis by (simp add: consents_wf_put grants_put)
qed (use assms(2) in auto)

lemma revoke_refines:
  assumes "revoke_consent u c s = (r, t)" and "consents_wf (consents s)"
  shows "consents_wf (consents t) \<and>
    (grants_of (consents t) = spec_revoke u c (grants_of (consents s)) \<or> r \<noteq> Inr () \<and> consents t = consents s)"
  using db_cond_cases [of OInfra OInfra "\<lambda>_. True" "world_update (ow_consents_update (tdel (build_pk u, build_consent_sk c)))" s] assms
  by (auto simp: revoke_consent_def consent_delete_def db_write_def consents_wf_del grants_del)

lemma has_refines:
  assumes "has_grant u c R s = (Inr b, t)"
  shows "b = spec_has u c (set R) (grants_of (consents s)) \<and> consents t = consents s"
proof -
  obtain x v where g: "consent_get u c s = (x, v)" by force
  with consent_get_cases [of u c s] have v: "consents v = consents s" by auto
  from assms g have r: "(case x of Inl e \<Rightarrow> if e = ErrGrantNotFound then ret False else throw e | Inr g \<Rightarrow> ret (covers g R)) v = (Inr b, t)"
    by (simp add: has_grant_def bindE_run)
  show ?thesis
  proof (cases x)
    case (Inl e)
    with r have "e = ErrGrantNotFound" "b = False" "t = v" by (auto split: if_splits)
    with g Inl v consent_get_cases [of u c s] show ?thesis by (auto simp: spec_has_def grants_of_def split: option.splits)
  next
    case (Inr g0)
    with r have "b = covers g0 R" "t = v" by auto
    with g Inr v consent_get_cases [of u c s] show ?thesis
      by (auto simp: spec_has_def grants_of_def covers_def list_all_iff split: option.splits)
  qed
qed

lemma list_refines:
  assumes "list_consents u s = (Inr gs, t)" and "consents_wf (consents s)"
  shows "(\<lambda>g. (consent_client_id g, set (cg_scopes g))) ` set gs = {(c, S). grants_of (consents s) (u, c) = Some S} \<and> consents t = consents s"
proof -
  have "db_read OInfra (\<lambda>s. tquery (\<lambda>k. fst k = build_pk u \<and> has_prefix (snd k) ''CONSENT_'') (consents s)) s = (Inr gs, t)"
    using assms(1) by (simp add: list_consents_def consent_list_by_user_def)
  from read_Inr [OF this] obtain os where gs: "gs = tquery (\<lambda>k. fst k = build_pk u \<and> has_prefix (snd k) ''CONSENT_'') (consents s)"
    and t: "t = s\<lparr>faults := os\<rparr>" by auto
  have wf: "tkeys (consents s)" using assms(2) by (simp add: consents_wf_def)
  have "g \<in> set gs \<longleftrightarrow> (\<exists>c. tget (consents s) (build_pk u, build_consent_sk c) = Some g)" for g
  proof
    assume "g \<in> set gs"
    then obtain k where k: "fst k = build_pk u" "tget (consents s) k = Some g" unfolding gs tquery_iff [OF wf] by blast
    with assms(2) show "\<exists>c. tget (consents s) (build_pk u, build_consent_sk c) = Some g" unfolding consents_wf_def by fastforce
  next
    assume "\<exists>c. tget (consents s) (build_pk u, build_consent_sk c) = Some g"
    then obtain c where c: "tget (consents s) (build_pk u, build_consent_sk c) = Some g" ..
    have "has_prefix (build_consent_sk c) ''CONSENT_''" unfolding build_consent_sk_def by (rule has_prefix_append)
    with c show "g \<in> set gs" unfolding gs tquery_iff [OF wf]
      by (intro exI [of _ "(build_pk u, build_consent_sk c)"]) simp
  qed
  moreover have "consent_client_id g = c" if "tget (consents s) (build_pk u, build_consent_sk c) = Some g" for g c
  proof -
    have "cg_sk g = build_consent_sk c" using that assms(2) unfolding consents_wf_def by fastforce
    moreover have "trim_prefix (build_consent_sk c) ''CONSENT_'' = c" unfolding build_consent_sk_def by (rule trim_prefix_append)
    ultimately show ?thesis by (simp add: consent_client_id_def)
  qed
  ultimately show ?thesis using t by (force simp: grants_of_def)
qed


section \<open>Runs\<close>

text \<open>Everything the program does to the consents, with the calls of others in between.\<close>

inductive consent_step :: "'v oauth_world_scheme del_db \<Rightarrow> 'v oauth_world_scheme del_db \<Rightarrow> bool" where
  grant: "consent_step s (snd (grant_consent u c ss s))"
| revoke: "consent_step s (snd (revoke_consent u c s))"
| elsewhere: "consents t = consents s \<Longrightarrow> consent_step s t"

lemma consent_step_refines:
  assumes "consent_step s t" and "consents_wf (consents s)"
  shows "consents_wf (consents t) \<and> spec_step\<^sup>*\<^sup>* (grants_of (consents s)) (grants_of (consents t))"
  using assms(1)
proof cases
  case (grant u c ss)
  obtain r where "grant_consent u c ss s = (r, t)" using grant by (metis prod.collapse)
  from grant_refines [OF this assms(2)] show ?thesis
    using spec_step.grant [of "grants_of (consents s)" u c "set ss"] by auto
next
  case (revoke u c)
  obtain r where "revoke_consent u c s = (r, t)" using revoke by (metis prod.collapse)
  from revoke_refines [OF this assms(2)] show ?thesis
    using spec_step.revoke [of "grants_of (consents s)" u c] by auto
qed (use assms(2) in simp)

text \<open>Claim C40. The consents are a map from users and clients to sets of scopes. From an empty table, every run
  of grants and revocations, whatever calls fail or lose their answer, is a run of the abstract map, where a
  grant adds scopes and a revocation forgets them; an operation that reports success has done its abstract
  step; the check before a code answers what the map says; and the page of connected applications shows
  exactly the map.\<close>

theorem consents_refine_map:
  assumes "consents s0 = []" and "consent_step\<^sup>*\<^sup>* s0 s"
  shows "spec_step\<^sup>*\<^sup>* (\<lambda>_. None) (grants_of (consents s)) \<and>
    (\<forall>u c ss t. grant_consent u c ss s = (Inr (), t) \<longrightarrow> grants_of (consents t) = spec_grant u c (set ss) (grants_of (consents s))) \<and>
    (\<forall>u c t. revoke_consent u c s = (Inr (), t) \<longrightarrow> grants_of (consents t) = spec_revoke u c (grants_of (consents s))) \<and>
    (\<forall>u c R b t. has_grant u c R s = (Inr b, t) \<longrightarrow> b = spec_has u c (set R) (grants_of (consents s))) \<and>
    (\<forall>u gs t. list_consents u s = (Inr gs, t) \<longrightarrow>
       (\<lambda>g. (consent_client_id g, set (cg_scopes g))) ` set gs = {(c, S). grants_of (consents s) (u, c) = Some S})"
proof -
  have "consents_wf (consents s) \<and> spec_step\<^sup>*\<^sup>* (\<lambda>_. None) (grants_of (consents s))"
    using assms(2)
  proof (induction rule: rtranclp_induct)
    case base
    then show ?case using assms(1) by (simp add: consents_wf_def grants_of_def case_prod_unfold)
  next
    case (step s t)
    with consent_step_refines [OF step.hyps(2)] show ?case by (meson rtranclp_trans)
  qed
  then have wf: "consents_wf (consents s)" and run: "spec_step\<^sup>*\<^sup>* (\<lambda>_. None) (grants_of (consents s))" by simp_all
  show ?thesis
  proof (intro conjI allI impI)
    show "spec_step\<^sup>*\<^sup>* (\<lambda>_. None) (grants_of (consents s))" by (rule run)
  next
    show "grants_of (consents t) = spec_grant u c (set ss) (grants_of (consents s))" if "grant_consent u c ss s = (Inr (), t)" for u c ss t
      using grant_refines [OF that wf] by simp
  next
    show "grants_of (consents t) = spec_revoke u c (grants_of (consents s))" if "revoke_consent u c s = (Inr (), t)" for u c t
      using revoke_refines [OF that wf] by simp
  qed (use has_refines list_refines [OF _ wf] in blast)+
qed

section \<open>The age of a session\<close>

lemma wrap64_small: "- (2 ^ 63) \<le> x \<Longrightarrow> x < 2 ^ 63 \<Longrightarrow> wrap64 x = x"
  by (simp add: wrap64_def)

lemma wrap64_big: "2 ^ 63 \<le> x \<Longrightarrow> x < 2 ^ 64 + 2 ^ 63 \<Longrightarrow> wrap64 x = x - 2 ^ 64"
proof -
  assume a: "2 ^ 63 \<le> x" "x < 2 ^ 64 + 2 ^ 63"
  have "(x + 2 ^ 63) mod 2 ^ 64 = (x + 2 ^ 63 - 2 ^ 64) mod 2 ^ 64" by (rule minus_mod_self2 [symmetric])
  also have "\<dots> = x + 2 ^ 63 - 2 ^ 64" by (rule mod_pos_pos_trivial) (use a in simp_all)
  finally show ?thesis by (simp add: wrap64_def)
qed

lemma parse_max_age_range: "parse_max_age raw = Some m \<Longrightarrow> 0 \<le> m \<and> m < 2 ^ 63"
  by (auto simp: parse_max_age_def parse_int64_def Let_def split: if_splits)

text \<open>What max_age asks for. A request with the parameter is sent to the sign-in page exactly when the
  session was authenticated more than that many seconds and a minute of grace ago, or when the number is
  one of the sixty largest of 64 bits: there the sum with the grace wraps to a negative number, and no
  session is ever young enough.\<close>

theorem max_age_exact:
  assumes "parse_max_age raw = Some m" and "se_auth_time sess \<le> unix n" and "unix n - se_auth_time sess < 2 ^ 63"
  shows "too_old n sess raw \<longleftrightarrow> m + 60 < unix n - se_auth_time sess \<or> 2 ^ 63 - 60 \<le> m"
proof -
  have d: "wrap64 (unix n - se_auth_time sess) = unix n - se_auth_time sess" by (rule wrap64_small) (use assms in simp_all)
  have m: "0 \<le> m" "m < 2 ^ 63" using parse_max_age_range [OF assms(1)] by simp_all
  show ?thesis
  proof (cases "m + 60 < 2 ^ 63")
    case True
    with m have "wrap64 (m + 60) = m + 60" by (intro wrap64_small) simp_all
    with True d assms(1) show ?thesis by (auto simp: too_old_def maxAgeGraceSeconds_def)
  next
    case False
    with m have "wrap64 (m + 60) = m + 60 - 2 ^ 64" by (intro wrap64_big) simp_all
    with False d m assms show ?thesis by (auto simp: too_old_def maxAgeGraceSeconds_def)
  qed
qed

theorem max_age_exact_witness:
  "parse_max_age ''9223372036854775800'' = Some 9223372036854775800 \<and>
   too_old (5 * second) (demo_session\<lparr>se_auth_time := 5\<rparr>) ''9223372036854775800'' \<and>
   \<not> too_old (65 * second) (demo_session\<lparr>se_auth_time := 5\<rparr>) ''0''"
proof -
  have p: "parse_max_age ''9223372036854775800'' = Some 9223372036854775800" "parse_max_age ''0'' = Some 0" by code_simp+
  have u: "unix (5 * second) = 5" "unix (65 * second) = 65" by (simp_all add: unix_def second_def)
  show ?thesis
    using p max_age_exact [OF p(1), of "demo_session\<lparr>se_auth_time := 5\<rparr>" "5 * second"]
      max_age_exact [OF p(2), of "demo_session\<lparr>se_auth_time := 5\<rparr>" "65 * second"]
    by (simp add: u)
qed

section \<open>The decision on the consent page\<close>

text \<open>What the consent page can do. A response to a decision, whatever calls fail: the browser has a
  live session; the address sent back parses to the authorize path without a host, and the client and
  redirect address in it are registered together; a denial leaves the consents alone and answers with the
  redirect address and the error; an approval adds exactly the scopes asked for that the client may have
  to the person's consents, and answers with the program's own address followed by the parsed one.\<close>

theorem consent_decision_exact:
  assumes "consent_decision A q req approved s = (Inr location, t)" and "consents_wf (consents s)"
  shows "\<exists>sess u c. live_session (au_sha A) (ar_cookie q sessionCookieName) sess s \<and>
    consent_request A req = Some u \<and> ul_path u = ''/v1.0/authorize'' \<and> ul_host u = [] \<and>
    tget (ow_clients (world s)) (build_client_pk (query_get (ul_raw_query u) ''client_id'')) = Some c \<and>
    query_get (ul_raw_query u) ''redirect_uri'' \<in> set (cl_redirect_uris c) \<and>
    (if approved then
       grants_of (consents t) = spec_grant (session_user_id sess) (query_get (ul_raw_query u) ''client_id'')
         (set (OAuthTokens.fields (query_get (ul_raw_query u) ''scope'')) \<inter> set (cl_allowed_scopes c)) (grants_of (consents s)) \<and>
       location = au_api_url A @ au_url_string A u
     else consents t = consents s \<and>
       location = deny_url (query_get (ul_raw_query u) ''redirect_uri'') (query_get (ul_raw_query u) ''state''))"
proof -
  from assms(1) obtain sess s1 u where v: "validate_token (au_sha A) (ar_cookie q sessionCookieName) s = (Inr sess, s1)"
    and u: "consent_request A req = Some u" and d: "decide_consent A q sess u approved s1 = (Inr location, t)"
    unfolding consent_decision_def Let_def
    by (auto simp: mapErr_Inr refuse_Inr elim!: bindE_InrE split: if_splits option.splits)
  let ?get = "query_get (ul_raw_query u)"
  from validate_Inr [OF v] obtain o1 where live: "live_session (au_sha A) (ar_cookie q sessionCookieName) sess s"
    and s1: "s1 = s\<lparr>faults := o1\<rparr>" by blast
  have path: "ul_path u = ''/v1.0/authorize''" "ul_host u = []"
    using u by (auto simp: consent_request_def authorizeRequestPath_def split: option.splits if_splits)
  from d obtain c s2 where c: "load_client (?get ''client_id'') s1 = (Inr c, s2)"
    and r: "(if \<not> is_redirect_uri_allowed c (?get ''redirect_uri'') then refuse InvalidRequest
      else if \<not> approved then ret (deny_url (?get ''redirect_uri'') (?get ''state''))
      else if filter_scopes c (OAuthTokens.fields (?get ''scope'')) = [] then refuse InvalidRequest
      else bindE (or_500 (grant_consent (session_user_id sess) (?get ''client_id'') (filter_scopes c (OAuthTokens.fields (?get ''scope''))))) (\<lambda>_.
        bindE (record_audit q (session_user_id sess) EventConsentGranted [(''client_id'', ?get ''client_id'')]) (\<lambda>_.
        ret (au_api_url A @ au_url_string A u)))) s2 = (Inr location, t)"
    unfolding decide_consent_def Let_def by (elim bindE_InrE)
  from client_Inr [OF c] s1 obtain o2 where client: "tget (ow_clients (world s)) (build_client_pk (?get ''client_id'')) = Some c"
    and s2: "s2 = s\<lparr>faults := o2\<rparr>" by auto
  from r have uri: "?get ''redirect_uri'' \<in> set (cl_redirect_uris c)"
    by (auto simp: refuse_Inr is_redirect_uri_allowed_def list_ex_iff split: if_splits)
  have scp: "set (filter_scopes c (OAuthTokens.fields (?get ''scope''))) = set (OAuthTokens.fields (?get ''scope'')) \<inter> set (cl_allowed_scopes c)"
    by (auto simp: filter_scopes_def has_scope_def list_ex_iff)
  have act: "if approved then
       grants_of (consents t) = spec_grant (session_user_id sess) (?get ''client_id'')
         (set (OAuthTokens.fields (?get ''scope'')) \<inter> set (cl_allowed_scopes c)) (grants_of (consents s)) \<and>
       location = au_api_url A @ au_url_string A u
     else consents t = consents s \<and> location = deny_url (?get ''redirect_uri'') (?get ''state'')"
  proof (cases approved)
    case True
    with r obtain s3 s4 where g: "grant_consent (session_user_id sess) (?get ''client_id'') (filter_scopes c (OAuthTokens.fields (?get ''scope''))) s2 = (Inr (), s3)"
      and a: "record_audit q (session_user_id sess) EventConsentGranted [(''client_id'', ?get ''client_id'')] s3 = (Inr (), s4)"
      and l: "location = au_api_url A @ au_url_string A u" "t = s4"
      by (auto simp: refuse_Inr or_500_Inr split: if_splits elim!: bindE_InrE)
    have "keeps consents (record_audit q w ty m)" for w ty m
      unfolding record_audit_def record_event_def record_strict_def by (intro keeps_calls) (simp_all add: blind_def)
    from keepsD' [OF this a] grant_refines [OF g] assms(2) True l scp show ?thesis by (simp add: s2)
  next
    case False
    with r s2 show ?thesis by (auto simp: refuse_Inr split: if_splits)
  qed
  show ?thesis
    by (rule exI [of _ sess], rule exI [of _ u], rule exI [of _ c]) (intro conjI; fact live u path client uri act)
qed

text \<open>The alphabet of URLs is that of base 64 with two characters replaced.\<close>

definition std_char :: "char \<Rightarrow> char" where
  "std_char c = (if c = CHR ''-'' then CHR ''+'' else if c = CHR ''_'' then CHR ''/'' else c)"

lemma url_alphabet: "list_all (\<lambda>c. std_char (raw_url_char c) = c \<and> raw_url_char c \<noteq> CHR ''+'' \<and> raw_url_char c \<noteq> CHR ''/'') base64_chars"
  by code_simp

lemma char64_alphabet: "d < 64 \<Longrightarrow> std_char (raw_url_char (char64 d)) = char64 d \<and> raw_url_char (char64 d) \<noteq> CHR ''+'' \<and> raw_url_char (char64 d) \<noteq> CHR ''/''"
  using url_alphabet unfolding list_all_length char64_def length_base64_chars by blast

lemma in_alphabet: "d < 64 \<Longrightarrow> \<exists>e<64. char64 d = char64 e"
  by blast

lemma encode64_alphabet: "\<forall>c\<in>set (encode64 b). \<exists>d<64. c = char64 d"
proof (induction b rule: encode64.induct)
  case (1 a b c r)
  have "unat a div 4 < 64" "unat a mod 4 * 16 + unat b div 16 < 64" "unat b mod 16 * 4 + unat c div 64 < 64" "unat c mod 64 < 64"
    using unat_byte_less [of a] unat_byte_less [of b] unat_byte_less [of c] by simp_all
  with 1 show ?case by (simp add: in_alphabet)
next
  case (2 a b)
  have "unat a div 4 < 64" "unat a mod 4 * 16 + unat b div 16 < 64" "unat b mod 16 * 4 < 64"
    using unat_byte_less [of a] unat_byte_less [of b] by simp_all
  then show ?case by (simp add: in_alphabet)
next
  case (3 a)
  have "unat a div 4 < 64" "unat a mod 4 * 16 < 64" using unat_byte_less [of a] by simp_all
  then show ?case by (simp add: in_alphabet)
qed simp

lemma raw_url_round_trip: "raw_url_decode (raw_url_encode b) = Some b"
proof -
  have m: "\<forall>c\<in>set (encode64 b). std_char (raw_url_char c) = c \<and> raw_url_char c \<noteq> CHR ''+'' \<and> raw_url_char c \<noteq> CHR ''/''"
    using encode64_alphabet char64_alphabet by metis
  then have "map (\<lambda>c. std_char (raw_url_char c)) (encode64 b) = encode64 b" by (simp add: map_idI)
  with m show ?thesis
    by (auto simp: raw_url_decode_def raw_url_encode_def comp_def std_char_def [symmetric] decode64_encode64)
qed

text \<open>The consent page can be made to leave the platform (a flaw). The check of the address that the
  page sends back looks at its path and host only. An address such as \<open>evil.com:/v1.0/authorize?..\<close> parses
  to this path without a host, with \<open>evil.com\<close> as its scheme, and is printed as it was; so for any signed-in
  browser and any registered client the answer to an approval is the address of the API, which has no
  trailing slash, followed by \<open>evil.com:/..\<close>: the host of the answer is another one.\<close>

theorem consent_leaves_origin:
  fixes evil query
  defines "text \<equiv> evil @ '':/v1.0/authorize?'' @ query"
  assumes calm: "faults s = []"
    and signed_in: "ar_cookie q sessionCookieName \<noteq> []" "validate_token (au_sha A) (ar_cookie q sessionCookieName) s = (Inr sess, s)"
    and parsed: "nl_parse (tc_net (au_tokens A)) text = Some u" "ul_scheme u = evil" "ul_host u = []"
      "ul_path u = ''/v1.0/authorize''" "ul_raw_query u = query" "au_url_string A u = text" "length text \<le> 4096"
    and client: "tget (ow_clients (world s)) (build_client_pk (query_get query ''client_id'')) = Some c"
      "query_get query ''redirect_uri'' \<in> set (cl_redirect_uris c)"
      "set (OAuthTokens.fields (query_get query ''scope'')) \<inter> set (cl_allowed_scopes c) \<noteq> {}"
  shows "\<exists>t. consent_decision A q (raw_url_encode (to_bytes text)) True s = (Inr (au_api_url A @ evil @ '':/v1.0/authorize?'' @ query), t)"
proof -
  have req: "consent_request A (raw_url_encode (to_bytes text)) = Some u"
    using parsed by (simp add: consent_request_def raw_url_round_trip of_bytes_to_bytes maxConsentReqLen_def authorizeRequestPath_def length_to_bytes)
  have l: "load_client (query_get query ''client_id'') s = (Inr c, s)"
    using calm client(1) by (simp add: load_client_def client_get_by_id_def mapErr_def bindE_run)
  let ?ss = "filter_scopes c (OAuthTokens.fields (query_get query ''scope''))"
  have ss: "?ss \<noteq> []" using client(3) by (auto simp: filter_scopes_def has_scope_def list_ex_iff filter_empty_conv)
  have allowed: "is_redirect_uri_allowed c (query_get query ''redirect_uri'')"
    using client(2) by (simp add: is_redirect_uri_allowed_def list_ex_iff)
  obtain v where g: "grant_consent (session_user_id sess) (query_get query ''client_id'') ?ss s = (Inr (), v)"
    using calm by (cases "tget (consents s) (build_pk (session_user_id sess), build_consent_sk (query_get query ''client_id''))")
      (auto simp: grant_consent_def consent_get_def consent_put_def bindE_run Let_def)
  have "\<exists>t. decide_consent A q sess u True s = (Inr (au_api_url A @ text), t)"
    using l ss allowed g parsed by (simp add: decide_consent_def Let_def or_500_Inr record_audit_def record_event_def)
  with signed_in req show ?thesis
    unfolding text_def [symmetric] append.assoc [symmetric]
    by (simp add: consent_decision_def Let_def mapErr_run text_def)
qed

end
