(* ===== verification/AuthorizeDemo.thy ===== *)
theory AuthorizeDemo
  imports TokenDemo ConsentRuns
begin

text \<open>Concrete runs of the authorize endpoint and of the consent page: the hypotheses of their properties
  hold somewhere.\<close>

definition demo_page :: string where
  "demo_page = ''evil.com:/v1.0/authorize?client_id=cli&redirect_uri=http%3A%2F%2F127.0.0.1%2Fcb&scope=openid+dfe%3Anfes%3Aread''"

definition demo_page_query :: string where
  "demo_page_query = ''client_id=cli&redirect_uri=http%3A%2F%2F127.0.0.1%2Fcb&scope=openid+dfe%3Anfes%3Aread''"

definition demo_parse :: "string \<Rightarrow> url option" where
  "demo_parse w = (if has_prefix w ''evil.com:/''
     then Some \<lparr>ul_scheme = ''evil.com'', ul_opaque = [], ul_has_user = False, ul_host = [], ul_hostname = [],
       ul_path = ''/v1.0/authorize'', ul_raw_query = drop 1 (dropWhile (\<lambda>c. c \<noteq> CHR ''?'') w), ul_fragment = []\<rparr>
     else nl_parse demo_loop_net w)"

definition demo_auth :: auth_conf where
  "demo_auth = \<lparr>au_tokens = demo_conf\<lparr>tc_net := demo_loop_net\<lparr>nl_parse := demo_parse\<rparr>\<rparr>, au_app_url = ''https://app'',
     au_api_url = ''https://api'', au_origins = [], au_url_string = (\<lambda>u. ul_scheme u @ '':'' @ ul_path u @ ''?'' @ ul_raw_query u),
     au_geo = (\<lambda>_. \<lparr>gd_city = [], gd_region = [], gd_country = ''BR'', gd_latitude = 0, gd_longitude = 0\<rparr>),
     au_dummy = [], au_mail = True\<rparr>"

definition demo_person :: user where
  "demo_person = (blank_user ''USER_u'')\<lparr>u_is_enabled := True, u_tos_version := CurrentToSVersion, u_privacy_version := CurrentPrivacyVersion\<rparr>"

definition demo_sso :: session where
  "demo_sso = demo_session\<lparr>se_pk := ''USER_u'', se_sk := ''SESSION_s'', se_hash := hash_token sha_text ''rt_0'', se_expires_at := 1000\<rparr>"

definition demo_browser :: "auth_world del_db" where
  "demo_browser = \<lparr>clock = 0, faults = [], rng = (\<lambda>n. Some n), rng_ix = 7, uuids = (\<lambda>_. ''n''), uuid_ix = 0,
     sess_tbl = [((''USER_u'', ''SESSION_s''), SessionI demo_sso)], key_tbl = [], user_tbl = [(''USER_u'', UserI demo_person)],
     requests = [], markers = [], services = [], mails = [], published = [], cutoffs = [],
     world = \<lparr>sw_services = [], sw_resources = [], sw_history = [], sw_cache = None, ow_clients = [(''CLIENT_cli'', demo_cli)],
       ow_codes = [], ow_consents = [], ow_audit = [], aw_cache = [], aw_totp = [], aw_mails = []\<rparr>\<rparr>"

definition demo_ask :: auth_request where
  "demo_ask = \<lparr>ar_query = (\<lambda>k. case map_of [(''client_id'', ''cli''), (''redirect_uri'', ''http://127.0.0.1/cb''),
       (''response_type'', ''code''), (''scope'', ''openid admin''), (''state'', ''x&y''),
       (''code_challenge'', raw_url_encode (sha_text ''v1'')), (''code_challenge_method'', ''S256'')] k of None \<Rightarrow> [] | Some v \<Rightarrow> v),
     ar_url = ''/v1.0/authorize?client_id=cli'', ar_cookie = (\<lambda>k. if k = sessionCookieName then ''rt_0'' else []),
     ar_host = ''idp'', ar_raw_ip = ''1.2.3.4, 10.0.0.1'', ar_agent = ''curl''\<rparr>"

definition demo_granted :: "auth_world del_db" where
  "demo_granted = snd (grant_consent ''u'' ''cli'' [''openid'', ''email''] demo_browser)"

definition demo_coded :: "auth_world del_db" where
  "demo_coded = snd (authorize demo_auth demo_ask demo_granted)"

definition demo_redeem :: token_request where
  "demo_redeem = demo_request [(''grant_type'', ''authorization_code''), (''code'', ''7''), (''client_id'', ''cli''),
     (''redirect_uri'', ''http://127.0.0.1/cb''), (''code_verifier'', ''v1'')]"

lemma demo_authorize_view:
  "(case fst (authorize demo_auth demo_ask demo_browser) of Inl _ \<Rightarrow> False | Inr (l, cs) \<Rightarrow> has_prefix l ''https://app/consent?'' \<and> cs = []) \<and>
   (case fst (authorize demo_auth demo_ask demo_granted) of Inl _ \<Rightarrow> False | Inr (l, cs) \<Rightarrow> l = ''http://127.0.0.1/cb?code=7&state=x%26y'' \<and> cs = []) \<and>
   (case fst (authorization_code (au_tokens demo_auth) demo_redeem demo_coded) of Inl _ \<Rightarrow> False | Inr r \<Rightarrow> tr_access_token r = ''u|s|openid'')"
  by code_simp

lemma demo_authorize_run: "\<exists>r. authorize demo_auth demo_ask demo_granted = (Inr r, demo_coded)"
  using demo_authorize_view by (auto simp: demo_coded_def prod_eq_iff split: sum.splits)

theorem authorize_stays_registered_witness:
  "ar_query demo_ask ''redirect_uri'' \<in> set (cl_redirect_uris demo_cli) \<and> demo_cli \<in> set (map snd (ow_clients (world demo_granted)))"
proof -
  obtain l cs where "authorize demo_auth demo_ask demo_granted = (Inr (l, cs), demo_coded)" using demo_authorize_run by auto
  from authorize_stays_registered [OF this] have "\<exists>c. tget (ow_clients (world demo_granted)) (build_client_pk (ar_query demo_ask ''client_id'')) = Some c \<and>
    ar_query demo_ask ''redirect_uri'' \<in> set (cl_redirect_uris c)" by blast
  moreover have "ow_clients (world demo_granted) = [(''CLIENT_cli'', demo_cli)]" by code_simp
  moreover have "build_client_pk (ar_query demo_ask ''client_id'') = ''CLIENT_cli''" by code_simp
  ultimately show ?thesis by (auto split: if_splits)
qed

theorem token_traces_to_sign_in_witness:
  "\<exists>s1 q1 ac. (auth_step demo_auth)\<^sup>*\<^sup>* s1 demo_coded \<and> authorized demo_auth q1 ac s1 \<and> ac_client_id ac = ''cli''"
proof -
  obtain r t where x: "authorization_code (au_tokens demo_auth) demo_redeem demo_coded = (Inr r, t)"
    using demo_authorize_view by (auto simp: prod_eq_iff split: sum.splits)
  have "codes demo_granted = []" by code_simp
  moreover have "(auth_step demo_auth)\<^sup>*\<^sup>* demo_granted demo_coded"
    unfolding demo_coded_def by (rule r_into_rtranclp) (rule auth_step.authorize)
  moreover have "tq_form demo_redeem ''client_id'' = ''cli''" by code_simp
  ultimately show ?thesis using token_traces_to_sign_in [OF _ _ x] by metis
qed

theorem consents_refine_map_witness:
  "grants_of (consents demo_granted) (''u'', ''cli'') = Some {''openid'', ''email''} \<and>
   spec_step\<^sup>*\<^sup>* (\<lambda>_. None) (grants_of (consents demo_granted))"
proof -
  have e: "consents demo_browser = []" by code_simp
  have "consent_step\<^sup>*\<^sup>* demo_browser demo_granted"
    unfolding demo_granted_def by (rule r_into_rtranclp) (rule consent_step.grant)
  from consents_refine_map [OF e this] have run: "spec_step\<^sup>*\<^sup>* (\<lambda>_. None) (grants_of (consents demo_granted))" by blast
  have "map_option cg_scopes (tget (consents demo_granted) (build_pk ''u'', build_consent_sk ''cli'')) = Some [''openid'', ''email'']"
    by code_simp
  then have "grants_of (consents demo_granted) (''u'', ''cli'') = Some {''openid'', ''email''}"
    by (auto simp: grants_of_def)
  with run show ?thesis by blast
qed

lemma demo_page_text: "demo_page = ''evil.com'' @ '':/v1.0/authorize?'' @ demo_page_query"
  by (simp add: demo_page_def demo_page_query_def)

lemma demo_page_view:
  "(case nl_parse (tc_net (au_tokens demo_auth)) demo_page of None \<Rightarrow> False | Some u \<Rightarrow> ul_scheme u = ''evil.com'' \<and> ul_host u = [] \<and>
      ul_path u = ''/v1.0/authorize'' \<and> ul_raw_query u = demo_page_query \<and> au_url_string demo_auth u = demo_page) \<and>
   length demo_page \<le> 4096 \<and> faults demo_browser = [] \<and> ar_cookie demo_ask sessionCookieName = ''rt_0'' \<and>
   fst (validate_token (au_sha demo_auth) (ar_cookie demo_ask sessionCookieName) demo_browser) = Inr demo_sso \<and>
   tget (ow_clients (world demo_browser)) (build_client_pk (query_get demo_page_query ''client_id'')) = Some demo_cli \<and>
   query_get demo_page_query ''redirect_uri'' = ''http://127.0.0.1/cb'' \<and>
   OAuthTokens.fields (query_get demo_page_query ''scope'') = [''openid'', ''dfe:nfes:read''] \<and>
   cl_redirect_uris demo_cli = [''http://127.0.0.1/cb''] \<and> cl_allowed_scopes demo_cli = [''openid'', ''dfe:nfes:read'']"
  by code_simp

theorem consent_leaves_origin_witness:
  "\<exists>t. consent_decision demo_auth demo_ask (raw_url_encode (to_bytes demo_page)) True demo_browser =
     (Inr (''https://api'' @ ''evil.com'' @ '':/v1.0/authorize?'' @ demo_page_query), t)"
proof -
  note v = demo_page_view
  obtain u where u: "nl_parse (tc_net (au_tokens demo_auth)) demo_page = Some u" "ul_scheme u = ''evil.com''" "ul_host u = []"
    "ul_path u = ''/v1.0/authorize''" "ul_raw_query u = demo_page_query" "au_url_string demo_auth u = demo_page"
    using v by (auto split: option.splits)
  have val: "validate_token (au_sha demo_auth) (ar_cookie demo_ask sessionCookieName) demo_browser = (Inr demo_sso, demo_browser)"
  proof -
    obtain t where t: "validate_token (au_sha demo_auth) (ar_cookie demo_ask sessionCookieName) demo_browser = (Inr demo_sso, t)"
      using v by (metis prod.collapse)
    then show ?thesis using v
      by (auto simp: validate_token_def repo_get_by_token_hash_def query_by_token_hash_def unmarshal_def tryE_Inr
          simp del: tryE_run elim!: bindE_InrE split: sum.splits option.splits if_splits)
  qed
  have c: "tget (ow_clients (world demo_browser)) (build_client_pk (query_get demo_page_query ''client_id'')) = Some demo_cli"
    "query_get demo_page_query ''redirect_uri'' \<in> set (cl_redirect_uris demo_cli)"
    "set (OAuthTokens.fields (query_get demo_page_query ''scope'')) \<inter> set (cl_allowed_scopes demo_cli) \<noteq> {}"
    using v by simp_all
  have "au_api_url demo_auth = ''https://api''" by (simp add: demo_auth_def)
  with consent_leaves_origin [OF _ _ val u [unfolded demo_page_text] _ c] v show ?thesis
    unfolding demo_page_text by (metis list.distinct(1))
qed

theorem consent_decision_exact_witness:
  "\<exists>l t. consent_decision demo_auth demo_ask (raw_url_encode (to_bytes demo_page)) True demo_browser = (Inr l, t) \<and>
     grants_of (consents t) (''u'', ''cli'') = Some {''openid'', ''dfe:nfes:read''}"
proof -
  let ?run = "consent_decision demo_auth demo_ask (raw_url_encode (to_bytes demo_page)) True demo_browser"
  have "case fst ?run of Inl _ \<Rightarrow> False | Inr _ \<Rightarrow> True" by code_simp
  then obtain l t where run: "?run = (Inr l, t)" by (auto simp: prod_eq_iff split: sum.splits)
  have e: "consents demo_browser = []" by code_simp
  note v = demo_page_view
  obtain w where w: "nl_parse (tc_net (au_tokens demo_auth)) demo_page = Some w" "ul_host w = []"
    "ul_path w = ''/v1.0/authorize''" "ul_raw_query w = demo_page_query"
    using v by (auto split: option.splits)
  have req: "consent_request demo_auth (raw_url_encode (to_bytes demo_page)) = Some w"
    using w v by (simp add: consent_request_def raw_url_round_trip of_bytes_to_bytes length_to_bytes maxConsentReqLen_def authorizeRequestPath_def)
  have hash: "\<forall>x. SessionI x \<in> snd ` set (sess_tbl demo_browser) \<longrightarrow> session_user_id x = ''u''"
  proof -
    have "session_user_id demo_sso = ''u''" by code_simp
    then show ?thesis by (simp add: demo_browser_def)
  qed
  obtain sess u c where d: "live_session (au_sha demo_auth) (ar_cookie demo_ask sessionCookieName) sess demo_browser"
    "consent_request demo_auth (raw_url_encode (to_bytes demo_page)) = Some u"
    "tget (ow_clients (world demo_browser)) (build_client_pk (query_get (ul_raw_query u) ''client_id'')) = Some c"
    "grants_of (consents t) = spec_grant (session_user_id sess) (query_get (ul_raw_query u) ''client_id'')
         (set (OAuthTokens.fields (query_get (ul_raw_query u) ''scope'')) \<inter> set (cl_allowed_scopes c)) (grants_of (consents demo_browser))"
  proof -
    have "consents_wf (consents demo_browser)" unfolding e consents_wf_def by simp
    from consent_decision_exact [OF run this] show ?thesis
      unfolding if_True by (elim exE conjE) (rule that; assumption)
  qed
  have "session_user_id sess = ''u''" using d(1) hash by (simp add: live_session_def)
  moreover have "ul_raw_query u = demo_page_query" using req d(2) w(4) by simp
  moreover have "query_get demo_page_query ''client_id'' = ''cli''" by code_simp
  ultimately have "grants_of (consents t) (''u'', ''cli'') = Some {''openid'', ''dfe:nfes:read''}"
    using d(3, 4) demo_page_view e by (simp add: spec_grant_def grants_of_def)
  with run show ?thesis by blast
qed

end
