(* ===== verification/LoginDemo.thy ===== *)
theory LoginDemo
  imports SocialRuns AuthorizeDemo
begin

text \<open>Concrete runs of the sign-in handlers: the hypotheses of their properties hold somewhere.\<close>

section \<open>A small system\<close>

definition demo_lib :: totp_lib where
  "demo_lib = \<lparr>tl_sealer = \<lparr>sl_key = replicate 32 0, sl_seal = (\<lambda>k n w. w), sl_open = (\<lambda>k n w. Some w)\<rparr>,
     tl_validate = (\<lambda>code w n. if length (trim_space code) = 6 then Some (code = w) else None),
     tl_generate = (\<lambda>i a b. Some (''123456'', ''otpauth'')), tl_issuer = ''idp''\<rparr>"

definition demo_row :: "string list \<Rightarrow> totp_row" where
  "demo_row hs = \<lparr>to_pk = ''USER_u'', to_sk = ''TOTP_default'', to_secret = ''123456'', to_verified = Some True,
     to_backup_codes = hs, to_version = Some 0, to_created_at = None\<rparr>"

definition demo_member :: user where
  "demo_member = demo_person\<lparr>u_email := ''a@b'', u_google_sub := ''g'', u_password_hash := ''$argon2id$v=19$m=65536,t=1,p=4$$BA'', u_email_verified := True\<rparr>"

definition demo_house :: "user \<Rightarrow> (key \<times> totp_row) list \<Rightarrow> (string \<times> cache_val \<times> time option) list \<Rightarrow> auth_world del_db" where
  "demo_house u rows entries = world_update (aw_totp_update (\<lambda>_. rows) \<circ> aw_cache_update (\<lambda>_. entries))
     (demo_browser\<lparr>user_tbl := [(''USER_u'', UserI u)]\<rparr>)"

definition demo_secured :: "auth_world del_db" where
  "demo_secured = demo_house demo_member [(totp_key ''u'', demo_row [])] []"

definition demo_handover :: mfa_payload where
  "demo_handover = \<lparr>mp_user = ''u'', mp_device = ''curl'', mp_ip = ''1.2.3.4'', mp_agent = ''curl'', mp_primary_amr = ''pwd''\<rparr>"

definition demo_handed :: "auth_world del_db" where
  "demo_handed = demo_house demo_member [(totp_key ''u'', demo_row [])]
     [(mfa_token_key (hash_token sha_text ''mfa_x''), (MfaV demo_handover, Some 10))]"

section \<open>The password\<close>

lemma demo_email: "u_email demo_member = ''a@b''" "to_lower (trim_space ''A@b'') = ''a@b''"
proof -
  show "u_email demo_member = ''a@b''" by (simp add: demo_member_def)
  show "to_lower (trim_space ''A@b'') = ''a@b''" by code_simp
qed

lemma demo_hash: "''$argon2id$v=19$m=65536,t=1,p=4$$BA'' = encode_hash [] [4]"
proof -
  have "encode64 [4] = ''BA''" by code_simp
  moreover have "encode64 [] = []" by simp
  ultimately show ?thesis by (simp add: encode_hash_def param_text del: encode64.simps)
qed

lemma demo_gates: "may_sign_in argon_sum ''abc'' demo_member"
proof -
  have h: "u_password_hash demo_member = encode_hash [] [4]" unfolding demo_hash [symmetric] by (simp add: demo_member_def)
  then have "u_password_hash demo_member \<noteq> []" by (simp add: encode_hash_def)
  moreover have "verify_password argon_sum ''abc'' (u_password_hash demo_member) = Inr True"
    unfolding h verify_encode_hash by (simp add: argon_sum_def argonTime_def)
  ultimately show ?thesis by (simp add: may_sign_in_def demo_member_def demo_person_def blank_user_def)
qed

lemma demo_login: "login argon_sum [] ''A@b'' ''abc'' (demo_house demo_member rows entries) = (Inr demo_member, demo_house demo_member rows entries)"
proof -
  have "users_by_email ''a@b'' [(''USER_u'', UserI demo_member)] = [demo_member]"
    by (simp add: users_by_email_def List.map_filter_def demo_email)
  moreover have "to_lower ''a@b'' = ''a@b''" by code_simp
  ultimately have "user_get_by_email ''a@b'' (demo_house demo_member rows entries) = (Inr demo_member, demo_house demo_member rows entries)"
    by (simp add: user_get_by_email_def bindE_run demo_house_def demo_browser_def)
  with demo_gates show ?thesis
    by (simp add: login_def demo_email(2) bindE_run may_sign_in_def lift_pw_def)
qed

lemma demo_secured_view:
  "(case fst (after_password demo_auth demo_lib demo_ask demo_member demo_secured) of Inr (MfaRequired token ms) \<Rightarrow> ms = [''totp''] | _ \<Rightarrow> False)"
  by code_simp

theorem password_login_exact_witness:
  "\<exists>token t. auth_login demo_auth demo_lib demo_ask ''A@b'' ''abc'' demo_secured = (Inr (MfaRequired token [''totp'']), t) \<and>
    sess_tbl t = sess_tbl demo_secured"
proof -
  have "tc_argon (au_tokens demo_auth) = argon_sum" "au_dummy demo_auth = []" by (simp_all add: demo_auth_def demo_conf_def)
  then have "auth_login demo_auth demo_lib demo_ask ''A@b'' ''abc'' demo_secured = after_password demo_auth demo_lib demo_ask demo_member demo_secured"
    using demo_login by (simp add: auth_login_def bindE_run demo_secured_def)
  then obtain token t where r: "auth_login demo_auth demo_lib demo_ask ''A@b'' ''abc'' demo_secured = (Inr (MfaRequired token [''totp'']), t)"
    using demo_secured_view by (cases "after_password demo_auth demo_lib demo_ask demo_member demo_secured")
      (auto split: sum.splits login_answer.splits)
  have "tkeys (user_tbl demo_secured)" by (simp add: demo_secured_def demo_house_def tkeys_def)
  from password_login_exact [OF r this] r show ?thesis by auto
qed

section \<open>The second factor\<close>

lemma demo_handed_view:
  "(case fst (mfa_challenge demo_auth demo_lib demo_ask ''mfa_x'' ''123456'' demo_handed) of Inr si \<Rightarrow> si_user si = ''u'' | _ \<Rightarrow> False)"
  by code_simp

theorem mfa_challenge_exact_witness:
  "\<exists>si t sess. mfa_challenge demo_auth demo_lib demo_ask ''mfa_x'' ''123456'' demo_handed = (Inr si, t) \<and>
    si_session si = session_id sess \<and> se_amr sess \<in> {[''pwd'', ''otp''], [''webauthn'', ''otp'']}"
proof -
  obtain si t where r: "mfa_challenge demo_auth demo_lib demo_ask ''mfa_x'' ''123456'' demo_handed = (Inr si, t)"
    using demo_handed_view by (cases "mfa_challenge demo_auth demo_lib demo_ask ''mfa_x'' ''123456'' demo_handed") (auto split: sum.splits)
  from mfa_challenge_exact [OF r] r show ?thesis
    unfolding opened_def AMRPassword_def AMRTOTP_def AMRWebAuthn_def by metis
qed

lemma demo_entry: "cached demo_handed (mfa_token_key (hash_token sha_text ''mfa_x'')) = Some (MfaV demo_handover, Some 10)"
  "cached demo_handed (mfa_attempts_key (hash_token sha_text ''mfa_x'')) = None" "faults demo_handed = []" "clock demo_handed = 0"
  by (simp_all add: demo_handed_def demo_house_def keys_differ demo_browser_def)

lemma demo_settings: "au_cache demo_auth" "au_sha demo_auth = sha_text"
  by (simp_all add: au_cache_def au_sha_def demo_auth_def demo_conf_def)

theorem mfa_guesses_bounded_witness:
  "telling (guesses demo_auth demo_lib ''mfa_x'' (replicate 7 (demo_ask, ''000000'', 1)) demo_handed) \<le> 5"
  using mfa_guesses_bounded [of demo_handed demo_auth "''mfa_x''" demo_handover 10] demo_entry demo_settings
  by (simp add: mfaTokenTTL_def minute_def second_def)

definition demo_worn :: "auth_world del_db" where
  "demo_worn = (demo_house demo_member [(totp_key ''u'', demo_row [])]
     [(mfa_token_key (hash_token sha_text ''mfa_x''), (MfaV demo_handover, Some 10)),
      (mfa_attempts_key (hash_token sha_text ''mfa_x''), (CountV 5, Some 20))])\<lparr>faults := [Served, Served, Served, Refused]\<rparr>"

theorem exhausted_token_restarts_witness:
  "\<exists>t. fst (mfa_challenge demo_auth demo_lib demo_ask ''mfa_x'' ''000000'' demo_worn) = Inl (InvalidToken, True) \<and>
    mfa_challenge demo_auth demo_lib demo_ask ''mfa_x'' ''000000'' demo_worn = (Inl (InvalidToken, True), t) \<and>
    telling (guesses demo_auth demo_lib ''mfa_x'' [(demo_ask, ''000000'', 0)] t) = 1"
proof -
  have c: "cached demo_worn (mfa_token_key (hash_token (au_sha demo_auth) ''mfa_x'')) = Some (MfaV demo_handover, Some 10)"
    "cached demo_worn (mfa_attempts_key (hash_token (au_sha demo_auth) ''mfa_x'')) = Some (CountV 5, Some 20)"
    "faults demo_worn = [Served, Served, Served, Refused]" "clock demo_worn = 0"
    by (simp_all add: demo_worn_def demo_house_def keys_differ demo_browser_def demo_settings)
  have "clock demo_worn \<le> 10" "clock demo_worn \<le> 20" by (simp_all add: c(4))
  from exhausted_token_restarts [OF c(3) demo_settings(1) c(1) this(1) c(2) this(2), of demo_lib demo_ask "''000000''"]
  obtain t where t: "mfa_challenge demo_auth demo_lib demo_ask ''mfa_x'' ''000000'' demo_worn = (Inl (InvalidToken, True), t)" by blast
  have "telling (guesses demo_auth demo_lib ''mfa_x'' [(demo_ask, ''000000'', 0)] (snd (mfa_challenge demo_auth demo_lib demo_ask ''mfa_x'' ''000000'' demo_worn))) = 1"
    by code_simp
  with t show ?thesis by simp
qed

section \<open>Backup codes\<close>

definition demo_coin :: "auth_world del_db" where
  "demo_coin = demo_browser\<lparr>rng := (\<lambda>_. Some (62 ^ 6)), rng_ix := 0\<rparr>"

definition demo_backed :: "string \<Rightarrow> auth_world del_db" where
  "demo_backed h = demo_house demo_member [(totp_key ''u'', demo_row [h])] []"

lemma demo_six: "six_digits demo_lib"
  by (simp add: six_digits_def demo_lib_def)

theorem backup_code_refused_witness:
  "\<exists>raw h s1. fresh_code sha_text argon_sum demo_coin = (Inr (raw, h), s1) \<and> verify_password argon_sum raw h = Inr True \<and>
    totp_validate demo_lib argon_sum ''u'' raw (demo_backed h) = (Inr False, demo_backed h)"
proof -
  have r: "rng demo_coin (rng_ix demo_coin) = Some (62 ^ 6)" "rng demo_coin n = Some (62 ^ 6)" for n by (simp_all add: demo_coin_def)
  obtain raw h s1 where f: "fresh_code sha_text argon_sum demo_coin = (Inr (raw, h), s1)"
    using r by (simp add: fresh_code_def generate_code_def generate_random_def hash_password_def Let_def bindE_run mapErr_run)
  have n: "length (argon_sum w salt argonTime argonMemory argonThreads argonKeyLen) = argonKeyLen" for w salt
    by (simp add: argon_sum_def)
  have t: "faults (demo_backed h) = []" "tget (aw_totp (world (demo_backed h))) (totp_key ''u'') = Some (demo_row [h])"
    "to_verified (demo_row [h]) = Some True" "h \<in> set (to_backup_codes (demo_row [h]))"
    by (simp_all add: demo_backed_def demo_house_def demo_browser_def demo_row_def)
  from backup_code_refused [OF demo_six f r(1) _ _ n t] f show ?thesis by auto
qed

section \<open>Password reset\<close>

definition demo_reset :: "auth_world del_db" where
  "demo_reset = demo_house demo_member [] [(''pr:'' @ hash_token sha_text ''mfa_r'', (TextV ''u'', Some 10))]"

lemma demo_reset_wf: "sess_wf demo_reset"
  unfolding sess_wf_def tbl_wf_def
  by (auto simp: demo_reset_def demo_house_def demo_browser_def demo_sso_def demo_session_def tkeys_def tget_def build_pk_def
      build_sk_def session_id_def session_user_id_def trim_prefix_def has_prefix_def plain_id_def split: if_splits)

theorem password_reset_exact_witness:
  "\<exists>t. reset_password demo_auth demo_ask ''mfa_r'' ''neu'' demo_reset = (Inr (), t) \<and>
    SessionService.live_session (clock demo_reset) (sess_tbl demo_reset) ''u'' ''s'' \<and>
    \<not> SessionService.live_session (clock t) (sess_tbl t) ''u'' ''s'' \<and>
    fst (reset_password demo_auth demo_ask ''mfa_r'' ''new'' t) = Inl (InvalidToken, True)"
proof -
  have live: "SessionService.live_session (clock demo_reset) (sess_tbl demo_reset) ''u'' ''s''"
    by (simp add: live_session_iff demo_reset_def demo_house_def demo_browser_def build_pk_def build_sk_def demo_sso_def
        session_is_expired_def unix_def)
  have c: "faults demo_reset = []" "rng demo_reset (rng_ix demo_reset) = Some 7"
    "tget (user_tbl demo_reset) (build_pk ''u'') = Some (UserI demo_member)"
    "live_val (aw_cache (world demo_reset)) (''pr:'' @ hash_token (au_sha demo_auth) ''mfa_r'') (clock demo_reset) = Some (TextV ''u'')"
    by (simp_all add: demo_reset_def demo_house_def demo_browser_def build_pk_def live_val_def demo_settings)
  have n: "length (tc_argon (au_tokens demo_auth) w salt argonTime argonMemory argonThreads argonKeyLen) = argonKeyLen" for w salt
    by (simp add: demo_auth_def demo_conf_def argon_sum_def)
  from password_reset_exact [OF c(1) demo_reset_wf demo_settings(1) c(4) c(3) c(2) n, of demo_ask "''neu''" demo_ask "''new''"]
  obtain t where "reset_password demo_auth demo_ask ''mfa_r'' ''neu'' demo_reset = (Inr (), t)"
    "\<nexists>sid. sid \<noteq> [] \<and> SessionService.live_session (clock t) (sess_tbl t) ''u'' sid"
    "fst (reset_password demo_auth demo_ask ''mfa_r'' ''new'' t) = Inl (InvalidToken, True)" by blast
  with live show ?thesis by blast
qed

section \<open>Google\<close>

definition demo_google :: google_conf where
  "demo_google = \<lparr>gc_client_id = ''gcli'', gc_client_secret = ''x'', gc_token = (\<lambda>_. Some ''at''),
     gc_userinfo = (\<lambda>_. Some \<lparr>gp_sub = ''g'', gp_email = ''a@b'', gp_email_verified = True, gp_given_name = ''A'', gp_family_name = [], gp_picture = []\<rparr>)\<rparr>"

definition demo_visit :: "(string \<times> string) list \<Rightarrow> auth_request" where
  "demo_visit fs = demo_ask\<lparr>ar_query := (\<lambda>k. case map_of fs k of None \<Rightarrow> [] | Some v \<Rightarrow> v), ar_cookie := (\<lambda>_. [])\<rparr>"

definition demo_to_google :: "auth_world del_db" where
  "demo_to_google = snd (google_redirect demo_auth demo_google (demo_visit [(''continue'', ''//evil.com'')]) (demo_house demo_member [] []))"

definition demo_state :: string where
  "demo_state = ''mfa_'' @ hex_encode (bytes_be 16 7)"

definition demo_back :: auth_request where
  "demo_back = demo_visit [(''code'', ''c''), (''state'', demo_state)]"

lemma demo_google_view:
  "(case fst (google_callback demo_auth demo_google demo_back demo_to_google) of Inr (l, cs) \<Rightarrow> l = ''https://app'' \<and> length cs = 2 | _ \<Rightarrow> False)"
  by code_simp

theorem google_stays_home_witness:
  "\<exists>l cs t. google_callback demo_auth demo_google demo_back demo_to_google = (Inr (l, cs), t) \<and> home_page demo_auth l"
proof -
  obtain l cs t where r: "google_callback demo_auth demo_google demo_back demo_to_google = (Inr (l, cs), t)"
    using demo_google_view by (cases "google_callback demo_auth demo_google demo_back demo_to_google") (auto split: sum.splits)
  have "(browse demo_auth demo_google demo_lib)\<^sup>*\<^sup>* (demo_house demo_member [] []) demo_to_google"
    unfolding demo_to_google_def by (rule r_into_rtranclp) (rule browse.to_google)
  moreover have "aw_cache (world (demo_house demo_member [] [])) = []" by (simp add: demo_house_def)
  ultimately show ?thesis using google_stays_home r by blast
qed

definition demo_leaving :: "auth_world del_db" where
  "demo_leaving = demo_house (demo_member\<lparr>u_deletion_state := ''pending''\<rparr>) [] []"

definition demo_profile :: google_profile where
  "demo_profile = \<lparr>gp_sub = ''g'', gp_email = ''a@b'', gp_email_verified = True, gp_given_name = ''A'', gp_family_name = [], gp_picture = []\<rparr>"

lemma demo_leaving_view:
  "(case fst (find_or_create_by_google (au_sha demo_auth) (gp_sub demo_profile) (gp_email demo_profile) (gp_given_name demo_profile)
      (gp_family_name demo_profile) (gp_picture demo_profile) demo_leaving) of
     Inr (u, is_new) \<Rightarrow> \<not> is_new \<and> u_deletion_state u = ''pending'' | _ \<Rightarrow> False)"
  by code_simp

theorem google_deletion_untold_witness:
  "\<exists>t. google_account demo_auth demo_back demo_profile ''https://app'' demo_leaving = (Inr (''https://app'', []), t)"
proof -
  let ?f = "find_or_create_by_google (au_sha demo_auth) (gp_sub demo_profile) (gp_email demo_profile) (gp_given_name demo_profile)
      (gp_family_name demo_profile) (gp_picture demo_profile) demo_leaving"
  obtain u s1 where "?f = (Inr (u, False), s1)" "u_deletion_state u \<noteq> []"
    using demo_leaving_view by (cases ?f) (auto split: sum.splits)
  from google_deletion_untold [OF this] show ?thesis by blast
qed

end
