(* ===== verification/Sweep.thy ===== *)
theory Sweep
  imports Sessions
begin

text \<open>
  \<open>DeleteAllUnder\<close> of \<open>internal/database/dynamo.go\<close>: the loop that empties a partition page by page.
  The loop has no bound of its own, so it is a partial function whose value is \<open>None\<close> when it does not
  end; that it ends, and what it leaves, is shown here once for every table of the state.
\<close>

section \<open>The loop\<close>

text \<open>A table of the state: the field and its update. Every item has its key, so the test for an item
  without a sort key has no counterpart.\<close>

record ('s, 'v) field =
  fd_get :: "'s \<Rightarrow> (key, 'v) table"
  fd_update :: "((key, 'v) table \<Rightarrow> (key, 'v) table) \<Rightarrow> 's \<Rightarrow> 's"

definition under :: "string \<Rightarrow> string \<Rightarrow> key \<Rightarrow> bool" where
  "under pk pre k \<longleftrightarrow> fst k = pk \<and> has_prefix (snd k) pre"

definition keys_under :: "string \<Rightarrow> string \<Rightarrow> (key, 'v) table \<Rightarrow> key list" where
  "keys_under pk pre tb = filter (under pk pre) (map fst tb)"

definition sweepPage :: nat where "sweepPage = 100"

definition delete_items :: "'e \<Rightarrow> ('x env_scheme, 'v) field \<Rightarrow> key list \<Rightarrow> ('x env_scheme, 'e, unit) prog" where
  "delete_items e F ks = forE ks (\<lambda>k. db_write e (fd_update F (tdel k)))"

partial_function (option) delete_all_under ::
  "'e \<Rightarrow> ('x env_scheme, 'v) field \<Rightarrow> string \<Rightarrow> string \<Rightarrow> 'x env_scheme \<Rightarrow> (('e + unit) \<times> 'x env_scheme) option" where
  "delete_all_under e F pk pre s =
     (case db_read e (\<lambda>s. take sweepPage (keys_under pk pre (fd_get F s))) s of
        (Inl x, t) \<Rightarrow> Some (Inl x, t)
      | (Inr ks, t) \<Rightarrow>
          if ks = [] then Some (Inr (), t)
          else (case delete_items e F ks t of
              (Inl x, u) \<Rightarrow> Some (Inl x, u)
            | (Inr _, u) \<Rightarrow> delete_all_under e F pk pre u))"

declare delete_all_under.simps [code]

text \<open>A call after a loop: the loop may not end, fail or be done.\<close>

definition and_then ::
  "('s \<Rightarrow> (('e + 'a) \<times> 's) option) \<Rightarrow> ('s \<Rightarrow> (('e + 'b) \<times> 's) option) \<Rightarrow> 's \<Rightarrow> (('e + 'b) \<times> 's) option" where
  "and_then f g s = (case f s of
       None \<Rightarrow> None
     | Some (Inl e, t) \<Rightarrow> Some (Inl e, t)
     | Some (Inr _, t) \<Rightarrow> g t)"

section \<open>What a field of the state promises\<close>

text \<open>\<open>swept\<close>: rows under the prefix may have gone, everything else is as it was.\<close>

definition swept :: "('x env_scheme, 'v) field \<Rightarrow> string \<Rightarrow> string \<Rightarrow> 'x env_scheme \<Rightarrow> 'x env_scheme \<Rightarrow> bool" where
  "swept F pk pre s t \<longleftrightarrow> (\<forall>k. tget (fd_get F t) k = tget (fd_get F s) k \<or> under pk pre k \<and> tget (fd_get F t) k = None)"

locale table_field =
  fixes F :: "('x env_scheme, 'v) field"
  assumes get_update: "fd_get F (fd_update F f s) = f (fd_get F s)"
    and get_faults: "fd_get F (s\<lparr>faults := os\<rparr>) = fd_get F s"
    and update_faults: "faults (fd_update F f s) = faults s"
begin

lemma swept_order: "step_order (swept F pk pre)"
  by unfold_locales (simp add: swept_def, unfold swept_def, metis)

lemma swept_delete: "list_all (under pk pre) ks \<Longrightarrow> tracks (swept F pk pre) (delete_items e F ks)"
proof -
  assume a: "list_all (under pk pre) ks"
  have "tracks (swept F pk pre) (db_write e (fd_update F (tdel k)))" if "k \<in> set ks" for k
    using a that by (intro tracks_db_write) (auto simp: swept_def get_update get_faults list_all_iff)
  then show ?thesis
    unfolding delete_items_def by (intro step_order.tracks_forE [OF swept_order])
qed

lemma keys_tdel: "keys_under pk pre (tdel k tb) = filter (\<lambda>j. j \<noteq> k) (keys_under pk pre tb)"
  by (auto simp: keys_under_def tdel_def filter_map o_def conj_commute intro: filter_cong)

lemma deleted_keys:
  "delete_items e F ks s = (Inr x, t) \<Longrightarrow>
   keys_under pk pre (fd_get F t) = filter (\<lambda>j. j \<notin> set ks) (keys_under pk pre (fd_get F s))"
proof (induction ks arbitrary: s)
  case Nil
  then show ?case by (simp add: delete_items_def)
next
  case (Cons k ks)
  from Cons.prems obtain y u where w: "db_write e (fd_update F (tdel k)) s = (Inr y, u)"
    and r: "delete_items e F ks u = (Inr x, t)"
    unfolding delete_items_def by (auto elim!: bindE_InrE)
  from w db_cond_cases [of e e "\<lambda>_. True" "fd_update F (tdel k)" s]
  have "fd_get F u = tdel k (fd_get F s)" unfolding db_write_def by (auto simp: get_update get_faults)
  with Cons.IH [OF r] show ?case by (auto simp: keys_tdel intro: filter_cong)
qed

lemma delete_items_Inl: "delete_items e F ks s = (Inl y, t) \<Longrightarrow> y = e"
proof (induction ks arbitrary: s)
  case Nil
  then show ?case by (simp add: delete_items_def)
next
  case (Cons k ks)
  obtain r u where w: "db_write e (fd_update F (tdel k)) s = (r, u)" by force
  from w db_cond_cases [of e e "\<lambda>_. True" "fd_update F (tdel k)" s] have "r = Inl e \<or> r = Inr ()"
    unfolding db_write_def by auto
  with Cons w show ?case by (auto simp: delete_items_def bindE_run)
qed

text \<open>The loop ends: each round removes the rows of its page, and there was at least one.\<close>

lemma sweep_ends:
  "\<exists>r t. delete_all_under e F pk pre s = Some (r, t) \<and> swept F pk pre s t \<and> (r = Inl e \<or> r = Inr () \<and> keys_under pk pre (fd_get F t) = [])"
proof (induction "length (keys_under pk pre (fd_get F s))" arbitrary: s rule: less_induct)
  case less
  note after = step_order.trans [OF swept_order]
  obtain r t where q: "db_read e (\<lambda>s. take sweepPage (keys_under pk pre (fd_get F s))) s = (r, t)" by force
  then obtain os where t: "t = s\<lparr>faults := os\<rparr>" and r: "r = Inl e \<or> r = Inr (take sweepPage (keys_under pk pre (fd_get F s)))"
    using db_read_cases [of e "\<lambda>s. take sweepPage (keys_under pk pre (fd_get F s))" s] by auto
  let ?ks = "take sweepPage (keys_under pk pre (fd_get F s))"
  have s_t: "swept F pk pre s t" by (simp add: t swept_def get_faults)
  show ?case
  proof (cases "r = Inr ?ks \<and> ?ks \<noteq> []")
    case False
    with r have "r = Inl e \<or> r = Inr [] \<and> keys_under pk pre (fd_get F s) = []" by (auto simp: sweepPage_def)
    with q s_t show ?thesis
      by (subst delete_all_under.simps) (auto simp: t get_faults)
  next
    case True
    then have ne: "?ks \<noteq> []" and r: "r = Inr ?ks" by auto
    obtain x u where d: "delete_items e F ?ks t = (x, u)" by force
    have "list_all (under pk pre) ?ks" by (auto simp: list_all_iff keys_under_def dest: in_set_takeD)
    from tracksD' [OF swept_delete [OF this] d] s_t have s_u: "swept F pk pre s u" by (blast intro: after)
    have run: "delete_all_under e F pk pre s = (case x of Inl y \<Rightarrow> Some (Inl y, u) | Inr _ \<Rightarrow> delete_all_under e F pk pre u)"
      using q r ne d by (subst delete_all_under.simps) (auto split: sum.split)
    show ?thesis
    proof (cases x)
      case (Inl y)
      have "y = e" using d unfolding Inl by (rule delete_items_Inl)
      with run Inl s_u show ?thesis by auto
    next
      case (Inr y)
      let ?P = "keys_under pk pre (fd_get F s)"
      from deleted_keys [OF d [unfolded Inr], of pk pre]
      have k: "keys_under pk pre (fd_get F u) = filter (\<lambda>j. j \<notin> set ?ks) ?P" by (simp add: t get_faults)
      have "hd ?ks \<in> set ?ks" using ne by (rule hd_in_set)
      moreover then have "hd ?ks \<in> set ?P" by (rule in_set_takeD)
      ultimately have "length (keys_under pk pre (fd_get F u)) < length ?P"
        unfolding k by (intro length_filter_less) auto
      from less [OF this] show ?thesis
        using run Inr s_u by (auto intro: after)
    qed
  qed
qed

text \<open>Nothing beside the table is touched.\<close>

lemma deletes_beside:
  "blind \<pi> \<Longrightarrow> (\<And>f s. \<pi> (fd_update F f s) = \<pi> s) \<Longrightarrow> tracks (\<lambda>s t. \<pi> t = \<pi> s) (delete_items e F ks)"
  unfolding delete_items_def
  by (intro step_order.tracks_forE tracks_db_write) (unfold_locales, simp_all add: blindD)

lemma sweep_beside:
  assumes "blind \<pi>" and "\<And>f s. \<pi> (fd_update F f s) = \<pi> s"
  shows "delete_all_under e F pk pre s = Some (r, t) \<Longrightarrow> \<pi> t = \<pi> s"
proof (induction "length (keys_under pk pre (fd_get F s))" arbitrary: s rule: less_induct)
  case less
  let ?ks = "take sweepPage (keys_under pk pre (fd_get F s))"
  obtain x u where q: "db_read e (\<lambda>s. take sweepPage (keys_under pk pre (fd_get F s))) s = (x, u)" by force
  then obtain os where u: "u = s\<lparr>faults := os\<rparr>" and x: "x = Inl e \<or> x = Inr ?ks"
    using db_read_cases [of e "\<lambda>s. take sweepPage (keys_under pk pre (fd_get F s))" s] by auto
  have pu: "\<pi> u = \<pi> s" by (simp add: u blindD [OF assms(1)])
  obtain y v where d: "delete_items e F ?ks u = (y, v)" by force
  from tracksD' [OF deletes_beside [OF assms] d] have pv: "\<pi> v = \<pi> s" by (simp add: pu)
  have run: "delete_all_under e F pk pre s = (case x of Inl a \<Rightarrow> Some (Inl a, u) | Inr _ \<Rightarrow>
      if ?ks = [] then Some (Inr (), u) else (case y of Inl a \<Rightarrow> Some (Inl a, v) | Inr _ \<Rightarrow> delete_all_under e F pk pre v))"
    using q x d by (subst delete_all_under.simps) (auto split: sum.split)
  show ?case
  proof (cases "x = Inl e \<or> ?ks = []")
    case True
    with less.prems run x pu show ?thesis by auto
  next
    case False
    with x have x: "x = Inr ?ks" and ne: "?ks \<noteq> []" by auto
    show ?thesis
    proof (cases y)
      case (Inl a)
      with less.prems run x ne pv show ?thesis by simp
    next
      case (Inr a)
      have "keys_under pk pre (fd_get F v) = filter (\<lambda>j. j \<notin> set ?ks) (keys_under pk pre (fd_get F s))"
        using deleted_keys [OF d [unfolded Inr], of pk pre] by (simp add: u get_faults)
      moreover have "hd ?ks \<in> set ?ks" using ne by (rule hd_in_set)
      ultimately have "length (keys_under pk pre (fd_get F v)) < length (keys_under pk pre (fd_get F s))"
        by (metis (no_types, lifting) in_set_takeD length_filter_less)
      from less.hyps [OF this] less.prems run x ne Inr pv show ?thesis by simp
    qed
  qed
qed

end

end
