(* ===== verification/Organizations.thy ===== *)
theory Organizations
  imports Sweep Login
begin

text \<open>
  The data of \<open>internal/domain/organization\<close>: the roles and kinds (\<open>model.go\<close>, \<open>kind.go\<close>), the three
  tables with the transactions of \<open>repository.go\<close>, the guard counters of \<open>counters.go\<close> and the eraser.
  The tables are a state of their own, beside the other components.
\<close>

section \<open>Roles and kinds\<close>

definition RoleViewer :: string where "RoleViewer = ''viewer''"
definition RoleMember :: string where "RoleMember = ''member''"
definition RoleAdmin :: string where "RoleAdmin = ''admin''"

definition role_rank :: "string \<Rightarrow> int" where
  "role_rank r = (if r = RoleViewer then 1 else if r = RoleMember then 2 else if r = RoleAdmin then 3
     else if r = RoleOwner then 4 else 0)"

definition is_grantable_role :: "string \<Rightarrow> bool" where
  "is_grantable_role r \<longleftrightarrow> r = RoleAdmin \<or> r = RoleMember \<or> r = RoleViewer"

definition outranks :: "string \<Rightarrow> string \<Rightarrow> bool" where
  "outranks r other \<longleftrightarrow> role_rank other < role_rank r \<and> 0 < role_rank r"

definition at_least :: "string \<Rightarrow> string \<Rightarrow> bool" where
  "at_least r lo \<longleftrightarrow> role_rank lo \<le> role_rank r \<and> 0 < role_rank r"

definition assignable_roles :: "string \<Rightarrow> string list" where
  "assignable_roles r = (if \<not> at_least r RoleAdmin then [] else filter (outranks r) [RoleAdmin, RoleMember, RoleViewer])"

definition KindOrganization :: string where "KindOrganization = ''organization''"
definition KindPersonal :: string where "KindPersonal = ''personal''"

definition normalize_kind :: "string \<Rightarrow> string option" where
  "normalize_kind k = (if k = [] \<or> k = KindOrganization then Some KindOrganization
     else if k = KindPersonal then Some KindPersonal else None)"

definition is_grantable_role_in :: "string \<Rightarrow> string \<Rightarrow> bool" where
  "is_grantable_role_in kind r \<longleftrightarrow> is_grantable_role r \<and> (kind \<noteq> KindPersonal \<or> r \<noteq> RoleAdmin)"

section \<open>Rows\<close>

record organization =
  og_id :: string
  og_display_name :: string
  og_owner :: string
  og_kind :: string
  og_source_system :: string
  og_source_ref :: string
  og_created_at :: time
  og_updated_at :: time

record org_membership =
  om_org :: string
  om_user :: string
  om_name :: string
  om_role :: string
  om_invited_by :: string
  om_created_at :: time

record invitation =
  iv_org :: string
  iv_email :: string
  iv_role :: string
  iv_token_hash :: string
  iv_companies :: "string list"
  iv_invited_by :: string
  iv_created_at :: time
  iv_expires_at :: time

definition kind_of :: "organization \<Rightarrow> string" where
  "kind_of o1 = (case normalize_kind (og_kind o1) of Some k \<Rightarrow> k | None \<Rightarrow> KindPersonal)"

text \<open>The organizations table also holds the counter of spaces of an owner; the counter of people stands
  on the row of its space.\<close>

datatype org_item = OrgI organization "int option" | SpacesI int

fun as_org :: "org_item \<Rightarrow> organization option" where
  "as_org (OrgI g n) = Some g"
| "as_org (SpacesI n) = None"

record quotas =
  qu_plan :: string
  qu_spaces :: int
  qu_people :: int

record plan_refusal =
  pr_resource :: string
  pr_limit :: int
  pr_used :: int
  pr_plan :: string
  pr_hidden :: bool

datatype org_err = ErrOrgNotFound | ErrAlreadyMember | ErrNotAMember | ErrRoleForbidden | ErrInvalidName | ErrNotGrantable
  | ErrOwnRole | ErrOutranked | ErrInvalidKind | ErrTransferNeedsFullAccess | ErrNoCompaniesInASpace
  | ErrInvitationInvalid | ErrWrongInvitee | ErrCounterMoved | ErrPlanUnavailable | ErrPlanBusy | ErrNotASpace
  | PlanLimitError plan_refusal | OrgInfra | OrgRandom

text \<open>What the plan service is told: the levels of an owner changed, or are to be reported later.\<close>

datatype plan_notice = LevelsChanged string | ScheduleLevels string time

text \<open>\<open>conflicts\<close> says of the next guarded transactions whether a refusal is a conflict with another one.\<close>

record org_db = env +
  org_tbl :: "(key, org_item) table"
  member_tbl :: "(key, org_membership) table"
  invite_tbl :: "(key, invitation) table"
  conflicts :: "bool list"
  notices :: "plan_notice list"

type_synonym ('x, 'a) org_prog = "('x org_db_scheme, org_err, 'a) prog"

section \<open>Keys\<close>

definition orgPKPrefix :: string where "orgPKPrefix = ''ORG#''"
definition memberSKPrefix :: string where "memberSKPrefix = ''MEMBER#''"
definition inviteSKPrefix :: string where "inviteSKPrefix = ''INVITE#''"
definition ownerPKPrefix :: string where "ownerPKPrefix = ''OWNER#''"
definition metaSK :: string where "metaSK = ''META''"
definition spacesCounterSK :: string where "spacesCounterSK = ''PERSONAL_SPACES''"

definition org_pk :: "string \<Rightarrow> string" where "org_pk i = orgPKPrefix @ i"
definition member_sk :: "string \<Rightarrow> string" where "member_sk uid = memberSKPrefix @ uid"
definition owner_pk :: "string \<Rightarrow> string" where "owner_pk uid = ownerPKPrefix @ uid"

definition normalize_email :: "string \<Rightarrow> string" where
  "normalize_email e = to_lower (trim_space e)"

definition invite_sk :: "string \<Rightarrow> string" where "invite_sk e = inviteSKPrefix @ normalize_email e"

abbreviation org_key :: "string \<Rightarrow> key" where "org_key i \<equiv> (org_pk i, metaSK)"
abbreviation member_key :: "string \<Rightarrow> string \<Rightarrow> key" where "member_key i uid \<equiv> (org_pk i, member_sk uid)"
abbreviation invite_key :: "string \<Rightarrow> string \<Rightarrow> key" where "invite_key i e \<equiv> (org_pk i, invite_sk e)"
abbreviation spaces_key :: "string \<Rightarrow> key" where "spaces_key uid \<equiv> (owner_pk uid, spacesCounterSK)"

text \<open>The identifiers live in the key; the expiry is kept in seconds.\<close>

definition unmarshal_membership :: "key \<times> org_membership \<Rightarrow> org_membership" where
  "unmarshal_membership p = (snd p)\<lparr>om_org := trim_prefix (fst (fst p)) orgPKPrefix, om_user := trim_prefix (snd (fst p)) memberSKPrefix\<rparr>"

definition unmarshal_invitation :: "key \<times> invitation \<Rightarrow> invitation" where
  "unmarshal_invitation p = (snd p)\<lparr>iv_org := trim_prefix (fst (fst p)) orgPKPrefix, iv_email := trim_prefix (snd (fst p)) inviteSKPrefix\<rparr>"

definition membership_item :: "org_membership \<Rightarrow> key \<times> org_membership" where
  "membership_item m = (member_key (om_org m) (om_user m), m\<lparr>om_org := [], om_user := []\<rparr>)"

definition invitation_item :: "invitation \<Rightarrow> key \<times> invitation" where
  "invitation_item iv = (invite_key (iv_org iv) (iv_email iv),
     iv\<lparr>iv_org := [], iv_email := [], iv_expires_at := parse_time (ts (iv_expires_at iv))\<rparr>)"

definition has_row :: "(key, 'v) table \<Rightarrow> key \<Rightarrow> bool" where
  "has_row tb k \<longleftrightarrow> tget tb k \<noteq> None"

definition query_under :: "nat \<Rightarrow> string \<Rightarrow> string \<Rightarrow> (key, 'v) table \<Rightarrow> (key \<times> 'v) list" where
  "query_under n pk pre tb = take n (filter (\<lambda>p. under pk pre (fst p)) tb)"

section \<open>The repository\<close>

definition store_member :: "org_membership \<Rightarrow> 'x org_db_scheme \<Rightarrow> 'x org_db_scheme" where
  "store_member m = member_tbl_update (case membership_item m of (k, r) \<Rightarrow> tput k r)"

definition member_absent :: "org_membership \<Rightarrow> 'x org_db_scheme \<Rightarrow> bool" where
  "member_absent m s \<longleftrightarrow> tget (member_tbl s) (member_key (om_org m) (om_user m)) = None"

definition owner_membership :: "organization \<Rightarrow> string \<Rightarrow> org_membership" where
  "owner_membership g name = \<lparr>om_org = og_id g, om_user = og_owner g, om_name = name, om_role = RoleOwner,
     om_invited_by = [], om_created_at = og_created_at g\<rparr>"

text \<open>The two writes of a creation and their conditions.\<close>

definition create_items :: "organization \<Rightarrow> string \<Rightarrow> 'x org_db_scheme \<Rightarrow> 'x org_db_scheme" where
  "create_items g name s = store_member (owner_membership g name)
     (org_tbl_update (tput (org_key (og_id g)) (OrgI (g\<lparr>og_id := []\<rparr>) None)) s)"

definition create_fits :: "organization \<Rightarrow> string \<Rightarrow> 'x org_db_scheme \<Rightarrow> bool" where
  "create_fits g name s \<longleftrightarrow> tget (org_tbl s) (org_key (og_id g)) = None \<and> member_absent (owner_membership g name) s"

definition create_with_owner :: "organization \<Rightarrow> string \<Rightarrow> ('x, unit) org_prog" where
  "create_with_owner g name = db_cond OrgInfra ErrAlreadyMember (create_fits g name) (create_items g name)"

definition found_org :: "string \<Rightarrow> org_item option \<Rightarrow> ('x, organization) org_prog" where
  "found_org i r = (case r of None \<Rightarrow> throw ErrOrgNotFound
     | Some it \<Rightarrow> (case as_org it of None \<Rightarrow> throw OrgInfra | Some g \<Rightarrow> ret (g\<lparr>og_id := i\<rparr>)))"

definition repo_get_org :: "string \<Rightarrow> ('x, organization) org_prog" where
  "repo_get_org i = bindE (db_read OrgInfra (\<lambda>s. tget (org_tbl s) (org_key i))) (found_org i)"

definition from_source :: "string \<Rightarrow> string \<Rightarrow> key \<times> org_item \<Rightarrow> organization option" where
  "from_source system r p = (case as_org (snd p) of None \<Rightarrow> None | Some g \<Rightarrow>
     if og_source_system g \<noteq> [] \<and> og_source_ref g \<noteq> [] \<and>
        ''SOURCE#'' @ og_source_system g @ ''#'' @ og_source_ref g = ''SOURCE#'' @ system @ ''#'' @ r
     then Some (g\<lparr>og_id := trim_prefix (fst (fst p)) orgPKPrefix\<rparr>) else None)"

definition get_by_source_ref :: "string \<Rightarrow> string \<Rightarrow> ('x, organization) org_prog" where
  "get_by_source_ref system r =
     bindE (db_read OrgInfra (\<lambda>s. take 1 (List.map_filter (from_source system r) (org_tbl s)))) (\<lambda>gs.
     case gs of [] \<Rightarrow> throw ErrOrgNotFound | g # _ \<Rightarrow> ret g)"

text \<open>Updates of a row that is there; \<open>SET\<close> leaves the other attributes alone.\<close>

definition change_org :: "string \<Rightarrow> (organization \<Rightarrow> organization) \<Rightarrow> 'x org_db_scheme \<Rightarrow> 'x org_db_scheme" where
  "change_org i f = org_tbl_update (\<lambda>tb. case tget tb (org_key i) of
     Some (OrgI g n) \<Rightarrow> tput (org_key i) (OrgI (f g) n) tb | _ \<Rightarrow> tb)"

definition change_member :: "string \<Rightarrow> string \<Rightarrow> (org_membership \<Rightarrow> org_membership) \<Rightarrow> 'x org_db_scheme \<Rightarrow> 'x org_db_scheme" where
  "change_member i uid f = member_tbl_update (\<lambda>tb. case tget tb (member_key i uid) of
     Some m \<Rightarrow> tput (member_key i uid) (f m) tb | None \<Rightarrow> tb)"

definition update_display_name :: "string \<Rightarrow> string \<Rightarrow> time \<Rightarrow> ('x, unit) org_prog" where
  "update_display_name i name n = db_cond OrgInfra ErrOrgNotFound (\<lambda>s. has_row (org_tbl s) (org_key i))
     (change_org i (\<lambda>g. g\<lparr>og_display_name := name, og_updated_at := n\<rparr>))"

definition found_member :: "string \<Rightarrow> string \<Rightarrow> org_membership option \<Rightarrow> ('x, org_membership) org_prog" where
  "found_member i uid r = (case r of None \<Rightarrow> throw ErrOrgNotFound | Some m \<Rightarrow> ret (unmarshal_membership (member_key i uid, m)))"

definition get_membership :: "string \<Rightarrow> string \<Rightarrow> ('x, org_membership) org_prog" where
  "get_membership i uid = bindE (db_read OrgInfra (\<lambda>s. tget (member_tbl s) (member_key i uid))) (found_member i uid)"

definition repo_list_members :: "string \<Rightarrow> ('x, org_membership list) org_prog" where
  "repo_list_members i = db_read OrgInfra (\<lambda>s. map unmarshal_membership (query_under 500 (org_pk i) memberSKPrefix (member_tbl s)))"

text \<open>The lookup index has the rows of a person; a membership always carries it.\<close>

definition rows_of_user :: "string \<Rightarrow> (key, org_membership) table \<Rightarrow> (key \<times> org_membership) list" where
  "rows_of_user uid tb = filter (\<lambda>p. snd (fst p) = member_sk uid) tb"

definition repo_list_for_user :: "string \<Rightarrow> ('x, org_membership list) org_prog" where
  "repo_list_for_user uid = db_read OrgInfra (\<lambda>s. map unmarshal_membership (take 200 (rows_of_user uid (member_tbl s))))"

definition put_membership :: "org_membership \<Rightarrow> ('x, unit) org_prog" where
  "put_membership m = db_cond OrgInfra ErrAlreadyMember (member_absent m) (store_member m)"

definition role_at :: "(key, org_membership) table \<Rightarrow> string \<Rightarrow> string \<Rightarrow> string option" where
  "role_at tb i uid = map_option om_role (tget tb (member_key i uid))"

definition not_owner :: "string \<Rightarrow> string \<Rightarrow> 'x org_db_scheme \<Rightarrow> bool" where
  "not_owner i uid s \<longleftrightarrow> (case role_at (member_tbl s) i uid of None \<Rightarrow> False | Some r \<Rightarrow> r \<noteq> RoleOwner)"

definition repo_set_role :: "string \<Rightarrow> string \<Rightarrow> string \<Rightarrow> ('x, unit) org_prog" where
  "repo_set_role i uid r =
     (if \<not> is_grantable_role r then throw OrgInfra
      else db_cond OrgInfra ErrOrgNotFound (not_owner i uid) (change_member i uid (\<lambda>m. m\<lparr>om_role := r\<rparr>)))"

definition repo_remove_membership :: "string \<Rightarrow> string \<Rightarrow> ('x, unit) org_prog" where
  "repo_remove_membership i uid = db_cond OrgInfra ErrOrgNotFound (not_owner i uid) (member_tbl_update (tdel (member_key i uid)))"

text \<open>A row that went away since the listing is passed over; any other error ends the loop.\<close>

definition rename_one :: "string \<Rightarrow> string \<Rightarrow> org_membership \<Rightarrow> ('x, unit) org_prog" where
  "rename_one uid name m =
     bindE (tryE (db_cond OrgInfra ErrOrgNotFound (\<lambda>s. has_row (member_tbl s) (member_key (om_org m) uid))
       (change_member (om_org m) uid (\<lambda>r. r\<lparr>om_name := name\<rparr>))))
       (\<lambda>r. case r of Inl e \<Rightarrow> if e = ErrOrgNotFound then ret () else throw e | Inr _ \<Rightarrow> ret ())"

definition repo_rename_member :: "string \<Rightarrow> string \<Rightarrow> ('x, unit) org_prog" where
  "repo_rename_member uid name = bindE (repo_list_for_user uid) (\<lambda>ms. forE ms (rename_one uid name))"

text \<open>The three writes of a transfer and their conditions.\<close>

definition transfer_items :: "string \<Rightarrow> string \<Rightarrow> string \<Rightarrow> string \<Rightarrow> time \<Rightarrow> 'x org_db_scheme \<Rightarrow> 'x org_db_scheme" where
  "transfer_items i giver taker demote n s =
     change_org i (\<lambda>g. g\<lparr>og_owner := taker, og_updated_at := n\<rparr>)
       (change_member i taker (\<lambda>m. m\<lparr>om_role := RoleOwner\<rparr>) (change_member i giver (\<lambda>m. m\<lparr>om_role := demote\<rparr>) s))"

definition transfer_fits :: "string \<Rightarrow> string \<Rightarrow> string \<Rightarrow> 'x org_db_scheme \<Rightarrow> bool" where
  "transfer_fits i giver taker s \<longleftrightarrow> role_at (member_tbl s) i giver = Some RoleOwner \<and> not_owner i taker s \<and> has_row (org_tbl s) (org_key i)"

definition transfer_ownership :: "string \<Rightarrow> string \<Rightarrow> string \<Rightarrow> string \<Rightarrow> time \<Rightarrow> ('x, unit) org_prog" where
  "transfer_ownership i giver taker demote n =
     db_cond OrgInfra ErrOrgNotFound (transfer_fits i giver taker) (transfer_items i giver taker demote n)"

definition store_invitation :: "invitation \<Rightarrow> 'x org_db_scheme \<Rightarrow> 'x org_db_scheme" where
  "store_invitation iv = invite_tbl_update (case invitation_item iv of (k, r) \<Rightarrow> tput k r)"

definition put_invitation :: "invitation \<Rightarrow> ('x, unit) org_prog" where
  "put_invitation iv = db_write OrgInfra (store_invitation iv)"

definition get_invitation_by_token :: "string \<Rightarrow> ('x, invitation) org_prog" where
  "get_invitation_by_token h =
     bindE (db_read OrgInfra (\<lambda>s. List.find (\<lambda>p. iv_token_hash (snd p) = h) (invite_tbl s))) (\<lambda>r.
     case r of None \<Rightarrow> throw ErrOrgNotFound | Some p \<Rightarrow> ret (unmarshal_invitation p))"

definition repo_list_invitations :: "string \<Rightarrow> ('x, invitation list) org_prog" where
  "repo_list_invitations i = db_read OrgInfra (\<lambda>s. map unmarshal_invitation (query_under 200 (org_pk i) inviteSKPrefix (invite_tbl s)))"

definition accept_invitation :: "org_membership \<Rightarrow> string \<Rightarrow> ('x, unit) org_prog" where
  "accept_invitation m email = db_cond OrgInfra ErrAlreadyMember (member_absent m)
     (\<lambda>s. invite_tbl_update (tdel (invite_key (om_org m) email)) (store_member m s))"

definition delete_invitation :: "string \<Rightarrow> string \<Rightarrow> ('x, unit) org_prog" where
  "delete_invitation i email = db_write OrgInfra (invite_tbl_update (tdel (invite_key i email)))"

section \<open>Guard counters\<close>

text \<open>A counter as read: \<open>None\<close> when it does not exist. \<open>CounterWrite\<close> carries what the guard expects, the
  value it sets and whether it sets it blindly.\<close>

record counter_write =
  cw_expect :: "int option"
  cw_next :: int
  cw_blind :: bool

definition guard_holds :: "counter_write \<Rightarrow> int option \<Rightarrow> bool" where
  "guard_holds w c \<longleftrightarrow> cw_blind w \<or> c = cw_expect w"

fun spaces_of :: "org_item option \<Rightarrow> int option" where
  "spaces_of (Some (SpacesI n)) = Some n"
| "spaces_of _ = None"

fun people_of :: "org_item option \<Rightarrow> int option" where
  "people_of (Some (OrgI g n)) = n"
| "people_of _ = None"

definition spaces_at :: "string \<Rightarrow> 'x org_db_scheme \<Rightarrow> int option" where
  "spaces_at uid s = spaces_of (tget (org_tbl s) (spaces_key uid))"

definition people_at :: "string \<Rightarrow> 'x org_db_scheme \<Rightarrow> int option" where
  "people_at i s = people_of (tget (org_tbl s) (org_key i))"

definition space_counter :: "string \<Rightarrow> ('x, int option) org_prog" where
  "space_counter uid = db_read OrgInfra (spaces_at uid)"

definition people_counter :: "string \<Rightarrow> ('x, int option) org_prog" where
  "people_counter i = db_read OrgInfra (people_at i)"

definition set_spaces :: "string \<Rightarrow> int \<Rightarrow> 'x org_db_scheme \<Rightarrow> 'x org_db_scheme" where
  "set_spaces uid n = org_tbl_update (tput (spaces_key uid) (SpacesI n))"

definition set_people :: "string \<Rightarrow> int \<Rightarrow> 'x org_db_scheme \<Rightarrow> 'x org_db_scheme" where
  "set_people i n = org_tbl_update (\<lambda>tb. case tget tb (org_key i) of
     Some (OrgI g c) \<Rightarrow> tput (org_key i) (OrgI g (Some n)) tb | _ \<Rightarrow> tb)"

text \<open>\<open>guardOutcome\<close>: a transaction whose guard fails, or that conflicts with another, has moved; one that
  fails for another condition reports that.\<close>

definition refusal :: "'x org_db_scheme \<Rightarrow> org_err" where
  "refusal s = (case (faults s, conflicts s) of (Refused # _, True # _) \<Rightarrow> ErrCounterMoved | _ \<Rightarrow> OrgInfra)"

definition guarded_tx ::
  "org_err \<Rightarrow> ('x org_db_scheme \<Rightarrow> bool) \<Rightarrow> ('x org_db_scheme \<Rightarrow> bool) \<Rightarrow> ('x org_db_scheme \<Rightarrow> 'x org_db_scheme) \<Rightarrow>
   ('x, unit) org_prog" where
  "guarded_tx other g c u =
     bindE (gets (\<lambda>s. (refusal s, if g s then other else ErrCounterMoved))) (\<lambda>(e, d).
     bindE (modify (conflicts_update tl)) (\<lambda>_.
     db_cond e d (\<lambda>s. g s \<and> c s) u))"

definition create_with_owner_guarded :: "organization \<Rightarrow> string \<Rightarrow> counter_write \<Rightarrow> ('x, unit) org_prog" where
  "create_with_owner_guarded g name w =
     guarded_tx ErrAlreadyMember (\<lambda>s. guard_holds w (spaces_at (og_owner g) s)) (create_fits g name)
       (\<lambda>s. set_spaces (og_owner g) (cw_next w) (create_items g name s))"

definition transfer_ownership_guarded ::
  "string \<Rightarrow> string \<Rightarrow> string \<Rightarrow> string \<Rightarrow> time \<Rightarrow> counter_write \<Rightarrow> ('x, unit) org_prog" where
  "transfer_ownership_guarded i giver taker demote n w =
     guarded_tx ErrOrgNotFound (\<lambda>s. guard_holds w (spaces_at taker s)) (transfer_fits i giver taker)
       (\<lambda>s. set_spaces taker (cw_next w) (transfer_items i giver taker demote n s))"

definition row_expired :: "invitation \<Rightarrow> time \<Rightarrow> 'x org_db_scheme \<Rightarrow> bool" where
  "row_expired iv n s \<longleftrightarrow> (case tget (invite_tbl s) (fst (invitation_item iv)) of
     None \<Rightarrow> True | Some r \<Rightarrow> unix (iv_expires_at r) < unix n)"

definition put_invitation_guarded :: "invitation \<Rightarrow> counter_write \<Rightarrow> time \<Rightarrow> ('x, unit) org_prog" where
  "put_invitation_guarded iv w n =
     guarded_tx ErrCounterMoved (\<lambda>s. has_row (org_tbl s) (org_key (iv_org iv)) \<and> guard_holds w (people_at (iv_org iv) s))
       (row_expired iv n) (\<lambda>s. set_people (iv_org iv) (cw_next w) (store_invitation iv s))"

definition get_invitation :: "string \<Rightarrow> string \<Rightarrow> ('x, invitation) org_prog" where
  "get_invitation i email =
     bindE (db_read OrgInfra (\<lambda>s. tget (invite_tbl s) (invite_key i email))) (\<lambda>r.
     case r of None \<Rightarrow> throw ErrOrgNotFound | Some v \<Rightarrow> ret (unmarshal_invitation (invite_key i email, v)))"

text \<open>Never below zero; a counter that does not exist, or is zero, is left alone.\<close>

definition above_zero :: "int option \<Rightarrow> bool" where
  "above_zero c \<longleftrightarrow> (case c of None \<Rightarrow> False | Some n \<Rightarrow> 0 < n)"

definition settled :: "('x, unit) org_prog \<Rightarrow> ('x, unit) org_prog" where
  "settled f = bindE (tryE f) (\<lambda>r. case r of Inl e \<Rightarrow> if e = ErrCounterMoved then ret () else throw e | Inr _ \<Rightarrow> ret ())"

definition decrement_space_counter :: "string \<Rightarrow> ('x, unit) org_prog" where
  "decrement_space_counter uid = settled (db_cond OrgInfra ErrCounterMoved (\<lambda>s. above_zero (spaces_at uid s))
     (\<lambda>s. set_spaces uid (the (spaces_at uid s) - 1) s))"

definition decrement_people_counter :: "string \<Rightarrow> ('x, unit) org_prog" where
  "decrement_people_counter i = settled (db_cond OrgInfra ErrCounterMoved (\<lambda>s. above_zero (people_at i s))
     (\<lambda>s. set_people i (the (people_at i s) - 1) s))"

definition repo_reconcile_space_counter :: "string \<Rightarrow> int option \<Rightarrow> int \<Rightarrow> ('x, unit) org_prog" where
  "repo_reconcile_space_counter uid seen n = settled (db_cond OrgInfra ErrCounterMoved
     (\<lambda>s. guard_holds \<lparr>cw_expect = seen, cw_next = n, cw_blind = False\<rparr> (spaces_at uid s)) (set_spaces uid n))"

section \<open>The eraser\<close>

definition member_field :: "('x org_db_scheme, org_membership) field" where
  "member_field = \<lparr>fd_get = member_tbl, fd_update = member_tbl_update\<rparr>"

definition invite_field :: "('x org_db_scheme, invitation) field" where
  "invite_field = \<lparr>fd_get = invite_tbl, fd_update = invite_tbl_update\<rparr>"

definition org_field :: "('x org_db_scheme, org_item) field" where
  "org_field = \<lparr>fd_get = org_tbl, fd_update = org_tbl_update\<rparr>"

definition erase_organization :: "string \<Rightarrow> 'x org_db_scheme \<Rightarrow> ((org_err + unit) \<times> 'x org_db_scheme) option" where
  "erase_organization i =
     and_then (delete_all_under OrgInfra member_field (org_pk i) memberSKPrefix)
       (and_then (delete_all_under OrgInfra invite_field (org_pk i) inviteSKPrefix)
         (\<lambda>s. Some (db_write OrgInfra (org_tbl_update (tdel (org_key i))) s)))"

definition erase_owner :: "string \<Rightarrow> 'x org_db_scheme \<Rightarrow> ((org_err + unit) \<times> 'x org_db_scheme) option" where
  "erase_owner uid = delete_all_under OrgInfra org_field (owner_pk uid) []"

end
