(* ===== verification/OrgService.thy ===== *)
theory OrgService
  imports Organizations
begin

text \<open>
  \<open>internal/domain/organization/service.go\<close> and \<open>planlimit.go\<close>: who may create, rename, share, hand over and
  leave a workspace, the invitations, and the guards that hold a personal space to the plan of its owner.
  Billing, the accounts behind addresses and the grants of companies are parameters.
\<close>

text \<open>\<open>oc_plans\<close> is the plan of an owner at an instant, \<open>None\<close> when billing does not answer; without
  \<open>oc_plans\<close> there are no limits.\<close>

record 'x org_conf =
  oc_sha :: "string \<Rightarrow> byte list"
  oc_plans :: "(string \<Rightarrow> time \<Rightarrow> quotas option) option"
  oc_email_owner :: "(string \<Rightarrow> ('x, string) org_prog) option"
  oc_granter :: "(string \<Rightarrow> string \<Rightarrow> string \<Rightarrow> string \<Rightarrow> string \<Rightarrow> ('x, unit) org_prog) option"

definition maxDisplayName :: nat where "maxDisplayName = 120"
definition invitationTTL :: time where "invitationTTL = 7 * day"
definition guardAttempts :: nat where "guardAttempts = 3"
definition counterSettle :: time where "counterSettle = minute"
definition Unlimited :: int where "Unlimited = -1"
definition ResourceSpaces :: string where "ResourceSpaces = ''spaces''"
definition ResourcePeople :: string where "ResourcePeople = ''people''"

definition notify :: "plan_notice \<Rightarrow> ('x, unit) org_prog" where
  "notify n = modify (notices_update (\<lambda>ns. ns @ [n]))"

section \<open>Roles\<close>

definition role_of :: "string \<Rightarrow> string \<Rightarrow> ('x, string) org_prog" where
  "role_of i uid = mapErr (\<lambda>e. if e = ErrOrgNotFound then ErrNotAMember else e)
     (bindE (get_membership i uid) (\<lambda>m. ret (om_role m)))"

definition org_kind_of :: "string \<Rightarrow> ('x, string) org_prog" where
  "org_kind_of i = bindE (repo_get_org i) (\<lambda>g. ret (kind_of g))"

definition membership_of :: "string \<Rightarrow> string \<Rightarrow> ('x, string \<times> string) org_prog" where
  "membership_of i uid =
     bindE (role_of i uid) (\<lambda>r.
     bindE (mapErr (\<lambda>e. if e = ErrOrgNotFound then ErrNotAMember else e) (org_kind_of i)) (\<lambda>k. ret (r, k)))"

definition require_role :: "string \<Rightarrow> string \<Rightarrow> string \<Rightarrow> ('x, unit) org_prog" where
  "require_role i actor lo = bindE (role_of i actor) (\<lambda>r. if at_least r lo then ret () else throw ErrRoleForbidden)"

text \<open>An unknown workspace passes and is refused by the membership check that follows.\<close>

definition require_grantable_in :: "string \<Rightarrow> string \<Rightarrow> ('x, unit) org_prog" where
  "require_grantable_in i r =
     bindE (tryE (org_kind_of i)) (\<lambda>k. case k of
       Inl e \<Rightarrow> if e = ErrOrgNotFound then ret () else throw e
     | Inr kind \<Rightarrow> if is_grantable_role_in kind r then ret () else throw ErrNotGrantable)"

section \<open>Who counts in a space\<close>

fun owned_among :: "string \<Rightarrow> org_membership list \<Rightarrow> ('x, organization list) org_prog" where
  "owned_among uid [] = ret []"
| "owned_among uid (m # ms) =
     (if om_role m \<noteq> RoleOwner then owned_among uid ms
      else
      bindE (tryE (repo_get_org (om_org m))) (\<lambda>r. case r of
        Inl e \<Rightarrow> if e = ErrOrgNotFound then owned_among uid ms else throw e
      | Inr g \<Rightarrow>
          bindE (owned_among uid ms) (\<lambda>gs.
          ret (if kind_of g = KindPersonal \<and> og_owner g = uid then g # gs else gs))))"

definition owned_spaces :: "string \<Rightarrow> ('x, organization list) org_prog" where
  "owned_spaces uid = bindE (repo_list_for_user uid) (owned_among uid)"

definition invitation_live :: "invitation \<Rightarrow> time \<Rightarrow> bool" where
  "invitation_live iv n \<longleftrightarrow> iv_expires_at iv = zero_time \<or> \<not> iv_expires_at iv < n"

text \<open>The members besides the owner, and the addresses of the live invitations.\<close>

definition people_in :: "organization \<Rightarrow> ('x, string list \<times> string list) org_prog" where
  "people_in g =
     bindE (repo_list_members (og_id g)) (\<lambda>ms.
     bindE (repo_list_invitations (og_id g)) (\<lambda>ivs.
     bindE now (\<lambda>n.
     ret (map om_user (filter (\<lambda>m. \<not> (om_user m = og_owner g \<or> om_role m = RoleOwner)) ms),
          map (\<lambda>iv. normalize_email (iv_email iv)) (filter (\<lambda>iv. invitation_live iv n) ivs)))))"

definition people_count :: "string list \<times> string list \<Rightarrow> int" where
  "people_count p = int (length (fst p) + length (snd p))"

fun people_across :: "organization list \<Rightarrow> ('x, string list \<times> string list) org_prog" where
  "people_across [] = ret ([], [])"
| "people_across (g # gs) =
     bindE (people_in g) (\<lambda>p.
     bindE (people_across gs) (\<lambda>q. ret (fst p @ fst q, snd p @ snd q)))"

text \<open>An invited address that belongs to a member already is the same person.\<close>

fun count_invited :: "'x org_conf \<Rightarrow> string list \<Rightarrow> string list \<Rightarrow> ('x, int) org_prog" where
  "count_invited C ids [] = ret 0"
| "count_invited C ids (e # es) =
     bindE (case oc_email_owner C of None \<Rightarrow> ret [] | Some f \<Rightarrow> f e) (\<lambda>i.
     bindE (count_invited C ids es) (\<lambda>n. ret (if i \<noteq> [] \<and> i \<in> set ids then n else n + 1)))"

definition levels :: "'x org_conf \<Rightarrow> string \<Rightarrow> ('x, int \<times> int) org_prog" where
  "levels C uid =
     bindE (owned_spaces uid) (\<lambda>gs.
     bindE (people_across gs) (\<lambda>p.
     bindE (count_invited C (fst p) (remdups (snd p))) (\<lambda>n.
     ret (int (length gs), int (length (remdups (fst p))) + n))))"

definition space_counts :: "string \<Rightarrow> ('x, int \<times> int) org_prog" where
  "space_counts i =
     bindE (repo_get_org i) (\<lambda>g.
     bindE (people_in g) (\<lambda>p. ret (int (length (fst p)), int (length (snd p)))))"

section \<open>Plan limits\<close>

definition allows :: "int \<Rightarrow> int \<Rightarrow> bool" where
  "allows limit used \<longleftrightarrow> limit = Unlimited \<or> used < limit"

definition limited :: "'x org_conf \<Rightarrow> bool" where
  "limited C \<longleftrightarrow> oc_plans C \<noteq> None"

definition get_quotas :: "'x org_conf \<Rightarrow> string \<Rightarrow> ('x, quotas) org_prog" where
  "get_quotas C uid = bindE now (\<lambda>n. case oc_plans C of
       None \<Rightarrow> throw ErrPlanUnavailable
     | Some f \<Rightarrow> (case f uid n of None \<Rightarrow> throw ErrPlanUnavailable | Some q \<Rightarrow> ret q))"

text \<open>The count of the index comes first, then the counter; the larger of the two is used.\<close>

definition guard_from :: "string \<Rightarrow> quotas \<Rightarrow> bool \<Rightarrow> int \<Rightarrow> ('x, counter_write) org_prog" where
  "guard_from uid q hidden real_n =
     bindE (space_counter uid) (\<lambda>seen.
     let used = (case seen of Some n \<Rightarrow> max n real_n | None \<Rightarrow> real_n)
     in if \<not> allows (qu_spaces q) used
        then throw (PlanLimitError \<lparr>pr_resource = ResourceSpaces, pr_limit = qu_spaces q, pr_used = used,
               pr_plan = qu_plan q, pr_hidden = hidden\<rparr>)
        else ret \<lparr>cw_expect = seen, cw_next = used + 1, cw_blind = (qu_spaces q = Unlimited)\<rparr>)"

definition space_guard :: "string \<Rightarrow> quotas \<Rightarrow> bool \<Rightarrow> ('x, counter_write) org_prog" where
  "space_guard uid q hidden = bindE (owned_spaces uid) (\<lambda>gs. guard_from uid q hidden (int (length gs)))"

text \<open>A guarded write that moved is tried again, three times in all.\<close>

fun until_settled :: "nat \<Rightarrow> ('x, 'a) org_prog \<Rightarrow> ('x, 'a) org_prog" where
  "until_settled 0 f = throw ErrPlanBusy"
| "until_settled (Suc n) f = bindE (tryE f) (\<lambda>r. case r of
       Inl e \<Rightarrow> if e = ErrCounterMoved then until_settled n f else throw e
     | Inr x \<Rightarrow> ret x)"

definition create_guarded :: "'x org_conf \<Rightarrow> organization \<Rightarrow> string \<Rightarrow> ('x, unit) org_prog" where
  "create_guarded C g name =
     bindE (get_quotas C (og_owner g)) (\<lambda>q.
     until_settled guardAttempts (bindE (space_guard (og_owner g) q False) (create_with_owner_guarded g name)))"

definition existing_invitation :: "string \<Rightarrow> string \<Rightarrow> ('x, invitation option) org_prog" where
  "existing_invitation i email = bindE (tryE (get_invitation i email)) (\<lambda>r. case r of
     Inl e \<Rightarrow> if e = ErrOrgNotFound then ret None else throw e | Inr iv \<Rightarrow> ret (Some iv))"

definition people_guard :: "organization \<Rightarrow> quotas \<Rightarrow> ('x, counter_write) org_prog" where
  "people_guard g q =
     bindE (people_in g) (\<lambda>p.
     bindE (people_counter (og_id g)) (\<lambda>seen.
     let used = people_count p
     in if \<not> allows (qu_people q) used
        then throw (PlanLimitError \<lparr>pr_resource = ResourcePeople, pr_limit = qu_people q, pr_used = used,
               pr_plan = qu_plan q, pr_hidden = False\<rparr>)
        else ret \<lparr>cw_expect = seen, cw_next = used + 1, cw_blind = (qu_people q = Unlimited)\<rparr>))"

text \<open>A live row of the same address is replaced without counting.\<close>

definition invite_attempt :: "organization \<Rightarrow> quotas \<Rightarrow> invitation \<Rightarrow> ('x, unit) org_prog" where
  "invite_attempt g q iv =
     bindE now (\<lambda>n.
     bindE (existing_invitation (og_id g) (iv_email iv)) (\<lambda>old.
     if (case old of None \<Rightarrow> False | Some v \<Rightarrow> invitation_live v n) then put_invitation iv
     else bindE (people_guard g q) (\<lambda>w. put_invitation_guarded iv w n)))"

definition invite_guarded :: "'x org_conf \<Rightarrow> organization \<Rightarrow> invitation \<Rightarrow> ('x, unit) org_prog" where
  "invite_guarded C g iv = bindE (get_quotas C (og_owner g)) (\<lambda>q. until_settled guardAttempts (invite_attempt g q iv))"

definition after_transfer :: "string \<Rightarrow> string \<Rightarrow> ('x, unit) org_prog" where
  "after_transfer giver taker =
     bindE (tryE (decrement_space_counter giver)) (\<lambda>r.
     bindE (case r of Inl _ \<Rightarrow> bindE now (\<lambda>n. notify (ScheduleLevels giver (n + counterSettle))) | Inr _ \<Rightarrow> ret ()) (\<lambda>_.
     bindE (notify (LevelsChanged giver)) (\<lambda>_. notify (LevelsChanged taker))))"

definition transfer_attempt :: "string \<Rightarrow> string \<Rightarrow> string \<Rightarrow> string \<Rightarrow> quotas \<Rightarrow> ('x, unit) org_prog" where
  "transfer_attempt i giver taker demote q =
     bindE (space_guard taker q True) (\<lambda>w.
     bindE now (\<lambda>n. transfer_ownership_guarded i giver taker demote n w))"

definition transfer_guarded :: "'x org_conf \<Rightarrow> string \<Rightarrow> string \<Rightarrow> string \<Rightarrow> string \<Rightarrow> ('x, unit) org_prog" where
  "transfer_guarded C i giver taker demote =
     bindE (get_quotas C taker) (\<lambda>q.
     bindE (until_settled guardAttempts (transfer_attempt i giver taker demote q)) (\<lambda>_.
     after_transfer giver taker))"

definition personal_space :: "'x org_conf \<Rightarrow> string \<Rightarrow> ('x, organization option) org_prog" where
  "personal_space C i =
     (if \<not> limited C then ret None
      else bindE (tryE (repo_get_org i)) (\<lambda>r. case r of
        Inl _ \<Rightarrow> ret None
      | Inr g \<Rightarrow> ret (if kind_of g = KindPersonal then Some g else None)))"

definition after_people_left :: "organization \<Rightarrow> ('x, unit) org_prog" where
  "after_people_left g = bindE (logE (decrement_people_counter (og_id g))) (\<lambda>_. notify (LevelsChanged (og_owner g)))"

definition if_space :: "'x org_conf \<Rightarrow> string \<Rightarrow> (organization \<Rightarrow> ('x, unit) org_prog) \<Rightarrow> ('x, unit) org_prog" where
  "if_space C i f = bindE (personal_space C i) (\<lambda>sp. case sp of None \<Rightarrow> ret () | Some g \<Rightarrow> f g)"

record space_usage =
  su_people :: int
  su_pending :: int
  su_limit :: int
  su_plan :: string

definition space_usage_of :: "'x org_conf \<Rightarrow> string \<Rightarrow> string \<Rightarrow> ('x, space_usage) org_prog" where
  "space_usage_of C i actor =
     bindE (require_role i actor RoleOwner) (\<lambda>_.
     bindE (repo_get_org i) (\<lambda>g.
     if kind_of g \<noteq> KindPersonal then throw ErrNotASpace
     else
     bindE (people_in g) (\<lambda>p.
     let u = \<lparr>su_people = int (length (fst p)), su_pending = int (length (snd p)), su_limit = Unlimited, su_plan = []\<rparr>
     in if \<not> limited C then ret u
        else bindE (get_quotas C (og_owner g)) (\<lambda>q. ret (u\<lparr>su_limit := qu_people q, su_plan := qu_plan q\<rparr>)))))"

definition reconcile_from :: "string \<Rightarrow> int \<Rightarrow> ('x, unit) org_prog" where
  "reconcile_from uid real_n =
     bindE (space_counter uid) (\<lambda>seen.
     if seen = Some real_n then ret () else repo_reconcile_space_counter uid seen real_n)"

definition reconcile_space_counter :: "'x org_conf \<Rightarrow> string \<Rightarrow> ('x, unit) org_prog" where
  "reconcile_space_counter C uid =
     (if \<not> limited C then ret () else bindE (owned_spaces uid) (\<lambda>gs. reconcile_from uid (int (length gs))))"

section \<open>Workspaces\<close>

definition valid_name :: "string \<Rightarrow> bool" where
  "valid_name name \<longleftrightarrow> name \<noteq> [] \<and> length name \<le> maxDisplayName"

definition new_organization :: "string \<Rightarrow> string \<Rightarrow> string \<Rightarrow> string \<Rightarrow> time \<Rightarrow> organization" where
  "new_organization i kind owner name n = \<lparr>og_id = i, og_display_name = name, og_owner = owner, og_kind = kind,
     og_source_system = [], og_source_ref = [], og_created_at = n, og_updated_at = n\<rparr>"

definition create_of_kind :: "'x org_conf \<Rightarrow> string \<Rightarrow> string \<Rightarrow> string \<Rightarrow> string \<Rightarrow> ('x, organization) org_prog" where
  "create_of_kind C kind0 owner owner_name display =
     (case normalize_kind kind0 of
        None \<Rightarrow> throw ErrInvalidKind
      | Some kind \<Rightarrow>
      let name = trim_space display in
      if \<not> valid_name name then throw ErrInvalidName
      else if trim_space owner = [] then throw ErrNotAMember
      else
      bindE now (\<lambda>n.
      bindE new_uuid (\<lambda>i.
      let g = new_organization i kind owner name n in
      if kind = KindPersonal \<and> limited C then
        bindE (create_guarded C g (trim_space owner_name)) (\<lambda>_.
        bindE (notify (LevelsChanged owner)) (\<lambda>_. ret g))
      else bindE (create_with_owner g (trim_space owner_name)) (\<lambda>_. ret g))))"

definition create_org :: "'x org_conf \<Rightarrow> string \<Rightarrow> string \<Rightarrow> string \<Rightarrow> ('x, organization) org_prog" where
  "create_org C owner owner_name display = create_of_kind C KindOrganization owner owner_name display"

definition get_org :: "string \<Rightarrow> string \<Rightarrow> ('x, organization) org_prog" where
  "get_org i actor = bindE (role_of i actor) (\<lambda>_. repo_get_org i)"

definition rename_org :: "string \<Rightarrow> string \<Rightarrow> string \<Rightarrow> ('x, unit) org_prog" where
  "rename_org i actor display =
     (let name = trim_space display in
      if \<not> valid_name name then throw ErrInvalidName
      else
      bindE (require_role i actor RoleAdmin) (\<lambda>_.
      bindE now (\<lambda>n. update_display_name i name n)))"

definition list_for_user :: "string \<Rightarrow> ('x, org_membership list) org_prog" where
  "list_for_user uid = repo_list_for_user uid"

definition list_members :: "string \<Rightarrow> string \<Rightarrow> ('x, org_membership list) org_prog" where
  "list_members i actor = bindE (require_role i actor RoleViewer) (\<lambda>_. repo_list_members i)"

section \<open>Members\<close>

definition set_role :: "string \<Rightarrow> string \<Rightarrow> string \<Rightarrow> string \<Rightarrow> ('x, unit) org_prog" where
  "set_role i actor target r =
     (if \<not> is_grantable_role r then throw ErrNotGrantable
      else
      bindE (require_grantable_in i r) (\<lambda>_.
      if actor = target then throw ErrOwnRole
      else
      bindE (role_of i actor) (\<lambda>actor_role.
      if \<not> at_least actor_role RoleAdmin then throw ErrRoleForbidden
      else
      bindE (role_of i target) (\<lambda>current.
      if \<not> outranks actor_role current then throw ErrOutranked
      else if \<not> outranks actor_role r then throw ErrOutranked
      else repo_set_role i target r))))"

definition remove_membership :: "'x org_conf \<Rightarrow> string \<Rightarrow> string \<Rightarrow> ('x, unit) org_prog" where
  "remove_membership C i uid = bindE (repo_remove_membership i uid) (\<lambda>_. if_space C i after_people_left)"

definition remove_member :: "'x org_conf \<Rightarrow> string \<Rightarrow> string \<Rightarrow> string \<Rightarrow> ('x, unit) org_prog" where
  "remove_member C i actor target =
     bindE (role_of i target) (\<lambda>target_role.
     if target_role = RoleOwner then throw ErrRoleForbidden
     else if actor = target then remove_membership C i target
     else
     bindE (role_of i actor) (\<lambda>actor_role.
     if \<not> at_least actor_role RoleAdmin then throw ErrRoleForbidden
     else if \<not> outranks actor_role target_role then throw ErrOutranked
     else remove_membership C i target))"

definition transfer :: "'x org_conf \<Rightarrow> string \<Rightarrow> string \<Rightarrow> string \<Rightarrow> ('x, unit) org_prog" where
  "transfer C i actor taker =
     bindE (role_of i actor) (\<lambda>r.
     if r \<noteq> RoleOwner \<or> actor = taker then throw ErrRoleForbidden
     else
     bindE (role_of i taker) (\<lambda>taker_role.
     bindE (org_kind_of i) (\<lambda>kind.
     if kind = KindPersonal \<and> taker_role \<noteq> RoleMember then throw ErrTransferNeedsFullAccess
     else
     let demote = (if kind = KindPersonal then RoleMember else RoleAdmin)
     in if kind = KindPersonal \<and> limited C then transfer_guarded C i actor taker demote
        else bindE now (\<lambda>n. transfer_ownership i actor taker demote n))))"

section \<open>Invitations\<close>

text \<open>Companies in an invitation to a space; a failure to read the kind lets them pass.\<close>

definition companies_fit :: "string \<Rightarrow> string list \<Rightarrow> ('x, unit) org_prog" where
  "companies_fit i cs =
     (if cs = [] then ret ()
      else bindE (tryE (org_kind_of i)) (\<lambda>k. if k = Inr KindPersonal then throw ErrNoCompaniesInASpace else ret ()))"

definition offer :: "string \<Rightarrow> string \<Rightarrow> string \<Rightarrow> string list \<Rightarrow> string \<Rightarrow> string \<Rightarrow> time \<Rightarrow> invitation" where
  "offer i address r cs h actor n = \<lparr>iv_org = i, iv_email = address, iv_role = r, iv_token_hash = h, iv_companies = cs,
     iv_invited_by = actor, iv_created_at = n, iv_expires_at = n + invitationTTL\<rparr>"

definition expiry_report_at :: "invitation \<Rightarrow> time" where
  "expiry_report_at iv = iv_expires_at iv + second"

definition send_offer :: "'x org_conf \<Rightarrow> invitation \<Rightarrow> ('x, unit) org_prog" where
  "send_offer C iv =
     bindE (personal_space C (iv_org iv)) (\<lambda>sp. case sp of
       None \<Rightarrow> put_invitation iv
     | Some g \<Rightarrow>
         bindE (invite_guarded C g iv) (\<lambda>_.
         bindE (notify (LevelsChanged (og_owner g))) (\<lambda>_.
         notify (ScheduleLevels (og_owner g) (expiry_report_at iv)))))"

definition invite :: "'x org_conf \<Rightarrow> string \<Rightarrow> string \<Rightarrow> string \<Rightarrow> string \<Rightarrow> string list \<Rightarrow> ('x, string) org_prog" where
  "invite C i actor email r cs =
     (if \<not> is_grantable_role r then throw ErrNotGrantable
      else
      let address = normalize_email email in
      if address = [] \<or> CHR 0x40 \<notin> set address then throw ErrInvalidName
      else
      bindE (require_grantable_in i r) (\<lambda>_.
      bindE (companies_fit i cs) (\<lambda>_.
      bindE (role_of i actor) (\<lambda>actor_role.
      if \<not> at_least actor_role RoleAdmin then throw ErrRoleForbidden
      else if \<not> outranks actor_role r then throw ErrOutranked
      else
      bindE (generate_random OrgRandom 256) (\<lambda>raw.
      let token = raw_url_encode raw in
      bindE now (\<lambda>n.
      bindE (send_offer C (offer i address r cs (hash_token (oc_sha C) token) actor n)) (\<lambda>_.
      ret token)))))))"

text \<open>\<open>Accept\<close>, with its halves: what is read and checked, and what is written from it.\<close>

definition check_invitation :: "'x org_conf \<Rightarrow> string \<Rightarrow> string \<Rightarrow> string \<Rightarrow> ('x, invitation) org_prog" where
  "check_invitation C token uid email =
     (if token = [] \<or> trim_space uid = [] then throw ErrInvitationInvalid
      else
      bindE (mapErr (\<lambda>e. if e = ErrOrgNotFound then ErrInvitationInvalid else e)
        (get_invitation_by_token (hash_token (oc_sha C) token))) (\<lambda>iv.
      bindE now (\<lambda>n.
      if \<not> invitation_live iv n then throw ErrInvitationInvalid
      else if normalize_email email \<noteq> normalize_email (iv_email iv) then throw ErrWrongInvitee
      else ret iv)))"

definition joining :: "invitation \<Rightarrow> string \<Rightarrow> string \<Rightarrow> time \<Rightarrow> org_membership" where
  "joining iv uid name n = \<lparr>om_org = iv_org iv, om_user = uid, om_name = trim_space name, om_role = iv_role iv,
     om_invited_by = iv_invited_by iv, om_created_at = n\<rparr>"

definition grant_companies :: "'x org_conf \<Rightarrow> invitation \<Rightarrow> org_membership \<Rightarrow> ('x, unit) org_prog" where
  "grant_companies C iv m = (case oc_granter C of
       None \<Rightarrow> ret ()
     | Some f \<Rightarrow> forE (iv_companies iv) (\<lambda>c. f (iv_org iv) c (om_user m) (om_name m) (iv_invited_by iv)))"

definition join :: "'x org_conf \<Rightarrow> invitation \<Rightarrow> string \<Rightarrow> string \<Rightarrow> ('x, org_membership) org_prog" where
  "join C iv uid name =
     bindE now (\<lambda>n.
     let m = joining iv uid name n in
     bindE (accept_invitation m (iv_email iv)) (\<lambda>_.
     bindE (if_space C (iv_org iv) (\<lambda>g. notify (LevelsChanged (og_owner g)))) (\<lambda>_.
     bindE (grant_companies C iv m) (\<lambda>_. ret m))))"

definition accept :: "'x org_conf \<Rightarrow> string \<Rightarrow> string \<Rightarrow> string \<Rightarrow> string \<Rightarrow> ('x, org_membership) org_prog" where
  "accept C token uid email name = bindE (check_invitation C token uid email) (\<lambda>iv. join C iv uid name)"

definition list_invitations :: "string \<Rightarrow> string \<Rightarrow> ('x, invitation list) org_prog" where
  "list_invitations i actor = bindE (require_role i actor RoleAdmin) (\<lambda>_. repo_list_invitations i)"

definition counted_in :: "organization option \<Rightarrow> string \<Rightarrow> string \<Rightarrow> ('x, bool) org_prog" where
  "counted_in sp i email = (case sp of None \<Rightarrow> ret False
     | Some g \<Rightarrow> bindE (existing_invitation i email) (\<lambda>old.
         bindE now (\<lambda>n. ret (case old of None \<Rightarrow> False | Some v \<Rightarrow> invitation_live v n))))"

definition revoke_invitation :: "'x org_conf \<Rightarrow> string \<Rightarrow> string \<Rightarrow> string \<Rightarrow> ('x, unit) org_prog" where
  "revoke_invitation C i actor email =
     bindE (require_role i actor RoleAdmin) (\<lambda>_.
     bindE (personal_space C i) (\<lambda>sp.
     bindE (counted_in sp i email) (\<lambda>counted.
     bindE (delete_invitation i email) (\<lambda>_.
     case sp of None \<Rightarrow> ret () | Some g \<Rightarrow> if counted then after_people_left g else ret ()))))"

section \<open>Names and the switcher\<close>

definition rename_member :: "string \<Rightarrow> string \<Rightarrow> ('x, unit) org_prog" where
  "rename_member uid name =
     (if trim_space uid = [] \<or> trim_space name = [] then ret () else repo_rename_member uid (trim_space name))"

record workspace_view =
  wv_id :: string
  wv_display_name :: string
  wv_owner :: string
  wv_kind :: string
  wv_role :: string
  wv_joined_at :: time

definition workspace_of :: "org_membership \<Rightarrow> organization \<Rightarrow> workspace_view" where
  "workspace_of m g = \<lparr>wv_id = og_id g, wv_display_name = og_display_name g, wv_owner = og_owner g, wv_kind = kind_of g,
     wv_role = om_role m, wv_joined_at = om_created_at m\<rparr>"

text \<open>A membership whose organization is gone is skipped.\<close>

fun workspaces_among :: "org_membership list \<Rightarrow> ('x, workspace_view list) org_prog" where
  "workspaces_among [] = ret []"
| "workspaces_among (m # ms) =
     bindE (tryE (repo_get_org (om_org m))) (\<lambda>r. case r of
       Inl e \<Rightarrow> if e = ErrOrgNotFound then workspaces_among ms else throw e
     | Inr g \<Rightarrow> bindE (workspaces_among ms) (\<lambda>ws. ret (workspace_of m g # ws)))"

text \<open>By name, then by identifier.\<close>

definition list_workspaces :: "string \<Rightarrow> ('x, workspace_view list) org_prog" where
  "list_workspaces uid =
     bindE (repo_list_for_user uid) (\<lambda>ms.
     bindE (workspaces_among ms) (\<lambda>ws.
     ret (sort_key wv_display_name (sort_key wv_id ws))))"

end
