(* ===== verification/Views.thy ===== *)
theory Views
  imports ClientRuns
begin

text \<open>
  What a whole call changes, when the change is stated on a part of the state: a relation between the states
  around a call that looks at nothing but a view of them. The calls that leave the view alone drop out, so a
  call has the relation as soon as its one write has it.
\<close>

locale view_step =
  fixes V :: "'x env_scheme \<Rightarrow> 'v" and R :: "'x env_scheme \<Rightarrow> 'x env_scheme \<Rightarrow> bool"
  assumes blind_view: "blind V"
    and stay: "R s s"
    and before: "V t = V s \<Longrightarrow> R t v \<Longrightarrow> R s v"
    and after: "R s t \<Longrightarrow> V v = V t \<Longrightarrow> R s v"
begin

lemma look: "keeps V f \<Longrightarrow> R s (snd (f s))"
  by (rule after [OF stay]) (rule keepsD)

lemma bind_look:
  assumes "keeps V f" and "\<And>x t. f s = (Inr x, t) \<Longrightarrow> V t = V s \<Longrightarrow> R t (snd (g x t))"
  shows "R s (snd (bindE f g s))"
proof (cases "f s")
  case (Pair r t)
  from keepsD' [OF assms(1) Pair] have v: "V t = V s" .
  show ?thesis
  proof (cases r)
    case (Inl e)
    with Pair after [OF stay v] show ?thesis by simp
  next
    case (Inr x)
    with Pair before [OF v assms(2)] v show ?thesis by simp
  qed
qed

lemma bind_then: "R s (snd (f s)) \<Longrightarrow> (\<And>x. keeps V (g x)) \<Longrightarrow> R s (snd (bindE f g s))"
  by (cases "f s"; cases "fst (f s)") (auto intro: after dest: keepsD)

lemma errors: "R s (snd (f s)) \<Longrightarrow> R s (snd (mapErr h f s))"
  by (cases "f s"; cases "fst (f s)") (auto simp: mapErr_run)

lemma cond:
  assumes "\<And>t. V t = V s \<Longrightarrow> c t \<Longrightarrow> R t (u t)" and "blind c"
  shows "R s (snd (db_cond e d c u s))"
proof -
  obtain os where "snd (db_cond e d c u s) = s\<lparr>faults := os\<rparr> \<or> snd (db_cond e d c u s) = u (s\<lparr>faults := os\<rparr>) \<and> c s"
    using db_cond_cases [of e d c u s] by blast
  then show ?thesis
  proof
    assume "snd (db_cond e d c u s) = s\<lparr>faults := os\<rparr>"
    then show ?thesis using after [OF stay, of "s\<lparr>faults := os\<rparr>" s] by (simp add: blindD [OF blind_view])
  next
    assume a: "snd (db_cond e d c u s) = u (s\<lparr>faults := os\<rparr>) \<and> c s"
    with assms(2) have "c (s\<lparr>faults := os\<rparr>)" by (simp add: blindD)
    from before [OF _ assms(1) [OF _ this], of s] a show ?thesis by (simp add: blindD [OF blind_view])
  qed
qed

lemma put: "(\<And>t. V t = V s \<Longrightarrow> R t (u t)) \<Longrightarrow> R s (snd (db_write e u s))"
  unfolding db_write_def by (rule cond) (simp_all add: blind_def)

lemma branch: "(b \<Longrightarrow> R s (snd (f s))) \<Longrightarrow> (\<not> b \<Longrightarrow> R s (snd (g s))) \<Longrightarrow> R s (snd ((if b then f else g) s))"
  by simp

lemma stop: "R s (snd (throw e s))" "R s (snd (ret x s))"
  by (simp_all add: stay)

end

end
