(* ===== verification/OrgRuns.thy ===== *)
theory OrgRuns
  imports OrgService Views
begin

text \<open>
  The rules of a workspace over all calls of the organization service, with any failing calls: exactly one
  owner, roles that change only by somebody entitled to change them, and invitations nobody can send above
  their own reach. The eraser ends and leaves nothing behind.
\<close>

section \<open>Keys\<close>

lemma org_pk_inject [simp]: "org_pk i = org_pk j \<longleftrightarrow> i = j"
  by (simp add: org_pk_def)

lemma member_sk_inject [simp]: "member_sk u = member_sk v \<longleftrightarrow> u = v"
  by (simp add: member_sk_def)

lemma owner_pk_inject [simp]: "owner_pk u = owner_pk v \<longleftrightarrow> u = v"
  by (simp add: owner_pk_def)

lemma meta_not_spaces [simp]: "metaSK \<noteq> spacesCounterSK" "spacesCounterSK \<noteq> metaSK"
  by (simp_all add: spacesCounterSK_def metaSK_def)

lemma trim_org_pk [simp]: "trim_prefix (org_pk i) orgPKPrefix = i"
  by (simp add: org_pk_def)

lemma trim_member_sk [simp]: "trim_prefix (member_sk u) memberSKPrefix = u"
  by (simp add: member_sk_def)

section \<open>What the rules are about\<close>

text \<open>The instant, the organizations without their counters, the memberships and the invitations.\<close>

definition org_map :: "'x org_db_scheme \<Rightarrow> string \<Rightarrow> organization option" where
  "org_map s i = Option.bind (tget (org_tbl s) (org_key i)) as_org"

definition org_view :: "'x org_db_scheme \<Rightarrow> time \<times> (string \<Rightarrow> organization option) \<times> (key, org_membership) table \<times> (key, invitation) table" where
  "org_view s = (clock s, org_map s, member_tbl s, invite_tbl s)"

lemma org_map_simps [simp]:
  "org_map (s\<lparr>faults := os\<rparr>) = org_map s" "org_map (s\<lparr>rng_ix := n\<rparr>) = org_map s" "org_map (s\<lparr>uuid_ix := n\<rparr>) = org_map s"
  "org_map (s\<lparr>clock := t\<rparr>) = org_map s"
  "org_map (conflicts_update f s) = org_map s" "org_map (notices_update g s) = org_map s"
  "org_map (member_tbl_update h s) = org_map s" "org_map (invite_tbl_update k s) = org_map s"
  "org_map (set_spaces uid m s) = org_map s" "org_map (set_people i m s) = org_map s"
  by (auto simp: org_map_def set_spaces_def set_people_def fun_eq_iff split: option.splits org_item.splits)

lemma org_view_simps [simp]:
  "org_view (s\<lparr>faults := os\<rparr>) = org_view s" "org_view (s\<lparr>rng_ix := n\<rparr>) = org_view s" "org_view (s\<lparr>uuid_ix := n\<rparr>) = org_view s"
  "org_view (conflicts_update f s) = org_view s" "org_view (notices_update g s) = org_view s"
  "org_view (set_spaces uid m s) = org_view s" "org_view (set_people i m s) = org_view s"
  by (simp_all add: org_view_def) (simp_all add: set_spaces_def set_people_def)

lemma blind_org_view [simp]: "blind org_view"
  by (simp add: blind_def)

lemma org_viewD:
  assumes "org_view t = org_view s"
  shows "clock t = clock s" "org_map t = org_map s" "member_tbl t = member_tbl s" "invite_tbl t = invite_tbl s"
  using assms by (simp_all add: org_view_def)

section \<open>Calls that only look, or count\<close>

named_theorems looks \<open>calls of the organization service that leave the workspaces alone\<close>

lemma keeps_settled: "keeps org_view f \<Longrightarrow> keeps org_view (settled f)"
  unfolding settled_def by (intro keeps_calls)

lemma looks_repo [looks]:
  "keeps org_view (repo_get_org i)" "keeps org_view (get_membership i u)" "keeps org_view (repo_list_members i)"
  "keeps org_view (repo_list_for_user u)" "keeps org_view (get_invitation_by_token h)" "keeps org_view (repo_list_invitations i)"
  "keeps org_view (space_counter u)" "keeps org_view (people_counter i)" "keeps org_view (get_invitation i e)"
  "keeps org_view (decrement_space_counter u)" "keeps org_view (decrement_people_counter i)"
  "keeps org_view (repo_reconcile_space_counter u seen n)"
  unfolding repo_get_org_def found_org_def get_membership_def found_member_def repo_list_members_def repo_list_for_user_def
    get_invitation_by_token_def repo_list_invitations_def space_counter_def people_counter_def get_invitation_def
    decrement_space_counter_def decrement_people_counter_def repo_reconcile_space_counter_def
  by (intro keeps_calls keeps_settled; simp)+

lemma looks_notify [looks]: "keeps org_view (notify n)"
  by (simp add: notify_def keeps_def tracks_def)

lemma looks_roles [looks]:
  "keeps org_view (role_of i u)" "keeps org_view (org_kind_of i)" "keeps org_view (require_role i u lo)"
  "keeps org_view (require_grantable_in i r)" "keeps org_view (companies_fit i cs)"
  unfolding role_of_def org_kind_of_def require_role_def require_grantable_in_def companies_fit_def
  by (intro keeps_calls looks)+

lemma looks_owned [looks]: "keeps org_view (owned_among u ms)"
  by (induction ms) (simp_all only: owned_among.simps, intro keeps_calls, intro keeps_calls looks)

lemma looks_space [looks]:
  "keeps org_view (owned_spaces u)" "keeps org_view (people_in g)" "keeps org_view (get_quotas C u)"
  "keeps org_view (space_guard u q b)" "keeps org_view (existing_invitation i e)" "keeps org_view (people_guard g q)"
  "keeps org_view (personal_space C i)" "keeps org_view (after_people_left g)" "keeps org_view (after_transfer u v)"
  "keeps org_view (counted_in sp i e)" "keeps org_view (reconcile_space_counter C u)"
  unfolding owned_spaces_def people_in_def get_quotas_def space_guard_def guard_from_def existing_invitation_def people_guard_def
    personal_space_def after_people_left_def after_transfer_def counted_in_def reconcile_space_counter_def reconcile_from_def Let_def
  by (intro keeps_calls looks)+

lemma looks_if_space [looks]: "(\<And>g. keeps org_view (f g)) \<Longrightarrow> keeps org_view (if_space C i f)"
  unfolding if_space_def by (intro keeps_calls looks)

lemma looks_check [looks]: "keeps org_view (check_invitation C token u e)"
  unfolding check_invitation_def by (intro keeps_calls looks)

text \<open>The grants of companies are somebody else's tables.\<close>

definition org_tables ::
  "'x org_db_scheme \<Rightarrow> time \<times> (key, org_item) table \<times> (key, org_membership) table \<times> (key, invitation) table" where
  "org_tables s = (clock s, org_tbl s, member_tbl s, invite_tbl s)"

definition tame_granter :: "'x org_conf \<Rightarrow> bool" where
  "tame_granter C \<longleftrightarrow> (\<forall>f. oc_granter C = Some f \<longrightarrow> (\<forall>i c u n b. keeps org_tables (f i c u n b)))"

lemma org_tables_view: "org_tables t = org_tables s \<Longrightarrow> org_view t = org_view s"
  by (auto simp: org_tables_def org_view_def org_map_def fun_eq_iff)

lemma tables_grants: "tame_granter C \<Longrightarrow> keeps org_tables (grant_companies C iv m)"
  unfolding grant_companies_def tame_granter_def by (intro keeps_calls) auto

lemma looks_grants: "tame_granter C \<Longrightarrow> keeps org_view (grant_companies C iv m)"
  using tables_grants [of C iv m] unfolding keeps_def tracks_def by (auto intro: org_tables_view)

section \<open>What a call may change\<close>

text \<open>A relation between the states around a call that looks at nothing but the view. The calls that only
  look drop out of it, and a guarded write that is tried again counts once.\<close>

definition moved_untouched :: "('x, 'a) org_prog \<Rightarrow> bool" where
  "moved_untouched f \<longleftrightarrow> (\<forall>s t. f s = (Inl ErrCounterMoved, t) \<longrightarrow> org_view t = org_view s)"

locale viewed_step = view_step org_view R for R :: "'x org_db_scheme \<Rightarrow> 'x org_db_scheme \<Rightarrow> bool"
begin

lemma guarded:
  assumes "\<And>t. org_view t = org_view s \<Longrightarrow> c t \<Longrightarrow> R t (u t)" and "blind c" and "blind g"
  shows "R s (snd (guarded_tx other g c u s))"
  unfolding guarded_tx_def
proof (rule bind_look, goal_cases)
  case 1
  show ?case by (simp add: keeps_def tracks_def)
next
  case (2 x t)
  show ?case
  proof (cases x)
    case (Pair e d)
    have "R t (snd (bindE (modify (conflicts_update tl)) (\<lambda>_. db_cond e d (\<lambda>s. g s \<and> c s) u) t))"
      using assms 2 by (intro bind_look cond) (auto simp: keeps_def tracks_def blind_def)
    then show ?thesis by (simp add: Pair)
  qed
qed

lemma retried:
  assumes "moved_untouched f" and "\<And>t. org_view t = org_view s \<Longrightarrow> R t (snd (f t))"
  shows "R s (snd (until_settled n f s))"
  using assms(2)
proof (induction n arbitrary: s)
  case 0
  show ?case by (simp add: stay)
next
  case (Suc n)
  obtain r t where f: "f s = (r, t)" by force
  show ?case
  proof (cases "r = Inl ErrCounterMoved")
    case True
    with assms(1) f have v: "org_view t = org_view s" by (simp add: moved_untouched_def)
    have "R t (snd (until_settled n f t))" using Suc v by simp
    with True f before [OF v] show ?thesis by (simp add: bindE_run)
  next
    case False
    have "R s t" using Suc.prems [of s] f by simp
    with False f show ?thesis by (auto simp: bindE_run split: sum.split)
  qed
qed

end

lemma guarded_untouched:
  "guarded_tx other g c u s = (Inl ErrCounterMoved, t) \<Longrightarrow> org_view t = org_view s"
proof -
  assume "guarded_tx other g c u s = (Inl ErrCounterMoved, t)"
  then have d: "db_cond (refusal s) (if g s then other else ErrCounterMoved) (\<lambda>s. g s \<and> c s) u (conflicts_update tl s) = (Inl ErrCounterMoved, t)"
    by (simp add: guarded_tx_def bindE_run)
  show ?thesis
  proof (cases "faults s")
    case Nil
    with d show ?thesis by (auto split: if_splits)
  next
    case (Cons a os)
    with d show ?thesis by (cases a) (auto simp: db_cond_def refusal_def split: if_splits)
  qed
qed

lemma untouched_bind:
  assumes "keeps org_view f" and "\<And>x. moved_untouched (g x)"
  shows "moved_untouched (bindE f g)"
  unfolding moved_untouched_def
proof (intro allI impI)
  fix s t assume run: "bindE f g s = (Inl ErrCounterMoved, t)"
  obtain r u where f: "f s = (r, u)" by force
  from keepsD' [OF assms(1) f] have u: "org_view u = org_view s" .
  show "org_view t = org_view s"
  proof (cases r)
    case (Inl e)
    with run f u show ?thesis by simp
  next
    case (Inr x)
    with run f have "g x u = (Inl ErrCounterMoved, t)" by simp
    with assms(2) [of x] u show ?thesis by (simp add: moved_untouched_def)
  qed
qed

lemma untouched_guarded: "moved_untouched (guarded_tx other g c u)"
  unfolding moved_untouched_def using guarded_untouched by blast

lemma untouched_if: "moved_untouched f \<Longrightarrow> moved_untouched g \<Longrightarrow> moved_untouched (if b then f else g)"
  by simp

lemma untouched_put: "moved_untouched (put_invitation iv)"
  unfolding moved_untouched_def
proof (intro allI impI)
  fix s t :: "'x org_db_scheme" assume "put_invitation iv s = (Inl ErrCounterMoved, t)"
  with db_cond_cases [of OrgInfra OrgInfra "\<lambda>_. True" "store_invitation iv" s] show "org_view t = org_view s"
    by (auto simp: put_invitation_def db_write_def)
qed

lemma untouched_create: "moved_untouched (bindE (space_guard u q b) (create_with_owner_guarded g name))"
  unfolding create_with_owner_guarded_def by (rule untouched_bind [OF looks_space(4)]) (rule untouched_guarded)

lemma untouched_transfer: "moved_untouched (transfer_attempt i giver taker demote q)"
  unfolding transfer_attempt_def transfer_ownership_guarded_def
  by (rule untouched_bind [OF looks_space(4)], rule untouched_bind [OF keeps_now], rule untouched_guarded)

lemma untouched_invite: "moved_untouched (invite_attempt g q iv)"
  unfolding invite_attempt_def put_invitation_guarded_def
  by (rule untouched_bind [OF keeps_now], rule untouched_bind [OF looks_space(5)], rule untouched_if [OF untouched_put],
      rule untouched_bind [OF looks_space(6)], rule untouched_guarded)

section \<open>The calls\<close>

text \<open>Every call of the service that may write, with its arguments in the order of the code.\<close>

datatype org_call =
    CreateWorkspace string string string string
  | Rename string string string
  | SetRole string string string string
  | RemoveMember string string string
  | Transfer string string string
  | Invite string string string string "string list"
  | Accept string string string string
  | RevokeInvitation string string string
  | RenameMember string string
  | Reconcile string

fun perform :: "'x org_conf \<Rightarrow> org_call \<Rightarrow> 'x org_db_scheme \<Rightarrow> 'x org_db_scheme" where
  "perform C (CreateWorkspace kind owner name display) s = snd (create_of_kind C kind owner name display s)"
| "perform C (Rename i actor display) s = snd (rename_org i actor display s)"
| "perform C (SetRole i actor target r) s = snd (set_role i actor target r s)"
| "perform C (RemoveMember i actor target) s = snd (remove_member C i actor target s)"
| "perform C (Transfer i actor taker) s = snd (transfer C i actor taker s)"
| "perform C (Invite i actor email r cs) s = snd (invite C i actor email r cs s)"
| "perform C (Accept token uid email name) s = snd (accept C token uid email name s)"
| "perform C (RevokeInvitation i actor email) s = snd (revoke_invitation C i actor email s)"
| "perform C (RenameMember uid name) s = snd (rename_member uid name s)"
| "perform C (Reconcile uid) s = snd (reconcile_space_counter C uid s)"

section \<open>Who may change a role\<close>

definition manages :: "'x org_db_scheme \<Rightarrow> string \<Rightarrow> string \<Rightarrow> string \<Rightarrow> bool" where
  "manages s i actor r \<longleftrightarrow> (\<exists>a. role_at (member_tbl s) i actor = Some a \<and> at_least a RoleAdmin \<and> outranks a r)"

definition offered :: "'x org_conf \<Rightarrow> 'x org_db_scheme \<Rightarrow> string \<Rightarrow> string \<Rightarrow> invitation \<Rightarrow> bool" where
  "offered C s token email iv \<longleftrightarrow> iv \<in> unmarshal_invitation ` set (invite_tbl s) \<and> iv_token_hash iv = hash_token (oc_sha C) token \<and>
     invitation_live iv (clock s) \<and> normalize_email email = normalize_email (iv_email iv)"

text \<open>What entitles a call to give a person in a workspace a new role, or none.\<close>

fun entitled :: "'x org_conf \<Rightarrow> org_call \<Rightarrow> 'x org_db_scheme \<Rightarrow> string \<Rightarrow> string \<Rightarrow> string option \<Rightarrow> bool" where
  "entitled C (CreateWorkspace kind owner name display) s i u r \<longleftrightarrow> org_map s i = None \<and> u = owner \<and> r = Some RoleOwner"
| "entitled C (SetRole j actor target new) s i u r \<longleftrightarrow> i = j \<and> u = target \<and> actor \<noteq> target \<and> r = Some new \<and>
     manages s i actor new \<and> (\<exists>c. role_at (member_tbl s) i target = Some c \<and> manages s i actor c)"
| "entitled C (RemoveMember j actor target) s i u r \<longleftrightarrow> i = j \<and> u = target \<and> r = None \<and>
     (\<exists>c. role_at (member_tbl s) i target = Some c \<and> c \<noteq> RoleOwner \<and> (actor = target \<or> manages s i actor c))"
| "entitled C (Transfer j actor taker) s i u r \<longleftrightarrow> i = j \<and> actor \<noteq> taker \<and> role_at (member_tbl s) i actor = Some RoleOwner \<and>
     (\<exists>g c. org_map s i = Some g \<and> role_at (member_tbl s) i taker = Some c \<and> (kind_of g = KindPersonal \<longrightarrow> c = RoleMember) \<and>
       (u = actor \<and> r = Some (if kind_of g = KindPersonal then RoleMember else RoleAdmin) \<or> u = taker \<and> r = Some RoleOwner))"
| "entitled C (Accept token uid email name) s i u r \<longleftrightarrow> u = uid \<and> role_at (member_tbl s) i u = None \<and>
     (\<exists>iv. offered C s token email iv \<and> iv_org iv = i \<and> r = Some (iv_role iv))"
| "entitled C c s i u r \<longleftrightarrow> False"

definition role_change :: "'x org_conf \<Rightarrow> org_call \<Rightarrow> 'x org_db_scheme \<Rightarrow> 'x org_db_scheme \<Rightarrow> bool" where
  "role_change C c s t \<longleftrightarrow> (\<forall>i u. role_at (member_tbl t) i u = role_at (member_tbl s) i u \<or>
     entitled C c s i u (role_at (member_tbl t) i u))"

lemma entitled_view:
  assumes "org_view t = org_view s" shows "entitled C c t i u r = entitled C c s i u r"
  by (cases c) (simp_all add: manages_def offered_def org_viewD [OF assms])

interpretation rights: viewed_step "role_change C c" for C c
proof unfold_locales
  fix s t v :: "'a org_db_scheme"
  show "blind (org_view :: 'a org_db_scheme \<Rightarrow> _)" by simp
  show "role_change C c s s" by (simp add: role_change_def)
  show "role_change C c s v" if "org_view t = org_view s" "role_change C c t v"
    using that org_viewD [OF that(1)] entitled_view [OF that(1)] by (simp add: role_change_def)
  show "role_change C c s v" if "role_change C c s t" "org_view v = org_view t"
    using that org_viewD [OF that(2)] by (simp add: role_change_def)
qed

lemma rights_same: "member_tbl t = member_tbl s \<Longrightarrow> role_change C c s t"
  by (simp add: role_change_def)

lemma rights_if: "(b \<Longrightarrow> role_change C c s (snd (f s))) \<Longrightarrow> (\<not> b \<Longrightarrow> role_change C c s (snd (g s))) \<Longrightarrow>
    role_change C c s (snd ((if b then f else g) s))"
  by simp

lemma rights_throw [simp]: "role_change C c s (snd (throw e s))" "role_change C c s (snd (ret x s))"
  by (simp_all add: rights.stay)

section \<open>What the reads tell\<close>

lemma db_read_Inr: "db_read e f s = (Inr x, t) \<Longrightarrow> x = f s"
  using db_read_cases [of e f s] by auto

lemma get_membership_Inr: "get_membership i u s = (Inr m, t) \<Longrightarrow> role_at (member_tbl s) i u = Some (om_role m)"
  unfolding get_membership_def found_member_def role_at_def
  by (auto elim!: bindE_InrE dest!: db_read_Inr simp: unmarshal_membership_def split: option.splits)

lemma role_of_Inr: "role_of i u s = (Inr r, t) \<Longrightarrow> role_at (member_tbl s) i u = Some r"
  unfolding role_of_def
  by (auto elim!: bindE_InrE dest!: get_membership_Inr simp: mapErr_run split: prod.splits sum.splits)

lemma repo_get_org_Inr: "repo_get_org i s = (Inr g, t) \<Longrightarrow> \<exists>h. org_map s i = Some h \<and> g = h\<lparr>og_id := i\<rparr>"
  unfolding repo_get_org_def found_org_def org_map_def
  by (auto elim!: bindE_InrE dest!: db_read_Inr split: option.splits)

lemma kind_of_id [simp]: "kind_of (g\<lparr>og_id := i\<rparr>) = kind_of g"
  by (simp add: kind_of_def)

lemma org_kind_of_Inr: "org_kind_of i s = (Inr k, t) \<Longrightarrow> \<exists>g. org_map s i = Some g \<and> k = kind_of g"
  unfolding org_kind_of_def by (auto elim!: bindE_InrE dest!: repo_get_org_Inr)

lemma get_invitation_by_token_Inr:
  "get_invitation_by_token h s = (Inr iv, t) \<Longrightarrow> iv \<in> unmarshal_invitation ` set (invite_tbl s) \<and> iv_token_hash iv = h"
proof -
  assume "get_invitation_by_token h s = (Inr iv, t)"
  then obtain p where p: "List.find (\<lambda>p. iv_token_hash (snd p) = h) (invite_tbl s) = Some p" "iv = unmarshal_invitation p"
    unfolding get_invitation_by_token_def by (auto elim!: bindE_InrE dest!: db_read_Inr split: option.splits)
  moreover have "iv_token_hash (unmarshal_invitation p) = iv_token_hash (snd p)" by (simp add: unmarshal_invitation_def)
  ultimately show ?thesis by (auto dest: find_SomeD)
qed

lemma check_invitation_Inr: "check_invitation C token u email s = (Inr iv, t) \<Longrightarrow> offered C s token email iv"
proof -
  assume "check_invitation C token u email s = (Inr iv, t)"
  then obtain s1 where g: "get_invitation_by_token (hash_token (oc_sha C) token) s = (Inr iv, s1)"
    and c: "invitation_live iv (clock s1)" "normalize_email email = normalize_email (iv_email iv)"
    unfolding check_invitation_def
    by (auto elim!: bindE_InrE simp: mapErr_run split: if_splits prod.splits sum.splits)
  from get_invitation_by_token_Inr [OF g] c keepsD' [OF looks_repo(5) g] show ?thesis
    by (simp add: offered_def org_view_def)
qed

section \<open>The writes\<close>

lemma role_at_put [simp]: "role_at (tput k m tb) i u = (if k = member_key i u then Some (om_role m) else role_at tb i u)"
  by (auto simp: role_at_def)

lemma role_at_del [simp]: "role_at (tdel k tb) i u = (if k = member_key i u then None else role_at tb i u)"
  by (auto simp: role_at_def)

lemma tget_change [simp]:
  "tget (member_tbl (change_member j v f s)) k =
     (if k = member_key j v then map_option f (tget (member_tbl s) k) else tget (member_tbl s) k)"
  by (auto simp: change_member_def split: option.split)

lemma blind_rows [simp]: "blind (not_owner i u)" "blind (transfer_fits i v w)" "blind (member_absent m)" "blind (create_fits g n)"
  "blind (row_expired iv now_s)" "blind (\<lambda>s. has_row (org_tbl s) k)" "blind (\<lambda>s. guard_holds cw (spaces_at u s))"
  by (simp_all add: blind_def not_owner_def transfer_fits_def member_absent_def create_fits_def row_expired_def spaces_at_def)

lemma role_at_set [simp]:
  "role_at (member_tbl (change_member j v (om_role_update (\<lambda>_. r)) s)) i u =
     (if i = j \<and> u = v \<and> role_at (member_tbl s) i u \<noteq> None then Some r else role_at (member_tbl s) i u)"
  by (auto simp: role_at_def)

lemma role_at_rename [simp]:
  "role_at (member_tbl (change_member j v (om_name_update f) s)) i u = role_at (member_tbl s) i u"
  by (auto simp: role_at_def option.map_comp o_def)

lemma looks_env [looks]: "keeps org_view now" "keeps org_view new_uuid" "keeps org_view (generate_random e b)" "keeps org_view (ret x)"
  by (intro keeps_calls; simp)+

lemma rights_option: "(x = None \<Longrightarrow> role_change C c s (snd (f s))) \<Longrightarrow> (\<And>y. x = Some y \<Longrightarrow> role_change C c s (snd (g y s))) \<Longrightarrow>
    role_change C c s (snd ((case x of None \<Rightarrow> f | Some y \<Rightarrow> g y) s))"
  by (cases x) simp_all

lemmas rights_calls = rights_if rights_option rights.bind_look looks rights_throw rights.cond rights.put rights.guarded blind_rows

lemma rights_set_role: "role_change C (SetRole i a v r) s (snd (set_role i a v r s))"
  unfolding set_role_def repo_set_role_def
  by (intro rights_calls)
    (auto dest!: role_of_Inr org_viewD(3) simp: role_change_def manages_def)

lemma rights_leave:
  assumes "\<And>t. org_view t = org_view s \<Longrightarrow> not_owner i v t \<Longrightarrow> role_change C c t (member_tbl_update (tdel (member_key i v)) t)"
  shows "role_change C c s (snd (remove_membership C i v s))"
  unfolding remove_membership_def repo_remove_membership_def
  by (intro rights.bind_then rights.cond looks assms blind_rows)

lemma rights_remove: "role_change C (RemoveMember i a v) s (snd (remove_member C i a v s))"
  unfolding remove_member_def
  by (intro rights_calls rights_leave)
    (auto dest!: role_of_Inr org_viewD(3) simp: role_change_def manages_def)

lemma role_at_create [simp]:
  "role_at (member_tbl (create_items g n s)) i u = (if i = og_id g \<and> u = og_owner g then Some RoleOwner else role_at (member_tbl s) i u)"
  by (auto simp: create_items_def store_member_def membership_item_def owner_membership_def)

lemma member_tbl_counters [simp]: "member_tbl (set_spaces u n s) = member_tbl s" "member_tbl (set_people i n s) = member_tbl s"
  by (simp_all add: set_spaces_def set_people_def)

lemma rights_created: "create_fits g n s \<Longrightarrow> og_owner g = w \<Longrightarrow> role_change C (CreateWorkspace k w m d) s (create_items g n s)"
  by (auto simp: role_change_def create_fits_def org_map_def)

lemma rights_counted: "role_change C c s t \<Longrightarrow> role_change C c s (set_spaces u n t)"
  by (simp add: role_change_def)

lemma rights_create_guarded: "og_owner g = w \<Longrightarrow> role_change C (CreateWorkspace k w m d) s (snd (create_guarded C g n s))"
  unfolding create_guarded_def
  by (intro rights.bind_look rights.retried untouched_create looks)
    (simp add: create_with_owner_guarded_def, intro rights.bind_look rights.guarded looks blind_rows rights_counted rights_created; assumption)

lemma rights_create: "role_change C (CreateWorkspace k w n d) s (snd (create_of_kind C k w n d s))"
  unfolding create_of_kind_def create_with_owner_def Let_def
  by (intro rights_if rights_option rights_throw rights.bind_look [OF looks_env(1)] rights.bind_look [OF looks_env(2)]
      rights.bind_then [where g = "\<lambda>_. bindE (notify n1) h1" for n1 h1] rights.bind_then [where g = "\<lambda>_. ret y" for y]
      rights_create_guarded rights.cond rights_created blind_rows keeps_intros looks)
    (simp_all add: new_organization_def)

lemma role_at_transfer:
  assumes "transfer_fits i v w s" and "demote \<noteq> RoleOwner"
  shows "role_at (member_tbl (transfer_items i v w demote n s)) j u =
    (if j = i \<and> u = v then Some demote else if j = i \<and> u = w then Some RoleOwner else role_at (member_tbl s) j u)"
  using assms unfolding transfer_items_def change_org_def transfer_fits_def not_owner_def
  by (auto split: option.splits simp: role_at_def)

definition demoted :: "organization \<Rightarrow> string" where
  "demoted g = (if kind_of g = KindPersonal then RoleMember else RoleAdmin)"

lemma demoted_not_owner [simp]: "demoted g \<noteq> RoleOwner"
  by (simp add: demoted_def RoleMember_def RoleAdmin_def RoleOwner_def)

lemma rights_transferred:
  assumes "transfer_fits i a w t" and "a \<noteq> w" and "org_map t i = Some g" and "role_at (member_tbl t) i w = Some c"
    and "kind_of g = KindPersonal \<longrightarrow> c = RoleMember"
  shows "role_change C (Transfer i a w) t (transfer_items i a w (demoted g) n t)"
  using assms unfolding role_change_def role_at_transfer [OF assms(1) demoted_not_owner]
  by (auto simp: transfer_fits_def demoted_def)

lemma rights_transfer_guarded:
  fixes s :: "'x org_db_scheme"
  assumes "a \<noteq> w" and "org_map s i = Some g" and "role_at (member_tbl s) i w = Some c" and "kind_of g = KindPersonal \<longrightarrow> c = RoleMember"
  shows "role_change C (Transfer i a w) s (snd (transfer_guarded D i a w (demoted g) s))"
  unfolding transfer_guarded_def
proof (rule rights.bind_look [OF looks_space(3)], rule rights.bind_then, rule rights.retried [OF untouched_transfer])
  fix q and t u :: "'x org_db_scheme" assume v: "org_view t = org_view s" "org_view u = org_view t"
  have "role_change C (Transfer i a w) x (transfer_items i a w (demoted g) n x)" if "org_view x = org_view s" "transfer_fits i a w x" for x n
    using that(2) assms by (intro rights_transferred) (simp_all add: org_viewD [OF that(1)])
  then show "role_change C (Transfer i a w) u (snd (transfer_attempt i a w (demoted g) q u))"
    unfolding transfer_attempt_def transfer_ownership_guarded_def
    by (intro rights.bind_look [OF looks_space(4)] rights.bind_look [OF looks_env(1)] rights.guarded rights_counted blind_rows) (simp add: v)
qed (rule looks)

lemma rights_transfer:
  fixes s :: "'x org_db_scheme"
  shows "role_change C (Transfer i a w) s (snd (transfer C i a w s))"
  unfolding transfer_def
proof (intro rights_if rights_throw rights.bind_look [OF looks_roles(1)] rights.bind_look [OF looks_roles(2)], goal_cases)
  case (1 r t c t1 k t2)
  from 1(6) obtain g where g: "org_map t1 i = Some g" "k = kind_of g" using org_kind_of_Inr by blast
  from role_of_Inr [OF 1(4)] have c: "role_at (member_tbl t) i w = Some c" .
  have d: "(if k = KindPersonal then RoleMember else RoleAdmin) = demoted g" by (simp add: g demoted_def)
  have v: "org_view t2 = org_view s" using 1 by simp
  have e: "org_map t3 i = Some g" "role_at (member_tbl t3) i w = Some c" if "org_view t3 = org_view t2" for t3 :: "'x org_db_scheme"
    using g c org_viewD [OF 1(7)] org_viewD [OF 1(5)] org_viewD [OF that] by simp_all
  show ?case
    unfolding d Let_def transfer_ownership_def using 1 g e
    by (intro rights_if rights_transfer_guarded rights.bind_look [OF looks_env(1)] rights.cond rights_transferred blind_rows) simp_all
qed

lemma members_looked: "keeps org_view f \<Longrightarrow> keeps member_tbl f"
  unfolding keeps_def tracks_def by (auto dest: org_viewD)

lemmas members_look = looks [THEN members_looked]

lemma keeps_until: "keeps \<pi> f \<Longrightarrow> keeps \<pi> (until_settled n f)"
  by (induction n) (simp_all add: keeps_intros keeps_sum)

lemma keeps_guarded:
  "blind \<pi> \<Longrightarrow> (\<And>f s. \<pi> (conflicts_update f s) = \<pi> s) \<Longrightarrow> (\<And>s. \<pi> (u s) = \<pi> s) \<Longrightarrow> keeps \<pi> (guarded_tx other g c u)"
  unfolding guarded_tx_def by (intro keeps_calls) (simp_all add: keeps_def tracks_def)

lemma blind_member_tbl [simp]: "blind member_tbl"
  by (simp add: blind_def)

lemma members_change_org [simp]: "member_tbl (change_org i f s) = member_tbl s" "member_tbl (store_invitation iv s) = member_tbl s"
  by (simp_all add: change_org_def store_invitation_def)

lemma members_offer: "keeps member_tbl (send_offer C iv)"
  unfolding send_offer_def invite_guarded_def invite_attempt_def put_invitation_def put_invitation_guarded_def
  by (intro keeps_calls keeps_until keeps_guarded members_look; simp)

lemma rights_kept: "keeps member_tbl f \<Longrightarrow> role_change C c s (snd (f s))"
  by (rule rights_same) (rule keepsD)

lemma rights_rest:
  "role_change C (Rename i a d) s (snd (rename_org i a d s))"
  "role_change C (Invite i a e r cs) s (snd (invite C i a e r cs s))"
  "role_change C (RevokeInvitation i a e) s (snd (revoke_invitation C i a e s))"
  "role_change C (Reconcile w) s (snd (reconcile_space_counter C w s))"
  unfolding rename_org_def update_display_name_def invite_def revoke_invitation_def delete_invitation_def Let_def
  by (intro rights_kept keeps_calls members_offer members_look; simp)+

lemma roles_renamed: "keeps (\<lambda>s. role_at (member_tbl s)) (rename_member w n)"
  unfolding rename_member_def repo_rename_member_def rename_one_def repo_list_for_user_def
  by (intro keeps_calls; simp add: blind_def fun_eq_iff)

lemma rights_rename_member: "role_change C (RenameMember w n) s (snd (rename_member w n s))"
  using keepsD [OF roles_renamed, of w n s] by (simp add: role_change_def)

lemma rights_joined:
  "offered C s token e iv \<Longrightarrow> member_absent (joining iv w n m) s \<Longrightarrow>
   role_change C (Accept token w e d) s (invite_tbl_update f (store_member (joining iv w n m) s))"
  by (auto simp: role_change_def store_member_def membership_item_def joining_def member_absent_def role_at_def)

lemma rights_accept: "tame_granter C \<Longrightarrow> role_change C (Accept token w e d) s (snd (accept C token w e d s))"
  unfolding accept_def join_def accept_invitation_def Let_def
proof (rule rights.bind_look [OF looks_check], rule rights.bind_look [OF looks_env(1)], goal_cases)
  case (1 iv t n t1)
  have o: "offered C t2 token e iv" if "org_view t2 = org_view t1" for t2
    using check_invitation_Inr [OF 1(2)] org_viewD [OF that] org_viewD [OF 1(5)] org_viewD [OF 1(3)] by (simp add: offered_def)
  show ?case
    using 1(1) o by (intro rights.bind_then rights.cond rights_joined blind_rows keeps_intros looks looks_grants) simp_all
qed

text \<open>Claim C9. Nobody gets, keeps or loses a role but by the rules. Whatever call of the service is made by whomever,
  whatever calls of the database fail or lose their answer, and whatever the plan allows, a person's role in
  a workspace changes only in these ways: the creator of a new workspace becomes its owner; somebody with
  at least the admin role gives another member a role, and outranks the member's old role and the new one;
  a member who is not the owner leaves, or is removed by such a person; the owner hands the workspace to a member,
  who in a space must have full access, and steps down one rung; a person without a role joins with a live
  invitation to the own address, in the role it offers.\<close>

theorem roles_change_by_right:
  assumes "tame_granter C" and "role_at (member_tbl (perform C c s)) i u \<noteq> role_at (member_tbl s) i u"
  shows "entitled C c s i u (role_at (member_tbl (perform C c s)) i u)"
proof -
  have "role_change C c s (perform C c s)"
    using assms(1) by (cases c) (simp_all add: rights_create rights_set_role rights_remove rights_transfer rights_accept
      rights_rest rights_rename_member)
  with assms(2) show ?thesis unfolding role_change_def by blast
qed

section \<open>Addresses\<close>

lemma space_code: "is_space c \<Longrightarrow> (of_char c :: nat) \<le> 32"
  by (auto simp: is_space_def)

lemma space_lower [simp]: "is_space (lower_char c) = is_space c"
proof (cases "65 \<le> (of_char c :: nat) \<and> (of_char c :: nat) \<le> 90")
  case True
  then have "(of_char (lower_char c) :: nat) = of_char c + 32" by (simp add: lower_char_def of_char_of)
  with True space_code [of c] space_code [of "lower_char c"] show ?thesis by auto
next
  case False
  then have "lower_char c = c" unfolding lower_char_def Let_def by (rule if_not_P)
  then show ?thesis by simp
qed

lemma drop_lower: "dropWhile is_space (to_lower w) = to_lower (dropWhile is_space w)"
  by (simp add: to_lower_def dropWhile_map comp_def)

lemma trim_lower: "trim_space (to_lower w) = to_lower (trim_space w)"
proof -
  have r: "rev (to_lower x) = to_lower (rev x)" for x by (simp add: to_lower_def rev_map)
  show ?thesis by (simp add: trim_space_def drop_lower r)
qed

lemma drop_trimmed: "dropWhile P (rev (dropWhile P (rev (dropWhile P w)))) = rev (dropWhile P (rev (dropWhile P w)))"
proof (cases "dropWhile P w")
  case (Cons c y)
  then have "\<not> P c" by (metis dropWhile_eq_Cons_conv)
  then have "rev (dropWhile P (rev (c # y))) = c # rev (dropWhile P (rev y))"
    by (cases "\<forall>x\<in>set y. P x") (auto simp: dropWhile_append dropWhile_eq_Nil_conv)
  with Cons \<open>\<not> P c\<close> show ?thesis by simp
next
  case Nil
  show ?thesis unfolding Nil by simp
qed

lemma trim_idem [simp]: "trim_space (trim_space w) = trim_space w"
  unfolding trim_space_def drop_trimmed by simp

lemma normalize_email_idem [simp]: "normalize_email (normalize_email e) = normalize_email e"
  by (simp add: normalize_email_def trim_lower)

section \<open>Invitations within reach\<close>

lemma set_tput: "x \<in> set (tput k v tb) \<Longrightarrow> x = (k, v) \<or> x \<in> set tb"
  unfolding tput_def by (induction tb) (auto split: if_splits)

lemma set_tdel: "x \<in> set (tdel k tb) \<Longrightarrow> x \<in> set tb"
  by (simp add: tdel_def)

text \<open>A new row is the offer of the call: in the workspace and to the address it names, in a role that the
  inviter outranks and the kind of the workspace has, and it stands for a week at most.\<close>

fun invited :: "org_call \<Rightarrow> 'x org_db_scheme \<Rightarrow> key \<times> invitation \<Rightarrow> bool" where
  "invited (Invite i actor email r cs) s x \<longleftrightarrow> manages s i actor r \<and> is_grantable_role r \<and>
     ((\<exists>g. org_map s i = Some g \<and> kind_of g = KindPersonal) \<longrightarrow> r \<noteq> RoleAdmin) \<and>
     fst x = invite_key i email \<and> iv_role (snd x) = r \<and> iv_invited_by (snd x) = actor \<and> iv_companies (snd x) = cs \<and>
     iv_expires_at (snd x) \<le> clock s + invitationTTL"
| "invited c s x \<longleftrightarrow> False"

definition invite_change :: "org_call \<Rightarrow> 'x org_db_scheme \<Rightarrow> 'x org_db_scheme \<Rightarrow> bool" where
  "invite_change c s t \<longleftrightarrow> (\<forall>x\<in>set (invite_tbl t). x \<in> set (invite_tbl s) \<or> invited c s x)"

lemma invited_view:
  assumes "org_view t = org_view s" shows "invited c t x = invited c s x"
  by (cases c) (simp_all add: manages_def org_viewD [OF assms])

interpretation offers: viewed_step "invite_change c" for c
proof unfold_locales
  fix s t v :: "'a org_db_scheme"
  show "blind (org_view :: 'a org_db_scheme \<Rightarrow> _)" by simp
  show "invite_change c s s" by (simp add: invite_change_def)
  show "invite_change c s v" if "org_view t = org_view s" "invite_change c t v"
    using that org_viewD [OF that(1)] invited_view [OF that(1)] by (simp add: invite_change_def)
  show "invite_change c s v" if "invite_change c s t" "org_view v = org_view t"
    using that org_viewD [OF that(2)] by (simp add: invite_change_def)
qed

lemma offers_if: "(b \<Longrightarrow> invite_change c s (snd (f s))) \<Longrightarrow> (\<not> b \<Longrightarrow> invite_change c s (snd (g s))) \<Longrightarrow>
    invite_change c s (snd ((if b then f else g) s))"
  by simp

lemma offers_option: "(x = None \<Longrightarrow> invite_change c s (snd (f s))) \<Longrightarrow> (\<And>y. x = Some y \<Longrightarrow> invite_change c s (snd (g y s))) \<Longrightarrow>
    invite_change c s (snd ((case x of None \<Rightarrow> f | Some y \<Rightarrow> g y) s))"
  by (cases x) simp_all

lemma offers_throw [simp]: "invite_change c s (snd (throw e s))" "invite_change c s (snd (ret x s))"
  by (simp_all add: offers.stay)

lemma org_kind_of_Inl: "org_kind_of i s = (Inl ErrOrgNotFound, t) \<Longrightarrow> org_map s i = None"
proof -
  assume a: "org_kind_of i s = (Inl ErrOrgNotFound, t)"
  obtain r u where d: "db_read OrgInfra (\<lambda>s. tget (org_tbl s) (org_key i)) s = (r, u)" by force
  from d db_read_cases [of OrgInfra "\<lambda>s. tget (org_tbl s) (org_key i)" s]
  have "r = Inr (tget (org_tbl s) (org_key i)) \<or> r = Inl OrgInfra" by auto
  with a d show ?thesis
    by (auto simp: org_kind_of_def repo_get_org_def bindE_run found_org_def org_map_def split: option.splits)
qed

lemma require_grantable_Inr:
  assumes "require_grantable_in i r s = (Inr x, t)" and "org_map s i = Some g"
  shows "is_grantable_role_in (kind_of g) r"
proof -
  obtain k u where k: "org_kind_of i s = (k, u)" by force
  show ?thesis
  proof (cases k)
    case (Inl e)
    with k assms org_kind_of_Inl [of i s u] show ?thesis
      by (auto simp: require_grantable_in_def bindE_run split: if_splits)
  next
    case (Inr kind)
    with k org_kind_of_Inr [of i s kind u] assms show ?thesis
      by (auto simp: require_grantable_in_def bindE_run split: if_splits)
  qed
qed

lemma blind_invites [simp]: "blind invite_tbl"
  by (simp add: blind_def)

lemma invites_other [simp]:
  "invite_tbl (change_org i f s) = invite_tbl s" "invite_tbl (change_member i v h s) = invite_tbl s"
  "invite_tbl (store_member m s) = invite_tbl s" "invite_tbl (create_items g n s) = invite_tbl s"
  "invite_tbl (transfer_items i v w d k s) = invite_tbl s" "invite_tbl (set_spaces w c s) = invite_tbl s"
  "invite_tbl (set_people i c s) = invite_tbl s"
  by (simp_all add: change_org_def change_member_def store_member_def create_items_def transfer_items_def set_spaces_def set_people_def)

lemma invites_looked: "keeps org_view f \<Longrightarrow> keeps invite_tbl f"
  unfolding keeps_def tracks_def by (auto dest: org_viewD)

lemma offers_kept: "keeps invite_tbl f \<Longrightarrow> invite_change c s (snd (f s))"
  using keepsD [of invite_tbl f s] by (simp add: invite_change_def)

lemmas invites_look = looks [THEN invites_looked]

lemma offers_create_of_kind: "keeps invite_tbl (create_of_kind C k w n d)"
  unfolding create_of_kind_def create_with_owner_def create_guarded_def create_with_owner_guarded_def Let_def
  by (intro keeps_calls keeps_until keeps_guarded invites_look; simp)

lemma offers_rename_org: "keeps invite_tbl (rename_org i a d)"
  unfolding rename_org_def update_display_name_def Let_def
  by (intro keeps_calls keeps_until keeps_guarded invites_look; simp)

lemma offers_set_role: "keeps invite_tbl (set_role i a v r)"
  unfolding set_role_def repo_set_role_def Let_def
  by (intro keeps_calls keeps_until keeps_guarded invites_look; simp)

lemma offers_remove_member: "keeps invite_tbl (remove_member C i a v)"
  unfolding remove_member_def remove_membership_def repo_remove_membership_def
  by (intro keeps_calls invites_look looks; simp)

lemma offers_transfer: "keeps invite_tbl (transfer C i a w)"
  unfolding transfer_def transfer_ownership_def transfer_guarded_def transfer_attempt_def transfer_ownership_guarded_def Let_def
  by (intro keeps_calls keeps_until keeps_guarded invites_look; simp)

lemma offers_rename_member: "keeps invite_tbl (rename_member w n)"
  unfolding rename_member_def repo_rename_member_def rename_one_def Let_def
  by (intro keeps_calls keeps_until keeps_guarded invites_look; simp)

lemma offers_reconcile_space_counter: "keeps invite_tbl (reconcile_space_counter C w)"
  by (intro keeps_calls keeps_until keeps_guarded invites_look; simp)


lemma offers_stored:
  "invited c s (invitation_item iv) \<Longrightarrow> invite_change c s (store_invitation iv s)"
  by (cases "invitation_item iv") (auto simp: invite_change_def store_invitation_def dest!: set_tput)

lemma offers_counted: "invite_change c s t \<Longrightarrow> invite_change c s (set_people i n t)"
  by (simp add: invite_change_def)

lemma blind_people [simp]: "blind (\<lambda>s. has_row (org_tbl s) k \<and> guard_holds w (people_at i s))"
  by (simp add: blind_def people_at_def)

lemma offers_attempt:
  fixes s :: "'x org_db_scheme"
  assumes "\<And>t :: 'x org_db_scheme. org_view t = org_view s \<Longrightarrow> invited c t (invitation_item iv)"
  shows "invite_change c s (snd (invite_attempt g q iv s))"
  unfolding invite_attempt_def put_invitation_def put_invitation_guarded_def
  by (intro offers.bind_look [OF looks_env(1)] offers.bind_look [OF looks_space(5)] offers.bind_look [OF looks_space(6)] offers_if
      offers.put offers.guarded offers_counted offers_stored blind_rows blind_people assms) simp_all

lemma offers_guarded:
  fixes s :: "'x org_db_scheme"
  assumes "\<And>t :: 'x org_db_scheme. org_view t = org_view s \<Longrightarrow> invited c t (invitation_item iv)"
  shows "invite_change c s (snd (invite_guarded C g iv s))"
  unfolding invite_guarded_def
  by (intro offers.bind_look [OF looks_space(3)] offers.retried [OF untouched_invite] offers_attempt assms) simp_all

lemma offers_offer:
  fixes s :: "'x org_db_scheme"
  assumes "\<And>t :: 'x org_db_scheme. org_view t = org_view s \<Longrightarrow> invited c t (invitation_item iv)"
  shows "invite_change c s (snd (send_offer C iv s))"
  unfolding send_offer_def put_invitation_def
  by (intro offers.bind_look [OF looks_space(7)] offers_option offers.bind_then offers_guarded offers.put offers_stored assms
      keeps_intros looks) simp_all

lemma expiry_stored: "parse_time (ts n) \<le> n"
  by (rule parse_time_ts)

lemma offers_invite: "invite_change (Invite i a e r cs) s (snd (invite C i a e r cs s))"
  unfolding invite_def Let_def
proof (intro offers_if offers_throw offers.bind_look [OF looks_roles(4)] offers.bind_look [OF looks_roles(5)]
    offers.bind_look [OF looks_roles(1)] offers.bind_look [OF looks_env(3)] offers.bind_look [OF looks_env(1)] offers.bind_then [OF _ looks_env(4)]
    offers_offer, goal_cases)
  case (1 x t y t1 ra t2 raw t3 n t4 t5)
  have v: "org_view t = org_view s" "org_view t1 = org_view s" "org_view t5 = org_view s" "n = clock s"
    using 1 by (auto simp: now_def org_view_def)
  have "is_grantable_role_in (kind_of g) r" if "org_map s i = Some g" for g
    using require_grantable_Inr [OF 1(3) that] .
  then have k: "(\<exists>g. org_map s i = Some g \<and> kind_of g = KindPersonal) \<longrightarrow> r \<noteq> RoleAdmin"
    by (auto simp: is_grantable_role_in_def)
  have "role_at (member_tbl s) i a = Some ra" using role_of_Inr [of i a t1 ra t2] 1 org_viewD [OF v(2)] by simp
  then have "manages s i a r" using 1 by (simp add: manages_def)
  then show ?case
    using 1 k org_viewD [OF v(3)] expiry_stored [of "n + invitationTTL"]
    by (simp add: offer_def invitation_item_def manages_def v(4) invite_sk_def)
qed

lemma invites_renamed: "tame_granter C \<Longrightarrow> invite_change c s (snd (join C iv w n s))"
  unfolding join_def accept_invitation_def Let_def
  by (intro offers.bind_look [OF looks_env(1)] offers.bind_then offers.cond keeps_intros looks looks_grants)
    (auto simp: invite_change_def dest!: set_tdel)

lemma offers_rest:
  "tame_granter C \<Longrightarrow> invite_change c s (snd (accept C token w e n s))"
  "invite_change c s (snd (revoke_invitation C i a e s))"
  unfolding accept_def revoke_invitation_def delete_invitation_def
  by (intro offers.bind_look [OF looks_check] invites_renamed; assumption)
    (intro offers.bind_look [OF looks_roles(3)] offers.bind_look [OF looks_space(7)] offers.bind_look [OF looks_space(10)] offers.bind_then
      offers.put keeps_calls looks; auto simp: invite_change_def dest!: set_tdel)

text \<open>Claim C11. Nobody invites above the own reach. Whatever calls fail, an invitation is stored only by the call that offers
  it, made by a member with at least the admin role who outranks the role it offers; the role is never
  owner, nor admin in a space, the row is that of the workspace and the address named, and it is good for
  a week at most.\<close>

theorem invitations_within_reach:
  assumes "tame_granter C" and "x \<in> set (invite_tbl (perform C c s))" and "x \<notin> set (invite_tbl s)"
  shows "invited c s x"
proof -
  have "invite_change c s (perform C c s)"
    using assms(1) by (cases c) (simp_all add: offers_invite offers_rest offers_kept offers_create_of_kind offers_rename_org
      offers_set_role offers_remove_member offers_transfer offers_rename_member offers_reconcile_space_counter)
  with assms(2,3) show ?thesis unfolding invite_change_def by blast
qed

section \<open>One owner\<close>

text \<open>The people with the owner role in a workspace are the one its row names; and no invitation offers it.\<close>

definition one_owner :: "'x org_db_scheme \<Rightarrow> bool" where
  "one_owner s \<longleftrightarrow> (\<forall>i. {u. role_at (member_tbl s) i u = Some RoleOwner} = set_option (map_option og_owner (org_map s i)))"

definition org_ok :: "'x org_db_scheme \<Rightarrow> bool" where
  "org_ok s \<longleftrightarrow> (\<forall>i u. role_at (member_tbl s) i u = Some RoleOwner \<longleftrightarrow> (\<exists>g. org_map s i = Some g \<and> og_owner g = u)) \<and>
     (\<forall>x\<in>set (invite_tbl s). iv_role (snd x) \<noteq> RoleOwner)"

lemma org_ok_one_owner: "org_ok s \<Longrightarrow> one_owner s"
  unfolding org_ok_def one_owner_def by (auto simp: elem_set)

text \<open>Roles change by right and the rows of the workspaces follow, so the owner stays the one person the row names.\<close>

definition owner_follows :: "'x org_db_scheme \<Rightarrow> 'x org_db_scheme \<Rightarrow> bool" where
  "owner_follows s t \<longleftrightarrow> (org_ok s \<longrightarrow> org_ok t)"

lemma org_ok_view: assumes "org_view t = org_view s" shows "org_ok t = org_ok s"
  by (simp add: org_ok_def org_viewD [OF assms])

interpretation owners: viewed_step owner_follows
  unfolding owner_follows_def by unfold_locales (simp, simp, (metis org_ok_view)+)

lemma owners_if: "(b \<Longrightarrow> owner_follows s (snd (f s))) \<Longrightarrow> (\<not> b \<Longrightarrow> owner_follows s (snd (g s))) \<Longrightarrow>
    owner_follows s (snd ((if b then f else g) s))"
  by simp

lemma owners_option: "(x = None \<Longrightarrow> owner_follows s (snd (f s))) \<Longrightarrow> (\<And>y. x = Some y \<Longrightarrow> owner_follows s (snd (g y s))) \<Longrightarrow>
    owner_follows s (snd ((case x of None \<Rightarrow> f | Some y \<Rightarrow> g y) s))"
  by (cases x) simp_all

lemma owners_throw [simp]: "owner_follows s (snd (throw e s))" "owner_follows s (snd (ret x s))"
  by (simp_all add: owners.stay)

lemma org_map_members [simp]: "org_map (change_member i v f s) = org_map s" "org_map (store_member m s) = org_map s"
  "org_map (store_invitation iv s) = org_map s"
  by (simp_all add: change_member_def store_member_def store_invitation_def)

lemma org_map_change [simp]: "org_map (change_org i f s) j = (if j = i then map_option f (org_map s i) else org_map s j)"
  by (auto simp: org_map_def change_org_def split: option.splits org_item.splits)

lemma org_map_create [simp]: "org_map (create_items g n s) j = (if j = og_id g then Some (g\<lparr>og_id := []\<rparr>) else org_map s j)"
  by (simp add: create_items_def) (auto simp: org_map_def)

lemma org_map_transfer [simp]:
  "org_map (transfer_items i v w d n s) j =
     (if j = i then map_option (\<lambda>g. g\<lparr>og_owner := w, og_updated_at := n\<rparr>) (org_map s i) else org_map s j)"
  by (simp add: transfer_items_def)

lemma org_okD: "org_ok s \<Longrightarrow> org_map s i = Some g \<Longrightarrow> role_at (member_tbl s) i (og_owner g) = Some RoleOwner"
  "org_ok s \<Longrightarrow> role_at (member_tbl s) i u = Some RoleOwner \<Longrightarrow> \<exists>g. org_map s i = Some g \<and> og_owner g = u"
  by (auto simp: org_ok_def)

lemma not_ownerD: "not_owner i v s \<Longrightarrow> role_at (member_tbl s) i v \<noteq> Some RoleOwner"
  by (auto simp: not_owner_def split: option.splits)

lemma org_okI:
  "(\<And>i u. role_at (member_tbl s) i u = Some RoleOwner \<Longrightarrow> \<exists>g. org_map s i = Some g \<and> og_owner g = u) \<Longrightarrow>
   (\<And>i g. org_map s i = Some g \<Longrightarrow> role_at (member_tbl s) i (og_owner g) = Some RoleOwner) \<Longrightarrow>
   (\<And>x. x \<in> set (invite_tbl s) \<Longrightarrow> iv_role (snd x) \<noteq> RoleOwner) \<Longrightarrow> org_ok s"
  by (auto simp: org_ok_def)

lemma create_fits_None: "create_fits g n s \<Longrightarrow> org_map s (og_id g) = None"
  by (simp add: create_fits_def org_map_def)

lemma owners_created: "create_fits g n s \<Longrightarrow> owner_follows s (create_items g n s)"
  unfolding owner_follows_def
proof (intro impI org_okI, goal_cases)
  case (1 i u)
  with create_fits_None [OF 1(1)] org_okD(2) [OF 1(2), of i u] show ?case by (auto split: if_splits)
next
  case (2 i h)
  then show ?case by (auto dest: org_okD split: if_splits)
qed (auto simp: org_ok_def)

lemma owners_role: "not_owner i v s \<Longrightarrow> r \<noteq> RoleOwner \<Longrightarrow> owner_follows s (change_member i v (om_role_update (\<lambda>_. r)) s)"
  unfolding owner_follows_def
proof (intro impI org_okI, goal_cases)
  case (1 j u)
  then show ?case by (auto dest: org_okD split: if_splits)
next
  case (2 j h)
  then show ?case using org_okD(1) [OF 2(3), of j h] by (auto dest: not_ownerD)
qed (auto simp: org_ok_def)

lemma owners_left: "not_owner i v s \<Longrightarrow> owner_follows s (member_tbl_update (tdel (member_key i v)) s)"
  unfolding owner_follows_def
proof (intro impI org_okI, goal_cases)
  case (1 j u)
  then show ?case by (auto dest: org_okD split: if_splits)
next
  case (2 j h)
  then show ?case using org_okD(1) [OF 2(2), of j h] by (auto dest: not_ownerD)
qed (auto simp: org_ok_def)

lemma owners_transferred:
  assumes "transfer_fits i v w s" and "d \<noteq> RoleOwner"
  shows "owner_follows s (transfer_items i v w d n s)"
  unfolding owner_follows_def
proof (intro impI org_okI, unfold role_at_transfer [OF assms], goal_cases)
  case (1 j u)
  have "role_at (member_tbl s) i v = Some RoleOwner" using assms(1) by (simp add: transfer_fits_def)
  from org_okD(2) [OF 1(1) this] obtain g where "org_map s i = Some g" "og_owner g = v" by blast
  with 1 assms(2) org_okD(2) [OF 1(1), of j u] show ?case by (auto split: if_splits)
next
  case (2 j h)
  have v: "role_at (member_tbl s) i v = Some RoleOwner" "role_at (member_tbl s) i w \<noteq> Some RoleOwner"
    using assms(1) by (auto simp: transfer_fits_def dest: not_ownerD)
  with 2 org_okD(1) [OF 2(1), of j] show ?case by (auto split: if_splits)
qed (auto simp: org_ok_def transfer_items_def)

lemma owners_stored: "iv_role iv \<noteq> RoleOwner \<Longrightarrow> owner_follows s (store_invitation iv s)"
  by (auto simp: owner_follows_def org_ok_def store_invitation_def invitation_item_def dest!: set_tput)

lemma owners_counted: "owner_follows s t \<Longrightarrow> owner_follows s (set_spaces w n t)" "owner_follows s t \<Longrightarrow> owner_follows s (set_people i n t)"
  by (simp_all add: owner_follows_def org_ok_def)

lemma grantable_not_owner: "is_grantable_role r \<Longrightarrow> r \<noteq> RoleOwner"
  by (auto simp: is_grantable_role_def RoleOwner_def RoleAdmin_def RoleMember_def RoleViewer_def)

lemma owners_joined:
  "offered C s token e iv \<Longrightarrow> member_absent (joining iv w n m) s \<Longrightarrow>
   owner_follows s (invite_tbl_update (tdel k) (store_member (joining iv w n m) s))"
  unfolding owner_follows_def
proof (intro impI org_okI, goal_cases)
  case (1 i u)
  have "iv_role iv \<noteq> RoleOwner" using 1(1,3) by (auto simp: offered_def org_ok_def unmarshal_invitation_def)
  with 1 org_okD(2) [OF 1(3), of i u] show ?case by (auto simp: store_member_def membership_item_def joining_def split: if_splits)
next
  case (2 i g)
  have "role_at (member_tbl s) (iv_org iv) w = None" using 2(2) by (simp add: member_absent_def joining_def role_at_def)
  with 2 org_okD(1) [OF 2(3), of i g] show ?case by (auto simp: store_member_def membership_item_def joining_def)
qed (auto simp: org_ok_def store_member_def dest!: set_tdel)

lemma owners_transfer_guarded: "d \<noteq> RoleOwner \<Longrightarrow> owner_follows s (snd (transfer_guarded C i v w d s))"
  unfolding transfer_guarded_def
  by (intro owners.bind_look [OF looks_space(3)] owners.bind_then owners.retried [OF untouched_transfer] looks)
    (simp only: transfer_attempt_def transfer_ownership_guarded_def, intro owners.bind_look [OF looks_space(4)]
      owners.bind_look [OF looks_env(1)] owners.guarded owners_counted owners_transferred blind_rows; assumption)

lemma owners_create_guarded: "owner_follows s (snd (create_guarded C g n s))"
  unfolding create_guarded_def
  by (intro owners.bind_look [OF looks_space(3)] owners.retried [OF untouched_create])
    (rule owners.bind_look [OF looks_space(4)], simp only: create_with_owner_guarded_def, intro owners.guarded owners_counted
      owners_created blind_rows; assumption)

lemma owners_invite_guarded: "iv_role iv \<noteq> RoleOwner \<Longrightarrow> owner_follows s (snd (invite_guarded C g iv s))"
  unfolding invite_guarded_def
  by (intro owners.bind_look [OF looks_space(3)] owners.retried [OF untouched_invite])
    (simp only: invite_attempt_def put_invitation_def put_invitation_guarded_def, intro owners.bind_look [OF looks_env(1)]
      owners.bind_look [OF looks_space(5)] owners.bind_look [OF looks_space(6)] owners_if owners.put owners.guarded owners_counted
      owners_stored blind_rows blind_people; assumption)

lemma owners_offer: "iv_role iv \<noteq> RoleOwner \<Longrightarrow> owner_follows s (snd (send_offer C iv s))"
  unfolding send_offer_def put_invitation_def
  by (intro owners.bind_look [OF looks_space(7)] owners_option owners.bind_then owners_invite_guarded owners.put owners_stored
      keeps_intros looks)

lemma owners_create: "owner_follows s (snd (create_of_kind C k w n d s))"
  unfolding create_of_kind_def create_with_owner_def Let_def
  by (intro owners_if owners_option owners_throw owners.bind_look [OF looks_env(1)] owners.bind_look [OF looks_env(2)]
      owners.bind_then [where g = "\<lambda>_. bindE (notify n1) h1" for n1 h1] owners.bind_then [where g = "\<lambda>_. ret y" for y]
      owners_create_guarded owners.cond owners_created blind_rows keeps_intros looks)

lemma owners_set_role: "owner_follows s (snd (set_role i a v r s))"
  unfolding set_role_def repo_set_role_def
  by (intro owners_if owners.bind_look looks owners_throw owners.cond blind_rows owners_role) (simp_all add: grantable_not_owner)

lemma owners_remove: "owner_follows s (snd (remove_member C i a v s))"
  unfolding remove_member_def remove_membership_def repo_remove_membership_def
  by (intro owners_if owners.bind_look [OF looks_roles(1)] owners_throw owners.bind_then owners.cond blind_rows owners_left looks)

lemma owners_transfer: "owner_follows s (snd (transfer C i a w s))"
  unfolding transfer_def transfer_ownership_def Let_def
  by (intro owners_if owners.bind_look [OF looks_roles(1)] owners.bind_look [OF looks_roles(2)] owners.bind_look [OF looks_env(1)]
      owners_throw owners.cond blind_rows owners_transferred owners_transfer_guarded)
    (simp_all add: RoleOwner_def RoleAdmin_def RoleMember_def)

lemma owners_invite: "owner_follows s (snd (invite C i a e r cs s))"
  unfolding invite_def Let_def
  by (intro owners_if owners_throw owners.bind_look [OF looks_roles(4)] owners.bind_look [OF looks_roles(5)]
    owners.bind_look [OF looks_roles(1)] owners.bind_look [OF looks_env(3)] owners.bind_look [OF looks_env(1)]
    owners.bind_then [OF _ looks_env(4)] owners_offer) (simp_all add: offer_def grantable_not_owner)

lemma owners_accept: "tame_granter C \<Longrightarrow> owner_follows s (snd (accept C token w e d s))"
  unfolding accept_def join_def accept_invitation_def Let_def
proof (rule owners.bind_look [OF looks_check], rule owners.bind_look [OF looks_env(1)], goal_cases)
  case (1 iv t n t1)
  have o: "offered C t2 token e iv" if "org_view t2 = org_view t1" for t2
    using check_invitation_Inr [OF 1(2)] org_viewD [OF that] org_viewD [OF 1(5)] org_viewD [OF 1(3)] by (simp add: offered_def)
  show ?case
    using 1(1) o by (intro owners.bind_then owners.cond owners_joined blind_rows keeps_intros looks looks_grants)
qed

lemma owners_revoke: "owner_follows s (snd (revoke_invitation C i a e s))"
  unfolding revoke_invitation_def delete_invitation_def
  by (intro owners.bind_look [OF looks_roles(3)] owners.bind_look [OF looks_space(7)] owners.bind_look [OF looks_space(10)] owners.bind_then
      owners.put keeps_calls looks) (auto simp: owner_follows_def org_ok_def dest!: set_tdel)

lemma owners_retitled: "(\<And>g. og_owner (f g) = og_owner g) \<Longrightarrow> owner_follows s (change_org i f s)"
  unfolding owner_follows_def
proof (intro impI org_okI, goal_cases)
  case (1 j u)
  then show ?case using org_okD(2) [OF 1(2), of j u] by auto
next
  case (2 j g)
  then show ?case by (auto dest: org_okD split: if_splits)
qed (auto simp: org_ok_def)

lemma owners_rename: "owner_follows s (snd (rename_org i a d s))"
  unfolding rename_org_def update_display_name_def Let_def
  by (intro owners_if owners_throw owners.bind_look [OF looks_roles(3)] owners.bind_look [OF looks_env(1)] owners.cond blind_rows
      owners_retitled) simp

lemma owners_rename_member: "owner_follows s (snd (rename_member w n s))"
proof -
  have "keeps (\<lambda>s. (role_at (member_tbl s), org_map s, invite_tbl s)) (rename_member w n)"
    unfolding rename_member_def repo_rename_member_def rename_one_def repo_list_for_user_def
    by (intro keeps_calls; simp add: blind_def fun_eq_iff)
  from keepsD [OF this, of s] show ?thesis by (simp add: owner_follows_def org_ok_def)
qed

lemma owners_perform: "tame_granter C \<Longrightarrow> owner_follows s (perform C c s)"
  by (cases c) (simp_all add: owners_create owners_set_role owners_remove owners_transfer owners_invite owners_accept owners_revoke
    owners_rename owners_rename_member owners.look looks)

text \<open>A run: calls of anybody, in any order, and the passing of time.\<close>

inductive org_step :: "'x org_conf \<Rightarrow> 'x org_db_scheme \<Rightarrow> 'x org_db_scheme \<Rightarrow> bool" for C where
  call: "org_step C s (perform C c s)"
| tick: "clock s \<le> n \<Longrightarrow> org_step C s (s\<lparr>clock := n\<rparr>)"

lemma run_ok: "(org_step C)\<^sup>*\<^sup>* s t \<Longrightarrow> tame_granter C \<Longrightarrow> org_ok s \<Longrightarrow> org_ok t"
proof (induction rule: rtranclp_induct)
  case (step t u)
  from step(2) show ?case
  proof cases
    case (call c)
    with owners_perform [OF step(4), of t c] step(3-5) show ?thesis by (simp add: owner_follows_def)
  next
    case (tick n)
    with step(3-5) show ?thesis by (simp add: org_ok_def)
  qed
qed

text \<open>Claim C8. One owner, always. In every run that starts without workspaces, whatever calls fail or lose their
  answer, the people with the owner role in a workspace are exactly the one person its row names; nobody
  owns a workspace that does not exist, and no invitation offers the owner role.\<close>

theorem every_workspace_has_one_owner:
  assumes "(org_step C)\<^sup>*\<^sup>* s t" and "tame_granter C" and "member_tbl s = []" and "invite_tbl s = []" and "org_tbl s = []"
  shows "one_owner t \<and> (\<forall>x\<in>set (invite_tbl t). iv_role (snd x) \<noteq> RoleOwner)"
proof -
  have "org_ok s" using assms by (simp add: org_ok_def org_map_def role_at_def)
  from run_ok [OF assms(1,2) this] show ?thesis by (simp add: org_ok_one_owner) (simp add: org_ok_def)
qed

section \<open>The eraser\<close>

interpretation members: table_field "member_field :: ('x org_db_scheme, org_membership) field"
  by unfold_locales (simp_all add: member_field_def)

interpretation invites: table_field "invite_field :: ('x org_db_scheme, invitation) field"
  by unfold_locales (simp_all add: invite_field_def)

interpretation orgs: table_field "org_field :: ('x org_db_scheme, org_item) field"
  by unfold_locales (simp_all add: org_field_def)

lemma row_dropped:
  assumes "db_write OrgInfra (org_tbl_update (tdel k)) s = (r, t)"
  shows "member_tbl t = member_tbl s" "invite_tbl t = invite_tbl s"
    "org_tbl t = org_tbl s \<and> r = Inl OrgInfra \<or> org_tbl t = tdel k (org_tbl s) \<and> (r = Inl OrgInfra \<or> r = Inr ())"
  using assms db_cond_cases [of OrgInfra OrgInfra "\<lambda>_. True" "org_tbl_update (tdel k)" s] unfolding db_write_def by auto

text \<open>Claim C12. Erasing a workspace ends. Whatever calls fail, the eraser returns; it has removed nothing but memberships
  and invitations of that workspace and its row, and when it reports success none of them is left.\<close>

theorem erase_organization_ends:
  "\<exists>r t. erase_organization i s = Some (r, t) \<and>
     swept member_field (org_pk i) memberSKPrefix s t \<and> swept invite_field (org_pk i) inviteSKPrefix s t \<and>
     (\<forall>k. tget (org_tbl t) k = tget (org_tbl s) k \<or> k = org_key i \<and> tget (org_tbl t) k = None) \<and>
     (r = Inl OrgInfra \<or> r = Inr () \<and> keys_under (org_pk i) memberSKPrefix (member_tbl t) = [] \<and>
        keys_under (org_pk i) inviteSKPrefix (invite_tbl t) = [] \<and> tget (org_tbl t) (org_key i) = None)"
proof -
  obtain r1 t1 where m: "delete_all_under OrgInfra member_field (org_pk i) memberSKPrefix s = Some (r1, t1)"
    "swept member_field (org_pk i) memberSKPrefix s t1"
    "r1 = Inl OrgInfra \<or> r1 = Inr () \<and> keys_under (org_pk i) memberSKPrefix (fd_get member_field t1) = []"
    using members.sweep_ends [of OrgInfra "org_pk i" memberSKPrefix s] by blast
  have b1: "invite_tbl t1 = invite_tbl s" "org_tbl t1 = org_tbl s"
    using members.sweep_beside [of invite_tbl, OF _ _ m(1)] members.sweep_beside [of org_tbl, OF _ _ m(1)] by (simp_all add: member_field_def blind_def)
  obtain r2 t2 where v: "delete_all_under OrgInfra invite_field (org_pk i) inviteSKPrefix t1 = Some (r2, t2)"
    "swept invite_field (org_pk i) inviteSKPrefix t1 t2"
    "r2 = Inl OrgInfra \<or> r2 = Inr () \<and> keys_under (org_pk i) inviteSKPrefix (fd_get invite_field t2) = []"
    using invites.sweep_ends [of OrgInfra "org_pk i" inviteSKPrefix t1] by blast
  have b2: "member_tbl t2 = member_tbl t1" "org_tbl t2 = org_tbl t1"
    using invites.sweep_beside [of member_tbl, OF _ _ v(1)] invites.sweep_beside [of org_tbl, OF _ _ v(1)] by (simp_all add: invite_field_def blind_def)
  obtain r3 t3 where w: "db_write OrgInfra (org_tbl_update (tdel (org_key i))) t2 = (r3, t3)" by force
  note b3 = row_dropped [OF w]
  have fields: "fd_get member_field = member_tbl" "fd_get invite_field = invite_tbl"
    by (simp_all add: member_field_def invite_field_def)
  have idle: "swept invite_field (org_pk i) inviteSKPrefix s t1" by (simp add: swept_def fields b1)
  show ?thesis
  proof (cases "r1 = Inl OrgInfra")
    case True
    then have "erase_organization i s = Some (Inl OrgInfra, t1)" using m by (simp add: erase_organization_def and_then_def)
    with m idle b1 show ?thesis by auto
  next
    case False
    then have r1: "r1 = Inr ()" using m by auto
    have sw: "swept member_field (org_pk i) memberSKPrefix s t2" "swept invite_field (org_pk i) inviteSKPrefix s t2"
      using m v b1 b2 by (simp_all add: swept_def fields)
    show ?thesis
    proof (cases "r2 = Inl OrgInfra")
      case True
      then have "erase_organization i s = Some (Inl OrgInfra, t2)" using m v r1 by (simp add: erase_organization_def and_then_def)
      with sw b1 b2 show ?thesis by auto
    next
      case False
      then have "erase_organization i s = Some (r3, t3)" using m v r1 w by (auto simp: erase_organization_def and_then_def)
      moreover have "swept member_field (org_pk i) memberSKPrefix s t3" "swept invite_field (org_pk i) inviteSKPrefix s t3"
        using sw b3 by (simp_all add: swept_def fields)
      moreover have "keys_under (org_pk i) memberSKPrefix (member_tbl t3) = []" "keys_under (org_pk i) inviteSKPrefix (invite_tbl t3) = []"
        using m v b2 b3 r1 False by (auto simp: fields)
      ultimately show ?thesis using b1 b2 b3 by (intro exI [of _ r3] exI [of _ t3]) (elim disjE conjE; simp)
    qed
  qed
qed

end
