(* ===== verification/OrgLimits.thy ===== *)
theory OrgLimits
  imports OrgRuns
begin

text \<open>
  The plan of an owner holds: over all calls of the service and over creations whose check and write are
  apart, with any failures, nobody with a limited plan comes to own more spaces than it allows. And where
  the service promises more than it keeps: the reconciliation of the counter and a withdrawn invitation.
\<close>

section \<open>Spaces and their counter\<close>

definition owned_ids :: "string \<Rightarrow> 'x org_db_scheme \<Rightarrow> string set" where
  "owned_ids u s = {i. \<exists>g. org_map s i = Some g \<and> kind_of g = KindPersonal \<and> og_owner g = u}"

text \<open>The counter never says less than what is owned; without a counter nothing is.\<close>

definition plan_ok :: "string \<Rightarrow> int \<Rightarrow> 'x org_db_scheme \<Rightarrow> bool" where
  "plan_ok u l s \<longleftrightarrow> int (card (owned_ids u s)) \<le> l \<and>
     (case spaces_at u s of None \<Rightarrow> owned_ids u s = {} | Some n \<Rightarrow> int (card (owned_ids u s)) \<le> n)"

lemma finite_owned [simp]: "finite (owned_ids u s)"
proof -
  have "owned_ids u s \<subseteq> (\<lambda>k. trim_prefix (fst k) orgPKPrefix) ` dom (map_of (org_tbl s))"
  proof
    fix i assume "i \<in> owned_ids u s"
    then obtain it where "tget (org_tbl s) (org_key i) = Some it" by (auto simp: owned_ids_def org_map_def bind_eq_Some_conv)
    then have "org_key i \<in> dom (map_of (org_tbl s))" by (auto simp: tget_def)
    then show "i \<in> (\<lambda>k. trim_prefix (fst k) orgPKPrefix) ` dom (map_of (org_tbl s))" by (rule rev_image_eqI) simp
  qed
  then show ?thesis by (rule finite_subset) (simp add: finite_dom_map_of)
qed

text \<open>What matters of a state: the organizations and the counter of the owner.\<close>

definition plan_view :: "string \<Rightarrow> 'x org_db_scheme \<Rightarrow> (string \<Rightarrow> organization option) \<times> int option" where
  "plan_view u s = (org_map s, spaces_at u s)"

lemma spaces_at_simps [simp]:
  "spaces_at u (s\<lparr>faults := os\<rparr>) = spaces_at u s" "spaces_at u (s\<lparr>rng_ix := n\<rparr>) = spaces_at u s"
  "spaces_at u (s\<lparr>uuid_ix := n\<rparr>) = spaces_at u s" "spaces_at u (s\<lparr>clock := t\<rparr>) = spaces_at u s"
  "spaces_at u (conflicts_update f s) = spaces_at u s" "spaces_at u (notices_update g s) = spaces_at u s"
  "spaces_at u (member_tbl_update h s) = spaces_at u s" "spaces_at u (invite_tbl_update k s) = spaces_at u s"
  "spaces_at u (set_people i c s) = spaces_at u s" "spaces_at u (change_org i e s) = spaces_at u s"
  "spaces_at u (store_member m s) = spaces_at u s" "spaces_at u (change_member i v x s) = spaces_at u s"
  "spaces_at u (store_invitation iv s) = spaces_at u s" "spaces_at u (create_items o1 name s) = spaces_at u s"
  by (auto simp: spaces_at_def set_people_def change_org_def store_member_def change_member_def store_invitation_def create_items_def
      split: option.splits org_item.splits)

lemma spaces_at_transfer [simp]: "spaces_at u (transfer_items i v w d n s) = spaces_at u s"
  by (simp add: transfer_items_def)

lemma spaces_at_set [simp]: "spaces_at u (set_spaces v n s) = (if u = v then Some n else spaces_at u s)"
  by (auto simp: spaces_at_def set_spaces_def)

lemma owned_same: "org_map t = org_map s \<Longrightarrow> owned_ids u t = owned_ids u s"
  by (simp add: owned_ids_def)

lemma plan_ok_view: "plan_view u t = plan_view u s \<Longrightarrow> plan_ok u l s \<Longrightarrow> plan_ok u l t"
  using owned_same [of t s u] by (auto simp: plan_view_def plan_ok_def split: option.splits)

lemma owned_created:
  "create_fits g n s \<Longrightarrow> owned_ids u (create_items g n s) =
     (if kind_of g = KindPersonal \<and> og_owner g = u then insert (og_id g) (owned_ids u s) else owned_ids u s) \<and> og_id g \<notin> owned_ids u s"
  using create_fits_None [of g n s] by (auto simp: owned_ids_def)

lemma kind_of_owner [simp]: "kind_of (g\<lparr>og_owner := w, og_updated_at := n\<rparr>) = kind_of g"
  by (simp add: kind_of_def)

lemma owned_transferred:
  "org_map s i = Some g \<Longrightarrow> owned_ids u (transfer_items i v w d n s) =
     (if kind_of g = KindPersonal then (if u = w then insert i (owned_ids u s) else owned_ids u s - {i}) else owned_ids u s)"
  by (auto simp: owned_ids_def)

section \<open>A guard and its write\<close>

text \<open>What a guard for an owner with a limited plan expects and sets.\<close>

definition sound_guard :: "int \<Rightarrow> counter_write \<Rightarrow> bool" where
  "sound_guard l w \<longleftrightarrow> \<not> cw_blind w \<and> cw_next w \<le> l \<and> (case cw_expect w of None \<Rightarrow> 1 \<le> cw_next w | Some n \<Rightarrow> n + 1 \<le> cw_next w)"

lemma space_guard_sound:
  assumes "space_guard u q b s = (Inr w, t)" and "qu_spaces q \<noteq> Unlimited"
  shows "sound_guard (qu_spaces q) w"
  using assms unfolding space_guard_def guard_from_def sound_guard_def allows_def Let_def
  by (auto elim!: bindE_InrE split: if_splits option.splits)

lemma plan_counted:
  assumes "sound_guard l w" and "guard_holds w (spaces_at u s)" and "plan_ok u l s"
    and "owned_ids u t \<subseteq> insert i (owned_ids u s)" and "spaces_at u t = Some (cw_next w)"
  shows "plan_ok u l t"
proof -
  have "card (owned_ids u t) \<le> card (insert i (owned_ids u s))" by (rule card_mono) (simp_all add: assms(4))
  then have "int (card (owned_ids u t)) \<le> int (card (owned_ids u s)) + 1" by (simp add: card_insert_if split: if_splits)
  moreover have "int (card (owned_ids u s)) + 1 \<le> cw_next w"
    using assms(1,2,3) by (auto simp: sound_guard_def guard_holds_def plan_ok_def split: option.splits)
  ultimately show ?thesis using assms(1,5) by (simp add: plan_ok_def sound_guard_def)
qed

lemma plan_untouched:
  assumes "plan_ok u l s" and "owned_ids u t \<subseteq> owned_ids u s" and "spaces_at u t = spaces_at u s"
  shows "plan_ok u l t"
proof -
  have "card (owned_ids u t) \<le> card (owned_ids u s)" by (rule card_mono [OF finite_owned assms(2)])
  with assms show ?thesis by (auto simp: plan_ok_def split: option.splits)
qed

section \<open>Calls that leave the plan alone\<close>

lemma blind_plan_view [simp]: "blind (plan_view u)"
  by (simp add: blind_def plan_view_def)

lemma plan_view_simps [simp]:
  "plan_view u (s\<lparr>faults := os\<rparr>) = plan_view u s" "plan_view u (s\<lparr>rng_ix := n\<rparr>) = plan_view u s"
  "plan_view u (s\<lparr>uuid_ix := n\<rparr>) = plan_view u s" "plan_view u (s\<lparr>clock := t\<rparr>) = plan_view u s"
  "plan_view u (conflicts_update f s) = plan_view u s" "plan_view u (notices_update g s) = plan_view u s"
  "plan_view u (member_tbl_update h s) = plan_view u s" "plan_view u (invite_tbl_update k s) = plan_view u s"
  "plan_view u (set_people i c s) = plan_view u s" "plan_view u (store_member m s) = plan_view u s"
  "plan_view u (change_member i v x s) = plan_view u s" "plan_view u (store_invitation iv s) = plan_view u s"
  by (simp_all add: plan_view_def)

named_theorems plan_looks \<open>calls that leave the spaces and their counter alone\<close>

lemma plan_repo [plan_looks]:
  "keeps (plan_view u) (repo_get_org i)" "keeps (plan_view u) (get_membership i v)" "keeps (plan_view u) (repo_list_members i)"
  "keeps (plan_view u) (repo_list_for_user v)" "keeps (plan_view u) (get_invitation_by_token h)"
  "keeps (plan_view u) (repo_list_invitations i)" "keeps (plan_view u) (space_counter v)" "keeps (plan_view u) (people_counter i)"
  "keeps (plan_view u) (get_invitation i e)" "keeps (plan_view u) (decrement_people_counter i)"
  unfolding repo_get_org_def found_org_def get_membership_def found_member_def repo_list_members_def repo_list_for_user_def
    get_invitation_by_token_def repo_list_invitations_def space_counter_def people_counter_def get_invitation_def
    decrement_people_counter_def settled_def
  by (intro keeps_calls; simp)+

lemma plan_notify [plan_looks]: "keeps (plan_view u) (notify n)"
  by (simp add: notify_def keeps_def tracks_def)

lemma plan_roles [plan_looks]:
  "keeps (plan_view u) (role_of i v)" "keeps (plan_view u) (org_kind_of i)" "keeps (plan_view u) (require_role i v lo)"
  "keeps (plan_view u) (require_grantable_in i r)" "keeps (plan_view u) (companies_fit i cs)"
  unfolding role_of_def org_kind_of_def require_role_def require_grantable_in_def companies_fit_def
  by (intro keeps_calls plan_looks)+

lemma plan_owned [plan_looks]: "keeps (plan_view u) (owned_among v ms)"
  by (induction ms) (simp_all only: owned_among.simps, intro keeps_calls, intro keeps_calls plan_looks)

lemma plan_space [plan_looks]:
  "keeps (plan_view u) (owned_spaces v)" "keeps (plan_view u) (people_in g)" "keeps (plan_view u) (get_quotas C v)"
  "keeps (plan_view u) (space_guard v q b)" "keeps (plan_view u) (existing_invitation i e)" "keeps (plan_view u) (people_guard g q)"
  "keeps (plan_view u) (personal_space C i)" "keeps (plan_view u) (after_people_left g)" "keeps (plan_view u) (counted_in sp i e)"
  unfolding owned_spaces_def people_in_def get_quotas_def space_guard_def guard_from_def existing_invitation_def people_guard_def
    personal_space_def after_people_left_def counted_in_def Let_def
  by (intro keeps_calls plan_looks)+

lemma plan_if_space [plan_looks]: "(\<And>g. keeps (plan_view u) (f g)) \<Longrightarrow> keeps (plan_view u) (if_space C i f)"
  unfolding if_space_def by (intro keeps_calls plan_looks)

lemma plan_check [plan_looks]: "keeps (plan_view u) (check_invitation C token v e)"
  unfolding check_invitation_def by (intro keeps_calls plan_looks)

lemma plan_grants: "tame_granter C \<Longrightarrow> keeps (plan_view u) (grant_companies C iv m)"
  using tables_grants [of C iv m] unfolding keeps_def tracks_def org_tables_def plan_view_def org_map_def spaces_at_def by auto

lemma plan_members:
  "keeps (plan_view u) (set_role i a v r)" "keeps (plan_view u) (remove_member C i a v)" "keeps (plan_view u) (rename_member w n)"
  unfolding set_role_def repo_set_role_def remove_member_def remove_membership_def repo_remove_membership_def rename_member_def
    repo_rename_member_def rename_one_def
  by (intro keeps_calls plan_looks; simp)+

lemma plan_offers:
  "keeps (plan_view u) (invite C i a e r cs)" "keeps (plan_view u) (revoke_invitation C i a e)"
  "tame_granter C \<Longrightarrow> keeps (plan_view u) (accept C token w e n)"
  unfolding invite_def send_offer_def invite_guarded_def invite_attempt_def put_invitation_def put_invitation_guarded_def
    revoke_invitation_def delete_invitation_def accept_def join_def accept_invitation_def Let_def
  by (intro keeps_calls keeps_until keeps_guarded plan_looks plan_grants; simp)+

section \<open>Guarded writes\<close>

lemma blind_plan_ok [simp]: "blind (plan_ok u l)"
proof -
  have "plan_view u (s\<lparr>faults := os\<rparr>) = plan_view u s" for s :: "'a org_db_scheme" and os by simp
  then show ?thesis unfolding blind_def by (metis plan_ok_view)
qed

lemma plan_kept: "keeps (plan_view u) f \<Longrightarrow> preserves (plan_ok u l) f"
  unfolding preserves_def by (auto intro: plan_ok_view keepsD)

lemma preserves_until: "preserves I f \<Longrightarrow> preserves I (until_settled n f)"
  by (induction n) (auto intro!: wp preserves_cases)

lemma preserves_guarded:
  assumes "blind I" and "\<And>f s. I (conflicts_update f s) = I s" and "blind g" and "blind c"
    and "\<And>s. I s \<Longrightarrow> g s \<Longrightarrow> c s \<Longrightarrow> I (u s)"
  shows "preserves I (guarded_tx other g c u)"
  unfolding guarded_tx_def
  by (intro wp preserves_cases preserves_db_cond assms(1)) (use assms in \<open>auto simp: preserves_def blind_def\<close>)

lemma plan_conflicts [simp]: "plan_ok u l (conflicts_update f s) = plan_ok u l s"
proof -
  have "plan_view u (conflicts_update f s) = plan_view u s" by simp
  then show ?thesis by (metis plan_ok_view)
qed

text \<open>Creations and transfers to the owner need a sound guard; those to others take nothing away from the bound.\<close>

lemma plan_create_write:
  assumes "og_owner g = u \<Longrightarrow> sound_guard l w"
  shows "preserves (plan_ok u l) (create_with_owner_guarded g name w)"
  unfolding create_with_owner_guarded_def
proof (intro preserves_guarded blind_plan_ok plan_conflicts blind_rows, goal_cases)
  case (1 s)
  let ?t = "set_spaces (og_owner g) (cw_next w) (create_items g name s)"
  have o: "owned_ids u ?t = owned_ids u (create_items g name s)" by (rule owned_same) simp
  show ?case
  proof (cases "og_owner g = u")
    case True
    show ?thesis
    proof (rule plan_counted)
      show "sound_guard l w" using assms True .
      show "guard_holds w (spaces_at u s)" "plan_ok u l s" using 1 True by simp_all
      show "owned_ids u ?t \<subseteq> insert (og_id g) (owned_ids u s)" using owned_created [OF 1(3), of u] o by auto
      show "spaces_at u ?t = Some (cw_next w)" using True by simp
    qed
  next
    case False
    show ?thesis
    proof (rule plan_untouched)
      show "plan_ok u l s" by (rule 1)
      show "owned_ids u ?t \<subseteq> owned_ids u s" using owned_created [OF 1(3), of u] o False by auto
      show "spaces_at u ?t = spaces_at u s" using False by simp
    qed
  qed
qed

lemma plan_transfer_write:
  assumes "taker = u \<Longrightarrow> sound_guard l w"
  shows "preserves (plan_ok u l) (transfer_ownership_guarded i giver taker d n w)"
  unfolding transfer_ownership_guarded_def
proof (intro preserves_guarded blind_plan_ok plan_conflicts blind_rows, goal_cases)
  case (1 s)
  let ?t = "set_spaces taker (cw_next w) (transfer_items i giver taker d n s)"
  have o: "owned_ids u ?t = owned_ids u (transfer_items i giver taker d n s)" by (rule owned_same) simp
  have sub: "owned_ids u ?t \<subseteq> (if u = taker then insert i (owned_ids u s) else owned_ids u s)"
  proof (cases "org_map s i")
    case None
    then show ?thesis unfolding o by (auto simp: owned_ids_def)
  next
    case (Some g)
    then show ?thesis unfolding o owned_transferred [OF Some] by auto
  qed
  show ?case
  proof (cases "taker = u")
    case True
    show ?thesis
    proof (rule plan_counted)
      show "sound_guard l w" using assms True .
      show "guard_holds w (spaces_at u s)" "plan_ok u l s" using 1 True by simp_all
      show "owned_ids u ?t \<subseteq> insert i (owned_ids u s)" using sub by (auto split: if_splits)
      show "spaces_at u ?t = Some (cw_next w)" using True by simp
    qed
  next
    case False
    show ?thesis
    proof (rule plan_untouched)
      show "plan_ok u l s" by (rule 1)
      show "owned_ids u ?t \<subseteq> owned_ids u s" using sub False by auto
      show "spaces_at u ?t = spaces_at u s" using False by simp
    qed
  qed
qed

text \<open>A plan that does not change and is not unlimited.\<close>

definition plan_fixed :: "'x org_conf \<Rightarrow> string \<Rightarrow> int \<Rightarrow> bool" where
  "plan_fixed C u l \<longleftrightarrow> 0 \<le> l \<and> (\<exists>f. oc_plans C = Some f \<and> (\<forall>n q. f u n = Some q \<longrightarrow> qu_spaces q = l))"

lemma fixed_quotas: "plan_fixed C u l \<Longrightarrow> get_quotas C u s = (Inr q, t) \<Longrightarrow> qu_spaces q = l"
  unfolding plan_fixed_def get_quotas_def by (auto elim!: bindE_InrE split: option.splits)

lemma fixed_guard:
  assumes "plan_fixed C u l" and "get_quotas C u s = (Inr q, t)" and "space_guard u q b s1 = (Inr w, t1)"
  shows "sound_guard l w"
proof -
  have "qu_spaces q = l" "l \<noteq> Unlimited"
    using fixed_quotas [OF assms(1,2)] assms(1) by (auto simp: plan_fixed_def Unlimited_def)
  with space_guard_sound [OF assms(3)] show ?thesis by simp
qed

lemma plan_create_guarded:
  assumes "plan_fixed C u l"
  shows "preserves (plan_ok u l) (create_guarded C g name)"
  unfolding create_guarded_def
proof (rule preserves_bindE_val [where V = "\<lambda>q. og_owner g = u \<longrightarrow> qu_spaces q = l"])
  show "preserves (plan_ok u l) (get_quotas C (og_owner g))" by (intro plan_kept plan_looks)
  show "yields (plan_ok u l) (get_quotas C (og_owner g)) (\<lambda>q. og_owner g = u \<longrightarrow> qu_spaces q = l)"
    using fixed_quotas [OF assms] by (auto simp: yields_def)
  fix q :: quotas assume q: "og_owner g = u \<longrightarrow> qu_spaces q = l"
  have l: "l \<noteq> Unlimited" using assms by (auto simp: plan_fixed_def Unlimited_def)
  show "preserves (plan_ok u l) (until_settled guardAttempts (bindE (space_guard (og_owner g) q False) (create_with_owner_guarded g name)))"
  proof (intro preserves_until preserves_bindE_val [where V = "\<lambda>w. og_owner g = u \<longrightarrow> sound_guard l w"])
    show "preserves (plan_ok u l) (space_guard (og_owner g) q False)" by (intro plan_kept plan_looks)
    show "yields (plan_ok u l) (space_guard (og_owner g) q False) (\<lambda>w. og_owner g = u \<longrightarrow> sound_guard l w)"
      using q l space_guard_sound [of "og_owner g" q False] by (auto simp: yields_def)
  qed (auto intro: plan_create_write)
qed

section \<open>Handing a space over\<close>

text \<open>Between the transaction and the decrement the giver's counter is one too high.\<close>

definition slack :: "string \<Rightarrow> int \<Rightarrow> 'x org_db_scheme \<Rightarrow> bool" where
  "slack u l s \<longleftrightarrow> int (card (owned_ids u s)) \<le> l \<and>
     (case spaces_at u s of None \<Rightarrow> owned_ids u s = {} | Some n \<Rightarrow> int (card (owned_ids u s)) + 1 \<le> n)"

lemma plan_decrement: "slack u l s \<Longrightarrow> plan_ok u l (snd (decrement_space_counter u s))"
proof -
  let ?d = "db_cond OrgInfra ErrCounterMoved (\<lambda>s. above_zero (spaces_at u s)) (\<lambda>s. set_spaces u (the (spaces_at u s) - 1) s)"
  assume s: "slack u l s"
  have o: "owned_ids u (set_spaces u n s) = owned_ids u s" "owned_ids u (s\<lparr>faults := os\<rparr>) = owned_ids u s" for n s os
    by (rule owned_same, simp)+
  obtain os where "snd (?d s) = s\<lparr>faults := os\<rparr> \<or>
      snd (?d s) = set_spaces u (the (spaces_at u s) - 1) (s\<lparr>faults := os\<rparr>) \<and> above_zero (spaces_at u s)"
    using db_cond_cases [of OrgInfra ErrCounterMoved "\<lambda>s. above_zero (spaces_at u s)" "\<lambda>s. set_spaces u (the (spaces_at u s) - 1) s" s] by auto
  then have "plan_ok u l (snd (?d s))"
    using s by (auto simp: plan_ok_def slack_def o above_zero_def split: option.splits)
  moreover have "keeps (plan_view u) (\<lambda>t. (r, t) :: (org_err + unit) \<times> 'a org_db_scheme)" for r
    by (simp add: keeps_def tracks_def)
  ultimately show ?thesis
    unfolding decrement_space_counter_def settled_def
    by (cases "?d s") (auto simp: bindE_run split: sum.split)
qed

lemma plan_decrement_other: "v \<noteq> u \<Longrightarrow> keeps (plan_view u) (decrement_space_counter v)"
  unfolding decrement_space_counter_def settled_def
  by (intro keeps_calls blind_plan_view; simp add: plan_view_def)

lemma plan_after_other: "v \<noteq> u \<Longrightarrow> keeps (plan_view u) (after_transfer v w)"
  unfolding after_transfer_def by (intro keeps_calls plan_decrement_other plan_looks)

lemma plan_after_giver:
  assumes "slack u l s" shows "plan_ok u l (snd (after_transfer u w s))"
proof -
  have "keeps (plan_view u) (bindE (case r of Inl _ \<Rightarrow> bindE now (\<lambda>n. notify (ScheduleLevels u (n + counterSettle))) | Inr _ \<Rightarrow> ret ())
      (\<lambda>_. bindE (notify (LevelsChanged u)) (\<lambda>_. notify (LevelsChanged w))))" for r :: "org_err + unit"
    by (intro keeps_calls plan_looks)
  from keepsD [OF this] plan_decrement [OF assms] show ?thesis
    unfolding after_transfer_def by (auto simp: bindE_run intro: plan_ok_view)
qed

lemma guarded_Inr:
  assumes "guarded_tx other g c u s = (Inr x, t)" and "blind g" and "blind c"
  shows "\<exists>v. org_tables v = org_tables s \<and> g v \<and> c v \<and> t = u v"
proof -
  from assms(1) have "db_cond (refusal s) (if g s then other else ErrCounterMoved) (\<lambda>s. g s \<and> c s) u (conflicts_update tl s) = (Inr x, t)"
    by (simp add: guarded_tx_def bindE_run)
  with db_cond_cases [of "refusal s" "if g s then other else ErrCounterMoved" "\<lambda>s. g s \<and> c s" u "conflicts_update tl s"]
  obtain os where "t = u ((conflicts_update tl s)\<lparr>faults := os\<rparr>)" "g (conflicts_update tl s)" "c (conflicts_update tl s)" by auto
  with assms(2,3) show ?thesis
    by (intro exI [of _ "(conflicts_update tl s)\<lparr>faults := os\<rparr>"]) (simp add: blindD org_tables_def)
qed

lemma guarded_moved:
  "guarded_tx other g c u s = (Inl ErrCounterMoved, t) \<Longrightarrow> org_tables t = org_tables s"
proof -
  assume "guarded_tx other g c u s = (Inl ErrCounterMoved, t)"
  then have d: "db_cond (refusal s) (if g s then other else ErrCounterMoved) (\<lambda>s. g s \<and> c s) u (conflicts_update tl s) = (Inl ErrCounterMoved, t)"
    by (simp add: guarded_tx_def bindE_run)
  show ?thesis
  proof (cases "faults s")
    case Nil
    with d show ?thesis by (auto simp: org_tables_def split: if_splits)
  next
    case (Cons a os)
    with d show ?thesis by (cases a) (auto simp: db_cond_def refusal_def org_tables_def split: if_splits)
  qed
qed

lemma blind_tables [simp]: "blind org_tables"
  by (simp add: blind_def org_tables_def)

lemma tables_guard: "keeps org_tables (space_guard v q b)"
proof -
  have owned: "keeps org_tables (owned_among v ms)" for ms
  proof (induction ms)
    case Nil
    show ?case unfolding owned_among.simps by (rule keeps_calls)
  next
    case (Cons m ms)
    then show ?case unfolding owned_among.simps repo_get_org_def found_org_def by (intro keeps_calls; simp)
  qed
  show ?thesis
    unfolding space_guard_def guard_from_def owned_spaces_def repo_list_for_user_def space_counter_def Let_def by (intro keeps_calls owned; simp)
qed

lemma until_Inr:
  assumes "\<And>s t. P s \<Longrightarrow> f s = (Inl ErrCounterMoved, t) \<Longrightarrow> P t"
  shows "until_settled n f s = (Inr x, t) \<Longrightarrow> P s \<Longrightarrow> \<exists>s'. P s' \<and> f s' = (Inr x, t)"
proof (induction n arbitrary: s)
  case (Suc n)
  obtain r v where f: "f s = (r, v)" by force
  show ?case
  proof (cases "r = Inl ErrCounterMoved")
    case True
    with Suc.prems f have "until_settled n f v = (Inr x, t)" by (simp add: bindE_run)
    moreover have "P v" using assms [of s v] Suc.prems f True by simp
    ultimately show ?thesis by (rule Suc.IH)
  next
    case False
    with Suc.prems f have "f s = (Inr x, t)" by (auto simp: bindE_run split: sum.splits if_splits)
    with Suc.prems(2) show ?thesis by (intro exI [of _ s]) simp
  qed
qed simp

text \<open>A space that its owner hands over was counted.\<close>

lemma owner_slack:
  assumes "org_ok v" and "plan_ok u l v" and "transfer_fits i u w v" and "u \<noteq> w" and "org_map v i = Some g" and "kind_of g = KindPersonal"
  shows "slack u l (set_spaces w m (transfer_items i u w d n v))"
proof -
  let ?t = "set_spaces w m (transfer_items i u w d n v)"
  have "owned_ids u ?t = owned_ids u (transfer_items i u w d n v)" by (rule owned_same) simp
  then have o: "owned_ids u ?t = owned_ids u v - {i}" using assms owned_transferred [OF assms(5), of u] by simp
  have "role_at (member_tbl v) i u = Some RoleOwner" using assms(3) by (simp add: transfer_fits_def)
  then have i: "i \<in> owned_ids u v" using org_okD(2) [OF assms(1), of i u] assms(5,6) by (auto simp: owned_ids_def)
  from card_Suc_Diff1 [OF finite_owned this] have c: "card (owned_ids u v) = Suc (card (owned_ids u ?t))" unfolding o by (rule sym)
  have "spaces_at u ?t = spaces_at u v" using assms(4) by simp
  with assms(2) i c show ?thesis unfolding slack_def plan_ok_def by (auto split: option.splits)
qed

lemma tables_org_ok: "org_tables t = org_tables s \<Longrightarrow> org_ok t = org_ok s"
  by (rule org_ok_view) (rule org_tables_view)

lemma tables_plan_view: "org_tables t = org_tables s \<Longrightarrow> plan_view u t = plan_view u s"
  by (auto simp: org_tables_def plan_view_def org_map_def spaces_at_def)

text \<open>What a handover relies on, as long as nothing was written.\<close>

definition handing :: "string \<Rightarrow> int \<Rightarrow> string \<Rightarrow> 'x org_db_scheme \<Rightarrow> bool" where
  "handing u l i s \<longleftrightarrow> org_ok s \<and> plan_ok u l s \<and> (\<exists>g. org_map s i = Some g \<and> kind_of g = KindPersonal)"

lemma handing_tables:
  assumes "org_tables t = org_tables s" and "handing u l i s" shows "handing u l i t"
  using assms(2) tables_org_ok [OF assms(1)] plan_ok_view [OF tables_plan_view [OF assms(1)], where l = l and u = u]
    org_viewD(2) [OF org_tables_view [OF assms(1)]]
  by (simp add: handing_def)

lemma attempt_Inr:
  assumes "transfer_attempt i u w d q s = (Inr x, t)" and "handing u l i s" and "u \<noteq> w"
  shows "slack u l t"
proof -
  from assms(1) obtain c s2 n where g: "space_guard w q True s = (Inr c, s2)"
    and tx: "transfer_ownership_guarded i u w d n c s2 = (Inr x, t)"
    unfolding transfer_attempt_def by (auto elim!: bindE_InrE)
  from keepsD' [OF tables_guard g] have s2: "org_tables s2 = org_tables s" .
  from guarded_Inr [OF tx [unfolded transfer_ownership_guarded_def] blind_rows(7) blind_rows(2)]
  obtain v where v: "org_tables v = org_tables s2" "transfer_fits i u w v" "t = set_spaces w (cw_next c) (transfer_items i u w d n v)" by auto
  have "handing u l i v" using v(1) s2 assms(2) by (intro handing_tables [of v s]) simp_all
  then show ?thesis using v(2,3) assms(3) by (auto simp: handing_def intro: owner_slack)
qed

lemma attempt_moved:
  assumes "transfer_attempt i v w d q s = (Inl ErrCounterMoved, t)" shows "org_tables t = org_tables s"
proof -
  obtain r s1 where g: "space_guard w q True s = (r, s1)" by force
  from keepsD' [OF tables_guard g] have s1: "org_tables s1 = org_tables s" .
  show ?thesis
  proof (cases r)
    case (Inl e)
    with assms g s1 show ?thesis by (simp add: transfer_attempt_def)
  next
    case (Inr c)
    with assms g have "transfer_ownership_guarded i v w d (clock s1) c s1 = (Inl ErrCounterMoved, t)"
      by (simp add: transfer_attempt_def)
    with s1 show ?thesis unfolding transfer_ownership_guarded_def by (auto dest: guarded_moved)
  qed
qed

text \<open>A guarded transfer keeps the bound: for the taker by its guard, for the giver by the decrement.\<close>

lemma plan_attempt:
  assumes "w = u \<Longrightarrow> qu_spaces q = l" and "l \<noteq> Unlimited"
  shows "preserves (plan_ok u l) (transfer_attempt i v w d q)"
  unfolding transfer_attempt_def
proof (rule preserves_bindE_val [where V = "\<lambda>c. w = u \<longrightarrow> sound_guard l c"])
  show "preserves (plan_ok u l) (space_guard w q True)" by (intro plan_kept plan_looks)
  show "yields (plan_ok u l) (space_guard w q True) (\<lambda>c. w = u \<longrightarrow> sound_guard l c)"
    using assms space_guard_sound [of w q True] by (auto simp: yields_def)
  show "preserves (plan_ok u l) (bindE now (\<lambda>n. transfer_ownership_guarded i v w d n c))" if "w = u \<longrightarrow> sound_guard l c" for c
    using that by (intro wp plan_transfer_write) simp
qed

lemma plan_transfer_guarded:
  assumes "plan_fixed C u l" and "handing u l i s" and "v \<noteq> w"
  shows "plan_ok u l (snd (transfer_guarded C i v w d s))"
proof -
  have l: "l \<noteq> Unlimited" using assms(1) by (auto simp: plan_fixed_def Unlimited_def)
  have tq: "keeps org_tables (get_quotas C w)" unfolding get_quotas_def by (intro keeps_calls)
  obtain r s1 where q: "get_quotas C w s = (r, s1)" by force
  from handing_tables [OF keepsD' [OF tq q] assms(2)] have h: "handing u l i s1" .
  show ?thesis
  proof (cases r)
    case (Inl e)
    with q h show ?thesis by (simp add: transfer_guarded_def handing_def)
  next
    case (Inr qt)
    have fx: "qu_spaces qt = l" if "w = u" using fixed_quotas [OF assms(1)] q that Inr by auto
    let ?f = "transfer_attempt i v w d qt"
    obtain r2 s2 where a: "until_settled guardAttempts ?f s1 = (r2, s2)" by force
    have "plan_ok u l s2"
    proof -
      have "plan_ok u l (snd (until_settled guardAttempts ?f s1))"
        by (rule preservesD [OF preserves_until [OF plan_attempt]]) (use fx l h in \<open>auto simp: handing_def\<close>)
      with a show ?thesis by simp
    qed
    show ?thesis
    proof (cases r2)
      case (Inl e)
      with q Inr a \<open>plan_ok u l s2\<close> show ?thesis by (simp add: transfer_guarded_def)
    next
      case r2: (Inr y)
      have run: "transfer_guarded C i v w d s = after_transfer v w s2" using q Inr a r2 by (simp add: transfer_guarded_def)
      show ?thesis
      proof (cases "v = u")
        case True
        have "\<exists>s'. handing u l i s' \<and> ?f s' = (Inr y, s2)"
          by (rule until_Inr [where P = "handing u l i", OF _ a [unfolded r2] h]) (blast dest: attempt_moved intro: handing_tables)
        then obtain s' where "handing u l i s'" "?f s' = (Inr y, s2)" by blast
        then have "slack u l s2" using attempt_Inr [of i u w d qt s' y s2 l] True assms(3) by simp
        from plan_after_giver [OF this, of w] show ?thesis using run True by simp
      next
        case False
        from keepsD [OF plan_after_other [OF False], of w s2] \<open>plan_ok u l s2\<close> show ?thesis
          by (simp add: run) (rule plan_ok_view)
      qed
    qed
  qed
qed

lemma plan_tables: "org_tables t = org_tables s \<Longrightarrow> plan_ok u l s \<Longrightarrow> plan_ok u l t"
  by (rule plan_ok_view [OF tables_plan_view])

lemma plan_bind:
  assumes "keeps org_tables f" and "plan_ok u l s"
    and "\<And>x t. f s = (Inr x, t) \<Longrightarrow> org_tables t = org_tables s \<Longrightarrow> plan_ok u l t \<Longrightarrow> plan_ok u l (snd (g x t))"
  shows "plan_ok u l (snd (bindE f g s))"
proof (cases "f s")
  case (Pair r t)
  from keepsD' [OF assms(1) Pair] have t: "org_tables t = org_tables s" .
  from plan_tables [OF this assms(2)] have "plan_ok u l t" .
  with Pair t assms(3) show ?thesis by (cases r) simp_all
qed

lemma plan_transfer_plain:
  assumes "org_map s i = Some g" and "kind_of g \<noteq> KindPersonal" and "plan_ok u l s"
  shows "plan_ok u l (snd (transfer_ownership i a w d n s))"
proof -
  have "plan_ok u l (transfer_items i a w d n (s\<lparr>faults := os\<rparr>))" for os
  proof (rule plan_untouched [OF assms(3)])
    have "owned_ids u (transfer_items i a w d n (s\<lparr>faults := os\<rparr>)) = owned_ids u (s\<lparr>faults := os\<rparr>)"
      using owned_transferred [of "s\<lparr>faults := os\<rparr>" i g u a w d n] assms by simp
    also have "\<dots> = owned_ids u s" by (rule owned_same) simp
    finally show "owned_ids u (transfer_items i a w d n (s\<lparr>faults := os\<rparr>)) \<subseteq> owned_ids u s" by simp
  qed simp
  moreover have "plan_ok u l (s\<lparr>faults := os\<rparr>)" for os using assms(3) blindD [OF blind_plan_ok] by blast
  ultimately show ?thesis
    unfolding transfer_ownership_def
    using db_cond_cases [of OrgInfra ErrOrgNotFound "transfer_fits i a w" "transfer_items i a w d n" s] by (elim exE disjE conjE) simp_all
qed

lemma tables_roles: "keeps org_tables (role_of i v)" "keeps org_tables (org_kind_of i)"
  unfolding role_of_def get_membership_def found_member_def org_kind_of_def repo_get_org_def found_org_def
  by (intro keeps_calls; simp)+

lemma plan_if: "(b \<Longrightarrow> plan_ok u l (snd (f s))) \<Longrightarrow> (\<not> b \<Longrightarrow> plan_ok u l (snd (g s))) \<Longrightarrow>
    plan_ok u l (snd ((if b then f else g) s))"
  by simp

lemma plan_throw: "plan_ok u l s \<Longrightarrow> plan_ok u l (snd (throw e s))"
  by simp

lemma plan_transfer:
  assumes "plan_fixed C u l" and "org_ok s" and "plan_ok u l s"
  shows "plan_ok u l (snd (transfer C i a w s))"
  unfolding transfer_def
proof (intro plan_bind [OF tables_roles(1)] plan_bind [OF tables_roles(2)] plan_if plan_throw assms(3), goal_cases)
  case (5 r t c t1 k t2)
  then have t2: "org_tables t2 = org_tables s" by simp
  from 5 obtain g where g: "org_map t1 i = Some g" "k = kind_of g" using org_kind_of_Inr by blast
  then have g2: "org_map t2 i = Some g" using org_viewD(2) [OF org_tables_view, of t2 t1] 5 by simp
  have h: "org_ok t2" "plan_ok u l t2" using 5 assms(2) tables_org_ok [OF t2] by simp_all
  have lim: "limited C" using assms(1) by (auto simp: plan_fixed_def limited_def)
  show ?case
  proof (cases "k = KindPersonal")
    case True
    with g2 g h have "handing u l i t2" by (simp add: handing_def)
    from plan_transfer_guarded [OF assms(1) this, of a w] 5 True lim show ?thesis by (simp add: Let_def)
  next
    case no: False
    with plan_transfer_plain [OF g2 _ h(2)] g(2) show ?thesis by (simp add: Let_def)
  qed
qed assumption+

section \<open>Reconciling the counter\<close>

text \<open>With no more memberships than the index answers at once, the listing misses no space.\<close>

lemma owned_among_Inr:
  "owned_among u ms s = (Inr gs, t) \<Longrightarrow> org_tables t = org_tables s \<and>
     (\<forall>m\<in>set ms. om_role m = RoleOwner \<longrightarrow> (\<forall>g. org_map s (om_org m) = Some g \<longrightarrow> kind_of g = KindPersonal \<longrightarrow> og_owner g = u \<longrightarrow>
        om_org m \<in> og_id ` set gs))"
proof (induction ms arbitrary: s gs)
  case Nil
  then show ?case by simp
next
  case (Cons m ms)
  have r: "keeps org_tables (repo_get_org i)" for i
    unfolding repo_get_org_def found_org_def by (intro keeps_calls; simp)
  show ?case
  proof (cases "om_role m = RoleOwner")
    case False
    with Cons show ?thesis by auto
  next
    case True
    obtain x v where x: "repo_get_org (om_org m) s = (x, v)" by force
    from keepsD' [OF r x] have v: "org_tables v = org_tables s" .
    then have mv: "org_map v = org_map s" by (rule org_viewD(2) [OF org_tables_view])
    show ?thesis
    proof (cases x)
      case (Inl e)
      with Cons.prems True x have e: "e = ErrOrgNotFound" and o: "owned_among u ms v = (Inr gs, t)" by (auto simp: bindE_run split: if_splits)
      have "org_map s (om_org m) = None"
        using org_kind_of_Inl [of "om_org m" s v] x Inl e by (simp add: org_kind_of_def bindE_run)
      with Cons.IH [OF o] v mv show ?thesis by auto
    next
      case (Inr g)
      with Cons.prems True x obtain gs1 where o: "owned_among u ms v = (Inr gs1, t)"
        and gs: "gs = (if kind_of g = KindPersonal \<and> og_owner g = u then g # gs1 else gs1)"
        by (auto simp: bindE_run split: sum.splits prod.splits)
      from repo_get_org_Inr [OF x [unfolded Inr]] obtain h where h: "org_map s (om_org m) = Some h" "g = h\<lparr>og_id := om_org m\<rparr>" by blast
      from Cons.IH [OF o] v mv h gs show ?thesis by auto
    qed
  qed
qed

lemma owned_spaces_Inr:
  assumes "owned_spaces u s = (Inr gs, t)" and "org_ok s" and "length (rows_of_user u (member_tbl s)) \<le> 200"
  shows "org_tables t = org_tables s \<and> card (owned_ids u s) \<le> length gs"
proof -
  obtain ms v where l: "repo_list_for_user u s = (Inr ms, v)" and o: "owned_among u ms v = (Inr gs, t)"
    using assms(1) unfolding owned_spaces_def by (elim bindE_InrE) (rule that; assumption)
  have "keeps org_tables (repo_list_for_user u)" unfolding repo_list_for_user_def by (intro keeps_calls; simp)
  from keepsD' [OF this l] have v: "org_tables v = org_tables s" .
  from l have ms: "ms = map unmarshal_membership (rows_of_user u (member_tbl s))"
    using assms(3) unfolding repo_list_for_user_def by (auto dest!: db_read_Inr)
  have "owned_ids u s \<subseteq> og_id ` set gs"
  proof
    fix i assume "i \<in> owned_ids u s"
    then obtain g where g: "org_map s i = Some g" "kind_of g = KindPersonal" "og_owner g = u" by (auto simp: owned_ids_def)
    from org_okD(1) [OF assms(2) g(1)] g(3) obtain m where m: "tget (member_tbl s) (member_key i u) = Some m" "om_role m = RoleOwner"
      by (auto simp: role_at_def)
    then have "(member_key i u, m) \<in> set (rows_of_user u (member_tbl s))"
      by (auto simp: rows_of_user_def tget_def dest: map_of_SomeD)
    then have "unmarshal_membership (member_key i u, m) \<in> set ms" by (auto simp: ms)
    moreover have "om_org (unmarshal_membership (member_key i u, m)) = i" "om_role (unmarshal_membership (member_key i u, m)) = RoleOwner"
      using m(2) by (simp_all add: unmarshal_membership_def)
    moreover have "org_map v = org_map s" by (rule org_viewD(2) [OF org_tables_view [OF v]])
    ultimately show "i \<in> og_id ` set gs" using owned_among_Inr [OF o] g by metis
  qed
  then have "card (owned_ids u s) \<le> card (og_id ` set gs)" by (intro card_mono) simp_all
  also have "\<dots> \<le> length gs" by (meson card_image_le card_length List.finite_set le_trans)
  finally show ?thesis using owned_among_Inr [OF o] v by simp
qed

lemma plan_reconcile:
  assumes "org_ok s" and "plan_ok u l s" and "w = u \<longrightarrow> length (rows_of_user u (member_tbl s)) \<le> 200"
  shows "plan_ok u l (snd (reconcile_space_counter C w s))"
proof -
  have so: "keeps org_tables (owned_spaces w)" "keeps org_tables (space_counter w)"
  proof -
    have owned: "keeps org_tables (owned_among w ms)" for ms
    proof (induction ms)
      case Nil
      show ?case unfolding owned_among.simps by (rule keeps_calls)
    next
      case (Cons m ms)
      then show ?case unfolding owned_among.simps repo_get_org_def found_org_def by (intro keeps_calls; simp)
    qed
    show "keeps org_tables (owned_spaces w)" "keeps org_tables (space_counter w)"
      unfolding owned_spaces_def repo_list_for_user_def space_counter_def by (intro keeps_calls owned; simp)+
  qed
  show ?thesis
    unfolding reconcile_space_counter_def reconcile_from_def
  proof (intro plan_if plan_bind [OF so(1)] plan_bind [OF so(2)], goal_cases)
    case (5 gs t seen t1)
    have w: "plan_ok u l (snd (db_cond OrgInfra ErrCounterMoved c (set_spaces w (int (length gs))) t1))" for c
    proof -
      have "plan_ok u l (set_spaces w (int (length gs)) (t1\<lparr>faults := os\<rparr>))" for os
      proof -
        have "owned_ids u (set_spaces w (int (length gs)) (t1\<lparr>faults := os\<rparr>)) = owned_ids u t1" by (rule owned_same) simp
        moreover have "w = u \<Longrightarrow> card (owned_ids u t1) \<le> length gs"
        proof -
          assume "w = u"
          with 5(2) have g: "owned_spaces u s = (Inr gs, t)" by simp
          have "owned_ids u t1 = owned_ids u s" using org_viewD(2) [OF org_tables_view, of t1 s] 5 by (intro owned_same) simp
          with owned_spaces_Inr [OF g assms(1)] assms(3) \<open>w = u\<close> show ?thesis by simp
        qed
        ultimately show ?thesis using 5(7) by (cases "u = w") (auto simp: plan_ok_def split: option.splits)
      qed
      moreover have "plan_ok u l (t1\<lparr>faults := os\<rparr>)" for os using 5(7) blindD [OF blind_plan_ok] by blast
      ultimately show ?thesis
        using db_cond_cases [of OrgInfra ErrCounterMoved c "set_spaces w (int (length gs))" t1] by (elim exE disjE conjE) simp_all
    qed
    let ?c = "\<lambda>s. guard_holds \<lparr>cw_expect = seen, cw_next = int (length gs), cw_blind = False\<rparr> (spaces_at w s)"
    obtain r v where d: "db_cond OrgInfra ErrCounterMoved ?c (set_spaces w (int (length gs))) t1 = (r, v)" by force
    with w [of ?c] have "plan_ok u l v" by simp
    then show ?case
      unfolding repo_reconcile_space_counter_def settled_def using d by (auto simp: bindE_run split: sum.split)
  qed (use assms in simp_all)
qed

section \<open>The plan holds\<close>

text \<open>A run: calls of anybody, the passing of time, and creations split at their write: what a request read and checked
  is carried out at any later moment, any number of times. \<open>planned\<close> are the creations on their way.\<close>

type_synonym pending = "(organization \<times> string \<times> counter_write) set"

inductive plan_step :: "'x org_conf \<Rightarrow> 'x org_db_scheme \<times> pending \<Rightarrow> 'x org_db_scheme \<times> pending \<Rightarrow> bool" for C where
  call: "(\<And>w. c = Reconcile w \<Longrightarrow> length (rows_of_user w (member_tbl s)) \<le> 200) \<Longrightarrow> plan_step C (s, P) (perform C c s, P)"
| tick: "clock s \<le> n \<Longrightarrow> plan_step C (s, P) (s\<lparr>clock := n\<rparr>, P)"
| check: "get_quotas C (og_owner g) s = (Inr q, t) \<Longrightarrow> space_guard (og_owner g) q False t = (Inr w, v) \<Longrightarrow>
    plan_step C (s, P) (v, insert (g, name, w) P)"
| carry: "(g, name, w) \<in> P \<Longrightarrow> plan_step C (s, P) (snd (create_with_owner_guarded g name w s), P)"

definition plan_inv :: "string \<Rightarrow> int \<Rightarrow> 'x org_db_scheme \<times> pending \<Rightarrow> bool" where
  "plan_inv u l c \<longleftrightarrow> org_ok (fst c) \<and> plan_ok u l (fst c) \<and> (\<forall>(g, name, w)\<in>snd c. og_owner g = u \<longrightarrow> sound_guard l w)"

lemma plan_create:
  assumes "plan_fixed C u l" shows "preserves (plan_ok u l) (create_of_kind C k w n d)"
proof -
  have lim: "limited C" using assms by (auto simp: plan_fixed_def limited_def)
  have plain: "preserves (plan_ok u l) (create_with_owner g name)" if "kind_of g \<noteq> KindPersonal" for g name
    unfolding create_with_owner_def
  proof (rule preserves_db_cond [OF blind_plan_ok blind_rows(4)])
    fix s assume s: "plan_ok u l s" and f: "create_fits g name s"
    show "plan_ok u l (create_items g name s)"
      by (rule plan_untouched [OF s]) (use owned_created [OF f, of u] that in auto)
  qed
  have kind: "kind_of (new_organization i kd w nm t) = kd" if "normalize_kind k = Some kd" for i kd nm t
    using that by (auto simp: new_organization_def kind_of_def normalize_kind_def KindOrganization_def KindPersonal_def split: if_splits)
  have notify: "preserves (plan_ok u l) (notify x)" for x by (intro plan_kept plan_looks)
  have uuid: "preserves (plan_ok u l) new_uuid" by (intro plan_kept keeps_calls) simp
  show ?thesis
    unfolding create_of_kind_def Let_def using lim kind
    by (auto intro!: wp preserves_cases plain plan_create_guarded [OF assms] notify uuid split: option.split)
qed

lemma plan_rename: "preserves (plan_ok u l) (rename_org i a d)"
proof -
  have "plan_ok u l (change_org i (\<lambda>g. g\<lparr>og_display_name := nm, og_updated_at := n\<rparr>) s)" if "plan_ok u l s" for s :: "'a org_db_scheme" and nm n
    by (rule plan_untouched [OF that]) (auto simp: owned_ids_def kind_of_def split: if_splits)
  moreover have "preserves (plan_ok u l) (require_role i a RoleAdmin :: ('a, unit) org_prog)" by (intro plan_kept plan_looks)
  ultimately show ?thesis
    unfolding rename_org_def update_display_name_def Let_def
    by (intro wp preserves_db_cond blind_plan_ok blind_rows) simp_all
qed

lemma plan_perform:
  fixes s :: "'x org_db_scheme"
  assumes "plan_fixed C u l" and "tame_granter C" and "org_ok s" and "plan_ok u l s"
    and "\<And>w. c = Reconcile w \<Longrightarrow> length (rows_of_user w (member_tbl s)) \<le> 200"
  shows "plan_ok u l (perform C c s)"
proof -
  have kept: "keeps (plan_view u) f \<Longrightarrow> plan_ok u l (snd (f s))" for f :: "('x, 'y) org_prog"
    by (rule preservesD [OF plan_kept assms(4)])
  show ?thesis
  proof (cases c)
    case (CreateWorkspace k w n d)
    with preservesD [OF plan_create [OF assms(1)] assms(4)] show ?thesis by simp
  next
    case (Rename i a d)
    with preservesD [OF plan_rename assms(4)] show ?thesis by simp
  next
    case (Transfer i a w)
    with plan_transfer [OF assms(1,3,4)] show ?thesis by simp
  next
    case (Reconcile w)
    with plan_reconcile [OF assms(3,4), of w C] assms(5) show ?thesis by simp
  qed (auto intro!: kept plan_members plan_offers assms(2))
qed

lemma plan_step_inv:
  assumes "plan_step C c d" and "plan_fixed C u l" and "tame_granter C" and "plan_inv u l c"
  shows "plan_inv u l d"
  using assms(1)
proof cases
  case (call e s P)
  then have s: "org_ok s" "plan_ok u l s" using assms(4) by (simp_all add: plan_inv_def)
  have "org_ok (perform C e s)" using owners_perform [OF assms(3), of s e] s by (simp add: owner_follows_def)
  with plan_perform [OF assms(2,3) s] call assms(4) show ?thesis by (simp add: plan_inv_def)
next
  case (tick s n P)
  have "plan_ok u l (s\<lparr>clock := n\<rparr>)" if "plan_ok u l s" by (rule plan_ok_view [OF _ that]) simp
  with tick assms(4) show ?thesis by (simp add: plan_inv_def org_ok_def)
next
  case (check g s q t w v P name)
  have tq: "keeps org_tables (get_quotas C (og_owner g))" unfolding get_quotas_def by (intro keeps_calls)
  from keepsD' [OF tq check(3)] keepsD' [OF tables_guard check(4)] have v: "org_tables v = org_tables s" by simp
  have "og_owner g = u \<longrightarrow> sound_guard l w" using fixed_guard [OF assms(2)] check by auto
  with check assms(4) tables_org_ok [OF v] plan_tables [OF v] show ?thesis by (auto simp: plan_inv_def)
next
  case (carry g name w P s)
  then have s: "org_ok s" "plan_ok u l s" "og_owner g = u \<Longrightarrow> sound_guard l w" using assms(4) by (auto simp: plan_inv_def)
  have "owner_follows s (snd (create_with_owner_guarded g name w s))"
    unfolding create_with_owner_guarded_def by (intro owners.guarded owners_counted owners_created blind_rows)
  with s preservesD [OF plan_create_write s(2)] carry assms(4) show ?thesis by (auto simp: plan_inv_def owner_follows_def)
qed

text \<open>Claim C10. The plan holds under races. Let the plan of a person allow a fixed number of spaces and let there be no
  workspaces to begin with. Whatever anybody calls, whatever calls of the database fail, conflict or lose
  their answer, and even if requests to create a space check the plan long before they write, in any
  order, the person never owns more spaces than the plan allows, as long as the counter is reconciled only
  for people in at most 200 workspaces.\<close>

theorem spaces_within_plan:
  assumes "(plan_step C)\<^sup>*\<^sup>* (s0, {}) (s, P)" and "plan_fixed C u l" and "tame_granter C"
    and "org_tbl s0 = []" and "member_tbl s0 = []" and "invite_tbl s0 = []"
  shows "int (card (owned_ids u s)) \<le> l"
proof -
  have "plan_inv u l (s0, {})"
    using assms(2,4-6) by (simp add: plan_inv_def org_ok_def plan_ok_def owned_ids_def org_map_def role_at_def spaces_at_def plan_fixed_def)
  have "plan_inv u l c" if "(plan_step C)\<^sup>*\<^sup>* (s0, {}) c" for c
    using that by (induction rule: rtranclp_induct) (blast intro: \<open>plan_inv u l (s0, {})\<close> plan_step_inv assms(2,3))+
  from this [OF assms(1)] show ?thesis by (simp add: plan_inv_def plan_ok_def)
qed

section \<open>Where the service promises more than it keeps\<close>

lemma owned_counts:
  assumes "create_fits g name s" and "kind_of g = KindPersonal"
  shows "card (owned_ids (og_owner g) (create_items g name s)) = Suc (card (owned_ids (og_owner g) s))"
  using owned_created [OF assms(1), of "og_owner g"] assms(2) by simp

lemma create_guarded_calm:
  assumes "faults s = []" and "create_fits g name s" and "guard_holds w (spaces_at (og_owner g) s)"
  shows "create_with_owner_guarded g name w s =
    (Inr (), set_spaces (og_owner g) (cw_next w) (create_items g name (conflicts_update tl s)))"
  using assms unfolding create_with_owner_guarded_def guarded_tx_def
  by (simp add: bindE_run create_fits_def member_absent_def)

lemma fits_apart:
  assumes "create_fits h m s" and "og_id h \<noteq> og_id g" shows "create_fits h m (create_items g name s)"
  using assms by (simp add: create_fits_def member_absent_def create_items_def store_member_def membership_item_def owner_membership_def)

lemma fits_frames [simp]:
  "create_fits h m (conflicts_update f s) = create_fits h m s" "create_fits h m (set_spaces u n s) = create_fits h m s"
  by (simp_all add: create_fits_def member_absent_def set_spaces_def)

lemma faults_frames [simp]: "faults (create_items g n s) = faults s" "faults (set_spaces u k s) = faults s"
  by (simp_all add: create_items_def store_member_def set_spaces_def)

text \<open>Claim C13. A reconciliation can break the plan. The worker lists the spaces and reads the counter afterwards, so a
  creation between the two is seen in the counter but not in the list, and the conditional write that is to
  let a creation win lowers the counter below the truth. One short of the limit, two requests and the
  worker have listed the spaces; the first request creates one, the worker reconciles, and the guard of
  the second request reads the lowered counter: no call fails, and the person owns one space more than
  the plan allows.\<close>

theorem reconcile_breaks_plan:
  assumes "faults s = []" and "qu_spaces q = l" and "l = int (card (owned_ids u s)) + 1" and "spaces_at u s = Some (l - 1)"
    and "create_fits g name s" and "create_fits h name s" and "og_id g \<noteq> og_id h"
    and "og_owner g = u" and "og_owner h = u" and "kind_of g = KindPersonal" and "kind_of h = KindPersonal"
  shows "\<exists>v w s1 s2 s3.
    guard_from u q False (l - 1) s = (Inr v, s) \<and> create_with_owner_guarded g name v s = (Inr (), s1) \<and>
    reconcile_from u (l - 1) s1 = (Inr (), s2) \<and>
    guard_from u q False (l - 1) s2 = (Inr w, s2) \<and> create_with_owner_guarded h name w s2 = (Inr (), s3) \<and>
    int (card (owned_ids u s3)) = l + 1"
proof -
  let ?v = "\<lparr>cw_expect = Some (l - 1), cw_next = l, cw_blind = (l = Unlimited)\<rparr>"
  let ?s1 = "set_spaces u l (create_items g name (conflicts_update tl s))"
  let ?s2 = "set_spaces u (l - 1) ?s1"
  let ?s3 = "set_spaces u l (create_items h name (conflicts_update tl ?s2))"
  have g: "guard_from u q False (l - 1) x = (Inr ?v, x)" if "faults x = []" "spaces_at u x = Some (l - 1)" for x
    using that assms(2) by (simp add: guard_from_def space_counter_def bindE_run allows_def)
  have a: "create_with_owner_guarded g name ?v s = (Inr (), ?s1)"
    using create_guarded_calm [OF assms(1,5), of ?v] assms(4,8) by (simp add: guard_holds_def)
  have r: "reconcile_from u (l - 1) ?s1 = (Inr (), ?s2)"
    using assms(1) by (simp add: reconcile_from_def space_counter_def repo_reconcile_space_counter_def settled_def bindE_run guard_holds_def)
  have fits: "create_fits h name ?s2" using fits_apart [of h name "conflicts_update tl s" g name] assms(6,7) by simp
  have b: "create_with_owner_guarded h name ?v ?s2 = (Inr (), ?s3)"
    using create_guarded_calm [OF _ fits, of ?v] assms(1,9) by (simp add: guard_holds_def)
  have c: "card (owned_ids u ?s3) = Suc (Suc (card (owned_ids u s)))"
  proof -
    have "card (owned_ids u ?s3) = card (owned_ids u (create_items h name ?s2))"
      using owned_same [of ?s3 "create_items h name ?s2" u] by (simp add: fun_eq_iff)
    also have "\<dots> = Suc (card (owned_ids u ?s2))" using owned_counts [OF fits assms(11)] assms(9) by simp
    also have "owned_ids u ?s2 = owned_ids u (create_items g name s)" by (rule owned_same) (simp add: fun_eq_iff)
    also have "card \<dots> = Suc (card (owned_ids u s))" using owned_counts [OF assms(5,10)] assms(8) by simp
    finally show ?thesis .
  qed
  show ?thesis
    using g [OF assms(1,4)] a r g [of ?s2] b c assms(1,3) by (intro exI [of _ ?v] exI [of _ ?s1] exI [of _ ?s2] exI [of _ ?s3]) simp
qed

text \<open>What a withdrawal leaves: the row of the invitation is gone, the members are as they were.\<close>

lemma withdrawn:
  assumes "revoke_invitation C i a e s = (Inr (), t)"
  shows "tget (invite_tbl t) (invite_key i e) = None" and "member_tbl t = member_tbl s"
proof -
  have "keeps member_tbl (revoke_invitation C i a e :: ('a, unit) org_prog)"
    unfolding revoke_invitation_def require_role_def role_of_def get_membership_def found_member_def personal_space_def repo_get_org_def
      found_org_def counted_in_def existing_invitation_def get_invitation_def delete_invitation_def after_people_left_def
      decrement_people_counter_def settled_def notify_def
    by (intro keeps_calls; simp add: set_people_def keeps_def tracks_def blind_def)
  from keepsD [OF this, of s] assms show "member_tbl t = member_tbl s" by simp
  obtain sp counted s1 s2 where w: "delete_invitation i e s1 = (Inr (), s2)"
    and r: "(case sp of None \<Rightarrow> ret () | Some g \<Rightarrow> if counted then after_people_left g else ret ()) s2 = (Inr (), t)"
    using assms unfolding revoke_invitation_def by (elim bindE_InrE) auto
  have "keeps invite_tbl ((case sp of None \<Rightarrow> ret () | Some g \<Rightarrow> (if counted then after_people_left g else ret ())) :: ('a, unit) org_prog)"
    unfolding after_people_left_def decrement_people_counter_def settled_def notify_def
    by (intro keeps_calls; simp add: set_people_def keeps_def tracks_def blind_def)
  from keepsD [OF this, of s2] r have "invite_tbl t = invite_tbl s2" by simp
  moreover have "invite_tbl s2 = tdel (invite_key i e) (invite_tbl s1)"
    using w db_cond_cases [of OrgInfra OrgInfra "\<lambda>_. True" "invite_tbl_update (tdel (invite_key i e))" s1]
    unfolding delete_invitation_def db_write_def by auto
  ultimately show "tget (invite_tbl t) (invite_key i e) = None" by simp
qed

lemma personal_space_calm: "faults s = [] \<Longrightarrow> \<exists>sp. personal_space C i s = (Inr sp, s)"
proof (cases "tget (org_tbl s) (org_key i)")
  case (Some it)
  assume "faults s = []"
  with Some show ?thesis
    by (cases it) (simp_all add: personal_space_def repo_get_org_def found_org_def bindE_run tryE_run)
qed (simp add: personal_space_def repo_get_org_def found_org_def bindE_run tryE_run)

lemma join_calm:
  assumes "faults s = []" and "oc_granter C = None" and "member_absent (joining iv u name (clock s)) s"
  shows "\<exists>m t. join C iv u name s = (Inr m, t) \<and> role_at (member_tbl t) (iv_org iv) u = Some (iv_role iv)"
proof -
  let ?m = "joining iv u name (clock s)" and ?k = "invite_key (iv_org iv) (iv_email iv)"
  let ?t = "invite_tbl_update (tdel ?k) (store_member ?m s)"
  have a: "accept_invitation ?m (iv_email iv) s = (Inr (), ?t)"
    using assms(1,3) by (simp add: accept_invitation_def joining_def)
  have f: "faults ?t = []" using assms(1) by (simp add: store_member_def)
  obtain sp where sp: "personal_space C (iv_org iv) ?t = (Inr sp, ?t)"
    using personal_space_calm [OF f] by blast
  obtain v where n: "if_space C (iv_org iv) (\<lambda>g. notify (LevelsChanged (og_owner g))) ?t = (Inr (), v)" and mv: "member_tbl v = member_tbl ?t"
    using sp by (cases sp) (simp_all add: if_space_def bindE_run notify_def)
  have "join C iv u name s = (Inr ?m, v)"
    using a n assms(2) by (simp add: join_def bindE_run Let_def grant_companies_def)
  moreover have "role_at (member_tbl v) (iv_org iv) u = Some (iv_role iv)"
    unfolding mv by (simp add: role_at_def store_member_def membership_item_def joining_def)
  ultimately show ?thesis by blast
qed

text \<open>Claim C14. A withdrawn invitation can still be redeemed. The acceptance deletes the row of the invitation without the
  condition that it is there, so a request that read the invitation before an administrator withdrew it
  makes its person a member afterwards, although the withdrawal reported success and the row is gone; no
  call fails.\<close>

theorem withdrawn_offer_admits:
  assumes "check_invitation C token u e s = (Inr iv, s1)" and "revoke_invitation C (iv_org iv) a (iv_email iv) s1 = (Inr (), t)"
    and "faults t = []" and "oc_granter C = None" and "role_at (member_tbl s1) (iv_org iv) u = None"
  shows "tget (invite_tbl t) (invite_key (iv_org iv) (iv_email iv)) = None \<and>
    (\<exists>m v. join C iv u name t = (Inr m, v) \<and> role_at (member_tbl v) (iv_org iv) u = Some (iv_role iv))"
proof -
  note w = withdrawn [OF assms(2)]
  have "member_absent (joining iv u name (clock t)) t"
    using assms(5) w(2) by (simp add: member_absent_def joining_def role_at_def)
  with w(1) join_calm [OF assms(3,4)] show ?thesis by blast
qed

end
