(* ===== verification/OrgDemo.thy ===== *)
theory OrgDemo
  imports OrgLimits
begin

text \<open>Concrete runs of the workspace service: the hypotheses of its properties hold somewhere.\<close>

section \<open>A household\<close>

definition demo_plan :: quotas where
  "demo_plan = \<lparr>qu_plan = ''home'', qu_spaces = 1, qu_people = 2\<rparr>"

definition demo_org_conf :: "unit org_conf" where
  "demo_org_conf = \<lparr>oc_sha = (\<lambda>t. map (\<lambda>c. word_of_nat (of_char c)) t), oc_plans = Some (\<lambda>u n. Some demo_plan),
     oc_email_owner = None, oc_granter = None\<rparr>"

definition demo_desk :: org_db where
  "demo_desk = \<lparr>clock = 0, faults = [], rng = (\<lambda>n. Some n), rng_ix = 7, uuids = (\<lambda>n. replicate n CHR ''o''), uuid_ix = 1,
     org_tbl = [], member_tbl = [], invite_tbl = [], conflicts = [], notices = []\<rparr>"

definition demo_create :: org_call where
  "demo_create = CreateWorkspace ''personal'' ''a'' ''Ann'' ''Home''"

definition demo_home :: org_db where
  "demo_home = perform demo_org_conf demo_create demo_desk"

definition demo_shared :: org_db where
  "demo_shared = demo_home\<lparr>member_tbl := member_tbl demo_home @
     [(member_key ''o'' ''b'', \<lparr>om_org = [], om_user = [], om_name = ''Bob'', om_role = RoleViewer, om_invited_by = ''a'', om_created_at = 0\<rparr>)]\<rparr>"

definition demo_promote :: org_call where
  "demo_promote = SetRole ''o'' ''a'' ''b'' ''member''"

definition demo_invite :: org_call where
  "demo_invite = Invite ''o'' ''a'' ''C@x'' ''viewer'' []"

lemma demo_tame: "tame_granter demo_org_conf"
  by (simp add: tame_granter_def demo_org_conf_def)

lemma demo_fixed: "plan_fixed demo_org_conf u 1"
  by (simp add: plan_fixed_def demo_org_conf_def demo_plan_def)

section \<open>Roles and invitations\<close>

lemma demo_promoted:
  "role_at (member_tbl demo_shared) ''o'' ''b'' = Some ''viewer''"
  "role_at (member_tbl (perform demo_org_conf demo_promote demo_shared)) ''o'' ''b'' = Some ''member''"
  by code_simp+

theorem roles_change_by_right_witness:
  "entitled demo_org_conf demo_promote demo_shared ''o'' ''b'' (Some ''member'')"
  using roles_change_by_right [OF demo_tame, of demo_promote demo_shared "''o''" "''b''"] demo_promoted by simp

definition demo_offer :: "key \<times> invitation" where
  "demo_offer = hd (invite_tbl (perform demo_org_conf demo_invite demo_shared))"

lemma demo_invited:
  "invite_tbl demo_shared = []" "length (invite_tbl (perform demo_org_conf demo_invite demo_shared)) = 1"
  by code_simp+

theorem invitations_within_reach_witness: "invited demo_invite demo_shared demo_offer"
proof -
  have "demo_offer \<in> set (invite_tbl (perform demo_org_conf demo_invite demo_shared))"
    using demo_invited(2) unfolding demo_offer_def by (intro hd_in_set) auto
  from invitations_within_reach [OF demo_tame this] demo_invited(1) show ?thesis by simp
qed

section \<open>Runs\<close>

theorem every_workspace_has_one_owner_witness:
  "one_owner (perform demo_org_conf demo_invite demo_home) \<and> role_at (member_tbl demo_home) ''o'' ''a'' = Some RoleOwner"
proof
  have "(org_step demo_org_conf)\<^sup>*\<^sup>* demo_desk (perform demo_org_conf demo_invite demo_home)"
    unfolding demo_home_def by (meson org_step.call r_into_rtranclp rtranclp.rtrancl_into_rtrancl)
  from every_workspace_has_one_owner [OF this demo_tame] show "one_owner (perform demo_org_conf demo_invite demo_home)"
    by (simp add: demo_desk_def)
  show "role_at (member_tbl demo_home) ''o'' ''a'' = Some RoleOwner" by code_simp
qed

theorem spaces_within_plan_witness:
  "int (card (owned_ids ''a'' demo_home)) \<le> 1 \<and> spaces_at ''a'' demo_home = Some 1"
proof
  have "plan_step demo_org_conf (demo_desk, {}) (demo_home, {})"
    unfolding demo_home_def by (rule plan_step.call) (simp add: demo_create_def)
  then have "(plan_step demo_org_conf)\<^sup>*\<^sup>* (demo_desk, {}) (demo_home, {})" by simp
  from spaces_within_plan [OF this demo_fixed demo_tame] show "int (card (owned_ids ''a'' demo_home)) \<le> 1"
    by (simp add: demo_desk_def)
  show "spaces_at ''a'' demo_home = Some 1" by code_simp
qed

section \<open>Where the service promises more than it keeps\<close>

definition demo_counted :: org_db where
  "demo_counted = demo_desk\<lparr>org_tbl := [(spaces_key ''a'', SpacesI 0)]\<rparr>"

definition demo_space :: "string \<Rightarrow> organization" where
  "demo_space i = new_organization i KindPersonal ''a'' ''Home'' 0"

lemma demo_space_simps [simp]:
  "og_id (demo_space i) = i" "og_owner (demo_space i) = ''a''" "kind_of (demo_space i) = KindPersonal"
  by (simp_all add: demo_space_def new_organization_def kind_of_def normalize_kind_def KindPersonal_def KindOrganization_def)

lemma demo_counted_simps:
  "faults demo_counted = []" "spaces_at ''a'' demo_counted = Some 0" "create_fits (demo_space i) name demo_counted"
  "owned_ids u demo_counted = {}"
proof -
  have k: "org_key i \<noteq> spaces_key v" for i v by (simp add: org_pk_def owner_pk_def orgPKPrefix_def ownerPKPrefix_def)
  show "faults demo_counted = []" "spaces_at ''a'' demo_counted = Some 0"
    by (simp_all add: demo_counted_def demo_desk_def spaces_at_def)
  show "create_fits (demo_space i) name demo_counted" "owned_ids u demo_counted = {}"
    using k by (auto simp: create_fits_def member_absent_def owned_ids_def org_map_def demo_counted_def demo_desk_def)
qed

theorem reconcile_breaks_plan_witness:
  "\<exists>s :: org_db. int (card (owned_ids ''a'' s)) = qu_spaces demo_plan + 1"
proof -
  have "\<exists>v w s1 s2 s3. guard_from ''a'' demo_plan False (1 - 1) demo_counted = (Inr v, demo_counted) \<and>
    create_with_owner_guarded (demo_space ''p'') ''Ann'' v demo_counted = (Inr (), s1) \<and>
    reconcile_from ''a'' (1 - 1) s1 = (Inr (), s2) \<and> guard_from ''a'' demo_plan False (1 - 1) s2 = (Inr w, s2) \<and>
    create_with_owner_guarded (demo_space ''q'') ''Ann'' w s2 = (Inr (), s3) \<and> int (card (owned_ids ''a'' s3)) = 1 + 1"
    by (rule reconcile_breaks_plan) (simp_all add: demo_counted_simps demo_plan_def)
  then show ?thesis by (auto simp: demo_plan_def)
qed

definition demo_token :: string where
  "demo_token = (case fst (invite demo_org_conf ''o'' ''a'' ''C@x'' ''viewer'' [] demo_home) of Inr t \<Rightarrow> t | Inl _ \<Rightarrow> [])"

definition demo_asked :: org_db where
  "demo_asked = perform demo_org_conf demo_invite demo_home"

lemma demo_check:
  "(case fst (check_invitation demo_org_conf demo_token ''c'' ''c@X'' demo_asked) of
      Inr iv \<Rightarrow> iv_org iv = ''o'' \<and> iv_email iv = ''c@x'' \<and> iv_role iv = ''viewer'' | Inl _ \<Rightarrow> False)"
  by code_simp

lemma demo_withdrawal:
  "(case fst (revoke_invitation demo_org_conf ''o'' ''a'' ''c@x'' (snd (check_invitation demo_org_conf demo_token ''c'' ''c@X'' demo_asked))) of
      Inr _ \<Rightarrow> True | Inl _ \<Rightarrow> False)"
  "faults (snd (revoke_invitation demo_org_conf ''o'' ''a'' ''c@x'' (snd (check_invitation demo_org_conf demo_token ''c'' ''c@X'' demo_asked)))) = []"
  "role_at (member_tbl (snd (check_invitation demo_org_conf demo_token ''c'' ''c@X'' demo_asked))) ''o'' ''c'' = None"
  by code_simp+

theorem withdrawn_offer_admits_witness:
  "\<exists>(t :: org_db) v :: org_db. tget (invite_tbl t) (invite_key ''o'' ''c@x'') = None \<and> role_at (member_tbl v) ''o'' ''c'' = Some ''viewer''"
proof -
  obtain iv s where c: "check_invitation demo_org_conf demo_token ''c'' ''c@X'' demo_asked = (Inr iv, s)"
    and i: "iv_org iv = ''o''" "iv_email iv = ''c@x''" "iv_role iv = ''viewer''"
    using demo_check by (cases "check_invitation demo_org_conf demo_token ''c'' ''c@X'' demo_asked") (auto split: sum.splits)
  obtain t where r: "revoke_invitation demo_org_conf (iv_org iv) ''a'' (iv_email iv) s = (Inr (), t)"
    using demo_withdrawal(1) unfolding i c
    by (cases "revoke_invitation demo_org_conf ''o'' ''a'' ''c@x'' s") (auto split: sum.splits)
  have "faults t = []" "role_at (member_tbl s) (iv_org iv) ''c'' = None"
    using demo_withdrawal(2,3) r unfolding c i by simp_all
  moreover have "oc_granter demo_org_conf = None" by (simp add: demo_org_conf_def)
  ultimately show ?thesis using withdrawn_offer_admits [OF c r, of "''Cy''"] unfolding i by blast
qed

end
