(* ===== verification/Kyc.thy ===== *)
theory Kyc
  imports OAuthTokens
begin

text \<open>
  Identity verification (\<open>internal/domain/kyc\<close>, \<open>internal/domain/risk\<close>): addresses, telephone numbers and
  dates, the rows of the users table the component writes, and the service with its two tiers and
  the review by a person. The check of a CPF is library code, the object store and the score of a
  submission are collaborators; all three are parameters.
\<close>

section \<open>Levels, states and documents\<close>

definition LevelNone :: string where "LevelNone = []"
definition StatusNone :: string where "StatusNone = []"
definition StatusPending :: string where "StatusPending = ''pending''"
definition StatusRejected :: string where "StatusRejected = ''rejected''"

definition StateNotStarted :: string where "StateNotStarted = ''not_started''"
definition StateBasicVerified :: string where "StateBasicVerified = ''basic_verified''"
definition StateUnderReview :: string where "StateUnderReview = ''under_review''"
definition StateRejected :: string where "StateRejected = ''rejected''"
definition StateVerified :: string where "StateVerified = ''verified''"

definition DocTypeIDFront :: string where "DocTypeIDFront = ''id_front''"
definition DocTypeIDBack :: string where "DocTypeIDBack = ''id_back''"
definition DocTypeSelfieWithDocument :: string where "DocTypeSelfieWithDocument = ''selfie_with_document''"

definition RequiredDocTypes :: "string list" where
  "RequiredDocTypes = [DocTypeIDFront, DocTypeIDBack, DocTypeSelfieWithDocument]"

definition RejectionOther :: string where "RejectionOther = ''other''"

definition RejectionCodes :: "string list" where
  "RejectionCodes = [''document_unreadable'', ''document_incomplete'', ''document_mismatch'', ''selfie_mismatch'',
     ''data_mismatch'', ''suspected_fraud'', RejectionOther]"

definition is_valid_rejection_code :: "string \<Rightarrow> bool" where
  "is_valid_rejection_code code \<longleftrightarrow> code \<in> set RejectionCodes"

definition DecisionApprove :: string where "DecisionApprove = ''approve''"
definition DecisionReject :: string where "DecisionReject = ''reject''"
definition ReviewQueuePending :: string where "ReviewQueuePending = ''pending''"
definition ReviewQueueCompleted :: string where "ReviewQueueCompleted = ''completed''"

definition MinAge :: int where "MinAge = 18"
definition SubmissionTTL :: time where "SubmissionTTL = 30 * day"
definition MaxDocumentBytes :: int where "MaxDocumentBytes = 5 * 2 ^ 20"
definition PresignTTL :: time where "PresignTTL = 10 * minute"
definition MaxDocuments :: nat where "MaxDocuments = 10"

definition build_cpf_pk :: "string \<Rightarrow> string" where "build_cpf_pk cpf = cpf_marker_pk cpf"

definition build_document_key :: "string \<Rightarrow> string \<Rightarrow> string" where
  "build_document_key uid doc = ''kyc/'' @ uid @ ''/'' @ doc"

definition is_valid_document_type :: "string \<Rightarrow> bool" where
  "is_valid_document_type t \<longleftrightarrow> t \<in> set RequiredDocTypes"

definition allowedContentTypes :: "string list" where
  "allowedContentTypes = [''image/jpeg'', ''image/png'', ''image/heic'', ''application/pdf'']"

definition is_valid_content_type :: "string \<Rightarrow> bool" where
  "is_valid_content_type ct \<longleftrightarrow> list_ex (has_prefix ct) allowedContentTypes"

datatype kyc_err = ErrInvalidCPF | ErrInvalidBirthDate | ErrUnderage | ErrCPFConflict | ErrInvalidPhone | ErrInvalidAddress
  | ErrKycVerified | ErrNotSubmitted | ErrBasicRequired | ErrBasicLocked | ErrInvalidMethod | ErrSubmissionLocked
  | ErrInvalidDocumentType | ErrInvalidContentType | ErrDocumentNotUploaded | ErrDocumentTooLarge | ErrTooManyDocuments
  | ErrNoDocuments | ErrInvalidDecision | ErrInvalidRejectionReason | ErrDocumentTypeMismatch | KycInfra | KycUser user_err

type_synonym ('x, 'a) kyc_prog = "('x user_db_scheme, kyc_err, 'a) prog"

section \<open>Addresses, telephone numbers and dates\<close>

definition is_digit :: "char \<Rightarrow> bool" where
  "is_digit c \<longleftrightarrow> 48 \<le> (of_char c :: nat) \<and> (of_char c :: nat) \<le> 57"

definition upper_char :: "char \<Rightarrow> char" where
  "upper_char c = (let n = of_char c :: nat in if 97 \<le> n \<and> n \<le> 122 then char_of (n - 32) else c)"

text \<open>\<open>strings.ToUpper\<close>, as far as it can give letters of ASCII: those of ASCII themselves, the dotless i and the long s,
  whose capitals are \<open>I\<close> and \<open>S\<close>. Other letters are left alone; no code of a state has them.\<close>

fun to_upper :: "string \<Rightarrow> string" where
  "to_upper (c # d # s) =
     (if c = CHR 0xC4 \<and> d = CHR 0xB1 then CHR ''I'' # to_upper s
      else if c = CHR 0xC5 \<and> d = CHR 0xBF then CHR ''S'' # to_upper s
      else upper_char c # to_upper (d # s))"
| "to_upper [c] = [upper_char c]"
| "to_upper [] = []"

definition ZipCodeDigits :: nat where "ZipCodeDigits = 8"

definition brazilianStates :: "string list" where
  "brazilianStates = [''AC'', ''AL'', ''AP'', ''AM'', ''BA'', ''CE'', ''DF'', ''ES'', ''GO'', ''MA'', ''MT'', ''MS'', ''MG'', ''PA'',
     ''PB'', ''PR'', ''PE'', ''PI'', ''RJ'', ''RN'', ''RS'', ''RO'', ''RR'', ''SC'', ''SP'', ''SE'', ''TO'']"

definition is_valid_state :: "string \<Rightarrow> bool" where
  "is_valid_state uf \<longleftrightarrow> to_upper uf \<in> set brazilianStates"

definition is_valid_zip_code :: "string \<Rightarrow> bool" where
  "is_valid_zip_code cep \<longleftrightarrow> length cep = ZipCodeDigits \<and> list_all is_digit cep"

definition normalize_address :: "address \<Rightarrow> address" where
  "normalize_address a = \<lparr>ad_zip_code = trim_space (ad_zip_code a), ad_street = trim_space (ad_street a),
     ad_number = trim_space (ad_number a), ad_complement = trim_space (ad_complement a),
     ad_district = trim_space (ad_district a), ad_city = trim_space (ad_city a),
     ad_state = to_upper (trim_space (ad_state a))\<rparr>"

definition validate_address :: "address \<Rightarrow> bool" where
  "validate_address a \<longleftrightarrow> is_valid_zip_code (ad_zip_code a) \<and> is_valid_state (ad_state a) \<and>
     ad_street a \<noteq> [] \<and> ad_number a \<noteq> [] \<and> ad_district a \<noteq> [] \<and> ad_city a \<noteq> []"

text \<open>\<open>+\<close>, a digit other than zero, and seven to fourteen digits.\<close>

fun is_valid_phone :: "string \<Rightarrow> bool" where
  "is_valid_phone (p # d # ds) \<longleftrightarrow> p = CHR ''+'' \<and> is_digit d \<and> d \<noteq> CHR ''0'' \<and> list_all is_digit ds \<and> 7 \<le> length ds \<and> length ds \<le> 14"
| "is_valid_phone _ \<longleftrightarrow> False"

text \<open>The masks; a bullet is three bytes of UTF-8.\<close>

definition bullet :: string where "bullet = [CHR 0xE2, CHR 0x80, CHR 0xA2]"

definition bullets :: "nat \<Rightarrow> string" where "bullets n = concat (replicate n bullet)"

definition mask_cpf :: "string \<Rightarrow> string" where
  "mask_cpf cpf = (if length cpf \<noteq> 11 then [] else take 3 cpf @ ''.'' @ bullets 3 @ ''.'' @ bullets 3 @ ''-'' @ drop 9 cpf)"

definition mask_phone :: "string \<Rightarrow> string" where
  "mask_phone p = (if length p < 4 then [] else bullets 4 @ ''-'' @ drop (length p - 4) p)"

text \<open>\<open>time.Parse\<close> with the layout \<open>2006-01-02\<close>: four, two and two digits and a day of the calendar.\<close>

definition number_of :: "string \<Rightarrow> int" where
  "number_of ds = foldl (\<lambda>n c. 10 * n + (int (of_char c) - 48)) 0 ds"

definition days_in_month :: "int \<Rightarrow> int \<Rightarrow> int" where
  "days_in_month y m = (if m = 12 then 31 else days_of_civil y (m + 1) 1 - days_of_civil y m 1)"

definition parse_birth_date :: "string \<Rightarrow> time option" where
  "parse_birth_date w =
     (if length w = 10 \<and> list_all is_digit (take 4 w @ take 2 (drop 5 w) @ drop 8 w) \<and> w ! 4 = CHR ''-'' \<and> w ! 7 = CHR ''-'' then
        let y = number_of (take 4 w); m = number_of (take 2 (drop 5 w)); d = number_of (drop 8 w)
        in if 1 \<le> m \<and> m \<le> 12 \<and> 1 \<le> d \<and> d \<le> days_in_month y m then Some (days_of_civil y m d * day) else None
      else None)"

definition is_at_least :: "time \<Rightarrow> int \<Rightarrow> time \<Rightarrow> bool" where
  "is_at_least born years n \<longleftrightarrow> \<not> n < add_years years born"

section \<open>The repository\<close>

record basic_record =
  br_cpf :: string
  br_legal_name :: string
  br_birth_date :: string
  br_phone_number :: string
  br_address :: address
  br_submitted_at :: stamp

record review_actor =
  ra_id :: string
  ra_name :: string

record signal =
  sg_name :: string
  sg_score :: int
  sg_detail :: string

record assessment =
  as_score :: int
  as_signals :: "signal list"
  as_evaluated_at :: stamp

definition repo_get_user :: "string \<Rightarrow> ('x, user) kyc_prog" where
  "repo_get_user uid = mapErr KycUser (user_get_by_id uid)"

text \<open>\<open>SaveBasicSubmission\<close> is one transaction: the lock of the CPF is put unless somebody else holds it, the
  user is updated whatever is stored there, and the lock of an earlier CPF is deleted.\<close>

definition cpf_free :: "string \<Rightarrow> string \<Rightarrow> 'x user_db_scheme \<Rightarrow> bool" where
  "cpf_free cpf uid s \<longleftrightarrow> (case tget (user_tbl s) (build_cpf_pk cpf) of
     None \<Rightarrow> True | Some (CpfI owner tm) \<Rightarrow> owner = uid | Some _ \<Rightarrow> False)"

definition with_basic :: "basic_record \<Rightarrow> stamp \<Rightarrow> user \<Rightarrow> user" where
  "with_basic r tm u = u\<lparr>u_cpf := br_cpf r, u_legal_name := br_legal_name r, u_birth_date := br_birth_date r,
     u_phone_number := br_phone_number r, u_address := br_address r, u_kyc_level := LevelBasic,
     u_kyc_status := StatusVerified, u_kyc_submitted_at := br_submitted_at r, u_kyc_basic_verified_at := br_submitted_at r,
     u_updated_at := tm, u_kyc_rejection_code := [], u_kyc_rejection_reason := [], u_phone_verified_at := None\<rparr>"

definition basic_tbl :: "string \<Rightarrow> basic_record \<Rightarrow> string \<Rightarrow> stamp \<Rightarrow> (string, user_item) table \<Rightarrow> (string, user_item) table" where
  "basic_tbl uid r old tm tb =
     (if old \<noteq> [] \<and> old \<noteq> br_cpf r then tdel (build_cpf_pk old) else id)
       (upd_user uid (with_basic r tm) (tput (build_cpf_pk (br_cpf r)) (CpfI uid tm) tb))"

definition save_basic_submission :: "string \<Rightarrow> basic_record \<Rightarrow> string \<Rightarrow> ('x, unit) kyc_prog" where
  "save_basic_submission uid r old =
     bindE now (\<lambda>n. db_cond KycInfra ErrCPFConflict (cpf_free (br_cpf r) uid) (user_tbl_update (basic_tbl uid r old (ts n))))"

definition add_document :: "string \<Rightarrow> kyc_document \<Rightarrow> ('x, unit) kyc_prog" where
  "add_document uid d =
     bindE now (\<lambda>n. db_write KycInfra
       (user_tbl_update (upd_user uid (\<lambda>u. u\<lparr>u_kyc_documents := u_kyc_documents u @ [d], u_updated_at := ts n\<rparr>))))"

definition pendingPKPrefix :: string where "pendingPKPrefix = ''KYCPEND_''"

definition build_pending_pk :: "string \<Rightarrow> string" where "build_pending_pk doc = pendingPKPrefix @ doc"

definition save_pending_document :: "string \<Rightarrow> string \<Rightarrow> string \<Rightarrow> string \<Rightarrow> ('x, unit) kyc_prog" where
  "save_pending_document uid doc t ct =
     db_cond KycInfra KycInfra (\<lambda>s. tget (user_tbl s) (build_pending_pk doc) = None)
       (user_tbl_update (tput (build_pending_pk doc) (IntentI uid t ct)))"

record pending_document =
  pd_user :: string
  pd_type :: string
  pd_content_type :: string

fun as_intent :: "user_item option \<Rightarrow> pending_document option" where
  "as_intent (Some (IntentI uid t ct)) = Some \<lparr>pd_user = uid, pd_type = t, pd_content_type = ct\<rparr>"
| "as_intent _ = None"

definition get_pending_document :: "string \<Rightarrow> ('x, pending_document option) kyc_prog" where
  "get_pending_document doc = db_read KycInfra (\<lambda>s. as_intent (tget (user_tbl s) (build_pending_pk doc)))"

definition delete_pending_document :: "string \<Rightarrow> ('x, unit) kyc_prog" where
  "delete_pending_document doc = db_write KycInfra (user_tbl_update (tdel (build_pending_pk doc)))"

definition submitted :: "stamp \<Rightarrow> stamp \<Rightarrow> user \<Rightarrow> user" where
  "submitted tm until u = u\<lparr>u_kyc_level := LevelEnhanced, u_kyc_status := StatusPending, u_kyc_submitted_at := tm,
     u_kyc_expires_at := until, u_kyc_rejection_reason := [], u_kyc_rejection_code := [], u_kyc_reviewed_at := None,
     u_kyc_reviewed_by := [], u_kyc_reviewed_by_name := [], u_kyc_review_decision := []\<rparr>"

definition save_enhanced_submission :: "string \<Rightarrow> stamp \<Rightarrow> stamp \<Rightarrow> ('x, unit) kyc_prog" where
  "save_enhanced_submission uid tm until = mapErr KycUser (user_update uid (submitted tm until))"

definition under_review :: "user \<Rightarrow> bool" where
  "under_review u \<longleftrightarrow> u_kyc_level u = LevelEnhanced \<and> u_kyc_status u = StatusPending"

definition review_open :: "string \<Rightarrow> 'x user_db_scheme \<Rightarrow> bool" where
  "review_open uid s \<longleftrightarrow> (case tget (user_tbl s) (build_pk uid) of Some (UserI u) \<Rightarrow> under_review u | _ \<Rightarrow> False)"

definition approved :: "stamp \<Rightarrow> review_actor \<Rightarrow> stamp \<Rightarrow> user \<Rightarrow> user" where
  "approved tm a n u = u\<lparr>u_kyc_status := StatusVerified, u_kyc_verified_at := tm, u_kyc_rejection_reason := [],
     u_kyc_rejection_code := [], u_kyc_reviewed_at := tm, u_kyc_reviewed_by := ra_id a, u_kyc_reviewed_by_name := ra_name a,
     u_kyc_review_decision := DecisionApprove, u_updated_at := n\<rparr>"

definition mark_verified :: "string \<Rightarrow> stamp \<Rightarrow> review_actor \<Rightarrow> ('x, unit) kyc_prog" where
  "mark_verified uid tm a =
     bindE now (\<lambda>n. db_cond KycInfra ErrNotSubmitted (review_open uid) (user_tbl_update (upd_user uid (approved tm a (ts n)))))"

definition refused :: "string \<Rightarrow> string \<Rightarrow> stamp \<Rightarrow> review_actor \<Rightarrow> stamp \<Rightarrow> user \<Rightarrow> user" where
  "refused code details tm a n u = u\<lparr>u_kyc_status := StatusRejected, u_kyc_rejection_code := code,
     u_kyc_rejection_reason := details, u_kyc_reviewed_at := tm, u_kyc_reviewed_by := ra_id a,
     u_kyc_reviewed_by_name := ra_name a, u_kyc_review_decision := DecisionReject, u_kyc_documents := [], u_updated_at := n\<rparr>"

definition mark_rejected :: "string \<Rightarrow> string \<Rightarrow> string \<Rightarrow> stamp \<Rightarrow> review_actor \<Rightarrow> ('x, unit) kyc_prog" where
  "mark_rejected uid code details tm a =
     bindE now (\<lambda>n. db_cond KycInfra ErrNotSubmitted (review_open uid)
       (user_tbl_update (upd_user uid (refused code details tm a (ts n)))))"

definition save_risk_assessment :: "string \<Rightarrow> assessment \<Rightarrow> ('x, unit) kyc_prog" where
  "save_risk_assessment uid a = mapErr KycUser (user_update uid (\<lambda>u. u\<lparr>u_kyc_risk_score := as_score a,
     u_kyc_risk_signals := map (\<lambda>g. sg_name g @ '':'' @ sg_detail g) (as_signals a),
     u_kyc_risk_evaluated_at := as_evaluated_at a\<rparr>))"

text \<open>The pages of a scan or of the index are read as one; the index shows the rows with a level and an instant of submission,
  the latest first.\<close>

definition all_users :: "(string, user_item) table \<Rightarrow> user list" where
  "all_users tb = List.map_filter (\<lambda>(k, i). as_user i) tb"

definition repo_list_pending_kyc :: "('x, user list) kyc_prog" where
  "repo_list_pending_kyc = db_read KycInfra (\<lambda>s. filter under_review (all_users (user_tbl s)))"

definition in_queue :: "string \<Rightarrow> user \<Rightarrow> bool" where
  "in_queue q u \<longleftrightarrow> (if q = ReviewQueuePending then u_kyc_status u = StatusPending
     else u_kyc_status u = StatusVerified \<or> u_kyc_status u = StatusRejected)"

definition repo_list_kyc_reviews :: "string \<Rightarrow> ('x, user list) kyc_prog" where
  "repo_list_kyc_reviews q =
     (if q \<noteq> ReviewQueuePending \<and> q \<noteq> ReviewQueueCompleted then throw ErrInvalidDecision
      else db_read KycInfra (\<lambda>s. take 100 (filter (in_queue q) (rev (sort_key (\<lambda>u. parse_time (u_kyc_submitted_at u))
        (filter (\<lambda>u. u_kyc_level u = LevelEnhanced \<and> u_kyc_submitted_at u \<noteq> None) (all_users (user_tbl s))))))))"

section \<open>The service\<close>

record basic_submission =
  bs_cpf :: string
  bs_legal_name :: string
  bs_birth_date :: string
  bs_phone_number :: string
  bs_address :: address

text \<open>The object store: addresses for an upload and a download, the size of an object, and its
  deletion where the store offers one.\<close>

record 'x presigner =
  ps_put :: "string \<Rightarrow> string \<Rightarrow> time \<Rightarrow> ('x, string) kyc_prog"
  ps_get :: "string \<Rightarrow> time \<Rightarrow> ('x, string) kyc_prog"
  ps_size :: "string \<Rightarrow> ('x, int) kyc_prog"
  ps_delete :: "(string \<Rightarrow> ('x, unit) kyc_prog) option"

record 'x kyc_conf =
  kc_valid_cpf :: "string \<Rightarrow> bool"
  kc_presigner :: "'x presigner option"
  kc_risk :: "string \<Rightarrow> string \<Rightarrow> ('x, assessment) kyc_prog"

definition noop_evaluate :: "string \<Rightarrow> string \<Rightarrow> ('x, assessment) kyc_prog" where
  "noop_evaluate uid ip = bindE now (\<lambda>n. ret \<lparr>as_score = 0, as_signals = [], as_evaluated_at = ts n\<rparr>)"

definition basic_verified :: "user \<Rightarrow> bool" where
  "basic_verified u \<longleftrightarrow> u_kyc_level u = LevelBasic \<and> u_kyc_status u = StatusVerified"

definition is_basic_locked :: "user \<Rightarrow> bool" where
  "is_basic_locked u \<longleftrightarrow> basic_verified u \<or> u_kyc_level u = LevelEnhanced"

definition evaluate_risk :: "'x kyc_conf \<Rightarrow> string \<Rightarrow> string \<Rightarrow> ('x, unit) kyc_prog" where
  "evaluate_risk C uid ip = bindE (tryE (kc_risk C uid ip)) (\<lambda>r. case r of
     Inl _ \<Rightarrow> ret () | Inr a \<Rightarrow> logE (save_risk_assessment uid a))"

text \<open>\<open>SubmitBasic\<close> with its halves: what is checked and read, and what is written from it.\<close>

definition valid_basic :: "'x kyc_conf \<Rightarrow> basic_submission \<Rightarrow> time \<Rightarrow> kyc_err option" where
  "valid_basic C b n =
     (if length (bs_cpf b) \<noteq> 11 \<or> \<not> kc_valid_cpf C (bs_cpf b) then Some ErrInvalidCPF
      else case parse_birth_date (bs_birth_date b) of None \<Rightarrow> Some ErrInvalidBirthDate | Some born \<Rightarrow>
      if \<not> is_at_least born MinAge n then Some ErrUnderage
      else if \<not> is_valid_phone (bs_phone_number b) then Some ErrInvalidPhone
      else if \<not> validate_address (normalize_address (bs_address b)) then Some ErrInvalidAddress else None)"

definition check_basic :: "'x kyc_conf \<Rightarrow> string \<Rightarrow> basic_submission \<Rightarrow> ('x, string) kyc_prog" where
  "check_basic C uid b =
     bindE now (\<lambda>n. case valid_basic C b n of
       Some e \<Rightarrow> throw e
     | None \<Rightarrow> bindE (repo_get_user uid) (\<lambda>u. if is_basic_locked u then throw ErrBasicLocked else ret (u_cpf u)))"

definition basic_of :: "basic_submission \<Rightarrow> stamp \<Rightarrow> basic_record" where
  "basic_of b tm = \<lparr>br_cpf = bs_cpf b, br_legal_name = trim_space (bs_legal_name b), br_birth_date = bs_birth_date b,
     br_phone_number = bs_phone_number b, br_address = normalize_address (bs_address b), br_submitted_at = tm\<rparr>"

definition finish_basic :: "'x kyc_conf \<Rightarrow> string \<Rightarrow> string \<Rightarrow> basic_submission \<Rightarrow> string \<Rightarrow> ('x, unit) kyc_prog" where
  "finish_basic C uid ip b old =
     bindE now (\<lambda>n.
     bindE (save_basic_submission uid (basic_of b (ts n)) old) (\<lambda>_.
     evaluate_risk C uid ip))"

definition submit_basic :: "'x kyc_conf \<Rightarrow> string \<Rightarrow> string \<Rightarrow> basic_submission \<Rightarrow> ('x, unit) kyc_prog" where
  "submit_basic C uid ip b = bindE (check_basic C uid b) (finish_basic C uid ip b)"

definition has_required_documents :: "kyc_document list \<Rightarrow> bool" where
  "has_required_documents ds \<longleftrightarrow> list_all (\<lambda>t. t \<in> kd_type ` set ds) RequiredDocTypes"

definition submission_expired :: "user \<Rightarrow> time \<Rightarrow> bool" where
  "submission_expired u n \<longleftrightarrow> u_kyc_expires_at u \<noteq> None \<and> parse_time (u_kyc_expires_at u) < n"

definition documents_enabled :: "'x kyc_conf \<Rightarrow> bool" where
  "documents_enabled C \<longleftrightarrow> kc_presigner C \<noteq> None"

definition enhanced_rejected :: "user \<Rightarrow> bool" where
  "enhanced_rejected u \<longleftrightarrow> u_kyc_level u = LevelEnhanced \<and> u_kyc_status u = StatusRejected"

text \<open>\<open>assertAcceptsDocuments\<close>, with the store it answers for.\<close>

definition accepts_documents :: "'x kyc_conf \<Rightarrow> user \<Rightarrow> ('x, 'x presigner) kyc_prog" where
  "accepts_documents C u = (case kc_presigner C of None \<Rightarrow> throw ErrInvalidMethod | Some p \<Rightarrow>
     if basic_verified u \<or> enhanced_rejected u then ret p
     else if u_kyc_level u = LevelEnhanced then throw ErrSubmissionLocked
     else throw ErrBasicRequired)"

definition open_for_documents :: "'x kyc_conf \<Rightarrow> string \<Rightarrow> ('x, 'x presigner) kyc_prog" where
  "open_for_documents C uid =
     bindE (repo_get_user uid) (\<lambda>u.
     bindE (accepts_documents C u) (\<lambda>p.
     if MaxDocuments \<le> length (u_kyc_documents u) then throw ErrTooManyDocuments else ret p))"

definition presign_document :: "'x kyc_conf \<Rightarrow> string \<Rightarrow> string \<Rightarrow> string \<Rightarrow> ('x, string \<times> string) kyc_prog" where
  "presign_document C uid t ct =
     (if \<not> is_valid_document_type t then throw ErrInvalidDocumentType
      else if \<not> is_valid_content_type ct then throw ErrInvalidContentType
      else
      bindE (open_for_documents C uid) (\<lambda>p.
      bindE new_uuid (\<lambda>i.
      bindE (save_pending_document uid i t ct) (\<lambda>_.
      bindE (ps_put p (build_document_key uid i) ct PresignTTL) (\<lambda>url. ret (i, url))))))"

definition uploaded :: "'x presigner \<Rightarrow> string \<Rightarrow> ('x, unit) kyc_prog" where
  "uploaded p key =
     bindE (mapErr (\<lambda>_. ErrDocumentNotUploaded) (ps_size p key)) (\<lambda>n.
     if n = 0 then throw ErrDocumentNotUploaded
     else if MaxDocumentBytes < n then throw ErrDocumentTooLarge
     else ret ())"

definition check_upload :: "'x kyc_conf \<Rightarrow> string \<Rightarrow> string \<Rightarrow> string \<Rightarrow> ('x, unit) kyc_prog" where
  "check_upload C uid doc t =
     (if \<not> is_valid_document_type t then throw ErrInvalidDocumentType
      else
      bindE (open_for_documents C uid) (\<lambda>p.
      bindE (get_pending_document doc) (\<lambda>pd.
      if (case pd of None \<Rightarrow> True | Some x \<Rightarrow> pd_type x \<noteq> t \<or> pd_user x \<noteq> uid) then throw ErrDocumentTypeMismatch
      else uploaded p (build_document_key uid doc))))"

definition record_upload :: "string \<Rightarrow> string \<Rightarrow> string \<Rightarrow> ('x, unit) kyc_prog" where
  "record_upload uid doc t =
     bindE now (\<lambda>n.
     bindE (add_document uid \<lparr>kd_id = doc, kd_type = t, kd_key = build_document_key uid doc, kd_uploaded_at = ts n\<rparr>) (\<lambda>_.
     logE (delete_pending_document doc)))"

definition confirm_document :: "'x kyc_conf \<Rightarrow> string \<Rightarrow> string \<Rightarrow> string \<Rightarrow> ('x, unit) kyc_prog" where
  "confirm_document C uid doc t = bindE (check_upload C uid doc t) (\<lambda>_. record_upload uid doc t)"

text \<open>\<open>SubmitEnhanced\<close> with its halves.\<close>

definition check_enhanced :: "'x kyc_conf \<Rightarrow> string \<Rightarrow> ('x, unit) kyc_prog" where
  "check_enhanced C uid =
     bindE (repo_get_user uid) (\<lambda>u.
     if u_kyc_level u = LevelEnhanced \<and> u_kyc_status u = StatusVerified then throw ErrKycVerified
     else if under_review u then throw ErrSubmissionLocked
     else if \<not> basic_verified u \<and> \<not> enhanced_rejected u then throw ErrBasicRequired
     else if \<not> documents_enabled C then throw ErrInvalidMethod
     else if \<not> has_required_documents (u_kyc_documents u) then throw ErrNoDocuments
     else ret ())"

definition finish_enhanced :: "'x kyc_conf \<Rightarrow> string \<Rightarrow> string \<Rightarrow> ('x, unit) kyc_prog" where
  "finish_enhanced C uid ip =
     bindE now (\<lambda>n.
     bindE (save_enhanced_submission uid (ts n) (ts (n + SubmissionTTL))) (\<lambda>_.
     evaluate_risk C uid ip))"

definition submit_enhanced :: "'x kyc_conf \<Rightarrow> string \<Rightarrow> string \<Rightarrow> ('x, unit) kyc_prog" where
  "submit_enhanced C uid ip = bindE (check_enhanced C uid) (\<lambda>_. finish_enhanced C uid ip)"

text \<open>The objects of a rejected submission are deleted in the background, where the store can.\<close>

definition purge_rejected_objects :: "'x kyc_conf \<Rightarrow> kyc_document list \<Rightarrow> ('x, unit) kyc_prog" where
  "purge_rejected_objects C ds = (case Option.bind (kc_presigner C) ps_delete of
     None \<Rightarrow> ret () | Some f \<Rightarrow> forE ds (\<lambda>d. logE (f (kd_key d))))"

text \<open>\<open>utf8.RuneCountInString\<close> of valid UTF-8: every byte but the continuation bytes.\<close>

definition rune_count :: "string \<Rightarrow> nat" where
  "rune_count w = length (filter (\<lambda>c. \<not> (128 \<le> (of_char c :: nat) \<and> (of_char c :: nat) < 192)) w)"

definition fit_reason :: "string \<Rightarrow> string \<Rightarrow> bool" where
  "fit_reason code details \<longleftrightarrow> is_valid_rejection_code code \<and> rune_count details \<le> 255 \<and> \<not> (code = RejectionOther \<and> details = [])"

definition review_by :: "'x kyc_conf \<Rightarrow> string \<Rightarrow> string \<Rightarrow> string \<Rightarrow> string \<Rightarrow> review_actor \<Rightarrow> ('x, unit) kyc_prog" where
  "review_by C uid decision code details0 a =
     bindE (repo_get_user uid) (\<lambda>u.
     if \<not> under_review u then throw ErrNotSubmitted
     else if decision = DecisionApprove then bindE now (\<lambda>n. mark_verified uid (ts n) a)
     else if decision = DecisionReject then
       let details = trim_space details0 in
       if \<not> fit_reason code details then throw ErrInvalidRejectionReason
       else
       bindE now (\<lambda>n.
       bindE (mark_rejected uid code details (ts n) a) (\<lambda>_.
       purge_rejected_objects C (u_kyc_documents u)))
     else throw ErrInvalidDecision)"

definition review :: "'x kyc_conf \<Rightarrow> string \<Rightarrow> string \<Rightarrow> string \<Rightarrow> ('x, unit) kyc_prog" where
  "review C uid decision reason =
     review_by C uid decision (if decision = DecisionReject then RejectionOther else []) reason \<lparr>ra_id = ''cli'', ra_name = ''CLI''\<rparr>"

definition list_kyc_reviews :: "string \<Rightarrow> ('x, user list) kyc_prog" where
  "list_kyc_reviews q =
     (if q \<noteq> ReviewQueuePending \<and> q \<noteq> ReviewQueueCompleted then throw ErrInvalidDecision else repo_list_kyc_reviews q)"

definition list_pending_kyc :: "('x, user list) kyc_prog" where
  "list_pending_kyc = repo_list_pending_kyc"

record document_url =
  du_id :: string
  du_type :: string
  du_uploaded_at :: stamp
  du_url :: string

fun sign_all :: "'x presigner \<Rightarrow> kyc_document list \<Rightarrow> ('x, document_url list) kyc_prog" where
  "sign_all p [] = ret []"
| "sign_all p (d # ds) =
     bindE (ps_get p (kd_key d) PresignTTL) (\<lambda>url.
     bindE (sign_all p ds) (\<lambda>rest.
     ret (\<lparr>du_id = kd_id d, du_type = kd_type d, du_uploaded_at = kd_uploaded_at d, du_url = url\<rparr> # rest)))"

definition document_urls :: "'x kyc_conf \<Rightarrow> string \<Rightarrow> ('x, document_url list) kyc_prog" where
  "document_urls C uid = (case kc_presigner C of None \<Rightarrow> throw ErrInvalidMethod
     | Some p \<Rightarrow> bindE (repo_get_user uid) (\<lambda>u. sign_all p (u_kyc_documents u)))"

definition kyc_state :: "user \<Rightarrow> time \<Rightarrow> string" where
  "kyc_state u n =
     (if u_kyc_level u = LevelEnhanced \<and> u_kyc_status u = StatusVerified then StateVerified
      else if enhanced_rejected u then StateRejected
      else if under_review u \<and> submission_expired u n then StateBasicVerified
      else if under_review u then StateUnderReview
      else if basic_verified u then StateBasicVerified
      else StateNotStarted)"

record kyc_status =
  ks_state :: string
  ks_level :: string
  ks_cpf_masked :: string
  ks_legal_name :: string
  ks_birth_date :: string
  ks_phone_masked :: string
  ks_address :: "address option"
  ks_basic_verified_at :: stamp
  ks_documents :: "kyc_document list"
  ks_rejection_reason :: string
  ks_rejection_code :: string
  ks_submitted_at :: stamp
  ks_expires_at :: stamp
  ks_verified_at :: stamp

definition status_of :: "user \<Rightarrow> time \<Rightarrow> kyc_status" where
  "status_of u n = \<lparr>ks_state = kyc_state u n, ks_level = u_kyc_level u, ks_cpf_masked = mask_cpf (u_cpf u),
     ks_legal_name = u_legal_name u, ks_birth_date = u_birth_date u, ks_phone_masked = mask_phone (u_phone_number u),
     ks_address = (if address_is_zero (u_address u) then None else Some (u_address u)),
     ks_basic_verified_at = u_kyc_basic_verified_at u, ks_documents = u_kyc_documents u,
     ks_rejection_reason = u_kyc_rejection_reason u, ks_rejection_code = u_kyc_rejection_code u,
     ks_submitted_at = u_kyc_submitted_at u, ks_expires_at = u_kyc_expires_at u, ks_verified_at = u_kyc_verified_at u\<rparr>"

definition get_kyc :: "string \<Rightarrow> ('x, kyc_status) kyc_prog" where
  "get_kyc uid = bindE (repo_get_user uid) (\<lambda>u. bindE now (\<lambda>n. ret (status_of u n)))"

end
