(* ===== verification/KycRuns.thy ===== *)
theory KycRuns
  imports Kyc Views
begin

text \<open>
  Identity verification over all calls: what a call may change of a person's record, that a CPF belongs to
  one account in every run, and three places where the checks of the service come too early or never
  let go.
\<close>

section \<open>What the rules are about\<close>

definition user_at :: "'x user_db_scheme \<Rightarrow> string \<Rightarrow> user option" where
  "user_at s uid = Option.bind (tget (user_tbl s) (build_pk uid)) as_user"

definition identity :: "user \<Rightarrow> string \<times> string \<times> string \<times> string \<times> address" where
  "identity u = (u_cpf u, u_legal_name u, u_birth_date u, u_phone_number u, u_address u)"

definition standing :: "user \<Rightarrow> string \<times> string \<times> kyc_document list" where
  "standing u = (u_kyc_level u, u_kyc_status u, u_kyc_documents u)"

definition decided :: "user \<Rightarrow> string \<times> string" where
  "decided u = (u_kyc_reviewed_by u, u_kyc_review_decision u)"

definition kyc_part :: "'x user_db_scheme \<Rightarrow> string \<Rightarrow>
    ((string \<times> string \<times> string \<times> string \<times> address) \<times> (string \<times> string \<times> kyc_document list) \<times> string \<times> string) option" where
  "kyc_part s uid = map_option (\<lambda>u. (identity u, standing u, decided u)) (user_at s uid)"

definition kyc_view :: "'x user_db_scheme \<Rightarrow> time \<times> (string, user_item) table" where
  "kyc_view s = (clock s, user_tbl s)"

lemma kyc_viewD: "kyc_view t = kyc_view s \<Longrightarrow> clock t = clock s" "kyc_view t = kyc_view s \<Longrightarrow> user_tbl t = user_tbl s"
  by (simp_all add: kyc_view_def)

lemma kyc_view_env [simp]:
  "kyc_view (s\<lparr>faults := os\<rparr>) = kyc_view s" "kyc_view (s\<lparr>rng_ix := n\<rparr>) = kyc_view s" "kyc_view (s\<lparr>uuid_ix := n\<rparr>) = kyc_view s"
  by (simp_all add: kyc_view_def)

lemma blind_kyc_view [simp]: "blind kyc_view"
  by (simp add: blind_def)

text \<open>The keys of the users table do not meet.\<close>

lemma kyc_keys [simp]:
  "build_cpf_pk c \<noteq> build_pk i" "build_pk i \<noteq> build_cpf_pk c" "build_pending_pk d \<noteq> build_pk i" "build_pk i \<noteq> build_pending_pk d"
  "build_cpf_pk c \<noteq> build_pending_pk d" "build_pending_pk d \<noteq> build_cpf_pk c"
  by (simp_all add: build_cpf_pk_def cpf_marker_pk_def build_pending_pk_def pendingPKPrefix_def build_pk_def)

lemma build_cpf_pk_inject [simp]: "build_cpf_pk c = build_cpf_pk d \<longleftrightarrow> c = d"
  by (simp add: build_cpf_pk_def cpf_marker_pk_def)

text \<open>The collaborators do not write the users table and take no time.\<close>

definition tame_store :: "'x kyc_conf \<Rightarrow> bool" where
  "tame_store C \<longleftrightarrow> (\<forall>p. kc_presigner C = Some p \<longrightarrow>
     (\<forall>k ct d. keeps kyc_view (ps_put p k ct d)) \<and> (\<forall>k. keeps kyc_view (ps_size p k)) \<and>
     (\<forall>f. ps_delete p = Some f \<longrightarrow> (\<forall>k. keeps kyc_view (f k)))) \<and>
     (\<forall>u ip. keeps kyc_view (kc_risk C u ip))"

lemma keeps_if: "(b \<Longrightarrow> keeps \<pi> f) \<Longrightarrow> (\<not> b \<Longrightarrow> keeps \<pi> g) \<Longrightarrow> keeps \<pi> (if b then f else g)"
  by simp

lemma keeps_throw: "keeps \<pi> (throw e)"
  by (intro keeps_intros)

lemma keeps_bind_val:
  assumes "keeps \<pi> f" and "\<And>x s t. f s = (Inr x, t) \<Longrightarrow> keeps \<pi> (g x)"
  shows "keeps \<pi> (bindE f g)"
proof -
  have "\<pi> (snd (bindE f g s)) = \<pi> s" for s
  proof (cases "f s")
    case (Pair r t)
    with keepsD' [OF assms(1) Pair] keepsD [OF assms(2)] show ?thesis by (cases r) auto
  qed
  then show ?thesis by (simp add: keeps_def tracks_def)
qed

lemma looks_user: "keeps kyc_view (repo_get_user uid)"
  unfolding repo_get_user_def user_get_by_id_def by (intro keeps_calls) (simp_all add: blind_def)

lemma looks_pending: "keeps kyc_view (get_pending_document d)"
  unfolding get_pending_document_def by (intro keeps_calls) (simp add: blind_def)

lemma looks_basic: "keeps kyc_view (check_basic C uid b)"
  unfolding check_basic_def by (intro keeps_calls looks_user)

lemma looks_open: "keeps kyc_view (open_for_documents C uid)"
  unfolding open_for_documents_def accepts_documents_def by (intro keeps_calls looks_user)

lemma looks_upload: "tame_store C \<Longrightarrow> keeps kyc_view (check_upload C uid d t)"
proof -
  assume C: "tame_store C"
  have "keeps kyc_view (open_for_documents C uid)" by (rule looks_open)
  show ?thesis
    unfolding check_upload_def
  proof (intro keeps_if keeps_throw, rule keeps_bind_val [OF looks_open])
    fix p s u assume "open_for_documents C uid s = (Inr p, u)"
    then have p: "kc_presigner C = Some p"
      by (auto simp: open_for_documents_def accepts_documents_def elim!: bindE_InrE split: option.splits if_splits)
    have "keeps kyc_view (ps_size p k)" for k using C p by (simp add: tame_store_def)
    then show "keeps kyc_view (bindE (get_pending_document d) (\<lambda>pd.
        if case pd of None \<Rightarrow> True | Some x \<Rightarrow> pd_type x \<noteq> t \<or> pd_user x \<noteq> uid then throw ErrDocumentTypeMismatch
        else uploaded p (build_document_key uid d)))"
      unfolding uploaded_def by (intro keeps_calls looks_pending)
  qed
qed

section \<open>Writing a user\<close>

lemma user_at_env [simp]:
  "user_at (s\<lparr>faults := os\<rparr>) = user_at s" "user_at (s\<lparr>uuid_ix := n\<rparr>) = user_at s" "user_at (s\<lparr>rng_ix := n\<rparr>) = user_at s"
  "user_at (s\<lparr>clock := t\<rparr>) = user_at s"
  by (simp_all add: user_at_def fun_eq_iff)

lemma user_at_view: "user_tbl t = user_tbl s \<Longrightarrow> user_at t = user_at s"
  by (simp add: user_at_def fun_eq_iff)

lemma kyc_part_view: assumes "user_tbl t = user_tbl s" shows "kyc_part t = kyc_part s"
  by (simp add: kyc_part_def fun_eq_iff user_at_view [OF assms])

lemma blind_kyc_part [simp]: "blind kyc_part"
  by (simp add: blind_def kyc_part_def fun_eq_iff)

lemma user_at_upd:
  "user_at s uid = Some u \<Longrightarrow> user_at (user_tbl_update (upd_user uid f) s) v = (if v = uid then Some (f u) else user_at s v)"
  by (auto simp: user_at_def upd_user_def split: option.splits elim!: as_user.elims)

lemma user_at_put [simp]: "(\<And>i. k \<noteq> build_pk i) \<Longrightarrow> user_at (user_tbl_update (tput k x) s) = user_at s"
  by (auto simp: user_at_def fun_eq_iff)

lemma user_at_del [simp]: "(\<And>i. k \<noteq> build_pk i) \<Longrightarrow> user_at (user_tbl_update (tdel k) s) = user_at s"
  by (auto simp: user_at_def fun_eq_iff)

lemma user_at_basic:
  "user_at s uid = Some u \<Longrightarrow> user_at (user_tbl_update (basic_tbl uid r old tm) s) v = (if v = uid then Some (with_basic r tm u) else user_at s v)"
  by (auto simp: user_at_def upd_user_def basic_tbl_def split: option.splits elim!: as_user.elims)

lemma get_user_Inr: "repo_get_user uid s = (Inr u, t) \<Longrightarrow> user_at s uid = Some u"
  by (auto simp: repo_get_user_def mapErr_run user_at_def dest!: get_by_id_InrD split: prod.splits sum.splits)

section \<open>What a call may change\<close>

datatype kyc_call =
    SubmitBasic string string basic_submission
  | PresignDocument string string string
  | ConfirmDocument string string string
  | SubmitEnhanced string string
  | ReviewBy string string string string review_actor

fun kyc_perform :: "'x kyc_conf \<Rightarrow> kyc_call \<Rightarrow> 'x user_db_scheme \<Rightarrow> 'x user_db_scheme" where
  "kyc_perform C (SubmitBasic uid ip b) s = snd (submit_basic C uid ip b s)"
| "kyc_perform C (PresignDocument uid t ct) s = snd (presign_document C uid t ct s)"
| "kyc_perform C (ConfirmDocument uid doc t) s = snd (confirm_document C uid doc t s)"
| "kyc_perform C (SubmitEnhanced uid ip) s = snd (submit_enhanced C uid ip s)"
| "kyc_perform C (ReviewBy uid decision code details a) s = snd (review_by C uid decision code details a s)"

text \<open>What entitles a call to turn the record \<open>u\<close> of a person into \<open>v\<close>.\<close>

fun due :: "'x kyc_conf \<Rightarrow> kyc_call \<Rightarrow> 'x user_db_scheme \<Rightarrow> string \<Rightarrow> user \<Rightarrow> user \<Rightarrow> bool" where
  "due C (SubmitBasic w ip b) s uid u v \<longleftrightarrow> uid = w \<and> valid_basic C b (clock s) = None \<and> \<not> is_basic_locked u \<and> cpf_free (bs_cpf b) w s \<and>
     identity v = (bs_cpf b, trim_space (bs_legal_name b), bs_birth_date b, bs_phone_number b, normalize_address (bs_address b)) \<and>
     standing v = (LevelBasic, StatusVerified, u_kyc_documents u) \<and> decided v = decided u"
| "due C (PresignDocument w t ct) s uid u v \<longleftrightarrow> False"
| "due C (ConfirmDocument w doc t) s uid u v \<longleftrightarrow> uid = w \<and> (basic_verified u \<or> enhanced_rejected u) \<and>
     length (u_kyc_documents u) < MaxDocuments \<and> t \<in> set RequiredDocTypes \<and>
     (\<exists>ct. tget (user_tbl s) (build_pending_pk doc) = Some (IntentI w t ct)) \<and> identity v = identity u \<and> decided v = decided u \<and>
     (\<exists>d. kd_id d = doc \<and> kd_type d = t \<and> kd_key d = build_document_key w doc \<and>
       standing v = (u_kyc_level u, u_kyc_status u, u_kyc_documents u @ [d]))"
| "due C (SubmitEnhanced w ip) s uid u v \<longleftrightarrow> uid = w \<and> (basic_verified u \<or> enhanced_rejected u) \<and>
     has_required_documents (u_kyc_documents u) \<and> identity v = identity u \<and>
     standing v = (LevelEnhanced, StatusPending, u_kyc_documents u) \<and> decided v = ([], [])"
| "due C (ReviewBy w dec code details a) s uid u v \<longleftrightarrow> uid = w \<and> under_review u \<and> identity v = identity u \<and>
     (dec = DecisionApprove \<and> standing v = (LevelEnhanced, StatusVerified, u_kyc_documents u) \<and> decided v = (ra_id a, DecisionApprove) \<or>
      dec = DecisionReject \<and> fit_reason code (trim_space details) \<and> standing v = (LevelEnhanced, StatusRejected, []) \<and>
        decided v = (ra_id a, DecisionReject))"

definition kyc_change :: "'x kyc_conf \<Rightarrow> kyc_call \<Rightarrow> 'x user_db_scheme \<Rightarrow> 'x user_db_scheme \<Rightarrow> bool" where
  "kyc_change C c s t \<longleftrightarrow> (\<forall>uid. kyc_part t uid = kyc_part s uid \<or>
     (\<exists>u v. user_at s uid = Some u \<and> user_at t uid = Some v \<and> due C c s uid u v))"

lemma due_view: assumes "kyc_view t = kyc_view s" shows "due C c t uid u v = due C c s uid u v"
  by (cases c) (simp_all add: kyc_viewD [OF assms] cpf_free_def)

lemma due_part: "identity w = identity v \<Longrightarrow> standing w = standing v \<Longrightarrow> decided w = decided v \<Longrightarrow> due C c s uid u w = due C c s uid u v"
  by (cases c) simp_all

text \<open>What follows the write may change anything but the parts looked at.\<close>

lemma change_after: "kyc_change C c s t \<Longrightarrow> kyc_part v = kyc_part t \<Longrightarrow> kyc_change C c s v"
  unfolding kyc_change_def
proof (intro allI)
  fix uid
  assume a: "\<forall>uid. kyc_part t uid = kyc_part s uid \<or> (\<exists>u v. user_at s uid = Some u \<and> user_at t uid = Some v \<and> due C c s uid u v)"
    and p: "kyc_part v = kyc_part t"
  show "kyc_part v uid = kyc_part s uid \<or> (\<exists>u w. user_at s uid = Some u \<and> user_at v uid = Some w \<and> due C c s uid u w)"
  proof (cases "kyc_part t uid = kyc_part s uid")
    case False
    with a obtain u x where x: "user_at s uid = Some u" "user_at t uid = Some x" "due C c s uid u x" by blast
    from p have "kyc_part v uid = kyc_part t uid" by simp
    with x(2) obtain w where w: "user_at v uid = Some w" "identity w = identity x" "standing w = standing x" "decided w = decided x"
      by (auto simp: kyc_part_def)
    with x due_part [OF w(2-4)] show ?thesis by blast
  qed (simp add: p)
qed

lemma change_still: "kyc_part t = kyc_part s \<Longrightarrow> kyc_change C c s t"
  by (simp add: kyc_change_def)

interpretation kyc: view_step kyc_view "kyc_change C c" for C c
proof unfold_locales
  fix s t v :: "'a user_db_scheme"
  show "blind (kyc_view :: 'a user_db_scheme \<Rightarrow> _)" by simp
  show "kyc_change C c s s" by (simp add: change_still)
  show "kyc_change C c s v" if "kyc_view t = kyc_view s" "kyc_change C c t v"
    using that due_view [OF that(1)] user_at_view [OF kyc_viewD(2) [OF that(1)]] kyc_part_view [OF kyc_viewD(2) [OF that(1)]]
    by (simp add: kyc_change_def)
  show "kyc_change C c s v" if "kyc_change C c s t" "kyc_view v = kyc_view t"
    using that(1) kyc_part_view [OF kyc_viewD(2) [OF that(2)]] by (rule change_after)
qed

lemma change_then:
  assumes "kyc_change C c s (snd (f s))" and "\<And>x t. f s = (Inr x, t) \<Longrightarrow> kyc_part (snd (g x t)) = kyc_part t"
  shows "kyc_change C c s (snd (bindE f g s))"
proof (cases "f s")
  case (Pair r t)
  with assms change_after [of C c s t] show ?thesis by (cases r) auto
qed

lemma update_beside:
  assumes "user_at s uid = Some u" and "(identity (f u), standing (f u), decided (f u)) = (identity u, standing u, decided u)"
  shows "kyc_part (snd (mapErr KycUser (user_update uid f) s)) = kyc_part s"
proof -
  let ?w = "user_tbl_update (upd_user uid (\<lambda>u. (f u)\<lparr>u_updated_at := ts (clock s)\<rparr>))"
  have w: "kyc_part (?w (s\<lparr>faults := os\<rparr>)) = kyc_part s" for os
    using assms user_at_upd [of "s\<lparr>faults := os\<rparr>" uid u] by (auto simp: kyc_part_def fun_eq_iff identity_def standing_def decided_def)
  have e: "kyc_part (s\<lparr>faults := os\<rparr>) = kyc_part s" for os by (simp add: kyc_part_def fun_eq_iff)
  obtain os where "snd (db_write UInfra ?w s) = s\<lparr>faults := os\<rparr> \<or> snd (db_write UInfra ?w s) = ?w (s\<lparr>faults := os\<rparr>)"
    using db_cond_cases [of UInfra UInfra "\<lambda>_. True" ?w s] unfolding db_write_def by blast
  with w e have "kyc_part (snd (db_write UInfra ?w s)) = kyc_part s" by auto
  then show ?thesis by (cases "db_write UInfra ?w s"; cases "fst (db_write UInfra ?w s)") (simp_all add: user_update_def bindE_run mapErr_run)
qed

text \<open>The score of a submission stands beside what is looked at.\<close>

lemma risk_part:
  assumes "tame_store C" and "user_at s uid \<noteq> None"
  shows "kyc_part (snd (evaluate_risk C uid ip s)) = kyc_part s"
proof (cases "kc_risk C uid ip s")
  case (Pair r t)
  have k: "keeps kyc_view (kc_risk C uid ip)" using assms(1) by (simp add: tame_store_def)
  note same = kyc_viewD(2) [OF keepsD' [OF k Pair]]
  note t = kyc_part_view [OF same] user_at_view [OF same]
  show ?thesis
  proof (cases r)
    case (Inl e)
    with Pair t show ?thesis by (simp add: evaluate_risk_def bindE_run)
  next
    case (Inr a)
    from assms(2) t(2) obtain u where u: "user_at t uid = Some u" by auto
    have "kyc_part (snd (save_risk_assessment uid a t)) = kyc_part t"
      unfolding save_risk_assessment_def by (rule update_beside [OF u]) (simp add: identity_def standing_def decided_def)
    with Pair Inr t show ?thesis by (simp add: evaluate_risk_def bindE_run logE_run)
  qed
qed

lemma blind_kyc_conditions [simp]: "blind (cpf_free c uid)" "blind (review_open uid)"
  by (simp_all add: blind_def cpf_free_def review_open_def fun_eq_iff)

section \<open>Basic\<close>

lemma check_basic_Inr:
  assumes "check_basic C uid b s = (Inr old, t)"
  obtains u where "user_at s uid = Some u" "valid_basic C b (clock s) = None" "\<not> is_basic_locked u" "old = u_cpf u"
proof -
  from assms obtain u v where g: "repo_get_user uid s = (Inr u, v)" "\<not> is_basic_locked u" "old = u_cpf u"
    and ok: "valid_basic C b (clock s) = None"
    unfolding check_basic_def by (auto elim!: bindE_InrE split: option.splits if_splits)
  from that [OF get_user_Inr [OF g(1)] ok g(2,3)] show ?thesis .
qed

lemma with_basic_part:
  "identity (with_basic r n u) = (br_cpf r, br_legal_name r, br_birth_date r, br_phone_number r, br_address r)"
  "standing (with_basic r n u) = (LevelBasic, StatusVerified, u_kyc_documents u)" "decided (with_basic r n u) = decided u"
  by (simp_all add: with_basic_def identity_def standing_def decided_def)

lemma saved_basic:
  assumes "save_basic_submission uid r old s = (Inr (), t)"
  shows "\<exists>os n. t = user_tbl_update (basic_tbl uid r old n) (s\<lparr>faults := os\<rparr>) \<and> cpf_free (br_cpf r) uid s"
  using assms db_cond_cases [of KycInfra ErrCPFConflict "cpf_free (br_cpf r) uid" "user_tbl_update (basic_tbl uid r old (ts (clock s)))" s]
  unfolding save_basic_submission_def by (auto simp: bindE_run)

lemma change_saved_basic:
  fixes s :: "'x user_db_scheme"
  assumes "user_at s uid = Some u" and "valid_basic C b (clock s) = None" and "\<not> is_basic_locked u"
  shows "kyc_change C (SubmitBasic uid ip b) s (snd (save_basic_submission uid (basic_of b n) old s))"
  unfolding save_basic_submission_def
proof (rule kyc.bind_look [OF keeps_now], rule kyc.cond)
  fix m and t v :: "'x user_db_scheme" assume v: "kyc_view t = kyc_view s" "kyc_view v = kyc_view t" and free: "cpf_free (br_cpf (basic_of b n)) uid v"
  have s: "user_at v uid = Some u" "clock v = clock s"
    using assms(1) user_at_view [OF kyc_viewD(2) [OF v(2)]] user_at_view [OF kyc_viewD(2) [OF v(1)]] kyc_viewD(1) [OF v(1)] kyc_viewD(1) [OF v(2)]
    by simp_all
  let ?w = "with_basic (basic_of b n) (ts m) u"
  have "due C (SubmitBasic uid ip b) v uid u ?w"
    using assms(2,3) free s(2) by (simp add: with_basic_part basic_of_def)
  with user_at_basic [OF s(1), of "basic_of b n" old "ts m"] s(1)
  show "kyc_change C (SubmitBasic uid ip b) v (user_tbl_update (basic_tbl uid (basic_of b n) old (ts m)) v)"
    unfolding kyc_change_def kyc_part_def by auto
qed simp

lemma saved_user:
  assumes "user_at s uid = Some u" and "save_basic_submission uid r old s = (Inr (), t)"
  shows "user_at t uid \<noteq> None"
proof -
  from saved_basic [OF assms(2)] obtain os n where t: "t = user_tbl_update (basic_tbl uid r old n) (s\<lparr>faults := os\<rparr>)" by blast
  have "user_at (s\<lparr>faults := os\<rparr>) uid = Some u" using assms(1) by simp
  from user_at_basic [OF this, of r old n uid] show ?thesis by (simp add: t)
qed

lemma change_basic:
  assumes "tame_store C" shows "kyc_change C (SubmitBasic uid ip b) s (snd (submit_basic C uid ip b s))"
  unfolding submit_basic_def
proof (rule kyc.bind_look [OF looks_basic])
  fix old t assume c: "check_basic C uid b s = (Inr old, t)" and v: "kyc_view t = kyc_view s"
  from check_basic_Inr [OF c] obtain u where u: "user_at s uid = Some u" "valid_basic C b (clock s) = None" "\<not> is_basic_locked u" .
  have t: "user_at t uid = Some u" "valid_basic C b (clock t) = None"
    using u user_at_view [OF kyc_viewD(2) [OF v]] kyc_viewD(1) [OF v] by simp_all
  show "kyc_change C (SubmitBasic uid ip b) t (snd (finish_basic C uid ip b old t))"
    unfolding finish_basic_def
  proof (rule kyc.bind_look [OF keeps_now], rule change_then)
    fix n x assume "(now t :: (kyc_err + time) \<times> _) = (Inr n, x)"
    then have x: "x = t" by simp
    show "kyc_change C (SubmitBasic uid ip b) x (snd (save_basic_submission uid (basic_of b (ts n)) old x))"
      unfolding x using t u(3) by (rule change_saved_basic)
    show "kyc_part (snd (evaluate_risk C uid ip y)) = kyc_part y"
      if "save_basic_submission uid (basic_of b (ts n)) old x = (Inr z, y)" for z y
      using that saved_user [OF t(1), of "basic_of b (ts n)" old y] by (intro risk_part [OF assms]) (simp add: x)
  qed
qed

section \<open>Documents\<close>

lemma open_Inr:
  assumes "open_for_documents C uid s = (Inr p, t)"
  obtains u where "user_at s uid = Some u" "basic_verified u \<or> enhanced_rejected u" "length (u_kyc_documents u) < MaxDocuments"
proof -
  from assms obtain u v where g: "repo_get_user uid s = (Inr u, v)" "basic_verified u \<or> enhanced_rejected u"
    "length (u_kyc_documents u) < MaxDocuments"
    unfolding open_for_documents_def accepts_documents_def by (auto elim!: bindE_InrE split: option.splits if_splits)
  from that [OF get_user_Inr [OF g(1)] g(2,3)] show ?thesis .
qed

lemma intent_Inr:
  assumes "get_pending_document doc s = (Inr (Some x), t)"
  shows "\<exists>ct. tget (user_tbl s) (build_pending_pk doc) = Some (IntentI (pd_user x) (pd_type x) ct)"
  using assms db_read_cases [of KycInfra "\<lambda>s. as_intent (tget (user_tbl s) (build_pending_pk doc))" s]
  unfolding get_pending_document_def by (auto elim!: as_intent.elims dest!: sym [of "Some x"])

lemma upload_Inr:
  assumes "check_upload C uid doc t s = (Inr (), v)"
  obtains u ct where "user_at s uid = Some u" "basic_verified u \<or> enhanced_rejected u" "length (u_kyc_documents u) < MaxDocuments"
    "t \<in> set RequiredDocTypes" "tget (user_tbl s) (build_pending_pk doc) = Some (IntentI uid t ct)"
proof -
  from assms obtain p s1 x s2 where o: "open_for_documents C uid s = (Inr p, s1)"
    and g: "get_pending_document doc s1 = (Inr (Some x), s2)" and x: "pd_type x = t" "pd_user x = uid" and ty: "t \<in> set RequiredDocTypes"
    unfolding check_upload_def is_valid_document_type_def by (auto elim!: bindE_InrE split: if_splits option.splits)
  from open_Inr [OF o] obtain u where u: "user_at s uid = Some u" "basic_verified u \<or> enhanced_rejected u" "length (u_kyc_documents u) < MaxDocuments" .
  have "user_tbl s1 = user_tbl s" by (rule kyc_viewD(2) [OF keepsD' [OF looks_open o]])
  with intent_Inr [OF g] x that [OF u ty] show ?thesis by auto
qed

lemma documented:
  "identity (u\<lparr>u_kyc_documents := ds, u_updated_at := n\<rparr>) = identity u" "decided (u\<lparr>u_kyc_documents := ds, u_updated_at := n\<rparr>) = decided u"
  "standing (u\<lparr>u_kyc_documents := ds, u_updated_at := n\<rparr>) = (u_kyc_level u, u_kyc_status u, ds)"
  by (simp_all add: identity_def decided_def standing_def)

lemma pending_beside: "keeps kyc_part (delete_pending_document doc)" "keeps kyc_part (save_pending_document uid doc t ct)"
  unfolding delete_pending_document_def save_pending_document_def by (intro keeps_calls; simp add: kyc_part_def fun_eq_iff)+

lemma change_document:
  fixes s :: "'x user_db_scheme"
  assumes "tame_store C" shows "kyc_change C (ConfirmDocument uid doc t) s (snd (confirm_document C uid doc t s))"
  unfolding confirm_document_def
proof (rule kyc.bind_look [OF looks_upload [OF assms]])
  fix x and s1 :: "'x user_db_scheme" assume c: "check_upload C uid doc t s = (Inr x, s1)" and v: "kyc_view s1 = kyc_view s"
  then have c: "check_upload C uid doc t s = (Inr (), s1)" by simp
  from upload_Inr [OF c] obtain u ct where u: "user_at s uid = Some u" "basic_verified u \<or> enhanced_rejected u"
    "length (u_kyc_documents u) < MaxDocuments" "t \<in> set RequiredDocTypes" "tget (user_tbl s) (build_pending_pk doc) = Some (IntentI uid t ct)" .
  show "kyc_change C (ConfirmDocument uid doc t) s1 (snd (record_upload uid doc t s1))"
    unfolding record_upload_def
  proof (rule kyc.bind_look [OF keeps_now], rule change_then)
    fix n and s2 :: "'x user_db_scheme" assume v2: "kyc_view s2 = kyc_view s1"
    let ?d = "\<lparr>kd_id = doc, kd_type = t, kd_key = build_document_key uid doc, kd_uploaded_at = ts n\<rparr>"
    show "kyc_change C (ConfirmDocument uid doc t) s2 (snd (add_document uid ?d s2))"
      unfolding add_document_def
    proof (rule kyc.bind_look [OF keeps_now], rule kyc.put)
      fix m and s3 s4 :: "'x user_db_scheme" assume v3: "kyc_view s3 = kyc_view s2" "kyc_view s4 = kyc_view s3"
      have tb: "user_tbl s4 = user_tbl s" using kyc_viewD(2) [OF v] kyc_viewD(2) [OF v2] kyc_viewD(2) [OF v3(1)] kyc_viewD(2) [OF v3(2)] by simp
      note at4 = user_at_view [OF tb]
      let ?w = "u\<lparr>u_kyc_documents := u_kyc_documents u @ [?d], u_updated_at := ts m\<rparr>"
      have "due C (ConfirmDocument uid doc t) s4 uid u ?w" using u tb by (auto simp: documented)
      moreover have "user_at s4 uid = Some u" using u(1) at4 by simp
      ultimately show "kyc_change C (ConfirmDocument uid doc t) s4
        (user_tbl_update (upd_user uid (\<lambda>u. u\<lparr>u_kyc_documents := u_kyc_documents u @ [?d], u_updated_at := ts m\<rparr>)) s4)"
        unfolding kyc_change_def kyc_part_def by (auto simp: user_at_upd)
    qed
    show "kyc_part (snd (logE (delete_pending_document doc) y)) = kyc_part y" for y :: "'x user_db_scheme"
      by (rule keepsD) (intro keeps_intros pending_beside)
  qed
qed

lemma change_presign:
  assumes "tame_store C" shows "kyc_change C (PresignDocument uid t ct) s (snd (presign_document C uid t ct s))"
proof -
  have part: "keeps kyc_part f" if "keeps kyc_view f" for f :: "('a, 'b) kyc_prog"
    using that kyc_part_view unfolding keeps_def tracks_def kyc_view_def by blast
  have "keeps kyc_part (presign_document C uid t ct)"
    unfolding presign_document_def
  proof (intro keeps_if keeps_throw, rule keeps_bind_val [OF part [OF looks_open]])
    fix p s v assume "open_for_documents C uid s = (Inr p, v)"
    then have p: "kc_presigner C = Some p"
      by (auto simp: open_for_documents_def accepts_documents_def elim!: bindE_InrE split: option.splits if_splits)
    have "keeps kyc_part (ps_put p k c d)" for k c d using assms p by (intro part) (simp add: tame_store_def)
    then show "keeps kyc_part (bindE new_uuid (\<lambda>i. bindE (save_pending_document uid i t ct) (\<lambda>_.
        bindE (ps_put p (build_document_key uid i) ct PresignTTL) (\<lambda>url. ret (i, url)))))"
      by (intro keeps_calls pending_beside) (simp add: kyc_part_def fun_eq_iff)
  qed
  from keepsD [OF this] show ?thesis by (rule change_still)
qed

section \<open>Enhanced and the review\<close>

lemma enhanced_Inr:
  assumes "check_enhanced C uid s = (Inr x, t)"
  obtains u where "user_at s uid = Some u" "basic_verified u \<or> enhanced_rejected u" "has_required_documents (u_kyc_documents u)"
proof -
  from assms obtain u v where g: "repo_get_user uid s = (Inr u, v)" "basic_verified u \<or> enhanced_rejected u"
    "has_required_documents (u_kyc_documents u)"
    unfolding check_enhanced_def by (auto elim!: bindE_InrE split: if_splits)
  from that [OF get_user_Inr [OF g(1)] g(2,3)] show ?thesis .
qed

lemma looks_enhanced: "keeps kyc_view (check_enhanced C uid)"
  unfolding check_enhanced_def by (intro keeps_calls looks_user)

lemma reviewed_part:
  "identity (submitted n m u) = identity u" "standing (submitted n m u) = (LevelEnhanced, StatusPending, u_kyc_documents u)"
  "decided (submitted n m u) = ([], [])"
  "identity (approved n a m u) = identity u" "standing (approved n a m u) = (u_kyc_level u, StatusVerified, u_kyc_documents u)"
  "decided (approved n a m u) = (ra_id a, DecisionApprove)"
  "identity (refused code d n a m u) = identity u" "standing (refused code d n a m u) = (u_kyc_level u, StatusRejected, [])"
  "decided (refused code d n a m u) = (ra_id a, DecisionReject)"
  by (simp_all add: submitted_def approved_def refused_def identity_def standing_def decided_def)

lemma stamped_part: "identity (u\<lparr>u_updated_at := n\<rparr>) = identity u" "standing (u\<lparr>u_updated_at := n\<rparr>) = standing u"
  "decided (u\<lparr>u_updated_at := n\<rparr>) = decided u"
  by (simp_all add: identity_def standing_def decided_def)

lemma change_updated:
  assumes "user_at s uid = Some u" and "due C c s uid u (f u)"
  shows "kyc_change C c s (user_tbl_update (upd_user uid f) s)"
  using assms unfolding kyc_change_def kyc_part_def by (auto simp: user_at_upd)

lemma saved_enhanced:
  assumes "user_at s uid = Some u" and "save_enhanced_submission uid n m s = (Inr (), t)" shows "user_at t uid \<noteq> None"
proof -
  let ?w = "user_tbl_update (upd_user uid (\<lambda>u. (submitted n m u)\<lparr>u_updated_at := ts (clock s)\<rparr>))"
  have "\<exists>os. t = ?w (s\<lparr>faults := os\<rparr>)"
    using assms(2) db_cond_cases [of UInfra UInfra "\<lambda>_. True" ?w s]
    unfolding save_enhanced_submission_def user_update_def db_write_def by (auto simp: bindE_run mapErr_run split: prod.splits sum.splits)
  then obtain os where t: "t = ?w (s\<lparr>faults := os\<rparr>)" by blast
  have "user_at (s\<lparr>faults := os\<rparr>) uid = Some u" using assms(1) by simp
  from user_at_upd [OF this] show ?thesis by (simp add: t)
qed

lemma change_enhanced:
  fixes s :: "'x user_db_scheme"
  assumes "tame_store C" shows "kyc_change C (SubmitEnhanced uid ip) s (snd (submit_enhanced C uid ip s))"
  unfolding submit_enhanced_def
proof (rule kyc.bind_look [OF looks_enhanced])
  fix x and t :: "'x user_db_scheme" assume c: "check_enhanced C uid s = (Inr x, t)" and v: "kyc_view t = kyc_view s"
  from enhanced_Inr [OF c] obtain u where u: "user_at s uid = Some u" "basic_verified u \<or> enhanced_rejected u"
    "has_required_documents (u_kyc_documents u)" .
  have t: "user_at t uid = Some u" using u(1) user_at_view [OF kyc_viewD(2) [OF v]] by simp
  show "kyc_change C (SubmitEnhanced uid ip) t (snd (finish_enhanced C uid ip t))"
    unfolding finish_enhanced_def
  proof (rule kyc.bind_look [OF keeps_now], rule change_then)
    fix n and y :: "'x user_db_scheme" assume "(now t :: (kyc_err + time) \<times> _) = (Inr n, y)"
    then have y: "y = t" by simp
    show "kyc_change C (SubmitEnhanced uid ip) y (snd (save_enhanced_submission uid (ts n) (ts (n + SubmissionTTL)) y))"
      unfolding save_enhanced_submission_def user_update_def
    proof (rule kyc.errors, rule kyc.bind_look [OF keeps_now], rule kyc.put)
      fix m and a b :: "'x user_db_scheme" assume ab: "kyc_view a = kyc_view y" "kyc_view b = kyc_view a"
      have "user_at b uid = Some u" using t user_at_view [OF kyc_viewD(2) [OF ab(1)]] user_at_view [OF kyc_viewD(2) [OF ab(2)]] by (simp add: y)
      then show "kyc_change C (SubmitEnhanced uid ip) b
          (user_tbl_update (upd_user uid (\<lambda>u. (submitted (ts n) (ts (n + SubmissionTTL)) u)\<lparr>u_updated_at := ts m\<rparr>)) b)"
        using u(2,3) by (intro change_updated) (auto simp: stamped_part reviewed_part)
    qed
    show "kyc_part (snd (evaluate_risk C uid ip z)) = kyc_part z"
      if "save_enhanced_submission uid (ts n) (ts (n + SubmissionTTL)) y = (Inr w, z)" for w z
      using that saved_enhanced [OF t, of "ts n" "ts (n + SubmissionTTL)" z] by (intro risk_part [OF assms]) (simp add: y)
  qed
qed

lemma looks_purge: "tame_store C \<Longrightarrow> keeps kyc_view (purge_rejected_objects C ds)"
  unfolding purge_rejected_objects_def
  by (intro keeps_calls) (auto simp: tame_store_def bind_eq_Some_conv)

lemma review_at: "review_open uid s \<Longrightarrow> \<exists>u. user_at s uid = Some u \<and> under_review u"
  by (auto simp: review_open_def user_at_def split: option.splits user_item.splits)

lemma change_review:
  fixes s :: "'x user_db_scheme"
  assumes "tame_store C" shows "kyc_change C (ReviewBy uid dec code d a) s (snd (review_by C uid dec code d a s))"
  unfolding review_by_def Let_def
proof (rule kyc.bind_look [OF looks_user], intro kyc.branch kyc.stop)
  fix u0 and t :: "'x user_db_scheme"
  have here: "kyc_change C (ReviewBy uid dec code d a) t (user_tbl_update (upd_user uid f) t)"
    if "review_open uid t" "\<And>u. under_review u \<Longrightarrow> due C (ReviewBy uid dec code d a) t uid u (f u)" for f and t :: "'x user_db_scheme"
    using review_at [OF that(1)] that(2) by (auto intro: change_updated)
  show "kyc_change C (ReviewBy uid dec code d a) t (snd (bindE now (\<lambda>n. mark_verified uid (ts n) a) t))" if "dec = DecisionApprove"
    unfolding mark_verified_def
    by (intro kyc.bind_look [OF keeps_now] kyc.cond here blind_kyc_conditions) (use that in \<open>auto simp: reviewed_part under_review_def\<close>)
  show "kyc_change C (ReviewBy uid dec code d a) t
      (snd (bindE now (\<lambda>n. bindE (mark_rejected uid code (trim_space d) (ts n) a) (\<lambda>_. purge_rejected_objects C (u_kyc_documents u0))) t))"
    if "dec = DecisionReject" "\<not> \<not> fit_reason code (trim_space d)"
    unfolding mark_rejected_def
    by (intro kyc.bind_look [OF keeps_now] kyc.bind_then [OF _ looks_purge [OF assms]] kyc.cond here blind_kyc_conditions)
      (use that in \<open>auto simp: reviewed_part under_review_def\<close>)
qed

lemma change_perform: "tame_store C \<Longrightarrow> kyc_change C c s (kyc_perform C c s)"
  by (cases c) (simp_all add: change_basic change_presign change_document change_enhanced change_review)

text \<open>Claim C15. Identity records change by right. Whatever calls fail, the identity, the level, the documents and the decision on a
  person change only in these ways: the person, not yet verified, submits valid data of an adult with a
  CPF nobody else holds; the person, verified or refused, adds a document that was announced for this
  account and type, up to ten; the same person with all three documents asks for the review; and a
  reviewer approves, or with a fitting reason refuses, what is under review, which empties the documents.\<close>

theorem kyc_moves_by_right:
  assumes "tame_store C" and "kyc_part (kyc_perform C c s) uid \<noteq> kyc_part s uid"
  shows "\<exists>u v. user_at s uid = Some u \<and> user_at (kyc_perform C c s) uid = Some v \<and> due C c s uid u v"
  using change_perform [OF assms(1), of c s] assms(2) unfolding kyc_change_def by blast

end
