(* ===== verification/KycCpf.thy ===== *)
theory KycCpf
  imports KycRuns
begin

text \<open>
  One account per CPF: over the calls of identity verification, submissions whose check and write are apart,
  registrations and purges, with any failures. And three places where a check of the service comes too
  early or never lets go, with concrete runs.
\<close>

section \<open>The lock of a CPF\<close>

text \<open>A stored user has its own key; one with a CPF can no longer submit another and holds its lock.\<close>

definition cpf_inv :: "'x user_db_scheme \<Rightarrow> bool" where
  "cpf_inv s \<longleftrightarrow> (\<forall>uid u. user_at s uid = Some u \<longrightarrow> u_pk u = build_pk uid \<and>
     (u_cpf u \<noteq> [] \<longrightarrow> is_basic_locked u \<and> (\<exists>n. tget (user_tbl s) (build_cpf_pk (u_cpf u)) = Some (CpfI uid n))))"

lemma cpf_invI:
  assumes "\<And>uid u. user_at s uid = Some u \<Longrightarrow> u_pk u = build_pk uid"
    and "\<And>uid u. user_at s uid = Some u \<Longrightarrow> u_cpf u \<noteq> [] \<Longrightarrow> is_basic_locked u \<and> (\<exists>n. tget (user_tbl s) (build_cpf_pk (u_cpf u)) = Some (CpfI uid n))"
  shows "cpf_inv s"
  using assms unfolding cpf_inv_def by blast

lemma cpf_invD:
  assumes "cpf_inv s" and "user_at s uid = Some u"
  shows "u_pk u = build_pk uid" and "u_cpf u \<noteq> [] \<Longrightarrow> is_basic_locked u"
    and "u_cpf u \<noteq> [] \<Longrightarrow> \<exists>n. tget (user_tbl s) (build_cpf_pk (u_cpf u)) = Some (CpfI uid n)"
  using assms unfolding cpf_inv_def by blast+

lemma cpf_inv_tbl: assumes "user_tbl t = user_tbl s" shows "cpf_inv t = cpf_inv s"
  by (simp add: cpf_inv_def assms user_at_view [OF assms])

lemma blind_cpf [simp]: "blind cpf_inv"
proof -
  have "cpf_inv (s\<lparr>faults := os\<rparr>) = cpf_inv s" for s :: "'a user_db_scheme" and os by (rule cpf_inv_tbl) simp
  then show ?thesis unfolding blind_def by blast
qed

lemma cpf_kept: "keeps kyc_view f \<Longrightarrow> preserves cpf_inv f"
  unfolding preserves_def by (auto dest: cpf_inv_tbl [OF kyc_viewD(2) [OF keepsD]])

lemma upd_user_other: "k \<noteq> build_pk uid \<Longrightarrow> tget (upd_user uid f tb) k = tget tb k"
  by (auto simp: upd_user_def split: option.splits user_item.splits)

lemma user_at_any:
  "user_at (user_tbl_update (upd_user uid f) s) v = Some w \<Longrightarrow>
   (v = uid \<and> (w = f (blank_user (build_pk uid)) \<and> user_at s uid = None \<or> (\<exists>u. user_at s uid = Some u \<and> w = f u))) \<or> v \<noteq> uid \<and> user_at s v = Some w"
  by (cases "v = uid") (auto simp: user_at_def upd_user_def upd_user_other split: option.splits user_item.splits)

text \<open>An update that leaves key and CPF alone and does not unlock.\<close>

lemma cpf_update:
  assumes "cpf_inv s" and "\<And>u. u_pk (f u) = u_pk u \<and> u_cpf (f u) = u_cpf u"
    and "\<And>u. user_at s uid = Some u \<Longrightarrow> is_basic_locked u \<Longrightarrow> is_basic_locked (f u)"
  shows "cpf_inv (user_tbl_update (upd_user uid f) s)"
proof (rule cpf_invI)
  fix v w assume w: "user_at (user_tbl_update (upd_user uid f) s) v = Some w"
  show "u_pk w = build_pk v"
    using user_at_any [OF w] cpf_invD(1) [OF assms(1)] assms(2) by (auto simp: blank_user_def)
  assume c: "u_cpf w \<noteq> []"
  then obtain u where u: "user_at s v = Some u" "u_cpf w = u_cpf u" "is_basic_locked u \<Longrightarrow> is_basic_locked w"
    using user_at_any [OF w] assms(2,3) by (auto simp: blank_user_def)
  with cpf_invD(2,3) [OF assms(1) u(1)] c
  show "is_basic_locked w \<and> (\<exists>n. tget (user_tbl (user_tbl_update (upd_user uid f) s)) (build_cpf_pk (u_cpf w)) = Some (CpfI v n))"
    by (simp add: upd_user_other)
qed

lemma cpf_user_update:
  assumes "\<And>u. u_pk (f u) = u_pk u \<and> u_cpf (f u) = u_cpf u" and "\<And>u. is_basic_locked u \<Longrightarrow> is_basic_locked (f u)"
  shows "preserves cpf_inv (mapErr KycUser (user_update uid f))"
proof -
  have "is_basic_locked (u\<lparr>u_updated_at := n\<rparr>) = is_basic_locked u" for u n by (simp add: is_basic_locked_def basic_verified_def)
  then show ?thesis
    unfolding user_update_def using assms by (intro wp preserves_db_write blind_cpf cpf_update) simp_all
qed

lemma cpf_beside:
  assumes "cpf_inv s" and "\<And>i. k \<noteq> build_pk i" and "\<And>c. k \<noteq> build_cpf_pk c"
  shows "cpf_inv (user_tbl_update (tput k x) s)" "cpf_inv (user_tbl_update (tdel k) s)"
  using assms(1) assms(3) unfolding cpf_inv_def by (simp_all add: assms(2) not_sym [OF assms(3)])

lemma cpf_basic:
  assumes "cpf_inv s" and "cpf_free (br_cpf r) uid s"
  shows "cpf_inv (user_tbl_update (basic_tbl uid r [] n) s)"
proof (rule cpf_invI)
  let ?t = "user_tbl_update (basic_tbl uid r [] n) s" and ?k = "build_cpf_pk (br_cpf r)"
  let ?s = "user_tbl_update (tput ?k (CpfI uid n)) s"
  have t: "?t = user_tbl_update (upd_user uid (with_basic r n)) ?s" by (simp add: basic_tbl_def)
  have b: "u_cpf (with_basic r n u) = br_cpf r" "u_pk (with_basic r n u) = u_pk u" "is_basic_locked (with_basic r n u)" for u
    by (simp_all add: with_basic_def is_basic_locked_def basic_verified_def)
  have k: "tget (user_tbl ?t) (build_cpf_pk c) = (if c = br_cpf r then Some (CpfI uid n) else tget (user_tbl s) (build_cpf_pk c))" for c
    by (simp add: t upd_user_other)
  fix v w assume "user_at ?t v = Some w"
  then have w: "(v = uid \<and> (w = with_basic r n (blank_user (build_pk uid)) \<or> (\<exists>u. user_at s uid = Some u \<and> w = with_basic r n u))) \<or> v \<noteq> uid \<and> user_at s v = Some w"
    unfolding t using user_at_any by fastforce
  show "u_pk w = build_pk v"
    using w cpf_invD(1) [OF assms(1)] by (auto simp: b blank_user_def)
  assume c: "u_cpf w \<noteq> []"
  show "is_basic_locked w \<and> (\<exists>m. tget (user_tbl ?t) (build_cpf_pk (u_cpf w)) = Some (CpfI v m))"
  proof (cases "v = uid")
    case True
    with w have "u_cpf w = br_cpf r" "is_basic_locked w" by (auto simp: b)
    with True show ?thesis unfolding k by simp
  next
    case False
    with w have u: "user_at s v = Some w" by blast
    from cpf_invD(3) [OF assms(1) u c] obtain m where m: "tget (user_tbl s) (build_cpf_pk (u_cpf w)) = Some (CpfI v m)" by blast
    with False assms(2) have "u_cpf w \<noteq> br_cpf r" by (auto simp: cpf_free_def)
    with m cpf_invD(2) [OF assms(1) u c] show ?thesis unfolding k by simp
  qed
qed

section \<open>The calls keep it\<close>

lemma cpf_risk: "tame_store C \<Longrightarrow> preserves cpf_inv (evaluate_risk C uid ip)"
  unfolding evaluate_risk_def save_risk_assessment_def
  by (intro wp preserves_cases cpf_user_update cpf_kept) (auto simp: tame_store_def is_basic_locked_def basic_verified_def)

lemma cpf_finish: "tame_store C \<Longrightarrow> preserves cpf_inv (finish_basic C uid ip b [])"
  unfolding finish_basic_def save_basic_submission_def
  by (intro wp preserves_db_cond blind_cpf blind_kyc_conditions cpf_risk cpf_basic)

lemma checked_old: "cpf_inv s \<Longrightarrow> check_basic C uid b s = (Inr old, t) \<Longrightarrow> old = []"
  by (erule check_basic_Inr) (auto dest: cpf_invD)

lemma cpf_submit_basic: "tame_store C \<Longrightarrow> preserves cpf_inv (submit_basic C uid ip b)"
  unfolding submit_basic_def
proof (rule preserves_bindE_val [where V = "\<lambda>old. old = []"])
  show "preserves cpf_inv (check_basic C uid b)" by (intro cpf_kept looks_basic)
  show "yields cpf_inv (check_basic C uid b) (\<lambda>old. old = [])" by (auto simp: yields_def intro: checked_old)
  show "preserves cpf_inv (finish_basic C uid ip b old)" if "tame_store C" "old = []" for old
    unfolding that(2) using that(1) by (rule cpf_finish)
qed

lemma cpf_pending: "preserves cpf_inv (save_pending_document uid doc t ct)" "preserves cpf_inv (delete_pending_document doc)"
  unfolding save_pending_document_def delete_pending_document_def
  by (intro preserves_db_cond preserves_db_write blind_cpf; simp add: cpf_beside blind_def)+

lemma cpf_uuid: "preserves cpf_inv new_uuid"
  by (intro cpf_kept keeps_new_uuid) simp

lemma cpf_presign: "tame_store C \<Longrightarrow> preserves cpf_inv (presign_document C uid t ct)"
proof -
  assume C: "tame_store C"
  have put: "preserves cpf_inv (ps_put p k c d)" if "kc_presigner C = Some p" for p k c d
    using that C by (intro cpf_kept) (simp add: tame_store_def)
  have V: "yields cpf_inv (open_for_documents C uid) (\<lambda>p. kc_presigner C = Some p)"
    by (auto simp: yields_def open_for_documents_def accepts_documents_def elim!: bindE_InrE split: option.splits if_splits)
  show ?thesis
    unfolding presign_document_def
    by (intro preserves_if preserves_throw preserves_bindE_val [OF cpf_kept [OF looks_open] V] preserves_bindE preserves_ret
        cpf_pending put cpf_uuid)
qed

lemma cpf_confirm: "tame_store C \<Longrightarrow> preserves cpf_inv (confirm_document C uid doc t)"
  unfolding confirm_document_def record_upload_def add_document_def
  by (intro wp cpf_kept looks_upload preserves_db_write blind_cpf cpf_update cpf_pending)
    (simp_all add: is_basic_locked_def basic_verified_def)

lemma cpf_enhanced: "tame_store C \<Longrightarrow> preserves cpf_inv (submit_enhanced C uid ip)"
  unfolding submit_enhanced_def finish_enhanced_def save_enhanced_submission_def
  by (intro wp cpf_kept looks_enhanced cpf_user_update cpf_risk) (simp_all add: submitted_def is_basic_locked_def)

lemma cpf_review: "tame_store C \<Longrightarrow> preserves cpf_inv (review_by C uid dec code d a)"
proof -
  assume C: "tame_store C"
  have "cpf_inv (user_tbl_update (upd_user uid f) s)" if "cpf_inv s" "review_open uid s"
    "\<And>u. u_pk (f u) = u_pk u \<and> u_cpf (f u) = u_cpf u \<and> u_kyc_level (f u) = u_kyc_level u" for f and s :: "'a user_db_scheme"
  proof (rule cpf_update [OF that(1)])
    show "is_basic_locked (f u)" if "user_at s uid = Some u" for u
      using review_at [OF \<open>review_open uid s\<close>] that \<open>\<And>u. u_pk (f u) = u_pk u \<and> u_cpf (f u) = u_cpf u \<and> u_kyc_level (f u) = u_kyc_level u\<close>
      by (simp add: under_review_def is_basic_locked_def)
  qed (use that(3) in simp)
  then show ?thesis
    unfolding review_by_def mark_verified_def mark_rejected_def Let_def
    by (intro wp cpf_kept looks_user looks_purge [OF C] preserves_db_cond blind_cpf blind_kyc_conditions)
      (simp_all add: approved_def refused_def)
qed

lemma cpf_perform: "tame_store C \<Longrightarrow> cpf_inv s \<Longrightarrow> cpf_inv (kyc_perform C c s)"
  by (cases c) (simp_all add: preservesD cpf_submit_basic cpf_presign cpf_confirm cpf_enhanced cpf_review)

text \<open>A registration stores a user without a CPF; a purge leaves a tombstone and frees the locks of the user it read.\<close>

lemma cpf_new_user:
  assumes "cpf_inv s" and "u_pk u = build_pk i" and "u_cpf u = []"
  shows "cpf_inv (user_tbl_update (tput (build_pk i) (UserI u)) s)"
proof (rule cpf_invI)
  fix v w assume "user_at (user_tbl_update (tput (build_pk i) (UserI u)) s) v = Some w"
  then have w: "v = i \<and> w = u \<or> user_at s v = Some w" by (auto simp: user_at_def build_pk_def split: if_splits)
  then show "u_pk w = build_pk v" using cpf_invD(1) [OF assms(1)] assms(2) by auto
  assume "u_cpf w \<noteq> []"
  with w cpf_invD(2,3) [OF assms(1), of v w] assms(3)
  show "is_basic_locked w \<and> (\<exists>n. tget (user_tbl (user_tbl_update (tput (build_pk i) (UserI u)) s)) (build_cpf_pk (u_cpf w)) = Some (CpfI v n))"
    by auto
qed

lemma email_key [simp]: "email_marker_pk sha e \<noteq> build_cpf_pk c" "build_cpf_pk c \<noteq> email_marker_pk sha e"
  by (simp_all add: build_cpf_pk_def)

lemma cpf_lock:
  "cpf_inv s \<Longrightarrow> cpf_inv (user_tbl_update (tput (email_marker_pk sha e) x) s)"
  "cpf_inv s \<Longrightarrow> cpf_inv (user_tbl_update (tdel (email_marker_pk sha e)) s)"
  by (rule cpf_beside; simp)+

lemma cpf_create:
  assumes "u_pk u = []" and "u_cpf u = []" shows "preserves cpf_inv (user_create sha u)"
  unfolding user_create_def Let_def
proof (rule preserves_bindE_val [where V = "\<lambda>pk. \<exists>i. pk = build_pk i"])
  show "preserves cpf_inv (if u_pk u = [] then bindE new_uuid (\<lambda>i. ret (build_pk i)) else ret (u_pk u))"
    by (intro wp cpf_uuid)
  show "yields cpf_inv (if u_pk u = [] then bindE new_uuid (\<lambda>i. ret (build_pk i)) else ret (u_pk u)) (\<lambda>pk. \<exists>i. pk = build_pk i)"
    using assms(1) by (auto simp: yields_def elim!: bindE_InrE)
  fix pk :: string assume "\<exists>i. pk = build_pk i"
  then obtain i where pk: "pk = build_pk i" by blast
  have n: "cpf_inv (user_tbl_update (tput pk (UserI (create_user_item u pk n))) s)" if "cpf_inv s" for n and s :: "'q user_db_scheme"
    unfolding pk using that assms(2) by (intro cpf_new_user) (simp_all add: create_user_item_def)
  show "preserves cpf_inv (bindE now (\<lambda>n.
      bindE (db_cond UInfra ErrEmailConflict (\<lambda>s. tget (user_tbl s) (email_marker_pk sha (u_email (create_user_item u pk n))) = None)
        (user_tbl_update (tput (email_marker_pk sha (u_email (create_user_item u pk n))) (LockI (ts n))))) (\<lambda>_.
      bindE (tryE (db_write UInfra (user_tbl_update (tput pk (UserI (create_user_item u pk n)))))) (\<lambda>w. case w of
        Inl e \<Rightarrow> bindE (logE (db_write UInfra (user_tbl_update (tdel (email_marker_pk sha (u_email (create_user_item u pk n))))))) (\<lambda>_. throw e)
      | Inr _ \<Rightarrow> ret (create_user_item u pk n)))))"
    by (intro wp preserves_cases preserves_db_cond preserves_db_write blind_cpf n cpf_lock) (simp_all add: blind_def)
qed

lemma purge_tbl_at:
  assumes "cpf_inv s" and "user_at s uid = Some u"
  shows "cpf_inv (user_tbl_update (purge_tbl (tombstone_of mac u rid t0) (retention_of uid u rid t0) (purge_markers sha u)) s)"
proof -
  have pk: "u_pk u = build_pk uid" by (rule cpf_invD(1) [OF assms])
  let ?z = "user_of_tombstone (tombstone_of mac u rid t0)"
  let ?a = "user_tbl_update (tput (build_pk uid) (UserI ?z)) s"
  let ?b = "user_tbl_update (case retention_of uid u rid t0 of None \<Rightarrow> id | Some k \<Rightarrow> tput (re_pk k) (RetentionI k)) ?a"
  let ?c = "user_tbl_update (if u_email u \<noteq> [] then tdel (email_marker_pk sha (u_email u)) else id) ?b"
  let ?d = "user_tbl_update (if u_cpf u \<noteq> [] then tdel (build_cpf_pk (u_cpf u)) else id) ?c"
  have z: "u_pk ?z = build_pk uid" "u_cpf ?z = []" "tb_pk (tombstone_of mac u rid t0) = build_pk uid"
    by (simp_all add: user_of_tombstone_def tombstone_of_def blank_user_def pk)
  have a: "cpf_inv ?a" by (rule cpf_new_user [OF assms(1) z(1,2)])
  have r: "re_pk k = kyc_retention_pk uid" if "retention_of uid u rid t0 = Some k" for k
    using that by (auto simp: retention_of_def Let_def split: if_splits)
  have b: "cpf_inv ?b"
    by (cases "retention_of uid u rid t0") (use a cpf_beside(1) [OF a, of "kyc_retention_pk uid"] in \<open>simp_all add: r build_cpf_pk_def\<close>)
  have c: "cpf_inv ?c" using b cpf_lock(2) [OF b] by simp
  have at_uid: "user_at ?c uid = Some ?z"
    by (cases "retention_of uid u rid t0") (auto simp: user_at_def r build_cpf_pk_def)
  have at_other: "user_at ?c v = user_at s v" if "v \<noteq> uid" for v
    by (cases "retention_of uid u rid t0") (use that in \<open>auto simp: user_at_def r\<close>)
  have d: "cpf_inv ?d"
  proof (cases "u_cpf u = []")
    case False
    show ?thesis
    proof (rule cpf_invI)
      fix v w assume "user_at ?d v = Some w"
      then have w: "user_at ?c v = Some w" using False by (simp add: user_at_def)
      show "u_pk w = build_pk v" by (rule cpf_invD(1) [OF c w])
      assume cpf: "u_cpf w \<noteq> []"
      with w at_uid z have v: "v \<noteq> uid" by auto
      with w at_other have ws: "user_at s v = Some w" by simp
      from cpf_invD(3) [OF assms(1) ws cpf] cpf_invD(3) [OF assms(1,2) False] v have "u_cpf w \<noteq> u_cpf u" by auto
      with cpf_invD(2,3) [OF c w cpf] False
      show "is_basic_locked w \<and> (\<exists>n. tget (user_tbl ?d) (build_cpf_pk (u_cpf w)) = Some (CpfI v n))" by simp
    qed
  qed (use c in simp)
  have "user_tbl_update (purge_tbl (tombstone_of mac u rid t0) (retention_of uid u rid t0) (purge_markers sha u)) s = ?d"
    by (simp add: purge_tbl_def z(3) purge_markers_def build_cpf_pk_def)
  with d show ?thesis by simp
qed

lemma cpf_purge: "cpf_inv s \<Longrightarrow> cpf_inv (snd (user_purge sha mac uid rid t0 s))"
proof -
  assume inv: "cpf_inv s"
  obtain r t where g: "user_get_by_id uid s = (r, t)" by force
  have "keeps kyc_view (user_get_by_id uid :: ('a, user) user_prog)"
    unfolding user_get_by_id_def by (intro keeps_calls) simp_all
  from kyc_viewD(2) [OF keepsD' [OF this g]] have tb: "user_tbl t = user_tbl s" .
  have t: "cpf_inv t" using inv cpf_inv_tbl [OF tb] by simp
  show ?thesis
  proof (cases r)
    case (Inl e)
    with g t show ?thesis by (simp add: user_purge_def)
  next
    case (Inr u)
    have u: "user_at t uid = Some u"
      using get_by_id_InrD [OF g [unfolded Inr]] by (simp add: user_at_def tb)
    let ?w = "user_tbl_update (purge_tbl (tombstone_of mac u rid t0) (retention_of uid u rid t0) (purge_markers sha u))"
    have w: "cpf_inv (?w (t\<lparr>faults := os\<rparr>))" for os
      using t u by (intro purge_tbl_at) (simp_all add: blindD [OF blind_cpf])
    have e: "cpf_inv (t\<lparr>faults := os\<rparr>)" for os using t by (simp add: blindD [OF blind_cpf])
    have "cpf_inv (snd (repo_purge (tombstone_of mac u rid t0) (retention_of uid u rid t0) (purge_markers sha u) t))"
      unfolding repo_purge_def using w e db_cond_cases
      by (smt (verit, best))
    with g Inr t show ?thesis by (simp add: user_purge_def)
  qed
qed

section \<open>Runs\<close>

text \<open>Calls of anybody, submissions split at their write (what was checked is carried out at any later moment), registrations,
  purges and the passing of time. \<open>P\<close> are the submissions on their way.\<close>

type_synonym basics = "(string \<times> basic_submission \<times> string) set"

inductive kyc_step :: "'x kyc_conf \<Rightarrow> 'x user_db_scheme \<times> basics \<Rightarrow> 'x user_db_scheme \<times> basics \<Rightarrow> bool" for C where
  call: "kyc_step C (s, P) (kyc_perform C c s, P)"
| check: "check_basic C uid b s = (Inr old, t) \<Longrightarrow> kyc_step C (s, P) (t, insert (uid, b, old) P)"
| carry: "(uid, b, old) \<in> P \<Longrightarrow> kyc_step C (s, P) (snd (finish_basic C uid ip b old s), P)"
| register: "u_pk u = [] \<Longrightarrow> u_cpf u = [] \<Longrightarrow> kyc_step C (s, P) (snd (user_create sha u s), P)"
| purge: "kyc_step C (s, P) (snd (user_purge sha mac uid rid t0 s), P)"
| tick: "clock s \<le> n \<Longrightarrow> kyc_step C (s, P) (s\<lparr>clock := n\<rparr>, P)"

lemma kyc_step_inv:
  assumes "kyc_step C c d" and "tame_store C" and "cpf_inv (fst c) \<and> (\<forall>(uid, b, old)\<in>snd c. old = [])"
  shows "cpf_inv (fst d) \<and> (\<forall>(uid, b, old)\<in>snd d. old = [])"
  using assms(1)
proof cases
  case (call s P k)
  with assms(3) cpf_perform [OF assms(2), of s k] show ?thesis by simp
next
  case (check uid b s old t P)
  have "user_tbl t = user_tbl s" by (rule kyc_viewD(2) [OF keepsD' [OF looks_basic check(3)]])
  from cpf_inv_tbl [OF this] checked_old [OF _ check(3)] assms(3) check(1,2) show ?thesis by auto
next
  case (carry uid b old P s ip)
  with assms(3) have "old = []" "cpf_inv s" by auto
  with preservesD [OF cpf_finish [OF assms(2)], of s uid ip b] assms(3) carry(1,2) show ?thesis by simp
next
  case (register u s P sha)
  with preservesD [OF cpf_create [OF register(3,4)], of s sha] assms(3) show ?thesis by simp
next
  case (purge s P sha mac uid rid t0)
  with assms(3) cpf_purge [of s sha mac uid rid t0] show ?thesis by simp
next
  case (tick s n P)
  have "cpf_inv (s\<lparr>clock := n\<rparr>) = cpf_inv s" by (rule cpf_inv_tbl) simp
  with tick assms(3) show ?thesis by simp
qed

text \<open>Claim C16. One account per CPF. In every run that starts with users without a CPF, whatever calls fail and even when submissions
  check long before they write, two accounts with the same CPF are the same account, and the lock of a
  stored CPF names its account.\<close>

theorem one_account_per_cpf:
  assumes "(kyc_step C)\<^sup>*\<^sup>* (s0, {}) (s, P)" and "tame_store C"
    and "\<forall>uid u. user_at s0 uid = Some u \<longrightarrow> u_pk u = build_pk uid \<and> u_cpf u = []"
    and "user_at s v = Some a" and "user_at s w = Some b" and "u_cpf a = u_cpf b" and "u_cpf a \<noteq> []"
  shows "v = w \<and> (\<exists>n. tget (user_tbl s) (build_cpf_pk (u_cpf a)) = Some (CpfI v n))"
proof -
  have "cpf_inv (fst c) \<and> (\<forall>(uid, b, old)\<in>snd c. old = [])" if "(kyc_step C)\<^sup>*\<^sup>* (s0, {}) c" for c
    using that
  proof (induction rule: rtranclp_induct)
    case base
    from assms(3) show ?case by (simp add: cpf_inv_def)
  next
    case (step c d)
    from kyc_step_inv [OF step(2) assms(2) step(3)] show ?case .
  qed
  from this [OF assms(1)] have inv: "cpf_inv s" by simp
  from cpf_invD(3) [OF inv assms(4,7)] obtain n where n: "tget (user_tbl s) (build_cpf_pk (u_cpf a)) = Some (CpfI v n)" by blast
  from cpf_invD(3) [OF inv assms(5)] assms(6,7) obtain m where "tget (user_tbl s) (build_cpf_pk (u_cpf a)) = Some (CpfI w m)" by auto
  with n show ?thesis by auto
qed

section \<open>Where a check comes too early or never lets go\<close>

lemma get_user_calm:
  assumes "faults s = []" and "user_at s uid = Some u" shows "repo_get_user uid s = (Inr u, s)"
  using assms by (auto simp: repo_get_user_def mapErr_run user_at_def bind_eq_Some_conv get_by_id_run elim!: as_user.elims)

text \<open>Claim C17. An expired submission never lets go. A submission that nobody reviewed in time reads back as the basic tier, and the
  comments say that expiry opens it again, but the person can neither submit again nor add a document:
  both are refused as still under review, for as long as nobody reviews it.\<close>

theorem expired_submission_stays_locked:
  assumes "faults s = []" and "user_at s uid = Some u" and "under_review u" and "submission_expired u (clock s)"
    and "documents_enabled C" and "t \<in> set RequiredDocTypes" and "is_valid_content_type ct"
  shows "kyc_state u (clock s) = StateBasicVerified \<and> submit_enhanced C uid ip s = (Inl ErrSubmissionLocked, s) \<and>
    presign_document C uid t ct s = (Inl ErrSubmissionLocked, s)"
proof -
  note g = get_user_calm [OF assms(1,2)]
  have l: "u_kyc_level u = LevelEnhanced" "u_kyc_status u = StatusPending" using assms(3) by (simp_all add: under_review_def)
  have ne: "StatusPending \<noteq> StatusVerified" "StatusPending \<noteq> StatusRejected" "LevelEnhanced \<noteq> LevelBasic"
    by (simp_all add: StatusPending_def StatusVerified_def StatusRejected_def LevelEnhanced_def LevelBasic_def)
  have "kyc_state u (clock s) = StateBasicVerified"
    using assms(3,4) l ne by (simp add: kyc_state_def enhanced_rejected_def)
  moreover have "submit_enhanced C uid ip s = (Inl ErrSubmissionLocked, s)"
    using g assms(3) l ne by (simp add: submit_enhanced_def check_enhanced_def bindE_run)
  moreover have "presign_document C uid t ct s = (Inl ErrSubmissionLocked, s)"
    using g assms(5-7) l ne
    by (auto simp: presign_document_def open_for_documents_def accepts_documents_def bindE_run is_valid_document_type_def
        basic_verified_def enhanced_rejected_def documents_enabled_def)
  ultimately show ?thesis by blast
qed

lemma kyc_update_calm:
  assumes "faults s = []" and "user_at s uid = Some u"
  shows "\<exists>t. mapErr KycUser (user_update uid f) s = (Inr (), t) \<and> faults t = [] \<and> clock t = clock s \<and>
    user_at t uid = Some ((f u)\<lparr>u_updated_at := ts (clock s)\<rparr>)"
  using assms by (auto simp: user_update_def bindE_run mapErr_run user_at_upd)

lemma risk_calm:
  assumes "faults s = []" and "user_at s uid = Some u" and "kc_risk C = noop_evaluate"
  shows "\<exists>t v. evaluate_risk C uid ip s = (Inr (), t) \<and> faults t = [] \<and> user_at t uid = Some v \<and>
    standing v = standing u \<and> decided v = decided u"
proof -
  let ?a = "\<lparr>as_score = 0, as_signals = [], as_evaluated_at = ts (clock s)\<rparr>"
  obtain t where t: "save_risk_assessment uid ?a s = (Inr (), t)" "faults t = []"
    "\<exists>v. user_at t uid = Some v \<and> standing v = standing u \<and> decided v = decided u"
    using kyc_update_calm [OF assms(1,2)] unfolding save_risk_assessment_def
    by (fastforce simp: standing_def decided_def)
  then show ?thesis using assms(3) by (auto simp: evaluate_risk_def noop_evaluate_def bindE_run tryE_run logE_run)
qed

lemma finish_enhanced_calm:
  assumes "faults s = []" and "user_at s uid = Some u" and "kc_risk C = noop_evaluate"
  shows "\<exists>t v. finish_enhanced C uid ip s = (Inr (), t) \<and> faults t = [] \<and> user_at t uid = Some v \<and>
    standing v = (LevelEnhanced, StatusPending, u_kyc_documents u) \<and> decided v = ([], [])"
proof -
  obtain t where t: "save_enhanced_submission uid (ts (clock s)) (ts (clock s + SubmissionTTL)) s = (Inr (), t)" "faults t = []"
    "user_at t uid = Some ((submitted (ts (clock s)) (ts (clock s + SubmissionTTL)) u)\<lparr>u_updated_at := ts (clock s)\<rparr>)"
    using kyc_update_calm [OF assms(1,2)] unfolding save_enhanced_submission_def by blast
  from risk_calm [OF t(2,3) assms(3)] t(1) show ?thesis
    by (auto simp: finish_enhanced_def bindE_run stamped_part reviewed_part)
qed

lemma approve_calm:
  assumes "faults s = []" and "user_at s uid = Some u" and "under_review u"
  shows "\<exists>t v. review_by C uid DecisionApprove code d a s = (Inr (), t) \<and> faults t = [] \<and> user_at t uid = Some v \<and>
    standing v = (LevelEnhanced, StatusVerified, u_kyc_documents u) \<and> decided v = (ra_id a, DecisionApprove)"
proof -
  let ?f = "approved (ts (clock s)) a (ts (clock s))"
  have "tget (user_tbl s) (build_pk uid) = Some (UserI u)"
    using assms(2) by (auto simp: user_at_def bind_eq_Some_conv elim!: as_user.elims)
  then have o: "review_open uid s" using assms(3) by (simp add: review_open_def)
  have "review_by C uid DecisionApprove code d a s = (Inr (), user_tbl_update (upd_user uid ?f) s)"
    using get_user_calm [OF assms(1,2)] assms(1,3) o by (simp add: review_by_def mark_verified_def bindE_run)
  moreover have "standing (?f u) = (LevelEnhanced, StatusVerified, u_kyc_documents u)" "decided (?f u) = (ra_id a, DecisionApprove)"
    using assms(3) by (simp_all add: reviewed_part under_review_def)
  ultimately show ?thesis using assms(1) user_at_upd [OF assms(2)] by auto
qed

text \<open>Claim C18. A late submission undoes an approval. The write of a submission has no condition, so of two requests of the same
  person that both passed the checks the second may write after the first was reviewed and approved: the
  person is under review again, the claim in the tokens falls from enhanced to basic, and the decision
  with its reviewer is erased; no call fails.\<close>

theorem late_submission_undoes_approval:
  assumes "faults s = []" and "user_at s uid = Some u" and "basic_verified u" and "has_required_documents (u_kyc_documents u)"
    and "documents_enabled C" and "kc_risk C = noop_evaluate"
  shows "\<exists>s1 s2 s3 v w. check_enhanced C uid s = (Inr (), s) \<and> submit_enhanced C uid ip s = (Inr (), s1) \<and>
    review_by C uid DecisionApprove [] [] a s1 = (Inr (), s2) \<and> finish_enhanced C uid ip s2 = (Inr (), s3) \<and>
    user_at s2 uid = Some v \<and> claim_level (u_kyc_level v) (u_kyc_status v) = LevelEnhanced \<and> decided v = (ra_id a, DecisionApprove) \<and>
    user_at s3 uid = Some w \<and> claim_level (u_kyc_level w) (u_kyc_status w) = LevelBasic \<and> decided w = ([], [])"
proof -
  have ne: "LevelBasic \<noteq> LevelEnhanced" "StatusPending \<noteq> StatusVerified"
    by (simp_all add: LevelBasic_def LevelEnhanced_def StatusPending_def StatusVerified_def)
  have c: "check_enhanced C uid s = (Inr (), s)"
    using get_user_calm [OF assms(1,2)] assms(3-5) ne
    by (auto simp: check_enhanced_def bindE_run basic_verified_def under_review_def)
  from finish_enhanced_calm [OF assms(1,2,6)] obtain s1 x where f: "finish_enhanced C uid ip s = (Inr (), s1)" "faults s1 = []"
    "user_at s1 uid = Some x" "standing x = (LevelEnhanced, StatusPending, u_kyc_documents u)" by blast
  have sub: "submit_enhanced C uid ip s = (Inr (), s1)" using c f(1) by (simp add: submit_enhanced_def bindE_run)
  have "under_review x" using f(4) by (simp add: under_review_def standing_def)
  from approve_calm [OF f(2,3) this] obtain s2 v where r: "review_by C uid DecisionApprove [] [] a s1 = (Inr (), s2)" "faults s2 = []"
    "user_at s2 uid = Some v" "standing v = (LevelEnhanced, StatusVerified, u_kyc_documents x)" "decided v = (ra_id a, DecisionApprove)" by blast
  from finish_enhanced_calm [OF r(2,3) assms(6)] obtain s3 w where l: "finish_enhanced C uid ip s2 = (Inr (), s3)"
    "user_at s3 uid = Some w" "standing w = (LevelEnhanced, StatusPending, u_kyc_documents v)" "decided w = ([], [])" by blast
  have "claim_level (u_kyc_level v) (u_kyc_status v) = LevelEnhanced" "claim_level (u_kyc_level w) (u_kyc_status w) = LevelBasic"
    using r(4) l(3) ne by (simp_all add: standing_def claim_level_def)
  with c sub r(1,3,5) l(1,2,4) show ?thesis by blast
qed

end
