(* ===== verification/KycDemo.thy ===== *)
theory KycDemo
  imports KycCpf
begin

text \<open>Concrete runs of identity verification: the hypotheses of its properties hold somewhere.\<close>

section \<open>A person and a store\<close>

definition demo_store :: "unit presigner" where
  "demo_store = \<lparr>ps_put = (\<lambda>k ct d. ret (''https://s3/'' @ k)), ps_get = (\<lambda>k d. ret (''https://s3/'' @ k)),
     ps_size = (\<lambda>k. ret 1000), ps_delete = Some (\<lambda>k. ret ())\<rparr>"

definition demo_kyc_conf :: "unit kyc_conf" where
  "demo_kyc_conf = \<lparr>kc_valid_cpf = (\<lambda>c. c = ''52998224725''), kc_presigner = Some demo_store, kc_risk = noop_evaluate\<rparr>"

definition demo_applicant :: user where
  "demo_applicant = (blank_user ''USER_u'')\<lparr>u_email := ''a@b'', u_is_enabled := True\<rparr>"

definition demo_papers :: "kyc_document list" where
  "demo_papers = map (\<lambda>t. \<lparr>kd_id = t, kd_type = t, kd_key = build_document_key ''u'' t, kd_uploaded_at = Some 0\<rparr>) RequiredDocTypes"

definition demo_ready :: user where
  "demo_ready = demo_applicant\<lparr>u_cpf := ''52998224725'', u_kyc_level := LevelBasic, u_kyc_status := StatusVerified, u_kyc_documents := demo_papers\<rparr>"

definition demo_queued :: user where
  "demo_queued = demo_ready\<lparr>u_kyc_level := LevelEnhanced, u_kyc_status := StatusPending, u_kyc_expires_at := Some 1000\<rparr>"

definition demo_office :: "user \<Rightarrow> user_db" where
  "demo_office u = \<lparr>clock = 1800000000 * second, faults = [], rng = (\<lambda>n. Some n), rng_ix = 0, uuids = (\<lambda>n. replicate n CHR ''i''), uuid_ix = 1,
     sess_tbl = [], key_tbl = [], user_tbl = [(''USER_u'', UserI u)]\<rparr>"

definition demo_form :: basic_submission where
  "demo_form = \<lparr>bs_cpf = ''52998224725'', bs_legal_name = '' Ana Lima '', bs_birth_date = ''1990-02-28'', bs_phone_number = ''+5511987654321'',
     bs_address = \<lparr>ad_zip_code = ''01310100'', ad_street = ''Av. Paulista'', ad_number = ''1'', ad_complement = [],
       ad_district = ''Bela Vista'', ad_city = ''Sao Paulo'', ad_state = '' sp''\<rparr>\<rparr>"

definition demo_submit :: kyc_call where "demo_submit = SubmitBasic ''u'' ''1.2.3.4'' demo_form"

lemma demo_tame_store: "tame_store demo_kyc_conf"
  by (simp add: tame_store_def demo_kyc_conf_def demo_store_def noop_evaluate_def keeps_def tracks_def bindE_run)

lemma demo_user_at: "user_at (demo_office u) v = (if v = ''u'' then Some u else None)"
  by (simp add: user_at_def demo_office_def build_pk_def)

section \<open>Calls and runs\<close>

lemma demo_verified:
  "(case user_at (kyc_perform demo_kyc_conf demo_submit (demo_office demo_applicant)) ''u'' of Some v \<Rightarrow>
     u_kyc_level v = ''basic'' \<and> u_kyc_status v = ''verified'' \<and> u_cpf v = ''52998224725'' | None \<Rightarrow> False)"
  by code_simp

theorem kyc_moves_by_right_witness:
  "\<exists>v. user_at (kyc_perform demo_kyc_conf demo_submit (demo_office demo_applicant)) ''u'' = Some v \<and>
     due demo_kyc_conf demo_submit (demo_office demo_applicant) ''u'' demo_applicant v"
proof -
  have "standing demo_applicant = ([], [], [])" by (simp add: standing_def demo_applicant_def blank_user_def)
  with demo_verified have "kyc_part (kyc_perform demo_kyc_conf demo_submit (demo_office demo_applicant)) ''u'' \<noteq> kyc_part (demo_office demo_applicant) ''u''"
    by (auto simp: kyc_part_def demo_user_at standing_def split: option.splits)
  from kyc_moves_by_right [OF demo_tame_store this] show ?thesis by (simp add: demo_user_at)
qed

theorem one_account_per_cpf_witness:
  "\<exists>n. tget (user_tbl (kyc_perform demo_kyc_conf demo_submit (demo_office demo_applicant))) (build_cpf_pk ''52998224725'') = Some (CpfI ''u'' n)"
proof -
  let ?t = "kyc_perform demo_kyc_conf demo_submit (demo_office demo_applicant)"
  have "kyc_step demo_kyc_conf (demo_office demo_applicant, {}) (?t, {})" by (rule kyc_step.call)
  then have run: "(kyc_step demo_kyc_conf)\<^sup>*\<^sup>* (demo_office demo_applicant, {}) (?t, {})" by simp
  obtain v where v: "user_at ?t ''u'' = Some v" "u_cpf v = ''52998224725''"
    using demo_verified by (auto split: option.splits)
  have "\<forall>uid u. user_at (demo_office demo_applicant) uid = Some u \<longrightarrow> u_pk u = build_pk uid \<and> u_cpf u = []"
    by (simp add: demo_user_at demo_applicant_def blank_user_def build_pk_def)
  from one_account_per_cpf [OF run demo_tame_store this v(1) v(1)] v(2) show ?thesis by simp
qed

section \<open>Where a check comes too early or never lets go\<close>

theorem expired_submission_stays_locked_witness:
  "submit_enhanced demo_kyc_conf ''u'' ''1.2.3.4'' (demo_office demo_queued) = (Inl ErrSubmissionLocked, demo_office demo_queued)"
proof -
  have s: "faults (demo_office demo_queued) = []" "user_at (demo_office demo_queued) ''u'' = Some demo_queued" "under_review demo_queued"
    by (simp_all add: demo_office_def user_at_def build_pk_def demo_queued_def under_review_def)
  have e: "submission_expired demo_queued (clock (demo_office demo_queued))"
    by (simp add: submission_expired_def demo_queued_def demo_office_def parse_time_def second_def)
  have d: "documents_enabled demo_kyc_conf" by (simp add: documents_enabled_def demo_kyc_conf_def)
  have t: "DocTypeIDBack \<in> set RequiredDocTypes" "is_valid_content_type ''image/png''" by code_simp+
  from expired_submission_stays_locked [OF s e d t] show ?thesis by blast
qed

theorem late_submission_undoes_approval_witness:
  "\<exists>s2 s3 v w. finish_enhanced demo_kyc_conf ''u'' ''1.2.3.4'' s2 = (Inr (), s3) \<and>
    user_at s2 ''u'' = Some v \<and> claim_level (u_kyc_level v) (u_kyc_status v) = ''enhanced'' \<and>
    user_at s3 ''u'' = Some w \<and> claim_level (u_kyc_level w) (u_kyc_status w) = ''basic''"
proof -
  have s: "faults (demo_office demo_ready) = []" "user_at (demo_office demo_ready) ''u'' = Some demo_ready"
    by (simp_all add: demo_user_at, simp add: demo_office_def)
  have b: "basic_verified demo_ready" by (simp add: basic_verified_def demo_ready_def)
  have "has_required_documents demo_papers" by code_simp
  then have r: "has_required_documents (u_kyc_documents demo_ready)" by (simp add: demo_ready_def)
  have d: "documents_enabled demo_kyc_conf" "kc_risk demo_kyc_conf = noop_evaluate"
    by (simp_all add: documents_enabled_def demo_kyc_conf_def)
  from late_submission_undoes_approval [OF s b r d, of "''1.2.3.4''" "\<lparr>ra_id = ''m'', ra_name = ''Mia''\<rparr>"]
  show ?thesis unfolding LevelEnhanced_def LevelBasic_def by blast
qed

end
