(* ===== verification/Spec2Isabelle.thy ===== *)
theory Spec2Isabelle
  imports DeletionLock TaxID LoginDemo OrgDemo KycDemo
begin

text \<open>
  \<^bold>\<open>A verification of ctech-account.\<close> The repository is the identity provider of a family of
  products: a Go service (\<open>src/api\<close>) that keeps users, sessions, refresh tokens, API keys, OAuth
  clients, consents, organizations and account deletions in DynamoDB and Valkey and issues the tokens
  the products accept. This development models the Go code as HOL functions and proves what the code
  promises.

  \<^bold>\<open>How the code is modelled.\<close> \<open>Prelude\<close> has the program type: a function of the state that returns
  an error or a value together with the new state (errors of the source are constructors of the
  error datatypes \<open>sess_err\<close>, \<open>user_err\<close>, \<open>del_err\<close>, \<open>reg_err\<close>, \<open>oauth_err\<close>, ...). The state is the
  record \<open>env\<close> (the clock, the source of random bytes and of identifiers, a stream of faults),
  extended theory by theory: by the tables of sessions, of API keys, of users, and by those of the
  deletions with the log of mails and published messages (\<open>del_db\<close>). The last field \<open>world\<close> is
  whatever else the program keeps: the scope registry with the cached catalog (\<open>scope_world\<close>), extended
  by the clients, authorization codes, consents and the audit trail (\<open>oauth_world\<close>) and, for the
  interactive endpoints, by the cache, the second factors and the mails (\<open>auth_world\<close>). The workspaces
  share only \<open>env\<close> with the rest of the program and have a state of their own (\<open>org_db\<close>).
  Every call of the database consumes a fault: it succeeds, it fails
  before its effect, or it takes effect and the answer is lost; the theorems hold for all streams of
  faults unless they say otherwise. A table is an association list with unique keys (\<open>tget\<close>,
  \<open>tput\<close>, \<open>tdel\<close>), a conditional write is \<open>db_cond\<close>. Strings are lists of bytes, byte strings lists
  of \<open>8 word\<close>, instants are \<open>int\<close> nanoseconds or seconds as the theory says, and a JSON attribute
  that may be absent is an \<open>option\<close>; lower case and white space are those of ASCII. Concurrency is the interleaving of whole service calls; where
  two calls race inside one operation, the operation is split at its write and the race is stated
  over the halves (\<open>finish_rotation\<close>, \<open>hold_lost_update\<close>, \<open>plan_step\<close>, \<open>join\<close>, \<open>check_basic\<close> with
  \<open>finish_basic\<close>, \<open>check_enhanced\<close> with \<open>finish_enhanced\<close>). SHA-256, argon2id, AES-GCM,
  \<open>net/url\<close>, the TOTP library, the answers of Google and of billing and the signature of a JWT are
  parameters. Reads of an index are modelled as reads of the table, sorted where the order
  matters (\<open>del_list_due\<close>).

  \<^bold>\<open>Parts and theories.\<close>
  \<^item> \<open>Crypto\<close>: \<open>internal/crypto/token.go\<close>, opaque tokens and their base-62 text.
  \<^item> \<open>Scopes\<close>: \<open>internal/scopes/scopes.go\<close>, the two scope patterns as regular expressions with a
    derivative matcher, against the documented grammar.
  \<^item> \<open>Sessions\<close>, \<open>SessionService\<close>: \<open>internal/domain/session\<close>: items, keys, repository, and the
    service with rotation of refresh tokens and detection of their reuse.
  \<^item> \<open>APIKeys\<close>: \<open>internal/domain/apikey\<close>. \<open>Password\<close>: \<open>internal/crypto/password.go\<close>.
  \<^item> \<open>Users\<close>, \<open>UserService\<close>: \<open>internal/domain/user\<close> and \<open>internal/legal\<close>: registration, login,
    Google identities, passwords, terms, the deletion gate and the purge.
  \<^item> \<open>Deletion\<close>, \<open>DeletionService\<close>: \<open>internal/domain/deletion\<close> (model, repository, service): the
    requests, the confirmation and cancel links, the worker, acknowledgements, legal holds. The
    interfaces of the Go service are fields of the record \<open>svc\<close>.
  \<^item> \<open>AccountDeletion\<close>: locker, purger, ownership, unlinker and the wiring of
    \<open>internal/app/deletion.go\<close>, which builds the \<open>svc\<close> the program runs (\<open>account_svc\<close>).
  \<^item> \<open>TaxID\<close>: \<open>internal/domain/company/taxid.go\<close>.
  \<^item> \<open>ScopeRegistry\<close>: \<open>internal/scopes\<close>: manifests, the resource servers with their revisions, the
    catalog and its cache, and which scopes may be granted.
  \<^item> \<open>OAuthClients\<close>: \<open>internal/domain/oauth/client\<close>: the clients, the developer page and the operator.
  \<^item> \<open>OAuthTokens\<close>: \<open>internal/domain/oauth/code\<close>, \<open>oauth/consent\<close>, \<open>domain/audit\<close>, the claims of
    \<open>internal/crypto/jwt.go\<close>, the cookies of \<open>handler/helpers.go\<close> and \<open>handler/token.go\<close>. A handler is
    a program that ends in a response or in a problem.
  \<^item> \<open>AuthCache\<close>: \<open>cache/valkey.go\<close> and what the interactive endpoints share: the state \<open>auth_world\<close>
    (\<open>oauth_world\<close> with the cache, the second factors and the mails), requests, queries of \<open>net/url\<close>.
  \<^item> \<open>Authorize\<close>: \<open>handler/authorize.go\<close>, \<open>handler/terms.go\<close>, \<open>handler/consents.go\<close>.
  \<^item> \<open>Secrets\<close>, \<open>Totp\<close>: \<open>internal/crypto/secret.go\<close>, \<open>domain/mfa/totp\<close> and \<open>handler/mfa.go\<close>: secrets at
    rest, the second factor and its backup codes.
  \<^item> \<open>Login\<close>, \<open>Social\<close>: \<open>handler/auth.go\<close> and \<open>handler/social.go\<close>: registration, the password and the
    second factor, logout, verification and recovery, the login with Google.
  \<^item> \<open>Sweep\<close>: \<open>DeleteAllUnder\<close> of \<open>internal/database/dynamo.go\<close>.
  \<^item> \<open>Organizations\<close>, \<open>OrgService\<close>: \<open>internal/domain/organization\<close>: roles and kinds, the three tables and
    their transactions, the guard counters and the eraser (\<open>model.go\<close>, \<open>kind.go\<close>, \<open>repository.go\<close>,
    \<open>counters.go\<close>, \<open>eraser.go\<close>); the service with members, hand-over and invitations, and the plan of the
    owner of a personal space (\<open>service.go\<close>, \<open>planlimit.go\<close>).
  \<^item> \<open>Kyc\<close>: \<open>internal/domain/kyc\<close> and \<open>internal/domain/risk\<close>: the two tiers of identity verification. Its rows
    are those of the users table: the fields of a user, the lock of a CPF (\<open>CpfI\<close>) and an announced upload
    (\<open>IntentI\<close>). The check of a CPF, the object store and the score are fields of \<open>kyc_conf\<close>; the background
    deletion of rejected objects happens in place, and the pages of a scan are read as one.

  \<^bold>\<open>Interfaces.\<close> \<open>DeletionContract\<close> has the locale \<open>deletion_service\<close>: the laws the deletion service
  needs of its collaborators (locking, erasing and purging leave the requests, markers and rows
  alone and report only what was asked) and, inside it, the invariant of the requests and its
  preservation by every operation. \<open>AccountDeletion\<close> interprets it on \<open>account_svc\<close>.
  The locale \<open>step_order\<close> of the prelude says that a reflexive and transitive relation of states is
  kept along a program; its interpretations (\<open>keeps\<close>, \<open>kept\<close>, \<open>only_faults\<close>, ...) carry the frame
  lemmas. The locale \<open>view_step\<close> (\<open>Views\<close>) is a relation between the states before and after a call that
  sees only a view of the state: reads leave it alone, so a call has it when its one write has it; it is
  interpreted on what a verification call may change (\<open>kyc_change\<close>). \<open>viewed_step\<close> (\<open>OrgRuns\<close>) extends it
  to the workspaces with their guarded writes and is interpreted on the change of roles, of invitations
  and of owners. The locale \<open>table_field\<close> (\<open>Sweep\<close>) is a
  table of the state with its update; inside it the sweep is shown to end, and it is interpreted on
  the tables of members, invitations and workspaces.

  \<^bold>\<open>What is shown.\<close>
  \<^item> \<open>DeletionRuns\<close>: over all sequences of calls (\<open>del_step\<close>), with faults: the grace period, the
    acknowledgements before a purge, one open request per user, the state machine, and that no
    request is forgotten by the worker.
  \<^item> \<open>DeletionLinks\<close>, \<open>DeletionWorker\<close>, \<open>DeletionLock\<close>: the two kinds of links, legal holds and the
    backoff of reconciliation, the assessment of ownership, and what a lock does to an account.
  \<^item> \<open>SessionService\<close>: over all calls (\<open>sess_step\<close>) with the pruning of expired items between them: reuse of
    a rotated token ends the session; rotation, exactness of the revocations, shape of the
    tables. \<open>UserService\<close>: no takeover by a Google login, one account per
    address, exactness of login and purge. \<open>APIKeys\<close>, \<open>Password\<close>, \<open>Crypto\<close>, \<open>Scopes\<close>, \<open>TaxID\<close>:
    life of a key, round trips, equivalence of the scope patterns with a grammar and of the check digits with the published rule.
  \<^item> \<open>RegistryRuns\<close>: the history of a resource server, one owner per scope, guarded publication, and
    which scopes are grantable. \<open>ClientRuns\<close>, \<open>ClientTrust\<close>: over all commands of the registry, the
    developer page and the operator (\<open>client_step\<close>), who may hold internal scopes and be first party.
  \<^item> \<open>TokenRuns\<close>: a code is worth exactly what was authorized and only once, a refresh never widens a
    grant, no token for an account being deleted, what a machine gets. \<open>TokenDemo\<close> runs the endpoint on
    concrete states.
  \<^item> \<open>AuthorizeRuns\<close>, \<open>ConsentRuns\<close>: whatever address the authorize endpoint answers with is one of the
    service's own pages or a registered redirect address; a token goes back to a sign-in, an authorization
    request and, where needed, a consent; the consent rows refine a map from users and clients to sets of
    scopes; the exact answer of \<open>max_age\<close> and of the consent page. \<open>AuthorizeDemo\<close> runs them.
  \<^item> \<open>LoginRuns\<close>, \<open>LoginLimits\<close>, \<open>SocialRuns\<close>: what an answer of the password login and of the second
    factor means, how many codes can be guessed, the reset of a password, and that the Google login sends
    the browser only to known places. \<open>LoginDemo\<close> runs the handlers.
  \<^item> \<open>OrgRuns\<close>: over all calls of the workspace service (\<open>org_call\<close>, \<open>org_step\<close>), with faults: who may change
    a role or offer one, one owner per workspace, and that the eraser ends. \<open>OrgLimits\<close>: over calls and
    creations split at their write (\<open>plan_step\<close>), nobody owns more spaces than the plan allows; two races the
    service does not exclude, \<open>reconcile_breaks_plan\<close> and \<open>withdrawn_offer_admits\<close>. \<open>OrgDemo\<close> runs the service.
  \<^item> \<open>KycRuns\<close>, \<open>KycCpf\<close>: over the calls of identity verification (\<open>kyc_call\<close>, \<open>kyc_step\<close>), with faults: what a
    call may change of a person's record, one account per CPF even when submissions overlap, and two places
    where a check never lets go or comes too early. \<open>KycDemo\<close> runs them.
  \<^item> \<open>empty_scope_bypasses_check\<close> (\<open>EmptyScope\<close>), \<open>native_refresh_withheld\<close>, \<open>lost_answer_frees_address\<close>,
    \<open>empty_subject_enters\<close>, \<open>hold_misses_locked\<close> and \<open>hold_lost_update\<close> exhibit behaviour of the code that its comments exclude.

  \<^bold>\<open>Termination and bounds.\<close> Every definition is a total function; loops of the source are structural
  recursions over lists or counters and there is no fuel, except for \<open>delete_all_under\<close>, whose loop has
  no bound in the source: it is a partial function, shown to return (\<open>erase_organization_ends\<close>). The loops
  that retry a guarded write make three attempts, as the source does. \<open>spaces_within_plan\<close> asks that a
  reconciled person is in at most 200 workspaces, the page the source reads.

  \<^bold>\<open>Not modelled.\<close> The HTTP and JSON layers and the texts of problems; step-up, the hand-off of a
  session and passkeys; companies, support tickets, data export and the reports to billing; the middleware; the rotation of signing keys; clients of mail, geolocation, billing and S3.
\<close>

end
